(* ===== verification/Odis_Prelude.thy ===== *)
theory Odis_Prelude
  imports
    Complex_Main
    "HOL-Library.Product_Lexorder"
    "HOL-Library.List_Lexorder"
    "HOL-Library.Char_ord"
    "HOL-Library.Multiset"
    "HOL-Library.Sublist"
begin

text \<open>
  What every component of the ODIS model shares: Python exceptions as values, the chain of
  \<^verbatim>\<open>if not ...: raise\<close> checks of a \<^verbatim>\<open>__post_init__\<close>, list comprehensions that may raise,
  Python string primitives, stable sorting by a key, insertion-ordered dictionaries, and
  generic interfaces (a write-once store, a machine driven by a list of inputs) that the
  components interpret. Strings are \<^typ>\<open>string\<close> (the UTF-8 bytes); instants are integers
  (microseconds since the epoch in UTC, all comparable, as timezone-aware datetimes are).
\<close>

named_theorems validation \<open>outcome of a constructor's checks\<close>
named_theorems stage_defs \<open>definitions unfolded by the proofs about the reasoning stages\<close>

type_synonym datetime = int

section \<open>Exceptions as values\<close>

text \<open>The built-in exceptions the modelled code raises or lets escape, with their messages.\<close>

datatype py_error =
    ValueError string
  | KeyError string
  | IndexError string
  | ZeroDivisionError
  | AppError string string
  | TypeError string
  | RuntimeError string
  | AssertionError
  | OverflowError

type_synonym 'a result = "py_error + 'a"

abbreviation Err :: "'e \<Rightarrow> 'e + 'a" where
  "Err \<equiv> Inl"

abbreviation Ok :: "'a \<Rightarrow> 'e + 'a" where
  "Ok \<equiv> Inr"

fun res_bind :: "'e + 'a \<Rightarrow> ('a \<Rightarrow> 'e + 'b) \<Rightarrow> 'e + 'b" where
  "res_bind (Inl e) f = Inl e"
| "res_bind (Inr x) f = f x"

lemma res_bind_Ok_iff: "res_bind r f = Inr y \<longleftrightarrow> (\<exists>x. r = Inr x \<and> f x = Inr y)"
  by (cases r) auto

lemma res_bind_Ok_E [elim]:
  assumes "res_bind r f = Inr y"
  obtains x where "r = Inr x" and "f x = Inr y"
  using assms by (auto simp: res_bind_Ok_iff)

lemma res_bind_Err_iff:
  "res_bind r f = Inl e \<longleftrightarrow> r = Inl e \<or> (\<exists>x. r = Inr x \<and> f x = Inl e)"
  by (cases r) auto

lemma res_bind_cong [fundef_cong]:
  "r = r' \<Longrightarrow> (\<And>x. r' = Inr x \<Longrightarrow> f x = f' x) \<Longrightarrow> res_bind r f = res_bind r' f'"
  by (cases r') auto

text \<open>A list comprehension, or a loop that appends, whose body may raise.\<close>

fun res_map :: "('a \<Rightarrow> 'e + 'b) \<Rightarrow> 'a list \<Rightarrow> 'e + 'b list" where
  "res_map f [] = Inr []"
| "res_map f (x # xs) = res_bind (f x) (\<lambda>y. res_bind (res_map f xs) (\<lambda>ys. Inr (y # ys)))"

lemma res_map_Ok_iff: "res_map f xs = Inr ys \<longleftrightarrow> list_all2 (\<lambda>x y. f x = Inr y) xs ys"
proof (induction xs arbitrary: ys)
  case Nil
  then show ?case by auto
next
  case (Cons x xs)
  then show ?case by (cases ys) (auto simp: res_bind_Ok_iff)
qed

lemma res_map_length: "res_map f xs = Inr ys \<Longrightarrow> length ys = length xs"
  by (simp add: res_map_Ok_iff list_all2_lengthD)

lemma res_map_pure: "(\<And>x. x \<in> set xs \<Longrightarrow> f x = Inr (g x)) \<Longrightarrow> res_map f xs = Inr (map g xs)"
  by (induction xs) auto

lemma res_map_Err:
  "res_map f xs = Inl e \<Longrightarrow> \<exists>x\<in>set xs. f x = Inl e"
  by (induction xs) (auto simp: res_bind_Err_iff)

lemma res_map_total: "(\<And>x. x \<in> set xs \<Longrightarrow> \<exists>y. f x = Inr y) \<Longrightarrow> \<exists>ys. res_map f xs = Inr ys"
  by (induction xs) (auto, fastforce)

text \<open>A loop that threads a state and stops at the first exception.\<close>

fun res_fold :: "('a \<Rightarrow> 's \<Rightarrow> 'e + 's) \<Rightarrow> 'a list \<Rightarrow> 's \<Rightarrow> 'e + 's" where
  "res_fold f [] s = Inr s"
| "res_fold f (x # xs) s = res_bind (f x s) (res_fold f xs)"

lemma res_fold_append:
  "res_fold f (xs @ ys) s = res_bind (res_fold f xs s) (res_fold f ys)"
  by (induction xs arbitrary: s) (auto split: sum.splits, metis res_bind.simps sum.exhaust)

lemma res_fold_invariant:
  assumes "res_fold f xs s = Inr t" and "P s"
    and "\<And>x u v. x \<in> set xs \<Longrightarrow> P u \<Longrightarrow> f x u = Inr v \<Longrightarrow> P v"
  shows "P t"
  using assms
proof (induction xs arbitrary: s)
  case Nil
  then show ?case by simp
next
  case (Cons x xs)
  then obtain u where "f x s = Inr u" and "res_fold f xs u = Inr t"
    by (auto simp: res_bind_Ok_iff)
  moreover have "P u"
    by (rule Cons.prems(3) [of x s]) (use Cons.prems(2) \<open>f x s = Inr u\<close> in auto)
  ultimately show ?case using Cons.IH [of u] Cons.prems(3) by auto
qed

section \<open>Constructors that validate\<close>

text \<open>
  A \<^verbatim>\<open>__post_init__\<close> is a chain of \<^verbatim>\<open>if not ok: raise e\<close>: the first failing check decides
  the exception, and the object exists only when every check passes.
\<close>

fun require :: "(bool \<times> 'e) list \<Rightarrow> 'e + unit" where
  "require [] = Inr ()"
| "require ((ok, e) # cs) = (if ok then require cs else Inl e)"

definition construct :: "(bool \<times> 'e) list \<Rightarrow> 'a \<Rightarrow> 'e + 'a" where
  "construct cs x = res_bind (require cs) (\<lambda>_. Inr x)"

lemma require_Ok_iff: "require cs = Inr u \<longleftrightarrow> list_all fst cs"
  by (induction cs rule: require.induct) auto

lemma construct_Nil [simp]: "construct [] x = Inr x"
  by (simp add: construct_def)

lemma construct_Cons:
  "construct ((ok, e) # cs) x = (if ok then construct cs x else Inl e)"
  by (simp add: construct_def)

lemma construct_Ok_iff [validation]: "construct cs x = Inr y \<longleftrightarrow> y = x \<and> list_all fst cs"
  by (induction cs rule: require.induct) (auto simp: construct_Cons)

lemma construct_first_error:
  "list_all fst cs \<Longrightarrow> construct (cs @ (False, e) # ds) x = Inl e"
  by (induction cs) (auto simp: construct_Cons)

lemma construct_Err: "construct cs x = Inl e \<Longrightarrow> (False, e) \<in> set cs"
  by (induction cs rule: require.induct) (auto simp: construct_Cons split: if_splits)

abbreviation nonempty_check :: "string \<Rightarrow> string \<Rightarrow> bool \<times> py_error" where
  "nonempty_check field s \<equiv> (s \<noteq> [], ValueError (field @ '' must not be empty''))"

section \<open>Python strings\<close>

definition ascii_lower_char :: "char \<Rightarrow> char" where
  "ascii_lower_char c =
     (let n = of_char c :: nat in if 65 \<le> n \<and> n \<le> 90 then char_of (n + 32) else c)"

definition ascii_upper_char :: "char \<Rightarrow> char" where
  "ascii_upper_char c =
     (let n = of_char c :: nat in if 97 \<le> n \<and> n \<le> 122 then char_of (n - 32) else c)"

text \<open>\<^verbatim>\<open>str.lower\<close> and \<^verbatim>\<open>str.casefold\<close> agree on ASCII text.\<close>

definition py_lower :: "string \<Rightarrow> string" where
  "py_lower s = map ascii_lower_char s"

definition casefold :: "string \<Rightarrow> string" where
  "casefold s = py_lower s"

definition capitalize :: "string \<Rightarrow> string" where
  "capitalize s = (case s of [] \<Rightarrow> [] | c # cs \<Rightarrow> ascii_upper_char c # py_lower cs)"

text \<open>\<^verbatim>\<open>s.replace(a, b)\<close> for a single character \<open>a\<close>.\<close>

definition replace_char :: "char \<Rightarrow> string \<Rightarrow> string \<Rightarrow> string" where
  "replace_char a b s = concat (map (\<lambda>c. if c = a then b else [c]) s)"

text \<open>\<^verbatim>\<open>sub in s\<close>: substring search.\<close>

fun py_in :: "string \<Rightarrow> string \<Rightarrow> bool" where
  "py_in sub [] = (sub = [])"
| "py_in sub (c # cs) = (prefix sub (c # cs) \<or> py_in sub cs)"

lemma py_in_iff: "py_in sub s \<longleftrightarrow> (\<exists>p q. s = p @ sub @ q)"
proof (induction s)
  case Nil
  then show ?case by auto
next
  case (Cons c cs)
  show ?case
  proof
    assume "py_in sub (c # cs)"
    then consider "prefix sub (c # cs)" | "py_in sub cs" by auto
    then show "\<exists>p q. c # cs = p @ sub @ q"
    proof cases
      case 1
      then show ?thesis by (auto simp: prefix_def intro: exI [of _ "[]"])
    next
      case 2
      with Cons obtain p q where "cs = p @ sub @ q" by blast
      then have "c # cs = (c # p) @ sub @ q" by simp
      then show ?thesis by blast
    qed
  next
    assume "\<exists>p q. c # cs = p @ sub @ q"
    then obtain p q where pq: "c # cs = p @ sub @ q" by blast
    show "py_in sub (c # cs)"
    proof (cases p)
      case Nil
      with pq have "prefix sub (c # cs)" by (auto simp: prefix_def)
      then show ?thesis by simp
    next
      case (Cons d p')
      with pq have "cs = p' @ sub @ q" by simp
      with Cons.IH show ?thesis by auto
    qed
  qed
qed

lemma py_in_append: "py_in sub s \<Longrightarrow> py_in sub (s @ t)"
  unfolding py_in_iff by (metis append.assoc)

text \<open>A word without the character \<open>c\<close> does not straddle an occurrence of \<open>c\<close>.\<close>

lemma prefix_no_straddle: "c \<notin> set w \<Longrightarrow> prefix w (a @ c # b) \<longleftrightarrow> prefix w a"
proof (induction a arbitrary: w)
  case Nil
  then show ?case by (cases w) auto
next
  case (Cons x a)
  then show ?case by (cases w) auto
qed

lemma py_in_no_straddle:
  "c \<notin> set w \<Longrightarrow> w \<noteq> [] \<Longrightarrow> py_in w (a @ c # b) \<longleftrightarrow> py_in w a \<or> py_in w b"
proof (induction a)
  case Nil
  then show ?case by (cases w) auto
next
  case (Cons x a)
  then show ?case using prefix_no_straddle [of c w "x # a" b] by auto
qed

lemma casefold_append [simp]: "casefold (s @ t) = casefold s @ casefold t"
  by (simp add: casefold_def py_lower_def)

text \<open>\<^verbatim>\<open>str(n)\<close> for an integer: its decimal digits.\<close>

function dec_digits :: "int \<Rightarrow> string" where
  "dec_digits n =
     (if n < 10 then [char_of (48 + nat n)]
      else dec_digits (n div 10) @ [char_of (48 + nat (n mod 10))])"
  by auto
termination by (relation "measure nat") auto

declare dec_digits.simps [simp del]

definition nat_str :: "nat \<Rightarrow> string" where
  "nat_str n = dec_digits (int n)"

definition int_str :: "int \<Rightarrow> string" where
  "int_str i = (if i < 0 then ''-'' @ dec_digits (- i) else dec_digits i)"

lemma dec_digits_nonempty [simp]: "dec_digits n \<noteq> []"
  by (subst dec_digits.simps) simp

lemma nat_str_nonempty [simp]: "nat_str n \<noteq> []"
  by (simp add: nat_str_def)

lemma int_str_nonempty [simp]: "int_str i \<noteq> []"
  by (simp add: int_str_def)

text \<open>The digits read back as the number, so different numbers print differently.\<close>

definition digits_value :: "string \<Rightarrow> int" where
  "digits_value s = foldl (\<lambda>acc c. 10 * acc + (int (of_char c) - 48)) 0 s"

lemma digit_char: "0 \<le> d \<Longrightarrow> d < 10 \<Longrightarrow> int (of_char (char_of (48 + nat d))) = 48 + d"
  by (simp only: of_char_of) simp

lemma digits_value_snoc:
  "digits_value (s @ [c]) = 10 * digits_value s + (int (of_char c) - 48)"
  by (simp add: digits_value_def)

lemma digits_value_dec_digits: "0 \<le> n \<Longrightarrow> digits_value (dec_digits n) = n"
proof (induction n rule: dec_digits.induct)
  case (1 n)
  show ?case
  proof (cases "n < 10")
    case True
    then have "dec_digits n = [] @ [char_of (48 + nat n)]" by (subst dec_digits.simps) simp
    then show ?thesis
      using 1(2) True by (simp only: digits_value_snoc digit_char) (simp add: digits_value_def)
  next
    case False
    then have "dec_digits n = dec_digits (n div 10) @ [char_of (48 + nat (n mod 10))]"
      by (subst dec_digits.simps) simp
    moreover have "digits_value (dec_digits (n div 10)) = n div 10" using 1 False by simp
    ultimately have "digits_value (dec_digits n) = 10 * (n div 10) + n mod 10"
      by (simp only: digits_value_snoc) (simp add: digit_char)
    then show ?thesis by simp
  qed
qed

lemma nat_str_inject [simp]: "nat_str m = nat_str n \<longleftrightarrow> m = n"
proof
  assume "nat_str m = nat_str n"
  then have "digits_value (dec_digits (int m)) = digits_value (dec_digits (int n))"
    by (simp only: nat_str_def)
  then show "m = n" by (simp only: digits_value_dec_digits of_nat_0_le_iff of_nat_eq_iff)
qed simp

text \<open>\<^verbatim>\<open>sep.join(parts)\<close>.\<close>

fun str_join :: "string \<Rightarrow> string list \<Rightarrow> string" where
  "str_join sep [] = []"
| "str_join sep [s] = s"
| "str_join sep (s # t # ts) = s @ sep @ str_join sep (t # ts)"

text \<open>A separator character that occurs in no part makes the join injective.\<close>

lemma split_unique:
  assumes "a @ c # x = b @ c # y" and "c \<notin> set a" and "c \<notin> set b"
  shows "a = b \<and> x = y"
  using assms
proof (induction a arbitrary: b)
  case Nil
  then show ?case by (cases b) auto
next
  case (Cons h a)
  then show ?case by (cases b) auto
qed

lemma str_join_inject:
  assumes "str_join [c] ss = str_join [c] ts" and "length ss = length ts"
    and "\<And>s. s \<in> set ss \<union> set ts \<Longrightarrow> c \<notin> set s"
  shows "ss = ts"
  using assms
proof (induction "[c]" ss arbitrary: ts rule: str_join.induct)
  case 1
  then show ?case by simp
next
  case (2 s)
  then show ?case by (cases ts) auto
next
  case (3 s t us)
  then obtain s' t' us' where ts: "ts = s' # t' # us'" and len: "length us = length us'"
    by (cases ts; cases "tl ts") auto
  from 3(2) ts have "s @ c # str_join [c] (t # us) = s' @ c # str_join [c] (t' # us')"
    by simp
  then have "s = s' \<and> str_join [c] (t # us) = str_join [c] (t' # us')"
    by (rule split_unique) (use 3(4) ts in auto)
  with 3(1) [of "t' # us'"] 3(4) len ts show ?case by auto
qed

section \<open>Sorting by a key\<close>

text \<open>
  Python's \<^verbatim>\<open>sorted(xs, key=k)\<close> is stable, as the library's \<^const>\<open>sort_key\<close> is;
  \<^verbatim>\<open>reverse=True\<close> keeps the order of equal elements.
\<close>

definition sorted_by :: "('a \<Rightarrow> 'k::linorder) \<Rightarrow> 'a list \<Rightarrow> 'a list" where
  "sorted_by k xs = sort_key k xs"

definition sorted_by_desc :: "('a \<Rightarrow> 'k::linorder) \<Rightarrow> 'a list \<Rightarrow> 'a list" where
  "sorted_by_desc k xs = rev (sort_key k (rev xs))"

lemma set_sorted_by [simp]: "set (sorted_by k xs) = set xs"
  by (simp add: sorted_by_def)

lemma length_sorted_by [simp]: "length (sorted_by k xs) = length xs"
  by (simp add: sorted_by_def)

lemma mset_sorted_by [simp]: "mset (sorted_by k xs) = mset xs"
  by (simp add: sorted_by_def)

lemma distinct_map_sorted_by [simp]: "distinct (map f (sorted_by k xs)) = distinct (map f xs)"
proof -
  have "mset (map f (sorted_by k xs)) = mset (map f xs)"
    by simp
  then show ?thesis by (metis mset_eq_imp_distinct_iff)
qed

lemma sorted_by_sorted: "sorted (map k (sorted_by k xs))"
  by (simp add: sorted_by_def)

lemma sorted_by_id: "sorted (map k xs) \<Longrightarrow> sorted_by k xs = xs"
  by (simp add: sorted_by_def sort_key_id_if_sorted)

lemma set_sorted_by_desc [simp]: "set (sorted_by_desc k xs) = set xs"
  by (simp add: sorted_by_desc_def)

lemma length_sorted_by_desc [simp]: "length (sorted_by_desc k xs) = length xs"
  by (simp add: sorted_by_desc_def)

text \<open>\<^verbatim>\<open>xs[-n:]\<close> for \<open>n > 0\<close>: the last \<open>n\<close> elements.\<close>

definition take_last :: "nat \<Rightarrow> 'a list \<Rightarrow> 'a list" where
  "take_last n xs = drop (length xs - n) xs"

lemma take_last_append: "\<exists>ys. xs = ys @ take_last n xs"
  by (rule exI [of _ "take (length xs - n) xs"]) (simp add: take_last_def)

lemma length_take_last [simp]: "length (take_last n xs) = min n (length xs)"
  by (simp add: take_last_def)

lemma set_take_last: "set (take_last n xs) \<subseteq> set xs"
  by (simp add: take_last_def set_drop_subset)

section \<open>Dictionaries in insertion order\<close>

text \<open>
  A Python \<^verbatim>\<open>dict\<close> (or \<^verbatim>\<open>OrderedDict\<close>) is an association list with distinct keys, oldest key
  first: a store to an existing key keeps its position, a new key goes to the end.
\<close>

type_synonym ('k, 'v) dict = "('k \<times> 'v) list"

definition dict_wf :: "('k, 'v) dict \<Rightarrow> bool" where
  "dict_wf d \<longleftrightarrow> distinct (map fst d)"

fun dict_set :: "'k \<Rightarrow> 'v \<Rightarrow> ('k, 'v) dict \<Rightarrow> ('k, 'v) dict" where
  "dict_set k v [] = [(k, v)]"
| "dict_set k v ((k', v') # d) = (if k' = k then (k, v) # d else (k', v') # dict_set k v d)"

definition dict_del :: "'k \<Rightarrow> ('k, 'v) dict \<Rightarrow> ('k, 'v) dict" where
  "dict_del k d = filter (\<lambda>(k', _). k' \<noteq> k) d"

definition dict_keys :: "('k, 'v) dict \<Rightarrow> 'k list" where
  "dict_keys d = map fst d"

definition dict_values :: "('k, 'v) dict \<Rightarrow> 'v list" where
  "dict_values d = map snd d"

lemma map_of_dict_set [simp]: "map_of (dict_set k v d) = (map_of d)(k \<mapsto> v)"
  by (induction d) auto

lemma fst_set_dict_set [simp]: "fst ` set (dict_set k v d) = insert k (fst ` set d)"
  by (induction k v d rule: dict_set.induct) auto

lemma dict_wf_set [simp]: "dict_wf d \<Longrightarrow> dict_wf (dict_set k v d)"
  unfolding dict_wf_def
proof (induction k v d rule: dict_set.induct)
  case (2 k v k' v' d)
  then show ?case by (simp add: image_set del: set_map flip: list.set_map) auto
qed simp

lemma map_of_dict_del [simp]: "map_of (dict_del k d) = (map_of d)(k := None)"
  by (induction d) (auto simp: dict_del_def)

lemma dict_wf_del [simp]: "dict_wf d \<Longrightarrow> dict_wf (dict_del k d)"
  by (auto simp: dict_wf_def dict_del_def distinct_map intro: inj_on_subset)

lemma length_dict_set:
  "length (dict_set k v d) = (if k \<in> fst ` set d then length d else Suc (length d))"
  by (induction d) (auto simp: rev_image_eqI)

lemma dict_set_new: "k \<notin> fst ` set d \<Longrightarrow> dict_set k v d = d @ [(k, v)]"
  by (induction d) auto

lemma dict_keys_set:
  "dict_keys (dict_set k v d) = (if k \<in> set (dict_keys d) then dict_keys d else dict_keys d @ [k])"
  by (induction d) (auto simp: dict_keys_def rev_image_eqI)

text \<open>\<^verbatim>\<open>d.setdefault(k, []).append(x)\<close>, the grouping loop of several components.\<close>

definition group_add :: "'k \<Rightarrow> 'v \<Rightarrow> ('k, 'v list) dict \<Rightarrow> ('k, 'v list) dict" where
  "group_add k x d = dict_set k ((case map_of d k of None \<Rightarrow> [] | Some xs \<Rightarrow> xs) @ [x]) d"

definition group_by :: "('a \<Rightarrow> 'k) \<Rightarrow> 'a list \<Rightarrow> ('k, 'a list) dict" where
  "group_by key xs = fold (\<lambda>x d. group_add (key x) x d) xs []"

lemma group_by_snoc: "group_by key (xs @ [x]) = group_add (key x) x (group_by key xs)"
  by (simp add: group_by_def)

lemma map_of_group_by:
  "map_of (group_by key xs) k =
     (if k \<in> key ` set xs then Some (filter (\<lambda>x. key x = k) xs) else None)"
proof (induction xs rule: rev_induct)
  case Nil
  then show ?case by (simp add: group_by_def)
next
  case (snoc x xs)
  then show ?case
    by (auto simp: group_by_snoc group_add_def filter_empty_conv rev_image_eqI
        intro!: sym [of "filter _ _"])
qed

lemma dict_wf_group_by [simp]: "dict_wf (group_by key xs)"
proof (induction xs rule: rev_induct)
  case Nil
  then show ?case by (simp add: group_by_def dict_wf_def)
next
  case (snoc x xs)
  then show ?case by (simp add: group_by_snoc group_add_def)
qed

lemma dict_values_group_by:
  "ys \<in> set (dict_values (group_by key xs)) \<longleftrightarrow>
     (\<exists>k \<in> key ` set xs. ys = filter (\<lambda>x. key x = k) xs)"
proof -
  have "ys \<in> set (dict_values (group_by key xs)) \<longleftrightarrow> (\<exists>k. map_of (group_by key xs) k = Some ys)"
    using dict_wf_group_by [of key xs]
    by (force simp: dict_values_def dict_wf_def intro: map_of_is_SomeI dest: map_of_SomeD)
  then show ?thesis by (auto simp: map_of_group_by split: if_splits)
qed

section \<open>Identifiers and clocks\<close>

text \<open>
  \<^verbatim>\<open>uuid4()\<close> and \<^verbatim>\<open>datetime.now(UTC)\<close> are read from a runtime: the n-th call of each
  returns the n-th element of a sequence the environment chooses.
\<close>

record runtime =
  rt_uuids :: "nat \<Rightarrow> string"
  rt_clock :: "nat \<Rightarrow> datetime"
  rt_uuid_count :: nat
  rt_clock_count :: nat

definition uuid4 :: "runtime \<Rightarrow> string \<times> runtime" where
  "uuid4 rt = (rt_uuids rt (rt_uuid_count rt), rt\<lparr>rt_uuid_count := Suc (rt_uuid_count rt)\<rparr>)"

definition utc_now :: "runtime \<Rightarrow> datetime \<times> runtime" where
  "utc_now rt = (rt_clock rt (rt_clock_count rt), rt\<lparr>rt_clock_count := Suc (rt_clock_count rt)\<rparr>)"

text \<open>What the code relies on of \<^verbatim>\<open>uuid4\<close>: identifiers are non-empty and never repeat.\<close>

definition uuids_fresh :: "runtime \<Rightarrow> bool" where
  "uuids_fresh rt \<longleftrightarrow> inj (rt_uuids rt) \<and> (\<forall>n. rt_uuids rt n \<noteq> [])"

text \<open>A concrete runtime for examples.\<close>

definition demo_runtime :: runtime where
  "demo_runtime = \<lparr>rt_uuids = (\<lambda>n. replicate (Suc n) (CHR ''u'')), rt_clock = (\<lambda>n. int n),
     rt_uuid_count = 0, rt_clock_count = 0\<rparr>"

lemma demo_runtime_fresh: "uuids_fresh demo_runtime"
  by (auto simp: uuids_fresh_def demo_runtime_def intro: injI)

section \<open>Generic interfaces\<close>

text \<open>
  A write-once store keyed by an identifier: a save of a known identifier is refused and
  leaves nothing behind, any other save adds exactly that entry.
\<close>

locale write_once_store =
  fixes emp :: 's
    and get :: "'s \<Rightarrow> 'k \<Rightarrow> 'v option"
    and save :: "'v \<Rightarrow> 's \<Rightarrow> 'e + 's"
    and ident :: "'v \<Rightarrow> 'k"
  assumes get_emp: "get emp k = None"
    and save_fresh: "get s (ident v) = None \<Longrightarrow>
          \<exists>s'. save v s = Inr s' \<and> get s' = (get s)(ident v \<mapsto> v)"
    and save_known: "get s (ident v) \<noteq> None \<Longrightarrow> \<exists>e. save v s = Inl e"
begin

lemma save_OkD:
  assumes "save v s = Inr s'"
  shows "get s (ident v) = None" and "get s' = (get s)(ident v \<mapsto> v)"
proof -
  show fresh: "get s (ident v) = None"
    using assms save_known [of s v] by (cases "get s (ident v)") auto
  show "get s' = (get s)(ident v \<mapsto> v)"
    using assms save_fresh [OF fresh] by auto
qed

lemma read_your_write: "save v s = Inr s' \<Longrightarrow> get s' (ident v) = Some v"
  by (simp add: save_OkD)

lemma never_overwritten: "save v s = Inr s' \<Longrightarrow> get s k = Some w \<Longrightarrow> get s' k = Some w"
  by (auto simp: save_OkD dest: save_OkD(1))

lemma save_all_Ok:
  assumes "distinct (map ident vs)" and "\<And>v. v \<in> set vs \<Longrightarrow> get s (ident v) = None"
  shows "\<exists>s'. res_fold save vs s = Inr s' \<and>
           get s' = (\<lambda>k. case map_of (map (\<lambda>v. (ident v, v)) vs) k of
                            Some v \<Rightarrow> Some v | None \<Rightarrow> get s k)"
  using assms
proof (induction vs arbitrary: s)
  case Nil
  then show ?case by simp
next
  case (Cons v vs)
  obtain s1 where s1: "save v s = Inr s1" "get s1 = (get s)(ident v \<mapsto> v)"
    using save_fresh [of s v] Cons.prems(2) by auto
  have "\<And>w. w \<in> set vs \<Longrightarrow> get s1 (ident w) = None"
    using Cons.prems s1(2) by (force simp: image_iff)
  then obtain s2 where "res_fold save vs s1 = Inr s2"
    and s2: "get s2 = (\<lambda>k. case map_of (map (\<lambda>v. (ident v, v)) vs) k of
                            Some v \<Rightarrow> Some v | None \<Rightarrow> get s1 k)"
    using Cons.IH [of s1] Cons.prems(1) by auto
  moreover have "map_of (map (\<lambda>v. (ident v, v)) vs) (ident v) = None"
    using Cons.prems(1) by (auto simp: map_of_eq_None_iff)
  then have "get s2 = (\<lambda>k. case map_of (map (\<lambda>v. (ident v, v)) (v # vs)) k of
                            Some v \<Rightarrow> Some v | None \<Rightarrow> get s k)"
    by (auto simp: s2 s1(2) fun_eq_iff split: option.splits)
  ultimately show ?case using s1(1) by auto
qed

lemma save_all_get_Some:
  "res_fold save vs s = Inr s' \<Longrightarrow> v \<in> set vs \<Longrightarrow> get s' (ident v) = Some v"
proof (induction vs arbitrary: s)
  case Nil
  then show ?case by simp
next
  case (Cons w vs)
  from Cons.prems(1) obtain s1 where s1: "save w s = Inr s1" "res_fold save vs s1 = Inr s'"
    by (auto simp: res_bind_Ok_iff)
  have keep: "get s' (ident w) = Some w"
    by (rule res_fold_invariant [OF s1(2), where P = "\<lambda>t. get t (ident w) = Some w"])
      (use s1(1) read_your_write never_overwritten in blast)+
  show ?case
  proof (cases "v \<in> set vs")
    case True
    with Cons.IH s1(2) show ?thesis by blast
  next
    case False
    with Cons.prems(2) keep show ?thesis by auto
  qed
qed

end

text \<open>
  A machine driven by a list of inputs: an invariant that the initial state has and every
  step keeps holds after any run.
\<close>

locale driven_machine =
  fixes step :: "'i \<Rightarrow> 's \<Rightarrow> 's"
    and start :: 's
    and input_ok :: "'i \<Rightarrow> bool"
    and inv :: "'s \<Rightarrow> bool"
  assumes inv_start: "inv start"
    and inv_step: "inv s \<Longrightarrow> input_ok i \<Longrightarrow> inv (step i s)"
begin

lemma inv_fold: "inv s \<Longrightarrow> \<forall>i \<in> set is. input_ok i \<Longrightarrow> inv (fold step is s)"
  by (induction "is" arbitrary: s) (auto intro: inv_step)

lemma inv_run: "\<forall>i \<in> set is. input_ok i \<Longrightarrow> inv (fold step is start)"
  by (rule inv_fold) (rule inv_start)

end

end
