(* ===== verification/Py_Float.thy ===== *)
theory Py_Float
  imports Odis_Prelude
begin

text \<open>
  Python's \<^verbatim>\<open>float\<close>. A finite float is the rational number it denotes, and every arithmetic
  operation is the exact result rounded to a 53-bit significand, ties to even (\<open>fl\<close>), as the
  binary64 hardware does. The exponent range is unbounded: overflow to infinity, subnormals,
  NaN and the sign of zero are outside the model, so the theorems speak about finite values
  whose intermediate results stay in the normal range. The theory also has the functions of
  \<^verbatim>\<open>statistics\<close> the program calls (\<^verbatim>\<open>fmean\<close>, \<^verbatim>\<open>pstdev\<close>), \<^verbatim>\<open>round(x, n)\<close> and the
  \<^verbatim>\<open>.nf\<close> format.
\<close>

type_synonym pyfloat = rat

named_theorems fl_simps \<open>evaluation of roundings that are exact\<close>

section \<open>Rounding to an integer, ties to even\<close>

definition round_even :: "rat \<Rightarrow> int" where
  "round_even r =
     (let f = \<lfloor>r\<rfloor>; d = r - of_int f in
      if d < 1/2 then f else if 1/2 < d then f + 1 else if even f then f else f + 1)"

lemma round_even_of_int [simp]: "round_even (of_int n) = n"
  by (simp add: round_even_def)

lemma round_even_ge_floor: "\<lfloor>r\<rfloor> \<le> round_even r"
  by (simp add: round_even_def Let_def)

lemma round_even_le_floor: "round_even r \<le> \<lfloor>r\<rfloor> + 1"
  by (simp add: round_even_def Let_def)

lemma round_even_error: "\<bar>of_int (round_even r) - r\<bar> \<le> 1/2"
proof -
  have "of_int \<lfloor>r\<rfloor> \<le> r" and "r < of_int \<lfloor>r\<rfloor> + 1"
    by linarith+
  then show ?thesis
    by (auto simp: round_even_def Let_def abs_le_iff)
qed

lemma round_even_mono:
  assumes "r \<le> s"
  shows "round_even r \<le> round_even s"
proof (cases "\<lfloor>r\<rfloor> = \<lfloor>s\<rfloor>")
  case True
  with assms show ?thesis by (auto simp: round_even_def Let_def)
next
  case False
  with floor_mono [OF assms] have "\<lfloor>r\<rfloor> + 1 \<le> \<lfloor>s\<rfloor>" by linarith
  with round_even_le_floor [of r] round_even_ge_floor [of s] show ?thesis by linarith
qed

section \<open>Binades\<close>

text \<open>\<^verbatim>\<open>int.bit_length\<close> on non-negative integers.\<close>

function bit_length :: "int \<Rightarrow> int" where
  "bit_length n = (if n \<le> 0 then 0 else 1 + bit_length (n div 2))"
  by auto
termination by (relation "measure nat") auto

declare bit_length.simps [simp del]

lemma bit_length_bounds:
  "0 < n \<Longrightarrow> \<exists>b. bit_length n = int (Suc b) \<and> 2 ^ b \<le> n \<and> n < 2 ^ Suc b"
proof (induction n rule: bit_length.induct)
  case (1 n)
  show ?case
  proof (cases "n div 2 = 0")
    case True
    with 1(2) have "n = 1" by linarith
    then show ?thesis by (intro exI [of _ 0]) (simp add: bit_length.simps)
  next
    case False
    with 1 obtain b where IH: "bit_length (n div 2) = int (Suc b)" "2 ^ b \<le> n div 2"
        "n div 2 < 2 ^ Suc b"
      by force
    have "bit_length n = 1 + bit_length (n div 2)"
      using 1(2) by (subst bit_length.simps) simp
    then have "bit_length n = int (Suc (Suc b))" using IH(1) by simp
    moreover have "2 ^ Suc b \<le> n" "n < 2 ^ Suc (Suc b)" using IH(2,3) by auto
    ultimately show ?thesis by blast
  qed
qed

definition binade :: "rat \<Rightarrow> int" where
  "binade x =
     (let (p, q) = quotient_of x;
          k = bit_length p - bit_length q
      in if 2 powi k \<le> x then k else k - 1)"

lemma powi_two_pos [simp]: "0 < (2::rat) powi k"
  by (simp add: zero_less_power_int)

lemma powi_two_mono: "k \<le> l \<Longrightarrow> (2::rat) powi k \<le> 2 powi l"
  by (simp add: power_int_increasing)

lemma powi_two_less_iff: "(2::rat) powi k < 2 powi l \<longleftrightarrow> k < l"
  by (meson linorder_not_le power_int_strict_increasing one_less_numeral_iff powi_two_mono
      semiring_norm(76))

lemma powi_two_add: "(2::rat) powi (k + l) = 2 powi k * 2 powi l"
  by (simp add: power_int_add)

lemma powi_two_diff: "(2::rat) powi (k - l) = 2 powi k / 2 powi l"
  by (simp add: power_int_diff)

lemma bit_length_powi:
  assumes "0 < p"
  shows "(2::rat) powi (bit_length p - 1) \<le> of_int p"
    and "of_int p < (2::rat) powi bit_length p"
proof -
  obtain a where a: "bit_length p = int (Suc a)" and lo: "2 ^ a \<le> p" and hi: "p < 2 ^ Suc a"
    using bit_length_bounds [OF assms] by blast
  from lo have "of_int (2 ^ a) \<le> (of_int p :: rat)" by (simp only: of_int_le_iff)
  then show "(2::rat) powi (bit_length p - 1) \<le> of_int p"
    by (simp add: a)
  from hi have "(of_int p :: rat) < of_int (2 ^ Suc a)" by (simp only: of_int_less_iff)
  then show "of_int p < (2::rat) powi bit_length p"
    by (simp only: a power_int_of_nat of_int_power of_int_numeral)
qed

lemma binade_bounds:
  assumes "0 < x"
  shows "2 powi (binade x) \<le> x" and "x < 2 powi (binade x + 1)"
proof -
  obtain p q where pq: "quotient_of x = (p, q)" by (cases "quotient_of x")
  have q: "0 < q" and x: "x = of_int p / of_int q"
    using quotient_of_denom_pos [OF pq] quotient_of_div [OF pq] by auto
  have p: "0 < p" using assms q x by (simp add: zero_less_divide_iff)
  define a where "a = bit_length p"
  define b where "b = bit_length q"
  note pA = bit_length_powi [OF p, folded a_def] and qB = bit_length_powi [OF q, folded b_def]
  have q': "(0::rat) < of_int q" and p': "(0::rat) < of_int p" using q p by simp_all
  have "2 powi (a - b - 1) = (2::rat) powi (a - 1) / 2 powi b"
    by (simp add: powi_two_diff)
  also have "\<dots> \<le> of_int p / of_int q"
    using pA(1) qB(2) q' p' by (intro frac_le) auto
  finally have lo: "2 powi (a - b - 1) \<le> x" by (simp add: x)
  have "of_int p / of_int q < (2::rat) powi a / 2 powi (b - 1)"
    using pA(2) qB(1) q' p' by (intro frac_less) auto
  also have "\<dots> = 2 powi (a - b + 1)"
    by (simp add: powi_two_diff powi_two_add)
  finally have hi: "x < 2 powi (a - b + 1)" by (simp add: x)
  have bin: "binade x = (if 2 powi (a - b) \<le> x then a - b else a - b - 1)"
    by (simp add: binade_def pq a_def b_def Let_def)
  show "2 powi (binade x) \<le> x" "x < 2 powi (binade x + 1)"
    using lo hi by (auto simp: bin)
qed

lemma binade_unique:
  assumes "2 powi e \<le> x" and "x < 2 powi (e + 1)"
  shows "binade x = e"
proof -
  have "0 < x" using assms(1) powi_two_pos [of e] by linarith
  note b = binade_bounds [OF this]
  have "(2::rat) powi e < 2 powi (binade x + 1)" "(2::rat) powi binade x < 2 powi (e + 1)"
    using assms b by linarith+
  then show ?thesis by (simp add: powi_two_less_iff)
qed

lemma binade_mono: "0 < x \<Longrightarrow> x \<le> y \<Longrightarrow> binade x \<le> binade y"
proof -
  assume "0 < x" "x \<le> y"
  then have "(2::rat) powi binade x < 2 powi (binade y + 1)"
    using binade_bounds [of x] binade_bounds [of y] by linarith
  then show ?thesis by (simp add: powi_two_less_iff)
qed

section \<open>Rounding to 53 bits\<close>

text \<open>The unit in the last place of a positive number, and the nearest 53-bit float.\<close>

definition ulp :: "rat \<Rightarrow> rat" where
  "ulp x = 2 powi (binade x - 52)"

definition fl_pos :: "rat \<Rightarrow> rat" where
  "fl_pos x = of_int (round_even (x / ulp x)) * ulp x"

definition fl :: "rat \<Rightarrow> pyfloat" where
  "fl x = (if x = 0 then 0 else if 0 < x then fl_pos x else - fl_pos (- x))"

lemma ulp_pos [simp]: "0 < ulp x"
  by (simp add: ulp_def)

lemma ulp_nonzero [simp]: "ulp x \<noteq> 0"
  using ulp_pos [of x] by linarith

lemma scaled_bounds:
  assumes "0 < x"
  shows "of_int (2 ^ 52) \<le> x / ulp x" and "x / ulp x < of_int (2 ^ 53)"
proof -
  have u: "(2::rat) powi binade x = 2 ^ 52 * ulp x" "(2::rat) powi (binade x + 1) = 2 ^ 53 * ulp x"
    by (simp_all add: ulp_def powi_two_diff powi_two_add)
  show "of_int (2 ^ 52) \<le> x / ulp x" "x / ulp x < of_int (2 ^ 53)"
    using binade_bounds [OF assms] unfolding u
    by (simp_all add: pos_le_divide_eq pos_divide_less_eq)
qed

lemma significand_bounds:
  assumes "0 < x"
  shows "2 ^ 52 \<le> round_even (x / ulp x)" and "round_even (x / ulp x) \<le> 2 ^ 53"
  using round_even_mono [OF scaled_bounds(1) [OF assms]]
    round_even_mono [OF less_imp_le [OF scaled_bounds(2) [OF assms]]]
  by (simp_all only: round_even_of_int)

lemma fl_pos_bounds:
  assumes "0 < x"
  shows "2 powi (binade x) \<le> fl_pos x" and "fl_pos x \<le> 2 powi (binade x + 1)"
proof -
  have u: "(2::rat) powi binade x = of_int (2 ^ 52) * ulp x"
    "(2::rat) powi (binade x + 1) = of_int (2 ^ 53) * ulp x"
    by (simp_all add: ulp_def powi_two_diff powi_two_add)
  show "2 powi (binade x) \<le> fl_pos x" "fl_pos x \<le> 2 powi (binade x + 1)"
    unfolding u fl_pos_def using significand_bounds [OF assms]
    by (intro mult_right_mono; simp only: of_int_le_iff ulp_pos less_imp_le)+
qed

lemma fl_pos_pos: "0 < x \<Longrightarrow> 0 < fl_pos x"
  using fl_pos_bounds(1) [of x] powi_two_pos [of "binade x"] by linarith

lemma fl_pos_mono:
  assumes "0 < x" and "x \<le> y"
  shows "fl_pos x \<le> fl_pos y"
proof (cases "binade x = binade y")
  case True
  then have u: "ulp x = ulp y" by (simp add: ulp_def)
  have "round_even (x / ulp y) \<le> round_even (y / ulp y)"
    using assms by (intro round_even_mono divide_right_mono) (auto simp: less_imp_le)
  then show ?thesis
    unfolding fl_pos_def u by (intro mult_right_mono) (auto simp: less_imp_le)
next
  case False
  with binade_mono [OF assms] have "binade x + 1 \<le> binade y" by simp
  then have "(2::rat) powi (binade x + 1) \<le> 2 powi binade y" by (rule powi_two_mono)
  then show ?thesis
    using fl_pos_bounds(2) [of x] fl_pos_bounds(1) [of y] assms by linarith
qed

lemma fl_pos_error:
  assumes "0 < x"
  shows "\<bar>fl_pos x - x\<bar> \<le> x / 2 ^ 53"
proof -
  have "fl_pos x - x = (of_int (round_even (x / ulp x)) - x / ulp x) * ulp x"
    by (simp add: fl_pos_def left_diff_distrib)
  then have "\<bar>fl_pos x - x\<bar> = \<bar>of_int (round_even (x / ulp x)) - x / ulp x\<bar> * ulp x"
    using ulp_pos [of x] by (simp add: abs_mult abs_of_pos)
  also have "\<dots> \<le> 1/2 * ulp x"
    by (intro mult_right_mono round_even_error) (simp add: less_imp_le)
  also have "\<dots> = 2 powi binade x / 2 ^ 53"
    by (simp add: ulp_def powi_two_diff)
  also have "\<dots> \<le> x / 2 ^ 53"
    using binade_bounds(1) [OF assms] by (simp add: divide_right_mono)
  finally show ?thesis .
qed

lemma fl_zero [simp]: "fl 0 = 0"
  by (simp add: fl_def)

lemma fl_minus [simp]: "fl (- x) = - fl x"
  by (simp add: fl_def)

lemma fl_pos_iff [simp]: "0 < fl x \<longleftrightarrow> 0 < x"
  using fl_pos_pos [of x] fl_pos_pos [of "- x"] by (auto simp: fl_def)

lemma fl_neg_iff [simp]: "fl x < 0 \<longleftrightarrow> x < 0"
  using fl_pos_iff [of "- x"] by simp

lemma fl_eq_0_iff [simp]: "fl x = 0 \<longleftrightarrow> x = 0"
  by (metis fl_neg_iff fl_pos_iff fl_zero linorder_neqE_linordered_idom less_irrefl)

lemma fl_abs [simp]: "fl \<bar>x\<bar> = \<bar>fl x\<bar>"
  using fl_pos_iff [of x] fl_neg_iff [of x] by (auto simp: abs_if simp del: fl_pos_iff fl_neg_iff)

lemma fl_mono: "x \<le> y \<Longrightarrow> fl x \<le> fl y"
proof -
  assume le: "x \<le> y"
  consider "0 < x" | "y < 0" | "x \<le> 0" "0 \<le> y" using le by linarith
  then show ?thesis
  proof cases
    case 1
    with le fl_pos_mono show ?thesis by (simp add: fl_def)
  next
    case 2
    with le fl_pos_mono [of "- y" "- x"] show ?thesis by (simp add: fl_def)
  next
    case 3
    then have "fl x \<le> 0" "0 \<le> fl y" using fl_pos_iff [of x] fl_neg_iff [of y] by linarith+
    then show ?thesis by linarith
  qed
qed

lemma fl_error: "\<bar>fl x - x\<bar> \<le> \<bar>x\<bar> / 2 ^ 53"
  using fl_pos_error [of x] fl_pos_error [of "- x"] by (auto simp: fl_def abs_if split: if_splits)

text \<open>A rational with at most 53 significant bits is a float: rounding leaves it alone.\<close>

lemma fl_pos_exact:
  assumes x: "x = of_int m * 2 powi k" and m: "0 < m" "m \<le> 2 ^ 53"
  shows "fl_pos x = x"
proof -
  define e where "e = binade x"
  have pos: "0 < x" using m x by simp
  have "\<exists>n. x / ulp x = of_int n"
  proof (cases "e - 52 \<le> k")
    case True
    have "x / ulp x = of_int m * 2 powi (k - (e - 52))"
      by (simp only: x ulp_def e_def powi_two_diff [of k] times_divide_eq_right)
    also have "\<dots> = of_int (m * 2 ^ nat (k - (e - 52)))"
      using True by (simp add: power_int_def)
    finally show ?thesis by blast
  next
    case False
    have "(2::rat) powi e \<le> of_int (2 ^ 53) * 2 powi k"
      using binade_bounds(1) [OF pos] m(2) mult_right_mono [of "of_int m" "of_int (2 ^ 53)" "(2::rat) powi k"]
      unfolding e_def x by (metis of_int_le_iff order_trans powi_two_pos less_imp_le)
    also have "\<dots> = 2 powi (k + 53)"
      by (simp add: powi_two_add)
    finally have "e \<le> k + 53"
      using powi_two_less_iff [of "k + 53" e] by linarith
    with False have e: "e = k + 53" by simp
    have "(2::rat) powi e = of_int (2 ^ 53) * 2 powi k"
      by (simp add: e powi_two_add)
    then have "of_int (2 ^ 53) * (2::rat) powi k \<le> of_int m * 2 powi k"
      using binade_bounds(1) [OF pos] unfolding e_def x by simp
    then have "of_int (2 ^ 53) \<le> (of_int m :: rat)"
      by (rule mult_right_le_imp_le) simp
    then have "m = 2 ^ 53" using m(2) by (simp only: of_int_le_iff)
    then have "x = 2 powi e" by (simp add: x e powi_two_add)
    then have "x / ulp x = 2 powi (e - (e - 52))"
      by (simp only: ulp_def e_def powi_two_diff [of "binade x" "binade x - 52"])
    then have "x / ulp x = of_int (2 ^ 52)" by simp
    then show ?thesis by blast
  qed
  then obtain n where n: "x / ulp x = of_int n" by blast
  then have "fl_pos x = x / ulp x * ulp x" by (simp add: fl_pos_def)
  then show ?thesis by simp
qed

lemma fl_exact:
  assumes "x = of_int m * 2 powi k" and "\<bar>m\<bar> \<le> 2 ^ 53"
  shows "fl x = x"
proof -
  consider "m = 0" | "0 < m" | "m < 0" by linarith
  then show ?thesis
  proof cases
    case 3
    then have "fl_pos (- x) = - x"
      using assms by (intro fl_pos_exact [of _ "- m" k]) auto
    moreover have "x < 0" using 3 assms(1) by (simp add: mult_neg_pos)
    ultimately show ?thesis by (simp add: fl_def)
  qed (use assms fl_pos_exact in \<open>auto simp: fl_def\<close>)
qed

lemma fl_of_int [fl_simps]: "\<bar>n\<bar> \<le> 2 ^ 53 \<Longrightarrow> fl (of_int n) = of_int n"
  by (rule fl_exact [of _ n 0]) auto

lemma fl_numeral [fl_simps]: "numeral n \<le> (2 ^ 53 :: int) \<Longrightarrow> fl (numeral n) = numeral n"
  using fl_of_int [of "numeral n"] by simp

lemma fl_one [simp]: "fl 1 = 1"
  using fl_of_int [of 1] by simp

lemma fl_idem [simp]: "fl (fl x) = fl x"
proof -
  have pos: "fl (fl_pos y) = fl_pos y" if "0 < y" for y
    using significand_bounds [OF that]
    by (intro fl_exact [of _ "round_even (y / ulp y)" "binade y - 52"])
      (auto simp: fl_pos_def ulp_def)
  show ?thesis
    using pos [of x] pos [of "- x"] by (cases "x = 0"; cases "0 < x") (simp_all add: fl_def [of x])
qed

text \<open>The floats are the fixed points of rounding.\<close>

definition is_float :: "rat \<Rightarrow> bool" where
  "is_float x \<longleftrightarrow> fl x = x"

lemma is_float_fl [simp]: "is_float (fl x)"
  by (simp add: is_float_def)

lemma is_float_abs [simp]: "is_float x \<Longrightarrow> is_float \<bar>x\<bar>"
  by (simp add: is_float_def)

text \<open>What the clients use of the rounding.\<close>

locale float_rounding =
  fixes rnd :: "rat \<Rightarrow> rat"
  assumes rnd_mono: "x \<le> y \<Longrightarrow> rnd x \<le> rnd y"
    and rnd_odd: "rnd (- x) = - rnd x"
    and rnd_idem: "rnd (rnd x) = rnd x"
begin

lemma rnd_0: "rnd 0 = 0"
  using rnd_odd [of 0] by simp

text \<open>A float bound on the exact result is a bound on the rounded one.\<close>

lemma rnd_le_float: "x \<le> rnd y \<Longrightarrow> rnd x \<le> rnd y"
  using rnd_mono [of x "rnd y"] by (simp add: rnd_idem)

lemma rnd_ge_float: "rnd y \<le> x \<Longrightarrow> rnd y \<le> rnd x"
  using rnd_mono [of "rnd y" x] by (simp add: rnd_idem)

lemma rnd_nonneg: "0 \<le> x \<Longrightarrow> 0 \<le> rnd x"
  using rnd_mono [of 0 x] by (simp add: rnd_0)

end

interpretation fl: float_rounding fl
  by unfold_locales (simp_all add: fl_mono)

section \<open>Arithmetic\<close>

text \<open>A decimal literal such as \<^verbatim>\<open>0.35\<close> is the float nearest to it.\<close>

definition flit :: "int \<Rightarrow> int \<Rightarrow> pyfloat" where
  "flit p q = fl (of_int p / of_int q)"

definition fadd :: "pyfloat \<Rightarrow> pyfloat \<Rightarrow> pyfloat" where
  "fadd x y = fl (x + y)"

definition fsub :: "pyfloat \<Rightarrow> pyfloat \<Rightarrow> pyfloat" where
  "fsub x y = fl (x - y)"

definition fmul :: "pyfloat \<Rightarrow> pyfloat \<Rightarrow> pyfloat" where
  "fmul x y = fl (x * y)"

definition fdiv :: "pyfloat \<Rightarrow> pyfloat \<Rightarrow> pyfloat" where
  "fdiv x y = fl (x / y)"

lemma fsub_self [simp]: "fsub x x = 0"
  by (simp add: fsub_def)

lemma fsub_pos_iff [simp]: "0 < fsub x y \<longleftrightarrow> y < x"
  by (simp add: fsub_def)

lemma fsub_swap: "fsub y x = - fsub x y"
  unfolding fsub_def by (metis fl_minus minus_diff_eq)

lemma fsub_mono: "x \<le> x' \<Longrightarrow> y' \<le> y \<Longrightarrow> fsub x y \<le> fsub x' y'"
  unfolding fsub_def by (intro fl_mono) linarith

section \<open>The functions of the statistics module\<close>

text \<open>\<^verbatim>\<open>statistics.fmean\<close>: the correctly rounded sum (\<^verbatim>\<open>math.fsum\<close>) divided by the count.\<close>

definition fmean :: "pyfloat list \<Rightarrow> pyfloat" where
  "fmean xs = fdiv (fl (sum_list xs)) (of_nat (length xs))"

lemma fmean_uminus: "fmean (map uminus xs) = - fmean xs"
proof -
  have "sum_list (map uminus xs) = - sum_list xs" by (induction xs) auto
  then show ?thesis by (simp add: fmean_def fdiv_def)
qed

lemma fmean_mono:
  assumes "list_all2 (\<le>) xs ys"
  shows "fmean xs \<le> fmean ys"
proof -
  have "sum_list xs \<le> sum_list ys" using assms by induction auto
  moreover have "length xs = length ys" using assms by (rule list_all2_lengthD)
  ultimately show ?thesis
    unfolding fmean_def fdiv_def by (auto intro!: fl_mono divide_right_mono)
qed

lemma fmean_perm: "mset xs = mset ys \<Longrightarrow> fmean xs = fmean ys"
  by (metis fmean_def mset_eq_length sum_mset_sum_list)

text \<open>\<^verbatim>\<open>math.isqrt\<close>, by the recursion on two bits at a time.\<close>

function isqrt :: "int \<Rightarrow> int" where
  "isqrt n = (if n \<le> 0 then 0
     else let r = 2 * isqrt (n div 4) in if (r + 1) * (r + 1) \<le> n then r + 1 else r)"
  by auto
termination by (relation "measure nat") auto

declare isqrt.simps [simp del]

lemma isqrt_correct:
  "0 \<le> n \<Longrightarrow> 0 \<le> isqrt n \<and> isqrt n * isqrt n \<le> n \<and> n < (isqrt n + 1) * (isqrt n + 1)"
proof (induction n rule: isqrt.induct)
  case (1 n)
  show ?case
  proof (cases "n \<le> 0")
    case True
    with 1(2) show ?thesis by (simp add: isqrt.simps)
  next
    case False
    define a where "a = isqrt (n div 4)"
    have IH: "0 \<le> a" "a * a \<le> n div 4" "n div 4 < (a + 1) * (a + 1)"
      using 1(1) [OF False] False by (simp_all add: a_def)
    have lo: "2 * a * (2 * a) \<le> n" using IH(2) by simp
    have "n < 4 * ((a + 1) * (a + 1))" using IH(3) by linarith
    then have hi: "n < (2 * a + 2) * (2 * a + 2)" by (simp add: algebra_simps)
    have "isqrt n = (if (2 * a + 1) * (2 * a + 1) \<le> n then 2 * a + 1 else 2 * a)"
      using False by (subst isqrt.simps) (simp add: a_def Let_def)
    then show ?thesis using lo hi IH(1) by (auto simp: algebra_simps)
  qed
qed

lemma isqrt_eq_0_iff: "0 \<le> n \<Longrightarrow> isqrt n = 0 \<longleftrightarrow> n = 0"
proof
  show "n = 0" if "0 \<le> n" "isqrt n = 0" using isqrt_correct [of n] that by simp
  show "isqrt n = 0" if "n = 0" using that by (simp add: isqrt.simps)
qed

text \<open>
  The square root of a fraction as \<^verbatim>\<open>statistics\<close> computes it: an integer square root with
  at least 54 bits, rounded to odd, then rounded to a float. \<open>p / q\<close> is the fraction in
  lowest terms, as Python's \<^verbatim>\<open>Fraction\<close> keeps it.
\<close>

definition integer_sqrt_of_frac_rto :: "int \<Rightarrow> int \<Rightarrow> int" where
  "integer_sqrt_of_frac_rto n m =
     (let a = isqrt (n div m)
      in if a * a * m \<noteq> n then (if even a then a + 1 else a) else a)"

definition float_sqrt_of_frac :: "rat \<Rightarrow> pyfloat" where
  "float_sqrt_of_frac v =
     (let (n, m) = quotient_of v;
          q = (bit_length n - bit_length m - 109) div 2
      in if 0 \<le> q
         then fl (of_int (integer_sqrt_of_frac_rto n (m * 2 ^ nat (2 * q)) * 2 ^ nat q))
         else fl (of_int (integer_sqrt_of_frac_rto (n * 2 ^ nat (- 2 * q)) m) / 2 ^ nat (- q)))"

text \<open>The exact variance, and \<^verbatim>\<open>statistics.pstdev\<close>.\<close>

definition variance :: "rat list \<Rightarrow> rat" where
  "variance xs =
     (let c = of_nat (length xs)
      in (c * sum_list (map (\<lambda>x. x * x) xs) - sum_list xs * sum_list xs) / c / c)"

definition pstdev :: "pyfloat list \<Rightarrow> pyfloat" where
  "pstdev xs = float_sqrt_of_frac (variance xs)"

lemma isqrt_nonneg [simp]: "0 \<le> isqrt n"
  using isqrt_correct [of n] by (cases "0 \<le> n") (auto simp: isqrt.simps [of n])

lemma integer_sqrt_nonneg: "0 \<le> integer_sqrt_of_frac_rto n m"
  by (simp add: integer_sqrt_of_frac_rto_def Let_def)

lemma integer_sqrt_eq_0_iff:
  assumes "0 \<le> n" and "0 < m"
  shows "integer_sqrt_of_frac_rto n m = 0 \<longleftrightarrow> n = 0"
proof
  assume *: "integer_sqrt_of_frac_rto n m = 0"
  define a where "a = isqrt (n div m)"
  have "0 \<le> a" by (simp add: a_def)
  with * have "a * a * m = n \<and> a = 0"
    unfolding integer_sqrt_of_frac_rto_def a_def [symmetric] Let_def by (auto split: if_splits)
  then show "n = 0" by auto
next
  assume "n = 0"
  then show "integer_sqrt_of_frac_rto n m = 0"
    by (simp add: integer_sqrt_of_frac_rto_def isqrt_eq_0_iff)
qed

lemma float_sqrt_nonneg: "0 \<le> float_sqrt_of_frac v"
  by (auto simp: float_sqrt_of_frac_def Let_def integer_sqrt_nonneg split: prod.splits
      intro!: fl.rnd_nonneg)

lemma float_sqrt_eq_0_iff:
  assumes "0 \<le> v"
  shows "float_sqrt_of_frac v = 0 \<longleftrightarrow> v = 0"
proof -
  obtain n m where nm: "quotient_of v = (n, m)" by (cases "quotient_of v")
  have m: "0 < m" and v: "v = of_int n / of_int m"
    using quotient_of_denom_pos [OF nm] quotient_of_div [OF nm] by auto
  have n: "0 \<le> n" using assms m v by (simp add: zero_le_divide_iff)
  define q where "q = (bit_length n - bit_length m - 109) div 2"
  have eq: "float_sqrt_of_frac v =
    (if 0 \<le> q
     then fl (of_int (integer_sqrt_of_frac_rto n (m * 2 ^ nat (2 * q)) * 2 ^ nat q))
     else fl (of_int (integer_sqrt_of_frac_rto (n * 2 ^ nat (- 2 * q)) m) / 2 ^ nat (- q)))"
    by (simp only: float_sqrt_of_frac_def nm q_def Let_def prod.case)
  have "integer_sqrt_of_frac_rto n (m * 2 ^ nat (2 * q)) = 0 \<longleftrightarrow> n = 0"
    "integer_sqrt_of_frac_rto (n * 2 ^ nat (- 2 * q)) m = 0 \<longleftrightarrow> n = 0"
    using n m by (simp_all add: integer_sqrt_eq_0_iff)
  then show ?thesis
    using m v unfolding eq by simp
qed

text \<open>The variance is the mean of the squared deviations.\<close>

lemma sum_list_sq_dev:
  "sum_list (map (\<lambda>x. (x - a) * (x - a)) xs) =
     sum_list (map (\<lambda>x. x * x) xs) - 2 * a * sum_list xs + of_nat (length xs) * a * (a::rat)"
  by (induction xs) (auto simp: algebra_simps)

lemma variance_alt:
  assumes "xs \<noteq> []"
  defines "mu \<equiv> sum_list xs / of_nat (length xs)"
  shows "variance xs = sum_list (map (\<lambda>x. (x - mu) * (x - mu)) xs) / of_nat (length xs)"
proof -
  have c: "of_nat (length xs) \<noteq> (0::rat)" using assms(1) by simp
  have S: "sum_list xs = of_nat (length xs) * mu" using c by (simp add: mu_def)
  show ?thesis
    unfolding sum_list_sq_dev variance_def Let_def S
    using c by (simp add: divide_simps) (simp add: algebra_simps)
qed

lemma variance_nonneg: "0 \<le> variance xs"
proof (cases "xs = []")
  case True
  then show ?thesis by (simp add: variance_def)
next
  case False
  have "0 \<le> sum_list (map (\<lambda>x. (x - mu) * (x - mu)) xs)" for mu :: rat
    by (rule sum_list_nonneg) auto
  then show ?thesis unfolding variance_alt [OF False] by (intro divide_nonneg_nonneg) auto
qed

lemma variance_perm: "mset xs = mset ys \<Longrightarrow> variance xs = variance ys"
  using mset_eq_length [of xs ys] arg_cong [of _ _ sum_mset, of "mset xs" "mset ys"]
    arg_cong [of _ _ sum_mset, of "mset (map (\<lambda>x. x * x) xs)" "mset (map (\<lambda>x. x * x) ys)"]
  unfolding variance_def sum_mset_sum_list by simp

lemma variance_uminus: "variance (map uminus xs) = variance xs"
proof -
  have "sum_list (map uminus xs) = - sum_list xs" by (induction xs) auto
  then show ?thesis by (simp add: variance_def comp_def)
qed

lemma variance_eq_0:
  assumes "variance xs = 0" and "x \<in> set xs" and "y \<in> set xs"
  shows "x = y"
proof -
  define mu where "mu = sum_list xs / of_nat (length xs)"
  have ne: "xs \<noteq> []" using assms(2) by auto
  have "sum_list (map (\<lambda>x. (x - mu) * (x - mu)) xs) = 0"
    using assms(1) ne unfolding variance_alt [OF ne] mu_def by simp
  then have "\<forall>z\<in>set xs. (z - mu) * (z - mu) = 0"
    by (subst (asm) sum_list_nonneg_eq_0_iff) auto
  then have "\<And>z. z \<in> set xs \<Longrightarrow> z = mu" by simp
  with assms(2,3) show ?thesis by metis
qed

lemma pstdev_nonneg: "0 \<le> pstdev xs"
  by (simp add: pstdev_def float_sqrt_nonneg)

lemma pstdev_eq_0_iff: "pstdev xs = 0 \<longleftrightarrow> variance xs = 0"
  by (simp add: pstdev_def float_sqrt_eq_0_iff variance_nonneg)

lemma pstdev_uminus: "pstdev (map uminus xs) = pstdev xs"
  by (simp add: pstdev_def variance_uminus)

lemma pstdev_perm: "mset xs = mset ys \<Longrightarrow> pstdev xs = pstdev ys"
  unfolding pstdev_def by (metis variance_perm)

section \<open>Rounding and formatting to decimals\<close>

text \<open>\<^verbatim>\<open>round(x, n)\<close>: the float nearest to the correctly rounded decimal.\<close>

definition py_round :: "pyfloat \<Rightarrow> nat \<Rightarrow> pyfloat" where
  "py_round x n = fl (of_int (round_even (x * 10 ^ n)) / 10 ^ n)"

lemma round_even_bounds_int: "of_int a \<le> r \<Longrightarrow> r \<le> of_int b \<Longrightarrow> a \<le> round_even r \<and> round_even r \<le> b"
  using round_even_mono [of "of_int a" r] round_even_mono [of r "of_int b"] by simp

lemma py_round_between:
  assumes "of_int a \<le> x" and "x \<le> of_int b" and "\<bar>a\<bar> \<le> 2 ^ 53" and "\<bar>b\<bar> \<le> 2 ^ 53"
  shows "of_int a \<le> py_round x n" and "py_round x n \<le> of_int b"
proof -
  have "of_int (a * 10 ^ n) \<le> x * 10 ^ n" "x * 10 ^ n \<le> of_int (b * 10 ^ n)"
    using assms(1,2) by simp_all
  then have "a * 10 ^ n \<le> round_even (x * 10 ^ n)" "round_even (x * 10 ^ n) \<le> b * 10 ^ n"
    using round_even_bounds_int by blast+
  then have "of_int (a * 10 ^ n) \<le> (of_int (round_even (x * 10 ^ n)) :: rat)"
    "(of_int (round_even (x * 10 ^ n)) :: rat) \<le> of_int (b * 10 ^ n)"
    by (simp_all only: of_int_le_iff)
  then have "of_int a \<le> (of_int (round_even (x * 10 ^ n)) / 10 ^ n :: rat)"
    "(of_int (round_even (x * 10 ^ n)) / 10 ^ n :: rat) \<le> of_int b"
    by (simp_all add: pos_le_divide_eq pos_divide_le_eq)
  then show "of_int a \<le> py_round x n" "py_round x n \<le> of_int b"
    unfolding py_round_def using fl_mono fl_of_int assms(3,4) by metis+
qed

text \<open>The format specification \<^verbatim>\<open>.nf\<close>: the exact binary value rounded to n decimals.\<close>

definition pad_zeros :: "nat \<Rightarrow> string \<Rightarrow> string" where
  "pad_zeros n s = replicate (n - length s) (CHR ''0'') @ s"

definition fmt_fixed :: "nat \<Rightarrow> pyfloat \<Rightarrow> string" where
  "fmt_fixed n x =
     (let k = round_even (\<bar>x\<bar> * 10 ^ n)
      in (if x < 0 then ''-'' else []) @ dec_digits (k div 10 ^ n) @
         (if n = 0 then [] else ''.'' @ pad_zeros n (dec_digits (k mod 10 ^ n))))"

lemma fmt_fixed_nonempty [simp]: "fmt_fixed n x \<noteq> []"
  by (simp add: fmt_fixed_def Let_def)

text \<open>
  \<^verbatim>\<open>repr(x)\<close>: the shortest decimal that rounds to \<open>x\<close>, the closest one when there are
  two, in fixed notation for exponents -4 to 15 and in scientific notation elsewhere.
  \<open>dec_point\<close> is the exponent with \<open>10 ^ (dec_point - 1) \<le> x < 10 ^ dec_point\<close>.
\<close>

definition dec_point :: "rat \<Rightarrow> int" where
  "dec_point y =
     (let (p, q) = quotient_of y;
          k = int (length (dec_digits p)) - int (length (dec_digits q))
      in if 10 powi k \<le> y then k + 1 else k)"

definition repr_candidate :: "rat \<Rightarrow> int \<Rightarrow> int option" where
  "repr_candidate y e =
     (let s = 10 powi e; lo = \<lfloor>y * s\<rfloor>;
          ok = (\<lambda>c. fl (of_int c / s) = y)
      in if ok lo \<and> (\<not> ok (lo + 1) \<or> y * s - of_int lo \<le> 1/2) then Some lo
         else if ok (lo + 1) then Some (lo + 1) else None)"

fun repr_search :: "rat \<Rightarrow> int \<Rightarrow> nat list \<Rightarrow> int \<times> int" where
  "repr_search y dp [] = (\<lfloor>y * 10 powi (17 - dp)\<rfloor>, 17 - dp)"
| "repr_search y dp (n # ns) =
     (case repr_candidate y (int n - dp) of
        Some c \<Rightarrow> (c, int n - dp)
      | None \<Rightarrow> repr_search y dp ns)"

definition strip_trailing_zeros :: "string \<Rightarrow> string" where
  "strip_trailing_zeros s = rev (dropWhile (\<lambda>c. c = CHR ''0'') (rev s))"

definition float_repr :: "pyfloat \<Rightarrow> string" where
  "float_repr x =
     (if x = 0 then ''0.0''
      else let y = \<bar>x\<bar>;
               (c, e) = repr_search y (dec_point y) [1..<18];
               ds = dec_digits c;
               dp = int (length ds) - e;
               sig = strip_trailing_zeros ds
           in (if x < 0 then ''-'' else []) @
              (if - 4 < dp \<and> dp \<le> 16
               then (if dp \<le> 0 then ''0.'' @ replicate (nat (- dp)) (CHR ''0'') @ sig
                     else if int (length sig) \<le> dp
                     then sig @ replicate (nat dp - length sig) (CHR ''0'') @ ''.0''
                     else take (nat dp) sig @ ''.'' @ drop (nat dp) sig)
               else take 1 sig @ (if length sig = 1 then [] else ''.'' @ drop 1 sig) @ ''e'' @
                    (if dp - 1 < 0 then ''-'' else ''+'') @
                    pad_zeros 2 (dec_digits \<bar>dp - 1\<bar>)))"

lemma float_repr_nonempty [simp]: "float_repr x \<noteq> []"
  by (simp add: float_repr_def Let_def split: prod.splits)

end
