(* ===== verification/Domain_Model.thy ===== *)
theory Domain_Model
  imports Py_Float
begin

text \<open>
  The domain layer of the reasoning engine (\<^verbatim>\<open>src/src/domain\<close>): entities, value objects,
  reasoning value objects and events. Each frozen dataclass is a record (or a datatype when
  it wraps one value), each \<^verbatim>\<open>__post_init__\<close> a constructor function \<open>mk_\<dots>\<close> that returns the
  object or the \<^verbatim>\<open>ValueError\<close> of the first check that fails, and each class has the
  well-formedness predicate its checks establish. \<^verbatim>\<open>isinstance\<close> checks of annotated types are
  discharged by typing.
\<close>

section \<open>Value objects\<close>

datatype MeasurementType = MeasurementType (mt_name: string)

definition mk_measurement_type :: "string \<Rightarrow> MeasurementType result" where
  "mk_measurement_type name = construct [nonempty_check ''name'' name] (MeasurementType name)"

datatype Location = Location (loc_identifier: string)

definition mk_location :: "string \<Rightarrow> Location result" where
  "mk_location identifier = construct [nonempty_check ''identifier'' identifier] (Location identifier)"

datatype Priority = PRI_LOW | PRI_MEDIUM | PRI_HIGH | PRI_CRITICAL

fun priority_value :: "Priority \<Rightarrow> string" where
  "priority_value PRI_LOW = ''low''"
| "priority_value PRI_MEDIUM = ''medium''"
| "priority_value PRI_HIGH = ''high''"
| "priority_value PRI_CRITICAL = ''critical''"

datatype Severity = SEV_INFO | SEV_LOW | SEV_MEDIUM | SEV_HIGH | SEV_CRITICAL

fun severity_value :: "Severity \<Rightarrow> string" where
  "severity_value SEV_INFO = ''info''"
| "severity_value SEV_LOW = ''low''"
| "severity_value SEV_MEDIUM = ''medium''"
| "severity_value SEV_HIGH = ''high''"
| "severity_value SEV_CRITICAL = ''critical''"

datatype TrendDirection = INCREASING | STABLE | DECREASING

fun trend_value :: "TrendDirection \<Rightarrow> string" where
  "trend_value INCREASING = ''increasing''"
| "trend_value STABLE = ''stable''"
| "trend_value DECREASING = ''decreasing''"

datatype VariationLevel = VAR_LOW | VAR_HIGH

fun variation_value :: "VariationLevel \<Rightarrow> string" where
  "variation_value VAR_LOW = ''low''"
| "variation_value VAR_HIGH = ''high''"

record DetectedTrend =
  dt_direction :: TrendDirection
  dt_asset_id :: string
  dt_measurement_type :: MeasurementType

record DetectedVariation =
  dv_asset_id :: string
  dv_measurement_type :: MeasurementType
  dv_level :: VariationLevel

record TimeRange =
  tr_start :: datetime
  tr_end :: datetime

definition mk_time_range :: "datetime \<Rightarrow> datetime \<Rightarrow> TimeRange result" where
  "mk_time_range start stop =
     construct [(\<not> start > stop, ValueError ''start must not be after end'')]
       \<lparr>tr_start = start, tr_end = stop\<rparr>"

text \<open>Telemetry projections: an aggregate bucket, a series and a forecast.\<close>

record TelemetryAggregatePoint =
  tap_bucket :: datetime
  tap_measurement_type :: string
  tap_avg_value :: pyfloat
  tap_min_value :: pyfloat
  tap_max_value :: pyfloat
  tap_sample_count :: int
  tap_unit :: string

definition mk_telemetry_aggregate_point ::
    "datetime \<Rightarrow> string \<Rightarrow> pyfloat \<Rightarrow> pyfloat \<Rightarrow> pyfloat \<Rightarrow> int \<Rightarrow> string \<Rightarrow>
     TelemetryAggregatePoint result" where
  "mk_telemetry_aggregate_point bucket mt avg mn mx n unit =
     construct
       [nonempty_check ''measurement_type'' mt,
        nonempty_check ''unit'' unit,
        (\<not> n < 1, ValueError ''sample_count must be at least 1'')]
       \<lparr>tap_bucket = bucket, tap_measurement_type = mt, tap_avg_value = avg, tap_min_value = mn,
        tap_max_value = mx, tap_sample_count = n, tap_unit = unit\<rparr>"

record TelemetrySample =
  ts_timestamp :: datetime
  ts_value :: pyfloat

record TelemetrySeries =
  tse_asset_id :: string
  tse_measurement_type :: string
  tse_unit :: string
  tse_samples :: "TelemetrySample list"

definition adjacent_ordered :: "TelemetrySample list \<Rightarrow> bool" where
  "adjacent_ordered samples =
     list_all (\<lambda>(previous, current). \<not> ts_timestamp current < ts_timestamp previous)
       (zip samples (tl samples))"

definition mk_telemetry_series ::
    "string \<Rightarrow> string \<Rightarrow> string \<Rightarrow> TelemetrySample list \<Rightarrow> TelemetrySeries result" where
  "mk_telemetry_series asset_id mt unit samples =
     construct
       [nonempty_check ''asset_id'' asset_id,
        nonempty_check ''measurement_type'' mt,
        nonempty_check ''unit'' unit,
        (adjacent_ordered samples, ValueError ''samples must be ordered oldest to newest'')]
       \<lparr>tse_asset_id = asset_id, tse_measurement_type = mt, tse_unit = unit, tse_samples = samples\<rparr>"

record TelemetryForecast =
  tf_asset_id :: string
  tf_measurement_type :: string
  tf_unit :: string
  tf_model_id :: string
  tf_horizon_start :: datetime
  tf_generated_at :: datetime
  tf_samples :: "TelemetrySample list"

definition mk_telemetry_forecast ::
    "string \<Rightarrow> string \<Rightarrow> string \<Rightarrow> string \<Rightarrow> datetime \<Rightarrow> datetime \<Rightarrow> TelemetrySample list \<Rightarrow>
     TelemetryForecast result" where
  "mk_telemetry_forecast asset_id mt unit model_id horizon_start generated_at samples =
     construct
       [nonempty_check ''asset_id'' asset_id,
        nonempty_check ''measurement_type'' mt,
        nonempty_check ''unit'' unit,
        nonempty_check ''model_id'' model_id,
        (list_all (\<lambda>s. \<not> ts_timestamp s \<le> horizon_start) samples,
         ValueError ''forecast samples must be after horizon_start''),
        (adjacent_ordered samples, ValueError ''samples must be ordered oldest to newest'')]
       \<lparr>tf_asset_id = asset_id, tf_measurement_type = mt, tf_unit = unit, tf_model_id = model_id,
        tf_horizon_start = horizon_start, tf_generated_at = generated_at, tf_samples = samples\<rparr>"

text \<open>\<^verbatim>\<open>TelemetryBucket.from_query\<close>; \<^verbatim>\<open>str.strip\<close> removes ASCII whitespace.\<close>

datatype TelemetryBucket = ONE_HOUR | ONE_DAY

fun bucket_value :: "TelemetryBucket \<Rightarrow> string" where
  "bucket_value ONE_HOUR = ''1h''"
| "bucket_value ONE_DAY = ''1d''"

definition is_space :: "char \<Rightarrow> bool" where
  "is_space c \<longleftrightarrow> (let n = of_char c :: nat in n = 32 \<or> 9 \<le> n \<and> n \<le> 13 \<or> 28 \<le> n \<and> n \<le> 31)"

definition py_strip :: "string \<Rightarrow> string" where
  "py_strip s = rev (dropWhile is_space (rev (dropWhile is_space s)))"

definition from_query :: "string \<Rightarrow> TelemetryBucket result" where
  "from_query v =
     (let normalized = py_lower (py_strip v)
      in case find (\<lambda>b. bucket_value b = normalized) [ONE_HOUR, ONE_DAY] of
           Some b \<Rightarrow> Ok b
         | None \<Rightarrow> Err (ValueError (''bucket must be one of: '' @
                     str_join '', '' (map bucket_value [ONE_HOUR, ONE_DAY]))))"

section \<open>Entities\<close>

record Asset =
  asset_id :: string
  asset_name :: string
  asset_type :: string
  asset_location :: Location

definition mk_asset :: "string \<Rightarrow> string \<Rightarrow> string \<Rightarrow> Location \<Rightarrow> Asset result" where
  "mk_asset i name ty loc =
     construct [nonempty_check ''id'' i, nonempty_check ''name'' name, nonempty_check ''type'' ty]
       \<lparr>asset_id = i, asset_name = name, asset_type = ty, asset_location = loc\<rparr>"

record Observation =
  obs_id :: string
  obs_asset_id :: string
  obs_timestamp :: datetime
  obs_measurement_type :: MeasurementType
  obs_value :: pyfloat
  obs_unit :: string

definition mk_observation ::
    "string \<Rightarrow> string \<Rightarrow> datetime \<Rightarrow> MeasurementType \<Rightarrow> pyfloat \<Rightarrow> string \<Rightarrow> Observation result" where
  "mk_observation i asset ts mt v unit =
     construct
       [nonempty_check ''id'' i, nonempty_check ''asset_id'' asset, nonempty_check ''unit'' unit]
       \<lparr>obs_id = i, obs_asset_id = asset, obs_timestamp = ts, obs_measurement_type = mt,
        obs_value = v, obs_unit = unit\<rparr>"

definition observation_wf :: "Observation \<Rightarrow> bool" where
  "observation_wf ob \<longleftrightarrow> obs_id ob \<noteq> [] \<and> obs_asset_id ob \<noteq> [] \<and> obs_unit ob \<noteq> [] \<and>
     mt_name (obs_measurement_type ob) \<noteq> []"

record OperationalGoal =
  goal_id :: string
  goal_description :: string

definition mk_operational_goal :: "string \<Rightarrow> string \<Rightarrow> OperationalGoal result" where
  "mk_operational_goal i descr =
     construct [nonempty_check ''id'' i, nonempty_check ''description'' descr]
       \<lparr>goal_id = i, goal_description = descr\<rparr>"

definition goal_wf :: "OperationalGoal \<Rightarrow> bool" where
  "goal_wf g \<longleftrightarrow> goal_id g \<noteq> [] \<and> goal_description g \<noteq> []"

record OperationalSituation =
  sit_id :: string
  sit_goal_id :: string
  sit_observation_ids :: "string list"
  sit_assessment :: string

definition mk_operational_situation ::
    "string \<Rightarrow> string \<Rightarrow> string list \<Rightarrow> string \<Rightarrow> OperationalSituation result" where
  "mk_operational_situation i goal ids txt =
     construct
       [nonempty_check ''id'' i, nonempty_check ''goal_id'' goal,
        (ids \<noteq> [], ValueError ''observation_ids must not be empty''),
        (length ids = card (set ids), ValueError ''observation_ids must be unique''),
        nonempty_check ''assessment'' txt]
       \<lparr>sit_id = i, sit_goal_id = goal, sit_observation_ids = ids, sit_assessment = txt\<rparr>"

definition situation_wf :: "OperationalSituation \<Rightarrow> bool" where
  "situation_wf s \<longleftrightarrow> sit_id s \<noteq> [] \<and> sit_goal_id s \<noteq> [] \<and> sit_observation_ids s \<noteq> [] \<and>
     distinct (sit_observation_ids s) \<and> sit_assessment s \<noteq> []"

record DecisionContext =
  dc_id :: string
  dc_goal_id :: string
  dc_situation_id :: string
  dc_assessment :: string
  dc_created_at :: datetime

definition mk_decision_context ::
    "string \<Rightarrow> string \<Rightarrow> string \<Rightarrow> string \<Rightarrow> datetime \<Rightarrow> DecisionContext result" where
  "mk_decision_context i goal sit txt created =
     construct
       [nonempty_check ''id'' i, nonempty_check ''goal_id'' goal,
        nonempty_check ''situation_id'' sit, nonempty_check ''assessment'' txt]
       \<lparr>dc_id = i, dc_goal_id = goal, dc_situation_id = sit, dc_assessment = txt,
        dc_created_at = created\<rparr>"

record DecisionPlan =
  plan_id :: string
  plan_context_id :: string
  plan_created_at :: datetime
  plan_priority :: Priority
  plan_recommendation :: string
  plan_justification :: string

definition mk_decision_plan ::
    "string \<Rightarrow> string \<Rightarrow> datetime \<Rightarrow> Priority \<Rightarrow> string \<Rightarrow> string \<Rightarrow> DecisionPlan result" where
  "mk_decision_plan i ctx created pri recommendation justification =
     construct
       [nonempty_check ''id'' i, nonempty_check ''context_id'' ctx,
        nonempty_check ''recommendation'' recommendation,
        nonempty_check ''justification'' justification]
       \<lparr>plan_id = i, plan_context_id = ctx, plan_created_at = created, plan_priority = pri,
        plan_recommendation = recommendation, plan_justification = justification\<rparr>"

record Action =
  act_id :: string
  act_plan_id :: string

definition mk_action :: "string \<Rightarrow> string \<Rightarrow> Action result" where
  "mk_action i plan =
     construct [nonempty_check ''id'' i, nonempty_check ''plan_id'' plan]
       \<lparr>act_id = i, act_plan_id = plan\<rparr>"

record Outcome =
  out_id :: string
  out_action_id :: string

definition mk_outcome :: "string \<Rightarrow> string \<Rightarrow> Outcome result" where
  "mk_outcome i action =
     construct [nonempty_check ''id'' i, nonempty_check ''action_id'' action]
       \<lparr>out_id = i, out_action_id = action\<rparr>"

section \<open>Events\<close>

datatype DomainEvent =
    ObservationRecorded string datetime
  | OperationalSituationCreated string datetime
  | DecisionContextCreated string datetime
  | DecisionPlanGenerated string datetime
  | OutcomeRecorded string datetime

section \<open>Reasoning value objects\<close>

datatype EvidenceRole = PRIMARY_SUPPORT | CORROBORATING | CONTRADICTING | CONTEXT

datatype EvidenceSourceSignal =
    LATEST_READING
  | DETECTED_TREND
  | DETECTED_VARIATION
  | RECENT_DELTA
  | SAMPLE_SUPPORT
  | RELATIONSHIP_CORRELATION
  | RELATIONSHIP_CONTRADICTION

record Evidence =
  ev_id :: string
  ev_description :: string
  ev_source_signal :: EvidenceSourceSignal
  ev_measurement_type :: string
  ev_observed_value :: string
  ev_role :: EvidenceRole
  ev_weight :: pyfloat

definition mk_evidence ::
    "string \<Rightarrow> string \<Rightarrow> EvidenceSourceSignal \<Rightarrow> string \<Rightarrow> string \<Rightarrow> EvidenceRole \<Rightarrow> pyfloat \<Rightarrow>
     Evidence result" where
  "mk_evidence i descr src mt observed role w =
     construct
       [nonempty_check ''id'' i, nonempty_check ''description'' descr,
        nonempty_check ''measurement_type'' mt, nonempty_check ''observed_value'' observed,
        (0 \<le> w \<and> w \<le> 1, ValueError ''weight must be between 0 and 1'')]
       \<lparr>ev_id = i, ev_description = descr, ev_source_signal = src, ev_measurement_type = mt,
        ev_observed_value = observed, ev_role = role, ev_weight = w\<rparr>"

definition evidence_wf :: "Evidence \<Rightarrow> bool" where
  "evidence_wf e \<longleftrightarrow> ev_id e \<noteq> [] \<and> ev_description e \<noteq> [] \<and> ev_measurement_type e \<noteq> [] \<and>
     ev_observed_value e \<noteq> [] \<and> 0 \<le> ev_weight e \<and> ev_weight e \<le> 1"

datatype HypothesisKind =
  HK_UNKNOWN | HK_SENSOR_DRIFT | HK_LOAD_CHANGE | HK_COOLING_DEGRADATION | HK_HYDROGEN_SUPPLY

fun hypothesis_kind_value :: "HypothesisKind \<Rightarrow> string" where
  "hypothesis_kind_value HK_UNKNOWN = ''unknown''"
| "hypothesis_kind_value HK_SENSOR_DRIFT = ''sensor_drift''"
| "hypothesis_kind_value HK_LOAD_CHANGE = ''load_change''"
| "hypothesis_kind_value HK_COOLING_DEGRADATION = ''cooling_degradation''"
| "hypothesis_kind_value HK_HYDROGEN_SUPPLY = ''hydrogen_supply''"

fun hypothesis_display_title :: "HypothesisKind \<Rightarrow> string" where
  "hypothesis_display_title HK_UNKNOWN = ''Unknown cause''"
| "hypothesis_display_title HK_SENSOR_DRIFT = ''Sensor drift''"
| "hypothesis_display_title HK_LOAD_CHANGE = ''Load change''"
| "hypothesis_display_title HK_COOLING_DEGRADATION = ''Cooling degradation''"
| "hypothesis_display_title HK_HYDROGEN_SUPPLY = ''Hydrogen supply issue''"

record Hypothesis =
  hyp_id :: string
  hyp_kind :: HypothesisKind
  hyp_rationale :: string
  hyp_supporting_evidence_ids :: "string list"
  hyp_contradicting_evidence_ids :: "string list"

definition mk_hypothesis ::
    "string \<Rightarrow> HypothesisKind \<Rightarrow> string \<Rightarrow> string list \<Rightarrow> string list \<Rightarrow> Hypothesis result" where
  "mk_hypothesis i kind rationale supporting contradicting =
     construct [nonempty_check ''id'' i, nonempty_check ''rationale'' rationale]
       \<lparr>hyp_id = i, hyp_kind = kind, hyp_rationale = rationale,
        hyp_supporting_evidence_ids = supporting, hyp_contradicting_evidence_ids = contradicting\<rparr>"

record ConfidenceBreakdown =
  cb_base :: int
  cb_support :: int
  cb_consistency :: int
  cb_trend_consistency :: int
  cb_sustained_bonus :: int
  cb_penalties :: int
  cb_total :: int
  cb_rationale :: string

definition mk_confidence_breakdown ::
    "int \<Rightarrow> int \<Rightarrow> int \<Rightarrow> int \<Rightarrow> int \<Rightarrow> int \<Rightarrow> int \<Rightarrow> string \<Rightarrow> ConfidenceBreakdown result" where
  "mk_confidence_breakdown b s c t u p tot rationale =
     construct
       [(0 \<le> tot \<and> tot \<le> 100, ValueError ''total must be between 0 and 100''),
        nonempty_check ''rationale'' rationale]
       \<lparr>cb_base = b, cb_support = s, cb_consistency = c, cb_trend_consistency = t,
        cb_sustained_bonus = u, cb_penalties = p, cb_total = tot, cb_rationale = rationale\<rparr>"

record Explanation =
  exp_summary :: string
  exp_evidence :: "Evidence list"
  exp_hypotheses_considered :: "Hypothesis list"
  exp_caveats :: "string list"

definition mk_explanation ::
    "string \<Rightarrow> Evidence list \<Rightarrow> Hypothesis list \<Rightarrow> string list \<Rightarrow> Explanation result" where
  "mk_explanation summary evs hyps caveats =
     construct [nonempty_check ''summary'' summary]
       \<lparr>exp_summary = summary, exp_evidence = evs, exp_hypotheses_considered = hyps,
        exp_caveats = caveats\<rparr>"

record AssessmentSummary =
  as_situation :: "OperationalSituation option"
  as_trend_direction :: "TrendDirection option"
  as_variation_level :: "VariationLevel option"
  as_has_correlations :: bool
  as_has_contradictions :: bool
  as_has_unexpected_expectations :: bool
  as_has_indeterminate_expectations :: bool
  as_primary_hypothesis :: "Hypothesis option"
  as_supporting_evidence :: "Evidence list"
  as_confidence :: "ConfidenceBreakdown option"

text \<open>\<^verbatim>\<open>AssessmentSummary()\<close>: every field at its default.\<close>

definition empty_assessment_summary :: AssessmentSummary where
  "empty_assessment_summary =
     \<lparr>as_situation = None, as_trend_direction = None, as_variation_level = None,
      as_has_correlations = False, as_has_contradictions = False,
      as_has_unexpected_expectations = False, as_has_indeterminate_expectations = False,
      as_primary_hypothesis = None, as_supporting_evidence = [], as_confidence = None\<rparr>"

section \<open>What the constructors establish\<close>

lemmas constructor_defs = mk_measurement_type_def mk_location_def mk_time_range_def
  mk_telemetry_aggregate_point_def mk_telemetry_series_def mk_telemetry_forecast_def
  mk_asset_def mk_observation_def mk_operational_goal_def mk_operational_situation_def
  mk_decision_context_def mk_decision_plan_def mk_action_def mk_outcome_def mk_evidence_def
  mk_hypothesis_def mk_confidence_breakdown_def mk_explanation_def

lemma mk_observation_Ok_iff [validation]:
  "mk_observation i asset ts mt v unit = Ok ob \<longleftrightarrow>
     i \<noteq> [] \<and> asset \<noteq> [] \<and> unit \<noteq> [] \<and>
     ob = \<lparr>obs_id = i, obs_asset_id = asset, obs_timestamp = ts, obs_measurement_type = mt,
           obs_value = v, obs_unit = unit\<rparr>"
  by (auto simp: mk_observation_def construct_Ok_iff)

lemma mk_operational_situation_Ok_iff [validation]:
  "mk_operational_situation i goal ids txt = Ok s \<longleftrightarrow>
     i \<noteq> [] \<and> goal \<noteq> [] \<and> ids \<noteq> [] \<and> distinct ids \<and> txt \<noteq> [] \<and>
     s = \<lparr>sit_id = i, sit_goal_id = goal, sit_observation_ids = ids, sit_assessment = txt\<rparr>"
  by (auto simp: mk_operational_situation_def construct_Ok_iff
      dest: card_distinct [OF sym] distinct_card)

lemma mk_situation_wf: "mk_operational_situation i goal ids txt = Ok s \<Longrightarrow> situation_wf s"
  by (auto simp: mk_operational_situation_Ok_iff situation_wf_def)

lemma mk_decision_context_Ok_iff [validation]:
  "mk_decision_context i goal sit txt created = Ok c \<longleftrightarrow>
     i \<noteq> [] \<and> goal \<noteq> [] \<and> sit \<noteq> [] \<and> txt \<noteq> [] \<and>
     c = \<lparr>dc_id = i, dc_goal_id = goal, dc_situation_id = sit, dc_assessment = txt,
          dc_created_at = created\<rparr>"
  by (auto simp: mk_decision_context_def construct_Ok_iff)

lemma mk_decision_plan_Ok_iff [validation]:
  "mk_decision_plan i ctx created pri rc js = Ok p \<longleftrightarrow>
     i \<noteq> [] \<and> ctx \<noteq> [] \<and> rc \<noteq> [] \<and> js \<noteq> [] \<and>
     p = \<lparr>plan_id = i, plan_context_id = ctx, plan_created_at = created, plan_priority = pri,
          plan_recommendation = rc, plan_justification = js\<rparr>"
  by (auto simp: mk_decision_plan_def construct_Ok_iff)

lemma mk_evidence_Ok_iff [validation]:
  "mk_evidence i descr src mt observed role w = Ok e \<longleftrightarrow>
     i \<noteq> [] \<and> descr \<noteq> [] \<and> mt \<noteq> [] \<and> observed \<noteq> [] \<and> 0 \<le> w \<and> w \<le> 1 \<and>
     e = \<lparr>ev_id = i, ev_description = descr, ev_source_signal = src, ev_measurement_type = mt,
          ev_observed_value = observed, ev_role = role, ev_weight = w\<rparr>"
  by (auto simp: mk_evidence_def construct_Ok_iff)

lemma mk_evidence_wf: "mk_evidence i descr src mt observed role w = Ok e \<Longrightarrow> evidence_wf e"
  by (auto simp: mk_evidence_Ok_iff evidence_wf_def)

lemma mk_hypothesis_Ok_iff [validation]:
  "mk_hypothesis i kind rationale spt con = Ok h \<longleftrightarrow>
     i \<noteq> [] \<and> rationale \<noteq> [] \<and>
     h = \<lparr>hyp_id = i, hyp_kind = kind, hyp_rationale = rationale,
          hyp_supporting_evidence_ids = spt, hyp_contradicting_evidence_ids = con\<rparr>"
  by (auto simp: mk_hypothesis_def construct_Ok_iff)

lemma adjacent_ordered_iff: "adjacent_ordered samples \<longleftrightarrow> sorted (map ts_timestamp samples)"
proof (induction samples rule: induct_list012)
  case (3 x y zs)
  have "sorted (map ts_timestamp (x # y # zs)) \<longleftrightarrow>
      ts_timestamp x \<le> ts_timestamp y \<and> sorted (map ts_timestamp (y # zs))"
    by (simp only: list.map sorted2)
  moreover have "adjacent_ordered (x # y # zs) \<longleftrightarrow>
      ts_timestamp x \<le> ts_timestamp y \<and> adjacent_ordered (y # zs)"
    by (auto simp: adjacent_ordered_def)
  ultimately show ?case using 3(2) by blast
qed (simp_all add: adjacent_ordered_def)

text \<open>A series that exists is chronological, and so is a forecast, after its horizon start.\<close>

lemma mk_telemetry_series_sorted:
  "mk_telemetry_series a m u samples = Ok s \<Longrightarrow> sorted (map ts_timestamp (tse_samples s))"
  by (auto simp: mk_telemetry_series_def construct_Ok_iff adjacent_ordered_iff)

lemma mk_telemetry_forecast_sorted:
  assumes "mk_telemetry_forecast a m u mid h g samples = Ok f"
  shows "sorted (h # map ts_timestamp (tf_samples f))"
  using assms
  by (auto simp: mk_telemetry_forecast_def construct_Ok_iff adjacent_ordered_iff list_all_iff
      intro: less_imp_le)

end
