(* ===== verification/Detectors.thy ===== *)
theory Detectors
  imports Domain_Model
begin

text \<open>
  Signal extraction (\<^verbatim>\<open>src/src/application\<close>): the trend and variation detectors, observation
  groups and their measurement index, the relationship policies, the correlation and
  contradiction detectors with the trend detector they are given, relationship analysis,
  expectations and the two operational profiles. The laws of a trend detector are the locale
  \<open>trend_classifier\<close>; the lemmas about the detectors that call it are proved there once and
  hold of the program through the interpretation on \<open>trend_detect\<close>.
\<close>

section \<open>Trend detection\<close>

definition STABLE_EPSILON :: pyfloat where
  "STABLE_EPSILON = flit 1 1000000000"

definition TREND_RATIO_THRESHOLD :: pyfloat where
  "TREND_RATIO_THRESHOLD = flit 8 10"

definition MIN_SAMPLES_FOR_DIRECTIONAL_TREND :: nat where
  "MIN_SAMPLES_FOR_DIRECTIONAL_TREND = 8"

definition half_shift :: "pyfloat list \<Rightarrow> pyfloat" where
  "half_shift values =
     (let n = length values; mid = n div 2;
          first_half_mean = fmean (take mid values);
          second_half_mean = fmean (drop (n - mid) values)
      in fsub second_half_mean first_half_mean)"

definition split_half_direction :: "Observation list \<Rightarrow> TrendDirection" where
  "split_half_direction ordered =
     (let values = map obs_value ordered; n = length values
      in if n < MIN_SAMPLES_FOR_DIRECTIONAL_TREND then STABLE
         else let shift = half_shift values
              in if \<bar>shift\<bar> \<le> STABLE_EPSILON then STABLE
                 else let spread = pstdev values
                      in if spread \<le> STABLE_EPSILON
                         then (if shift > 0 then INCREASING else DECREASING)
                         else let ratio = fdiv \<bar>shift\<bar> spread
                              in if ratio < TREND_RATIO_THRESHOLD then STABLE
                                 else if shift > 0 then INCREASING else DECREASING)"

text \<open>The loop over \<^verbatim>\<open>observations[1:]\<close> that both detectors run.\<close>

fun check_same_series :: "string \<Rightarrow> MeasurementType \<Rightarrow> Observation list \<Rightarrow> unit result" where
  "check_same_series asset mt [] = Ok ()"
| "check_same_series asset mt (ob # obs) =
     (if obs_asset_id ob \<noteq> asset
      then Err (ValueError ''all observations must belong to the same asset'')
      else if obs_measurement_type ob \<noteq> mt
      then Err (ValueError ''all observations must have the same measurement type'')
      else check_same_series asset mt obs)"

definition trend_detect :: "Observation list \<Rightarrow> DetectedTrend result" where
  "trend_detect observations =
     (if length observations < 2 then Err (ValueError ''at least two observations are required'')
      else let asset = obs_asset_id (hd observations); mt = obs_measurement_type (hd observations)
           in res_bind (check_same_series asset mt (tl observations)) (\<lambda>_.
              Ok \<lparr>dt_direction = split_half_direction (sorted_by obs_timestamp observations),
                  dt_asset_id = asset, dt_measurement_type = mt\<rparr>))"

section \<open>Variation detection\<close>

definition HIGH_VARIATION_THRESHOLD :: pyfloat where
  "HIGH_VARIATION_THRESHOLD = 60"

definition MIN_SAMPLES_FOR_VARIATION_CLASSIFICATION :: nat where
  "MIN_SAMPLES_FOR_VARIATION_CLASSIFICATION = 8"

definition variation_level :: "Observation list \<Rightarrow> VariationLevel" where
  "variation_level ordered =
     (if length ordered < MIN_SAMPLES_FOR_VARIATION_CLASSIFICATION then VAR_LOW
      else let values = map obs_value ordered;
               variation = fsub (Max (set values)) (Min (set values))
           in if variation > HIGH_VARIATION_THRESHOLD then VAR_HIGH else VAR_LOW)"

definition variation_detect :: "Observation list \<Rightarrow> DetectedVariation result" where
  "variation_detect observations =
     (if length observations < 2 then Err (ValueError ''at least two observations are required'')
      else let asset = obs_asset_id (hd observations); mt = obs_measurement_type (hd observations)
           in res_bind (check_same_series asset mt (tl observations)) (\<lambda>_.
              Ok \<lparr>dv_asset_id = asset, dv_measurement_type = mt,
                  dv_level = variation_level (sorted_by obs_timestamp observations)\<rparr>))"

section \<open>Observation groups\<close>

type_synonym MeasurementIndex = "(MeasurementType, Observation list) dict"

definition index_from_group :: "Observation list \<Rightarrow> MeasurementIndex" where
  "index_from_group observations = group_by obs_measurement_type observations"

definition index_get :: "MeasurementIndex \<Rightarrow> MeasurementType \<Rightarrow> Observation list" where
  "index_get idx mt = (case map_of idx mt of None \<Rightarrow> [] | Some obs \<Rightarrow> obs)"

definition index_measurement_types :: "MeasurementIndex \<Rightarrow> MeasurementType list" where
  "index_measurement_types idx = dict_keys idx"

record ObservationGroup =
  og_asset_id :: string
  og_observations :: "Observation list"
  og_measurements :: MeasurementIndex

definition mk_observation_group :: "string \<Rightarrow> Observation list \<Rightarrow> ObservationGroup result" where
  "mk_observation_group asset observations =
     construct
       [(observations \<noteq> [], ValueError ''at least one observation is required''),
        (\<not> list_ex (\<lambda>ob. obs_asset_id ob \<noteq> asset) observations,
         ValueError ''all observations must share the same asset_id'')]
       \<lparr>og_asset_id = asset, og_observations = observations,
        og_measurements = index_from_group observations\<rparr>"

definition group_wf :: "ObservationGroup \<Rightarrow> bool" where
  "group_wf g \<longleftrightarrow> og_observations g \<noteq> [] \<and>
     list_all (\<lambda>ob. obs_asset_id ob = og_asset_id g) (og_observations g) \<and>
     og_measurements g = index_from_group (og_observations g)"

section \<open>Relationship policies\<close>

record RelationshipRule =
  rr_measurement_a :: MeasurementType
  rr_measurement_b :: MeasurementType

record RelationshipPolicy =
  rp_correlation_rules :: "RelationshipRule list"
  rp_contradiction_rules :: "RelationshipRule list"

definition rule_pair :: "string \<Rightarrow> string \<Rightarrow> RelationshipRule" where
  "rule_pair a b =
     \<lparr>rr_measurement_a = MeasurementType a, rr_measurement_b = MeasurementType b\<rparr>"

definition DefaultRelationshipPolicy :: RelationshipPolicy where
  "DefaultRelationshipPolicy =
     \<lparr>rp_correlation_rules = [rule_pair ''temperature'' ''pressure''],
      rp_contradiction_rules = [rule_pair ''temperature'' ''pressure'']\<rparr>"

definition FuelCellRelationshipPolicy :: RelationshipPolicy where
  "FuelCellRelationshipPolicy =
     \<lparr>rp_correlation_rules =
        [rule_pair ''stack_temperature'' ''stack_pressure'',
         rule_pair ''current'' ''voltage'',
         rule_pair ''fuel_flow'' ''stack_temperature''],
      rp_contradiction_rules = []\<rparr>"

section \<open>Correlations and contradictions\<close>

text \<open>The detectors receive the trend detector they use (\<open>detect\<close>), as the constructors do.\<close>

record MeasurementCorrelation =
  mc_measurement_a :: MeasurementType
  mc_measurement_b :: MeasurementType
  mc_relationship :: string

record OperationalContradiction =
  oc_description :: string

definition a_label :: "MeasurementType \<Rightarrow> string" where
  "a_label mt = capitalize (replace_char (CHR ''_'') '' '' (mt_name mt))"

definition b_label :: "MeasurementType \<Rightarrow> string" where
  "b_label mt = py_lower (replace_char (CHR ''_'') '' '' (mt_name mt))"

definition rule_directions ::
    "(Observation list \<Rightarrow> DetectedTrend result) \<Rightarrow> ObservationGroup \<Rightarrow> RelationshipRule \<Rightarrow>
     (TrendDirection \<times> TrendDirection) option result" where
  "rule_directions detect grp rule =
     (let observations_a = index_get (og_measurements grp) (rr_measurement_a rule);
          observations_b = index_get (og_measurements grp) (rr_measurement_b rule)
      in if length observations_a < 2 \<or> length observations_b < 2 then Ok None
         else res_bind (detect observations_a) (\<lambda>trend_a.
              res_bind (detect observations_b) (\<lambda>trend_b.
              Ok (Some (dt_direction trend_a, dt_direction trend_b)))))"

fun correlation_loop ::
    "(Observation list \<Rightarrow> DetectedTrend result) \<Rightarrow> ObservationGroup \<Rightarrow> RelationshipRule list \<Rightarrow>
     MeasurementCorrelation list result" where
  "correlation_loop detect grp [] = Ok []"
| "correlation_loop detect grp (rule # rules) =
     res_bind (rule_directions detect grp rule) (\<lambda>dirs.
     res_bind (correlation_loop detect grp rules) (\<lambda>rest.
     Ok (if dirs = Some (INCREASING, DECREASING)
         then \<lparr>mc_measurement_a = rr_measurement_a rule, mc_measurement_b = rr_measurement_b rule,
               mc_relationship = a_label (rr_measurement_a rule) @ '' increasing while '' @
                                 b_label (rr_measurement_b rule) @ '' decreasing''\<rparr> # rest
         else rest)))"

definition correlation_detect ::
    "(Observation list \<Rightarrow> DetectedTrend result) \<Rightarrow> RelationshipPolicy \<Rightarrow> ObservationGroup \<Rightarrow>
     MeasurementCorrelation list result" where
  "correlation_detect detect policy grp =
     correlation_loop detect grp (rp_correlation_rules policy)"

fun contradiction_loop ::
    "(Observation list \<Rightarrow> DetectedTrend result) \<Rightarrow> ObservationGroup \<Rightarrow> RelationshipRule list \<Rightarrow>
     OperationalContradiction list result" where
  "contradiction_loop detect grp [] = Ok []"
| "contradiction_loop detect grp (rule # rules) =
     res_bind (rule_directions detect grp rule) (\<lambda>dirs.
     res_bind (contradiction_loop detect grp rules) (\<lambda>rest.
     Ok (if dirs = Some (INCREASING, INCREASING)
         then \<lparr>oc_description = a_label (rr_measurement_a rule) @ '' and '' @
               b_label (rr_measurement_b rule) @ '' are increasing simultaneously.''\<rparr> # rest
         else rest)))"

definition contradiction_detect ::
    "(Observation list \<Rightarrow> DetectedTrend result) \<Rightarrow> RelationshipPolicy \<Rightarrow> ObservationGroup \<Rightarrow>
     OperationalContradiction list result" where
  "contradiction_detect detect policy grp =
     contradiction_loop detect grp (rp_contradiction_rules policy)"

section \<open>Profiles, relationship analysis and expectations\<close>

record RelationshipAnalysis =
  ra_correlations :: "MeasurementCorrelation list"
  ra_contradictions :: "OperationalContradiction list"

record OperationalContext =
  oc_context_description :: string
  oc_operating_mode :: "string option"
  oc_objective :: "string option"

definition operational_context_build ::
    "string \<Rightarrow> string option \<Rightarrow> string option \<Rightarrow> OperationalContext" where
  "operational_context_build descr mode objective =
     \<lparr>oc_context_description = descr, oc_operating_mode = mode, oc_objective = objective\<rparr>"

record Expectation =
  expn_name :: string
  expn_description :: string

datatype ExpectationStatus = ES_EXPECTED | ES_UNEXPECTED | ES_INDETERMINATE

record ExpectationEvaluation =
  ee_expectation :: Expectation
  ee_status :: ExpectationStatus
  ee_explanation :: string

fun expectation_evaluate :: "Expectation \<Rightarrow> bool option \<Rightarrow> ExpectationEvaluation" where
  "expectation_evaluate x (Some True) =
     \<lparr>ee_expectation = x, ee_status = ES_EXPECTED,
      ee_explanation = ''The observed behavior matches this engineering expectation.''\<rparr>"
| "expectation_evaluate x (Some False) =
     \<lparr>ee_expectation = x, ee_status = ES_UNEXPECTED,
      ee_explanation = ''The observed behavior diverges from this engineering expectation.''\<rparr>"
| "expectation_evaluate x None =
     \<lparr>ee_expectation = x, ee_status = ES_INDETERMINATE,
      ee_explanation = ''Insufficient evidence is available to evaluate this expectation.''\<rparr>"

type_synonym ExpectationAnalysis = "ExpectationEvaluation list"

definition status_count :: "ExpectationStatus \<Rightarrow> ExpectationAnalysis \<Rightarrow> nat" where
  "status_count st evaluations = length (filter (\<lambda>e. ee_status e = st) evaluations)"

definition has_unexpected :: "ExpectationAnalysis \<Rightarrow> bool" where
  "has_unexpected evaluations \<longleftrightarrow> status_count ES_UNEXPECTED evaluations > 0"

definition has_indeterminate :: "ExpectationAnalysis \<Rightarrow> bool" where
  "has_indeterminate evaluations \<longleftrightarrow> status_count ES_INDETERMINATE evaluations > 0"

definition fuel_cell_evaluate_relationship ::
    "Expectation \<Rightarrow> RelationshipAnalysis \<Rightarrow> ExpectationEvaluation" where
  "fuel_cell_evaluate_relationship x rel =
     expectation_evaluate x
       (if ra_correlations rel \<noteq> [] then Some True
        else if ra_contradictions rel \<noteq> [] then Some False
        else None)"

text \<open>The two profile classes; each carries the relationship policy it was built with.\<close>

datatype OperationalProfile =
    BaseOperationalProfile (profile_policy: RelationshipPolicy)
  | FuelCellOperationalProfile (profile_policy: RelationshipPolicy)

definition default_operational_profile :: OperationalProfile where
  "default_operational_profile = BaseOperationalProfile DefaultRelationshipPolicy"

definition fuel_cell_default_profile :: OperationalProfile where
  "fuel_cell_default_profile = FuelCellOperationalProfile FuelCellRelationshipPolicy"

definition coupled_response_expectation :: Expectation where
  "coupled_response_expectation =
     \<lparr>expn_name = ''Coupled subsystem response'',
      expn_description = ''Under changing load, correlated measurement trends indicate '' @
        ''coherent fuel-cell subsystem response.''\<rparr>"

fun evaluate_expectations ::
    "OperationalProfile \<Rightarrow> OperationalContext \<Rightarrow> RelationshipAnalysis \<Rightarrow> ExpectationAnalysis" where
  "evaluate_expectations (BaseOperationalProfile p) ctx rel = []"
| "evaluate_expectations (FuelCellOperationalProfile p) ctx rel =
     [fuel_cell_evaluate_relationship coupled_response_expectation rel]"

definition relationship_analyze ::
    "(Observation list \<Rightarrow> DetectedTrend result) \<Rightarrow> OperationalProfile \<Rightarrow> ObservationGroup \<Rightarrow>
     RelationshipAnalysis result" where
  "relationship_analyze detect profile grp =
     res_bind (correlation_detect detect (profile_policy profile) grp) (\<lambda>correlations.
     res_bind (contradiction_detect detect (profile_policy profile) grp) (\<lambda>contradictions.
     Ok \<lparr>ra_correlations = correlations, ra_contradictions = contradictions\<rparr>))"

section \<open>Lemmas about the detectors\<close>

definition same_series :: "Observation list \<Rightarrow> bool" where
  "same_series obs \<longleftrightarrow>
     (\<forall>x\<in>set obs. \<forall>y\<in>set obs. obs_asset_id x = obs_asset_id y \<and>
        obs_measurement_type x = obs_measurement_type y)"

lemma check_same_series_Ok_iff:
  "check_same_series asset mt obs = Ok u \<longleftrightarrow>
     (\<forall>x\<in>set obs. obs_asset_id x = asset \<and> obs_measurement_type x = mt)"
  by (induction obs) auto

lemma same_series_iff_check:
  assumes "obs \<noteq> []"
  shows "check_same_series (obs_asset_id (hd obs)) (obs_measurement_type (hd obs)) (tl obs) = Ok ()
    \<longleftrightarrow> same_series obs"
proof (cases obs)
  case Nil
  with assms show ?thesis by simp
next
  case (Cons ob obs')
  then show ?thesis by (auto simp: check_same_series_Ok_iff same_series_def)
qed

lemma trend_detect_Ok_iff:
  "trend_detect obs = Ok t \<longleftrightarrow>
     2 \<le> length obs \<and> same_series obs \<and>
     t = \<lparr>dt_direction = split_half_direction (sorted_by obs_timestamp obs),
          dt_asset_id = obs_asset_id (hd obs), dt_measurement_type = obs_measurement_type (hd obs)\<rparr>"
proof (cases "length obs < 2")
  case True
  then show ?thesis by (simp add: trend_detect_def)
next
  case False
  then have "obs \<noteq> []" by auto
  from same_series_iff_check [OF this] False show ?thesis
    by (auto simp: trend_detect_def res_bind_Ok_iff Let_def)
qed

lemma variation_detect_Ok_iff:
  "variation_detect obs = Ok v \<longleftrightarrow>
     2 \<le> length obs \<and> same_series obs \<and>
     v = \<lparr>dv_asset_id = obs_asset_id (hd obs), dv_measurement_type = obs_measurement_type (hd obs),
          dv_level = variation_level (sorted_by obs_timestamp obs)\<rparr>"
proof (cases "length obs < 2")
  case True
  then show ?thesis by (simp add: variation_detect_def)
next
  case False
  then have "obs \<noteq> []" by auto
  from same_series_iff_check [OF this] False show ?thesis
    by (auto simp: variation_detect_def res_bind_Ok_iff Let_def)
qed

text \<open>A positive, a negative and a null shift of the halves.\<close>

lemma STABLE_EPSILON_nonneg: "0 \<le> STABLE_EPSILON"
  by (simp add: STABLE_EPSILON_def flit_def fl.rnd_nonneg)

lemma direction_increasing_shift:
  "split_half_direction obs = INCREASING \<Longrightarrow> 8 \<le> length obs \<and> 0 < half_shift (map obs_value obs)"
  by (auto simp: split_half_direction_def MIN_SAMPLES_FOR_DIRECTIONAL_TREND_def Let_def
      split: if_splits)

lemma direction_decreasing_shift:
  assumes "split_half_direction obs = DECREASING"
  shows "8 \<le> length obs \<and> half_shift (map obs_value obs) < 0"
proof -
  have "\<not> \<bar>half_shift (map obs_value obs)\<bar> \<le> STABLE_EPSILON"
    and "\<not> 0 < half_shift (map obs_value obs)" and "8 \<le> length obs"
    using assms
    by (auto simp: split_half_direction_def MIN_SAMPLES_FOR_DIRECTIONAL_TREND_def Let_def
        split: if_splits)
  with STABLE_EPSILON_nonneg show ?thesis by linarith
qed

fun flip_direction :: "TrendDirection \<Rightarrow> TrendDirection" where
  "flip_direction INCREASING = DECREASING"
| "flip_direction STABLE = STABLE"
| "flip_direction DECREASING = INCREASING"

text \<open>The direction is a function of the shift of the halves and of the spread.\<close>

definition classify_shift :: "nat \<Rightarrow> pyfloat \<Rightarrow> pyfloat \<Rightarrow> TrendDirection" where
  "classify_shift n shift spread =
     (if n < 8 \<or> \<bar>shift\<bar> \<le> STABLE_EPSILON \<or>
         \<not> spread \<le> STABLE_EPSILON \<and> fdiv \<bar>shift\<bar> spread < TREND_RATIO_THRESHOLD
      then STABLE else if shift > 0 then INCREASING else DECREASING)"

lemma split_half_direction_alt:
  "split_half_direction obs =
     classify_shift (length obs) (half_shift (map obs_value obs)) (pstdev (map obs_value obs))"
  by (simp add: split_half_direction_def classify_shift_def MIN_SAMPLES_FOR_DIRECTIONAL_TREND_def
      Let_def)

lemma classify_shift_uminus: "classify_shift n (- shift) spread = flip_direction (classify_shift n shift spread)"
  using STABLE_EPSILON_nonneg by (auto simp: classify_shift_def)

lemma half_shift_uminus: "half_shift (map uminus vs) = - half_shift vs"
  by (simp add: half_shift_def Let_def drop_map take_map fmean_uminus fsub_def)
    (metis fl_minus minus_diff_eq uminus_add_conv_diff add.commute)

lemma half_shift_rev: "half_shift (rev vs) = - half_shift vs"
proof -
  define mid where "mid = length vs div 2"
  have mid: "length vs - (length vs - mid) = mid" by (simp add: mid_def)
  have "fmean (take mid (rev vs)) = fmean (drop (length vs - mid) vs)"
    by (rule fmean_perm) (simp add: take_rev)
  moreover have "fmean (drop (length vs - mid) (rev vs)) = fmean (take mid vs)"
    by (rule fmean_perm) (simp add: drop_rev mid)
  ultimately show ?thesis
    by (simp add: half_shift_def Let_def mid_def [symmetric]) (rule fsub_swap)
qed

lemma half_shift_sorted:
  assumes "sorted vs"
  shows "0 \<le> half_shift vs"
proof -
  define n where "n = length vs"
  have "list_all2 (\<le>) (take (n div 2) vs) (drop (n - n div 2) vs)"
    using assms by (auto simp: list_all2_conv_all_nth n_def intro!: sorted_nth_mono)
  then have "fmean (take (n div 2) vs) \<le> fmean (drop (n - n div 2) vs)"
    by (rule fmean_mono)
  then show ?thesis
    unfolding half_shift_def Let_def n_def [symmetric] fsub_def by (intro fl.rnd_nonneg) simp
qed

lemma sorted_by_perm_unique:
  assumes "mset xs = mset ys" and "distinct (map k xs)"
  shows "sorted_by k xs = sorted_by k ys"
proof -
  have set_eq: "set xs = set ys" using assms(1) by (metis set_mset_mset)
  have "distinct (map k ys)" using assms by (metis mset_eq_imp_distinct_iff mset_map)
  moreover have "inj_on k (set xs)" using assms(2) by (simp add: distinct_map)
  ultimately show ?thesis
    using assms(2) set_eq sorted_by_sorted [of k]
    by (intro map_sorted_distinct_set_unique [of k]) auto
qed

section \<open>What the clients of a trend detector rely on\<close>

lemma index_get_from_group [simp]:
  "index_get (index_from_group obs) mt = filter (\<lambda>ob. obs_measurement_type ob = mt) obs"
  by (auto simp: index_get_def index_from_group_def map_of_group_by filter_empty_conv
      intro!: sym [of "filter _ _"])

lemma mk_observation_group_wf: "mk_observation_group a obs = Ok g \<Longrightarrow> group_wf g"
  by (auto simp: mk_observation_group_def construct_Ok_iff group_wf_def list_ex_iff list_all_iff)

definition series_of :: "ObservationGroup \<Rightarrow> MeasurementType \<Rightarrow> Observation list" where
  "series_of g mt = filter (\<lambda>ob. obs_measurement_type ob = mt) (og_observations g)"

lemma index_get_group: "group_wf g \<Longrightarrow> index_get (og_measurements g) mt = series_of g mt"
  by (simp add: group_wf_def series_of_def)

lemma same_series_group: "group_wf g \<Longrightarrow> same_series (series_of g mt)"
  by (auto simp: group_wf_def series_of_def same_series_def list_all_iff)

locale trend_classifier =
  fixes detect :: "Observation list \<Rightarrow> DetectedTrend result"
  assumes detect_total: "2 \<le> length obs \<Longrightarrow> same_series obs \<Longrightarrow> \<exists>t. detect obs = Ok t"
    and detect_window: "detect obs = Ok t \<Longrightarrow> length obs < 8 \<Longrightarrow> dt_direction t = STABLE"
begin

lemma rule_directions_total:
  assumes "group_wf g"
  shows "\<exists>dirs. rule_directions detect g r = Ok dirs"
proof (cases "length (series_of g (rr_measurement_a r)) < 2 \<or>
    length (series_of g (rr_measurement_b r)) < 2")
  case True
  then show ?thesis by (auto simp: rule_directions_def index_get_group [OF assms])
next
  case False
  obtain ta tb where "detect (series_of g (rr_measurement_a r)) = Ok ta"
    "detect (series_of g (rr_measurement_b r)) = Ok tb"
    using detect_total [OF _ same_series_group [OF assms]] False by (meson not_less)
  then show ?thesis using False by (simp add: rule_directions_def index_get_group [OF assms])
qed

text \<open>A rule that fires saw at least eight observations of a side that is not stable.\<close>

lemma rule_directions_support:
  assumes "group_wf g" and "rule_directions detect g r = Ok (Some (da, db))"
  shows "da \<noteq> STABLE \<Longrightarrow> 8 \<le> length (series_of g (rr_measurement_a r))"
    and "db \<noteq> STABLE \<Longrightarrow> 8 \<le> length (series_of g (rr_measurement_b r))"
proof -
  obtain ta tb where "detect (series_of g (rr_measurement_a r)) = Ok ta" "da = dt_direction ta"
    "detect (series_of g (rr_measurement_b r)) = Ok tb" "db = dt_direction tb"
    using assms(2) by (auto simp: rule_directions_def index_get_group [OF assms(1)] Let_def
        res_bind_Ok_iff split: if_splits)
  then show "da \<noteq> STABLE \<Longrightarrow> 8 \<le> length (series_of g (rr_measurement_a r))"
    "db \<noteq> STABLE \<Longrightarrow> 8 \<le> length (series_of g (rr_measurement_b r))"
    using detect_window by (meson not_less)+
qed

lemma correlation_loop_total:
  assumes "group_wf g"
  shows "\<exists>cs. correlation_loop detect g rs = Ok cs"
proof (induction rs)
  case (Cons r rs)
  then obtain cs where "correlation_loop detect g rs = Ok cs" by blast
  moreover obtain dirs where "rule_directions detect g r = Ok dirs"
    using rule_directions_total [OF assms] by blast
  ultimately show ?case by simp
qed simp

lemma contradiction_loop_total:
  assumes "group_wf g"
  shows "\<exists>cs. contradiction_loop detect g rs = Ok cs"
proof (induction rs)
  case (Cons r rs)
  then obtain cs where "contradiction_loop detect g rs = Ok cs" by blast
  moreover obtain dirs where "rule_directions detect g r = Ok dirs"
    using rule_directions_total [OF assms] by blast
  ultimately show ?case by simp
qed simp

lemma relationship_analyze_total: "group_wf g \<Longrightarrow> \<exists>ra. relationship_analyze detect prof g = Ok ra"
  unfolding relationship_analyze_def correlation_detect_def contradiction_detect_def
  by (metis res_bind.simps(2) correlation_loop_total contradiction_loop_total)

lemma correlation_loop_rule:
  "correlation_loop detect g rs = Ok cs \<Longrightarrow> c \<in> set cs \<Longrightarrow>
     \<exists>r\<in>set rs. rr_measurement_a r = mc_measurement_a c \<and> rr_measurement_b r = mc_measurement_b c \<and>
       rule_directions detect g r = Ok (Some (INCREASING, DECREASING))"
proof (induction rs arbitrary: cs)
  case Nil
  then show ?case by simp
next
  case (Cons r rs)
  then obtain dirs rest where "rule_directions detect g r = Ok dirs"
    "correlation_loop detect g rs = Ok rest" "c \<in> set rest \<or>
      dirs = Some (INCREASING, DECREASING) \<and> rr_measurement_a r = mc_measurement_a c \<and>
      rr_measurement_b r = mc_measurement_b c"
    by (auto simp: res_bind_Ok_iff split: if_splits)
  then show ?case using Cons.IH by auto
qed

lemma contradiction_loop_rule:
  "contradiction_loop detect g rs = Ok cs \<Longrightarrow> cs \<noteq> [] \<Longrightarrow>
     \<exists>r\<in>set rs. rule_directions detect g r = Ok (Some (INCREASING, INCREASING))"
proof (induction rs arbitrary: cs)
  case Nil
  then show ?case by simp
next
  case (Cons r rs)
  then obtain dirs rest where "rule_directions detect g r = Ok dirs"
    "correlation_loop detect g [] = Ok []" "contradiction_loop detect g rs = Ok rest"
    "rest \<noteq> [] \<or> dirs = Some (INCREASING, INCREASING)"
    by (auto simp: res_bind_Ok_iff split: if_splits)
  then show ?case using Cons.IH by auto
qed

lemma correlation_supported:
  assumes "group_wf g" and "relationship_analyze detect prof g = Ok ra" and "c \<in> set (ra_correlations ra)"
  shows "8 \<le> length (series_of g (mc_measurement_a c)) \<and>
         8 \<le> length (series_of g (mc_measurement_b c))"
proof -
  have "correlation_loop detect g (rp_correlation_rules (profile_policy prof)) = Ok (ra_correlations ra)"
    using assms(2) by (auto simp: relationship_analyze_def correlation_detect_def res_bind_Ok_iff)
  from correlation_loop_rule [OF this assms(3)] rule_directions_support [OF assms(1)]
  show ?thesis by (metis TrendDirection.distinct(1,5))
qed

end

interpretation td: trend_classifier trend_detect
proof unfold_locales
  show "\<exists>t. trend_detect obs = Ok t" if "2 \<le> length obs" "same_series obs" for obs
    using that by (simp add: trend_detect_Ok_iff)
  show "dt_direction t = STABLE" if "trend_detect obs = Ok t" "length obs < 8" for obs t
    using that
    by (auto simp: trend_detect_Ok_iff split_half_direction_def MIN_SAMPLES_FOR_DIRECTIONAL_TREND_def)
qed

section \<open>Properties\<close>

text \<open>A concrete series for the examples: one reading per second.\<close>

definition demo_series :: "string \<Rightarrow> pyfloat list \<Rightarrow> Observation list" where
  "demo_series mt vs =
     map (\<lambda>(i, v). \<lparr>obs_id = mt @ nat_str i, obs_asset_id = ''stack-1'',
            obs_timestamp = 1000000 * int i, obs_measurement_type = MeasurementType mt,
            obs_value = v, obs_unit = ''u''\<rparr>)
       (zip [0..<length vs] vs)"

definition demo_trend :: "string \<Rightarrow> TrendDirection \<Rightarrow> DetectedTrend" where
  "demo_trend mt d =
     \<lparr>dt_direction = d, dt_asset_id = ''stack-1'', dt_measurement_type = MeasurementType mt\<rparr>"

lemma demo_rising:
  "trend_detect (demo_series ''current'' [1, 2, 3, 4, 5, 6, 7, 10]) =
     Ok (demo_trend ''current'' INCREASING)"
  by code_simp

text \<open>
  The trend of a series does not depend on the order in which its observations arrive:
  any permutation of observations with distinct timestamps is classified alike.
\<close>

theorem trend_detect_order_independent:
  assumes "trend_detect obs = Ok t" and "mset obs' = mset obs" and "distinct (map obs_timestamp obs)"
  shows "trend_detect obs' = Ok t"
proof -
  have set_eq: "set obs' = set obs" using assms(2) by (metis set_mset_mset)
  have len: "length obs' = length obs" using assms(2) by (rule mset_eq_length)
  have two: "2 \<le> length obs" and same: "same_series obs"
    using assms(1) by (auto simp: trend_detect_Ok_iff)
  have "obs \<noteq> []" "obs' \<noteq> []" using two len by auto
  then have "hd obs' \<in> set obs" "hd obs \<in> set obs"
    using set_eq hd_in_set [of obs'] by auto
  then have "obs_asset_id (hd obs') = obs_asset_id (hd obs)"
    "obs_measurement_type (hd obs') = obs_measurement_type (hd obs)"
    using same unfolding same_series_def by blast+
  moreover have "sorted_by obs_timestamp obs' = sorted_by obs_timestamp obs"
    using sorted_by_perm_unique [OF assms(2) [symmetric] assms(3)] by simp
  moreover have "same_series obs'" using same unfolding same_series_def set_eq .
  ultimately show ?thesis
    using assms(1) two len unfolding trend_detect_Ok_iff by simp
qed

lemma trend_detect_order_independent_witness:
  "trend_detect (rev (demo_series ''current'' [1, 2, 3, 4, 5, 6, 7, 10])) =
     Ok (demo_trend ''current'' INCREASING)"
  by (rule trend_detect_order_independent [OF demo_rising]) (simp, code_simp)

text \<open>
  Mirror symmetry of the trend classification: negating every value, or reading the
  window backwards in time, exactly exchanges INCREASING and DECREASING, rounding included.
\<close>

theorem trend_mirror_symmetry:
  "split_half_direction (map (\<lambda>ob. ob\<lparr>obs_value := - obs_value ob\<rparr>) ordered) =
     flip_direction (split_half_direction ordered) \<and>
   split_half_direction (rev ordered) = flip_direction (split_half_direction ordered)"
proof
  have neg: "map obs_value (map (\<lambda>ob. ob\<lparr>obs_value := - obs_value ob\<rparr>) ordered) =
      map uminus (map obs_value ordered)"
    by simp
  show "split_half_direction (map (\<lambda>ob. ob\<lparr>obs_value := - obs_value ob\<rparr>) ordered) =
     flip_direction (split_half_direction ordered)"
    unfolding split_half_direction_alt neg half_shift_uminus pstdev_uminus classify_shift_uminus
    by simp
  have sp: "pstdev (map obs_value (rev ordered)) = pstdev (map obs_value ordered)"
    by (rule pstdev_perm) simp
  show "split_half_direction (rev ordered) = flip_direction (split_half_direction ordered)"
    unfolding split_half_direction_alt sp by (simp add: rev_map [symmetric] half_shift_rev classify_shift_uminus)
qed

text \<open>
  Soundness of the direction: a window of fewer than eight observations is STABLE, a
  window whose values never fall over time is never DECREASING, and one whose values never
  rise is never INCREASING.
\<close>

theorem trend_direction_sound:
  assumes "trend_detect obs = Ok t"
  shows "(length obs < 8 \<longrightarrow> dt_direction t = STABLE) \<and>
    (sorted (map obs_value (sorted_by obs_timestamp obs)) \<longrightarrow> dt_direction t \<noteq> DECREASING) \<and>
    (sorted (rev (map obs_value (sorted_by obs_timestamp obs))) \<longrightarrow> dt_direction t \<noteq> INCREASING)"
proof -
  let ?vs = "map obs_value (sorted_by obs_timestamp obs)"
  have t: "dt_direction t = split_half_direction (sorted_by obs_timestamp obs)"
    using assms by (simp add: trend_detect_Ok_iff)
  have "dt_direction t \<noteq> DECREASING" if "sorted ?vs"
    using half_shift_sorted [OF that] direction_decreasing_shift [of "sorted_by obs_timestamp obs"] t
    by auto
  moreover have "dt_direction t \<noteq> INCREASING" if "sorted (rev ?vs)"
    using half_shift_sorted [OF that] direction_increasing_shift [of "sorted_by obs_timestamp obs"] t
    by (auto simp: half_shift_rev)
  ultimately show ?thesis using td.detect_window [OF assms] by blast
qed

lemma trend_direction_sound_witness:
  "sorted (map obs_value (sorted_by obs_timestamp (demo_series ''current'' [1, 2, 3, 4, 5, 6, 7, 10])))
   \<and> dt_direction (demo_trend ''current'' INCREASING) \<noteq> DECREASING"
  using trend_direction_sound [OF demo_rising] by (auto simp: demo_trend_def) code_simp

text \<open>
  On a well-formed group, relationship analysis with the real trend detector always
  returns; every correlation it reports is backed by at least eight observations of each of
  its two measurements.
\<close>

theorem relationship_analysis_total_and_supported:
  assumes "group_wf g"
  shows "\<exists>ra. relationship_analyze trend_detect prof g = Ok ra \<and>
    (\<forall>c\<in>set (ra_correlations ra). 8 \<le> length (series_of g (mc_measurement_a c)) \<and>
        8 \<le> length (series_of g (mc_measurement_b c)))"
  using td.relationship_analyze_total [OF assms] td.correlation_supported [OF assms] by blast

definition demo_group :: ObservationGroup where
  "demo_group =
     (let obs = demo_series ''current'' [1, 2, 3, 4, 5, 6, 7, 10] @
                demo_series ''voltage'' [10, 9, 8, 7, 6, 5, 4, 1]
      in \<lparr>og_asset_id = ''stack-1'', og_observations = obs,
          og_measurements = index_from_group obs\<rparr>)"

lemma demo_group_wf: "group_wf demo_group"
  by code_simp

lemma relationship_analysis_total_and_supported_witness:
  "\<exists>ra. relationship_analyze trend_detect fuel_cell_default_profile demo_group = Ok ra \<and>
     length (ra_correlations ra) = 1"
proof -
  obtain ra where ra: "relationship_analyze trend_detect fuel_cell_default_profile demo_group = Ok ra"
    using relationship_analysis_total_and_supported [OF demo_group_wf] by blast
  have "(case relationship_analyze trend_detect fuel_cell_default_profile demo_group of
           Inl e \<Rightarrow> 0 | Inr r \<Rightarrow> length (ra_correlations r)) = 1"
    by code_simp
  with ra show ?thesis by simp
qed

end
