(* ===== verification/Assessment_Planning.thy ===== *)
theory Assessment_Planning
  imports Detectors
begin

text \<open>
  From signals to a plan (\<^verbatim>\<open>src/src/application\<close>): the operational situation assessor with its
  assessment sentences, the structured assessment, the planning context, the decision context,
  the decision planner that matches substrings of the assessment, actions and outcomes. The
  assessor and the planner communicate through an English sentence; the theorems show that
  the planner understands every sentence the assessor can write, and what it decides.
\<close>

section \<open>Structured assessment\<close>

record StructuredAssessment =
  sa_trend_direction :: TrendDirection
  sa_variation_level :: VariationLevel
  sa_has_correlations :: bool
  sa_has_contradictions :: bool
  sa_has_unexpected_expectations :: bool
  sa_has_indeterminate_expectations :: bool

definition from_reasoning ::
    "DetectedTrend \<Rightarrow> DetectedVariation \<Rightarrow> RelationshipAnalysis option \<Rightarrow>
     ExpectationAnalysis option \<Rightarrow> StructuredAssessment" where
  "from_reasoning trend variation relationship_analysis expectation_analysis =
     (let analysis = (case expectation_analysis of Some a \<Rightarrow> a | None \<Rightarrow> [])
      in \<lparr>sa_trend_direction = dt_direction trend,
          sa_variation_level = dv_level variation,
          sa_has_correlations =
            (case relationship_analysis of Some r \<Rightarrow> ra_correlations r \<noteq> [] | None \<Rightarrow> False),
          sa_has_contradictions =
            (case relationship_analysis of Some r \<Rightarrow> ra_contradictions r \<noteq> [] | None \<Rightarrow> False),
          sa_has_unexpected_expectations = has_unexpected analysis,
          sa_has_indeterminate_expectations = has_indeterminate analysis\<rparr>)"

record PlanningContext =
  pc_has_relationships :: bool
  pc_has_contradictions :: bool

definition planning_context_from_assessment :: "StructuredAssessment \<Rightarrow> PlanningContext" where
  "planning_context_from_assessment a =
     \<lparr>pc_has_relationships = (sa_has_correlations a \<or> sa_has_contradictions a),
      pc_has_contradictions = sa_has_contradictions a\<rparr>"

section \<open>The assessor\<close>

fun assessment_from_signals :: "TrendDirection \<Rightarrow> VariationLevel \<Rightarrow> string" where
  "assessment_from_signals INCREASING VAR_LOW = ''Increasing operational stress detected''"
| "assessment_from_signals INCREASING VAR_HIGH =
     ''Rapidly increasing unstable operational conditions detected''"
| "assessment_from_signals STABLE VAR_LOW = ''Operational conditions stable''"
| "assessment_from_signals STABLE VAR_HIGH = ''Highly unstable operating conditions detected''"
| "assessment_from_signals DECREASING VAR_LOW = ''Operational conditions improving''"
| "assessment_from_signals DECREASING VAR_HIGH =
     ''Operational conditions remain unstable despite improvement''"

definition NL :: string where
  "NL = [CHR 0x0A, CHR 0x0A]"

definition assessment_with_relationships :: "string \<Rightarrow> RelationshipAnalysis option \<Rightarrow> string" where
  "assessment_with_relationships assessment relationship_analysis =
     (case relationship_analysis of
        None \<Rightarrow> assessment
      | Some r \<Rightarrow>
          if ra_contradictions r \<noteq> []
          then assessment @ NL @ ''Cross-measurement inconsistencies detected.''
          else if ra_correlations r \<noteq> []
          then assessment @ NL @ ''Cross-measurement relationships detected.''
          else assessment)"

record AssessmentResult =
  ar_situation :: OperationalSituation
  ar_structured :: StructuredAssessment

text \<open>The loop that compares every observation with the detectors' asset and type.\<close>

fun check_detector_series :: "DetectedTrend \<Rightarrow> Observation list \<Rightarrow> unit result" where
  "check_detector_series trend [] = Ok ()"
| "check_detector_series trend (ob # obs) =
     (if obs_asset_id ob \<noteq> dt_asset_id trend
      then Err (ValueError ''all observations must belong to the same asset as the detectors'')
      else if obs_measurement_type ob \<noteq> dt_measurement_type trend
      then Err (ValueError (''all observations must have the same measurement type '' @
                            ''as the detectors''))
      else check_detector_series trend obs)"

definition assess ::
    "OperationalGoal \<Rightarrow> Observation list \<Rightarrow> DetectedTrend \<Rightarrow> DetectedVariation \<Rightarrow>
     RelationshipAnalysis option \<Rightarrow> ExpectationAnalysis option \<Rightarrow> runtime \<Rightarrow>
     (AssessmentResult \<times> runtime) result" where
  "assess goal observations trend variation relationship_analysis expectation_analysis rt =
     (if observations = [] then Err (ValueError ''at least one observation is required'')
      else if dt_asset_id trend \<noteq> dv_asset_id variation
      then Err (ValueError ''trend and variation must refer to the same asset'')
      else if dt_measurement_type trend \<noteq> dv_measurement_type variation
      then Err (ValueError ''trend and variation must have the same measurement type'')
      else let ordered = sorted_by obs_timestamp observations
           in res_bind (check_detector_series trend ordered) (\<lambda>_.
              let assessment = assessment_with_relationships
                    (assessment_from_signals (dt_direction trend) (dv_level variation))
                    relationship_analysis;
                  (i, rt) = uuid4 rt
              in res_bind (mk_operational_situation i (goal_id goal) (map obs_id ordered) assessment)
                   (\<lambda>situation.
                 Ok (\<lparr>ar_situation = situation,
                      ar_structured = from_reasoning trend variation
                        relationship_analysis expectation_analysis\<rparr>, rt))))"

section \<open>Decision context, planner, action and outcome\<close>

definition create_operational_situation ::
    "OperationalGoal \<Rightarrow> Observation list \<Rightarrow> string \<Rightarrow> runtime \<Rightarrow>
     (OperationalSituation \<times> runtime) result" where
  "create_operational_situation goal observations assessment rt =
     (let (i, rt) = uuid4 rt
      in res_bind (mk_operational_situation i (goal_id goal) (map obs_id observations) assessment)
           (\<lambda>s. Ok (s, rt)))"

definition create_decision_context ::
    "OperationalGoal \<Rightarrow> OperationalSituation \<Rightarrow> runtime \<Rightarrow> (DecisionContext \<times> runtime) result" where
  "create_decision_context goal situation rt =
     (if sit_goal_id situation \<noteq> goal_id goal
      then Err (ValueError ''situation must belong to the supplied goal'')
      else let (i, rt) = uuid4 rt; (now, rt) = utc_now rt
           in res_bind (mk_decision_context i (goal_id goal) (sit_id situation)
                          (sit_assessment situation) now)
                (\<lambda>c. Ok (c, rt)))"

definition planning_outcome :: "string \<Rightarrow> (Priority \<times> string \<times> string) result" where
  "planning_outcome assessment =
     (let normalized = casefold assessment
      in if py_in ''increasing'' normalized
         then Ok (PRI_HIGH, ''Investigate operational conditions'',
                  ''Operational assessment indicates increasing stress.'')
         else if py_in ''unstable'' normalized
         then Ok (PRI_HIGH, ''Investigate operational conditions'',
                  ''Operational assessment indicates unstable conditions.'')
         else if py_in ''stable'' normalized
         then Ok (PRI_LOW, ''Continue monitoring'', ''Operational conditions remain stable.'')
         else if py_in ''improving'' normalized
         then Ok (PRI_LOW, ''Maintain current operations'', ''Operational conditions are improving.'')
         else Err (ValueError ''unrecognized operational assessment''))"

definition decision_plan ::
    "DecisionContext \<Rightarrow> PlanningContext option \<Rightarrow> runtime \<Rightarrow> (DecisionPlan \<times> runtime) result" where
  "decision_plan context planning_context rt =
     res_bind (planning_outcome (dc_assessment context)) (\<lambda>(priority, recommendation, justification).
       let (i, rt) = uuid4 rt; (now, rt) = utc_now rt
       in res_bind (mk_decision_plan i (dc_id context) now priority recommendation justification)
            (\<lambda>p. Ok (p, rt)))"

definition record_action :: "DecisionPlan \<Rightarrow> runtime \<Rightarrow> (Action \<times> runtime) result" where
  "record_action plan rt =
     (let (i, rt) = uuid4 rt in res_bind (mk_action i (plan_id plan)) (\<lambda>a. Ok (a, rt)))"

definition record_outcome :: "Action \<Rightarrow> runtime \<Rightarrow> (Outcome \<times> runtime) result" where
  "record_outcome action rt =
     (let (i, rt) = uuid4 rt in res_bind (mk_outcome i (act_id action)) (\<lambda>a. Ok (a, rt)))"

section \<open>Lemmas\<close>

lemma check_detector_series_Ok_iff:
  "check_detector_series trend obs = Ok u \<longleftrightarrow>
     (\<forall>ob\<in>set obs. obs_asset_id ob = dt_asset_id trend \<and>
        obs_measurement_type ob = dt_measurement_type trend)"
  by (induction obs) auto

lemma assessment_from_signals_nonempty [simp]: "assessment_from_signals d v \<noteq> []"
  by (cases d; cases v) simp_all

lemma assessment_with_relationships_nonempty [simp]:
  "a \<noteq> [] \<Longrightarrow> assessment_with_relationships a r \<noteq> []"
  by (simp add: assessment_with_relationships_def split: option.splits)

lemma assess_Ok:
  assumes "assess goal obs trend variation ra ea rt = Ok (res, rt')"
  shows "situation_wf (ar_situation res)"
    and "sit_goal_id (ar_situation res) = goal_id goal"
    and "sit_id (ar_situation res) = rt_uuids rt (rt_uuid_count rt)"
    and "sit_observation_ids (ar_situation res) = map obs_id (sorted_by obs_timestamp obs)"
    and "sit_assessment (ar_situation res) = assessment_with_relationships
           (assessment_from_signals (dt_direction trend) (dv_level variation)) ra"
    and "ar_structured res = from_reasoning trend variation ra ea"
    and "rt' = rt\<lparr>rt_uuid_count := Suc (rt_uuid_count rt)\<rparr>"
  using assms
  by (auto simp: assess_def uuid4_def res_bind_Ok_iff Let_def mk_operational_situation_Ok_iff
      situation_wf_def split: if_splits)

lemma assess_total:
  assumes "obs \<noteq> []" and "\<forall>ob\<in>set obs. obs_asset_id ob = dt_asset_id trend \<and>
      obs_measurement_type ob = dt_measurement_type trend"
    and "dv_asset_id variation = dt_asset_id trend"
    and "dv_measurement_type variation = dt_measurement_type trend"
    and "distinct (map obs_id obs)" and "goal_id goal \<noteq> []" and "uuids_fresh rt"
  shows "\<exists>res rt'. assess goal obs trend variation ra ea rt = Ok (res, rt')"
proof -
  have chk: "check_detector_series trend (sorted_by obs_timestamp obs) = Ok ()"
    using assms(2) by (simp add: check_detector_series_Ok_iff)
  let ?txt = "assessment_with_relationships
      (assessment_from_signals (dt_direction trend) (dv_level variation)) ra"
  have "\<exists>s. mk_operational_situation (rt_uuids rt (rt_uuid_count rt)) (goal_id goal)
      (map obs_id (sorted_by obs_timestamp obs)) ?txt = Ok s"
    using assms(1,5,6,7) set_sorted_by [of obs_timestamp obs]
    unfolding mk_operational_situation_Ok_iff
    by (auto simp: uuids_fresh_def simp del: set_sorted_by)
  then show ?thesis
    using assms(1,3,4) chk by (auto simp: assess_def uuid4_def Let_def)
qed

section \<open>The planner on the assessor's sentences\<close>

text \<open>Case folding and substring search, computed on the six sentences.\<close>

lemma casefold_from_signals:
  "casefold (assessment_from_signals INCREASING VAR_LOW) = ''increasing operational stress detected''"
  "casefold (assessment_from_signals INCREASING VAR_HIGH) =
     ''rapidly increasing unstable operational conditions detected''"
  "casefold (assessment_from_signals STABLE VAR_LOW) = ''operational conditions stable''"
  "casefold (assessment_from_signals STABLE VAR_HIGH) =
     ''highly unstable operating conditions detected''"
  "casefold (assessment_from_signals DECREASING VAR_LOW) = ''operational conditions improving''"
  "casefold (assessment_from_signals DECREASING VAR_HIGH) =
     ''operational conditions remain unstable despite improvement''"
  by code_simp+

definition relationship_suffix :: "RelationshipAnalysis option \<Rightarrow> string" where
  "relationship_suffix ra =
     (case ra of
        None \<Rightarrow> []
      | Some r \<Rightarrow> if ra_contradictions r \<noteq> [] then NL @ ''Cross-measurement inconsistencies detected.''
                  else if ra_correlations r \<noteq> [] then NL @ ''Cross-measurement relationships detected.''
                  else [])"

lemma assessment_with_relationships_suffix:
  "assessment_with_relationships a ra = a @ relationship_suffix ra"
  by (simp add: assessment_with_relationships_def relationship_suffix_def split: option.splits)

definition planned_priority :: "TrendDirection \<Rightarrow> VariationLevel \<Rightarrow> Priority" where
  "planned_priority d v = (if d = INCREASING \<or> v = VAR_HIGH then PRI_HIGH else PRI_LOW)"

definition planned_outcome ::
    "TrendDirection \<Rightarrow> VariationLevel \<Rightarrow> Priority \<times> string \<times> string" where
  "planned_outcome d v =
     (if d = INCREASING then (PRI_HIGH, ''Investigate operational conditions'',
                              ''Operational assessment indicates increasing stress.'')
      else if v = VAR_HIGH then (PRI_HIGH, ''Investigate operational conditions'',
                              ''Operational assessment indicates unstable conditions.'')
      else if d = STABLE then (PRI_LOW, ''Continue monitoring'', ''Operational conditions remain stable.'')
      else (PRI_LOW, ''Maintain current operations'', ''Operational conditions are improving.''))"

lemma casefold_suffixes:
  "casefold (NL @ ''Cross-measurement inconsistencies detected.'') =
     NL @ ''cross-measurement inconsistencies detected.''"
  "casefold (NL @ ''Cross-measurement relationships detected.'') =
     NL @ ''cross-measurement relationships detected.''"
  by code_simp+

text \<open>The planner's words do not occur in the sentences about relationships.\<close>

lemma planner_words_not_in_suffixes:
  assumes "w \<in> {''increasing'', ''unstable'', ''stable'', ''improving''}"
  shows "py_in w (a @ NL @ ''cross-measurement inconsistencies detected.'') \<longleftrightarrow> py_in w a"
    and "py_in w (a @ NL @ ''cross-measurement relationships detected.'') \<longleftrightarrow> py_in w a"
proof -
  have "CHR 0x0A \<notin> set w" "w \<noteq> []" using assms by auto
  then have *: "py_in w (a @ NL @ b) \<longleftrightarrow> py_in w a \<or> py_in w b" for b
    using py_in_no_straddle [of "CHR 0x0A" w a "CHR 0x0A # b"]
      py_in_no_straddle [of "CHR 0x0A" w "[]" b] by (auto simp: NL_def)
  show "py_in w (a @ NL @ ''cross-measurement inconsistencies detected.'') \<longleftrightarrow> py_in w a"
    unfolding * using assms by auto
  show "py_in w (a @ NL @ ''cross-measurement relationships detected.'') \<longleftrightarrow> py_in w a"
    unfolding * using assms by auto
qed

lemma planning_outcome_plain: "planning_outcome (assessment_from_signals d v) = Ok (planned_outcome d v)"
  by (cases d; cases v)
    (simp_all only: planning_outcome_def Let_def casefold_from_signals, simp_all add: planned_outcome_def)

lemma relationship_suffix_cases:
  "relationship_suffix ra = [] \<or>
   relationship_suffix ra = NL @ ''Cross-measurement inconsistencies detected.'' \<or>
   relationship_suffix ra = NL @ ''Cross-measurement relationships detected.''"
  by (cases ra) (simp_all add: relationship_suffix_def)

lemma planned_outcome_nonempty:
  "planned_outcome d v = (pri, rc, js) \<Longrightarrow> rc \<noteq> [] \<and> js \<noteq> []"
  by (auto simp: planned_outcome_def split: if_splits)

lemma planner_words_suffix:
  assumes "w \<in> {''increasing'', ''unstable'', ''stable'', ''improving''}"
  shows "py_in w (casefold (a @ relationship_suffix ra)) \<longleftrightarrow> py_in w (casefold a)"
proof -
  consider "relationship_suffix ra = []"
    | "relationship_suffix ra = NL @ ''Cross-measurement inconsistencies detected.''"
    | "relationship_suffix ra = NL @ ''Cross-measurement relationships detected.''"
    using relationship_suffix_cases by blast
  then show ?thesis
    by cases (simp_all only: casefold_append [of a] casefold_suffixes append_Nil2
        planner_words_not_in_suffixes [OF assms])
qed

lemma planning_outcome_suffix: "planning_outcome (a @ relationship_suffix ra) = planning_outcome a"
  by (simp add: planning_outcome_def Let_def planner_words_suffix del: casefold_append)

lemma planning_outcome_assessor:
  "planning_outcome (assessment_with_relationships (assessment_from_signals d v) ra) =
     Ok (planned_outcome d v)"
  by (simp only: assessment_with_relationships_suffix planning_outcome_suffix planning_outcome_plain)

lemma decision_from_situation:
  assumes "situation_wf s" and "sit_goal_id s = goal_id goal"
    and sentence: "sit_assessment s = assessment_with_relationships (assessment_from_signals d v) ra"
    and "uuids_fresh rt"
  shows "\<exists>ctx rt2 plan rt3.
    create_decision_context goal s rt = Ok (ctx, rt2) \<and>
    decision_plan ctx pc rt2 = Ok (plan, rt3) \<and>
    dc_situation_id ctx = sit_id s \<and> plan_context_id plan = dc_id ctx \<and>
    (plan_priority plan, plan_recommendation plan, plan_justification plan) = planned_outcome d v"
proof -
  have fresh: "rt_uuids rt n \<noteq> []" for n
    using assms(4) by (simp add: uuids_fresh_def)
  have wf: "sit_id s \<noteq> []" "goal_id goal \<noteq> []" "sit_assessment s \<noteq> []"
    using assms(1,2) by (auto simp: situation_wf_def)
  obtain ctx rt2 where ctx: "create_decision_context goal s rt = Ok (ctx, rt2)"
    and c: "dc_situation_id ctx = sit_id s" "dc_assessment ctx = sit_assessment s" "dc_id ctx \<noteq> []"
    and f2: "rt_uuids rt2 = rt_uuids rt"
    using wf fresh assms(2)
    by (auto simp: create_decision_context_def uuid4_def utc_now_def mk_decision_context_def
        construct_Cons)
  have out: "planning_outcome (dc_assessment ctx) = Ok (planned_outcome d v)"
    using sentence c(2) by (simp add: planning_outcome_assessor)
  obtain pri rc js where po: "planned_outcome d v = (pri, rc, js)" by (cases "planned_outcome d v")
  obtain plan rt3 where "decision_plan ctx pc rt2 = Ok (plan, rt3)"
    and "plan_context_id plan = dc_id ctx"
    and "(plan_priority plan, plan_recommendation plan, plan_justification plan) = planned_outcome d v"
    using c(3) fresh planned_outcome_nonempty [OF po]
    by (auto simp: decision_plan_def out po uuid4_def utc_now_def mk_decision_plan_def
        construct_Cons f2)
  then show ?thesis using ctx c(1) by blast
qed

lemma planned_outcome_priority:
  "(pri, rc, js) = planned_outcome d v \<Longrightarrow> pri = planned_priority d v"
  by (auto simp: planned_outcome_def planned_priority_def split: if_splits)

section \<open>Properties\<close>

text \<open>
  C32. The planner understands every assessment the assessor can produce, with or without a
  sentence on relationships: from an accepted situation of this goal the decision context and
  the plan are always built, the plan answers the context, and its priority is HIGH exactly when
  the trend is increasing or the variation is high.
\<close>

theorem assess_then_plan_total:
  assumes "assess goal obs trend variation ra ea rt = Ok (res, rt1)" and "uuids_fresh rt"
  shows "\<exists>ctx rt2 plan rt3.
    create_decision_context goal (ar_situation res) rt1 = Ok (ctx, rt2) \<and>
    decision_plan ctx pc rt2 = Ok (plan, rt3) \<and>
    dc_situation_id ctx = sit_id (ar_situation res) \<and> plan_context_id plan = dc_id ctx \<and>
    (plan_priority plan = PRI_HIGH \<longleftrightarrow>
       dt_direction trend = INCREASING \<or> dv_level variation = VAR_HIGH) \<and>
    (plan_priority plan = PRI_LOW \<longleftrightarrow>
       dt_direction trend \<noteq> INCREASING \<and> dv_level variation = VAR_LOW)"
proof -
  note a = assess_Ok [OF assms(1)]
  have "uuids_fresh rt1" using assms(2) a(7) by (simp add: uuids_fresh_def)
  from decision_from_situation [OF a(1,2,5) this, of pc]
  obtain ctx rt2 plan rt3 where
    "create_decision_context goal (ar_situation res) rt1 = Ok (ctx, rt2)"
    "decision_plan ctx pc rt2 = Ok (plan, rt3)"
    "dc_situation_id ctx = sit_id (ar_situation res)" "plan_context_id plan = dc_id ctx"
    and p: "(plan_priority plan, plan_recommendation plan, plan_justification plan) =
      planned_outcome (dt_direction trend) (dv_level variation)"
    by blast
  then show ?thesis
    using planned_outcome_priority [OF p] VariationLevel.exhaust [of "dv_level variation"]
    by (auto simp: planned_priority_def)
qed

definition demo_goal :: OperationalGoal where
  "demo_goal = \<lparr>goal_id = ''goal-1'', goal_description = ''Keep the stack healthy''\<rparr>"

definition demo_variation :: "string \<Rightarrow> VariationLevel \<Rightarrow> DetectedVariation" where
  "demo_variation mt v =
     \<lparr>dv_asset_id = ''stack-1'', dv_measurement_type = MeasurementType mt, dv_level = v\<rparr>"

lemma assess_then_plan_total_witness:
  "\<exists>res rt1 ctx rt2 plan rt3.
     assess demo_goal (demo_series ''current'' [1, 2]) (demo_trend ''current'' INCREASING)
       (demo_variation ''current'' VAR_LOW) None None demo_runtime = Ok (res, rt1) \<and>
     create_decision_context demo_goal (ar_situation res) rt1 = Ok (ctx, rt2) \<and>
     decision_plan ctx None rt2 = Ok (plan, rt3) \<and> plan_priority plan = PRI_HIGH"
proof -
  have "\<exists>res rt1. assess demo_goal (demo_series ''current'' [1, 2]) (demo_trend ''current'' INCREASING)
       (demo_variation ''current'' VAR_LOW) None None demo_runtime = Ok (res, rt1)"
    by (rule assess_total)
      (auto simp: demo_series_def demo_trend_def demo_variation_def demo_goal_def demo_runtime_fresh
        upt_conv_Cons)
  then obtain res rt1 where r: "assess demo_goal (demo_series ''current'' [1, 2])
      (demo_trend ''current'' INCREASING) (demo_variation ''current'' VAR_LOW) None None demo_runtime =
      Ok (res, rt1)"
    by blast
  from assess_then_plan_total [OF r demo_runtime_fresh, of None] r show ?thesis
    by (fastforce simp: demo_trend_def)
qed

end
