(* ===== verification/Reasoning_Stages.thy ===== *)
theory Reasoning_Stages
  imports Assessment_Planning
begin

text \<open>
  The reasoning pipeline (\<^verbatim>\<open>src/src/application/reasoning\<close>): the immutable context with its
  artifacts, the per-type observation window, and the seven stages in the order the session
  runs them: signal extraction, evidence, hypotheses, assessment, confidence, explanation,
  planning. A stage maps a context (and the runtime that supplies identifiers and clock) to an
  enriched context or to the exception it raises. The locale \<open>reasoning_stage\<close> is the
  \<^verbatim>\<open>ReasoningStage\<close> protocol: a stage never changes the inputs of the run.
\<close>

section \<open>Context\<close>

record ReasoningSignals =
  rs_trend :: DetectedTrend
  rs_variation :: DetectedVariation
  rs_relationship_analysis :: RelationshipAnalysis
  rs_operational_context :: OperationalContext
  rs_expectation_analysis :: ExpectationAnalysis
  rs_primary_observations :: "Observation list"

record ReasoningArtifacts =
  ra_signals :: "ReasoningSignals option"
  ra_evidence :: "Evidence list"
  ra_hypotheses :: "Hypothesis list"
  ra_structured_assessment :: "StructuredAssessment option"
  ra_assessment_summary :: "AssessmentSummary option"
  ra_explanation :: "Explanation option"
  ra_confidence :: "ConfidenceBreakdown option"
  ra_planning_context :: "PlanningContext option"
  ra_decision_context :: "DecisionContext option"
  ra_decision_plan :: "DecisionPlan option"

definition no_artifacts :: ReasoningArtifacts where
  "no_artifacts =
     \<lparr>ra_signals = None, ra_evidence = [], ra_hypotheses = [], ra_structured_assessment = None,
      ra_assessment_summary = None, ra_explanation = None, ra_confidence = None,
      ra_planning_context = None, ra_decision_context = None, ra_decision_plan = None\<rparr>"

record ReasoningContext =
  rc_goal :: OperationalGoal
  rc_observations :: "Observation list"
  rc_profile :: OperationalProfile
  rc_artifacts :: ReasoningArtifacts
  rc_run_id :: "string option"

definition with_artifacts ::
    "(ReasoningArtifacts \<Rightarrow> ReasoningArtifacts) \<Rightarrow> ReasoningContext \<Rightarrow> ReasoningContext" where
  "with_artifacts f c = c\<lparr>rc_artifacts := f (rc_artifacts c)\<rparr>"

definition with_metadata :: "string option \<Rightarrow> ReasoningContext \<Rightarrow> ReasoningContext" where
  "with_metadata run_id c = c\<lparr>rc_run_id := run_id\<rparr>"

fun primary_measurement_observations :: "Observation list \<Rightarrow> Observation list" where
  "primary_measurement_observations [] = []"
| "primary_measurement_observations (ob # obs) =
     filter (\<lambda>x. obs_measurement_type x = obs_measurement_type ob) (ob # obs)"

section \<open>Observation window\<close>

definition time_id_key :: "Observation \<Rightarrow> int \<times> string" where
  "time_id_key ob = (obs_timestamp ob, obs_id ob)"

definition kept_ids :: "nat \<Rightarrow> Observation list \<Rightarrow> string list" where
  "kept_ids window observations =
     concat (map (\<lambda>type_observations.
                    map obs_id (take_last window (sorted_by time_id_key type_observations)))
               (dict_values (group_by obs_measurement_type observations)))"

definition bound_recent_observations :: "Observation list \<Rightarrow> int \<Rightarrow> Observation list result" where
  "bound_recent_observations observations window =
     (if window \<le> 0 then Err (ValueError ''window must be > 0'')
      else Ok (filter (\<lambda>ob. obs_id ob \<in> set (kept_ids (nat window) observations))
                 (sorted_by time_id_key observations)))"

section \<open>Signal extraction\<close>

definition signal_extraction_stage ::
    "ReasoningContext \<Rightarrow> runtime \<Rightarrow> (ReasoningContext \<times> runtime) result" where
  "signal_extraction_stage context rt =
     (let observations = rc_observations context
      in res_bind (if length observations < 2
                   then res_bind (trend_detect observations) (\<lambda>_. Ok ()) else Ok ()) (\<lambda>_.
         let primary_observations = primary_measurement_observations observations
         in res_bind (trend_detect primary_observations) (\<lambda>trend.
            res_bind (variation_detect primary_observations) (\<lambda>variation.
            res_bind (mk_observation_group (obs_asset_id (hd observations)) observations)
              (\<lambda>observation_group.
            res_bind (relationship_analyze trend_detect (rc_profile context) observation_group)
              (\<lambda>relationship_analysis.
            let operational_context =
                  operational_context_build ''Operational reasoning context'' None None;
                expectation_analysis =
                  evaluate_expectations (rc_profile context) operational_context
                    relationship_analysis;
                signals =
                  \<lparr>rs_trend = trend, rs_variation = variation,
                   rs_relationship_analysis = relationship_analysis,
                   rs_operational_context = operational_context,
                   rs_expectation_analysis = expectation_analysis,
                   rs_primary_observations = primary_observations\<rparr>
            in Ok (with_artifacts (\<lambda>a. a\<lparr>ra_signals := Some signals\<rparr>) context, rt)))))))"

section \<open>Evidence generation\<close>

fun evidence_source_value :: "EvidenceSourceSignal \<Rightarrow> string" where
  "evidence_source_value LATEST_READING = ''latest_reading''"
| "evidence_source_value DETECTED_TREND = ''detected_trend''"
| "evidence_source_value DETECTED_VARIATION = ''detected_variation''"
| "evidence_source_value RECENT_DELTA = ''recent_delta''"
| "evidence_source_value SAMPLE_SUPPORT = ''sample_support''"
| "evidence_source_value RELATIONSHIP_CORRELATION = ''relationship_correlation''"
| "evidence_source_value RELATIONSHIP_CONTRADICTION = ''relationship_contradiction''"

definition measurement_type_label :: "MeasurementType option \<Rightarrow> string" where
  "measurement_type_label mt = (case mt of None \<Rightarrow> ''unknown'' | Some m \<Rightarrow> mt_name m)"

definition format_observed_value :: "Observation \<Rightarrow> string" where
  "format_observed_value ob = py_strip (float_repr (obs_value ob) @ '' '' @ obs_unit ob)"

text \<open>The text of the delta evidence opens with the two UTF-8 bytes of a capital delta.\<close>

definition delta_text :: "Observation \<Rightarrow> Observation \<Rightarrow> string" where
  "delta_text previous latest =
     [CHR 0xCE, CHR 0x94] @ '' '' @ fmt_fixed 2 (fsub (obs_value latest) (obs_value previous)) @
     '' '' @ obs_unit latest @ '' (latest - previous)''"

definition correlation_evidence :: "string \<Rightarrow> MeasurementCorrelation \<Rightarrow> Evidence result" where
  "correlation_evidence mt c =
     mk_evidence
       (evidence_source_value RELATIONSHIP_CORRELATION @ '':'' @ mt_name (mc_measurement_a c) @
        '':'' @ mt_name (mc_measurement_b c))
       ''Cross-measurement correlation supports interpretation.''
       RELATIONSHIP_CORRELATION mt (mc_relationship c) CORROBORATING (flit 2 10)"

definition contradiction_evidence ::
    "string \<Rightarrow> nat \<times> OperationalContradiction \<Rightarrow> Evidence result" where
  "contradiction_evidence mt ic =
     mk_evidence
       (evidence_source_value RELATIONSHIP_CONTRADICTION @ '':'' @ nat_str (fst ic))
       ''Cross-measurement contradiction weakens certainty.''
       RELATIONSHIP_CONTRADICTION mt (oc_description (snd ic)) CONTRADICTING (flit 2 10)"

definition evidence_constructions :: "ReasoningSignals \<Rightarrow> Evidence result list" where
  "evidence_constructions signals =
     (let primary = rs_primary_observations signals;
          mt = measurement_type_label
                 (if primary = [] then None else Some (obs_measurement_type (hd primary)));
          count = length primary;
          rel = rs_relationship_analysis signals
      in (if primary = [] then []
          else [mk_evidence (evidence_source_value LATEST_READING)
                  ''Latest recorded reading is considered in the decision.''
                  LATEST_READING mt (format_observed_value (last primary)) PRIMARY_SUPPORT
                  (flit 35 100)]) @
         [mk_evidence (evidence_source_value DETECTED_TREND)
            ''Directional trend derived from the primary measurement sequence.''
            DETECTED_TREND mt (''Direction: '' @ trend_value (dt_direction (rs_trend signals)))
            PRIMARY_SUPPORT (flit 25 100),
          mk_evidence (evidence_source_value DETECTED_VARIATION)
            ''Variability of the primary measurement sequence.''
            DETECTED_VARIATION mt (''Variation: '' @ variation_value (dv_level (rs_variation signals)))
            CONTEXT (flit 15 100)] @
         (if count \<ge> 2
          then [mk_evidence (evidence_source_value RECENT_DELTA)
                  ''Change between the two most recent readings supports the assessment.''
                  RECENT_DELTA mt (delta_text (primary ! (count - 2)) (primary ! (count - 1)))
                  PRIMARY_SUPPORT (flit 3 10)]
          else []) @
         (if primary = [] then []
          else [mk_evidence (evidence_source_value SAMPLE_SUPPORT)
                  ''Multiple observations reduce the chance of a one-off anomaly.''
                  SAMPLE_SUPPORT mt (nat_str count @ '' supporting observations'') CORROBORATING
                  (if count \<ge> 3 then flit 2 10 else flit 15 100)]) @
         map (correlation_evidence mt) (ra_correlations rel) @
         map (contradiction_evidence mt)
           (zip [0..<length (ra_contradictions rel)] (ra_contradictions rel)))"

definition generate_evidence_from_signals :: "ReasoningSignals \<Rightarrow> Evidence list result" where
  "generate_evidence_from_signals signals = res_map (\<lambda>r. r) (evidence_constructions signals)"

definition evidence_generation_stage ::
    "ReasoningContext \<Rightarrow> runtime \<Rightarrow> (ReasoningContext \<times> runtime) result" where
  "evidence_generation_stage context rt =
     (case ra_signals (rc_artifacts context) of
        None \<Rightarrow> Err (ValueError ''signals must be extracted before evidence generation'')
      | Some signals \<Rightarrow>
          res_bind (generate_evidence_from_signals signals) (\<lambda>evidence.
          Ok (with_artifacts (\<lambda>a. a\<lparr>ra_evidence := evidence\<rparr>) context, rt)))"

section \<open>Hypotheses\<close>

definition supports_cooling_degradation :: "ReasoningSignals \<Rightarrow> bool" where
  "supports_cooling_degradation signals =
     (let primary = rs_primary_observations signals
      in if primary = [] then False
         else if mt_name (obs_measurement_type (hd primary)) \<noteq> ''stack_temperature'' then False
         else if dt_direction (rs_trend signals) \<noteq> INCREASING then False
         else if dv_level (rs_variation signals) \<noteq> VAR_LOW then False
         else list_ex (\<lambda>c. {mc_measurement_a c, mc_measurement_b c} =
                           {MeasurementType ''stack_temperature'', MeasurementType ''fuel_flow''})
                (ra_correlations (rs_relationship_analysis signals)))"

definition fuel_flow_decreasing :: "Observation list \<Rightarrow> bool result" where
  "fuel_flow_decreasing observations =
     (let fuel_observations =
            filter (\<lambda>ob. obs_measurement_type ob = MeasurementType ''fuel_flow'') observations
      in if length fuel_observations < 2 then Ok False
         else res_bind (trend_detect fuel_observations) (\<lambda>t. Ok (dt_direction t = DECREASING)))"

definition supports_hydrogen_supply :: "ReasoningSignals \<Rightarrow> Observation list \<Rightarrow> bool result" where
  "supports_hydrogen_supply signals observations =
     res_bind (fuel_flow_decreasing observations) (\<lambda>decreasing.
     Ok (decreasing \<or> has_unexpected (rs_expectation_analysis signals)))"

definition supporting_ids_for_kind :: "HypothesisKind \<Rightarrow> Evidence list \<Rightarrow> string list" where
  "supporting_ids_for_kind kind evidence =
     (if kind = HK_SENSOR_DRIFT
      then map ev_id (filter (\<lambda>e. ev_source_signal e \<in>
                                {RELATIONSHIP_CONTRADICTION, DETECTED_VARIATION}) evidence)
      else if kind \<in> {HK_COOLING_DEGRADATION, HK_HYDROGEN_SUPPLY}
      then map ev_id (filter (\<lambda>e. ev_source_signal e = RELATIONSHIP_CORRELATION) evidence)
      else map ev_id (take 2 evidence))"

definition leading_hypothesis ::
    "ReasoningSignals \<Rightarrow> Evidence list \<Rightarrow> Observation list \<Rightarrow> Hypothesis result" where
  "leading_hypothesis signals evidence observations =
     (let primary = rs_primary_observations signals;
          measurement_label =
            (if primary = [] then ''signal'' else mt_name (obs_measurement_type (hd primary)));
          variation_high = (dv_level (rs_variation signals) = VAR_HIGH);
          contradictions = (ra_contradictions (rs_relationship_analysis signals) \<noteq> [])
      in if supports_cooling_degradation signals
         then mk_hypothesis ''hypothesis-cooling-degradation'' HK_COOLING_DEGRADATION
                (''Stack temperature is rising steadily with coupled fuel-flow '' @
                 ''behavior, consistent with cooling degradation.'')
                (supporting_ids_for_kind HK_COOLING_DEGRADATION evidence) []
         else res_bind (supports_hydrogen_supply signals observations) (\<lambda>hydrogen.
           if hydrogen
           then mk_hypothesis ''hypothesis-hydrogen-supply'' HK_HYDROGEN_SUPPLY
                  (''Fuel delivery or coupled subsystem signals suggest a hydrogen '' @
                   ''supply issue rather than isolated sensor noise.'')
                  (supporting_ids_for_kind HK_HYDROGEN_SUPPLY evidence) []
           else if variation_high \<or> contradictions
           then mk_hypothesis ''hypothesis-sensor-drift'' HK_SENSOR_DRIFT
                  (''High variability or contradictory signals can indicate '' @
                   ''measurement drift rather than a true change in '' @ measurement_label @ ''.'')
                  (supporting_ids_for_kind HK_SENSOR_DRIFT evidence) []
           else mk_hypothesis ''hypothesis-load-change'' HK_LOAD_CHANGE
                  (''A short-lived load change can create transient shifts without a '' @
                   ''persistent fault.'')
                  (supporting_ids_for_kind HK_LOAD_CHANGE evidence) []))"

definition generate_hypotheses_from_signals ::
    "ReasoningSignals \<Rightarrow> Evidence list \<Rightarrow> Observation list \<Rightarrow> Hypothesis list result" where
  "generate_hypotheses_from_signals signals evidence observations =
     res_bind (leading_hypothesis signals evidence observations) (\<lambda>h.
       let hypotheses = [h]
       in if dt_direction (rs_trend signals) = INCREASING \<and>
             length (rs_primary_observations signals) < 4 \<and> length hypotheses < 2
          then res_bind (mk_hypothesis ''hypothesis-unknown'' HK_UNKNOWN
                 (''Limited observation history can reflect an unresolved operating '' @
                  ''mode transition rather than a confirmed degradation pattern.'')
                 (supporting_ids_for_kind HK_UNKNOWN evidence) [])
                 (\<lambda>u. Ok (take 2 (hypotheses @ [u])))
          else Ok (take 2 hypotheses))"

definition hypothesis_stage ::
    "ReasoningContext \<Rightarrow> runtime \<Rightarrow> (ReasoningContext \<times> runtime) result" where
  "hypothesis_stage context rt =
     (case ra_signals (rc_artifacts context) of
        None \<Rightarrow> Err (ValueError ''signals must be extracted before hypothesis generation'')
      | Some signals \<Rightarrow>
          if ra_evidence (rc_artifacts context) = []
          then Err (ValueError ''evidence must be generated before hypothesis generation'')
          else res_bind (generate_hypotheses_from_signals signals
                           (ra_evidence (rc_artifacts context)) (rc_observations context))
                 (\<lambda>hypotheses.
               Ok (with_artifacts (\<lambda>a. a\<lparr>ra_hypotheses := hypotheses\<rparr>) context, rt)))"

section \<open>Assessment\<close>

definition assessment_stage ::
    "ReasoningContext \<Rightarrow> runtime \<Rightarrow> (ReasoningContext \<times> runtime) result" where
  "assessment_stage context rt =
     (case ra_signals (rc_artifacts context) of
        None \<Rightarrow> Err (ValueError ''signals must be extracted before assessment'')
      | Some signals \<Rightarrow>
          res_bind (assess (rc_goal context) (rs_primary_observations signals) (rs_trend signals)
                      (rs_variation signals) (Some (rs_relationship_analysis signals))
                      (Some (rs_expectation_analysis signals)) rt) (\<lambda>(result, rt).
          let structured = ar_structured result;
              summary = empty_assessment_summary\<lparr>
                as_situation := Some (ar_situation result),
                as_trend_direction := Some (sa_trend_direction structured),
                as_variation_level := Some (sa_variation_level structured),
                as_has_correlations := sa_has_correlations structured,
                as_has_contradictions := sa_has_contradictions structured,
                as_has_unexpected_expectations := sa_has_unexpected_expectations structured,
                as_has_indeterminate_expectations := sa_has_indeterminate_expectations structured,
                as_primary_hypothesis :=
                  (case ra_hypotheses (rc_artifacts context) of [] \<Rightarrow> None | h # _ \<Rightarrow> Some h),
                as_supporting_evidence := ra_evidence (rc_artifacts context)\<rparr>
          in Ok (with_artifacts (\<lambda>a. a\<lparr>ra_structured_assessment := Some structured,
                                   ra_assessment_summary := Some summary\<rparr>) context, rt)))"

section \<open>Confidence\<close>

definition is_monotonic_recent :: "Observation list \<Rightarrow> bool" where
  "is_monotonic_recent primary =
     (if length primary < 3 then False
      else case map obs_value (take_last 3 primary) of
             [first, second, third] \<Rightarrow>
               first \<le> second \<and> second \<le> third \<or> first \<ge> second \<and> second \<ge> third
           | _ \<Rightarrow> False)"

definition confidence_rationale ::
    "AssessmentSummary \<Rightarrow> StructuredAssessment \<Rightarrow> nat \<Rightarrow> bool \<Rightarrow> bool \<Rightarrow> int \<Rightarrow> int \<Rightarrow> int \<Rightarrow> int \<Rightarrow>
     string" where
  "confidence_rationale summary structured n_supporting is_stable sustained base support consistency
       trend_consistency =
     (let penalty_clause =
            (if sa_has_contradictions structured then ''Penalty -12 for contradictions.''
             else ''No contradiction penalty.'');
          unexpected_clause =
            (if sa_has_unexpected_expectations structured
             then ''Penalty -6 for unexpected expectations.''
             else ''No unexpected-expectation penalty.'');
          sustained_clause = (if sustained then ''Sustained directional change observed.''
                              else ''No sustained directional change.'');
          assessment_text = (case as_situation summary of
                               Some s \<Rightarrow> sit_assessment s | None \<Rightarrow> ''unknown assessment'')
      in ''Base '' @ int_str base @ ''. Support '' @ int_str support @ '' from '' @
         nat_str n_supporting @ '' observations. Consistency '' @ int_str consistency @ '' ('' @
         (if is_stable then ''stable'' else ''mixed'') @ ''). Trend '' @
         int_str trend_consistency @ '' (direction '' @
         trend_value (sa_trend_direction structured) @ ''). '' @
         sustained_clause @ '' '' @ penalty_clause @ '' '' @ unexpected_clause @
         '' Assessment: '' @ assessment_text)"

definition score_assessment_confidence ::
    "AssessmentSummary \<Rightarrow> StructuredAssessment \<Rightarrow> Observation list \<Rightarrow> ConfidenceBreakdown result" where
  "score_assessment_confidence summary structured primary =
     (let contradictions = sa_has_contradictions structured;
          variation_high = (sa_variation_level structured = VAR_HIGH);
          trend_direction = sa_trend_direction structured;
          base = 35;
          n_supporting = length primary;
          support = min 25 (8 * min (int n_supporting) 3);
          stable = (\<not> variation_high \<and> \<not> contradictions);
          consistency = (if stable then 15 else 5);
          trend_consistency =
            (if trend_direction \<in> {INCREASING, DECREASING}
             then (if \<not> variation_high then 12 else 4)
             else if trend_direction = STABLE then 8 else 0);
          sustained = (is_monotonic_recent primary \<and> trend_direction \<noteq> STABLE);
          sustained_bonus = (if sustained then 6 else 0);
          penalties = (if contradictions then - 12 else 0) +
                      (if sa_has_unexpected_expectations structured then - 6 else 0);
          raw = base + support + consistency + trend_consistency + sustained_bonus + penalties;
          tot = max 0 (min 100 raw)
      in mk_confidence_breakdown base support consistency trend_consistency sustained_bonus
           penalties tot
           (confidence_rationale summary structured n_supporting stable sustained base support
              consistency trend_consistency))"

definition apply_confidence_to_summary ::
    "AssessmentSummary \<Rightarrow> ConfidenceBreakdown \<Rightarrow> AssessmentSummary" where
  "apply_confidence_to_summary summary confidence = summary\<lparr>as_confidence := Some confidence\<rparr>"

definition confidence_stage ::
    "ReasoningContext \<Rightarrow> runtime \<Rightarrow> (ReasoningContext \<times> runtime) result" where
  "confidence_stage context rt =
     (case (ra_assessment_summary (rc_artifacts context),
            ra_structured_assessment (rc_artifacts context), ra_signals (rc_artifacts context)) of
        (Some summary, Some structured, Some signals) \<Rightarrow>
          res_bind (score_assessment_confidence summary structured (rs_primary_observations signals))
            (\<lambda>confidence.
          Ok (with_artifacts (\<lambda>a. a\<lparr>ra_confidence := Some confidence,
                ra_assessment_summary := Some (apply_confidence_to_summary summary confidence)\<rparr>)
                context, rt))
      | _ \<Rightarrow> Err (ValueError ''assessment must be completed before confidence scoring''))"

section \<open>Explanation\<close>

definition build_explanation ::
    "AssessmentSummary \<Rightarrow> Evidence list \<Rightarrow> Hypothesis list \<Rightarrow> ConfidenceBreakdown \<Rightarrow>
     Explanation result" where
  "build_explanation summary evidence hypotheses confidence =
     (case as_situation summary of
        None \<Rightarrow> Err (ValueError ''assessment summary must include a situation'')
      | Some situation \<Rightarrow>
          let txt = ''Assessment: '' @ sit_assessment situation @ '' Confidence in assessment: '' @
                    int_str (cb_total confidence) @ ''/100.'';
              caveats =
                (if as_has_contradictions summary
                 then [''Cross-measurement contradictions weaken certainty.''] else []) @
                (if as_has_unexpected_expectations summary
                 then [''Unexpected expectation signals were detected.''] else []) @
                (if as_has_indeterminate_expectations summary
                 then [''Some expectations remain indeterminate.''] else []) @
                (if evidence = [] then [''Limited supporting evidence is available.''] else []) @
                (if hypotheses = [] then [''No alternative hypotheses were generated.''] else [])
          in mk_explanation txt evidence hypotheses caveats)"

definition explanation_stage ::
    "ReasoningContext \<Rightarrow> runtime \<Rightarrow> (ReasoningContext \<times> runtime) result" where
  "explanation_stage context rt =
     (case (ra_assessment_summary (rc_artifacts context), ra_confidence (rc_artifacts context)) of
        (Some summary, Some confidence) \<Rightarrow>
          res_bind (build_explanation summary (ra_evidence (rc_artifacts context))
                      (ra_hypotheses (rc_artifacts context)) confidence) (\<lambda>explanation.
          Ok (with_artifacts (\<lambda>a. a\<lparr>ra_explanation := Some explanation\<rparr>) context, rt))
      | _ \<Rightarrow> Err (ValueError ''assessment and confidence must exist before explanation generation''))"

section \<open>Planning\<close>

definition planning_stage ::
    "ReasoningContext \<Rightarrow> runtime \<Rightarrow> (ReasoningContext \<times> runtime) result" where
  "planning_stage context rt =
     (case (ra_assessment_summary (rc_artifacts context),
            ra_structured_assessment (rc_artifacts context)) of
        (Some summary, Some structured) \<Rightarrow>
          (case as_situation summary of
             None \<Rightarrow> Err (ValueError ''assessment must be completed before planning'')
           | Some situation \<Rightarrow>
               res_bind (create_decision_context (rc_goal context) situation rt)
                 (\<lambda>(decision_context, rt).
               let planning_context = planning_context_from_assessment structured
               in res_bind (decision_plan decision_context (Some planning_context) rt)
                    (\<lambda>(plan, rt).
                  Ok (with_artifacts (\<lambda>a. a\<lparr>ra_planning_context := Some planning_context,
                         ra_decision_context := Some decision_context,
                         ra_decision_plan := Some plan\<rparr>) context, rt))))
      | _ \<Rightarrow> Err (ValueError ''assessment must be completed before planning''))"

section \<open>The pipeline\<close>

type_synonym stage = "ReasoningContext \<Rightarrow> runtime \<Rightarrow> (ReasoningContext \<times> runtime) result"

definition reasoning_stages :: "stage list" where
  "reasoning_stages =
     [signal_extraction_stage, evidence_generation_stage, hypothesis_stage, assessment_stage,
      confidence_stage, explanation_stage, planning_stage]"

definition run_stages ::
    "stage list \<Rightarrow> ReasoningContext \<Rightarrow> runtime \<Rightarrow> (ReasoningContext \<times> runtime) result" where
  "run_stages stages context rt =
     res_fold (\<lambda>stage (context, rt). stage context rt) stages (context, rt)"

section \<open>The stage protocol\<close>

definition same_inputs :: "ReasoningContext \<Rightarrow> ReasoningContext \<Rightarrow> bool" where
  "same_inputs c c' \<longleftrightarrow> rc_goal c' = rc_goal c \<and> rc_observations c' = rc_observations c \<and>
     rc_profile c' = rc_profile c \<and> rc_run_id c' = rc_run_id c"

definition env_advances :: "runtime \<Rightarrow> runtime \<Rightarrow> bool" where
  "env_advances rt rt' \<longleftrightarrow> rt_uuids rt' = rt_uuids rt \<and> rt_clock rt' = rt_clock rt \<and>
     rt_uuid_count rt \<le> rt_uuid_count rt' \<and> rt_clock_count rt \<le> rt_clock_count rt'"

lemma same_inputs_refl [simp]: "same_inputs c c"
  by (simp add: same_inputs_def)

lemma same_inputs_with_artifacts [simp]: "same_inputs c (with_artifacts f c)"
  by (simp add: same_inputs_def with_artifacts_def)

lemma same_inputs_trans: "same_inputs a b \<Longrightarrow> same_inputs b c \<Longrightarrow> same_inputs a c"
  by (simp add: same_inputs_def)

lemma env_advances_refl [simp]: "env_advances rt rt"
  by (simp add: env_advances_def)

lemma env_advances_trans: "env_advances a b \<Longrightarrow> env_advances b c \<Longrightarrow> env_advances a c"
  by (auto simp: env_advances_def)

lemma env_advances_fresh: "env_advances rt rt' \<Longrightarrow> uuids_fresh rt \<Longrightarrow> uuids_fresh rt'"
  by (simp add: env_advances_def uuids_fresh_def)

lemma env_advances_uuid4: "uuid4 rt = (i, rt') \<Longrightarrow> env_advances rt rt'"
  by (auto simp: uuid4_def env_advances_def)

lemma env_advances_utc_now: "utc_now rt = (t, rt') \<Longrightarrow> env_advances rt rt'"
  by (auto simp: utc_now_def env_advances_def)

locale reasoning_stage =
  fixes run :: stage
  assumes frame: "run c rt = Ok (c', rt') \<Longrightarrow> same_inputs c c' \<and> env_advances rt rt'"

locale reasoning_pipeline =
  fixes stages :: "stage list"
  assumes all_stages: "st \<in> set stages \<Longrightarrow> reasoning_stage st"
begin

lemma pipeline_frame:
  "run_stages stages c rt = Ok (c', rt') \<Longrightarrow> same_inputs c c' \<and> env_advances rt rt'"
proof -
  assume run: "run_stages stages c rt = Ok (c', rt')"
  have "case (c', rt') of (d, rt'') \<Rightarrow> same_inputs c d \<and> env_advances rt rt''"
  proof (rule res_fold_invariant [OF run [unfolded run_stages_def]])
    fix st u v
    assume "st \<in> set stages" and inv: "case u of (d, rt'') \<Rightarrow> same_inputs c d \<and> env_advances rt rt''"
      and step: "(case u of (context, rt) \<Rightarrow> st context rt) = Ok v"
    then show "case v of (d, rt'') \<Rightarrow> same_inputs c d \<and> env_advances rt rt''"
      using reasoning_stage.frame [OF all_stages, of st "fst u" "snd u" "fst v" "snd v"]
        same_inputs_trans [of c "fst u" "fst v"] env_advances_trans [of rt "snd u" "snd v"]
      by (simp add: case_prod_beta)
  qed simp
  then show ?thesis by simp
qed

end

lemma assess_env: "assess g obs t v ra ea rt = Ok (res, rt') \<Longrightarrow> env_advances rt rt'"
  by (drule assess_Ok(7)) (simp add: env_advances_def)

lemma create_decision_context_env:
  "create_decision_context g s rt = Ok (c, rt') \<Longrightarrow> env_advances rt rt'"
  by (auto simp: create_decision_context_def uuid4_def utc_now_def env_advances_def res_bind_Ok_iff
      split: if_splits)

lemma decision_plan_env: "decision_plan c pc rt = Ok (p, rt') \<Longrightarrow> env_advances rt rt'"
  by (auto simp: decision_plan_def uuid4_def utc_now_def env_advances_def res_bind_Ok_iff Let_def)

interpretation signal_stage: reasoning_stage signal_extraction_stage
  by unfold_locales (auto simp: signal_extraction_stage_def res_bind_Ok_iff Let_def)

interpretation evidence_stage: reasoning_stage evidence_generation_stage
  by unfold_locales (auto simp: evidence_generation_stage_def res_bind_Ok_iff split: option.splits)

interpretation hyp_stage: reasoning_stage hypothesis_stage
  by unfold_locales
    (auto simp: hypothesis_stage_def res_bind_Ok_iff split: option.splits if_splits)

interpretation assess_stage: reasoning_stage assessment_stage
  by unfold_locales
    (auto simp: assessment_stage_def res_bind_Ok_iff Let_def split: option.splits
      dest: assess_env)

interpretation conf_stage: reasoning_stage confidence_stage
  by unfold_locales (auto simp: confidence_stage_def res_bind_Ok_iff split: option.splits)

interpretation expl_stage: reasoning_stage explanation_stage
  by unfold_locales (auto simp: explanation_stage_def res_bind_Ok_iff split: option.splits)

interpretation plan_stage: reasoning_stage planning_stage
  by unfold_locales
    (auto simp: planning_stage_def res_bind_Ok_iff Let_def split: option.splits
      dest!: create_decision_context_env decision_plan_env intro: env_advances_trans)

interpretation pipeline: reasoning_pipeline reasoning_stages
  by (rule reasoning_pipeline.intro)
    (auto simp: reasoning_stages_def signal_stage.reasoning_stage_axioms
      evidence_stage.reasoning_stage_axioms hyp_stage.reasoning_stage_axioms
      assess_stage.reasoning_stage_axioms conf_stage.reasoning_stage_axioms
      expl_stage.reasoning_stage_axioms plan_stage.reasoning_stage_axioms)

section \<open>Lemmas on the window\<close>

lemma filter_set_take_last:
  assumes "distinct xs"
  shows "filter (\<lambda>x. x \<in> set (take_last n xs)) xs = take_last n xs"
proof -
  define ys where "ys = take (length xs - n) xs"
  have xs: "xs = ys @ take_last n xs" by (simp add: ys_def take_last_def)
  with assms have "set ys \<inter> set (take_last n xs) = {}" by (metis distinct_append)
  then have "filter (\<lambda>x. x \<in> set (take_last n xs)) ys = []" by (auto simp: filter_empty_conv)
  moreover have "filter (\<lambda>x. x \<in> set (take_last n xs)) (ys @ take_last n xs) =
      filter (\<lambda>x. x \<in> set (take_last n xs)) ys @ take_last n xs"
    by simp
  ultimately show ?thesis using xs by simp
qed

lemma filter_sorted_by: "filter P (sorted_by k xs) = sorted_by k (filter P xs)"
  by (simp add: sorted_by_def filter_sort)

lemma kept_ids_mem:
  assumes "distinct (map obs_id obs)" and "x \<in> set obs" and "obs_measurement_type x = mt"
  shows "obs_id x \<in> set (kept_ids w obs) \<longleftrightarrow>
    x \<in> set (take_last w (sorted_by time_id_key (filter (\<lambda>o'. obs_measurement_type o' = mt) obs)))"
    (is "_ \<longleftrightarrow> x \<in> set (?keep mt)")
proof
  assume "x \<in> set (?keep mt)"
  then show "obs_id x \<in> set (kept_ids w obs)"
    using assms(2,3) by (force simp: kept_ids_def dict_values_group_by)
next
  assume "obs_id x \<in> set (kept_ids w obs)"
  then obtain mt' y where y: "y \<in> set (?keep mt')" "obs_id y = obs_id x"
    by (force simp: kept_ids_def dict_values_group_by)
  then have mem: "y \<in> set obs" "obs_measurement_type y = mt'"
    using set_take_last [of w] by fastforce+
  with assms(1,2) y(2) have "y = x" by (metis distinct_map inj_onD)
  with y(1) mem(2) assms(3) show "x \<in> set (?keep mt)" by simp
qed

lemma window_per_type:
  assumes "distinct (map obs_id obs)"
  shows "filter (\<lambda>ob. obs_measurement_type ob = mt)
           (filter (\<lambda>ob. obs_id ob \<in> set (kept_ids w obs)) (sorted_by time_id_key obs)) =
         take_last w (sorted_by time_id_key (filter (\<lambda>ob. obs_measurement_type ob = mt) obs))"
proof -
  let ?L = "sorted_by time_id_key (filter (\<lambda>ob. obs_measurement_type ob = mt) obs)"
  have dist: "distinct ?L"
    using assms distinct_map_sorted_by [of "\<lambda>x. x" time_id_key "filter (\<lambda>ob. obs_measurement_type ob = mt) obs"]
    by (simp add: distinct_map)
  have "filter (\<lambda>ob. obs_measurement_type ob = mt)
      (filter (\<lambda>ob. obs_id ob \<in> set (kept_ids w obs)) (sorted_by time_id_key obs)) =
      filter (\<lambda>ob. obs_id ob \<in> set (kept_ids w obs)) ?L"
    by (simp add: filter_sorted_by [symmetric] conj_commute)
  also have "\<dots> = filter (\<lambda>ob. ob \<in> set (take_last w ?L)) ?L"
    by (rule filter_cong) (auto simp: kept_ids_mem [OF assms])
  also have "\<dots> = take_last w ?L" by (rule filter_set_take_last [OF dist])
  finally show ?thesis .
qed

section \<open>Lemmas on the stages\<close>

lemma py_strip_nonempty: "c \<in> set s \<Longrightarrow> \<not> is_space c \<Longrightarrow> py_strip s \<noteq> []"
  unfolding py_strip_def rev_is_Nil_conv dropWhile_eq_Nil_conv set_rev
  by (metis dropWhile_eq_Nil_conv hd_dropWhile list.set_sel(1))

lemma float_repr_visible: "\<exists>c\<in>set (float_repr x). \<not> is_space c"
proof -
  have "CHR ''.'' \<in> set (float_repr x) \<or> CHR ''e'' \<in> set (float_repr x)"
    by (cases "repr_search \<bar>x\<bar> (dec_point \<bar>x\<bar>) [1..<18]") (simp add: float_repr_def Let_def)
  moreover have "\<not> is_space (CHR ''.'')" "\<not> is_space (CHR ''e'')"
    by (simp_all add: is_space_def)
  ultimately show ?thesis by blast
qed

lemma format_observed_value_nonempty [simp]: "format_observed_value ob \<noteq> []"
proof -
  obtain c where "c \<in> set (float_repr (obs_value ob))" "\<not> is_space c"
    using float_repr_visible by blast
  then show ?thesis unfolding format_observed_value_def by (intro py_strip_nonempty [of c]) auto
qed

lemma flit_unit_interval:
  assumes "0 \<le> p" and "p \<le> q" and "0 < q"
  shows "0 \<le> flit p q" and "flit p q \<le> 1"
proof -
  have "0 \<le> (of_int p / of_int q :: rat)" "(of_int p / of_int q :: rat) \<le> 1"
    using assms by simp_all
  then show "0 \<le> flit p q" "flit p q \<le> 1"
    unfolding flit_def using fl_mono [of _ 1] by (auto intro: fl.rnd_nonneg)
qed

lemma evidence_source_value_nonempty [simp]: "evidence_source_value s \<noteq> []"
  by (cases s) simp_all

declare evidence_source_value.simps [simp del]

lemma trend_value_nonempty [simp]: "trend_value d \<noteq> []"
  by (cases d) simp_all

text \<open>The relationship sentence of a correlation and of a contradiction is never empty.\<close>

lemma correlation_loop_nonempty:
  "correlation_loop det g rs = Ok cs \<Longrightarrow> c \<in> set cs \<Longrightarrow> mc_relationship c \<noteq> []"
  by (induction rs arbitrary: cs) (auto simp: res_bind_Ok_iff split: if_splits)

lemma contradiction_loop_nonempty:
  "contradiction_loop det g rs = Ok cs \<Longrightarrow> c \<in> set cs \<Longrightarrow> oc_description c \<noteq> []"
  by (induction rs arbitrary: cs) (auto simp: res_bind_Ok_iff split: if_splits)

definition relationships_described :: "RelationshipAnalysis \<Rightarrow> bool" where
  "relationships_described ra \<longleftrightarrow>
     (\<forall>c\<in>set (ra_correlations ra). mc_relationship c \<noteq> []) \<and>
     (\<forall>c\<in>set (ra_contradictions ra). oc_description c \<noteq> [])"

lemma relationship_analyze_described:
  "relationship_analyze det prof g = Ok ra \<Longrightarrow> relationships_described ra"
  by (auto simp: relationship_analyze_def correlation_detect_def contradiction_detect_def
      res_bind_Ok_iff relationships_described_def
      dest: correlation_loop_nonempty contradiction_loop_nonempty)

definition evidence_checked :: "Evidence result \<Rightarrow> bool" where
  "evidence_checked r \<longleftrightarrow> (\<forall>e. r = Ok e \<longrightarrow> evidence_wf e)"

lemma evidence_checked_mk [simp]: "evidence_checked (mk_evidence i d src m ob role w)"
  by (auto simp: evidence_checked_def intro: mk_evidence_wf)

lemma evidence_constructions_checked: "list_all evidence_checked (evidence_constructions sg)"
  by (simp add: evidence_constructions_def Let_def correlation_evidence_def
      contradiction_evidence_def list.pred_map comp_def list.pred_True)

lemma res_map_id_Ok_iff: "res_map (\<lambda>r. r) rs = Ok es \<longleftrightarrow> rs = map Inr es"
proof (induction rs arbitrary: es)
  case (Cons r rs)
  then show ?case by (cases es) (auto simp: res_bind_Ok_iff)
qed auto

lemma evidence_total:
  assumes "rs_primary_observations sg \<noteq> []"
    and "\<forall>ob\<in>set (rs_primary_observations sg). observation_wf ob"
    and "relationships_described (rs_relationship_analysis sg)"
  shows "\<exists>evs. generate_evidence_from_signals sg = Ok evs \<and> evs \<noteq> [] \<and> list_all evidence_wf evs"
proof -
  let ?p = "rs_primary_observations sg"
  have mt: "mt_name (obs_measurement_type (hd ?p)) \<noteq> []"
    using assms(1,2) hd_in_set [of ?p] by (auto simp: observation_wf_def)
  have each: "\<exists>e. r = Ok e" if "r \<in> set (evidence_constructions sg)" for r
    using that assms(1,3) mt flit_unit_interval
    by (auto simp: evidence_constructions_def Let_def mk_evidence_Ok_iff measurement_type_label_def
        correlation_evidence_def contradiction_evidence_def delta_text_def
        relationships_described_def dest: set_zip_rightD split: if_splits)
  from res_map_total [of "evidence_constructions sg" "\<lambda>r. r"] each
  obtain evs where evs: "generate_evidence_from_signals sg = Ok evs"
    by (auto simp: generate_evidence_from_signals_def)
  have all2: "evidence_constructions sg = map Inr evs"
    using evs by (simp add: generate_evidence_from_signals_def res_map_id_Ok_iff)
  have "evidence_constructions sg \<noteq> []"
    by (simp add: evidence_constructions_def Let_def)
  with all2 have "evs \<noteq> []" by auto
  moreover have "list_all evidence_wf evs"
    using evidence_constructions_checked [of sg]
    by (simp add: all2 list.pred_map comp_def evidence_checked_def)
  ultimately show ?thesis using evs by blast
qed

text \<open>The inputs on which signal extraction succeeds, and what the signals are then.\<close>

definition one_asset :: "Observation list \<Rightarrow> bool" where
  "one_asset obs \<longleftrightarrow> (\<exists>a. \<forall>ob\<in>set obs. obs_asset_id ob = a)"

lemma one_asset_iff: "one_asset obs \<longleftrightarrow> list_all (\<lambda>ob. obs_asset_id ob = obs_asset_id (hd obs)) obs"
  by (cases obs) (auto simp: one_asset_def list_all_iff)

definition signals_for :: "ReasoningContext \<Rightarrow> ReasoningSignals \<Rightarrow> bool" where
  "signals_for c sg \<longleftrightarrow>
     (let obs = rc_observations c;
          g = \<lparr>og_asset_id = obs_asset_id (hd obs), og_observations = obs,
               og_measurements = index_from_group obs\<rparr>
      in group_wf g \<and>
         rs_primary_observations sg = primary_measurement_observations obs \<and>
         trend_detect (rs_primary_observations sg) = Ok (rs_trend sg) \<and>
         variation_detect (rs_primary_observations sg) = Ok (rs_variation sg) \<and>
         relationship_analyze trend_detect (rc_profile c) g = Ok (rs_relationship_analysis sg) \<and>
         rs_expectation_analysis sg = evaluate_expectations (rc_profile c)
           (operational_context_build ''Operational reasoning context'' None None)
           (rs_relationship_analysis sg))"

lemma primary_nonempty: "obs \<noteq> [] \<Longrightarrow> primary_measurement_observations obs \<noteq> []"
  by (cases obs) auto

lemma primary_subset: "set (primary_measurement_observations obs) \<subseteq> set obs"
  by (cases obs) auto

lemma primary_series:
  "obs \<noteq> [] \<Longrightarrow> primary_measurement_observations obs =
     filter (\<lambda>x. obs_measurement_type x = obs_measurement_type (hd obs)) obs"
  by (cases obs) auto

lemma primary_length: "length (primary_measurement_observations obs) \<le> length obs"
  by (cases obs) (auto simp: le_SucI)

lemma same_series_primary: "one_asset obs \<Longrightarrow> same_series (primary_measurement_observations obs)"
  by (cases obs) (auto simp: one_asset_def same_series_def)

lemma mk_group_Ok_iff:
  "obs \<noteq> [] \<Longrightarrow> mk_observation_group (obs_asset_id (hd obs)) obs = Ok g \<longleftrightarrow>
     one_asset obs \<and> g = \<lparr>og_asset_id = obs_asset_id (hd obs), og_observations = obs,
               og_measurements = index_from_group obs\<rparr>"
  unfolding mk_observation_group_def construct_Ok_iff one_asset_iff
  by (auto simp add: list_ex_iff list_all_iff)

lemma signal_stage_Ok:
  assumes "signal_extraction_stage c rt = Ok (c', rt')"
  shows "\<exists>sg. signals_for c sg \<and> rt' = rt \<and> c' = with_artifacts (\<lambda>a. a\<lparr>ra_signals := Some sg\<rparr>) c"
proof -
  let ?obs = "rc_observations c"
  let ?oc = "operational_context_build ''Operational reasoning context'' None None"
  from assms obtain t v g ra where
    t: "trend_detect (primary_measurement_observations ?obs) = Ok t" and
    v: "variation_detect (primary_measurement_observations ?obs) = Ok v" and
    g: "mk_observation_group (obs_asset_id (hd ?obs)) ?obs = Ok g" and
    ra: "relationship_analyze trend_detect (rc_profile c) g = Ok ra" and
    c': "c' = with_artifacts (\<lambda>a. a\<lparr>ra_signals := Some
           \<lparr>rs_trend = t, rs_variation = v, rs_relationship_analysis = ra,
            rs_operational_context = ?oc,
            rs_expectation_analysis = evaluate_expectations (rc_profile c) ?oc ra,
            rs_primary_observations = primary_measurement_observations ?obs\<rparr>\<rparr>) c" and
    rt: "rt' = rt"
    unfolding signal_extraction_stage_def Let_def res_bind_Ok_iff by blast
  have "2 \<le> length (primary_measurement_observations ?obs)" using t by (simp add: trend_detect_Ok_iff)
  then have "?obs \<noteq> []" using primary_length [of ?obs] by auto
  then have geq: "g = \<lparr>og_asset_id = obs_asset_id (hd ?obs), og_observations = ?obs,
      og_measurements = index_from_group ?obs\<rparr>"
    using g mk_group_Ok_iff by blast
  define sg where "sg = \<lparr>rs_trend = t, rs_variation = v, rs_relationship_analysis = ra,
      rs_operational_context = ?oc,
      rs_expectation_analysis = evaluate_expectations (rc_profile c) ?oc ra,
      rs_primary_observations = primary_measurement_observations ?obs\<rparr>"
  have "signals_for c sg"
    using t v ra mk_observation_group_wf [OF g]
    by (simp add: signals_for_def Let_def geq [symmetric] sg_def)
  then show ?thesis using c' rt unfolding sg_def by blast
qed

lemma signals_for_inputs:
  assumes "signals_for c sg"
  shows "one_asset (rc_observations c)"
    and "2 \<le> length (primary_measurement_observations (rc_observations c))"
proof -
  have "trend_detect (primary_measurement_observations (rc_observations c)) = Ok (rs_trend sg)"
    using assms by (auto simp: signals_for_def Let_def)
  then show "2 \<le> length (primary_measurement_observations (rc_observations c))"
    unfolding trend_detect_Ok_iff by blast
  show "one_asset (rc_observations c)"
    using assms unfolding signals_for_def Let_def group_wf_def one_asset_iff by simp
qed

lemma signal_stage_total:
  assumes "one_asset (rc_observations c)"
    and "2 \<le> length (primary_measurement_observations (rc_observations c))"
  shows "\<exists>sg. signals_for c sg \<and>
    signal_extraction_stage c rt = Ok (with_artifacts (\<lambda>a. a\<lparr>ra_signals := Some sg\<rparr>) c, rt)"
proof -
  let ?obs = "rc_observations c"
  have len: "\<not> length ?obs < 2" and ne: "?obs \<noteq> []"
    using assms(2) primary_length [of ?obs] by (linarith, auto)
  obtain t where t: "trend_detect (primary_measurement_observations ?obs) = Ok t"
    using assms(2) same_series_primary [OF assms(1)] by (simp add: trend_detect_Ok_iff)
  obtain v where v: "variation_detect (primary_measurement_observations ?obs) = Ok v"
    using assms(2) same_series_primary [OF assms(1)] by (simp add: variation_detect_Ok_iff)
  obtain g where g: "mk_observation_group (obs_asset_id (hd ?obs)) ?obs = Ok g"
    using mk_group_Ok_iff [OF ne] assms(1) by blast
  obtain ra where ra: "relationship_analyze trend_detect (rc_profile c) g = Ok ra"
    using td.relationship_analyze_total [OF mk_observation_group_wf [OF g]] by blast
  have "\<exists>c' rt'. signal_extraction_stage c rt = Ok (c', rt')"
    using len t v g ra by (simp add: signal_extraction_stage_def Let_def)
  then show ?thesis using signal_stage_Ok by blast
qed

lemma fuel_flow_total: "one_asset obs \<Longrightarrow> \<exists>b. fuel_flow_decreasing obs = Ok b"
proof -
  assume one: "one_asset obs"
  let ?f = "filter (\<lambda>ob. obs_measurement_type ob = MeasurementType ''fuel_flow'') obs"
  have "same_series ?f" using one by (auto simp: one_asset_def same_series_def)
  then have "\<exists>t. trend_detect ?f = Ok t" if "\<not> length ?f < 2"
    using that by (simp add: trend_detect_Ok_iff)
  then show ?thesis by (auto simp: fuel_flow_decreasing_def Let_def)
qed

lemma hypotheses_total:
  assumes "one_asset obs"
  shows "\<exists>hs. generate_hypotheses_from_signals sg evs obs = Ok hs \<and> hs \<noteq> []"
proof -
  obtain b where b: "fuel_flow_decreasing obs = Ok b" using fuel_flow_total [OF assms] by blast
  have "\<exists>h. leading_hypothesis sg evs obs = Ok h"
    by (simp add: leading_hypothesis_def Let_def mk_hypothesis_Ok_iff supports_hydrogen_supply_def b)
  then show ?thesis
    by (auto simp: generate_hypotheses_from_signals_def Let_def mk_hypothesis_def construct_Cons)
qed

lemma confidence_rationale_nonempty [simp]:
  "confidence_rationale summary structured n st su b sp co tc \<noteq> []"
  by (simp add: confidence_rationale_def Let_def)

lemma mk_confidence_breakdown_Ok:
  "0 \<le> tot \<Longrightarrow> tot \<le> 100 \<Longrightarrow> r \<noteq> [] \<Longrightarrow> mk_confidence_breakdown b s c t u p tot r =
     Ok \<lparr>cb_base = b, cb_support = s, cb_consistency = c, cb_trend_consistency = t,
        cb_sustained_bonus = u, cb_penalties = p, cb_total = tot, cb_rationale = r\<rparr>"
  by (simp add: mk_confidence_breakdown_def construct_Cons)

lemma score_confidence_Ok:
  "\<exists>cb. score_assessment_confidence summary structured primary = Ok cb \<and>
     cb_total cb = cb_base cb + cb_support cb + cb_consistency cb + cb_trend_consistency cb +
       cb_sustained_bonus cb + cb_penalties cb \<and>
     26 \<le> cb_total cb \<and> cb_total cb \<le> 92"
proof -
  define sp where "sp = min 25 (8 * min (int (length primary)) 3)"
  define co :: int where "co = (if sa_variation_level structured \<noteq> VAR_HIGH \<and>
    \<not> sa_has_contradictions structured then 15 else 5)"
  define tc :: int where "tc = (if sa_trend_direction structured \<in> {INCREASING, DECREASING}
    then (if sa_variation_level structured \<noteq> VAR_HIGH then 12 else 4)
    else if sa_trend_direction structured = STABLE then 8 else 0)"
  define bo :: int where "bo = (if is_monotonic_recent primary \<and>
    sa_trend_direction structured \<noteq> STABLE then 6 else 0)"
  define pe :: int where "pe = (if sa_has_contradictions structured then - 12 else 0) +
    (if sa_has_unexpected_expectations structured then - 6 else 0)"
  define tot where "tot = max 0 (min 100 (35 + sp + co + tc + bo + pe))"
  obtain r where "r \<noteq> []" and eq: "score_assessment_confidence summary structured primary =
      mk_confidence_breakdown 35 sp co tc bo pe tot r"
    unfolding score_assessment_confidence_def Let_def sp_def co_def tc_def bo_def pe_def tot_def
    using confidence_rationale_nonempty by blast
  have "0 \<le> sp" "sp \<le> 24" "5 \<le> co" "co \<le> 15" "0 \<le> bo" "bo \<le> 6" "- 18 \<le> pe" "pe \<le> 0"
    by (auto simp: sp_def co_def bo_def pe_def)
  moreover have "4 \<le> tc" "tc \<le> 12"
    by (cases "sa_trend_direction structured"; simp add: tc_def)+
  ultimately have "tot = 35 + sp + co + tc + bo + pe" "26 \<le> tot" "tot \<le> 92"
    by (auto simp: tot_def)
  then show ?thesis
    using \<open>r \<noteq> []\<close> by (simp add: eq mk_confidence_breakdown_Ok)
qed

lemma build_explanation_total:
  "as_situation summary = Some st \<Longrightarrow> \<exists>e. build_explanation summary evs hs cb = Ok e"
  by (simp add: build_explanation_def Let_def mk_explanation_def construct_Cons)

section \<open>When the pipeline succeeds\<close>

definition run_ready :: "ReasoningContext \<Rightarrow> bool" where
  "run_ready c \<longleftrightarrow>
     (let primary = primary_measurement_observations (rc_observations c)
      in one_asset (rc_observations c) \<and> 2 \<le> length primary \<and> distinct (map obs_id primary) \<and>
         goal_id (rc_goal c) \<noteq> [])"

definition artifacts_complete :: "ReasoningArtifacts \<Rightarrow> bool" where
  "artifacts_complete a \<longleftrightarrow>
     ra_signals a \<noteq> None \<and> ra_evidence a \<noteq> [] \<and> ra_hypotheses a \<noteq> [] \<and>
     ra_structured_assessment a \<noteq> None \<and>
     (\<exists>s. ra_assessment_summary a = Some s \<and> as_situation s \<noteq> None \<and> as_confidence s = ra_confidence a) \<and>
     ra_explanation a \<noteq> None \<and> ra_confidence a \<noteq> None \<and> ra_planning_context a \<noteq> None \<and>
     ra_decision_context a \<noteq> None \<and> ra_decision_plan a \<noteq> None"

lemma signals_series:
  assumes "signals_for c sg"
  shows "\<forall>ob\<in>set (rs_primary_observations sg). obs_asset_id ob = dt_asset_id (rs_trend sg) \<and>
      obs_measurement_type ob = dt_measurement_type (rs_trend sg)"
    and "dv_asset_id (rs_variation sg) = dt_asset_id (rs_trend sg)"
    and "dv_measurement_type (rs_variation sg) = dt_measurement_type (rs_trend sg)"
    and "rs_primary_observations sg \<noteq> []"
proof -
  let ?p = "rs_primary_observations sg"
  have t: "trend_detect ?p = Ok (rs_trend sg)" and v: "variation_detect ?p = Ok (rs_variation sg)"
    using assms by (auto simp: signals_for_def Let_def)
  from t have teq: "rs_trend sg = \<lparr>dt_direction = split_half_direction (sorted_by obs_timestamp ?p),
      dt_asset_id = obs_asset_id (hd ?p), dt_measurement_type = obs_measurement_type (hd ?p)\<rparr>"
    and same: "same_series ?p" and two: "2 \<le> length ?p"
    unfolding trend_detect_Ok_iff by blast+
  from v have veq: "rs_variation sg = \<lparr>dv_asset_id = obs_asset_id (hd ?p),
      dv_measurement_type = obs_measurement_type (hd ?p),
      dv_level = variation_level (sorted_by obs_timestamp ?p)\<rparr>"
    unfolding variation_detect_Ok_iff by blast
  show ne: "?p \<noteq> []" using two by auto
  show "\<forall>ob\<in>set ?p. obs_asset_id ob = dt_asset_id (rs_trend sg) \<and>
      obs_measurement_type ob = dt_measurement_type (rs_trend sg)"
    unfolding teq DetectedTrend.simps
    using same hd_in_set [OF ne] unfolding same_series_def by blast
  show "dv_asset_id (rs_variation sg) = dt_asset_id (rs_trend sg)"
    "dv_measurement_type (rs_variation sg) = dt_measurement_type (rs_trend sg)"
    by (simp_all add: teq veq)
qed

lemma rc_artifacts_with_artifacts [simp]:
  "rc_artifacts (with_artifacts f c) = f (rc_artifacts c)"
  "rc_goal (with_artifacts f c) = rc_goal c"
  "rc_observations (with_artifacts f c) = rc_observations c"
  "rc_profile (with_artifacts f c) = rc_profile c"
  by (simp_all add: with_artifacts_def)

lemma run_stages_Nil [simp]: "run_stages [] c rt = Ok (c, rt)"
  by (simp add: run_stages_def)

lemma run_stages_Cons:
  "run_stages (st # sts) c rt = res_bind (st c rt) (\<lambda>(c, rt). run_stages sts c rt)"
  unfolding run_stages_def by (cases "st c rt") (auto simp: case_prod_beta)

lemma assessment_stage_total:
  assumes "ra_signals (rc_artifacts c) = Some sg"
    and "assess (rc_goal c) (rs_primary_observations sg) (rs_trend sg) (rs_variation sg)
      (Some (rs_relationship_analysis sg)) (Some (rs_expectation_analysis sg)) rt = Ok (res, rt1)"
  shows "\<exists>sm. as_situation sm = Some (ar_situation res) \<and>
    assessment_stage c rt = Ok (with_artifacts (\<lambda>a. a\<lparr>
      ra_structured_assessment := Some (ar_structured res), ra_assessment_summary := Some sm\<rparr>) c, rt1)"
  unfolding assessment_stage_def Let_def assms option.case res_bind.simps prod.case
  by (rule exI, rule conjI [OF _ refl]) simp

lemma confidence_stage_total:
  assumes "ra_assessment_summary (rc_artifacts c) = Some sm"
    and "ra_structured_assessment (rc_artifacts c) = Some sa"
    and "ra_signals (rc_artifacts c) = Some sg"
  shows "\<exists>cb. confidence_stage c rt = Ok (with_artifacts (\<lambda>a. a\<lparr>ra_confidence := Some cb,
      ra_assessment_summary := Some (apply_confidence_to_summary sm cb)\<rparr>) c, rt)"
proof -
  obtain cb where "score_assessment_confidence sm sa (rs_primary_observations sg) = Ok cb"
    using score_confidence_Ok by blast
  with assms show ?thesis by (auto simp: confidence_stage_def)
qed

lemma explanation_stage_total:
  assumes "ra_assessment_summary (rc_artifacts c) = Some sm" and "as_situation sm = Some st"
    and "ra_confidence (rc_artifacts c) = Some cb"
  shows "\<exists>e. explanation_stage c rt = Ok (with_artifacts (\<lambda>a. a\<lparr>ra_explanation := Some e\<rparr>) c, rt)"
proof -
  obtain e where "build_explanation sm (ra_evidence (rc_artifacts c)) (ra_hypotheses (rc_artifacts c)) cb = Ok e"
    using build_explanation_total [OF assms(2)] by blast
  with assms(1,3) show ?thesis by (auto simp: explanation_stage_def)
qed

lemma pipeline_succeeds:
  assumes ready: "run_ready c" and wf: "\<forall>ob\<in>set (rc_observations c). observation_wf ob"
    and fresh: "uuids_fresh rt"
  shows "\<exists>c' rt'. run_stages reasoning_stages c rt = Ok (c', rt') \<and> artifacts_complete (rc_artifacts c')"
proof -
  let ?p = "primary_measurement_observations (rc_observations c)"
  have r: "one_asset (rc_observations c)" "2 \<le> length ?p" "distinct (map obs_id ?p)"
    "goal_id (rc_goal c) \<noteq> []"
    using ready by (auto simp: run_ready_def Let_def)
  obtain sg where s1: "signal_extraction_stage c rt =
      Ok (with_artifacts (\<lambda>a. a\<lparr>ra_signals := Some sg\<rparr>) c, rt)" and sg: "signals_for c sg"
    using signal_stage_total [OF r(1,2)] by blast
  have p: "rs_primary_observations sg = ?p" and desc: "relationships_described (rs_relationship_analysis sg)"
    using sg by (auto simp: signals_for_def Let_def intro: relationship_analyze_described)
  have pwf: "\<forall>ob\<in>set (rs_primary_observations sg). observation_wf ob"
    using wf primary_subset [of "rc_observations c"] p by auto
  obtain evs where evs: "generate_evidence_from_signals sg = Ok evs" "evs \<noteq> []"
    using evidence_total [OF signals_series(4) [OF sg] pwf desc] by blast
  obtain hs where hs: "generate_hypotheses_from_signals sg evs (rc_observations c) = Ok hs" "hs \<noteq> []"
    using hypotheses_total [OF r(1)] by blast
  obtain res rt1 where res: "assess (rc_goal c) (rs_primary_observations sg) (rs_trend sg)
      (rs_variation sg) (Some (rs_relationship_analysis sg)) (Some (rs_expectation_analysis sg)) rt =
      Ok (res, rt1)"
    using assess_total [OF signals_series(4,1,2,3) [OF sg]] r(3,4) fresh p by metis
  note a = assess_Ok [OF res]
  have "uuids_fresh rt1" using env_advances_fresh [OF assess_env [OF res] fresh] .
  from decision_from_situation [OF a(1,2,5) this]
  obtain ctx rt2 plan rt3 where ctx: "create_decision_context (rc_goal c) (ar_situation res) rt1 = Ok (ctx, rt2)"
    and plan: "decision_plan ctx (Some (planning_context_from_assessment (ar_structured res))) rt2 = Ok (plan, rt3)"
    by blast
  define c1 where "c1 = with_artifacts (\<lambda>a. a\<lparr>ra_signals := Some sg\<rparr>) c"
  define c2 where "c2 = with_artifacts (\<lambda>a. a\<lparr>ra_evidence := evs\<rparr>) c1"
  define c3 where "c3 = with_artifacts (\<lambda>a. a\<lparr>ra_hypotheses := hs\<rparr>) c2"
  have s2: "evidence_generation_stage c1 rt = Ok (c2, rt)"
    by (simp add: evidence_generation_stage_def c2_def c1_def evs)
  have s3: "hypothesis_stage c2 rt = Ok (c3, rt)"
    by (simp add: hypothesis_stage_def c3_def c2_def c1_def evs hs)
  obtain sm where s4: "assessment_stage c3 rt = Ok (with_artifacts (\<lambda>a.
      a\<lparr>ra_structured_assessment := Some (ar_structured res), ra_assessment_summary := Some sm\<rparr>) c3, rt1)"
    and sm: "as_situation sm = Some (ar_situation res)"
    using assessment_stage_total [of c3 sg rt res rt1] res by (auto simp: c3_def c2_def c1_def)
  define c4 where "c4 = with_artifacts (\<lambda>a.
      a\<lparr>ra_structured_assessment := Some (ar_structured res), ra_assessment_summary := Some sm\<rparr>) c3"
  obtain cb where s5: "confidence_stage c4 rt1 = Ok (with_artifacts (\<lambda>a.
      a\<lparr>ra_confidence := Some cb, ra_assessment_summary := Some (apply_confidence_to_summary sm cb)\<rparr>) c4, rt1)"
    using confidence_stage_total [of c4 sm "ar_structured res" sg rt1]
    by (auto simp: c4_def c3_def c2_def c1_def)
  define c5 where "c5 = with_artifacts (\<lambda>a.
      a\<lparr>ra_confidence := Some cb, ra_assessment_summary := Some (apply_confidence_to_summary sm cb)\<rparr>) c4"
  obtain e where s6: "explanation_stage c5 rt1 = Ok (with_artifacts (\<lambda>a. a\<lparr>ra_explanation := Some e\<rparr>) c5, rt1)"
    using explanation_stage_total [of c5 "apply_confidence_to_summary sm cb" "ar_situation res" cb rt1] sm
    by (auto simp: c5_def apply_confidence_to_summary_def)
  define c6 where "c6 = with_artifacts (\<lambda>a. a\<lparr>ra_explanation := Some e\<rparr>) c5"
  have s7: "planning_stage c6 rt1 = Ok (with_artifacts (\<lambda>a. a\<lparr>
      ra_planning_context := Some (planning_context_from_assessment (ar_structured res)),
      ra_decision_context := Some ctx, ra_decision_plan := Some plan\<rparr>) c6, rt3)"
    using sm ctx plan
    by (simp add: planning_stage_def c6_def c5_def c4_def c3_def c2_def c1_def
        apply_confidence_to_summary_def)
  define c7 where "c7 = with_artifacts (\<lambda>a. a\<lparr>
      ra_planning_context := Some (planning_context_from_assessment (ar_structured res)),
      ra_decision_context := Some ctx, ra_decision_plan := Some plan\<rparr>) c6"
  have "run_stages reasoning_stages c rt = Ok (c7, rt3)"
    using s1 s2 s3 s4 s5 s6 s7
    by (simp add: reasoning_stages_def run_stages_Cons c1_def [symmetric] c4_def [symmetric]
        c5_def [symmetric] c6_def [symmetric] c7_def [symmetric])
  moreover have "artifacts_complete (rc_artifacts c7)"
    using sm evs(2) hs(2)
    by (simp add: artifacts_complete_def c7_def c6_def c5_def c4_def c3_def c2_def c1_def
        apply_confidence_to_summary_def)
  ultimately show ?thesis by blast
qed

lemma pipeline_ready:
  assumes "run_stages reasoning_stages c rt = Ok (c', rt')"
  shows "run_ready c"
proof -
  from assms obtain c1 rt1 c2 rt2 c3 rt3 c4 rt4 where
    s1: "signal_extraction_stage c rt = Ok (c1, rt1)" and
    s2: "evidence_generation_stage c1 rt1 = Ok (c2, rt2)" and
    s3: "hypothesis_stage c2 rt2 = Ok (c3, rt3)" and
    s4: "assessment_stage c3 rt3 = Ok (c4, rt4)"
    by (auto simp: reasoning_stages_def run_stages_Cons res_bind_Ok_iff)
  obtain sg where sg: "signals_for c sg" and c1: "ra_signals (rc_artifacts c1) = Some sg"
    using signal_stage_Ok [OF s1] by auto
  have "ra_signals (rc_artifacts c2) = Some sg"
    using s2 c1 by (auto simp: evidence_generation_stage_def res_bind_Ok_iff split: option.splits)
  then have c3: "ra_signals (rc_artifacts c3) = Some sg"
    using s3 by (auto simp: hypothesis_stage_def res_bind_Ok_iff split: option.splits if_splits)
  obtain res rt5 where res: "assess (rc_goal c3) (rs_primary_observations sg) (rs_trend sg)
      (rs_variation sg) (Some (rs_relationship_analysis sg)) (Some (rs_expectation_analysis sg)) rt3 =
      Ok (res, rt5)"
    using s4 c3 by (auto simp: assessment_stage_def res_bind_Ok_iff)
  have "rc_goal c3 = rc_goal c"
    using signal_stage.frame [OF s1] evidence_stage.frame [OF s2] hyp_stage.frame [OF s3]
    by (simp add: same_inputs_def)
  moreover have "rs_primary_observations sg = primary_measurement_observations (rc_observations c)"
    using sg by (simp add: signals_for_def Let_def)
  ultimately show ?thesis
    using assess_Ok(1,2,4) [OF res] signals_for_inputs [OF sg]
    by (auto simp: run_ready_def Let_def situation_wf_def)
qed

section \<open>Hypotheses that cannot be proposed\<close>

text \<open>With the shipped policies, a fuel-flow correlation means a falling stack temperature.\<close>

lemma shipped_rule_fuel_flow:
  assumes "prof \<in> {default_operational_profile, fuel_cell_default_profile}"
    and "r \<in> set (rp_correlation_rules (profile_policy prof))"
    and "{rr_measurement_a r, rr_measurement_b r} =
      {MeasurementType ''stack_temperature'', MeasurementType ''fuel_flow''}"
  shows "rr_measurement_b r = MeasurementType ''stack_temperature''"
  using assms
  by (auto simp: default_operational_profile_def fuel_cell_default_profile_def
      DefaultRelationshipPolicy_def FuelCellRelationshipPolicy_def rule_pair_def doubleton_eq_iff)

lemma relationship_analyze_correlations:
  "relationship_analyze det prof g = Ok ra \<Longrightarrow>
     correlation_loop det g (rp_correlation_rules (profile_policy prof)) = Ok (ra_correlations ra)"
  by (auto simp: relationship_analyze_def correlation_detect_def res_bind_Ok_iff)

lemma cooling_not_supported:
  assumes sg: "signals_for c sg"
    and prof: "rc_profile c \<in> {default_operational_profile, fuel_cell_default_profile}"
  shows "\<not> supports_cooling_degradation sg"
proof
  assume "supports_cooling_degradation sg"
  then have first: "mt_name (obs_measurement_type (hd (rs_primary_observations sg))) = ''stack_temperature''"
    and inc: "dt_direction (rs_trend sg) = INCREASING"
    and "\<exists>k\<in>set (ra_correlations (rs_relationship_analysis sg)).
      {mc_measurement_a k, mc_measurement_b k} =
      {MeasurementType ''stack_temperature'', MeasurementType ''fuel_flow''}"
    by (auto simp: supports_cooling_degradation_def Let_def list_ex_iff split: if_splits)
  then obtain k where k: "k \<in> set (ra_correlations (rs_relationship_analysis sg))"
    "{mc_measurement_a k, mc_measurement_b k} =
      {MeasurementType ''stack_temperature'', MeasurementType ''fuel_flow''}"
    by blast
  let ?obs = "rc_observations c"
  define g where "g = \<lparr>og_asset_id = obs_asset_id (hd ?obs), og_observations = ?obs,
      og_measurements = index_from_group ?obs\<rparr>"
  have g: "group_wf g" and p: "rs_primary_observations sg = primary_measurement_observations ?obs"
    and t: "trend_detect (rs_primary_observations sg) = Ok (rs_trend sg)"
    and ra: "relationship_analyze trend_detect (rc_profile c) g = Ok (rs_relationship_analysis sg)"
    using sg by (auto simp: signals_for_def Let_def g_def)
  have loop: "correlation_loop trend_detect g (rp_correlation_rules (profile_policy (rc_profile c))) =
      Ok (ra_correlations (rs_relationship_analysis sg))"
    using ra by (rule relationship_analyze_correlations)
  from td.correlation_loop_rule [OF loop k(1)] obtain r where
    r: "r \<in> set (rp_correlation_rules (profile_policy (rc_profile c)))"
    "rr_measurement_a r = mc_measurement_a k" "rr_measurement_b r = mc_measurement_b k"
    "rule_directions trend_detect g r = Ok (Some (INCREASING, DECREASING))"
    by blast
  have b: "rr_measurement_b r = MeasurementType ''stack_temperature''"
    using shipped_rule_fuel_flow [OF prof r(1)] k(2) r(2,3) by simp
  have ne: "?obs \<noteq> []" using g by (simp add: group_wf_def g_def)
  have "obs_measurement_type (hd (rs_primary_observations sg)) = obs_measurement_type (hd ?obs)"
    using ne p by (cases ?obs) simp_all
  then have "obs_measurement_type (hd ?obs) = MeasurementType ''stack_temperature''"
    using first by (metis MeasurementType.collapse)
  then have "series_of g (rr_measurement_b r) = rs_primary_observations sg"
    by (simp add: series_of_def g_def b p primary_series [OF ne])
  then show False
    using r(4) t inc
    by (auto simp: rule_directions_def index_get_group [OF g] Let_def res_bind_Ok_iff split: if_splits)
qed

lemma unknown_not_appended:
  assumes "signals_for c sg"
  shows "\<not> (dt_direction (rs_trend sg) = INCREASING \<and> length (rs_primary_observations sg) < 4)"
proof -
  have "trend_detect (rs_primary_observations sg) = Ok (rs_trend sg)"
    using assms by (auto simp: signals_for_def Let_def)
  from td.detect_window [OF this] show ?thesis by fastforce
qed

section \<open>Properties\<close>

text \<open>
  C22. The observation window is exact: from observations with distinct ids, the result is in
  (timestamp, id) order and holds, of every measurement type, precisely its most recent
  \<open>window\<close> observations in that order; a non-positive window is refused.
\<close>

theorem window_keeps_most_recent:
  assumes "distinct (map obs_id obs)"
  shows "(window \<le> 0 \<longrightarrow> bound_recent_observations obs window = Err (ValueError ''window must be > 0'')) \<and>
    (0 < window \<longrightarrow> (\<exists>res. bound_recent_observations obs window = Ok res \<and>
       sorted (map time_id_key res) \<and>
       (\<forall>mt. filter (\<lambda>ob. obs_measurement_type ob = mt) res =
          take_last (nat window)
            (sorted_by time_id_key (filter (\<lambda>ob. obs_measurement_type ob = mt) obs)))))"
  using window_per_type [OF assms] sorted_filter [OF sorted_by_sorted [of time_id_key obs]]
  by (simp add: bound_recent_observations_def)

lemma window_keeps_most_recent_witness:
  "distinct (map obs_id (demo_series ''current'' [5, 6, 7, 8])) \<and>
   bound_recent_observations (demo_series ''current'' [5, 6, 7, 8]) 2 =
     Ok (drop 2 (demo_series ''current'' [5, 6, 7, 8]))"
proof -
  have d: "distinct (map obs_id (demo_series ''current'' [5, 6, 7, 8]))" by code_simp
  obtain res where res: "bound_recent_observations (demo_series ''current'' [5, 6, 7, 8]) 2 = Ok res"
    using window_keeps_most_recent [OF d, of 2] by auto
  moreover have "bound_recent_observations (demo_series ''current'' [5, 6, 7, 8]) 2 =
     Ok (drop 2 (demo_series ''current'' [5, 6, 7, 8]))" by code_simp
  ultimately show ?thesis using d by simp
qed

text \<open>
  C2. The pipeline runs to completion exactly on the inputs it is meant for: observations of one
  asset, at least two of the primary measurement and with distinct ids, and an identified goal.
  On those inputs every artifact the session needs is present, so its internal error for missing
  artifacts never occurs.
\<close>

theorem pipeline_succeeds_iff:
  assumes "\<forall>ob\<in>set (rc_observations c). observation_wf ob" and "uuids_fresh rt"
  shows "((\<exists>c' rt'. run_stages reasoning_stages c rt = Ok (c', rt')) \<longleftrightarrow> run_ready c) \<and>
    (\<forall>c' rt'. run_stages reasoning_stages c rt = Ok (c', rt') \<longrightarrow> artifacts_complete (rc_artifacts c'))"
  using pipeline_succeeds [OF _ assms] pipeline_ready by fastforce

definition demo_context :: ReasoningContext where
  "demo_context = \<lparr>rc_goal = demo_goal, rc_observations = demo_series ''current'' [1, 2],
     rc_profile = default_operational_profile, rc_artifacts = no_artifacts, rc_run_id = None\<rparr>"

lemma pipeline_succeeds_iff_witness:
  "\<exists>c' rt'. run_stages reasoning_stages demo_context demo_runtime = Ok (c', rt') \<and>
     artifacts_complete (rc_artifacts c')"
proof -
  have wf: "\<forall>ob\<in>set (rc_observations demo_context). observation_wf ob" by code_simp
  have "run_ready demo_context"
    by (auto simp: run_ready_def demo_context_def Let_def demo_goal_def demo_series_def one_asset_def
        upt_conv_Cons)
  then show ?thesis
    using pipeline_succeeds_iff [OF wf demo_runtime_fresh] by blast
qed

text \<open>
  Confidence scoring never raises, and its clamp to 0..100 is never active: the total is the
  plain sum of its components and lies between 26 and 92.
\<close>

theorem confidence_is_the_sum:
  "\<exists>cb. score_assessment_confidence summary structured primary = Ok cb \<and>
     cb_total cb = cb_base cb + cb_support cb + cb_consistency cb + cb_trend_consistency cb +
       cb_sustained_bonus cb + cb_penalties cb \<and>
     26 \<le> cb_total cb \<and> cb_total cb \<le> 92"
  by (rule score_confidence_Ok)

text \<open>
  With either shipped profile the hypothesis stage proposes exactly one hypothesis, and it is
  hydrogen supply, sensor drift or load change: the cooling-degradation and the unknown branch
  are unreachable from extracted signals.
\<close>

theorem shipped_profiles_hypotheses:
  assumes "signal_extraction_stage c rt = Ok (c1, rt1)"
    and "rc_profile c \<in> {default_operational_profile, fuel_cell_default_profile}"
    and "ra_signals (rc_artifacts c1) = Some sg"
    and "generate_hypotheses_from_signals sg evs (rc_observations c) = Ok hs"
  shows "\<exists>h. hs = [h] \<and> hyp_kind h \<in> {HK_HYDROGEN_SUPPLY, HK_SENSOR_DRIFT, HK_LOAD_CHANGE}"
proof -
  have sg: "signals_for c sg"
    using signal_stage_Ok [OF assms(1)] assms(3) by auto
  from assms(4) obtain h where h: "leading_hypothesis sg evs (rc_observations c) = Ok h" and hs: "hs = [h]"
    using unknown_not_appended [OF sg]
    by (auto simp: generate_hypotheses_from_signals_def res_bind_Ok_iff Let_def)
  from h have "hyp_kind h \<in> {HK_HYDROGEN_SUPPLY, HK_SENSOR_DRIFT, HK_LOAD_CHANGE}"
    using cooling_not_supported [OF sg assms(2)]
    by (auto simp: leading_hypothesis_def Let_def res_bind_Ok_iff mk_hypothesis_Ok_iff split: if_splits)
  with hs show ?thesis by blast
qed

lemma shipped_profiles_hypotheses_witness:
  "\<exists>c1 rt1 sg hs. signal_extraction_stage demo_context demo_runtime = Ok (c1, rt1) \<and>
     ra_signals (rc_artifacts c1) = Some sg \<and>
     generate_hypotheses_from_signals sg [] (rc_observations demo_context) = Ok hs \<and> length hs = 1"
proof -
  have one: "one_asset (rc_observations demo_context)"
    by (auto simp: demo_context_def demo_series_def one_asset_def upt_conv_Cons)
  have two: "2 \<le> length (primary_measurement_observations (rc_observations demo_context))" by code_simp
  have prof: "rc_profile demo_context \<in> {default_operational_profile, fuel_cell_default_profile}"
    by (simp add: demo_context_def)
  obtain sg where s: "signal_extraction_stage demo_context demo_runtime =
      Ok (with_artifacts (\<lambda>a. a\<lparr>ra_signals := Some sg\<rparr>) demo_context, demo_runtime)"
    using signal_stage_total [OF one two] by blast
  obtain hs where "generate_hypotheses_from_signals sg [] (rc_observations demo_context) = Ok hs"
    using hypotheses_total [OF one] by blast
  with shipped_profiles_hypotheses [OF s prof _ this] s show ?thesis by auto
qed

text \<open>
  No stage tampers with the run: after a successful pipeline the goal, the observations, the
  profile and the run id are those of the initial context, and identifiers are only ever drawn
  forward.
\<close>

theorem pipeline_keeps_inputs:
  assumes "run_stages reasoning_stages c rt = Ok (c', rt')"
  shows "rc_goal c' = rc_goal c \<and> rc_observations c' = rc_observations c \<and>
    rc_profile c' = rc_profile c \<and> rc_run_id c' = rc_run_id c \<and>
    rt_uuids rt' = rt_uuids rt \<and> rt_uuid_count rt \<le> rt_uuid_count rt'"
  using pipeline.pipeline_frame [OF assms] by (simp add: same_inputs_def env_advances_def)

lemma pipeline_keeps_inputs_witness:
  "\<exists>c' rt'. run_stages reasoning_stages demo_context demo_runtime = Ok (c', rt') \<and>
     rc_goal c' = demo_goal"
proof -
  have wf: "\<forall>ob\<in>set (rc_observations demo_context). observation_wf ob" by code_simp
  have "run_ready demo_context"
    by (auto simp: run_ready_def demo_context_def Let_def demo_goal_def demo_series_def one_asset_def
        upt_conv_Cons)
  then obtain c' rt' where r: "run_stages reasoning_stages demo_context demo_runtime = Ok (c', rt')"
    using pipeline_succeeds [OF _ wf demo_runtime_fresh] by blast
  with pipeline_keeps_inputs [OF r] show ?thesis by (auto simp: demo_context_def)
qed

end
