(* ===== verification/Repositories.thy ===== *)
theory Repositories
  imports Reasoning_Stages
begin

text \<open>
  The in-memory repositories (\<^verbatim>\<open>src/src/infrastructure/repositories\<close>) and the observation
  sources. A repository's dictionary is an insertion-ordered \<open>dict\<close>; a save of a known
  identifier raises. Every keyed repository is an instance of the locale \<open>write_once_store\<close>,
  interpreted here once per repository; the session and the replayer rest on its lemmas. The
  theory also has the observation queries, the hourly and daily aggregates and the CSV row parser
  (the parsers of numbers and timestamps are arguments).
\<close>

section \<open>Python primitives used by the repositories\<close>

text \<open>\<^verbatim>\<open>repr\<close> of a string: single quotes unless only double quotes avoid escaping.\<close>

definition hex_digit :: "nat \<Rightarrow> char" where
  "hex_digit n = (if n < 10 then char_of (48 + n) else char_of (87 + n))"

definition repr_char :: "char \<Rightarrow> char \<Rightarrow> string" where
  "repr_char q c =
     (let n = of_char c :: nat
      in if c = q \<or> n = 92 then [CHR 0x5C, c]
         else if n = 9 then [CHR 0x5C, CHR ''t'']
         else if n = 10 then [CHR 0x5C, CHR ''n'']
         else if n = 13 then [CHR 0x5C, CHR ''r'']
         else if n < 32 \<or> n = 127
         then [CHR 0x5C, CHR ''x'', hex_digit (n div 16), hex_digit (n mod 16)]
         else [c])"

definition py_repr :: "string \<Rightarrow> string" where
  "py_repr s =
     (let q = (if CHR 0x27 \<in> set s \<and> CHR 0x22 \<notin> set s then CHR 0x22 else CHR 0x27)
      in q # concat (map (repr_char q) s) @ [q])"

text \<open>\<^verbatim>\<open>xs[:limit]\<close>; a negative limit counts from the end.\<close>

definition slice_to :: "int \<Rightarrow> 'a list \<Rightarrow> 'a list" where
  "slice_to n xs = (if n \<ge> 0 then take (nat n) xs else take (length xs - nat (- n)) xs)"

text \<open>\<^verbatim>\<open>sum\<close> of floats: the compensated summation of CPython 3.12.\<close>

fun sum_loop :: "pyfloat \<Rightarrow> pyfloat \<Rightarrow> pyfloat list \<Rightarrow> pyfloat" where
  "sum_loop tot c [] = (if c \<noteq> 0 then fadd tot c else tot)"
| "sum_loop tot c (x # xs) =
     (let t = fadd tot x
      in sum_loop t
           (fadd c (if \<bar>tot\<bar> \<ge> \<bar>x\<bar> then fadd (fsub tot t) x else fadd (fsub x t) tot)) xs)"

definition py_sum :: "pyfloat list \<Rightarrow> pyfloat" where
  "py_sum xs = sum_loop 0 0 xs"

section \<open>The write-once dictionary\<close>

definition put_new ::
    "(string \<Rightarrow> py_error) \<Rightarrow> ('v \<Rightarrow> string) \<Rightarrow> 'v \<Rightarrow> (string, 'v) dict \<Rightarrow> (string, 'v) dict result" where
  "put_new err ident v storage =
     (if map_of storage (ident v) \<noteq> None then Err (err (ident v))
      else Ok (dict_set (ident v) v storage))"

lemma put_new_store: "write_once_store [] map_of (put_new err ident) ident"
  by unfold_locales (auto simp: put_new_def)

type_synonym observation_repo = "(string, Observation) dict"
type_synonym situation_repo = "(string, OperationalSituation) dict"
type_synonym context_repo = "(string, DecisionContext) dict"
type_synonym plan_repo = "(string, DecisionPlan) dict"

definition observation_save :: "Observation \<Rightarrow> observation_repo \<Rightarrow> observation_repo result" where
  "observation_save =
     put_new (\<lambda>i. ValueError (''observation with id '' @ py_repr i @ '' already exists'')) obs_id"

definition observation_get :: "observation_repo \<Rightarrow> string \<Rightarrow> Observation option" where
  "observation_get storage i = map_of storage i"

definition situation_save :: "OperationalSituation \<Rightarrow> situation_repo \<Rightarrow> situation_repo result" where
  "situation_save =
     put_new (\<lambda>i. ValueError (''situation with id '' @ py_repr i @ '' already exists'')) sit_id"

definition situation_get :: "situation_repo \<Rightarrow> string \<Rightarrow> OperationalSituation option" where
  "situation_get storage i = map_of storage i"

definition context_save :: "DecisionContext \<Rightarrow> context_repo \<Rightarrow> context_repo result" where
  "context_save =
     put_new (\<lambda>i. ValueError (''decision context with id '' @ py_repr i @ '' already exists'')) dc_id"

definition context_get :: "context_repo \<Rightarrow> string \<Rightarrow> DecisionContext option" where
  "context_get storage i = map_of storage i"

definition plan_save :: "DecisionPlan \<Rightarrow> plan_repo \<Rightarrow> plan_repo result" where
  "plan_save =
     put_new (\<lambda>i. ValueError (''decision plan with id '' @ py_repr i @ '' already exists'')) plan_id"

definition plan_get :: "plan_repo \<Rightarrow> string \<Rightarrow> DecisionPlan option" where
  "plan_get storage i = map_of storage i"

section \<open>Runs, run indexes and the registry\<close>

record ReasoningRun =
  run_id :: string
  run_started_at :: datetime

record ReasoningRunIndex =
  idx_run_id :: string
  idx_observation_ids :: "string list"
  idx_situation_id :: string
  idx_context_id :: string
  idx_plan_id :: string
  idx_action_id :: string
  idx_outcome_id :: string
  idx_asset_id :: string

record ReasoningRunRegistryEntry =
  reg_run_id :: string
  reg_started_at :: datetime

type_synonym run_repo = "(string, ReasoningRun) dict"
type_synonym index_repo = "(string, ReasoningRunIndex) dict"

definition run_save :: "ReasoningRun \<Rightarrow> run_repo \<Rightarrow> run_repo result" where
  "run_save =
     put_new (\<lambda>i. ValueError (''reasoning run with id '' @ py_repr i @ '' already exists'')) run_id"

definition run_get :: "run_repo \<Rightarrow> string \<Rightarrow> ReasoningRun option" where
  "run_get storage i = map_of storage i"

definition run_list :: "run_repo \<Rightarrow> ReasoningRun list" where
  "run_list storage = map (\<lambda>k. the (map_of storage k)) (sorted_by (\<lambda>k. k) (dict_keys storage))"

definition index_save :: "ReasoningRunIndex \<Rightarrow> index_repo \<Rightarrow> index_repo result" where
  "index_save =
     put_new (\<lambda>i. ValueError (''reasoning run index with run_id '' @ py_repr i @ '' already exists''))
       idx_run_id"

definition run_index_get :: "index_repo \<Rightarrow> string \<Rightarrow> ReasoningRunIndex option" where
  "run_index_get storage i = map_of storage i"

definition index_list :: "index_repo \<Rightarrow> ReasoningRunIndex list" where
  "index_list storage = map (\<lambda>k. the (map_of storage k)) (sorted_by (\<lambda>k. k) (dict_keys storage))"

definition index_list_by_asset ::
    "index_repo \<Rightarrow> string \<Rightarrow> int option \<Rightarrow> bool \<Rightarrow> ReasoningRunIndex list" where
  "index_list_by_asset storage asset limit newest_first =
     (let matches = filter (\<lambda>index. idx_asset_id index = asset) (dict_values storage);
          matches = (if newest_first then sorted_by_desc idx_run_id matches
                     else sorted_by idx_run_id matches)
      in case limit of None \<Rightarrow> matches | Some n \<Rightarrow> slice_to n matches)"

record registry_repo =
  rg_entries :: "ReasoningRunRegistryEntry list"
  rg_run_ids :: "string list"

definition empty_registry :: registry_repo where
  "empty_registry = \<lparr>rg_entries = [], rg_run_ids = []\<rparr>"

definition registry_add :: "ReasoningRunRegistryEntry \<Rightarrow> registry_repo \<Rightarrow> registry_repo result" where
  "registry_add entry r =
     (if reg_run_id entry \<in> set (rg_run_ids r)
      then Err (ValueError (''reasoning run with id '' @ py_repr (reg_run_id entry) @
                            '' already registered''))
      else Ok \<lparr>rg_entries = rg_entries r @ [entry], rg_run_ids = reg_run_id entry # rg_run_ids r\<rparr>)"

definition registry_list :: "registry_repo \<Rightarrow> ReasoningRunRegistryEntry list" where
  "registry_list r = rg_entries r"

definition registry_wf :: "registry_repo \<Rightarrow> bool" where
  "registry_wf r \<longleftrightarrow> distinct (map reg_run_id (rg_entries r)) \<and>
     set (rg_run_ids r) = reg_run_id ` set (rg_entries r)"

section \<open>Traces and structured assessments\<close>

record TraceStep =
  step_name :: string
  step_description :: string

type_synonym ReasoningTrace = "TraceStep list"

definition trace_get_by_run_id :: "(string, ReasoningTrace) dict \<Rightarrow> string \<Rightarrow> ReasoningTrace option" where
  "trace_get_by_run_id storage run = map_of storage run"

definition trace_save ::
    "string \<Rightarrow> ReasoningTrace \<Rightarrow> (string, ReasoningTrace) dict \<Rightarrow> (string, ReasoningTrace) dict result" where
  "trace_save run trace storage =
     (if map_of storage run \<noteq> None
      then Err (ValueError (''reasoning trace for run_id '' @ py_repr run @ '' already exists''))
      else Ok (dict_set run trace storage))"

definition structured_get_by_run_id ::
    "(string, StructuredAssessment) dict \<Rightarrow> string \<Rightarrow> StructuredAssessment option" where
  "structured_get_by_run_id storage run = map_of storage run"

definition structured_save ::
    "string \<Rightarrow> StructuredAssessment \<Rightarrow> (string, StructuredAssessment) dict \<Rightarrow>
     (string, StructuredAssessment) dict result" where
  "structured_save run a storage =
     (if map_of storage run \<noteq> None
      then Err (ValueError (''structured assessment for run_id '' @ py_repr run @ '' already exists''))
      else Ok (dict_set run a storage))"

section \<open>Observation queries\<close>

definition observation_list :: "observation_repo \<Rightarrow> Observation list" where
  "observation_list storage = sorted_by time_id_key (dict_values storage)"

definition list_by_asset_in_time_range ::
    "observation_repo \<Rightarrow> string \<Rightarrow> datetime option \<Rightarrow> datetime option \<Rightarrow> string option \<Rightarrow>
     int option \<Rightarrow> bool \<Rightarrow> Observation list" where
  "list_by_asset_in_time_range storage asset start stop mt limit newest_first =
     (let observations = filter (\<lambda>ob. obs_asset_id ob = asset) (observation_list storage);
          observations = (case start of None \<Rightarrow> observations
                          | Some s \<Rightarrow> filter (\<lambda>ob. obs_timestamp ob \<ge> s) observations);
          observations = (case stop of None \<Rightarrow> observations
                          | Some e \<Rightarrow> filter (\<lambda>ob. obs_timestamp ob \<le> e) observations);
          observations = (case mt of None \<Rightarrow> observations
                          | Some m \<Rightarrow> filter (\<lambda>ob. mt_name (obs_measurement_type ob) = m) observations);
          observations = (if newest_first then sorted_by_desc time_id_key observations
                          else sorted_by time_id_key observations)
      in case limit of None \<Rightarrow> observations | Some n \<Rightarrow> slice_to n observations)"

definition list_by_asset :: "observation_repo \<Rightarrow> string \<Rightarrow> Observation list" where
  "list_by_asset storage asset = list_by_asset_in_time_range storage asset None None None None False"

section \<open>Aggregates\<close>

text \<open>\<^verbatim>\<open>timestamp.replace(hour=0, ...)\<close> on UTC instants: round down to the bucket width.\<close>

definition bucket_width :: "TelemetryBucket \<Rightarrow> int" where
  "bucket_width b = (case b of ONE_HOUR \<Rightarrow> 3600 * 1000000 | ONE_DAY \<Rightarrow> 86400 * 1000000)"

definition bucket_start :: "datetime \<Rightarrow> int \<Rightarrow> datetime" where
  "bucket_start ts width = ts - ts mod width"

definition latest_observation :: "Observation list \<Rightarrow> Observation" where
  "latest_observation obs =
     foldl (\<lambda>best ob. if time_id_key best < time_id_key ob then ob else best) (hd obs) (tl obs)"

definition aggregate_point ::
    "(datetime \<times> string) \<times> Observation list \<Rightarrow> TelemetryAggregatePoint result" where
  "aggregate_point entry =
     (case entry of ((bucket, mt), bucket_observations) \<Rightarrow>
        let values = map obs_value bucket_observations;
            latest = latest_observation bucket_observations
        in mk_telemetry_aggregate_point bucket mt
             (fdiv (py_sum values) (of_nat (length values)))
             (Min (set values)) (Max (set values)) (int (length values)) (obs_unit latest))"

definition aggregate_observations ::
    "Observation list \<Rightarrow> TelemetryBucket \<Rightarrow> TelemetryAggregatePoint list result" where
  "aggregate_observations observations bucket =
     (let width = bucket_width bucket;
          grouped = group_by (\<lambda>ob. (bucket_start (obs_timestamp ob) width,
                                    mt_name (obs_measurement_type ob))) observations
      in res_map aggregate_point (sorted_by fst grouped))"

definition aggregate_list_by_asset ::
    "observation_repo \<Rightarrow> string \<Rightarrow> TelemetryBucket \<Rightarrow> datetime option \<Rightarrow> datetime option \<Rightarrow>
     string option \<Rightarrow> TelemetryAggregatePoint list result" where
  "aggregate_list_by_asset storage asset bucket start stop mt =
     aggregate_observations
       (list_by_asset_in_time_range storage asset start stop mt None False) bucket"

section \<open>Observation sources\<close>

text \<open>A source is the outcome of its \<^verbatim>\<open>read()\<close>; the CSV source reads rows split by \<^verbatim>\<open>csv\<close>.\<close>

definition static_source_read :: "Observation list \<Rightarrow> Observation list result" where
  "static_source_read observations = Ok observations"

definition malformed_row :: "nat \<Rightarrow> string \<Rightarrow> py_error" where
  "malformed_row n detail = ValueError (''malformed row '' @ nat_str n @ '': '' @ detail)"

definition parse_row ::
    "(string \<Rightarrow> pyfloat option) \<Rightarrow> (string \<Rightarrow> datetime option) \<Rightarrow> string list \<Rightarrow> nat \<Rightarrow>
     Observation result" where
  "parse_row parse_float parse_timestamp row row_number =
     (case row of
        [observation_id, asset, measurement_type_name, value_text, unit, timestamp_text] \<Rightarrow>
          (case parse_float value_text of
             None \<Rightarrow> Err (malformed_row row_number (''invalid value '' @ py_repr value_text))
           | Some v \<Rightarrow>
               (case parse_timestamp timestamp_text of
                  None \<Rightarrow> Err (malformed_row row_number
                            (''invalid timestamp '' @ py_repr timestamp_text))
                | Some ts \<Rightarrow>
                    res_bind (mk_measurement_type measurement_type_name) (\<lambda>mt.
                    mk_observation observation_id asset ts mt v unit)))
      | _ \<Rightarrow> Err (malformed_row row_number
               (''expected 6 columns, got '' @ nat_str (length row))))"

definition csv_source_read ::
    "(string \<Rightarrow> pyfloat option) \<Rightarrow> (string \<Rightarrow> datetime option) \<Rightarrow> string list list \<Rightarrow>
     Observation list result" where
  "csv_source_read parse_float parse_timestamp rows =
     (case rows of
        [] \<Rightarrow> Ok []
      | _ # body \<Rightarrow>
          res_map (\<lambda>(n, row). parse_row parse_float parse_timestamp row n)
            (zip [2..<2 + length body] body))"

section \<open>The repositories are write-once stores\<close>

interpretation obs_store: write_once_store "[]" observation_get observation_save obs_id
  unfolding observation_get_def observation_save_def by (rule put_new_store)

interpretation sit_store: write_once_store "[]" situation_get situation_save sit_id
  unfolding situation_get_def situation_save_def by (rule put_new_store)

interpretation ctx_store: write_once_store "[]" context_get context_save dc_id
  unfolding context_get_def context_save_def by (rule put_new_store)

interpretation plan_store: write_once_store "[]" plan_get plan_save plan_id
  unfolding plan_get_def plan_save_def by (rule put_new_store)

interpretation run_store: write_once_store "[]" run_get run_save run_id
  unfolding run_get_def run_save_def by (rule put_new_store)

interpretation idx_store: write_once_store "[]" run_index_get index_save idx_run_id
  unfolding run_index_get_def index_save_def by (rule put_new_store)

interpretation trace_store: write_once_store "[]"
    "\<lambda>s k. map_option (Pair k) (trace_get_by_run_id s k)" "\<lambda>(k, t). trace_save k t" fst
  by unfold_locales (auto simp: trace_save_def trace_get_by_run_id_def fun_eq_iff)

interpretation structured_store: write_once_store "[]"
    "\<lambda>s k. map_option (Pair k) (structured_get_by_run_id s k)" "\<lambda>(k, t). structured_save k t" fst
  by unfold_locales (auto simp: structured_save_def structured_get_by_run_id_def fun_eq_iff)

lemma registry_add_wf: "registry_wf r \<Longrightarrow> registry_add e r = Ok r' \<Longrightarrow> registry_wf r'"
  by (auto simp: registry_add_def registry_wf_def split: if_splits)

lemma registry_add_entries: "registry_add e r = Ok r' \<Longrightarrow> registry_list r' = registry_list r @ [e]"
  by (auto simp: registry_add_def registry_list_def split: if_splits)

section \<open>Lemmas on queries and aggregates\<close>

text \<open>Every group is non-empty, and the groups together have as many elements as the input.\<close>

lemma sum_list_group_add:
  "dict_wf d \<Longrightarrow> sum_list (map (\<lambda>e. length (snd e)) (group_add k x d)) = Suc (sum_list (map (\<lambda>e. length (snd e)) d))"
proof -
  assume wf: "dict_wf d"
  have "sum_list (map (\<lambda>e. length (snd e)) (dict_set k (ys @ [x]) d)) = Suc (sum_list (map (\<lambda>e. length (snd e)) d))"
    if "ys = (case map_of d k of None \<Rightarrow> [] | Some xs \<Rightarrow> xs)" for ys
    using wf that
  proof (induction d)
    case Nil
    then show ?case by simp
  next
    case (Cons p d)
    then show ?case by (cases p) (auto simp: dict_wf_def split: if_splits)
  qed
  then show ?thesis by (simp add: group_add_def)
qed

lemma sum_list_group_by: "sum_list (map (\<lambda>e. length (snd e)) (group_by key xs)) = length xs"
proof (induction xs rule: rev_induct)
  case Nil
  then show ?case by (simp add: group_by_def)
next
  case (snoc x xs)
  then show ?case by (simp add: group_by_snoc sum_list_group_add)
qed

lemma group_by_member:
  assumes "(k, ys) \<in> set (group_by key xs)"
  shows "ys = filter (\<lambda>x. key x = k) xs" and "ys \<noteq> []"
proof -
  have "map_of (group_by key xs) k = Some ys"
    using assms dict_wf_group_by [of key xs] by (auto simp: dict_wf_def)
  then show "ys = filter (\<lambda>x. key x = k) xs" "ys \<noteq> []"
    by (auto simp: map_of_group_by filter_empty_conv split: if_splits)
qed

lemma latest_observation_in: "obs \<noteq> [] \<Longrightarrow> latest_observation obs \<in> set obs"
proof -
  have "foldl (\<lambda>best ob. if time_id_key best < time_id_key ob then ob else best) b xs \<in> insert b (set xs)"
    for b xs
  proof (induction xs arbitrary: b)
    case (Cons x xs)
    then show ?case
      using Cons.IH [of x] Cons.IH [of b] by auto
  qed simp
  then show "obs \<noteq> [] \<Longrightarrow> latest_observation obs \<in> set obs"
    unfolding latest_observation_def by (cases obs) auto
qed

lemma aggregate_point_Ok:
  assumes "\<forall>ob\<in>set obs. observation_wf ob"
    and "((b, mt), ys) \<in> set (group_by (\<lambda>ob. (f ob, mt_name (obs_measurement_type ob))) obs)"
  shows "\<exists>pt. aggregate_point ((b, mt), ys) = Ok pt \<and> tap_bucket pt = b \<and>
    tap_measurement_type pt = mt \<and> tap_sample_count pt = int (length ys)"
proof -
  note m = group_by_member [OF assms(2)]
  have sub: "set ys \<subseteq> set obs" using m(1) by auto
  have "hd ys \<in> set ys" using m(2) by simp
  then have "mt_name (obs_measurement_type (hd ys)) = mt" "observation_wf (hd ys)"
    using m(1) assms(1) by auto
  then have "mt \<noteq> []" by (auto simp: observation_wf_def)
  moreover have "obs_unit (latest_observation ys) \<noteq> []"
    using latest_observation_in [OF m(2)] sub assms(1) by (auto simp: observation_wf_def)
  moreover have "1 \<le> int (length ys)" using m(2) by (cases ys) auto
  ultimately show ?thesis
    using m(2)
    by (simp add: aggregate_point_def Let_def mk_telemetry_aggregate_point_def construct_Cons)
qed

lemma res_map_choice:
  assumes "\<And>x. x \<in> set xs \<Longrightarrow> \<exists>y. f x = Ok y \<and> P x y"
  shows "\<exists>ys. res_map f xs = Ok ys \<and> list_all2 P xs ys"
  using assms by (induction xs) (force simp: res_bind_Ok_iff)+

lemma sum_list_all2:
  "list_all2 (\<lambda>x y. g y = h x) xs ys \<Longrightarrow> sum_list (map g ys) = sum_list (map h xs)"
  by (induction rule: list_all2_induct) auto

lemma int_sum_list_map: "sum_list (map (\<lambda>e. int (f e)) xs) = int (sum_list (map f xs))"
  by (induction xs) auto

lemma map_all2: "list_all2 (\<lambda>x y. g y = h x) xs ys \<Longrightarrow> map g ys = map h xs"
  by (induction rule: list_all2_induct) auto

section \<open>Properties\<close>

text \<open>
  Aggregation conserves the readings: over well-formed observations it always succeeds, the
  buckets come out in strictly increasing (start, measurement type) order, and the sample counts
  add up to the number of observations.
\<close>

theorem aggregates_conserve_samples:
  assumes "\<forall>ob\<in>set obs. observation_wf ob"
  shows "\<exists>pts. aggregate_observations obs bucket = Ok pts \<and>
    sorted_wrt (<) (map (\<lambda>p. (tap_bucket p, tap_measurement_type p)) pts) \<and>
    sum_list (map tap_sample_count pts) = int (length obs)"
proof -
  let ?key = "\<lambda>ob. (bucket_start (obs_timestamp ob) (bucket_width bucket), mt_name (obs_measurement_type ob))"
  let ?g = "group_by ?key obs"
  let ?P = "\<lambda>e p. (tap_bucket p, tap_measurement_type p) = fst e \<and>
    tap_sample_count p = int (length (snd e))"
  have "\<exists>pts. res_map aggregate_point (sorted_by fst ?g) = Ok pts \<and> list_all2 ?P (sorted_by fst ?g) pts"
  proof (rule res_map_choice)
    fix e assume e: "e \<in> set (sorted_by fst ?g)"
    obtain b mt ys where eq: "e = ((b, mt), ys)" by (metis prod.exhaust)
    show "\<exists>y. aggregate_point e = Ok y \<and> ?P e y"
      using aggregate_point_Ok [OF assms e [unfolded eq set_sorted_by]] unfolding eq by auto
  qed
  then obtain pts where pts: "aggregate_observations obs bucket = Ok pts"
    and all2: "list_all2 ?P (sorted_by fst ?g) pts"
    by (auto simp: aggregate_observations_def Let_def)
  have keys: "map (\<lambda>p. (tap_bucket p, tap_measurement_type p)) pts = map fst (sorted_by fst ?g)"
    by (rule map_all2) (rule list_all2_mono [OF all2], simp)
  have "distinct (map fst (sorted_by fst ?g))"
    using dict_wf_group_by [of ?key obs] by (simp add: dict_wf_def)
  then have "sorted_wrt (<) (map fst (sorted_by fst ?g))"
    using sorted_by_sorted [of fst ?g] strict_sorted_iff by blast
  moreover have "sum_list (map tap_sample_count pts) = sum_list (map (\<lambda>e. int (length (snd e))) (sorted_by fst ?g))"
    by (rule sum_list_all2) (rule list_all2_mono [OF all2], simp)
  moreover have "sum_list (map (\<lambda>e. int (length (snd e))) (sorted_by fst ?g)) =
      int (sum_list (map (\<lambda>e. length (snd e)) ?g))"
  proof -
    have "mset (map (\<lambda>e. length (snd e)) (sorted_by fst ?g)) = mset (map (\<lambda>e. length (snd e)) ?g)" by simp
    then have "sum_list (map (\<lambda>e. length (snd e)) (sorted_by fst ?g)) = sum_list (map (\<lambda>e. length (snd e)) ?g)"
      by (simp only: sum_mset_sum_list [symmetric])
    then show ?thesis by (simp only: int_sum_list_map)
  qed
  ultimately show ?thesis using pts keys by (simp add: sum_list_group_by)
qed

lemma aggregates_conserve_samples_witness:
  "\<exists>pts. aggregate_observations (demo_series ''current'' [5, 6, 7]) ONE_HOUR = Ok pts \<and>
     sum_list (map tap_sample_count pts) = 3"
proof -
  have "\<forall>ob\<in>set (demo_series ''current'' [5, 6, 7]). observation_wf ob" by code_simp
  from aggregates_conserve_samples [OF this, of ONE_HOUR] show ?thesis by (auto simp: demo_series_def)
qed

end
