(* ===== verification/Reasoning_Session.thy ===== *)
theory Reasoning_Session
  imports Repositories
begin

text \<open>
  The reasoning session (\<^verbatim>\<open>src/src/application/reasoning_session.py\<close>), the observation pipeline
  and the monitoring session. A run is a sequence of effects on the session's state: the runtime,
  the optional repositories and the optional event publisher. An exception stops the run and
  keeps every effect done before it, as the Python code does; the state therefore comes back with
  an error too.
\<close>

section \<open>Effects\<close>

record session_state =
  ss_rt :: runtime
  ss_runs :: "run_repo option"
  ss_registry :: "registry_repo option"
  ss_observations :: "observation_repo option"
  ss_situations :: "situation_repo option"
  ss_contexts :: "context_repo option"
  ss_plans :: "plan_repo option"
  ss_indexes :: "index_repo option"
  ss_events :: "DomainEvent list option"

type_synonym 'a effect = "session_state \<Rightarrow> 'a result \<times> session_state"

definition eff_return :: "'a \<Rightarrow> 'a effect" where
  "eff_return x s = (Ok x, s)"

definition eff_bind :: "'a effect \<Rightarrow> ('a \<Rightarrow> 'b effect) \<Rightarrow> 'b effect" where
  "eff_bind m f s = (case m s of (Inl e, s') \<Rightarrow> (Inl e, s') | (Inr x, s') \<Rightarrow> f x s')"

definition eff_lift :: "'a result \<Rightarrow> 'a effect" where
  "eff_lift r s = (r, s)"

definition eff_uuid4 :: "string effect" where
  "eff_uuid4 s = (let (i, rt) = uuid4 (ss_rt s) in (Ok i, s\<lparr>ss_rt := rt\<rparr>))"

definition eff_utc_now :: "datetime effect" where
  "eff_utc_now s = (let (t, rt) = utc_now (ss_rt s) in (Ok t, s\<lparr>ss_rt := rt\<rparr>))"

text \<open>A computation that reads the runtime; when it raises, what it drew is never exposed.\<close>

definition eff_rt :: "(runtime \<Rightarrow> ('a \<times> runtime) result) \<Rightarrow> 'a effect" where
  "eff_rt f s = (case f (ss_rt s) of Inl e \<Rightarrow> (Inl e, s) | Inr (x, rt) \<Rightarrow> (Ok x, s\<lparr>ss_rt := rt\<rparr>))"

text \<open>\<^verbatim>\<open>if self._x_repository is not None: self._x_repository.save(v)\<close>.\<close>

definition save_if ::
    "(session_state \<Rightarrow> 'r option) \<Rightarrow> ('r option \<Rightarrow> session_state \<Rightarrow> session_state) \<Rightarrow>
     ('r \<Rightarrow> 'r result) \<Rightarrow> unit effect" where
  "save_if repo set_repo save s =
     (case repo s of
        None \<Rightarrow> (Ok (), s)
      | Some r \<Rightarrow> (case save r of Inl e \<Rightarrow> (Inl e, s) | Inr r' \<Rightarrow> (Ok (), set_repo (Some r') s)))"

definition publish_if :: "DomainEvent \<Rightarrow> unit effect" where
  "publish_if ev s =
     (case ss_events s of
        None \<Rightarrow> (Ok (), s)
      | Some evs \<Rightarrow> (Ok (), s\<lparr>ss_events := Some (evs @ [ev])\<rparr>))"

definition save_run :: "ReasoningRun \<Rightarrow> unit effect" where
  "save_run run = save_if ss_runs (\<lambda>r. ss_runs_update (\<lambda>_. r)) (run_save run)"

definition register_run :: "ReasoningRun \<Rightarrow> unit effect" where
  "register_run run = save_if ss_registry (\<lambda>r. ss_registry_update (\<lambda>_. r))
     (registry_add \<lparr>reg_run_id = run_id run, reg_started_at = run_started_at run\<rparr>)"

definition save_observation :: "Observation \<Rightarrow> unit effect" where
  "save_observation ob = save_if ss_observations (\<lambda>r. ss_observations_update (\<lambda>_. r)) (observation_save ob)"

definition save_situation :: "OperationalSituation \<Rightarrow> unit effect" where
  "save_situation s = save_if ss_situations (\<lambda>r. ss_situations_update (\<lambda>_. r)) (situation_save s)"

definition save_context :: "DecisionContext \<Rightarrow> unit effect" where
  "save_context c = save_if ss_contexts (\<lambda>r. ss_contexts_update (\<lambda>_. r)) (context_save c)"

definition save_plan :: "DecisionPlan \<Rightarrow> unit effect" where
  "save_plan p = save_if ss_plans (\<lambda>r. ss_plans_update (\<lambda>_. r)) (plan_save p)"

definition save_index :: "ReasoningRunIndex \<Rightarrow> unit effect" where
  "save_index i = save_if ss_indexes (\<lambda>r. ss_indexes_update (\<lambda>_. r)) (index_save i)"

section \<open>The session\<close>

record ReasoningSessionConfig =
  cfg_observation_window :: "int option"

record ReasoningResult =
  rr_run :: ReasoningRun
  rr_trend :: DetectedTrend
  rr_variation :: DetectedVariation
  rr_situation :: OperationalSituation
  rr_context :: DecisionContext
  rr_plan :: DecisionPlan
  rr_action :: Action
  rr_outcome :: Outcome
  rr_trace :: ReasoningTrace
  rr_operational_context :: OperationalContext
  rr_expectation_analysis :: ExpectationAnalysis
  rr_structured_assessment :: StructuredAssessment
  rr_planning_context :: PlanningContext
  rr_reasoning_context :: ReasoningContext

definition trace_step :: "string \<Rightarrow> string \<Rightarrow> TraceStep" where
  "trace_step n d = \<lparr>step_name = n, step_description = d\<rparr>"

definition session_trace :: ReasoningTrace where
  "session_trace =
     [trace_step ''Observations Loaded'' ''Incoming observations were received for reasoning.'',
      trace_step ''Signal Extraction'' ''Signals were extracted from incoming observations.'',
      trace_step ''Evidence Generation'' ''Structured evidence was generated from signals.'',
      trace_step ''Hypothesis Generation'' ''Candidate hypotheses were generated from evidence.'',
      trace_step ''Assessment'' ''Signals and hypotheses were assessed factually.'',
      trace_step ''Confidence'' ''Confidence in the assessment was scored deterministically.'',
      trace_step ''Explanation'' ''A structured explanation was generated from artifacts.'',
      trace_step ''Planning'' ''The assessment was translated into a decision plan.'',
      trace_step ''Trend Detected'' ''A directional trend was derived from the readings.'',
      trace_step ''Variation Detected'' ''The variability of the observations was measured.'',
      trace_step ''Relationship Analysis''
        ''Cross-measurement correlations and contradictions were evaluated.'',
      trace_step ''Operational Context Built'' ''The situational frame for reasoning was established.'',
      trace_step ''Expectations Evaluated'' ''Declared expectations were compared against evidence.'',
      trace_step ''Situation Assessed'' ''Signals and goal were combined into a situation.'',
      trace_step ''Decision Context Created'' ''A decision context snapshotted the planner inputs.'',
      trace_step ''Decision Planned'' ''A decision plan was produced from the context.'',
      trace_step ''Action Recorded'' ''An action was recorded from the decision plan.'',
      trace_step ''Outcome Recorded'' ''An outcome was recorded from the action.'']"

text \<open>\<^verbatim>\<open>for observation in observations: publish; save\<close>.\<close>

fun ingest_observations :: "Observation list \<Rightarrow> unit effect" where
  "ingest_observations [] = eff_return ()"
| "ingest_observations (ob # obs) =
     eff_bind (publish_if (ObservationRecorded (obs_id ob) (obs_timestamp ob))) (\<lambda>_.
     eff_bind (save_observation ob) (\<lambda>_. ingest_observations obs))"

definition required_artifacts ::
    "ReasoningArtifacts \<Rightarrow>
     (ReasoningSignals \<times> OperationalSituation \<times> StructuredAssessment \<times> PlanningContext \<times>
      DecisionContext \<times> DecisionPlan) result" where
  "required_artifacts a =
     (case (ra_signals a, Option.bind (ra_assessment_summary a) as_situation,
            ra_structured_assessment a, ra_planning_context a, ra_decision_context a,
            ra_decision_plan a) of
        (Some sg, Some st, Some sa, Some pc, Some dc, Some dp) \<Rightarrow> Ok (sg, st, sa, pc, dc, dp)
      | _ \<Rightarrow> Err (RuntimeError ''explicit reasoning pipeline did not populate required artifacts''))"

definition persist_results ::
    "OperationalSituation \<Rightarrow> DecisionContext \<Rightarrow> DecisionPlan \<Rightarrow> unit effect" where
  "persist_results situation context plan =
     eff_bind (\<lambda>s. case ss_events s of
                     None \<Rightarrow> (Ok (), s)
                   | Some _ \<Rightarrow> eff_bind eff_utc_now
                       (\<lambda>now. publish_if (OperationalSituationCreated (sit_id situation) now)) s) (\<lambda>_.
     eff_bind (save_situation situation) (\<lambda>_.
     eff_bind (publish_if (DecisionContextCreated (dc_id context) (dc_created_at context))) (\<lambda>_.
     eff_bind (save_context context) (\<lambda>_.
     eff_bind (publish_if (DecisionPlanGenerated (plan_id plan) (plan_created_at plan))) (\<lambda>_.
     save_plan plan)))))"

definition window_of :: "ReasoningSessionConfig \<Rightarrow> Observation list \<Rightarrow> Observation list result" where
  "window_of config observations =
     (case cfg_observation_window config of
        None \<Rightarrow> Ok observations | Some w \<Rightarrow> bound_recent_observations observations w)"

text \<open>The run after its registration, then the whole run.\<close>

definition run_body ::
    "OperationalProfile \<Rightarrow> ReasoningSessionConfig \<Rightarrow> OperationalGoal \<Rightarrow> Observation list \<Rightarrow>
     ReasoningRun \<Rightarrow> ReasoningResult effect" where
  "run_body profile config goal observations run =
     eff_bind (eff_lift (window_of config observations)) (\<lambda>observations.
     eff_bind (ingest_observations observations) (\<lambda>_.
     let context0 = with_metadata (Some (run_id run))
           \<lparr>rc_goal = goal, rc_observations = observations, rc_profile = profile,
            rc_artifacts = no_artifacts, rc_run_id = None\<rparr>
     in eff_bind (eff_rt (run_stages reasoning_stages context0)) (\<lambda>reasoning_context.
     eff_bind (eff_lift (required_artifacts (rc_artifacts reasoning_context)))
       (\<lambda>(signals, situation, structured, planning_context, context, plan).
     eff_bind (persist_results situation context plan) (\<lambda>_.
     eff_bind (eff_rt (record_action plan)) (\<lambda>action.
     eff_bind (eff_rt (record_outcome action)) (\<lambda>outcome.
     eff_bind (save_index
       \<lparr>idx_run_id = run_id run, idx_observation_ids = map obs_id observations,
        idx_situation_id = sit_id situation, idx_context_id = dc_id context,
        idx_plan_id = plan_id plan, idx_action_id = act_id action, idx_outcome_id = out_id outcome,
        idx_asset_id = (if observations \<noteq> [] then obs_asset_id (hd observations) else [])\<rparr>) (\<lambda>_.
     eff_return
       \<lparr>rr_run = run, rr_trend = rs_trend signals, rr_variation = rs_variation signals,
        rr_situation = situation, rr_context = context, rr_plan = plan, rr_action = action,
        rr_outcome = outcome, rr_trace = session_trace,
        rr_operational_context = rs_operational_context signals,
        rr_expectation_analysis = rs_expectation_analysis signals,
        rr_structured_assessment = structured, rr_planning_context = planning_context,
        rr_reasoning_context = reasoning_context\<rparr>))))))))"

definition session_run ::
    "OperationalProfile \<Rightarrow> ReasoningSessionConfig \<Rightarrow> OperationalGoal \<Rightarrow> Observation list \<Rightarrow>
     ReasoningResult effect" where
  "session_run profile config goal observations =
     eff_bind eff_uuid4 (\<lambda>i.
     eff_bind eff_utc_now (\<lambda>now.
     let run = \<lparr>run_id = i, run_started_at = now\<rparr>
     in eff_bind (save_run run) (\<lambda>_.
        eff_bind (register_run run) (\<lambda>_.
        run_body profile config goal observations run))))"

definition run_from_source ::
    "OperationalProfile \<Rightarrow> ReasoningSessionConfig \<Rightarrow> OperationalGoal \<Rightarrow> Observation list result \<Rightarrow>
     ReasoningResult effect" where
  "run_from_source profile config goal source =
     eff_bind (eff_lift source) (session_run profile config goal)"

section \<open>Observation pipeline and monitoring\<close>

definition pipeline_group :: "Observation list \<Rightarrow> ObservationGroup result" where
  "pipeline_group observations =
     (if observations = [] then Err (ValueError ''at least one observation is required'')
      else mk_observation_group (obs_asset_id (hd observations)) observations)"

definition pipeline_process ::
    "OperationalProfile \<Rightarrow> ReasoningSessionConfig \<Rightarrow> OperationalGoal \<Rightarrow> Observation list result \<Rightarrow>
     ReasoningResult effect" where
  "pipeline_process profile config goal source =
     eff_bind (eff_lift source) (\<lambda>observations. session_run profile config goal observations)"

type_synonym MonitoringTimeline = "ReasoningResult list"

definition timeline_append :: "MonitoringTimeline \<Rightarrow> ReasoningResult \<Rightarrow> MonitoringTimeline" where
  "timeline_append runs result = runs @ [result]"

definition timeline_latest :: "MonitoringTimeline \<Rightarrow> ReasoningResult option" where
  "timeline_latest runs = (if runs = [] then None else Some (last runs))"

definition timeline_previous :: "MonitoringTimeline \<Rightarrow> ReasoningResult option" where
  "timeline_previous runs = (if length runs < 2 then None else Some (runs ! (length runs - 2)))"

fun monitoring_loop ::
    "OperationalProfile \<Rightarrow> ReasoningSessionConfig \<Rightarrow> OperationalGoal \<Rightarrow> MonitoringTimeline \<Rightarrow>
     Observation list result list \<Rightarrow> MonitoringTimeline effect" where
  "monitoring_loop profile config goal timeline [] = eff_return timeline"
| "monitoring_loop profile config goal timeline (source # sources) =
     eff_bind (pipeline_process profile config goal source) (\<lambda>result.
     monitoring_loop profile config goal (timeline_append timeline result) sources)"

definition monitoring_process ::
    "OperationalProfile \<Rightarrow> ReasoningSessionConfig \<Rightarrow> OperationalGoal \<Rightarrow>
     Observation list result list \<Rightarrow> MonitoringTimeline effect" where
  "monitoring_process profile config goal sources = monitoring_loop profile config goal [] sources"

section \<open>Effects: what a step can change\<close>

lemma eff_bind_Ok:
  "eff_bind m f s = (Inr y, s') \<longleftrightarrow> (\<exists>x s1. m s = (Inr x, s1) \<and> f x s1 = (Inr y, s'))"
  by (cases "m s"; cases "fst (m s)") (auto simp: eff_bind_def)

text \<open>A relation between states that every step keeps is kept by the sequence.\<close>

definition keeps :: "(session_state \<Rightarrow> session_state \<Rightarrow> bool) \<Rightarrow> 'a effect \<Rightarrow> bool" where
  "keeps R m \<longleftrightarrow> (\<forall>s. R s (snd (m s)))"

lemma keeps_return [intro]: "(\<And>s. R s s) \<Longrightarrow> keeps R (eff_return x)"
  by (simp add: keeps_def eff_return_def)

lemma keeps_lift [intro]: "(\<And>s. R s s) \<Longrightarrow> keeps R (eff_lift r)"
  by (simp add: keeps_def eff_lift_def)

lemma keeps_bind [intro]:
  assumes "\<And>a b c. R a b \<Longrightarrow> R b c \<Longrightarrow> R a c" and "keeps R m" and "\<And>x. keeps R (f x)"
  shows "keeps R (eff_bind m f)"
  unfolding keeps_def
proof
  fix s
  obtain r1 s1 where m: "m s = (r1, s1)" by (cases "m s")
  have "R s s1" using assms(2) m unfolding keeps_def by (metis snd_conv)
  moreover have "R s1 (snd (f x s1))" for x using assms(3) by (simp add: keeps_def)
  ultimately show "R s (snd (eff_bind m f s))"
    using assms(1) by (cases r1) (auto simp: eff_bind_def m)
qed

text \<open>Nothing persisted is ever lost or changed, and events are only appended.\<close>

definition repo_grows :: "('r \<Rightarrow> string \<Rightarrow> 'v option) \<Rightarrow> 'r option \<Rightarrow> 'r option \<Rightarrow> bool" where
  "repo_grows get a b \<longleftrightarrow>
     (case (a, b) of
        (None, None) \<Rightarrow> True
      | (Some r, Some r') \<Rightarrow> (\<forall>k v. get r k = Some v \<longrightarrow> get r' k = Some v)
      | _ \<Rightarrow> False)"

definition state_grows :: "session_state \<Rightarrow> session_state \<Rightarrow> bool" where
  "state_grows s t \<longleftrightarrow>
     repo_grows run_get (ss_runs s) (ss_runs t) \<and>
     repo_grows observation_get (ss_observations s) (ss_observations t) \<and>
     repo_grows situation_get (ss_situations s) (ss_situations t) \<and>
     repo_grows context_get (ss_contexts s) (ss_contexts t) \<and>
     repo_grows plan_get (ss_plans s) (ss_plans t) \<and>
     repo_grows run_index_get (ss_indexes s) (ss_indexes t) \<and>
     (case (ss_events s, ss_events t) of
        (None, None) \<Rightarrow> True | (Some a, Some b) \<Rightarrow> prefix a b | _ \<Rightarrow> False)"

lemma repo_grows_refl [simp]: "repo_grows get a a"
  by (simp add: repo_grows_def split: option.splits)

lemma repo_grows_trans: "repo_grows get a b \<Longrightarrow> repo_grows get b c \<Longrightarrow> repo_grows get a c"
  by (auto simp: repo_grows_def split: option.splits)

lemma state_grows_refl [simp]: "state_grows s s"
  by (simp add: state_grows_def split: option.splits)

lemma state_grows_trans: "state_grows a b \<Longrightarrow> state_grows b c \<Longrightarrow> state_grows a c"
  unfolding state_grows_def
  by (auto elim: repo_grows_trans split: option.splits intro: prefix_order.trans)

text \<open>Saving in one repository is growth of the whole state.\<close>

lemma repo_grows_save:
  assumes "write_once_store emp get save ident" and "save v r = Inr r'"
  shows "repo_grows get (Some r) (Some r')"
  using write_once_store.never_overwritten [OF assms] by (auto simp: repo_grows_def)

lemmas store_axioms = obs_store.write_once_store_axioms sit_store.write_once_store_axioms
  ctx_store.write_once_store_axioms plan_store.write_once_store_axioms
  run_store.write_once_store_axioms idx_store.write_once_store_axioms

lemma grows_save_run [intro]: "keeps state_grows (save_run run)"
  using repo_grows_save [OF run_store.write_once_store_axioms]
  by (auto simp: keeps_def save_run_def save_if_def state_grows_def split: option.splits sum.splits)

lemma grows_register [intro]: "keeps state_grows (register_run run)"
  by (auto simp: keeps_def register_run_def save_if_def state_grows_def split: option.splits sum.splits)

lemma grows_save_observation [intro]: "keeps state_grows (save_observation ob)"
  using repo_grows_save [OF obs_store.write_once_store_axioms]
  by (auto simp: keeps_def save_observation_def save_if_def state_grows_def split: option.splits sum.splits)

lemma grows_save_situation [intro]: "keeps state_grows (save_situation st)"
  using repo_grows_save [OF sit_store.write_once_store_axioms]
  by (auto simp: keeps_def save_situation_def save_if_def state_grows_def split: option.splits sum.splits)

lemma grows_save_context [intro]: "keeps state_grows (save_context c)"
  using repo_grows_save [OF ctx_store.write_once_store_axioms]
  by (auto simp: keeps_def save_context_def save_if_def state_grows_def split: option.splits sum.splits)

lemma grows_save_plan [intro]: "keeps state_grows (save_plan p)"
  using repo_grows_save [OF plan_store.write_once_store_axioms]
  by (auto simp: keeps_def save_plan_def save_if_def state_grows_def split: option.splits sum.splits)

lemma grows_save_index [intro]: "keeps state_grows (save_index i)"
  using repo_grows_save [OF idx_store.write_once_store_axioms]
  by (auto simp: keeps_def save_index_def save_if_def state_grows_def split: option.splits sum.splits)

lemma grows_publish [intro]: "keeps state_grows (publish_if ev)"
  by (auto simp: keeps_def publish_if_def state_grows_def split: option.splits)

lemma state_grows_rt [simp]: "state_grows s (s\<lparr>ss_rt := rt\<rparr>)"
  by (simp add: state_grows_def split: option.splits)

lemma grows_rt [intro]: "keeps state_grows (eff_rt f)" "keeps state_grows eff_uuid4"
    "keeps state_grows eff_utc_now"
  by (auto simp: keeps_def eff_rt_def eff_uuid4_def eff_utc_now_def split: sum.splits prod.splits)

lemma grows_bind [intro]:
  "keeps state_grows m \<Longrightarrow> (\<And>x. keeps state_grows (f x)) \<Longrightarrow> keeps state_grows (eff_bind m f)"
  by (rule keeps_bind) (blast intro: state_grows_trans)+

lemma grows_return [intro]: "keeps state_grows (eff_return x)" "keeps state_grows (eff_lift r)"
  by (auto simp: keeps_def eff_return_def eff_lift_def)

lemma grows_ingest [intro]: "keeps state_grows (ingest_observations obs)"
  by (induction obs) auto

lemma grows_persist [intro]: "keeps state_grows (persist_results st c p)"
proof -
  have "keeps state_grows (\<lambda>s. case ss_events s of None \<Rightarrow> (Ok (), s)
      | Some _ \<Rightarrow> eff_bind eff_utc_now (\<lambda>now. publish_if (OperationalSituationCreated i now)) s)" for i
  proof -
    have "keeps state_grows (eff_bind eff_utc_now (\<lambda>now. publish_if (OperationalSituationCreated i now)))"
      by auto
    then show ?thesis by (auto simp: keeps_def split: option.splits)
  qed
  then show ?thesis unfolding persist_results_def by (intro grows_bind) auto
qed

lemma run_body_grows [intro]: "keeps state_grows (run_body profile config goal obs run)"
  unfolding run_body_def Let_def by (intro grows_bind) (auto split: prod.splits intro!: grows_bind)

lemma session_run_grows: "state_grows s (snd (session_run profile config goal obs s))"
proof -
  have "keeps state_grows (session_run profile config goal obs)"
    unfolding session_run_def Let_def by (intro grows_bind) auto
  then show ?thesis by (simp add: keeps_def)
qed

lemma monitoring_grows: "state_grows s (snd (monitoring_process profile config goal sources s))"
proof -
  have "keeps state_grows (session_run profile config goal obs)" for obs
    by (simp add: keeps_def session_run_grows)
  then have "keeps state_grows (monitoring_loop profile config goal tl' sources)" for tl'
    by (induction sources arbitrary: tl') (auto simp: pipeline_process_def)
  then show ?thesis by (simp add: keeps_def monitoring_process_def)
qed

section \<open>What a successful run leaves behind\<close>

definition persistent :: "session_state \<Rightarrow> bool" where
  "persistent s \<longleftrightarrow> ss_runs s \<noteq> None \<and> ss_observations s \<noteq> None \<and> ss_situations s \<noteq> None \<and>
     ss_contexts s \<noteq> None \<and> ss_plans s \<noteq> None \<and> ss_indexes s \<noteq> None"

definition holds_in :: "('r \<Rightarrow> string \<Rightarrow> 'v option) \<Rightarrow> 'r option \<Rightarrow> string \<Rightarrow> 'v \<Rightarrow> bool" where
  "holds_in get repo k v \<longleftrightarrow> (\<exists>r. repo = Some r \<and> get r k = Some v)"

lemma holds_in_grows: "repo_grows get a b \<Longrightarrow> holds_in get a k v \<Longrightarrow> holds_in get b k v"
  by (auto simp: holds_in_def repo_grows_def split: option.splits)

lemma state_growsD:
  assumes "state_grows s t"
  shows "repo_grows run_get (ss_runs s) (ss_runs t)"
    and "repo_grows observation_get (ss_observations s) (ss_observations t)"
    and "repo_grows situation_get (ss_situations s) (ss_situations t)"
    and "repo_grows context_get (ss_contexts s) (ss_contexts t)"
    and "repo_grows plan_get (ss_plans s) (ss_plans t)"
    and "repo_grows run_index_get (ss_indexes s) (ss_indexes t)"
  using assms by (auto simp: state_grows_def)

lemma persistent_grows: "state_grows s t \<Longrightarrow> persistent s \<Longrightarrow> persistent t"
  by (auto simp: persistent_def state_grows_def repo_grows_def split: option.splits)

lemma keepsD: "keeps R m \<Longrightarrow> m s = (r, t) \<Longrightarrow> R s t"
  unfolding keeps_def by (metis snd_conv)

lemma save_if_Ok:
  "save_if repo set_repo save s = (Inr u, s') \<Longrightarrow> repo s = Some r \<Longrightarrow>
     \<exists>r'. save r = Inr r' \<and> s' = set_repo (Some r') s"
  by (auto simp: save_if_def split: sum.splits)

lemma save_run_stored:
  "persistent s \<Longrightarrow> save_run run s = (Inr u, t) \<Longrightarrow> holds_in run_get (ss_runs t) (run_id run) run"
  by (auto simp: persistent_def save_run_def holds_in_def dest!: save_if_Ok
      intro: run_store.read_your_write)

lemma save_observation_stored:
  "persistent s \<Longrightarrow> save_observation ob s = (Inr u, t) \<Longrightarrow>
     holds_in observation_get (ss_observations t) (obs_id ob) ob"
  by (auto simp: persistent_def save_observation_def holds_in_def dest!: save_if_Ok
      intro: obs_store.read_your_write)

lemma save_situation_stored:
  "persistent s \<Longrightarrow> save_situation x s = (Inr u, t) \<Longrightarrow>
     holds_in situation_get (ss_situations t) (sit_id x) x"
  by (auto simp: persistent_def save_situation_def holds_in_def dest!: save_if_Ok
      intro: sit_store.read_your_write)

lemma save_context_stored:
  "persistent s \<Longrightarrow> save_context x s = (Inr u, t) \<Longrightarrow> holds_in context_get (ss_contexts t) (dc_id x) x"
  by (auto simp: persistent_def save_context_def holds_in_def dest!: save_if_Ok
      intro: ctx_store.read_your_write)

lemma save_plan_stored:
  "persistent s \<Longrightarrow> save_plan x s = (Inr u, t) \<Longrightarrow> holds_in plan_get (ss_plans t) (plan_id x) x"
  by (auto simp: persistent_def save_plan_def holds_in_def dest!: save_if_Ok
      intro: plan_store.read_your_write)

lemma save_index_stored:
  "persistent s \<Longrightarrow> save_index x s = (Inr u, t) \<Longrightarrow>
     holds_in run_index_get (ss_indexes t) (idx_run_id x) x"
  by (auto simp: persistent_def save_index_def holds_in_def dest!: save_if_Ok
      intro: idx_store.read_your_write)

lemma ingest_stored:
  "persistent s \<Longrightarrow> ingest_observations obs s = (Inr u, t) \<Longrightarrow> ob \<in> set obs \<Longrightarrow>
     holds_in observation_get (ss_observations t) (obs_id ob) ob"
proof (induction obs arbitrary: s)
  case Nil
  then show ?case by simp
next
  case (Cons x obs)
  then obtain s1 s2 where s1: "publish_if (ObservationRecorded (obs_id x) (obs_timestamp x)) s = (Inr (), s1)"
    and s2: "save_observation x s1 = (Inr (), s2)" and t: "ingest_observations obs s2 = (Inr u, t)"
    by (auto simp: eff_bind_Ok)
  have p1: "persistent s1" using keepsD [OF grows_publish s1] Cons.prems(1) by (rule persistent_grows)
  then have p2: "persistent s2" using keepsD [OF grows_save_observation s2] persistent_grows by blast
  show ?case
  proof (cases "ob \<in> set obs")
    case True
    with Cons.IH [OF p2 t] show ?thesis by simp
  next
    case False
    with Cons.prems(3) have "ob = x" by simp
    with save_observation_stored [OF p1 s2] state_growsD(2) [OF keepsD [OF grows_ingest t]]
    show ?thesis by (auto intro: holds_in_grows)
  qed
qed

lemma persist_stored:
  assumes "persistent s" and "persist_results st c p s = (Inr u, t)"
  shows "holds_in situation_get (ss_situations t) (sit_id st) st"
    and "holds_in context_get (ss_contexts t) (dc_id c) c"
    and "holds_in plan_get (ss_plans t) (plan_id p) p"
proof -
  from assms(2) obtain s1 s2 s3 s4 s5 where
    e1: "(case ss_events s of None \<Rightarrow> (Ok (), s) | Some _ \<Rightarrow> eff_bind eff_utc_now
        (\<lambda>now. publish_if (OperationalSituationCreated (sit_id st) now)) s) = (Inr (), s1)" and
    e2: "save_situation st s1 = (Inr (), s2)" and
    e3: "publish_if (DecisionContextCreated (dc_id c) (dc_created_at c)) s2 = (Inr (), s3)" and
    e4: "save_context c s3 = (Inr (), s4)" and
    e5: "publish_if (DecisionPlanGenerated (plan_id p) (plan_created_at p)) s4 = (Inr (), s5)" and
    e6: "save_plan p s5 = (Inr u, t)"
    by (auto simp: persist_results_def eff_bind_Ok)
  have "keeps state_grows (eff_bind eff_utc_now
      (\<lambda>now. publish_if (OperationalSituationCreated (sit_id st) now)))" by auto
  then have g1: "state_grows s s1"
    using e1 by (auto split: option.splits dest: keepsD)
  note g2 = keepsD [OF grows_save_situation e2] and g3 = keepsD [OF grows_publish e3]
    and g4 = keepsD [OF grows_save_context e4] and g5 = keepsD [OF grows_publish e5]
    and g6 = keepsD [OF grows_save_plan e6]
  have p1: "persistent s1" using g1 assms(1) persistent_grows by blast
  have p3: "persistent s3" using p1 g2 g3 persistent_grows by blast
  have p5: "persistent s5" using p3 g4 g5 persistent_grows by blast
  have t2: "state_grows s2 t" and t4: "state_grows s4 t"
    using g3 g4 g5 g6 state_grows_trans by blast+
  show "holds_in situation_get (ss_situations t) (sit_id st) st"
    using holds_in_grows [OF state_growsD(3) [OF t2] save_situation_stored [OF p1 e2]] .
  show "holds_in context_get (ss_contexts t) (dc_id c) c"
    using holds_in_grows [OF state_growsD(4) [OF t4] save_context_stored [OF p3 e4]] .
  show "holds_in plan_get (ss_plans t) (plan_id p) p"
    using save_plan_stored [OF p5 e6] .
qed

text \<open>The steps of a successful run.\<close>

lemma session_run_decompose:
  assumes "session_run profile config goal observations s = (Inr res, t)"
  obtains i now obs c0 s1 s2 s3 s4 s5 s6 s7 s8 s9 rc st dc dp act out idx where
    "eff_uuid4 s = (Inr i, s1)" "eff_utc_now s1 = (Inr now, s2)"
    "save_run \<lparr>run_id = i, run_started_at = now\<rparr> s2 = (Inr (), s3)"
    "register_run \<lparr>run_id = i, run_started_at = now\<rparr> s3 = (Inr (), s4)"
    "window_of config observations = Ok obs"
    "ingest_observations obs s4 = (Inr (), s5)"
    "eff_rt (run_stages reasoning_stages c0) s5 = (Inr rc, s6)"
    "persist_results st dc dp s6 = (Inr (), s7)"
    "eff_rt (record_action dp) s7 = (Inr act, s8)"
    "eff_rt (record_outcome act) s8 = (Inr out, s9)"
    "save_index idx s9 = (Inr (), t)"
    "idx_run_id idx = i" "idx_observation_ids idx = map obs_id obs"
    "idx_situation_id idx = sit_id st" "idx_context_id idx = dc_id dc" "idx_plan_id idx = plan_id dp"
    "rr_run res = \<lparr>run_id = i, run_started_at = now\<rparr>" "rr_situation res = st"
    "rr_context res = dc" "rr_plan res = dp"
  using assms that unfolding session_run_def run_body_def Let_def
  by (force simp: eff_bind_Ok eff_lift_def eff_return_def)

lemma session_run_stored:
  assumes "persistent s" and "session_run profile config goal observations s = (Inr res, t)"
  shows "\<exists>obs idx. window_of config observations = Ok obs \<and>
    holds_in run_get (ss_runs t) (run_id (rr_run res)) (rr_run res) \<and>
    (\<forall>ob\<in>set obs. holds_in observation_get (ss_observations t) (obs_id ob) ob) \<and>
    holds_in situation_get (ss_situations t) (sit_id (rr_situation res)) (rr_situation res) \<and>
    holds_in context_get (ss_contexts t) (dc_id (rr_context res)) (rr_context res) \<and>
    holds_in plan_get (ss_plans t) (plan_id (rr_plan res)) (rr_plan res) \<and>
    holds_in run_index_get (ss_indexes t) (run_id (rr_run res)) idx \<and>
    idx_observation_ids idx = map obs_id obs \<and> idx_situation_id idx = sit_id (rr_situation res) \<and>
    idx_context_id idx = dc_id (rr_context res) \<and> idx_plan_id idx = plan_id (rr_plan res)"
proof -
  from session_run_decompose [OF assms(2)]
  obtain i now obs c0 s1 s2 s3 s4 s5 s6 s7 s8 s9 rc st dc dp act out idx where
    e1: "eff_uuid4 s = (Inr i, s1)" and e2: "eff_utc_now s1 = (Inr now, s2)" and
    e3: "save_run \<lparr>run_id = i, run_started_at = now\<rparr> s2 = (Inr (), s3)" and
    e4: "register_run \<lparr>run_id = i, run_started_at = now\<rparr> s3 = (Inr (), s4)" and
    w: "window_of config observations = Ok obs" and
    e5: "ingest_observations obs s4 = (Inr (), s5)" and
    e6: "eff_rt (run_stages reasoning_stages c0) s5 = (Inr rc, s6)" and
    e7: "persist_results st dc dp s6 = (Inr (), s7)" and
    e8: "eff_rt (record_action dp) s7 = (Inr act, s8)" and
    e9: "eff_rt (record_outcome act) s8 = (Inr out, s9)" and
    e10: "save_index idx s9 = (Inr (), t)" and
    ix: "idx_run_id idx = i" "idx_observation_ids idx = map obs_id obs"
      "idx_situation_id idx = sit_id st" "idx_context_id idx = dc_id dc" "idx_plan_id idx = plan_id dp" and
    res: "rr_run res = \<lparr>run_id = i, run_started_at = now\<rparr>" "rr_situation res = st"
      "rr_context res = dc" "rr_plan res = dp" .
  note g = keepsD [OF grows_rt(2) e1] keepsD [OF grows_rt(3) e2] keepsD [OF grows_save_run e3]
    keepsD [OF grows_register e4] keepsD [OF grows_ingest e5] keepsD [OF grows_rt(1) e6]
    keepsD [OF grows_persist e7] keepsD [OF grows_rt(1) e8] keepsD [OF grows_rt(1) e9]
    keepsD [OF grows_save_index e10]
  have p2: "persistent s2" using assms(1) g(1,2) persistent_grows by blast
  have p4: "persistent s4" using p2 g(3,4) persistent_grows by blast
  have p6: "persistent s6" using p4 g(5,6) persistent_grows by blast
  have p9: "persistent s9" using p6 g(7,8,9) persistent_grows by blast
  have t7: "state_grows s7 t" using g(8,9,10) state_grows_trans by blast
  have t5: "state_grows s5 t" using t7 g(6,7) state_grows_trans by blast
  have t3: "state_grows s3 t" using t5 g(4,5) state_grows_trans by blast
  have "holds_in run_get (ss_runs t) i \<lparr>run_id = i, run_started_at = now\<rparr>"
    using holds_in_grows [OF state_growsD(1) [OF t3] save_run_stored [OF p2 e3]] by simp
  moreover have "\<forall>ob\<in>set obs. holds_in observation_get (ss_observations t) (obs_id ob) ob"
    using holds_in_grows [OF state_growsD(2) [OF t5] ingest_stored [OF p4 e5]] by blast
  moreover have "holds_in situation_get (ss_situations t) (sit_id st) st"
    "holds_in context_get (ss_contexts t) (dc_id dc) dc" "holds_in plan_get (ss_plans t) (plan_id dp) dp"
    using holds_in_grows [OF state_growsD(3) [OF t7] persist_stored(1) [OF p6 e7]]
      holds_in_grows [OF state_growsD(4) [OF t7] persist_stored(2) [OF p6 e7]]
      holds_in_grows [OF state_growsD(5) [OF t7] persist_stored(3) [OF p6 e7]] by blast+
  moreover have "holds_in run_index_get (ss_indexes t) i idx"
    using save_index_stored [OF p9 e10] ix(1) by simp
  ultimately show ?thesis using w ix res by auto
qed

section \<open>Which steps touch the registry and the run indexes\<close>

text \<open>Between registration and the final index write, no step changes the registry or the indexes.\<close>

definition same_books :: "session_state \<Rightarrow> session_state \<Rightarrow> bool" where
  "same_books s t \<longleftrightarrow> ss_registry t = ss_registry s \<and> ss_indexes t = ss_indexes s"

lemma same_books_trans: "same_books a b \<Longrightarrow> same_books b c \<Longrightarrow> same_books a c"
  by (simp add: same_books_def)

lemma same_books_bind:
  "keeps same_books m \<Longrightarrow> (\<And>x. keeps same_books (f x)) \<Longrightarrow> keeps same_books (eff_bind m f)"
  by (rule keeps_bind) (blast intro: same_books_trans)+

lemma same_books_basic:
  "keeps same_books (save_run run)" "keeps same_books (save_observation ob)"
  "keeps same_books (save_situation st)" "keeps same_books (save_context c)"
  "keeps same_books (save_plan p)" "keeps same_books (publish_if ev)" "keeps same_books (eff_rt f)"
  "keeps same_books eff_uuid4" "keeps same_books eff_utc_now" "keeps same_books (eff_return x)"
  "keeps same_books (eff_lift l)"
  by (auto simp: keeps_def same_books_def save_if_def save_run_def save_observation_def
      save_situation_def save_context_def save_plan_def publish_if_def eff_rt_def eff_uuid4_def
      eff_utc_now_def eff_return_def eff_lift_def split: option.splits sum.splits prod.splits)

lemma same_books_ingest: "keeps same_books (ingest_observations obs)"
  by (induction obs) (simp_all add: same_books_basic same_books_bind)

lemma same_books_persist: "keeps same_books (persist_results st c p)"
proof -
  have "keeps same_books (\<lambda>s. case ss_events s of None \<Rightarrow> (Ok (), s)
      | Some _ \<Rightarrow> eff_bind eff_utc_now (\<lambda>now. publish_if (OperationalSituationCreated i now)) s)" for i
  proof -
    have "keeps same_books (eff_bind eff_utc_now (\<lambda>now. publish_if (OperationalSituationCreated i now)))"
      by (simp add: same_books_basic same_books_bind)
    then show ?thesis by (auto simp: keeps_def same_books_def split: option.splits)
  qed
  then show ?thesis
    unfolding persist_results_def by (intro same_books_bind) (simp_all add: same_books_basic)
qed

lemma eff_bind_Err:
  "eff_bind m f s = (Inl e, s') \<longleftrightarrow>
     m s = (Inl e, s') \<or> (\<exists>x s1. m s = (Inr x, s1) \<and> f x s1 = (Inl e, s'))"
  by (cases "m s"; cases "fst (m s)") (auto simp: eff_bind_def)

lemma save_index_Err: "save_index i s = (Inl e, t) \<Longrightarrow> t = s"
  by (auto simp: save_index_def save_if_def split: option.splits sum.splits)

definition fails_keeping_books :: "'a effect \<Rightarrow> bool" where
  "fails_keeping_books m \<longleftrightarrow> (\<forall>s e t. m s = (Inl e, t) \<longrightarrow> same_books s t)"

lemma fails_keeping_bind:
  assumes "keeps same_books m" and "\<And>x. fails_keeping_books (f x)"
  shows "fails_keeping_books (eff_bind m f)"
  unfolding fails_keeping_books_def eff_bind_Err
  using keepsD [OF assms(1)] assms(2) same_books_trans unfolding fails_keeping_books_def by blast

lemma fails_keeping_index: "fails_keeping_books (eff_bind (save_index i) (\<lambda>_. eff_return r))"
  unfolding fails_keeping_books_def eff_bind_Err
  by (auto simp: eff_return_def same_books_def dest: save_index_Err)

lemma fails_keeping_case:
  "(\<And>a b. fails_keeping_books (f a b)) \<Longrightarrow> fails_keeping_books (case p of (a, b) \<Rightarrow> f a b)"
  by (cases p) simp

text \<open>A run that fails after its registration leaves no index behind.\<close>

lemma run_body_failure:
  assumes "run_body profile config goal observations run s = (Inl e, t)"
  shows "same_books s t"
proof -
  have "fails_keeping_books (run_body profile config goal observations run)"
    unfolding run_body_def Let_def
    by (rule fails_keeping_index fails_keeping_case fails_keeping_bind
        same_books_basic same_books_ingest same_books_persist)+
  with assms show ?thesis by (simp add: fails_keeping_books_def)
qed

section \<open>Events\<close>

definition same_events :: "session_state \<Rightarrow> session_state \<Rightarrow> bool" where
  "same_events s t \<longleftrightarrow> ss_events t = ss_events s"

lemma same_events_basic:
  "keeps same_events (save_run run)" "keeps same_events (register_run run)"
  "keeps same_events (save_observation ob)" "keeps same_events (save_situation st)"
  "keeps same_events (save_context c)" "keeps same_events (save_plan p)"
  "keeps same_events (save_index i)" "keeps same_events (eff_rt f)"
  "keeps same_events eff_uuid4" "keeps same_events eff_utc_now"
  by (auto simp: keeps_def same_events_def save_if_def save_run_def register_run_def
      save_observation_def save_situation_def save_context_def save_plan_def save_index_def
      eff_rt_def eff_uuid4_def eff_utc_now_def split: option.splits sum.splits prod.splits)

lemmas same_eventsD = same_events_basic [THEN keepsD, unfolded same_events_def]

lemma publish_events:
  "publish_if ev s = (r, t) \<Longrightarrow> ss_events s = Some evs \<Longrightarrow> ss_events t = Some (evs @ [ev])"
  by (auto simp: publish_if_def)

definition recorded :: "Observation \<Rightarrow> DomainEvent" where
  "recorded ob = ObservationRecorded (obs_id ob) (obs_timestamp ob)"

lemma ingest_events:
  "ingest_observations obs s = (Inr u, t) \<Longrightarrow> ss_events s = Some evs \<Longrightarrow>
     ss_events t = Some (evs @ map recorded obs)"
proof (induction obs arbitrary: s evs)
  case Nil
  then show ?case by (simp add: eff_return_def)
next
  case (Cons x obs)
  then obtain s1 s2 where s1: "publish_if (ObservationRecorded (obs_id x) (obs_timestamp x)) s = (Inr (), s1)"
    and s2: "save_observation x s1 = (Inr (), s2)" and t: "ingest_observations obs s2 = (Inr u, t)"
    by (auto simp: eff_bind_Ok)
  have "ss_events s2 = Some (evs @ [recorded x])"
    using publish_events [OF s1 Cons.prems(2)] same_eventsD(3) [OF s2] by (simp add: recorded_def)
  from Cons.IH [OF t this] show ?case by simp
qed

lemma persist_events:
  assumes "persist_results st c p s = (Inr u, t)" and "ss_events s = Some evs"
  shows "\<exists>now. ss_events t = Some (evs @ [OperationalSituationCreated (sit_id st) now,
    DecisionContextCreated (dc_id c) (dc_created_at c), DecisionPlanGenerated (plan_id p) (plan_created_at p)])"
proof -
  from assms obtain s0 now s1 s2 s3 s4 s5 where
    e0: "eff_utc_now s = (Inr now, s0)" and
    e1: "publish_if (OperationalSituationCreated (sit_id st) now) s0 = (Inr (), s1)" and
    e2: "save_situation st s1 = (Inr (), s2)" and
    e3: "publish_if (DecisionContextCreated (dc_id c) (dc_created_at c)) s2 = (Inr (), s3)" and
    e4: "save_context c s3 = (Inr (), s4)" and
    e5: "publish_if (DecisionPlanGenerated (plan_id p) (plan_created_at p)) s4 = (Inr (), s5)" and
    e6: "save_plan p s5 = (Inr u, t)"
    by (auto simp: persist_results_def eff_bind_Ok)
  have "ss_events s2 = Some (evs @ [OperationalSituationCreated (sit_id st) now])"
    using publish_events [OF e1] same_eventsD(10) [OF e0] same_eventsD(4) [OF e2] assms(2) by simp
  then have "ss_events s4 = Some ((evs @ [OperationalSituationCreated (sit_id st) now]) @
      [DecisionContextCreated (dc_id c) (dc_created_at c)])"
    using publish_events [OF e3] same_eventsD(5) [OF e4] by simp
  from publish_events [OF e5 this] same_eventsD(6) [OF e6] show ?thesis by simp
qed

section \<open>Properties\<close>

definition demo_state :: session_state where
  "demo_state = \<lparr>ss_rt = demo_runtime, ss_runs = Some [], ss_registry = Some empty_registry,
     ss_observations = Some [], ss_situations = Some [], ss_contexts = Some [], ss_plans = Some [],
     ss_indexes = Some [], ss_events = Some []\<rparr>"

definition demo_config :: ReasoningSessionConfig where
  "demo_config = \<lparr>cfg_observation_window = None\<rparr>"

definition demo_run :: "ReasoningResult result \<times> session_state" where
  "demo_run = session_run default_operational_profile demo_config demo_goal
     (demo_series ''current'' [1, 2]) demo_state"

lemma demo_run_Ok: "\<exists>res t. demo_run = (Inr res, t)"
proof -
  have "(case fst demo_run of Inr _ \<Rightarrow> True | Inl _ \<Rightarrow> False)" by code_simp
  then obtain res where "fst demo_run = Inr res" by (cases "fst demo_run") simp_all
  then show ?thesis by (metis prod.collapse)
qed

text \<open>
  A successful run publishes exactly its events, in order: one ObservationRecorded per
  reasoned observation in window order, then the situation, the decision context and the plan
  it returns, appended to the events published before.
\<close>

theorem session_event_order:
  assumes "session_run profile config goal observations s = (Inr res, t)" and "ss_events s = Some evs"
  shows "\<exists>obs now. window_of config observations = Ok obs \<and>
    ss_events t = Some (evs @ map (\<lambda>ob. ObservationRecorded (obs_id ob) (obs_timestamp ob)) obs @
      [OperationalSituationCreated (sit_id (rr_situation res)) now,
       DecisionContextCreated (dc_id (rr_context res)) (dc_created_at (rr_context res)),
       DecisionPlanGenerated (plan_id (rr_plan res)) (plan_created_at (rr_plan res))])"
proof -
  from session_run_decompose [OF assms(1)]
  obtain i now obs c0 s1 s2 s3 s4 s5 s6 s7 s8 s9 rc st dc dp act out idx where
    e: "eff_uuid4 s = (Inr i, s1)" "eff_utc_now s1 = (Inr now, s2)"
      "save_run \<lparr>run_id = i, run_started_at = now\<rparr> s2 = (Inr (), s3)"
      "register_run \<lparr>run_id = i, run_started_at = now\<rparr> s3 = (Inr (), s4)" and
    w: "window_of config observations = Ok obs" and
    e5: "ingest_observations obs s4 = (Inr (), s5)" and
    e6: "eff_rt (run_stages reasoning_stages c0) s5 = (Inr rc, s6)" and
    e7: "persist_results st dc dp s6 = (Inr (), s7)" and
    f: "eff_rt (record_action dp) s7 = (Inr act, s8)" "eff_rt (record_outcome act) s8 = (Inr out, s9)"
      "save_index idx s9 = (Inr (), t)" and
    res: "rr_situation res = st" "rr_context res = dc" "rr_plan res = dp" .
  have "ss_events s4 = Some evs"
    using assms(2) same_eventsD(9) [OF e(1)] same_eventsD(10) [OF e(2)] same_eventsD(1) [OF e(3)]
      same_eventsD(2) [OF e(4)] by simp
  then have "ss_events s6 = Some (evs @ map recorded obs)"
    using ingest_events [OF e5] same_eventsD(8) [OF e6] by simp
  from persist_events [OF e7 this] show ?thesis
    using w res same_eventsD(8) [OF f(1)] same_eventsD(8) [OF f(2)] same_eventsD(7) [OF f(3)]
    by (auto simp: recorded_def [abs_def])
qed

lemma session_event_order_witness:
  "\<exists>res t evs. demo_run = (Inr res, t) \<and> ss_events t = Some evs \<and> length evs = 5"
proof -
  obtain res t where r: "demo_run = (Inr res, t)" using demo_run_Ok by blast
  have "ss_events demo_state = Some []" by (simp add: demo_state_def)
  from session_event_order [OF r [unfolded demo_run_def] this] obtain evs where
    "ss_events t = Some evs" "length evs = 5"
    by (auto simp: window_of_def demo_config_def demo_series_def)
  with r show ?thesis by blast
qed


end
