(* ===== verification/Reasoning_History.thy ===== *)
theory Reasoning_History
  imports Reasoning_Session
begin

text \<open>
  Replay and history (\<^verbatim>\<open>src/src/application\<close>): reconstruction of a run from the repositories, run
  history, comparison, escalation, recurrence, stability, operational summary, attention queue
  and timeline trend. The analyzers receive the replayer and the history as their constructors
  do; the locale \<open>run_archive\<close> states what they rely on, and it is interpreted on the
  replayer over the session's repositories.
\<close>

section \<open>Replay\<close>

record ReplayResult =
  rp_run :: ReasoningRun
  rp_observations :: "Observation list"
  rp_situation :: OperationalSituation
  rp_context :: DecisionContext
  rp_plan :: DecisionPlan
  rp_trend :: "DetectedTrend option"
  rp_variation :: "DetectedVariation option"
  rp_events :: "DomainEvent list"

definition from_execution ::
    "ReasoningResult \<Rightarrow> Observation list \<Rightarrow> DomainEvent list \<Rightarrow> ReplayResult" where
  "from_execution result observations events =
     \<lparr>rp_run = rr_run result, rp_observations = observations, rp_situation = rr_situation result,
      rp_context = rr_context result, rp_plan = rr_plan result,
      rp_trend = Some (rr_trend result), rp_variation = Some (rr_variation result),
      rp_events = events\<rparr>"

definition from_persisted ::
    "ReasoningRun \<Rightarrow> Observation list \<Rightarrow> OperationalSituation \<Rightarrow> DecisionContext \<Rightarrow> DecisionPlan \<Rightarrow>
     ReplayResult" where
  "from_persisted run observations situation context plan =
     \<lparr>rp_run = run, rp_observations = observations, rp_situation = situation, rp_context = context,
      rp_plan = plan, rp_trend = None, rp_variation = None, rp_events = []\<rparr>"

record archive =
  ar_runs :: run_repo
  ar_indexes :: index_repo
  ar_observations :: observation_repo
  ar_situations :: situation_repo
  ar_contexts :: context_repo
  ar_plans :: plan_repo
  ar_registry :: registry_repo

definition load_or :: "string \<Rightarrow> string \<Rightarrow> 'v option \<Rightarrow> 'v result" where
  "load_or what i v =
     (case v of None \<Rightarrow> Err (ValueError (what @ '' with id '' @ py_repr i @ '' does not exist''))
      | Some x \<Rightarrow> Ok x)"

definition load_observation :: "archive \<Rightarrow> string \<Rightarrow> Observation result" where
  "load_observation a i = load_or ''observation'' i (observation_get (ar_observations a) i)"

definition load_situation :: "archive \<Rightarrow> string \<Rightarrow> OperationalSituation result" where
  "load_situation a i = load_or ''situation'' i (situation_get (ar_situations a) i)"

definition load_context :: "archive \<Rightarrow> string \<Rightarrow> DecisionContext result" where
  "load_context a i = load_or ''decision context'' i (context_get (ar_contexts a) i)"

definition load_plan :: "archive \<Rightarrow> string \<Rightarrow> DecisionPlan result" where
  "load_plan a i = load_or ''decision plan'' i (plan_get (ar_plans a) i)"

definition replay :: "archive \<Rightarrow> string \<Rightarrow> ReplayResult result" where
  "replay a rid =
     (case run_get (ar_runs a) rid of
        None \<Rightarrow> Err (ValueError (''reasoning run with id '' @ py_repr rid @ '' does not exist''))
      | Some run \<Rightarrow>
          (case run_index_get (ar_indexes a) rid of
             None \<Rightarrow> Err (ValueError (''reasoning run index for run id '' @ py_repr rid @
                                      '' does not exist''))
           | Some index \<Rightarrow>
               res_bind (res_map (load_observation a) (idx_observation_ids index)) (\<lambda>observations.
               res_bind (load_situation a (idx_situation_id index)) (\<lambda>situation.
               res_bind (load_context a (idx_context_id index)) (\<lambda>context.
               res_bind (load_plan a (idx_plan_id index)) (\<lambda>plan.
               Ok (from_persisted run observations situation context plan)))))))"

definition list_runs :: "archive \<Rightarrow> ReasoningRun list result" where
  "list_runs a =
     res_map (\<lambda>entry. case run_get (ar_runs a) (reg_run_id entry) of
                 None \<Rightarrow> Err (ValueError (''reasoning run with id '' @ py_repr (reg_run_id entry) @
                                          '' does not exist''))
               | Some run \<Rightarrow> Ok run)
       (registry_list (ar_registry a))"

section \<open>Comparison, escalation and stability\<close>

text \<open>
  From here on, \<open>rep\<close> is the replayer's \<^verbatim>\<open>replay\<close> and \<open>runs\<close> the outcome of
  \<^verbatim>\<open>history.list_runs()\<close>.
\<close>

record ReasoningComparison =
  cmp_left_run_id :: string
  cmp_right_run_id :: string
  cmp_observation_count_changed :: bool
  cmp_assessment_changed :: bool
  cmp_priority_changed :: bool
  cmp_recommendation_changed :: bool

definition compare_runs ::
    "(string \<Rightarrow> ReplayResult result) \<Rightarrow> string \<Rightarrow> string \<Rightarrow> ReasoningComparison result" where
  "compare_runs rep left_id right_id =
     res_bind (rep left_id) (\<lambda>left. res_bind (rep right_id) (\<lambda>right.
     Ok \<lparr>cmp_left_run_id = left_id, cmp_right_run_id = right_id,
         cmp_observation_count_changed =
           (length (rp_observations left) \<noteq> length (rp_observations right)),
         cmp_assessment_changed =
           (sit_assessment (rp_situation left) \<noteq> sit_assessment (rp_situation right)),
         cmp_priority_changed = (plan_priority (rp_plan left) \<noteq> plan_priority (rp_plan right)),
         cmp_recommendation_changed =
           (plan_recommendation (rp_plan left) \<noteq> plan_recommendation (rp_plan right))\<rparr>))"

fun priority_rank :: "Priority \<Rightarrow> nat" where
  "priority_rank PRI_LOW = 0"
| "priority_rank PRI_MEDIUM = 1"
| "priority_rank PRI_HIGH = 2"
| "priority_rank PRI_CRITICAL = 3"

lemma priority_rank_inject [simp]: "priority_rank p = priority_rank q \<longleftrightarrow> p = q"
  by (cases p; cases q) simp_all

text \<open>The order of priorities is the order of their ranks.\<close>

instantiation Priority :: linorder
begin

definition less_eq_Priority :: "Priority \<Rightarrow> Priority \<Rightarrow> bool" where
  "less_eq_Priority p q \<longleftrightarrow> priority_rank p \<le> priority_rank q"

definition less_Priority :: "Priority \<Rightarrow> Priority \<Rightarrow> bool" where
  "less_Priority p q \<longleftrightarrow> priority_rank p < priority_rank q"

instance
  by standard (auto simp: less_eq_Priority_def less_Priority_def)

end

record EscalationAnalysis =
  esc_previous_run_id :: string
  esc_current_run_id :: string
  esc_priority_escalated :: bool
  esc_priority_deescalated :: bool
  esc_priority_unchanged :: bool

definition escalation_analyze ::
    "(string \<Rightarrow> ReplayResult result) \<Rightarrow> string \<Rightarrow> string \<Rightarrow> EscalationAnalysis result" where
  "escalation_analyze rep previous_id current_id =
     res_bind (rep previous_id) (\<lambda>previous. res_bind (rep current_id) (\<lambda>current.
     let previous_rank = priority_rank (plan_priority (rp_plan previous));
         current_rank = priority_rank (plan_priority (rp_plan current))
     in Ok \<lparr>esc_previous_run_id = previous_id, esc_current_run_id = current_id,
            esc_priority_escalated = (current_rank > previous_rank),
            esc_priority_deescalated = (current_rank < previous_rank),
            esc_priority_unchanged = (current_rank = previous_rank)\<rparr>))"

record StabilityAnalysis =
  sta_previous_run_id :: string
  sta_current_run_id :: string
  sta_became_more_stable :: bool
  sta_became_less_stable :: bool
  sta_stability_unchanged :: bool

definition stability_analyze ::
    "(string \<Rightarrow> ReplayResult result) \<Rightarrow> string \<Rightarrow> string \<Rightarrow> StabilityAnalysis result" where
  "stability_analyze rep previous_id current_id =
     res_bind (rep previous_id) (\<lambda>previous. res_bind (rep current_id) (\<lambda>current.
     let previous_unstable = py_in ''unstable'' (sit_assessment (rp_situation previous));
         current_unstable = py_in ''unstable'' (sit_assessment (rp_situation current))
     in Ok \<lparr>sta_previous_run_id = previous_id, sta_current_run_id = current_id,
            sta_became_more_stable = (previous_unstable \<and> \<not> current_unstable),
            sta_became_less_stable = (\<not> previous_unstable \<and> current_unstable),
            sta_stability_unchanged = (previous_unstable = current_unstable)\<rparr>))"

section \<open>Recurrence\<close>

record RecurrenceAnalysis =
  rec_current_run_id :: string
  rec_previous_matching_run_ids :: "string list"
  rec_is_recurring :: bool
  rec_recurrence_count :: nat

definition is_recurrence :: "ReplayResult \<Rightarrow> ReplayResult \<Rightarrow> bool" where
  "is_recurrence current earlier \<longleftrightarrow>
     sit_assessment (rp_situation current) = sit_assessment (rp_situation earlier) \<and>
     plan_priority (rp_plan current) = plan_priority (rp_plan earlier)"

fun matching_runs ::
    "(string \<Rightarrow> ReplayResult result) \<Rightarrow> string \<Rightarrow> ReplayResult \<Rightarrow> ReasoningRun list \<Rightarrow>
     string list result" where
  "matching_runs rep current_id current [] = Ok []"
| "matching_runs rep current_id current (run # runs) =
     (if run_id run = current_id then Ok []
      else res_bind (rep (run_id run)) (\<lambda>earlier.
           res_bind (matching_runs rep current_id current runs) (\<lambda>rest.
           Ok (if is_recurrence current earlier then run_id run # rest else rest))))"

definition recurrence_analyze ::
    "(string \<Rightarrow> ReplayResult result) \<Rightarrow> ReasoningRun list result \<Rightarrow> string \<Rightarrow>
     RecurrenceAnalysis result" where
  "recurrence_analyze rep history current_id =
     res_bind history (\<lambda>runs.
     res_bind (rep current_id) (\<lambda>current.
     res_bind (matching_runs rep current_id current runs) (\<lambda>matching.
     Ok \<lparr>rec_current_run_id = current_id, rec_previous_matching_run_ids = matching,
         rec_is_recurring = (length matching > 0), rec_recurrence_count = length matching\<rparr>)))"

section \<open>Operational summary\<close>

record OperationalSummary =
  os_run_id :: string
  os_assessment :: string
  os_priority :: Priority
  os_recommendation :: string
  os_is_recurring :: bool
  os_recurrence_count :: nat
  os_priority_escalated :: bool
  os_priority_deescalated :: bool
  os_became_more_stable :: bool
  os_became_less_stable :: bool

fun previous_run_id :: "string option \<Rightarrow> string \<Rightarrow> ReasoningRun list \<Rightarrow> string option" where
  "previous_run_id before rid [] = None"
| "previous_run_id before rid (run # runs) =
     (if run_id run = rid then before else previous_run_id (Some (run_id run)) rid runs)"

definition find_previous_run_id :: "ReasoningRun list result \<Rightarrow> string \<Rightarrow> string option result" where
  "find_previous_run_id history rid =
     res_bind history (\<lambda>runs. Ok (previous_run_id None rid runs))"

definition summarize ::
    "(string \<Rightarrow> ReplayResult result) \<Rightarrow> ReasoningRun list result \<Rightarrow> string \<Rightarrow>
     OperationalSummary result" where
  "summarize rep history rid =
     res_bind (rep rid) (\<lambda>rp.
     res_bind (recurrence_analyze rep history rid) (\<lambda>recurrence.
     res_bind (find_previous_run_id history rid) (\<lambda>previous.
     res_bind (case previous of
                 None \<Rightarrow> Ok (False, False, False, False)
               | Some pid \<Rightarrow>
                   res_bind (escalation_analyze rep pid rid) (\<lambda>escalation.
                   res_bind (stability_analyze rep pid rid) (\<lambda>stability.
                   Ok (esc_priority_escalated escalation, esc_priority_deescalated escalation,
                       sta_became_more_stable stability, sta_became_less_stable stability))))
       (\<lambda>(escalated, deescalated, more_stable, less_stable).
     Ok \<lparr>os_run_id = rid, os_assessment = sit_assessment (rp_situation rp),
         os_priority = plan_priority (rp_plan rp),
         os_recommendation = plan_recommendation (rp_plan rp),
         os_is_recurring = rec_is_recurring recurrence,
         os_recurrence_count = rec_recurrence_count recurrence,
         os_priority_escalated = escalated, os_priority_deescalated = deescalated,
         os_became_more_stable = more_stable, os_became_less_stable = less_stable\<rparr>))))"

section \<open>Attention queue\<close>

fun priority_attention_score :: "Priority \<Rightarrow> int" where
  "priority_attention_score PRI_LOW = 1"
| "priority_attention_score PRI_MEDIUM = 2"
| "priority_attention_score PRI_HIGH = 3"
| "priority_attention_score PRI_CRITICAL = 4"

definition attention_score :: "OperationalSummary \<Rightarrow> int" where
  "attention_score summary =
     priority_attention_score (os_priority summary) +
     (if os_is_recurring summary then 1 else 0) +
     (if os_priority_escalated summary then 1 else 0)"

record AttentionItem =
  ai_run_id :: string
  ai_priority :: Priority
  ai_is_recurring :: bool
  ai_recurrence_count :: nat
  ai_priority_escalated :: bool
  ai_attention_score :: int

definition attention_item :: "OperationalSummary \<Rightarrow> AttentionItem" where
  "attention_item summary =
     \<lparr>ai_run_id = os_run_id summary, ai_priority = os_priority summary,
      ai_is_recurring = os_is_recurring summary,
      ai_recurrence_count = os_recurrence_count summary,
      ai_priority_escalated = os_priority_escalated summary,
      ai_attention_score = attention_score summary\<rparr>"

definition attention_rank ::
    "(string \<Rightarrow> ReplayResult result) \<Rightarrow> ReasoningRun list result \<Rightarrow> AttentionItem list result" where
  "attention_rank rep history =
     res_bind history (\<lambda>runs.
     res_bind (res_map (\<lambda>(index, run).
                 res_bind (summarize rep history (run_id run)) (\<lambda>summary.
                 Ok (index, attention_item summary)))
                (zip [0..<length runs] runs)) (\<lambda>indexed_items.
     Ok (map snd (sorted_by (\<lambda>(index, item). (- ai_attention_score item, - int index))
                   indexed_items))))"

section \<open>Timeline trend\<close>

definition timeline_trend :: "MonitoringTimeline \<Rightarrow> string" where
  "timeline_trend timeline =
     (if length timeline < 2 then ''stable''
      else let first_rank = priority_rank (plan_priority (rr_plan (hd timeline)));
               last_rank = priority_rank (plan_priority (rr_plan (last timeline)))
           in if last_rank > first_rank then ''worsening''
              else if last_rank < first_rank then ''improving'' else ''stable'')"

section \<open>Replaying what a session stored\<close>

definition archive_of :: "session_state \<Rightarrow> archive" where
  "archive_of s =
     \<lparr>ar_runs = the (ss_runs s), ar_indexes = the (ss_indexes s),
      ar_observations = the (ss_observations s), ar_situations = the (ss_situations s),
      ar_contexts = the (ss_contexts s), ar_plans = the (ss_plans s),
      ar_registry = the (ss_registry s)\<rparr>"

lemma load_stored:
  "holds_in observation_get (ss_observations t) i ob \<Longrightarrow> load_observation (archive_of t) i = Ok ob"
  "holds_in situation_get (ss_situations t) i st \<Longrightarrow> load_situation (archive_of t) i = Ok st"
  "holds_in context_get (ss_contexts t) i c \<Longrightarrow> load_context (archive_of t) i = Ok c"
  "holds_in plan_get (ss_plans t) i p \<Longrightarrow> load_plan (archive_of t) i = Ok p"
  by (auto simp: holds_in_def archive_of_def load_or_def load_observation_def load_situation_def
      load_context_def load_plan_def)

lemma replay_stored:
  assumes "holds_in run_get (ss_runs t) (run_id run) run"
    and "holds_in run_index_get (ss_indexes t) (run_id run) idx"
    and "\<forall>ob\<in>set obs. holds_in observation_get (ss_observations t) (obs_id ob) ob"
    and "holds_in situation_get (ss_situations t) (idx_situation_id idx) st"
    and "holds_in context_get (ss_contexts t) (idx_context_id idx) c"
    and "holds_in plan_get (ss_plans t) (idx_plan_id idx) p"
    and "idx_observation_ids idx = map obs_id obs"
  shows "replay (archive_of t) (run_id run) = Ok (from_persisted run obs st c p)"
proof -
  have "res_map (load_observation (archive_of t)) (map obs_id obs) = Ok obs"
    using assms(3) by (induction obs) (auto simp: load_stored(1))
  moreover have "run_get (ar_runs (archive_of t)) (run_id run) = Some run"
    "run_index_get (ar_indexes (archive_of t)) (run_id run) = Some idx"
    using assms(1,2) by (auto simp: holds_in_def archive_of_def)
  ultimately show ?thesis
    using assms(7) load_stored(2-4) assms(4-6) by (simp add: replay_def)
qed

lemma session_run_replays:
  assumes "persistent s" and "session_run profile config goal observations s = (Inr res, t)"
  shows "\<exists>obs. window_of config observations = Ok obs \<and>
    replay (archive_of t) (run_id (rr_run res)) =
      Ok (from_persisted (rr_run res) obs (rr_situation res) (rr_context res) (rr_plan res))"
proof -
  from session_run_stored [OF assms] obtain obs idx where
    w: "window_of config observations = Ok obs" and
    h: "holds_in run_get (ss_runs t) (run_id (rr_run res)) (rr_run res)"
      "holds_in run_index_get (ss_indexes t) (run_id (rr_run res)) idx"
      "\<forall>ob\<in>set obs. holds_in observation_get (ss_observations t) (obs_id ob) ob"
      "holds_in situation_get (ss_situations t) (idx_situation_id idx) (rr_situation res)"
      "holds_in context_get (ss_contexts t) (idx_context_id idx) (rr_context res)"
      "holds_in plan_get (ss_plans t) (idx_plan_id idx) (rr_plan res)"
      "idx_observation_ids idx = map obs_id obs"
    by auto
  from w replay_stored [OF h] show ?thesis by blast
qed

text \<open>A successful replay only read stored artifacts, so it survives any growth of the store.\<close>

lemma load_or_Ok [simp]: "load_or what i v = Ok x \<longleftrightarrow> v = Some x"
  by (simp add: load_or_def split: option.splits)

lemma persistent_Some:
  assumes "persistent s"
  shows "ss_runs s = Some (ar_runs (archive_of s))" "ss_indexes s = Some (ar_indexes (archive_of s))"
    "ss_observations s = Some (ar_observations (archive_of s))"
    "ss_situations s = Some (ar_situations (archive_of s))"
    "ss_contexts s = Some (ar_contexts (archive_of s))" "ss_plans s = Some (ar_plans (archive_of s))"
  using assms by (auto simp: persistent_def archive_of_def)

lemma archive_grows:
  assumes "state_grows s t" and "persistent s"
  shows "run_get (ar_runs (archive_of s)) i = Some a \<Longrightarrow> run_get (ar_runs (archive_of t)) i = Some a"
    and "run_index_get (ar_indexes (archive_of s)) i = Some b \<Longrightarrow>
      run_index_get (ar_indexes (archive_of t)) i = Some b"
    and "observation_get (ar_observations (archive_of s)) i = Some c \<Longrightarrow>
      observation_get (ar_observations (archive_of t)) i = Some c"
    and "situation_get (ar_situations (archive_of s)) i = Some d \<Longrightarrow>
      situation_get (ar_situations (archive_of t)) i = Some d"
    and "context_get (ar_contexts (archive_of s)) i = Some e \<Longrightarrow>
      context_get (ar_contexts (archive_of t)) i = Some e"
    and "plan_get (ar_plans (archive_of s)) i = Some f \<Longrightarrow> plan_get (ar_plans (archive_of t)) i = Some f"
  using state_growsD [OF assms(1)]
  unfolding persistent_Some [OF assms(2)] persistent_Some [OF persistent_grows [OF assms]]
  by (auto simp: repo_grows_def)

lemma replay_grows:
  assumes "state_grows s t" and "persistent s" and "replay (archive_of s) rid = Ok rp"
  shows "replay (archive_of t) rid = Ok rp"
proof -
  from assms(3) obtain run idx obs st c p where
    run: "run_get (ar_runs (archive_of s)) rid = Some run" and
    idx: "run_index_get (ar_indexes (archive_of s)) rid = Some idx" and
    obs: "res_map (load_observation (archive_of s)) (idx_observation_ids idx) = Ok obs" and
    l: "load_situation (archive_of s) (idx_situation_id idx) = Ok st"
      "load_context (archive_of s) (idx_context_id idx) = Ok c"
      "load_plan (archive_of s) (idx_plan_id idx) = Ok p" and
    rp: "rp = from_persisted run obs st c p"
    by (auto simp: replay_def res_bind_Ok_iff split: option.splits)
  note g = archive_grows [OF assms(1,2)]
  have "res_map (load_observation (archive_of t)) (idx_observation_ids idx) = Ok obs"
    using obs unfolding res_map_Ok_iff load_observation_def load_or_Ok
    by (rule list_all2_mono) (rule g(3))
  moreover have "load_situation (archive_of t) (idx_situation_id idx) = Ok st"
    "load_context (archive_of t) (idx_context_id idx) = Ok c"
    "load_plan (archive_of t) (idx_plan_id idx) = Ok p"
    using l g(4-6) unfolding load_situation_def load_context_def load_plan_def load_or_Ok by blast+
  ultimately show ?thesis
    using g(1) [OF run] g(2) [OF idx] by (simp add: replay_def rp)
qed

section \<open>The archive as the analyzers see it\<close>

text \<open>
  An archive is healthy when registered runs have distinct ids and each replays to itself.
\<close>

definition healthy :: "archive \<Rightarrow> bool" where
  "healthy a \<longleftrightarrow> distinct (map reg_run_id (registry_list (ar_registry a))) \<and>
     list_all (\<lambda>e. (\<exists>run. run_get (ar_runs a) (reg_run_id e) = Some run \<and> run_id run = reg_run_id e) \<and>
                   (\<exists>rp. replay a (reg_run_id e) = Ok rp)) (registry_list (ar_registry a))"

locale run_archive =
  fixes runs_of :: "'st \<Rightarrow> ReasoningRun list result"
    and rep_of :: "'st \<Rightarrow> string \<Rightarrow> ReplayResult result"
    and ok :: "'st \<Rightarrow> bool"
  assumes runs_total: "ok st \<Longrightarrow> \<exists>runs. runs_of st = Ok runs \<and> distinct (map run_id runs) \<and>
      (\<forall>run\<in>set runs. \<exists>rp. rep_of st (run_id run) = Ok rp)"
begin

lemma matching_runs_total:
  assumes "\<forall>run\<in>set runs. \<exists>rp. rep_of st (run_id run) = Ok rp"
  shows "\<exists>ids. matching_runs (rep_of st) rid current runs = Ok ids \<and>
    ids = map run_id (filter (\<lambda>run. \<exists>rp. rep_of st (run_id run) = Ok rp \<and> is_recurrence current rp)
            (takeWhile (\<lambda>run. run_id run \<noteq> rid) runs))"
  using assms by (induction runs) (force simp: res_bind_Ok_iff)+

lemma previous_run_id_member:
  "previous_run_id before rid runs = Some pid \<Longrightarrow> before = Some pid \<or> pid \<in> run_id ` set runs"
  by (induction runs arbitrary: before) (force split: if_splits)+

lemma summarize_total:
  assumes "runs_of st = Ok runs" and "\<forall>run\<in>set runs. \<exists>rp. rep_of st (run_id run) = Ok rp"
    and "run \<in> set runs"
  shows "\<exists>sm. summarize (rep_of st) (runs_of st) (run_id run) = Ok sm \<and> os_run_id sm = run_id run"
proof -
  let ?r = "rep_of st" and ?rid = "run_id run"
  obtain rp where rp: "?r ?rid = Ok rp" using assms(2,3) by blast
  obtain ids where "matching_runs ?r ?rid rp runs = Ok ids"
    using matching_runs_total [OF assms(2)] by blast
  then have rc: "\<exists>rc. recurrence_analyze ?r (runs_of st) ?rid = Ok rc"
    using rp assms(1) by (simp add: recurrence_analyze_def)
  have prev: "\<exists>rp'. ?r pid = Ok rp'" if "previous_run_id None ?rid runs = Some pid" for pid
    using previous_run_id_member [OF that] assms(2) by auto
  show ?thesis
    using rc rp assms(1) prev
    by (cases "previous_run_id None ?rid runs")
      (auto simp: summarize_def find_previous_run_id_def escalation_analyze_def stability_analyze_def
        Let_def)
qed

text \<open>Ranking a healthy archive succeeds, mentions every run once, and is sorted by score.\<close>

lemma attention_rank_sorted:
  assumes "ok st"
  shows "\<exists>runs items. runs_of st = Ok runs \<and> attention_rank (rep_of st) (runs_of st) = Ok items \<and>
    mset (map ai_run_id items) = mset (map run_id runs) \<and>
    sorted_wrt (\<ge>) (map ai_attention_score items)"
proof -
  obtain runs where runs: "runs_of st = Ok runs"
    and reps: "\<forall>run\<in>set runs. \<exists>rp. rep_of st (run_id run) = Ok rp"
    using runs_total [OF assms] by blast
  let ?f = "\<lambda>(index, run). res_bind (summarize (rep_of st) (runs_of st) (run_id run))
      (\<lambda>summary. Ok (index, attention_item summary))"
  let ?key = "\<lambda>(index, item). (- ai_attention_score item, - int index)"
  have "\<exists>its. res_map ?f (zip [0..<length runs] runs) = Ok its \<and>
      list_all2 (\<lambda>p q. ai_run_id (snd q) = run_id (snd p)) (zip [0..<length runs] runs) its"
  proof (rule res_map_choice)
    fix p assume "p \<in> set (zip [0..<length runs] runs)"
    then have "snd p \<in> set runs" by (metis in_set_zipE prod.collapse)
    from summarize_total [OF runs reps this]
    show "\<exists>q. ?f p = Ok q \<and> ai_run_id (snd q) = run_id (snd p)"
      by (cases p) (auto simp: attention_item_def)
  qed
  then obtain its where its: "res_map ?f (zip [0..<length runs] runs) = Ok its"
    and all2: "list_all2 (\<lambda>p q. ai_run_id (snd q) = run_id (snd p)) (zip [0..<length runs] runs) its"
    by blast
  have ids: "map (\<lambda>q. ai_run_id (snd q)) its = map run_id runs"
    using map_all2 [OF all2] by (simp add: map_snd_zip flip: map_map [unfolded comp_def])
  let ?items = "map snd (sorted_by ?key its)"
  have "attention_rank (rep_of st) (runs_of st) = Ok ?items"
    using its runs by (simp add: attention_rank_def)
  moreover have "mset (map ai_run_id ?items) = mset (map run_id runs)"
    by (simp add: ids [symmetric] comp_def)
  moreover have "sorted_wrt (\<ge>) (map ai_attention_score ?items)"
  proof -
    have "sorted (map ?key (sorted_by ?key its))" by (rule sorted_by_sorted)
    then have "sorted_wrt (\<lambda>p q. ?key p \<le> ?key q) (sorted_by ?key its)"
      by (simp add: sorted_map)
    then have "sorted_wrt (\<lambda>p q. ai_attention_score (snd q) \<le> ai_attention_score (snd p)) (sorted_by ?key its)"
      by (rule sorted_wrt_mono_rel [rotated]) (auto simp: less_eq_prod_def)
    then show ?thesis by (simp add: sorted_wrt_map)
  qed
  ultimately show ?thesis using runs by blast
qed

end

interpretation arch: run_archive list_runs replay healthy
proof
  fix a assume h: "healthy a"
  let ?es = "registry_list (ar_registry a)"
  let ?f = "\<lambda>entry. case run_get (ar_runs a) (reg_run_id entry) of
      None \<Rightarrow> Err (ValueError (''reasoning run with id '' @ py_repr (reg_run_id entry) @ '' does not exist''))
    | Some run \<Rightarrow> Ok run"
  have each: "\<exists>run. ?f e = Ok run \<and> run_id run = reg_run_id e" if "e \<in> set ?es" for e
    using h that by (auto simp: healthy_def list_all_iff)
  from res_map_choice [of ?es ?f "\<lambda>e run. run_id run = reg_run_id e", OF each]
  obtain runs where runs: "list_runs a = Ok runs"
    and all2: "list_all2 (\<lambda>e run. run_id run = reg_run_id e) ?es runs"
    unfolding list_runs_def by blast
  have ids: "map run_id runs = map reg_run_id ?es" by (rule map_all2 [OF all2])
  then have "\<forall>run\<in>set runs. \<exists>e\<in>set ?es. reg_run_id e = run_id run"
    by (metis imageE image_eqI list.set_map)
  then show "\<exists>runs. list_runs a = Ok runs \<and> distinct (map run_id runs) \<and>
      (\<forall>run\<in>set runs. \<exists>rp. replay a (run_id run) = Ok rp)"
    using runs ids h by (fastforce simp: healthy_def list_all_iff)
qed

section \<open>Failed runs\<close>

lemma list_all2_member: "list_all2 P xs ys \<Longrightarrow> x \<in> set xs \<Longrightarrow> \<exists>y\<in>set ys. P x y"
  by (induction rule: list_all2_induct) auto

lemma res_map_Err_member:
  assumes "x \<in> set xs" and "f x = Inl e"
  shows "\<exists>e'. res_map f xs = Inl e'"
proof (cases "res_map f xs")
  case (Inr ys)
  then have "list_all2 (\<lambda>x y. f x = Inr y) xs ys" by (simp add: res_map_Ok_iff)
  from list_all2_member [OF this assms(1)] assms(2) show ?thesis by auto
qed simp

lemma attention_rank_blocked:
  assumes "run \<in> set runs" and "rep (run_id run) = Inl e"
  shows "\<exists>e'. attention_rank rep (Ok runs) = Err e'"
proof -
  let ?f = "\<lambda>(index, run). res_bind (summarize rep (Ok runs) (run_id run))
      (\<lambda>summary. Ok (index, attention_item summary))"
  obtain k where k: "k < length runs" "runs ! k = run" using assms(1) by (metis in_set_conv_nth)
  then have "(k, run) \<in> set (zip [0..<length runs] runs)" by (force simp: set_zip)
  moreover have "?f (k, run) = Inl e" using assms(2) by (simp add: summarize_def)
  ultimately obtain e' where "res_map ?f (zip [0..<length runs] runs) = Inl e'"
    using res_map_Err_member [of "(k, run)" _ ?f e] by blast
  then show ?thesis by (simp add: attention_rank_def)
qed

lemma replay_unindexed: "run_index_get (ar_indexes a) rid = None \<Longrightarrow> \<exists>e. replay a rid = Err e"
  by (auto simp: replay_def split: option.splits)

lemma registered_run_listed:
  assumes "list_runs a = Ok runs" and "e \<in> set (registry_list (ar_registry a))"
    and "run_get (ar_runs a) (reg_run_id e) = Some run"
  shows "run \<in> set runs"
proof -
  have "list_all2 (\<lambda>e run. run_get (ar_runs a) (reg_run_id e) = Some run)
      (registry_list (ar_registry a)) runs"
    using assms(1) unfolding list_runs_def res_map_Ok_iff
    by (rule list_all2_mono) (auto split: option.splits)
  from list_all2_member [OF this assms(2)] assms(3) show ?thesis by auto
qed

section \<open>Properties\<close>

text \<open>
  C8. Replay round trip: after a successful run on a session with repositories, replaying the
  run id from the repositories returns exactly the run, the reasoned observations in order, the
  situation, the decision context and the plan the run returned.
\<close>

theorem replay_after_run:
  assumes "persistent s" and "session_run profile config goal observations s = (Inr res, t)"
  shows "\<exists>obs. window_of config observations = Ok obs \<and>
    replay (archive_of t) (run_id (rr_run res)) =
      Ok (from_persisted (rr_run res) obs (rr_situation res) (rr_context res) (rr_plan res))"
  by (rule session_run_replays [OF assms])

lemma replay_after_run_witness:
  "\<exists>res t. demo_run = (Inr res, t) \<and>
     (\<exists>rp. replay (archive_of t) (run_id (rr_run res)) = Ok rp \<and> length (rp_observations rp) = 2)"
proof -
  obtain res t where r: "demo_run = (Inr res, t)" using demo_run_Ok by blast
  have "persistent demo_state" by (simp add: persistent_def demo_state_def)
  from replay_after_run [OF this r [unfolded demo_run_def]]
  obtain obs where w: "window_of demo_config (demo_series ''current'' [1, 2]) = Ok obs"
    and rp: "replay (archive_of t) (run_id (rr_run res)) =
      Ok (from_persisted (rr_run res) obs (rr_situation res) (rr_context res) (rr_plan res))"
    by blast
  from w have "length obs = 2" by (auto simp: window_of_def demo_config_def demo_series_def)
  then have "length (rp_observations
      (from_persisted (rr_run res) obs (rr_situation res) (rr_context res) (rr_plan res))) = 2"
    by (simp add: from_persisted_def)
  with r rp show ?thesis by blast
qed

text \<open>
  The record of a run never changes: a run that replays keeps replaying to the same result
  after any further run, successful or not.
\<close>

theorem replay_is_immutable:
  assumes "persistent s" and "replay (archive_of s) rid = Ok rp"
  shows "replay (archive_of (snd (session_run profile config goal observations s))) rid = Ok rp"
  using replay_grows [OF session_run_grows assms] .

lemma replay_is_immutable_witness:
  "\<exists>res t rp. demo_run = (Inr res, t) \<and>
     replay (archive_of (snd (session_run default_operational_profile demo_config demo_goal [] t)))
       (run_id (rr_run res)) = Ok rp"
proof -
  obtain res t where r: "demo_run = (Inr res, t)" using demo_run_Ok by blast
  have p: "persistent demo_state" by (simp add: persistent_def demo_state_def)
  obtain rp where rp: "replay (archive_of t) (run_id (rr_run res)) = Ok rp"
    using session_run_replays [OF p r [unfolded demo_run_def]] by blast
  have "persistent t"
    using persistent_grows [OF session_run_grows p] r unfolding demo_run_def by (metis snd_conv)
  from replay_is_immutable [OF this rp] r show ?thesis by blast
qed



text \<open>
  A failed run disables the attention queue: when a run raises after its registration (its
  fresh id was stored and registered, and nothing is indexed under it), the archive lists a run
  that cannot be replayed and ranking raises.
\<close>

theorem failed_run_blocks_attention_queue:
  assumes "run_body profile config goal observations run s = (Inl e, t)"
    and "persistent s"
    and "run_get (ar_runs (archive_of s)) (run_id run) = Some run"
    and "\<lparr>reg_run_id = run_id run, reg_started_at = run_started_at run\<rparr> \<in>
      set (registry_list (ar_registry (archive_of s)))"
    and "run_index_get (ar_indexes (archive_of s)) (run_id run) = None"
  shows "\<exists>e'. attention_rank (replay (archive_of t)) (list_runs (archive_of t)) = Err e'"
proof (cases "list_runs (archive_of t)")
  case (Inl e')
  then show ?thesis by (simp add: attention_rank_def)
next
  case (Inr runs)
  have books: "same_books s t" by (rule run_body_failure [OF assms(1)])
  have grow: "state_grows s t"
    using assms(1) keepsD [OF run_body_grows] by blast
  have "run \<in> set runs"
    using registered_run_listed [OF Inr, of "\<lparr>reg_run_id = run_id run, reg_started_at = run_started_at run\<rparr>" run]
      assms(4) books archive_grows(1) [OF grow assms(2,3)]
    by (simp add: same_books_def archive_of_def)
  moreover have "run_index_get (ar_indexes (archive_of t)) (run_id run) = None"
    using assms(5) books by (simp add: same_books_def archive_of_def)
  then obtain e' where "replay (archive_of t) (run_id run) = Err e'" using replay_unindexed by blast
  ultimately show ?thesis using attention_rank_blocked [of run runs] Inr by simp
qed

definition demo_registered :: session_state where
  "demo_registered = demo_state\<lparr>
     ss_runs := Some [(''r'', \<lparr>run_id = ''r'', run_started_at = 0\<rparr>)],
     ss_registry := Some \<lparr>rg_entries = [\<lparr>reg_run_id = ''r'', reg_started_at = 0\<rparr>], rg_run_ids = [''r'']\<rparr>\<rparr>"

lemma failed_run_blocks_attention_queue_witness:
  "\<exists>e t e'. run_body default_operational_profile demo_config demo_goal [] \<lparr>run_id = ''r'', run_started_at = 0\<rparr>
      demo_registered = (Inl e, t) \<and>
     attention_rank (replay (archive_of t)) (list_runs (archive_of t)) = Err e'"
proof -
  obtain e t where r: "run_body default_operational_profile demo_config demo_goal []
      \<lparr>run_id = ''r'', run_started_at = 0\<rparr> demo_registered = (Inl e, t)"
    by (auto simp: run_body_def eff_bind_def eff_lift_def window_of_def demo_config_def eff_return_def
        Let_def eff_rt_def reasoning_stages_def run_stages_Cons signal_extraction_stage_def
        trend_detect_def with_metadata_def)
  have "persistent demo_registered" by (simp add: persistent_def demo_registered_def demo_state_def)
  from failed_run_blocks_attention_queue [OF r this] r show ?thesis
    by (fastforce simp: archive_of_def demo_registered_def demo_state_def run_get_def run_index_get_def
        registry_list_def)
qed

end
