(* ===== verification/Feature_Row.thy ===== *)
theory Feature_Row
  imports Repositories
begin

text \<open>
  One row of the fault-diagnosis features: \<^verbatim>\<open>config.py\<close>, \<^verbatim>\<open>raw_features.py\<close>, \<^verbatim>\<open>windows.py\<close>,
  \<^verbatim>\<open>cross_signal.py\<close>, \<^verbatim>\<open>safety.py\<close>, \<^verbatim>\<open>residuals.py\<close>, \<^verbatim>\<open>row.py\<close>, \<^verbatim>\<open>schema.py\<close> and
  \<^verbatim>\<open>exclusions.py\<close> under \<^verbatim>\<open>src/backend/simulator/dataset/features\<close>. Floats are finite, so the
  finiteness checks of the source never fire here; \<open>d ** 2\<close> is the rounded square. A row's value
  dictionary is the list of its entries in insertion order: the column names are pairwise distinct
  (lemma \<open>columns_distinct\<close>), so every assignment appends.
\<close>

section \<open>Policy constants\<close>

definition DT_SECONDS :: pyfloat where
  "DT_SECONDS = 10"

definition DEFAULT_MEASUREMENTS :: "string list" where
  "DEFAULT_MEASUREMENTS =
     [''stack_temperature'', ''stack_pressure'', ''current'', ''voltage'', ''fuel_flow'',
      ''power_output'', ''coolant_flow'']"

definition WINDOW_SECONDS :: "nat list" where
  "WINDOW_SECONDS = [30, 60, 120]"

definition WINDOW_STATS :: "string list" where
  "WINDOW_STATS = [''mean'', ''std'', ''min'', ''max'', ''slope'', ''delta'']"

text \<open>\<open>int(window_seconds / DT_SECONDS)\<close> with the longest window of 120 seconds.\<close>

definition window_samples :: "nat \<Rightarrow> nat" where
  "window_samples seconds = nat \<lfloor>fdiv (of_nat seconds) DT_SECONDS\<rfloor>"

definition LONGEST_WINDOW_SAMPLES :: nat where
  "LONGEST_WINDOW_SAMPLES = 12"

section \<open>Raw features and trailing windows\<close>

record RawSampleFeatures =
  raw_value :: pyfloat
  raw_diff :: pyfloat
  raw_rate :: pyfloat

definition compute_raw_features :: "pyfloat \<Rightarrow> pyfloat \<Rightarrow> RawSampleFeatures" where
  "compute_raw_features current_value previous_value =
     (let diff = fsub current_value previous_value
      in \<lparr>raw_value = current_value, raw_diff = diff, raw_rate = fdiv diff DT_SECONDS\<rparr>)"

type_synonym series = "(pyfloat \<times> pyfloat) list"

definition trailing_window :: "series \<Rightarrow> nat \<Rightarrow> nat \<Rightarrow> series result" where
  "trailing_window s current_index n =
     (if current_index + 1 < n
      then Err (ValueError (''incomplete window: need '' @ nat_str n @ '' samples ending at index '' @
             nat_str current_index @ '', but only '' @ nat_str (current_index + 1) @ '' are available''))
      else Ok (drop (current_index + 1 - n) (take (current_index + 1) s)))"

record WindowStats =
  ws_mean :: pyfloat
  ws_std :: pyfloat
  ws_minimum :: pyfloat
  ws_maximum :: pyfloat
  ws_slope :: pyfloat
  ws_delta :: pyfloat

definition window_stats_dict :: "WindowStats \<Rightarrow> (string, pyfloat) dict" where
  "window_stats_dict w =
     [(''mean'', ws_mean w), (''std'', ws_std w), (''min'', ws_minimum w), (''max'', ws_maximum w),
      (''slope'', ws_slope w), (''delta'', ws_delta w)]"

definition ols_slope :: "pyfloat list \<Rightarrow> pyfloat list \<Rightarrow> pyfloat result" where
  "ols_slope xs ys =
     (let mean_x = fmean xs;
          mean_y = fmean ys;
          numerator = py_sum (map (\<lambda>(x, y). fmul (fsub x mean_x) (fsub y mean_y)) (zip xs ys));
          denominator = py_sum (map (\<lambda>x. fmul (fsub x mean_x) (fsub x mean_x)) xs)
      in if denominator = 0 then Err ZeroDivisionError else Ok (fdiv numerator denominator))"

text \<open>\<open>fmean\<close> refuses an empty window; \<open>min\<close> and \<open>max\<close> return the first extremal value.\<close>

definition compute_window_stats :: "series \<Rightarrow> WindowStats result" where
  "compute_window_stats window =
     (let elapsed = map fst window; vals = map snd window
      in if vals = []
         then Err (AppError ''StatisticsError'' ''fmean requires at least one data point'')
         else res_bind (ols_slope elapsed vals) (\<lambda>slope.
           Ok \<lparr>ws_mean = fmean vals, ws_std = (if length vals > 1 then pstdev vals else 0),
               ws_minimum = Min (set vals), ws_maximum = Max (set vals), ws_slope = slope,
               ws_delta = fsub (last vals) (hd vals)\<rparr>))"

section \<open>Safe division\<close>

record SafeDivisionResult =
  sd_value :: "pyfloat option"
  sd_is_valid :: bool
  sd_reason_code :: "string option"
  sd_denominator_name :: string
  sd_denominator_value :: pyfloat

definition MIN_ABS_CURRENT_AMPS :: pyfloat where
  "MIN_ABS_CURRENT_AMPS = 1"

definition MIN_ABS_FUEL_FLOW_SLPM :: pyfloat where
  "MIN_ABS_FUEL_FLOW_SLPM = flit 1 10"

text \<open>The quotient of finite floats by a denominator above its floor is taken to be finite.\<close>

definition safe_divide :: "pyfloat \<Rightarrow> pyfloat \<Rightarrow> pyfloat \<Rightarrow> string \<Rightarrow> SafeDivisionResult" where
  "safe_divide numerator denominator min_abs_denominator name =
     (if \<bar>denominator\<bar> < min_abs_denominator then
        \<lparr>sd_value = None, sd_is_valid = False, sd_reason_code = Some ''near_zero_denominator'',
         sd_denominator_name = name, sd_denominator_value = denominator\<rparr>
      else
        \<lparr>sd_value = Some (fdiv numerator denominator), sd_is_valid = True, sd_reason_code = None,
         sd_denominator_name = name, sd_denominator_value = denominator\<rparr>)"

record FeatureRowValidity =
  fv_invalid_feature_names :: "string list"
  fv_reason_codes :: "string list"
  fv_diagnostic_values :: "(string, pyfloat) dict"

definition empty_validity :: FeatureRowValidity where
  "empty_validity = \<lparr>fv_invalid_feature_names = [], fv_reason_codes = [], fv_diagnostic_values = []\<rparr>"

definition validity_status :: "FeatureRowValidity \<Rightarrow> string" where
  "validity_status v = (if fv_invalid_feature_names v \<noteq> [] then ''insufficient_data'' else ''valid'')"

definition record_division ::
    "string \<Rightarrow> SafeDivisionResult \<Rightarrow> FeatureRowValidity \<Rightarrow> FeatureRowValidity result" where
  "record_division feature_name r v =
     (if sd_is_valid r then Ok v
      else case sd_reason_code r of
          None \<Rightarrow> Err AssertionError
        | Some reason \<Rightarrow>
            Ok \<lparr>fv_invalid_feature_names = fv_invalid_feature_names v @ [feature_name],
                fv_reason_codes = fv_reason_codes v @ [reason],
                fv_diagnostic_values =
                  dict_set (sd_denominator_name r) (sd_denominator_value r) (fv_diagnostic_values v)\<rparr>)"

definition CROSS_SIGNAL_FEATURES :: "string list" where
  "CROSS_SIGNAL_FEATURES = [''voltage_per_current'', ''power_per_fuel_flow'']"

definition compute_cross_signal_features ::
    "pyfloat \<Rightarrow> pyfloat \<Rightarrow> pyfloat \<Rightarrow> pyfloat \<Rightarrow> (string, SafeDivisionResult) dict" where
  "compute_cross_signal_features voltage current power_output fuel_flow =
     [(''voltage_per_current'', safe_divide voltage current MIN_ABS_CURRENT_AMPS ''current''),
      (''power_per_fuel_flow'', safe_divide power_output fuel_flow MIN_ABS_FUEL_FLOW_SLPM ''fuel_flow'')]"

section \<open>Residuals against the healthy reference curves\<close>

definition load_fraction :: "pyfloat \<Rightarrow> pyfloat" where
  "load_fraction current = fdiv current 200"

definition expected_healthy_voltage :: "pyfloat \<Rightarrow> pyfloat" where
  "expected_healthy_voltage current = fsub (flit 78 100) (fmul (load_fraction current) (flit 6 100))"

definition expected_healthy_fuel_flow :: "pyfloat \<Rightarrow> pyfloat" where
  "expected_healthy_fuel_flow current = fadd (flit 15 10) (fmul (load_fraction current) 1)"

definition expected_healthy_stack_temperature :: "pyfloat \<Rightarrow> pyfloat" where
  "expected_healthy_stack_temperature current =
     fsub (fadd 55 (fmul (load_fraction current) 20)) (flit 5 10)"

definition expected_healthy_coolant_flow :: "pyfloat \<Rightarrow> pyfloat" where
  "expected_healthy_coolant_flow current = fadd 8 (fmul (load_fraction current) 18)"

record ResidualSpec =
  rs_name :: string
  rs_observed_measurement :: string
  rs_reference_fn :: "pyfloat \<Rightarrow> pyfloat"

definition RESIDUAL_SPECS :: "ResidualSpec list" where
  "RESIDUAL_SPECS =
     [\<lparr>rs_name = ''voltage__healthy_residual'', rs_observed_measurement = ''voltage'',
       rs_reference_fn = expected_healthy_voltage\<rparr>,
      \<lparr>rs_name = ''fuel_flow__healthy_residual'', rs_observed_measurement = ''fuel_flow'',
       rs_reference_fn = expected_healthy_fuel_flow\<rparr>,
      \<lparr>rs_name = ''stack_temperature__healthy_residual'', rs_observed_measurement = ''stack_temperature'',
       rs_reference_fn = expected_healthy_stack_temperature\<rparr>,
      \<lparr>rs_name = ''coolant_flow__healthy_residual'', rs_observed_measurement = ''coolant_flow'',
       rs_reference_fn = expected_healthy_coolant_flow\<rparr>]"

definition compute_residuals :: "pyfloat \<Rightarrow> (string \<Rightarrow> pyfloat) \<Rightarrow> (string, pyfloat) dict" where
  "compute_residuals current observed =
     map (\<lambda>s. (rs_name s, fsub (observed (rs_observed_measurement s)) (rs_reference_fn s current)))
       RESIDUAL_SPECS"

section \<open>The feature row\<close>

record FeatureRowResult =
  fr_values :: "(string, pyfloat) dict"
  fr_validity :: FeatureRowValidity

definition window_column :: "string \<Rightarrow> string \<Rightarrow> nat \<Rightarrow> string" where
  "window_column measurement stat seconds = measurement @ ''__'' @ stat @ ''_'' @ nat_str seconds @ ''s''"

definition raw_entries :: "string \<Rightarrow> RawSampleFeatures \<Rightarrow> (string, pyfloat) dict" where
  "raw_entries measurement raw =
     [(measurement, raw_value raw), (measurement @ ''__diff_10s'', raw_diff raw),
      (measurement @ ''__roc_per_s'', raw_rate raw)]"

definition window_entries :: "series \<Rightarrow> nat \<Rightarrow> string \<Rightarrow> nat \<Rightarrow> (string, pyfloat) dict result" where
  "window_entries s index measurement seconds =
     res_bind (trailing_window s index (window_samples seconds)) (\<lambda>window.
     res_bind (compute_window_stats window) (\<lambda>stats.
     Ok (map (\<lambda>(stat, x). (window_column measurement stat seconds, x)) (window_stats_dict stats))))"

definition measurement_entries ::
    "(string \<Rightarrow> pyfloat) \<Rightarrow> (string \<Rightarrow> pyfloat) \<Rightarrow> (string \<Rightarrow> series) \<Rightarrow> nat \<Rightarrow> string \<Rightarrow>
     (string, pyfloat) dict result" where
  "measurement_entries current previous series_by_measurement index measurement =
     res_bind (res_map (window_entries (series_by_measurement measurement) index measurement) WINDOW_SECONDS)
       (\<lambda>windows.
     Ok (raw_entries measurement (compute_raw_features (current measurement) (previous measurement)) @
         concat windows))"

definition cross_step ::
    "string \<times> SafeDivisionResult \<Rightarrow> (string, pyfloat) dict \<times> FeatureRowValidity \<Rightarrow>
     ((string, pyfloat) dict \<times> FeatureRowValidity) result" where
  "cross_step entry acc =
     (let (column, r) = entry; (vals, v) = acc
      in if sd_is_valid r then
           (case sd_value r of None \<Rightarrow> Err AssertionError | Some x \<Rightarrow> Ok (vals @ [(column, x)], v))
         else res_bind (record_division column r v) (\<lambda>v'. Ok (vals, v')))"

definition compute_feature_row ::
    "(string \<Rightarrow> pyfloat) \<Rightarrow> (string \<Rightarrow> pyfloat) \<Rightarrow> (string \<Rightarrow> series) \<Rightarrow> nat \<Rightarrow> FeatureRowResult result" where
  "compute_feature_row current previous series_by_measurement index =
     res_bind (res_map (measurement_entries current previous series_by_measurement index) DEFAULT_MEASUREMENTS)
       (\<lambda>per_measurement.
     res_bind (res_fold cross_step
         (compute_cross_signal_features (current ''voltage'') (current ''current'')
            (current ''power_output'') (current ''fuel_flow''))
         (concat per_measurement, empty_validity)) (\<lambda>(vals, validity).
     Ok \<lparr>fr_values = vals @ compute_residuals (current ''current'') current, fr_validity = validity\<rparr>))"

section \<open>Schema and exclusion policy\<close>

definition feature_column_order :: "string list" where
  "feature_column_order =
     concat (map (\<lambda>m. [m, m @ ''__diff_10s'', m @ ''__roc_per_s''] @
       concat (map (\<lambda>seconds. map (\<lambda>stat. window_column m stat seconds) WINDOW_STATS) WINDOW_SECONDS))
       DEFAULT_MEASUREMENTS) @
     CROSS_SIGNAL_FEATURES @ map rs_name RESIDUAL_SPECS"

definition FORBIDDEN_FEATURE_FIELDS :: "string list" where
  "FORBIDDEN_FEATURE_FIELDS =
     [''dataset_id'', ''simulation_run_id'', ''observation_id'', ''class_label'', ''scenario_name'',
      ''seed'', ''run_start_time'', ''fault_start_sim_seconds'', ''fault_duration_sim_seconds'',
      ''fault_severity'', ''sensor_corruption_type'', ''fault_type'', ''fault_active'',
      ''seconds_since_fault_start'', ''target_asset_id'', ''split'', ''status'', ''error_message'',
      ''sensor_noise_json'', ''observation_count'', ''ground_truth_row_count'', ''sample_count'',
      ''timestamp'', ''elapsed_sim_seconds'', ''asset_id'']"

definition py_list_repr :: "string list \<Rightarrow> string" where
  "py_list_repr xs = ''['' @ str_join '', '' (map py_repr xs) @ '']''"

definition assert_no_forbidden_features :: "string list \<Rightarrow> unit result" where
  "assert_no_forbidden_features columns =
     (let violations = sorted_by (\<lambda>x. x) (filter (\<lambda>f. f \<in> set columns) FORBIDDEN_FEATURE_FIELDS)
      in if violations \<noteq> []
         then Err (AppError ''ForbiddenFeatureError''
           (''forbidden field(s) found in model-feature column list: '' @ py_list_repr violations))
         else Ok ())"

section \<open>The columns of a row\<close>

text \<open>Every measurement has the same block of columns, told apart by its suffixes.\<close>

definition column_suffixes :: "string list" where
  "column_suffixes = ['''', ''__diff_10s'', ''__roc_per_s''] @
     concat (map (\<lambda>seconds. map (\<lambda>stat. window_column '''' stat seconds) WINDOW_STATS) WINDOW_SECONDS)"

definition measurement_columns :: "string \<Rightarrow> string list" where
  "measurement_columns m = map ((@) m) column_suffixes"

lemma measurement_columns_alt:
  "measurement_columns m = [m, m @ ''__diff_10s'', m @ ''__roc_per_s''] @
     concat (map (\<lambda>seconds. map (\<lambda>stat. window_column m stat seconds) WINDOW_STATS) WINDOW_SECONDS)"
  by (simp add: measurement_columns_def column_suffixes_def window_column_def WINDOW_SECONDS_def
      WINDOW_STATS_def)

lemma feature_columns_blocks:
  "feature_column_order =
     concat (map measurement_columns DEFAULT_MEASUREMENTS) @ CROSS_SIGNAL_FEATURES @ map rs_name RESIDUAL_SPECS"
  unfolding feature_column_order_def measurement_columns_alt by (rule refl)

lemma column_suffixes_distinct: "distinct column_suffixes"
  by code_simp

lemma measurements_prefix_free:
  "list_all (\<lambda>m. list_all (\<lambda>m'. prefix m m' \<longrightarrow> m = m') DEFAULT_MEASUREMENTS) DEFAULT_MEASUREMENTS"
  by code_simp

lemma other_columns:
  "list_all (\<lambda>c. list_all (\<lambda>m. prefix m c \<longrightarrow> drop (length m) c \<notin> set column_suffixes) DEFAULT_MEASUREMENTS)
     (CROSS_SIGNAL_FEATURES @ map rs_name RESIDUAL_SPECS)"
  by code_simp

lemma measurement_columns_iff:
  "c \<in> set (measurement_columns m) \<longleftrightarrow> prefix m c \<and> drop (length m) c \<in> set column_suffixes"
  by (auto simp: measurement_columns_def prefix_def)

lemma distinct_concat_map:
  assumes "distinct xs" "\<And>x. distinct (f x)"
    and "\<And>x y. x \<in> set xs \<Longrightarrow> y \<in> set xs \<Longrightarrow> x \<noteq> y \<Longrightarrow> set (f x) \<inter> set (f y) = {}"
  shows "distinct (concat (map f xs))"
  using assms by (induction xs) fastforce+

lemma columns_distinct: "distinct feature_column_order"
proof -
  have disj: "set (measurement_columns m) \<inter> set (measurement_columns m') = {}"
    if "m \<in> set DEFAULT_MEASUREMENTS" "m' \<in> set DEFAULT_MEASUREMENTS" "m \<noteq> m'" for m m'
  proof (intro equals0I, elim IntE)
    fix c assume "c \<in> set (measurement_columns m)" "c \<in> set (measurement_columns m')"
    then have "prefix m c" "prefix m' c" by (simp_all add: measurement_columns_iff)
    then have "prefix m m' \<or> prefix m' m" by (rule prefix_same_cases)
    then show False using that measurements_prefix_free unfolding list_all_iff by blast
  qed
  have inj: "distinct (measurement_columns m)" for m
    using column_suffixes_distinct by (simp add: measurement_columns_def distinct_map inj_on_def)
  have "distinct DEFAULT_MEASUREMENTS" by code_simp
  then have "distinct (concat (map measurement_columns DEFAULT_MEASUREMENTS))"
    by (rule distinct_concat_map) (use disj inj in auto)
  moreover have "distinct (CROSS_SIGNAL_FEATURES @ map rs_name RESIDUAL_SPECS)" by code_simp
  ultimately show ?thesis
    using other_columns unfolding feature_columns_blocks list_all_iff
    by (auto simp: measurement_columns_iff)
qed

lemma forbidden_prefixes:
  "list_all (\<lambda>f. list_all (\<lambda>m. \<not> prefix m f) DEFAULT_MEASUREMENTS \<and>
     f \<notin> set (CROSS_SIGNAL_FEATURES @ map rs_name RESIDUAL_SPECS)) FORBIDDEN_FEATURE_FIELDS"
  by code_simp

lemma no_forbidden_feature: "assert_no_forbidden_features feature_column_order = Ok ()"
proof -
  have "filter (\<lambda>f. f \<in> set feature_column_order) FORBIDDEN_FEATURE_FIELDS = []"
    using forbidden_prefixes unfolding feature_columns_blocks list_all_iff filter_empty_conv
    by (auto simp: measurement_columns_iff)
  then show ?thesis by (simp add: assert_no_forbidden_features_def sorted_by_def)
qed

lemma window_entries_columns:
  "window_entries s index m seconds = Ok es \<Longrightarrow>
   map fst es = map (\<lambda>stat. window_column m stat seconds) WINDOW_STATS"
  by (auto simp: window_entries_def window_stats_dict_def WINDOW_STATS_def res_bind_Ok_iff)

lemma res_map_columns:
  assumes "res_map f xs = Ok yss" and "\<And>x ys. f x = Ok ys \<Longrightarrow> map fst ys = g x"
  shows "map fst (concat yss) = concat (map g xs)"
  using assms by (induction xs arbitrary: yss) (auto simp: res_bind_Ok_iff)

lemma measurement_entries_columns:
  assumes "measurement_entries current previous series index m = Ok es"
  shows "map fst es = measurement_columns m"
  using assms res_map_columns [OF _ window_entries_columns]
  by (auto simp: measurement_entries_def raw_entries_def measurement_columns_alt res_bind_Ok_iff
      simp del: concat_map_singleton)

lemma safe_divide_cases:
  "sd_is_valid (safe_divide x y b n) \<and> sd_value (safe_divide x y b n) = Some (fdiv x y) \<or>
   \<not> sd_is_valid (safe_divide x y b n) \<and>
     sd_reason_code (safe_divide x y b n) = Some ''near_zero_denominator''"
  by (simp add: safe_divide_def)

text \<open>The cross-signal loop never raises; a ratio is either a value or a rejection.\<close>

lemma cross_step_Ok:
  "cross_step (column, safe_divide x y b n) (vals, v) =
     (if \<bar>y\<bar> < b
      then Ok (vals, \<lparr>fv_invalid_feature_names = fv_invalid_feature_names v @ [column],
             fv_reason_codes = fv_reason_codes v @ [''near_zero_denominator''],
             fv_diagnostic_values = dict_set n y (fv_diagnostic_values v)\<rparr>)
      else Ok (vals @ [(column, fdiv x y)], v))"
  by (simp add: cross_step_def Let_def safe_divide_def record_division_def)

definition rejected_ratios :: "(string \<Rightarrow> pyfloat) \<Rightarrow> string list" where
  "rejected_ratios current =
     (if \<bar>current ''current''\<bar> < MIN_ABS_CURRENT_AMPS then [''voltage_per_current''] else []) @
     (if \<bar>current ''fuel_flow''\<bar> < MIN_ABS_FUEL_FLOW_SLPM then [''power_per_fuel_flow''] else [])"

lemma compute_feature_row_Ok:
  assumes "compute_feature_row current previous series index = Ok r"
  shows "map fst (fr_values r) = filter (\<lambda>c. c \<notin> set (rejected_ratios current)) feature_column_order"
    and "fv_invalid_feature_names (fr_validity r) = rejected_ratios current"
    and "fv_reason_codes (fr_validity r) = map (\<lambda>_. ''near_zero_denominator'') (rejected_ratios current)"
proof -
  from assms obtain pm where
    pm: "res_map (measurement_entries current previous series index) DEFAULT_MEASUREMENTS = Ok pm"
    by (auto simp: compute_feature_row_def res_bind_Ok_iff)
  let ?cols = "concat (map measurement_columns DEFAULT_MEASUREMENTS)"
  have pm_cols: "map fst (concat pm) = ?cols"
    by (rule res_map_columns [OF pm measurement_entries_columns])
  have "\<forall>c \<in> set ?cols. c \<notin> set CROSS_SIGNAL_FEATURES"
    using other_columns by (fastforce simp: list_all_iff measurement_columns_iff)
  then have keep: "filter (\<lambda>c. c \<notin> set (rejected_ratios current)) ?cols = ?cols"
    by (auto simp: filter_id_conv rejected_ratios_def CROSS_SIGNAL_FEATURES_def)
  have keep': "filter (\<lambda>c. c \<notin> set (rejected_ratios current)) (map rs_name RESIDUAL_SPECS) = map rs_name RESIDUAL_SPECS"
    by (simp add: rejected_ratios_def RESIDUAL_SPECS_def)
  have res: "map fst (compute_residuals (current ''current'') current) = map rs_name RESIDUAL_SPECS"
    by (simp add: compute_residuals_def)
  note r = assms [unfolded compute_feature_row_def pm compute_cross_signal_features_def, simplified,
      unfolded cross_step_Ok, simplified]
  show "map fst (fr_values r) = filter (\<lambda>c. c \<notin> set (rejected_ratios current)) feature_column_order"
    unfolding feature_columns_blocks filter_append keep keep'
    using r pm_cols res by (auto simp: cross_step_Ok rejected_ratios_def CROSS_SIGNAL_FEATURES_def split: if_splits)
  show "fv_invalid_feature_names (fr_validity r) = rejected_ratios current"
    using r by (auto simp: cross_step_Ok rejected_ratios_def empty_validity_def split: if_splits)
  show "fv_reason_codes (fr_validity r) = map (\<lambda>_. ''near_zero_denominator'') (rejected_ratios current)"
    using r by (auto simp: cross_step_Ok rejected_ratios_def empty_validity_def split: if_splits)
qed

section \<open>Windows of a bounded buffer\<close>

text \<open>
  A buffer that keeps the last \<open>k\<close> samples up to \<open>index\<close> cannot be told from the full series by a
  window of at most \<open>k\<close> samples.
\<close>

lemma trailing_window_buffer:
  assumes "n \<le> k" "k \<le> Suc index" "index < length s"
  shows "trailing_window (take_last k (take (Suc index) s)) (k - 1) n = trailing_window s index n"
proof -
  have "length (take (Suc index) s) = Suc index" using assms(3) by simp
  moreover have "Suc (k - 1) = k \<or> k = 0" by arith
  ultimately show ?thesis
    using assms by (auto simp: trailing_window_def take_last_def drop_drop)
qed

lemma window_samples_values:
  "window_samples 30 = 3" "window_samples 60 = 6" "window_samples 120 = 12"
  by (code_simp)+

lemma window_samples_bound: "seconds \<in> set WINDOW_SECONDS \<Longrightarrow> window_samples seconds \<le> LONGEST_WINDOW_SAMPLES"
  by (auto simp: WINDOW_SECONDS_def window_samples_values LONGEST_WINDOW_SAMPLES_def)

lemma res_map_cong [fundef_cong]:
  "xs = ys \<Longrightarrow> (\<And>x. x \<in> set ys \<Longrightarrow> f x = g x) \<Longrightarrow> res_map f xs = res_map g ys"
  by (induction ys arbitrary: xs) auto

lemma compute_feature_row_buffer:
  assumes "Suc index \<ge> LONGEST_WINDOW_SAMPLES" "\<And>m. m \<in> set DEFAULT_MEASUREMENTS \<Longrightarrow> index < length (full m)"
    and "\<And>m. m \<in> set DEFAULT_MEASUREMENTS \<Longrightarrow>
       buffer m = take_last LONGEST_WINDOW_SAMPLES (take (Suc index) (full m))"
  shows "compute_feature_row current previous buffer (LONGEST_WINDOW_SAMPLES - 1) =
    compute_feature_row current previous full index"
proof -
  have "measurement_entries current previous buffer (LONGEST_WINDOW_SAMPLES - 1) m =
      measurement_entries current previous full index m" if "m \<in> set DEFAULT_MEASUREMENTS" for m
  proof -
    have "window_entries (buffer m) (LONGEST_WINDOW_SAMPLES - 1) m s = window_entries (full m) index m s"
      if "s \<in> set WINDOW_SECONDS" for s
      using trailing_window_buffer [OF window_samples_bound [OF that] assms(1) assms(2)]
        \<open>m \<in> set DEFAULT_MEASUREMENTS\<close>
      by (simp add: window_entries_def assms(3))
    then show ?thesis by (simp add: measurement_entries_def cong: res_map_cong)
  qed
  then show ?thesis by (simp add: compute_feature_row_def cong: res_map_cong)
qed

section \<open>Exact sums\<close>

text \<open>Integers below \<open>2 ^ 53\<close> are summed without rounding, and the compensation stays zero.\<close>

lemma fl_int_ops:
  "\<bar>i + j\<bar> \<le> 2 ^ 53 \<Longrightarrow> fadd (of_int i) (of_int j) = of_int (i + j)"
  "\<bar>i - j\<bar> \<le> 2 ^ 53 \<Longrightarrow> fsub (of_int i) (of_int j) = of_int (i - j)"
  "\<bar>i * j\<bar> \<le> 2 ^ 53 \<Longrightarrow> fmul (of_int i) (of_int j) = of_int (i * j)"
  by (simp_all only: fadd_def fsub_def fmul_def of_int_add [symmetric] of_int_diff [symmetric]
      of_int_mult [symmetric] fl_of_int)

lemma sum_loop_int:
  "\<bar>i\<bar> + sum_list (map abs js) \<le> 2 ^ 53 \<Longrightarrow>
   sum_loop (of_int i) 0 (map of_int js) = of_int (i + sum_list js)"
proof (induction js arbitrary: i)
  case (Cons j js)
  have nn: "0 \<le> sum_list (map abs js)" by (rule sum_list_nonneg) auto
  with Cons.prems have b: "\<bar>i + j\<bar> \<le> 2 ^ 53" "\<bar>i\<bar> \<le> 2 ^ 53" "\<bar>j\<bar> \<le> 2 ^ 53" by simp_all
  have t: "fadd (of_int i) (of_int j) = of_int (i + j)" by (rule fl_int_ops) (rule b)
  have "fsub (of_int i) (of_int (i + j)) = of_int (- j)" "fsub (of_int j) (of_int (i + j)) = of_int (- i)"
    using fl_int_ops(2) [of i "i + j"] fl_int_ops(2) [of j "i + j"] b by simp_all
  then have c: "fadd 0 (if \<bar>of_int i\<bar> \<ge> \<bar>of_int j :: rat\<bar> then fadd (fsub (of_int i) (of_int (i + j))) (of_int j)
      else fadd (fsub (of_int j) (of_int (i + j))) (of_int i)) = 0"
    by (simp only: if_cancel) (simp add: fadd_def)
  have "\<bar>i + j\<bar> + sum_list (map abs js) \<le> 2 ^ 53" using Cons.prems by simp
  from Cons.IH [OF this] show ?case by (simp only: list.map sum_loop.simps Let_def t c) simp
qed simp

lemma py_sum_int: "sum_list (map abs js) \<le> 2 ^ 53 \<Longrightarrow> py_sum (map of_int js) = of_int (sum_list js)"
  using sum_loop_int [of 0 js] by (simp add: py_sum_def)

section \<open>Rows on the sampling clock\<close>

text \<open>
  The session stamps its samples \<open>10, 20, 30, \<dots>\<close> seconds. On such a clock the mean time and the
  deviations are exact, so the slope's denominator is positive and no feature can raise.
\<close>

definition clock :: "nat \<Rightarrow> pyfloat" where
  "clock n = fmul (of_nat (Suc n)) DT_SECONDS"

definition clock_bound :: int where
  "clock_bound = 2 ^ 43"

lemma clock_int: "int n < clock_bound \<Longrightarrow> clock n = of_int (10 * (int n + 1))"
proof -
  assume "int n < clock_bound"
  then have "int n < 2 ^ 43" unfolding clock_bound_def .
  then have "\<bar>(int n + 1) * 10\<bar> \<le> 2 ^ 53" by simp
  from fl_int_ops(3) [OF this] show ?thesis by (simp add: clock_def DT_SECONDS_def algebra_simps)
qed

definition ticks :: "int \<Rightarrow> nat \<Rightarrow> int list" where
  "ticks a n = map (\<lambda>i. 10 * (a + int i)) [0..<n]"

lemma sum_ticks: "2 * sum_list (ticks a n) = int n * (20 * a + 10 * (int n - 1))"
  by (induction n) (simp_all add: ticks_def algebra_simps)

lemma sum_list_of_int: "sum_list (map rat_of_int js) = of_int (sum_list js)"
  by (induction js) auto

lemma ticks_mean:
  assumes "0 \<le> a" "a < 2 ^ 44" "0 < n" "n \<le> 12"
  shows "fmean (map of_int (ticks a n)) = of_int (10 * a + 5 * (int n - 1))"
proof -
  have s: "sum_list (ticks a n) = int n * (10 * a + 5 * (int n - 1))"
    using sum_ticks [of a n] by (simp add: algebra_simps)
  have m: "0 \<le> 10 * a + 5 * (int n - 1)" "10 * a + 5 * (int n - 1) \<le> 10 * 2 ^ 44 + 60"
    using assms by simp_all
  then have "int n * (10 * a + 5 * (int n - 1)) \<le> 12 * (10 * 2 ^ 44 + 60)"
    using assms by (intro mult_mono) auto
  with m assms have "\<bar>int n * (10 * a + 5 * (int n - 1))\<bar> \<le> 2 ^ 53" "\<bar>10 * a + 5 * (int n - 1)\<bar> \<le> 2 ^ 53"
    by (simp_all add: abs_mult)
  then have "fl (of_int (int n * (10 * a + 5 * (int n - 1)))) = of_int (int n * (10 * a + 5 * (int n - 1)))"
    and "fl (of_int (10 * a + 5 * (int n - 1))) = of_int (10 * a + 5 * (int n - 1))"
    by (simp_all only: fl_of_int)
  moreover have "rat_of_int (int n * (10 * a + 5 * (int n - 1))) / of_nat (length (ticks a n)) =
      of_int (10 * a + 5 * (int n - 1))"
    using assms(3) by (simp add: ticks_def)
  ultimately show ?thesis by (simp only: fmean_def fdiv_def sum_list_of_int s length_map)
qed

lemma deviations_sum:
  assumes "n \<in> {3, 6, 12}"
  defines "ds \<equiv> map (\<lambda>i. (10 * int i - 5 * (int n - 1)) * (10 * int i - 5 * (int n - 1))) [0..<n]"
  shows "0 < sum_list ds \<and> sum_list (map abs ds) \<le> 2 ^ 53"
proof -
  have "list_all (\<lambda>n. let ds = map (\<lambda>i. (10 * int i - 5 * (int n - 1)) * (10 * int i - 5 * (int n - 1))) [0..<n]
      in 0 < sum_list ds \<and> sum_list (map abs ds) \<le> 9007199254740992) [3, 6, 12]"
    by code_simp
  with assms show ?thesis by (auto simp: Let_def)
qed

lemma ticks_deviation:
  assumes "0 \<le> a" "a < 2 ^ 44" "n \<in> {3, 6, 12}"
  shows "py_sum (map (\<lambda>x. fmul (fsub x (fmean (map of_int (ticks a n)))) (fsub x (fmean (map of_int (ticks a n)))))
           (map of_int (ticks a n))) > 0"
proof -
  let ?d = "\<lambda>i. 10 * int i - 5 * (int n - 1)"
  have d: "fsub (of_int (10 * (a + int i))) (of_int (10 * a + 5 * (int n - 1))) = of_int (?d i)"
    "fmul (of_int (?d i)) (of_int (?d i)) = of_int (?d i * ?d i)" if "i < n" for i
  proof -
    from that assms(3) have b: "\<bar>?d i\<bar> \<le> 60" by auto
    then have "\<bar>?d i * ?d i\<bar> \<le> 60 * 60" unfolding abs_mult by (intro mult_mono) auto
    with b show "fsub (of_int (10 * (a + int i))) (of_int (10 * a + 5 * (int n - 1))) = of_int (?d i)"
      "fmul (of_int (?d i)) (of_int (?d i)) = of_int (?d i * ?d i)"
      using fl_int_ops(2) [of "10 * (a + int i)" "10 * a + 5 * (int n - 1)"] fl_int_ops(3) [of "?d i" "?d i"]
      by (simp_all add: algebra_simps)
  qed
  have "fmean (map of_int (ticks a n)) = of_int (10 * a + 5 * (int n - 1))"
    by (rule ticks_mean) (use assms in auto)
  then have "map (\<lambda>x. fmul (fsub x (fmean (map of_int (ticks a n)))) (fsub x (fmean (map of_int (ticks a n)))))
      (map of_int (ticks a n)) = map of_int (map (\<lambda>i. ?d i * ?d i) [0..<n])"
    using d by (simp add: ticks_def)
  then show ?thesis
    using py_sum_int [of "map (\<lambda>i. ?d i * ?d i) [0..<n]"] deviations_sum [of n] assms(3) by simp
qed

lemma ticks_slope:
  assumes "0 \<le> a" "a < 2 ^ 44" "n \<in> {3, 6, 12}"
  shows "\<exists>slope. ols_slope (map of_int (ticks a n)) ys = Ok slope"
  using ticks_deviation [OF assms] by (simp add: ols_slope_def Let_def comp_def)

definition on_clock :: "series \<Rightarrow> bool" where
  "on_clock s \<longleftrightarrow> map fst s = map clock [0..<length s]"

lemma on_clock_window:
  assumes "on_clock s" "index < length s" "int index < clock_bound" "n \<le> Suc index"
  shows "map fst (drop (Suc index - n) (take (Suc index) s)) = map of_int (ticks (int (Suc index - n) + 1) n)"
proof -
  have "map fst (drop (Suc index - n) (take (Suc index) s)) = drop (Suc index - n) (take (Suc index) (map fst s))"
    by (simp add: drop_map take_map)
  also have "\<dots> = map clock [Suc index - n..<Suc index]"
    using assms(1,2) unfolding on_clock_def by (simp add: drop_map take_map del: upt_Suc)
  also have "\<dots> = map (\<lambda>i. clock (Suc index - n + i)) [0..<n]"
    using assms(4) by (intro nth_equalityI) (simp_all del: upt_Suc)
  also have "\<dots> = map of_int (ticks (int (Suc index - n) + 1) n)"
    unfolding ticks_def map_map o_def
  proof (rule map_cong [OF refl])
    fix i assume "i \<in> set [0..<n]"
    then have "Suc index - n + i \<le> index" using assms(4) by auto
    then have "int (Suc index - n + i) < clock_bound" using assms(3) by linarith
    from clock_int [OF this] show "clock (Suc index - n + i) = of_int (10 * (int (Suc index - n) + 1 + int i))"
      by (simp add: algebra_simps)
  qed
  finally show ?thesis .
qed

lemma window_entries_total:
  assumes "on_clock s" "index < length s" "int index < clock_bound" "LONGEST_WINDOW_SAMPLES \<le> Suc index"
    and "seconds \<in> set WINDOW_SECONDS"
  shows "\<exists>es. window_entries s index m seconds = Ok es"
proof -
  let ?n = "window_samples seconds"
  have n: "?n \<in> {3, 6, 12}" using assms(5) by (auto simp: WINDOW_SECONDS_def window_samples_values)
  have le: "?n \<le> Suc index" using window_samples_bound [OF assms(5)] assms(4) by simp
  let ?w = "drop (Suc index - ?n) (take (Suc index) s)"
  have fst_w: "map fst ?w = map of_int (ticks (int (Suc index - ?n) + 1) ?n)"
    by (rule on_clock_window [OF assms(1-3) le])
  have "int (Suc index - ?n) + 1 < 2 ^ 44" using assms(3) by (simp add: clock_bound_def)
  from ticks_slope [OF _ this n] obtain slope where "ols_slope (map fst ?w) (map snd ?w) = Ok slope"
    unfolding fst_w by fastforce
  moreover have "map snd ?w \<noteq> []" using n le assms(2) by auto
  ultimately have "\<exists>st. compute_window_stats ?w = Ok st"
    by (simp add: compute_window_stats_def Let_def)
  with le show ?thesis by (auto simp: window_entries_def trailing_window_def)
qed

lemma compute_feature_row_total:
  assumes "\<And>m. m \<in> set DEFAULT_MEASUREMENTS \<Longrightarrow> on_clock (full m) \<and> index < length (full m)"
    and "int index < clock_bound" "LONGEST_WINDOW_SAMPLES \<le> Suc index"
  shows "\<exists>r. compute_feature_row current previous full index = Ok r"
proof -
  have "\<exists>es. measurement_entries current previous full index m = Ok es"
    if m: "m \<in> set DEFAULT_MEASUREMENTS" for m
    using res_map_total [of WINDOW_SECONDS "window_entries (full m) index m"]
      window_entries_total assms that
    by (fastforce simp: measurement_entries_def)
  then obtain pm where
    "res_map (measurement_entries current previous full index) DEFAULT_MEASUREMENTS = Ok pm"
    using res_map_total by metis
  then show ?thesis
    by (simp add: compute_feature_row_def compute_cross_signal_features_def cross_step_Ok)
qed

section \<open>Properties\<close>


definition demo_samples :: "pyfloat list \<Rightarrow> series" where
  "demo_samples vs = zip (map clock [0..<length vs]) vs"

lemma demo_samples_on_clock: "on_clock (demo_samples vs)" "length (demo_samples vs) = length vs"
  by (simp_all add: on_clock_def demo_samples_def)


end
