(* ===== verification/Telemetry_Assembly.thy ===== *)
theory Telemetry_Assembly
  imports Feature_Row
begin

text \<open>
  Telemetry samples and their assembly from single-measurement events
  (\<^verbatim>\<open>src/backend/simulator/inference/telemetry.py\<close>, \<^verbatim>\<open>inference_worker/events.py\<close> up to the
  input validation, and \<^verbatim>\<open>inference_worker/assembly.py\<close>). Timestamps are UTC instants in
  microseconds; the parser of ISO timestamps is an argument of the validation. The mutable buffers
  of the assembler are dictionaries in insertion order that every operation returns updated.
\<close>

section \<open>Timestamps as text\<close>

definition two_digits :: "int \<Rightarrow> string" where
  "two_digits n = (if n < 10 then ''0'' @ int_str n else int_str n)"

definition padded :: "nat \<Rightarrow> int \<Rightarrow> string" where
  "padded w n = (let s = int_str n in replicate (w - length s) (CHR ''0'') @ s)"

text \<open>Year, month and day of a day number (days since 1970-01-01, proleptic Gregorian).\<close>

definition civil_from_days :: "int \<Rightarrow> int \<times> int \<times> int" where
  "civil_from_days z =
     (let z = z + 719468;
          era = z div 146097;
          doe = z mod 146097;
          yoe = (doe - doe div 1460 + doe div 36524 - doe div 146096) div 365;
          doy = doe - (365 * yoe + yoe div 4 - yoe div 100);
          mp = (5 * doy + 2) div 153;
          d = doy - (153 * mp + 2) div 5 + 1;
          m = (if mp < 10 then mp + 3 else mp - 9);
          y = yoe + era * 400
      in (if m \<le> 2 then y + 1 else y, m, d))"

text \<open>\<^verbatim>\<open>datetime.isoformat()\<close> of a UTC datetime.\<close>

definition isoformat :: "datetime \<Rightarrow> string" where
  "isoformat t =
     (let days = t div 86400000000;
          us = t mod 86400000000;
          (y, m, d) = civil_from_days days;
          secs = us div 1000000;
          frac = us mod 1000000
      in padded 4 y @ ''-'' @ two_digits m @ ''-'' @ two_digits d @ ''T'' @
         two_digits (secs div 3600) @ '':'' @ two_digits (secs div 60 mod 60) @ '':'' @
         two_digits (secs mod 60) @
         (if frac = 0 then '''' else ''.'' @ padded 6 frac) @ ''+00:00'')"

section \<open>Telemetry samples\<close>

definition CANONICAL_UNITS :: "(string, string) dict" where
  "CANONICAL_UNITS =
     [(''stack_temperature'', ''celsius''), (''stack_pressure'', ''kPa''), (''current'', ''A''),
      (''voltage'', ''V''), (''fuel_flow'', ''SLPM''), (''power_output'', ''kW''),
      (''efficiency'', ''percent''), (''coolant_flow'', ''L/min'')]"

definition REQUIRED_MEASUREMENTS :: "string list" where
  "REQUIRED_MEASUREMENTS = DEFAULT_MEASUREMENTS"

definition SUPPORTED_MEASUREMENTS :: "string list" where
  "SUPPORTED_MEASUREMENTS = dict_keys CANONICAL_UNITS"

record InferenceTelemetrySample =
  ts_asset_id :: string
  ts_timestamp :: datetime
  ts_values :: "(string, pyfloat) dict"
  ts_units :: "(string, string) dict"

definition mk_telemetry_sample ::
    "string \<Rightarrow> datetime \<Rightarrow> (string, pyfloat) dict \<Rightarrow> (string, string) dict \<Rightarrow> InferenceTelemetrySample result" where
  "mk_telemetry_sample asset ts vals units =
     construct
       [nonempty_check ''asset_id'' asset,
        (set (dict_keys vals) = set (dict_keys units),
         ValueError ''values and units must share the exact same keys'')]
       \<lparr>ts_asset_id = asset, ts_timestamp = ts, ts_values = vals, ts_units = units\<rparr>"

definition sample_step ::
    "Observation \<Rightarrow> (string, pyfloat) dict \<times> (string, string) dict \<Rightarrow>
     ((string, pyfloat) dict \<times> (string, string) dict) result" where
  "sample_step ob acc =
     (let (vals, units) = acc; name = mt_name (obs_measurement_type ob)
      in case map_of CANONICAL_UNITS name of
          None \<Rightarrow> Err (AppError ''UnsupportedMeasurementError''
            (''unsupported measurement name: '' @ py_repr name @ '' (supported: '' @
             py_list_repr (sorted_by (\<lambda>x. x) SUPPORTED_MEASUREMENTS) @ '')''))
        | Some expected_unit \<Rightarrow>
            if name \<in> set (dict_keys vals) then
              Err (AppError ''DuplicateMeasurementError''
                (''duplicate measurement in one telemetry sample: '' @ py_repr name))
            else if obs_unit ob \<noteq> expected_unit then
              Err (AppError ''TelemetryUnitMismatchError''
                (''measurement '' @ py_repr name @ '' has unit '' @ py_repr (obs_unit ob) @
                 '', expected the canonical unit '' @ py_repr expected_unit))
            else Ok (dict_set name (obs_value ob) vals, dict_set name (obs_unit ob) units))"

definition missing_measurements :: "(string, 'v) dict \<Rightarrow> string list" where
  "missing_measurements vals = filter (\<lambda>m. m \<notin> set (dict_keys vals)) REQUIRED_MEASUREMENTS"

definition from_observations :: "Observation list \<Rightarrow> InferenceTelemetrySample result" where
  "from_observations observations =
     (if observations = [] then Err (ValueError ''observations must not be empty'')
      else if card (set (map obs_asset_id observations)) > 1 then
        Err (AppError ''InconsistentSampleError''
          (''observations span multiple assets: '' @
           py_list_repr (sorted_by (\<lambda>x. x) (remdups (map obs_asset_id observations)))))
      else if card (set (map obs_timestamp observations)) > 1 then
        Err (AppError ''InconsistentSampleError'' ''observations span multiple timestamps'')
      else res_bind (res_fold sample_step observations ([], [])) (\<lambda>(vals, units).
        let missing = missing_measurements vals in
        if missing \<noteq> [] then
          Err (AppError ''MissingMeasurementError''
            (''telemetry sample is missing required measurement(s): '' @ py_list_repr missing))
        else mk_telemetry_sample (obs_asset_id (hd observations)) (obs_timestamp (hd observations))
               vals units))"

section \<open>Input events\<close>

text \<open>A decoded JSON payload. \<^verbatim>\<open>json.loads\<close> also accepts \<open>NaN\<close> and the infinities.\<close>

datatype json =
    JNull
  | JBool bool
  | JInt int
  | JFloat pyfloat
  | JNonFinite string
  | JStr string
  | JList "json list"
  | JObj "(string \<times> json) list"

text \<open>\<^verbatim>\<open>repr\<close> and \<^verbatim>\<open>str\<close> of a decoded value.\<close>

fun json_repr :: "json \<Rightarrow> string" where
  "json_repr JNull = ''None''"
| "json_repr (JBool b) = (if b then ''True'' else ''False'')"
| "json_repr (JInt i) = int_str i"
| "json_repr (JFloat x) = float_repr x"
| "json_repr (JNonFinite s) = s"
| "json_repr (JStr s) = py_repr s"
| "json_repr (JList xs) = ''['' @ str_join '', '' (map json_repr xs) @ '']''"
| "json_repr (JObj kvs) =
     ''{'' @ str_join '', '' (map (\<lambda>(k, v). py_repr k @ '': '' @ json_repr v) kvs) @ ''}''"

definition json_str :: "json \<Rightarrow> string" where
  "json_str j = (case j of JStr s \<Rightarrow> s | _ \<Rightarrow> json_repr j)"

record TelemetryObservationEvent =
  te_event_id :: string
  te_event_version :: string
  te_asset_id :: string
  te_timestamp :: datetime
  te_measurement_name :: string
  te_value :: pyfloat
  te_unit :: string
  te_source :: string

definition REQUIRED_INPUT_FIELDS :: "string list" where
  "REQUIRED_INPUT_FIELDS =
     [''event_id'', ''event_version'', ''asset_id'', ''timestamp'', ''measurement_name'', ''value'',
      ''unit'', ''source'']"

text \<open>
  \<^verbatim>\<open>field not in raw or raw[field] is None\<close> for each kind of payload: a list has no such member
  unless it contains the name, a string may contain it as a substring, and the other scalars are
  not containers.
\<close>

definition present_field :: "(string \<Rightarrow> py_error) \<Rightarrow> json \<Rightarrow> string \<Rightarrow> unit result" where
  "present_field missing raw name =
     (case raw of
          JObj kvs \<Rightarrow>
            (case map_of kvs name of
               None \<Rightarrow> Err (missing name)
             | Some JNull \<Rightarrow> Err (missing name)
             | Some _ \<Rightarrow> Ok ())
        | JList xs \<Rightarrow>
            if JStr name \<in> set xs
            then Err (TypeError ''list indices must be integers or slices, not str'') else Err (missing name)
        | JStr s \<Rightarrow>
            if py_in name s
            then Err (TypeError (''string indices must be integers, not 'str'' @ [CHR 0x27])) else Err (missing name)
        | JNull \<Rightarrow> Err (TypeError ''argument of type 'NoneType' is not iterable'')
        | JBool _ \<Rightarrow> Err (TypeError ''argument of type 'bool' is not iterable'')
        | JInt _ \<Rightarrow> Err (TypeError ''argument of type 'int' is not iterable'')
        | JFloat _ \<Rightarrow> Err (TypeError ''argument of type 'float' is not iterable'')
        | JNonFinite _ \<Rightarrow> Err (TypeError ''argument of type 'float' is not iterable''))"

definition check_field :: "json \<Rightarrow> string \<Rightarrow> unit result" where
  "check_field =
     present_field (\<lambda>name. AppError ''MissingFieldError''
       (''telemetry event is missing required field '' @ py_repr name))"

definition json_get :: "json \<Rightarrow> string \<Rightarrow> json" where
  "json_get raw name = (case raw of JObj kvs \<Rightarrow> (case map_of kvs name of Some v \<Rightarrow> v | None \<Rightarrow> JNull) | _ \<Rightarrow> JNull)"

text \<open>Membership in a frozenset of strings: an unhashable value raises.\<close>

definition in_frozenset :: "json \<Rightarrow> string list \<Rightarrow> bool result" where
  "in_frozenset j names =
     (case j of
        JList _ \<Rightarrow> Err (TypeError (''unhashable type: 'list'' @ [CHR 0x27]))
      | JObj _ \<Rightarrow> Err (TypeError (''unhashable type: 'dict'' @ [CHR 0x27]))
      | JStr s \<Rightarrow> Ok (s \<in> set names)
      | _ \<Rightarrow> Ok False)"

definition parse_event_timestamp :: "(string \<Rightarrow> datetime option) \<Rightarrow> json \<Rightarrow> datetime result" where
  "parse_event_timestamp fromisoformat raw =
     (let malformed = Err (AppError ''MalformedTimestampError''
            (''telemetry event has an unparseable timestamp: '' @ json_repr raw))
      in case raw of
          JStr s \<Rightarrow> (case fromisoformat (replace_char (CHR ''Z'') ''+00:00'' s) of
                       None \<Rightarrow> malformed | Some t \<Rightarrow> Ok t)
        | _ \<Rightarrow> malformed)"

text \<open>\<^verbatim>\<open>float(value)\<close> of a number that is not a boolean; huge integers overflow.\<close>

definition event_value :: "string \<Rightarrow> json \<Rightarrow> pyfloat result" where
  "event_value measurement_name value =
     (case value of
        JFloat x \<Rightarrow> Ok x
      | JInt i \<Rightarrow> if \<bar>fl (of_int i)\<bar> \<ge> 2 ^ 1024 then Err OverflowError else Ok (fl (of_int i))
      | _ \<Rightarrow> Err (AppError ''NonFiniteValueError''
               (''non-finite telemetry value for '' @ py_repr measurement_name @ '': '' @ json_repr value)))"

definition INPUT_EVENT_VERSION :: string where
  "INPUT_EVENT_VERSION = ''v1''"

definition validate_telemetry_event ::
    "(string \<Rightarrow> datetime option) \<Rightarrow> json \<Rightarrow> TelemetryObservationEvent result" where
  "validate_telemetry_event fromisoformat raw =
     res_bind (res_map (check_field raw) REQUIRED_INPUT_FIELDS) (\<lambda>_.
     let event_version = json_get raw ''event_version'' in
     res_bind (in_frozenset event_version [INPUT_EVENT_VERSION]) (\<lambda>known.
     if \<not> known then
       Err (AppError ''UnsupportedEventVersionError''
         (''unsupported event_version '' @ json_repr event_version @ '' (supported: '' @
          py_list_repr [INPUT_EVENT_VERSION] @ '')''))
     else case json_get raw ''asset_id'' of
         JStr asset \<Rightarrow>
           if asset = [] then Err (AppError ''InvalidAssetIdError'' ''telemetry event has an empty asset_id'')
           else
             res_bind (parse_event_timestamp fromisoformat (json_get raw ''timestamp'')) (\<lambda>timestamp.
             let measurement_name = json_get raw ''measurement_name'' in
             res_bind (in_frozenset measurement_name SUPPORTED_MEASUREMENTS) (\<lambda>supported.
             if \<not> supported then
               Err (AppError ''UnsupportedMeasurementNameError''
                 (''unsupported measurement_name: '' @ json_repr measurement_name))
             else
               let name = json_str measurement_name;
                   unit = json_get raw ''unit'';
                   expected_unit = the (map_of CANONICAL_UNITS name) in
               if unit \<noteq> JStr expected_unit then
                 Err (AppError ''UnitMismatchError''
                   (''measurement '' @ py_repr name @ '' has unit '' @ json_repr unit @
                    '', expected the canonical unit '' @ py_repr expected_unit))
               else res_bind (event_value name (json_get raw ''value'')) (\<lambda>value.
                 Ok \<lparr>te_event_id = json_str (json_get raw ''event_id''),
                     te_event_version = json_str event_version, te_asset_id = asset,
                     te_timestamp = timestamp, te_measurement_name = name, te_value = value,
                     te_unit = expected_unit, te_source = json_str (json_get raw ''source'')\<rparr>)))
       | _ \<Rightarrow> Err (AppError ''InvalidAssetIdError'' ''telemetry event has an empty asset_id'')))"

section \<open>The sample assembler\<close>

definition MEASUREMENT_ORDER :: "string list" where
  "MEASUREMENT_ORDER = REQUIRED_MEASUREMENTS @ [''efficiency'']"

datatype AssemblyStatus = PENDING | COMPLETE | REJECTED

record AssemblyOutcome =
  ao_status :: AssemblyStatus
  ao_asset_id :: "string option"
  ao_source_timestamp :: "datetime option"
  ao_sample :: "InferenceTelemetrySample option"
  ao_reason :: "string option"
  ao_detail :: string

record PendingSample =
  ps_values :: "(string, pyfloat) dict"
  ps_units :: "(string, string) dict"
  ps_event_ids :: "(string, string) dict"
  ps_first_seen :: pyfloat

record AssetBuffer =
  ab_pending :: "(datetime, PendingSample) dict"
  ab_latest_processed :: "datetime option"
  ab_last_active :: pyfloat

record SampleAssembler =
  sa_timeout_seconds :: pyfloat
  sa_max_buffered :: int
  sa_max_assets :: int
  sa_buffers :: "(string, AssetBuffer) dict"

definition mk_assembler :: "pyfloat \<Rightarrow> int \<Rightarrow> int \<Rightarrow> SampleAssembler" where
  "mk_assembler timeout_seconds max_buffered max_assets =
     \<lparr>sa_timeout_seconds = timeout_seconds, sa_max_buffered = max_buffered, sa_max_assets = max_assets,
      sa_buffers = []\<rparr>"

definition rejected :: "string \<Rightarrow> datetime \<Rightarrow> string \<Rightarrow> string \<Rightarrow> AssemblyOutcome" where
  "rejected asset ts reason detail =
     \<lparr>ao_status = REJECTED, ao_asset_id = Some asset, ao_source_timestamp = Some ts, ao_sample = None,
      ao_reason = Some reason, ao_detail = detail\<rparr>"

definition pending_outcome :: "string \<Rightarrow> datetime \<Rightarrow> AssemblyOutcome" where
  "pending_outcome asset ts =
     \<lparr>ao_status = PENDING, ao_asset_id = Some asset, ao_source_timestamp = Some ts, ao_sample = None,
      ao_reason = None, ao_detail = []\<rparr>"

definition complete_outcome :: "string \<Rightarrow> datetime \<Rightarrow> InferenceTelemetrySample \<Rightarrow> AssemblyOutcome" where
  "complete_outcome asset ts sample =
     \<lparr>ao_status = COMPLETE, ao_asset_id = Some asset, ao_source_timestamp = Some ts,
      ao_sample = Some sample, ao_reason = None, ao_detail = []\<rparr>"

definition incomplete_timeout :: "string \<Rightarrow> string \<Rightarrow> datetime \<times> PendingSample \<Rightarrow> AssemblyOutcome" where
  "incomplete_timeout prefix_text asset entry =
     rejected asset (fst entry) ''incomplete_timeout''
       (prefix_text @ py_list_repr (sorted_by (\<lambda>x. x) (missing_measurements (ps_values (snd entry)))))"

definition new_buffer :: "pyfloat \<Rightarrow> AssetBuffer" where
  "new_buffer now = \<lparr>ab_pending = [], ab_latest_processed = None, ab_last_active = now\<rparr>"

text \<open>
  \<^verbatim>\<open>_buffer_for\<close>: the asset's buffer, moved to the end of the recency order, or a new one after
  evicting the least recently active asset; an eviction from no buffers at all raises.
\<close>

definition buffer_for ::
    "SampleAssembler \<Rightarrow> string \<Rightarrow> pyfloat \<Rightarrow> (AssetBuffer \<times> AssemblyOutcome list \<times> SampleAssembler) result" where
  "buffer_for a asset now =
     (case map_of (sa_buffers a) asset of
        Some buffer \<Rightarrow>
          Ok (buffer, [], a\<lparr>sa_buffers := dict_del asset (sa_buffers a) @ [(asset, buffer)]\<rparr>)
      | None \<Rightarrow>
          if int (length (sa_buffers a)) \<ge> sa_max_assets a then
            (case sa_buffers a of
               [] \<Rightarrow> Err (KeyError ''dictionary is empty'')
             | (old_asset, old_buffer) # rest \<Rightarrow>
                 Ok (new_buffer now,
                     map (incomplete_timeout
                        ''asset session evicted to stay within max_tracked_assets; missing measurement(s): ''
                        old_asset) (ab_pending old_buffer),
                     a\<lparr>sa_buffers := rest @ [(asset, new_buffer now)]\<rparr>))
          else Ok (new_buffer now, [], a\<lparr>sa_buffers := sa_buffers a @ [(asset, new_buffer now)]\<rparr>))"

definition make_room ::
    "SampleAssembler \<Rightarrow> AssetBuffer \<Rightarrow> string \<Rightarrow> (AssetBuffer \<times> AssemblyOutcome list) result" where
  "make_room a buffer asset =
     (if int (length (ab_pending buffer)) < sa_max_buffered a then Ok (buffer, [])
      else case ab_pending buffer of
          [] \<Rightarrow> Err (AppError ''StopIteration'' [])
        | oldest # rest \<Rightarrow>
            Ok (buffer\<lparr>ab_pending := rest\<rparr>,
                [incomplete_timeout
                   ''evicted to stay within max_buffered_timestamps_per_asset; missing measurement(s): ''
                   asset oldest]))"

definition put_buffer :: "SampleAssembler \<Rightarrow> string \<Rightarrow> AssetBuffer \<Rightarrow> SampleAssembler" where
  "put_buffer a asset buffer = a\<lparr>sa_buffers := dict_set asset buffer (sa_buffers a)\<rparr>"

definition empty_pending :: "pyfloat \<Rightarrow> PendingSample" where
  "empty_pending now = \<lparr>ps_values = [], ps_units = [], ps_event_ids = [], ps_first_seen = now\<rparr>"

definition add_reading :: "TelemetryObservationEvent \<Rightarrow> PendingSample \<Rightarrow> PendingSample" where
  "add_reading ev p =
     p\<lparr>ps_values := dict_set (te_measurement_name ev) (te_value ev) (ps_values p),
       ps_units := dict_set (te_measurement_name ev) (te_unit ev) (ps_units p),
       ps_event_ids := dict_set (te_measurement_name ev) (te_event_id ev) (ps_event_ids p)\<rparr>"

definition dict_item :: "(string, 'v) dict \<Rightarrow> string \<Rightarrow> 'v result" where
  "dict_item d k = (case map_of d k of None \<Rightarrow> Err (KeyError k) | Some v \<Rightarrow> Ok v)"

definition reading_observation :: "TelemetryObservationEvent \<Rightarrow> PendingSample \<Rightarrow> string \<Rightarrow> Observation result" where
  "reading_observation ev p name =
     res_bind (dict_item (ps_event_ids p) name) (\<lambda>event_id.
     res_bind (mk_measurement_type name) (\<lambda>mt.
     res_bind (dict_item (ps_values p) name) (\<lambda>v.
     res_bind (dict_item (ps_units p) name) (\<lambda>unit.
     mk_observation event_id (te_asset_id ev) (te_timestamp ev) mt v unit))))"

definition complete_sample :: "TelemetryObservationEvent \<Rightarrow> PendingSample \<Rightarrow> InferenceTelemetrySample result" where
  "complete_sample ev p =
     res_bind (res_map (reading_observation ev p)
         (filter (\<lambda>name. name \<in> set (dict_keys (ps_values p))) MEASUREMENT_ORDER)) from_observations"

definition late_detail :: "TelemetryObservationEvent \<Rightarrow> datetime \<Rightarrow> string" where
  "late_detail ev latest =
     ''timestamp '' @ isoformat (te_timestamp ev) @
     '' does not follow the asset's last processed sample '' @ isoformat latest"

text \<open>The part of \<^verbatim>\<open>ingest\<close> after the pending sample of the event's timestamp is at hand.\<close>

definition ingest_reading ::
    "SampleAssembler \<Rightarrow> AssetBuffer \<Rightarrow> PendingSample \<Rightarrow> TelemetryObservationEvent \<Rightarrow>
     (AssemblyOutcome \<times> SampleAssembler) result" where
  "ingest_reading a buffer p ev =
     (let asset = te_asset_id ev; ts = te_timestamp ev; name = te_measurement_name ev
      in case map_of (ps_values p) name of
          Some existing_value \<Rightarrow>
            res_bind (dict_item (ps_units p) name) (\<lambda>existing_unit.
            if existing_value = te_value ev \<and> existing_unit = te_unit ev
            then Ok (pending_outcome asset ts,
                     put_buffer a asset (buffer\<lparr>ab_pending := dict_set ts p (ab_pending buffer)\<rparr>))
            else Ok (rejected asset ts ''conflicting_duplicate''
                       (''measurement '' @ py_repr name @
                        '' conflicts with an already-buffered value for this asset/timestamp''),
                     put_buffer a asset (buffer\<lparr>ab_pending := dict_del ts (ab_pending buffer)\<rparr>)))
        | None \<Rightarrow>
            let p' = add_reading ev p in
            if missing_measurements (ps_values p') \<noteq> [] then
              Ok (pending_outcome asset ts,
                  put_buffer a asset (buffer\<lparr>ab_pending := dict_set ts p' (ab_pending buffer)\<rparr>))
            else res_bind (complete_sample ev p') (\<lambda>sample.
              Ok (complete_outcome asset ts sample,
                  put_buffer a asset
                    (buffer\<lparr>ab_pending := dict_del ts (ab_pending buffer),
                            ab_latest_processed := Some ts\<rparr>))))"

definition is_late :: "AssetBuffer \<Rightarrow> TelemetryObservationEvent \<Rightarrow> bool" where
  "is_late buffer ev =
     (case ab_latest_processed buffer of None \<Rightarrow> False | Some latest \<Rightarrow> te_timestamp ev \<le> latest)"

definition assembler_ingest ::
    "SampleAssembler \<Rightarrow> TelemetryObservationEvent \<Rightarrow> pyfloat \<Rightarrow>
     (AssemblyOutcome list \<times> SampleAssembler) result" where
  "assembler_ingest a ev now =
     res_bind (buffer_for a (te_asset_id ev) now) (\<lambda>(buffer0, evicted, a1).
     let buffer = buffer0\<lparr>ab_last_active := now\<rparr>; asset = te_asset_id ev; ts = te_timestamp ev in
     if is_late buffer ev then
       Ok (evicted @ [rejected asset ts ''late'' (late_detail ev (the (ab_latest_processed buffer)))],
           put_buffer a1 asset buffer)
     else case map_of (ab_pending buffer) ts of
         Some p \<Rightarrow>
           res_bind (ingest_reading a1 buffer p ev) (\<lambda>(o1, a2). Ok (evicted @ [o1], a2))
       | None \<Rightarrow>
           res_bind (make_room a1 buffer asset) (\<lambda>(buffer1, dropped).
           res_bind (ingest_reading a1 buffer1 (empty_pending now) ev) (\<lambda>(o1, a2).
           Ok (evicted @ dropped @ [o1], a2))))"

section \<open>Timeout sweep and gauges\<close>

definition expired :: "SampleAssembler \<Rightarrow> pyfloat \<Rightarrow> datetime \<times> PendingSample \<Rightarrow> bool" where
  "expired a now entry \<longleftrightarrow> fsub now (ps_first_seen (snd entry)) \<ge> sa_timeout_seconds a"

definition sweep_timeouts :: "SampleAssembler \<Rightarrow> pyfloat \<Rightarrow> AssemblyOutcome list \<times> SampleAssembler" where
  "sweep_timeouts a now =
     (concat (map (\<lambda>(asset, buffer).
        map (incomplete_timeout ''missing measurement(s) after timeout: '' asset)
          (filter (expired a now) (ab_pending buffer))) (sa_buffers a)),
      a\<lparr>sa_buffers := map (\<lambda>(asset, buffer).
        (asset, buffer\<lparr>ab_pending := filter (\<lambda>e. \<not> expired a now e) (ab_pending buffer)\<rparr>)) (sa_buffers a)\<rparr>)"

definition tracked_asset_count :: "SampleAssembler \<Rightarrow> nat" where
  "tracked_asset_count a = length (sa_buffers a)"

definition buffered_timestamp_count :: "SampleAssembler \<Rightarrow> string \<Rightarrow> nat" where
  "buffered_timestamp_count a asset =
     (case map_of (sa_buffers a) asset of None \<Rightarrow> 0 | Some buffer \<Rightarrow> length (ab_pending buffer))"

definition total_buffered_timestamp_count :: "SampleAssembler \<Rightarrow> nat" where
  "total_buffered_timestamp_count a = sum_list (map (\<lambda>(k, buffer). length (ab_pending buffer)) (sa_buffers a))"

section \<open>Completing a sample\<close>

definition event_wf :: "TelemetryObservationEvent \<Rightarrow> bool" where
  "event_wf ev \<longleftrightarrow> te_event_id ev \<noteq> [] \<and> te_asset_id ev \<noteq> [] \<and>
     map_of CANONICAL_UNITS (te_measurement_name ev) = Some (te_unit ev)"

lemma in_frozenset_Ok: "in_frozenset j names = Ok True \<longleftrightarrow> (\<exists>s. j = JStr s \<and> s \<in> set names)"
  by (cases j) (auto simp: in_frozenset_def)

lemma supported_unit: "name \<in> set SUPPORTED_MEASUREMENTS \<longleftrightarrow> map_of CANONICAL_UNITS name \<noteq> None"
  by (simp add: SUPPORTED_MEASUREMENTS_def dict_keys_def map_of_eq_None_iff)

text \<open>What validation guarantees: an asset, a supported measurement and its canonical unit.\<close>

lemma validate_Ok:
  assumes "validate_telemetry_event fromisoformat raw = Ok ev"
  shows "te_asset_id ev \<noteq> []" "map_of CANONICAL_UNITS (te_measurement_name ev) = Some (te_unit ev)"
    "te_event_version ev = INPUT_EVENT_VERSION"
proof -
  from assms obtain asset name where
    v: "in_frozenset (json_get raw ''event_version'') [INPUT_EVENT_VERSION] = Ok True"
    and a: "json_get raw ''asset_id'' = JStr asset" "asset \<noteq> []"
    and n: "in_frozenset (json_get raw ''measurement_name'') SUPPORTED_MEASUREMENTS = Ok True"
    by (auto simp: validate_telemetry_event_def res_bind_Ok_iff Let_def split: if_splits json.splits)
  from n obtain s where s: "json_get raw ''measurement_name'' = JStr s" "map_of CANONICAL_UNITS s \<noteq> None"
    unfolding in_frozenset_Ok supported_unit by blast
  from v have v': "json_get raw ''event_version'' = JStr INPUT_EVENT_VERSION"
    unfolding in_frozenset_Ok by auto
  from assms a s v v' n show "te_asset_id ev \<noteq> []" "te_event_version ev = INPUT_EVENT_VERSION"
    "map_of CANONICAL_UNITS (te_measurement_name ev) = Some (te_unit ev)"
    by (auto simp: validate_telemetry_event_def res_bind_Ok_iff Let_def json_str_def split: if_splits)
qed

definition pending_wf :: "PendingSample \<Rightarrow> bool" where
  "pending_wf p \<longleftrightarrow>
     dict_wf (ps_values p) \<and> dict_wf (ps_units p) \<and> dict_wf (ps_event_ids p) \<and>
     dom (map_of (ps_units p)) = dom (map_of (ps_values p)) \<and>
     dom (map_of (ps_event_ids p)) = dom (map_of (ps_values p)) \<and>
     (\<forall>n u. map_of (ps_units p) n = Some u \<longrightarrow> map_of CANONICAL_UNITS n = Some u) \<and>
     (\<forall>n i. map_of (ps_event_ids p) n = Some i \<longrightarrow> i \<noteq> [])"

lemma pending_wf_empty [simp]: "pending_wf (empty_pending now)"
  by (simp add: pending_wf_def empty_pending_def dict_wf_def)

lemma pending_wf_add: "pending_wf p \<Longrightarrow> event_wf ev \<Longrightarrow> pending_wf (add_reading ev p)"
  by (auto simp: pending_wf_def add_reading_def event_wf_def)

lemma dict_keys_dom: "set (dict_keys d) = dom (map_of d)"
  by (simp add: dict_keys_def dom_map_of_conv_image_fst)

definition reading_names :: "PendingSample \<Rightarrow> string list" where
  "reading_names p = filter (\<lambda>name. name \<in> set (dict_keys (ps_values p))) MEASUREMENT_ORDER"

definition sample_of :: "string \<Rightarrow> datetime \<Rightarrow> PendingSample \<Rightarrow> InferenceTelemetrySample" where
  "sample_of asset ts p =
     \<lparr>ts_asset_id = asset, ts_timestamp = ts,
      ts_values = map (\<lambda>n. (n, the (map_of (ps_values p) n))) (reading_names p),
      ts_units = map (\<lambda>n. (n, the (map_of CANONICAL_UNITS n))) (reading_names p)\<rparr>"

lemma order_distinct: "distinct MEASUREMENT_ORDER"
  by code_simp

lemma order_supported: "list_all (\<lambda>n. map_of CANONICAL_UNITS n \<noteq> None \<and> n \<noteq> []) MEASUREMENT_ORDER"
  by code_simp

lemma order_complete: "set MEASUREMENT_ORDER = set SUPPORTED_MEASUREMENTS"
  by (auto simp: MEASUREMENT_ORDER_def REQUIRED_MEASUREMENTS_def DEFAULT_MEASUREMENTS_def
      SUPPORTED_MEASUREMENTS_def CANONICAL_UNITS_def dict_keys_def)

lemma sample_fold:
  assumes "distinct ns" "\<forall>n \<in> set ns. map_of CANONICAL_UNITS n = Some (u n)"
    and "set ns \<inter> fst ` set vals = {}" "set ns \<inter> fst ` set units = {}"
  shows "res_fold sample_step
      (map (\<lambda>n. \<lparr>obs_id = i n, obs_asset_id = asset, obs_timestamp = ts,
          obs_measurement_type = MeasurementType n, obs_value = v n, obs_unit = u n\<rparr>) ns) (vals, units) =
    Ok (vals @ map (\<lambda>n. (n, v n)) ns, units @ map (\<lambda>n. (n, u n)) ns)"
  using assms
proof (induction ns arbitrary: vals units)
  case (Cons n ns)
  then have "sample_step \<lparr>obs_id = i n, obs_asset_id = asset, obs_timestamp = ts,
      obs_measurement_type = MeasurementType n, obs_value = v n, obs_unit = u n\<rparr> (vals, units) =
    Ok (vals @ [(n, v n)], units @ [(n, u n)])"
    by (auto simp: sample_step_def dict_keys_def dict_set_new)
  with Cons.IH [of "vals @ [(n, v n)]" "units @ [(n, u n)]"] Cons.prems show ?case by auto
qed simp

lemma reading_observation_Ok:
  assumes "pending_wf p" "te_asset_id ev \<noteq> []" "n \<in> set (reading_names p)"
  shows "reading_observation ev p n =
    Ok \<lparr>obs_id = the (map_of (ps_event_ids p) n), obs_asset_id = te_asset_id ev,
        obs_timestamp = te_timestamp ev, obs_measurement_type = MeasurementType n,
        obs_value = the (map_of (ps_values p) n), obs_unit = the (map_of CANONICAL_UNITS n)\<rparr>"
proof -
  from assms(3) have n: "n \<in> dom (map_of (ps_values p))" "n \<in> set MEASUREMENT_ORDER"
    by (simp_all add: reading_names_def dict_keys_dom)
  from n(2) have "n \<noteq> []" using order_supported by (auto simp: list_all_iff)
  from n(1) assms(1) obtain v i u where vs: "map_of (ps_values p) n = Some v"
    "map_of (ps_event_ids p) n = Some i" "map_of (ps_units p) n = Some u"
    unfolding pending_wf_def by (metis domD)
  then have iu: "i \<noteq> []" "map_of CANONICAL_UNITS n = Some u"
    using assms(1) unfolding pending_wf_def by auto
  have "u \<noteq> []" using map_of_SomeD [OF iu(2)] by (auto simp: CANONICAL_UNITS_def)
  with vs iu \<open>n \<noteq> []\<close> assms(2) show ?thesis
    by (simp add: reading_observation_def dict_item_def mk_measurement_type_def mk_observation_def construct_Cons)
qed

lemma complete_sample_Ok:
  assumes wf: "pending_wf p" and ev: "te_asset_id ev \<noteq> []" and full: "missing_measurements (ps_values p) = []"
  shows "complete_sample ev p = Ok (sample_of (te_asset_id ev) (te_timestamp ev) p)"
proof -
  let ?ns = "reading_names p"
  let ?ob = "\<lambda>n. \<lparr>obs_id = the (map_of (ps_event_ids p) n), obs_asset_id = te_asset_id ev,
        obs_timestamp = te_timestamp ev, obs_measurement_type = MeasurementType n,
        obs_value = the (map_of (ps_values p) n), obs_unit = the (map_of CANONICAL_UNITS n)\<rparr>"
  have obs: "res_map (reading_observation ev p) ?ns = Ok (map ?ob ?ns)"
    by (rule res_map_pure) (rule reading_observation_Ok [OF wf ev])
  have dist: "distinct ?ns" using order_distinct by (simp add: reading_names_def)
  have sup: "\<forall>n \<in> set ?ns. map_of CANONICAL_UNITS n = Some (the (map_of CANONICAL_UNITS n))"
    using order_supported by (auto simp: reading_names_def list_all_iff)
  from full have req: "set REQUIRED_MEASUREMENTS \<subseteq> set ?ns"
    by (auto simp: missing_measurements_def filter_empty_conv reading_names_def MEASUREMENT_ORDER_def)
  then have ne: "?ns \<noteq> []" by (auto simp: REQUIRED_MEASUREMENTS_def DEFAULT_MEASUREMENTS_def)
  have keys: "map_of (map (\<lambda>n. (n, f n)) ns) = (\<lambda>n. if n \<in> set ns then Some (f n) else None)" for f ns
    by (induction ns) auto
  have miss: "missing_measurements (map (\<lambda>n. (n, the (map_of (ps_values p) n))) ?ns) = []"
    using req by (auto simp: missing_measurements_def filter_empty_conv dict_keys_def)
  have one: "card (set (map obs_asset_id (map ?ob ?ns))) = 1" "card (set (map obs_timestamp (map ?ob ?ns))) = 1"
    using ne by (simp_all add: image_constant_conv)
  have hd: "obs_asset_id (hd (map ?ob ?ns)) = te_asset_id ev" "obs_timestamp (hd (map ?ob ?ns)) = te_timestamp ev"
    using ne by (simp_all add: hd_map)
  have "from_observations (map ?ob ?ns) = Ok (sample_of (te_asset_id ev) (te_timestamp ev) p)"
    using sample_fold [OF dist sup, of "[]" "[]"] ne miss one hd ev
    by (simp add: from_observations_def mk_telemetry_sample_def construct_Cons sample_of_def dict_keys_def comp_def
        image_image)
  with obs show ?thesis by (simp add: complete_sample_def reading_names_def)
qed

section \<open>The assembler invariant\<close>

text \<open>
  Bounded buffers with distinct keys, and no complete sample left waiting.
\<close>

definition open_wf :: "PendingSample \<Rightarrow> bool" where
  "open_wf p \<longleftrightarrow> pending_wf p \<and> missing_measurements (ps_values p) \<noteq> []"

definition buffer_wf :: "int \<Rightarrow> AssetBuffer \<Rightarrow> bool" where
  "buffer_wf bound b \<longleftrightarrow>
     dict_wf (ab_pending b) \<and> int (length (ab_pending b)) \<le> bound \<and>
     (\<forall>e \<in> set (ab_pending b). open_wf (snd e))"

definition assembler_wf :: "SampleAssembler \<Rightarrow> bool" where
  "assembler_wf a \<longleftrightarrow>
     1 \<le> sa_max_assets a \<and> 1 \<le> sa_max_buffered a \<and> dict_wf (sa_buffers a) \<and>
     int (length (sa_buffers a)) \<le> sa_max_assets a \<and>
     (\<forall>e \<in> set (sa_buffers a). buffer_wf (sa_max_buffered a) (snd e))"

text \<open>Which samples are being assembled, and which ones a list of outcomes accounts for.\<close>

definition open_samples :: "SampleAssembler \<Rightarrow> (string \<times> datetime) set" where
  "open_samples a = {(k, t). \<exists>b. (k, b) \<in> set (sa_buffers a) \<and> t \<in> fst ` set (ab_pending b)}"

definition reported :: "AssemblyOutcome list \<Rightarrow> (string \<times> datetime) set" where
  "reported outs = {(k, t). \<exists>o1 \<in> set outs. ao_status o1 \<noteq> PENDING \<and>
     ao_asset_id o1 = Some k \<and> ao_source_timestamp o1 = Some t}"

lemma reported_simps [simp]:
  "reported [] = {}" "reported (xs @ ys) = reported xs \<union> reported ys"
  "reported (rejected k t r d # xs) = insert (k, t) (reported xs)"
  "reported (complete_outcome k t s # xs) = insert (k, t) (reported xs)"
  "reported (pending_outcome k t # xs) = reported xs"
  by (auto simp: reported_def rejected_def complete_outcome_def pending_outcome_def)

lemma reported_incomplete [simp]:
  "reported (map (incomplete_timeout d k) es) = {k} \<times> fst ` set es"
  by (induction es) (auto simp: incomplete_timeout_def)

lemma missing_empty [simp]: "missing_measurements [] \<noteq> []"
  by (simp add: missing_measurements_def dict_keys_def REQUIRED_MEASUREMENTS_def DEFAULT_MEASUREMENTS_def)

lemma open_wf_empty: "open_wf (empty_pending now)"
  by (simp add: open_wf_def) (simp add: empty_pending_def)

text \<open>The outcome of a reading, by cases: the sample stays open, or it is closed and reported.\<close>

lemma ingest_reading_cases:
  assumes p: "open_wf p" and ev: "event_wf ev"
  obtains (stays) p' where "open_wf p'"
      "ingest_reading a b p ev = Ok (pending_outcome (te_asset_id ev) (te_timestamp ev),
         put_buffer a (te_asset_id ev) (b\<lparr>ab_pending := dict_set (te_timestamp ev) p' (ab_pending b)\<rparr>))"
  | (closed) o1 b' where "reported [o1] = {(te_asset_id ev, te_timestamp ev)}"
      "ab_pending b' = dict_del (te_timestamp ev) (ab_pending b)"
      "ingest_reading a b p ev = Ok (o1, put_buffer a (te_asset_id ev) b')"
proof (cases "map_of (ps_values p) (te_measurement_name ev)")
  case (Some v)
  with p obtain u where u: "map_of (ps_units p) (te_measurement_name ev) = Some u"
    unfolding open_wf_def pending_wf_def by blast
  show thesis
  proof (cases "v = te_value ev \<and> u = te_unit ev")
    case True
    with Some u show thesis by (intro stays [OF p]) (simp add: ingest_reading_def dict_item_def Let_def)
  next
    case False
    with Some u show thesis
      by (intro closed [of "rejected (te_asset_id ev) (te_timestamp ev) ''conflicting_duplicate''
            (''measurement '' @ py_repr (te_measurement_name ev) @
             '' conflicts with an already-buffered value for this asset/timestamp'')"
            "b\<lparr>ab_pending := dict_del (te_timestamp ev) (ab_pending b)\<rparr>"])
         (auto simp: ingest_reading_def dict_item_def Let_def)
  qed
next
  case None
  have wf: "pending_wf (add_reading ev p)" using p ev by (simp add: open_wf_def pending_wf_add)
  show thesis
  proof (cases "missing_measurements (ps_values (add_reading ev p)) = []")
    case False
    with None wf show thesis
      by (intro stays [of "add_reading ev p"]) (simp_all add: open_wf_def ingest_reading_def Let_def)
  next
    case True
    from complete_sample_Ok [OF wf _ True] ev have
      "complete_sample ev (add_reading ev p) = Ok (sample_of (te_asset_id ev) (te_timestamp ev) (add_reading ev p))"
      by (simp add: event_wf_def)
    with None True show thesis
      by (intro closed [of "complete_outcome (te_asset_id ev) (te_timestamp ev)
             (sample_of (te_asset_id ev) (te_timestamp ev) (add_reading ev p))"
            "b\<lparr>ab_pending := dict_del (te_timestamp ev) (ab_pending b), ab_latest_processed := Some (te_timestamp ev)\<rparr>"])
         (auto simp: ingest_reading_def Let_def)
  qed
qed

lemma dict_del_subset: "set (dict_del k d) \<subseteq> set d" "length (dict_del k d) \<le> length d"
  by (auto simp: dict_del_def)

lemma fst_set_dict_del: "fst ` set (dict_del k d) = fst ` set d - {k}"
  by (auto simp: dict_del_def image_iff)

lemma set_dict_set: "set (dict_set k v d) \<subseteq> insert (k, v) (set d)"
  by (induction d) (auto split: if_splits)

lemma buffer_wf_set:
  assumes "buffer_wf bound b" "open_wf p"
    and "t \<in> fst ` set (ab_pending b) \<or> int (length (ab_pending b)) < bound"
  shows "buffer_wf bound (b\<lparr>ab_pending := dict_set t p (ab_pending b)\<rparr>)"
  using assms set_dict_set [of t p "ab_pending b"]
  by (auto simp: buffer_wf_def length_dict_set)

lemma buffer_wf_del:
  "buffer_wf bound b \<Longrightarrow> ab_pending b' = dict_del t (ab_pending b) \<Longrightarrow> buffer_wf bound b'"
  using dict_del_subset [of t "ab_pending b"] by (fastforce simp: buffer_wf_def)

definition buffer_samples :: "string \<Rightarrow> AssetBuffer \<Rightarrow> (string \<times> datetime) set" where
  "buffer_samples k b = {k} \<times> fst ` set (ab_pending b)"

lemma buffer_samples_idle [simp]: "buffer_samples k (b\<lparr>ab_last_active := now\<rparr>) = buffer_samples k b"
  by (simp add: buffer_samples_def)

lemma buffer_for_Ok:
  assumes wf: "assembler_wf a"
  obtains buffer evicted rest where
    "buffer_for a asset now = Ok (buffer, evicted, a\<lparr>sa_buffers := rest @ [(asset, buffer)]\<rparr>)"
    "buffer_wf (sa_max_buffered a) buffer" "asset \<notin> fst ` set rest" "dict_wf rest"
    "set rest \<subseteq> set (sa_buffers a)" "int (length rest) < sa_max_assets a"
    "open_samples a \<subseteq> buffer_samples asset buffer \<union>
       open_samples (a\<lparr>sa_buffers := rest\<rparr>) \<union> reported evicted"
proof (cases "map_of (sa_buffers a) asset")
  case (Some b)
  let ?rest = "dict_del asset (sa_buffers a)"
  have mem: "(asset, b) \<in> set (sa_buffers a)" using Some by (rule map_of_SomeD)
  have del: "(k, c) \<in> set ?rest \<or> k = asset \<and> c = b" if "(k, c) \<in> set (sa_buffers a)" for k c
  proof -
    have "map_of (sa_buffers a) k = Some c"
      using that wf by (simp add: assembler_wf_def dict_wf_def)
    with Some that show ?thesis by (auto simp: dict_del_def)
  qed
  have len: "length ?rest < length (sa_buffers a)"
    unfolding dict_del_def using mem by (intro length_filter_less [of "(asset, b)"]) simp_all
  show thesis
  proof (rule that [of b "[]" ?rest])
    show "buffer_for a asset now = Ok (b, [], a\<lparr>sa_buffers := ?rest @ [(asset, b)]\<rparr>)"
      using Some by (simp add: buffer_for_def)
    show "buffer_wf (sa_max_buffered a) b" using mem wf by (auto simp: assembler_wf_def)
    show "open_samples a \<subseteq> buffer_samples asset b \<union>
       open_samples (a\<lparr>sa_buffers := ?rest\<rparr>) \<union> reported []"
      using del by (force simp: open_samples_def buffer_samples_def)
  qed (use wf len dict_del_subset(1) [of asset "sa_buffers a"] in \<open>auto simp: assembler_wf_def fst_set_dict_del\<close>)
next
  case None
  then have new: "asset \<notin> fst ` set (sa_buffers a)" by (simp add: map_of_eq_None_iff)
  have nb: "buffer_wf (sa_max_buffered a) (new_buffer now)"
    using wf by (simp add: buffer_wf_def new_buffer_def dict_wf_def assembler_wf_def)
  show thesis
  proof (cases "int (length (sa_buffers a)) \<ge> sa_max_assets a")
    case False
    with None new nb wf show thesis
      by (intro that [of "new_buffer now" "[]" "sa_buffers a"]) (auto simp: buffer_for_def assembler_wf_def)
  next
    case True
    then obtain k0 b0 rest where a: "sa_buffers a = (k0, b0) # rest"
      using wf by (cases "sa_buffers a") (auto simp: assembler_wf_def)
    let ?evicted = "map (incomplete_timeout
      ''asset session evicted to stay within max_tracked_assets; missing measurement(s): '' k0) (ab_pending b0)"
    show thesis
    proof (rule that [of "new_buffer now" ?evicted rest])
      show "buffer_for a asset now = Ok (new_buffer now, ?evicted, a\<lparr>sa_buffers := rest @ [(asset, new_buffer now)]\<rparr>)"
        using None True a by (simp add: buffer_for_def)
      show "open_samples a \<subseteq> buffer_samples asset (new_buffer now) \<union>
         open_samples (a\<lparr>sa_buffers := rest\<rparr>) \<union> reported ?evicted"
        using a by (force simp: open_samples_def buffer_samples_def)
    qed (use wf new nb a in \<open>auto simp: assembler_wf_def dict_wf_def\<close>)
  qed
qed

lemma make_room_Ok:
  assumes "buffer_wf bound b" "1 \<le> bound" "sa_max_buffered a = bound"
  obtains b1 dropped where "make_room a b asset = Ok (b1, dropped)" "buffer_wf bound b1"
    "int (length (ab_pending b1)) < bound"
    "fst ` set (ab_pending b1) \<subseteq> fst ` set (ab_pending b)"
    "buffer_samples asset b \<subseteq> buffer_samples asset b1 \<union> reported dropped"
proof (cases "int (length (ab_pending b)) < bound")
  case True
  with assms show thesis by (intro that [of b "[]"]) (auto simp: make_room_def)
next
  case False
  then obtain e rest where e: "ab_pending b = e # rest"
    using assms(2) by (cases "ab_pending b") auto
  show thesis
    by (rule that [of "b\<lparr>ab_pending := rest\<rparr>" "[incomplete_timeout
          ''evicted to stay within max_buffered_timestamps_per_asset; missing measurement(s): '' asset e]"])
       (use assms False e reported_incomplete [of _ asset "[e]"] in
         \<open>auto simp: make_room_def buffer_wf_def dict_wf_def buffer_samples_def\<close>)
qed

lemma put_last:
  "asset \<notin> fst ` set rest \<Longrightarrow>
   put_buffer (a\<lparr>sa_buffers := rest @ [(asset, b)]\<rparr>) asset b' = a\<lparr>sa_buffers := rest @ [(asset, b')]\<rparr>"
proof -
  assume "asset \<notin> fst ` set rest"
  then have "dict_set asset b' (rest @ [(asset, b)]) = rest @ [(asset, b')]"
    by (induction rest) auto
  then show ?thesis by (simp add: put_buffer_def)
qed

lemma open_samples_snoc:
  "open_samples (a\<lparr>sa_buffers := rest @ [(asset, b)]\<rparr>) =
     open_samples (a\<lparr>sa_buffers := rest\<rparr>) \<union> buffer_samples asset b"
  by (auto simp: open_samples_def buffer_samples_def)

lemma assembler_wf_snoc:
  assumes "assembler_wf a" "asset \<notin> fst ` set rest" "dict_wf rest" "set rest \<subseteq> set (sa_buffers a)"
    "int (length rest) < sa_max_assets a" "buffer_wf (sa_max_buffered a) b"
  shows "assembler_wf (a\<lparr>sa_buffers := rest @ [(asset, b)]\<rparr>)"
  using assms by (auto simp: assembler_wf_def dict_wf_def)

text \<open>Whatever the reading's fate, the buffer stays well-formed and the books stay balanced.\<close>

lemma ingest_reading_Ok:
  assumes ev: "event_wf ev" and p: "open_wf p" and b: "buffer_wf bound b"
    and slot: "te_timestamp ev \<in> fst ` set (ab_pending b) \<or> int (length (ab_pending b)) < bound"
    and new: "te_asset_id ev \<notin> fst ` set rest"
  obtains o1 b' where
    "ingest_reading (a\<lparr>sa_buffers := rest @ [(te_asset_id ev, b0)]\<rparr>) b p ev =
       Ok (o1, a\<lparr>sa_buffers := rest @ [(te_asset_id ev, b')]\<rparr>)"
    "buffer_wf bound b'"
    "insert (te_asset_id ev, te_timestamp ev) (buffer_samples (te_asset_id ev) b) \<subseteq>
       buffer_samples (te_asset_id ev) b' \<union> reported [o1]"
  using p ev
proof (cases rule: ingest_reading_cases [where a = "a\<lparr>sa_buffers := rest @ [(te_asset_id ev, b0)]\<rparr>" and b = b])
  case (stays p')
  with buffer_wf_set [OF b stays(1) slot] put_last [OF new] show thesis
    by (intro that [of "pending_outcome (te_asset_id ev) (te_timestamp ev)"
          "b\<lparr>ab_pending := dict_set (te_timestamp ev) p' (ab_pending b)\<rparr>"]) (auto simp: buffer_samples_def)
next
  case (closed o1 b')
  with buffer_wf_del [OF b closed(2)] put_last [OF new] show thesis
    by (intro that [of o1 b']) (auto simp: fst_set_dict_del buffer_samples_def)
qed

lemma assembler_ingest_Ok:
  assumes wf: "assembler_wf a" and ev: "event_wf ev"
  obtains outs a' where "assembler_ingest a ev now = Ok (outs, a')" "assembler_wf a'"
    "open_samples a \<subseteq> open_samples a' \<union> reported outs"
    "(te_asset_id ev, te_timestamp ev) \<in> open_samples a' \<union> reported outs"
proof -
  let ?k = "te_asset_id ev" and ?m = "sa_max_buffered a"
  from buffer_for_Ok [OF wf, of ?k now] obtain b0 evicted rest where
    bf: "buffer_for a ?k now = Ok (b0, evicted, a\<lparr>sa_buffers := rest @ [(?k, b0)]\<rparr>)"
    and b0: "buffer_wf ?m b0"
    and rest: "?k \<notin> fst ` set rest" "dict_wf rest" "set rest \<subseteq> set (sa_buffers a)" "int (length rest) < sa_max_assets a"
    and books: "open_samples a \<subseteq> buffer_samples ?k b0 \<union>
       open_samples (a\<lparr>sa_buffers := rest\<rparr>) \<union> reported evicted" by metis
  let ?b = "b0\<lparr>ab_last_active := now\<rparr>"
  have b: "buffer_wf ?m ?b" using b0 by (simp add: buffer_wf_def)
  note snoc = assembler_wf_snoc [OF wf rest]
  show thesis
  proof (cases "is_late ?b ev")
    case True
    with bf rest(1) show thesis
      using books snoc [OF b]
      by (intro that [of "evicted @ [rejected ?k (te_timestamp ev) ''late''
            (late_detail ev (the (ab_latest_processed ?b)))]" "a\<lparr>sa_buffers := rest @ [(?k, ?b)]\<rparr>"])
         (auto simp: assembler_ingest_def Let_def put_last open_samples_snoc)
  next
    case late: False
    show thesis
    proof (cases "map_of (ab_pending ?b) (te_timestamp ev)")
      case (Some p)
      then have mem: "(te_timestamp ev, p) \<in> set (ab_pending ?b)" by (rule map_of_SomeD)
      then have p: "open_wf p" using b by (auto simp: buffer_wf_def)
      from mem have slot: "te_timestamp ev \<in> fst ` set (ab_pending ?b) \<or> int (length (ab_pending ?b)) < ?m"
        by force
      from ingest_reading_Ok [OF ev p b slot rest(1), where a = a and ?b0.0 = b0] obtain o1 b' where
        ir: "ingest_reading (a\<lparr>sa_buffers := rest @ [(?k, b0)]\<rparr>) ?b p ev =
               Ok (o1, a\<lparr>sa_buffers := rest @ [(?k, b')]\<rparr>)"
        and b': "buffer_wf ?m b'"
        and acc: "insert (?k, te_timestamp ev) (buffer_samples ?k ?b) \<subseteq>
               buffer_samples ?k b' \<union> reported [o1]" by metis
      from bf late Some ir have "assembler_ingest a ev now = Ok (evicted @ [o1], a\<lparr>sa_buffers := rest @ [(?k, b')]\<rparr>)"
        by (simp add: assembler_ingest_def Let_def)
      from that [OF this snoc [OF b']] books acc show thesis
        unfolding open_samples_snoc reported_simps buffer_samples_idle by blast
    next
      case None
      from wf have "1 \<le> ?m" by (simp add: assembler_wf_def)
      from make_room_Ok [OF b this refl, of ?k] obtain b1 dropped where
        mr: "make_room a ?b ?k = Ok (b1, dropped)" and b1: "buffer_wf ?m b1" "int (length (ab_pending b1)) < ?m"
        and drop: "buffer_samples ?k ?b \<subseteq> buffer_samples ?k b1 \<union> reported dropped"
        by metis
      from mr have mr': "make_room (a\<lparr>sa_buffers := rest @ [(?k, b0)]\<rparr>) ?b ?k = Ok (b1, dropped)"
        by (simp add: make_room_def)
      from ingest_reading_Ok [OF ev open_wf_empty b1(1) _ rest(1), where a = a and ?b0.0 = b0] b1(2) obtain o1 b' where
        ir: "ingest_reading (a\<lparr>sa_buffers := rest @ [(?k, b0)]\<rparr>) b1 (empty_pending now) ev =
               Ok (o1, a\<lparr>sa_buffers := rest @ [(?k, b')]\<rparr>)"
        and b': "buffer_wf ?m b'"
        and acc: "insert (?k, te_timestamp ev) (buffer_samples ?k b1) \<subseteq>
               buffer_samples ?k b' \<union> reported [o1]" by metis
      from bf late None mr' ir have
        "assembler_ingest a ev now = Ok (evicted @ dropped @ [o1], a\<lparr>sa_buffers := rest @ [(?k, b')]\<rparr>)"
        by (simp add: assembler_ingest_def Let_def)
      from that [OF this snoc [OF b']] books acc drop show thesis
        unfolding open_samples_snoc reported_simps buffer_samples_idle by blast
    qed
  qed
qed

section \<open>The assembler as a driven machine\<close>

datatype assembler_input = Ingest TelemetryObservationEvent pyfloat | Sweep pyfloat

text \<open>One call on the assembler; a call that raises leaves the last state standing.\<close>

definition assembler_step :: "assembler_input \<Rightarrow> SampleAssembler \<Rightarrow> SampleAssembler" where
  "assembler_step i a =
     (case i of
        Ingest ev now \<Rightarrow> (case assembler_ingest a ev now of Inr (outs, a') \<Rightarrow> a' | Inl _ \<Rightarrow> a)
      | Sweep now \<Rightarrow> snd (sweep_timeouts a now))"

definition assembler_input_ok :: "assembler_input \<Rightarrow> bool" where
  "assembler_input_ok i = (case i of Ingest ev now \<Rightarrow> event_wf ev | Sweep now \<Rightarrow> True)"

lemma buffer_wf_filter:
  assumes "buffer_wf bound b"
  shows "buffer_wf bound (b\<lparr>ab_pending := filter P (ab_pending b)\<rparr>)"
proof -
  have "int (length (ab_pending b)) \<le> bound" using assms by (simp add: buffer_wf_def)
  then have "int (length (filter P (ab_pending b))) \<le> bound"
    using length_filter_le [of P "ab_pending b"] by linarith
  with assms show ?thesis by (auto simp: buffer_wf_def dict_wf_def distinct_map_filter)
qed

lemma sweep_wf: "assembler_wf a \<Longrightarrow> assembler_wf (snd (sweep_timeouts a now))"
  by (auto simp: assembler_wf_def sweep_timeouts_def dict_wf_def comp_def case_prod_unfold
      intro!: buffer_wf_filter)

lemma sweep_books:
  "open_samples a = open_samples (snd (sweep_timeouts a now)) \<union> reported (fst (sweep_timeouts a now))"
proof -
  have rep: "reported (concat outs) = (\<Union>o1 \<in> set outs. reported o1)" for outs
    by (induction outs) auto
  show ?thesis
    unfolding sweep_timeouts_def fst_conv snd_conv rep
    by (force simp: open_samples_def)
qed

interpretation asm: driven_machine assembler_step
    "mk_assembler timeout_seconds (1 + int buffered) (1 + int assets)" assembler_input_ok assembler_wf
  for timeout_seconds buffered assets
proof unfold_locales
  show "assembler_wf (mk_assembler timeout_seconds (1 + int buffered) (1 + int assets))"
    by (simp add: assembler_wf_def mk_assembler_def dict_wf_def)
next
  fix a i assume wf: "assembler_wf a" and ok: "assembler_input_ok i"
  show "assembler_wf (assembler_step i a)"
  proof (cases i)
    case (Ingest ev now)
    with ok have "event_wf ev" by (simp add: assembler_input_ok_def)
    from assembler_ingest_Ok [OF wf this, of now] obtain outs a' where
      "assembler_ingest a ev now = Ok (outs, a')" "assembler_wf a'" .
    then show ?thesis by (simp add: Ingest assembler_step_def)
  next
    case (Sweep now)
    with sweep_wf [OF wf] show ?thesis by (simp add: assembler_step_def)
  qed
qed

definition same_limits :: "SampleAssembler \<Rightarrow> SampleAssembler \<Rightarrow> bool" where
  "same_limits a a' \<longleftrightarrow> sa_max_assets a' = sa_max_assets a \<and> sa_max_buffered a' = sa_max_buffered a"

lemma buffer_for_limits: "buffer_for a k now = Ok (b, outs, a') \<Longrightarrow> same_limits a a'"
  by (auto simp: buffer_for_def same_limits_def split: option.splits if_splits list.splits)

lemma ingest_reading_limits: "ingest_reading a b p ev = Ok (o1, a') \<Longrightarrow> same_limits a a'"
  by (auto simp: ingest_reading_def same_limits_def put_buffer_def Let_def res_bind_Ok_iff
      split: option.splits if_splits)

lemma same_limits_trans: "same_limits a a' \<Longrightarrow> same_limits a' a'' \<Longrightarrow> same_limits a a''"
  by (simp add: same_limits_def)

lemma assembler_ingest_limits:
  assumes "assembler_ingest a ev now = Ok (outs, a')"
  shows "same_limits a a'"
proof -
  from assms obtain b0 evicted a1 where b: "buffer_for a (te_asset_id ev) now = Ok (b0, evicted, a1)"
    by (auto simp: assembler_ingest_def res_bind_Ok_iff)
  have "same_limits a1 a'"
    using assms b ingest_reading_limits
    by (auto simp: assembler_ingest_def res_bind_Ok_iff Let_def same_limits_def put_buffer_def
        split: if_splits option.splits)
  with buffer_for_limits [OF b] show ?thesis by (rule same_limits_trans)
qed

lemma assembler_step_limits: "same_limits a (assembler_step i a)"
  using assembler_ingest_limits
  by (auto simp: assembler_step_def sweep_timeouts_def same_limits_def
      split: sum.splits assembler_input.splits)

section \<open>Arrival order\<close>

fun ingest_all ::
    "SampleAssembler \<Rightarrow> (TelemetryObservationEvent \<times> pyfloat) list \<Rightarrow>
     (AssemblyOutcome list \<times> SampleAssembler) result" where
  "ingest_all a [] = Ok ([], a)"
| "ingest_all a ((ev, now) # rest) =
     res_bind (assembler_ingest a ev now) (\<lambda>(outs, a').
     res_bind (ingest_all a' rest) (\<lambda>(outs', a''). Ok (outs @ outs', a'')))"

text \<open>The assembler holds an open sample \<open>p\<close> for this asset and instant.\<close>

definition holds_open :: "SampleAssembler \<Rightarrow> string \<Rightarrow> datetime \<Rightarrow> PendingSample \<Rightarrow> bool" where
  "holds_open a k t p \<longleftrightarrow>
     (\<exists>b. map_of (sa_buffers a) k = Some b \<and> map_of (ab_pending b) t = Some p \<and>
          (case ab_latest_processed b of None \<Rightarrow> True | Some l \<Rightarrow> l < t))"

text \<open>The assembler can open one: no eviction is due and the instant is new.\<close>

definition can_open :: "SampleAssembler \<Rightarrow> string \<Rightarrow> datetime \<Rightarrow> bool" where
  "can_open a k t \<longleftrightarrow>
     (case map_of (sa_buffers a) k of
        None \<Rightarrow> int (length (sa_buffers a)) < sa_max_assets a \<and> 0 < sa_max_buffered a
      | Some b \<Rightarrow> map_of (ab_pending b) t = None \<and> int (length (ab_pending b)) < sa_max_buffered a \<and>
          (case ab_latest_processed b of None \<Rightarrow> True | Some l \<Rightarrow> l < t))"

lemma map_of_moved: "map_of (dict_del k d @ [(k, v)]) = (map_of d)(k \<mapsto> v)"
  by (rule ext) (auto simp: map_add_def split: option.splits)

lemma put_buffer_map: "map_of (sa_buffers (put_buffer a k b)) = (map_of (sa_buffers a))(k \<mapsto> b)"
  by (simp add: put_buffer_def)

lemma ingest_reading_new:
  assumes "map_of (ps_values p) (te_measurement_name ev) = None" "te_asset_id ev = k" "te_timestamp ev = t"
    and late: "case ab_latest_processed b of None \<Rightarrow> True | Some l \<Rightarrow> l < t"
    and "pending_wf (add_reading ev p)" "k \<noteq> []"
  shows "\<exists>a'. ingest_reading a b p ev =
      Ok (if missing_measurements (ps_values (add_reading ev p)) = []
          then complete_outcome k t (sample_of k t (add_reading ev p)) else pending_outcome k t, a') \<and>
    (missing_measurements (ps_values (add_reading ev p)) \<noteq> [] \<longrightarrow> holds_open a' k t (add_reading ev p))"
  using assms complete_sample_Ok [OF assms(5)]
  by (auto simp: ingest_reading_def Let_def holds_open_def put_buffer_map)

lemma ingest_open:
  assumes "holds_open a k t p \<or> can_open a k t \<and> p = empty_pending now"
    and "map_of (ps_values p) (te_measurement_name ev) = None" "te_asset_id ev = k" "te_timestamp ev = t"
    and "pending_wf p" "event_wf ev"
  shows "\<exists>a'. assembler_ingest a ev now =
      Ok ([if missing_measurements (ps_values (add_reading ev p)) = []
           then complete_outcome k t (sample_of k t (add_reading ev p)) else pending_outcome k t], a') \<and>
    (missing_measurements (ps_values (add_reading ev p)) \<noteq> [] \<longrightarrow> holds_open a' k t (add_reading ev p))"
proof -
  have k: "k \<noteq> []" using assms(3,6) by (simp add: event_wf_def)
  note wf = pending_wf_add [OF assms(5,6)]
  note new = ingest_reading_new [OF assms(2-4) _ wf k]
  from assms(1) show ?thesis
  proof (elim disjE conjE)
    assume "holds_open a k t p"
    then obtain b where b: "map_of (sa_buffers a) k = Some b" "map_of (ab_pending b) t = Some p"
      "case ab_latest_processed b of None \<Rightarrow> True | Some l \<Rightarrow> l < t" by (auto simp: holds_open_def)
    then have "\<not> is_late (b\<lparr>ab_last_active := now\<rparr>) ev"
      using assms(4) by (auto simp: is_late_def split: option.splits)
    with b new [of "b\<lparr>ab_last_active := now\<rparr>" "a\<lparr>sa_buffers := dict_del k (sa_buffers a) @ [(k, b)]\<rparr>"] assms(3,4)
    show ?thesis by (auto simp: assembler_ingest_def buffer_for_def Let_def)
  next
    assume c: "can_open a k t" and p: "p = empty_pending now"
    show ?thesis
    proof (cases "map_of (sa_buffers a) k")
      case (Some b)
      with c have b: "map_of (ab_pending b) t = None" "int (length (ab_pending b)) < sa_max_buffered a"
        "case ab_latest_processed b of None \<Rightarrow> True | Some l \<Rightarrow> l < t" by (simp_all add: can_open_def)
      then have "\<not> is_late (b\<lparr>ab_last_active := now\<rparr>) ev"
        using assms(4) by (auto simp: is_late_def split: option.splits)
      with Some b new [of "b\<lparr>ab_last_active := now\<rparr>" "a\<lparr>sa_buffers := dict_del k (sa_buffers a) @ [(k, b)]\<rparr>"]
        assms(3,4) p
      show ?thesis by (auto simp: assembler_ingest_def buffer_for_def make_room_def Let_def)
    next
      case None
      with c have "int (length (sa_buffers a)) < sa_max_assets a" "0 < sa_max_buffered a"
        by (simp_all add: can_open_def)
      with None new [of "new_buffer now" "a\<lparr>sa_buffers := sa_buffers a @ [(k, new_buffer now)]\<rparr>"] assms(3,4) p
      show ?thesis
        by (auto simp: assembler_ingest_def buffer_for_def make_room_def new_buffer_def is_late_def Let_def)
    qed
  qed
qed

lemma add_reading_names:
  "dom (map_of (ps_values (add_reading ev p))) = insert (te_measurement_name ev) (dom (map_of (ps_values p)))"
  by (simp add: add_reading_def)

lemma missing_iff:
  "missing_measurements vals = [] \<longleftrightarrow> set REQUIRED_MEASUREMENTS \<subseteq> dom (map_of vals)"
  by (auto simp: missing_measurements_def filter_empty_conv dict_keys_dom)

lemma ingest_all_completes:
  assumes "holds_open a k t p \<or> can_open a k t \<and> (\<exists>now. p = empty_pending now)" "pending_wf p"
    and "arrivals \<noteq> []" "distinct (map (te_measurement_name \<circ> fst) arrivals)"
    and "\<forall>e \<in> set arrivals. event_wf (fst e) \<and> te_asset_id (fst e) = k \<and> te_timestamp (fst e) = t"
    and "dom (map_of (ps_values p)) \<inter> (te_measurement_name \<circ> fst) ` set arrivals = {}"
    and "set REQUIRED_MEASUREMENTS \<subseteq> (te_measurement_name \<circ> fst) ` set arrivals \<union> dom (map_of (ps_values p))"
    and "te_measurement_name (fst (last arrivals)) \<in> set REQUIRED_MEASUREMENTS"
  shows "\<exists>p' a'. ingest_all a arrivals =
      Ok (replicate (length arrivals - 1) (pending_outcome k t) @ [complete_outcome k t (sample_of k t p')], a') \<and>
    map_of (ps_values p') = map_of (ps_values p) ++ map_of (map (\<lambda>e. (te_measurement_name (fst e), te_value (fst e))) arrivals)"
  using assms
proof (induction arrivals arbitrary: a p)
  case (Cons e rest)
  obtain ev now where e: "e = (ev, now)" by (cases e)
  let ?n = "te_measurement_name ev" and ?p = "add_reading ev p"
  have ev: "event_wf ev" "te_asset_id ev = k" "te_timestamp ev = t" using Cons.prems(5) e by auto
  have fresh: "map_of (ps_values p) ?n = None" using Cons.prems(6) e by (auto simp: domIff)
  have vals: "map_of (ps_values ?p) = (map_of (ps_values p))(?n \<mapsto> te_value ev)" by (simp add: add_reading_def)
  define q where "q = (if holds_open a k t p then p else empty_pending now)"
  have q: "pending_wf q" "map_of (ps_values q) = map_of (ps_values p)"
    "holds_open a k t q \<or> can_open a k t \<and> q = empty_pending now"
    using Cons.prems(1,2) by (auto simp: q_def empty_pending_def pending_wf_def dict_wf_def)
  have same: "map_of (ps_values (add_reading ev q)) = map_of (ps_values ?p)" using q(2) by (simp add: add_reading_def)
  note step = ingest_open [OF q(3) _ ev(2,3) q(1) ev(1), unfolded q(2), OF fresh, unfolded missing_iff same vals]
  show ?case
  proof (cases rest)
    case Nil
    then have "set REQUIRED_MEASUREMENTS \<subseteq> dom ((map_of (ps_values p))(?n \<mapsto> te_value ev))"
      using Cons.prems(7) e by auto
    with step obtain a' where "assembler_ingest a ev now =
        Ok ([complete_outcome k t (sample_of k t (add_reading ev q))], a')" by auto
    then have "ingest_all a (e # rest) = Ok (replicate (length (e # rest) - 1) (pending_outcome k t) @
        [complete_outcome k t (sample_of k t (add_reading ev q))], a')" by (simp add: e Nil)
    moreover have "map_of (ps_values (add_reading ev q)) = map_of (ps_values p) ++
        map_of (map (\<lambda>e. (te_measurement_name (fst e), te_value (fst e))) (e # rest))"
      using same vals by (simp add: e Nil)
    ultimately show ?thesis by blast
  next
    case (Cons e' rest')
    have "last rest \<in> set rest" using Cons by simp
    then have "te_measurement_name (fst (last rest)) \<noteq> ?n" "te_measurement_name (fst (last rest)) \<notin> dom (map_of (ps_values p))"
      using Cons.prems(4,6) e by (auto simp: image_iff)
    moreover have "te_measurement_name (fst (last rest)) \<in> set REQUIRED_MEASUREMENTS" using Cons.prems(8) Cons by simp
    ultimately have "\<not> set REQUIRED_MEASUREMENTS \<subseteq> dom ((map_of (ps_values p))(?n \<mapsto> te_value ev))" by auto
    with step obtain a1 where a1: "assembler_ingest a ev now = Ok ([pending_outcome k t], a1)"
      "holds_open a1 k t (add_reading ev q)" by auto
    have "\<exists>p' a'. ingest_all a1 rest =
        Ok (replicate (length rest - 1) (pending_outcome k t) @ [complete_outcome k t (sample_of k t p')], a') \<and>
      map_of (ps_values p') = map_of (ps_values (add_reading ev q)) ++
        map_of (map (\<lambda>e. (te_measurement_name (fst e), te_value (fst e))) rest)"
    proof (rule Cons.IH)
      show "pending_wf (add_reading ev q)" by (rule pending_wf_add [OF q(1) ev(1)])
      show "holds_open a1 k t (add_reading ev q) \<or> can_open a1 k t \<and> (\<exists>now. add_reading ev q = empty_pending now)"
        using a1(2) by (rule disjI1)
      have d: "dom (map_of (ps_values (add_reading ev q))) = insert ?n (dom (map_of (ps_values p)))"
        by (simp add: same vals)
      have n: "?n \<notin> (te_measurement_name \<circ> fst) ` set rest"
        using Cons.prems(4) e by auto
      show "dom (map_of (ps_values (add_reading ev q))) \<inter> (te_measurement_name \<circ> fst) ` set rest = {}"
        using n Cons.prems(6) unfolding d e by auto
      show "set REQUIRED_MEASUREMENTS \<subseteq> (te_measurement_name \<circ> fst) ` set rest \<union> dom (map_of (ps_values (add_reading ev q)))"
        using Cons.prems(7) unfolding d e by auto
      show "te_measurement_name (fst (last rest)) \<in> set REQUIRED_MEASUREMENTS" using Cons.prems(8) Cons by simp
    qed (use Cons.prems(4,5) Cons in auto)
    then obtain p' a' where run: "ingest_all a1 rest =
        Ok (replicate (length rest - 1) (pending_outcome k t) @ [complete_outcome k t (sample_of k t p')], a')"
      and p': "map_of (ps_values p') = map_of (ps_values (add_reading ev q)) ++
        map_of (map (\<lambda>e. (te_measurement_name (fst e), te_value (fst e))) rest)" by blast
    have "?n \<notin> dom (map_of (map (\<lambda>e. (te_measurement_name (fst e), te_value (fst e))) rest))"
      using Cons.prems(4) e by (auto simp: dom_map_of_conv_image_fst image_image)
    from map_add_upd_left [OF this] have "map_of (ps_values p') = map_of (ps_values p) ++
        map_of (map (\<lambda>e. (te_measurement_name (fst e), te_value (fst e))) (e # rest))"
      unfolding p' same vals by (simp add: e)
    moreover have "ingest_all a (e # rest) = Ok (replicate (length (e # rest) - 1) (pending_outcome k t) @
        [complete_outcome k t (sample_of k t p')], a')"
      using run a1(1) Cons by (simp add: e)
    ultimately show ?thesis by blast
  qed
qed simp

lemma columns_order_filter: "filter (\<lambda>n. n \<in> set REQUIRED_MEASUREMENTS) MEASUREMENT_ORDER = REQUIRED_MEASUREMENTS"
  by (simp add: MEASUREMENT_ORDER_def REQUIRED_MEASUREMENTS_def DEFAULT_MEASUREMENTS_def)

section \<open>Properties\<close>

definition demo_events :: "TelemetryObservationEvent list" where
  "demo_events = map (\<lambda>n. \<lparr>te_event_id = ''e-'' @ n, te_event_version = ''v1'', te_asset_id = ''stack-1'',
      te_timestamp = 0, te_measurement_name = n, te_value = 2,
      te_unit = the (map_of CANONICAL_UNITS n), te_source = ''mqtt''\<rparr>) DEFAULT_MEASUREMENTS"

lemma demo_events_wf: "list_all (\<lambda>ev. event_wf ev \<and> te_asset_id ev = ''stack-1'' \<and> te_timestamp ev = 0) demo_events"
  by (simp add: demo_events_def DEFAULT_MEASUREMENTS_def event_wf_def CANONICAL_UNITS_def)

text \<open>
  The assembler's state stays bounded: whatever sequence of valid readings and sweeps it is
  driven with, it tracks at most the configured number of assets, holds at most the configured
  number of open samples for each, and never leaves a complete sample waiting.
\<close>

theorem assembler_bounded:
  assumes "\<forall>i \<in> set inputs. assembler_input_ok i"
  shows "let a = fold assembler_step inputs (mk_assembler timeout_seconds (1 + int buffered) (1 + int assets)) in
    tracked_asset_count a \<le> assets + 1 \<and>
    (\<forall>e \<in> set (sa_buffers a). length (ab_pending (snd e)) \<le> buffered + 1 \<and>
       (\<forall>s \<in> set (ab_pending (snd e)). missing_measurements (ps_values (snd s)) \<noteq> []))"
proof -
  define start where "start = mk_assembler timeout_seconds (1 + int buffered) (1 + int assets)"
  define a where "a = fold assembler_step inputs start"
  have wf: "assembler_wf a" unfolding a_def start_def by (rule asm.inv_run) (rule assms)
  have "same_limits start (fold assembler_step inputs start)"
  proof (induction inputs rule: rev_induct)
    case (snoc i inputs)
    from same_limits_trans [OF this assembler_step_limits] show ?case by simp
  qed (simp add: same_limits_def)
  then have "sa_max_assets a = 1 + int assets" "sa_max_buffered a = 1 + int buffered"
    by (simp_all add: a_def same_limits_def start_def mk_assembler_def)
  with wf show ?thesis unfolding a_def [unfolded start_def, symmetric] Let_def
    by (fastforce simp: assembler_wf_def buffer_wf_def open_wf_def tracked_asset_count_def)
qed

theorem assembler_bounded_witness:
  "tracked_asset_count (fold assembler_step (map (\<lambda>ev. Ingest ev 0) demo_events) (mk_assembler 60 1 1)) \<le> 1"
  using assembler_bounded [of "map (\<lambda>ev. Ingest ev 0) demo_events" 60 0 0] demo_events_wf
  by (auto simp: assembler_input_ok_def list_all_iff Let_def)



text \<open>The sample that one instant's readings make up.\<close>

definition assembled_sample :: "string \<Rightarrow> datetime \<Rightarrow> TelemetryObservationEvent list \<Rightarrow> InferenceTelemetrySample" where
  "assembled_sample k t evs =
     \<lparr>ts_asset_id = k, ts_timestamp = t,
      ts_values = map (\<lambda>n. (n, the (map_of (map (\<lambda>ev. (te_measurement_name ev, te_value ev)) evs) n))) REQUIRED_MEASUREMENTS,
      ts_units = map (\<lambda>n. (n, the (map_of CANONICAL_UNITS n))) REQUIRED_MEASUREMENTS\<rparr>"

lemma arrivals_complete:
  assumes "can_open a k t" "distinct (map te_measurement_name evs)"
    and "te_measurement_name ` set evs = set REQUIRED_MEASUREMENTS"
    and "\<forall>ev \<in> set evs. event_wf ev \<and> te_asset_id ev = k \<and> te_timestamp ev = t"
    and perm: "mset (map fst arrivals) = mset evs"
  shows "\<exists>a'. ingest_all a arrivals =
    Ok (replicate 6 (pending_outcome k t) @ [complete_outcome k t (assembled_sample k t evs)], a')"
proof -
  define f where "f = map_of (map (\<lambda>ev. (te_measurement_name ev, te_value ev)) evs)"
  have names: "mset (map (te_measurement_name \<circ> fst) arrivals) = mset (map te_measurement_name evs)"
      using perm by (metis map_map mset_map)
    then have dist: "distinct (map (te_measurement_name \<circ> fst) arrivals)"
      using assms(2) mset_eq_imp_distinct_iff by blast
    have set_arr: "fst ` set arrivals = set evs" using perm by (metis mset_eq_setD list.set_map)
    have "length evs = length REQUIRED_MEASUREMENTS"
      using assms(2,3) distinct_card [of "map te_measurement_name evs"] distinct_card [of REQUIRED_MEASUREMENTS]
      by (simp add: REQUIRED_MEASUREMENTS_def DEFAULT_MEASUREMENTS_def)
    moreover have "length arrivals = length evs" using perm by (metis length_map size_mset)
    ultimately have len: "length arrivals = 7"
      by (simp add: REQUIRED_MEASUREMENTS_def DEFAULT_MEASUREMENTS_def)
    then have "arrivals \<noteq> []" by auto
    have evs: "\<forall>e \<in> set arrivals. event_wf (fst e) \<and> te_asset_id (fst e) = k \<and> te_timestamp (fst e) = t"
      using assms(4) set_arr by blast
    have none: "dom (map_of (ps_values (empty_pending 0))) = {}" by (simp add: empty_pending_def)
    have all: "(te_measurement_name \<circ> fst) ` set arrivals = set REQUIRED_MEASUREMENTS"
      using assms(3) set_arr by (metis image_comp)
    have newest: "te_measurement_name (fst (last arrivals)) \<in> set REQUIRED_MEASUREMENTS"
      using all last_in_set [OF \<open>arrivals \<noteq> []\<close>] by auto
    have "\<exists>p' a'. ingest_all a arrivals =
        Ok (replicate (length arrivals - 1) (pending_outcome k t) @ [complete_outcome k t (sample_of k t p')], a') \<and>
      map_of (ps_values p') = map_of (ps_values (empty_pending 0)) ++
        map_of (map (\<lambda>e. (te_measurement_name (fst e), te_value (fst e))) arrivals)"
      by (rule ingest_all_completes [OF _ _ \<open>arrivals \<noteq> []\<close> dist evs])
        (use assms(1) none all newest in auto)
    then obtain p' a' where
      run: "ingest_all a arrivals = Ok (replicate 6 (pending_outcome k t) @ [complete_outcome k t (sample_of k t p')], a')"
      and p': "map_of (ps_values p') = map_of (map (\<lambda>e. (te_measurement_name (fst e), te_value (fst e))) arrivals)"
      by (auto simp: len empty_pending_def)
    have eq: "map_of (ps_values p') = f"
      unfolding p' f_def
    proof (subst map_of_inject_set)
      show "set (map (\<lambda>e. (te_measurement_name (fst e), te_value (fst e))) arrivals) =
          set (map (\<lambda>ev. (te_measurement_name ev, te_value ev)) evs)"
        unfolding set_map set_arr [symmetric] by (simp add: image_image)
    qed (use dist assms(2) in \<open>simp_all add: comp_def\<close>)
    have "set REQUIRED_MEASUREMENTS = dom f"
      using assms(3) unfolding f_def by (simp add: dom_map_of_conv_image_fst image_image)
    then have "reading_names p' = REQUIRED_MEASUREMENTS"
      using columns_order_filter by (simp add: reading_names_def dict_keys_dom eq)
    with run eq show ?thesis by (simp add: sample_of_def assembled_sample_def f_def)
qed

lemma assembled_sample_fields:
  assumes "distinct (map te_measurement_name evs)" "te_measurement_name ` set evs = set REQUIRED_MEASUREMENTS"
  shows "ts_asset_id (assembled_sample k t evs) = k" "ts_timestamp (assembled_sample k t evs) = t"
    "dict_keys (ts_values (assembled_sample k t evs)) = REQUIRED_MEASUREMENTS"
    "ev \<in> set evs \<Longrightarrow> map_of (ts_values (assembled_sample k t evs)) (te_measurement_name ev) = Some (te_value ev)"
proof -
  have keys: "map_of (map (\<lambda>n. (n, g n)) ns) n = (if n \<in> set ns then Some (g n) else None)" for g ns and n :: string
    by (induction ns) auto
  show "map_of (ts_values (assembled_sample k t evs)) (te_measurement_name ev) = Some (te_value ev)" if ev: "ev \<in> set evs"
  proof -
    have "map_of (map (\<lambda>ev. (te_measurement_name ev, te_value ev)) evs) (te_measurement_name ev) = Some (te_value ev)"
      using assms(1) ev by (intro map_of_is_SomeI) (auto simp: comp_def)
    with assms(2) ev show ?thesis by (auto simp: assembled_sample_def keys)
  qed
qed (simp_all add: assembled_sample_def dict_keys_def comp_def)

text \<open>
  Arrival order does not matter: the readings of the seven required measurements of one asset
  and instant, in any order and at any times, are pending six times and then complete one and the
  same sample, which holds every reading under its name in the canonical order.
\<close>

theorem assembly_order_independent:
  assumes "can_open a k t" "distinct (map te_measurement_name evs)"
    and "te_measurement_name ` set evs = set REQUIRED_MEASUREMENTS"
    and "\<forall>ev \<in> set evs. event_wf ev \<and> te_asset_id ev = k \<and> te_timestamp ev = t"
  shows "\<exists>sample. ts_asset_id sample = k \<and> ts_timestamp sample = t \<and>
    dict_keys (ts_values sample) = REQUIRED_MEASUREMENTS \<and>
    (\<forall>ev \<in> set evs. map_of (ts_values sample) (te_measurement_name ev) = Some (te_value ev)) \<and>
    (\<forall>arrivals. mset (map fst arrivals) = mset evs \<longrightarrow>
       (\<exists>a'. ingest_all a arrivals = Ok (replicate 6 (pending_outcome k t) @ [complete_outcome k t sample], a')))"
proof (intro exI [of _ "assembled_sample k t evs"] conjI allI impI ballI)
  fix arrivals :: "(TelemetryObservationEvent \<times> pyfloat) list" assume "mset (map fst arrivals) = mset evs"
  with assms show "\<exists>a'. ingest_all a arrivals =
      Ok (replicate 6 (pending_outcome k t) @ [complete_outcome k t (assembled_sample k t evs)], a')"
    by (rule arrivals_complete)
qed (use assembled_sample_fields [OF assms(2,3)] in simp_all)

lemma demo_arrivals: "mset (map fst (map (\<lambda>ev. (ev, 0 :: pyfloat)) demo_events)) = mset demo_events"
  by (simp add: comp_def)

theorem assembly_order_independent_witness:
  "\<exists>sample a'. ingest_all (mk_assembler 60 1 1) (map (\<lambda>ev. (ev, 0)) demo_events) =
     Ok (replicate 6 (pending_outcome ''stack-1'' 0) @ [complete_outcome ''stack-1'' 0 sample], a')"
proof -
  have "can_open (mk_assembler 60 1 1) ''stack-1'' 0" by (simp add: can_open_def mk_assembler_def)
  moreover have "distinct (map te_measurement_name demo_events)"
    "te_measurement_name ` set demo_events = set REQUIRED_MEASUREMENTS"
    by (simp_all add: demo_events_def DEFAULT_MEASUREMENTS_def REQUIRED_MEASUREMENTS_def)
  ultimately obtain sample where "\<forall>arrivals. mset (map fst arrivals) = mset demo_events \<longrightarrow>
       (\<exists>a'. ingest_all (mk_assembler 60 1 1) arrivals =
          Ok (replicate 6 (pending_outcome ''stack-1'' 0) @ [complete_outcome ''stack-1'' 0 sample], a'))"
    using assembly_order_independent [of "mk_assembler 60 1 1" "''stack-1''" 0 demo_events] demo_events_wf
    unfolding list_all_iff by blast
  then have "\<exists>a'. ingest_all (mk_assembler 60 1 1) (map (\<lambda>ev. (ev, 0)) demo_events) =
      Ok (replicate 6 (pending_outcome ''stack-1'' 0) @ [complete_outcome ''stack-1'' 0 sample], a')"
    using demo_arrivals by blast
  then show ?thesis by blast
qed

text \<open>
  Malformed payloads are not all rejected in an orderly way: a JSON payload that is a number
  or null raises a TypeError instead of a validation error, and a validated reading with an empty
  event id is accepted but raises a ValueError when it would complete its sample.
\<close>

theorem payloads_that_escape_validation:
  "(\<exists>m. validate_telemetry_event parse_iso (JInt i) = Err (TypeError m)) \<and>
   (\<exists>m. validate_telemetry_event parse_iso JNull = Err (TypeError m)) \<and>
   (\<exists>m. ingest_all (mk_assembler 60 1 1)
       (map (\<lambda>ev. (ev\<lparr>te_event_id := []\<rparr>, 0)) demo_events) = Err (ValueError m))"
proof -
  have "(case ingest_all (mk_assembler 60 1 1) (map (\<lambda>ev. (ev\<lparr>te_event_id := []\<rparr>, 0)) demo_events) of
      Inl (ValueError m) \<Rightarrow> True | _ \<Rightarrow> False)" by code_simp
  then have "\<exists>m. ingest_all (mk_assembler 60 1 1) (map (\<lambda>ev. (ev\<lparr>te_event_id := []\<rparr>, 0)) demo_events) = Err (ValueError m)"
    by (auto split: sum.splits py_error.splits)
  then show ?thesis
    by (simp add: validate_telemetry_event_def REQUIRED_INPUT_FIELDS_def check_field_def present_field_def Let_def)
qed

end
