(* ===== verification/Alert_Machine.thy ===== *)
theory Alert_Machine
  imports Py_Float
begin

text \<open>
  The fault-alert hysteresis machine
  (\<^verbatim>\<open>src/backend/simulator/dataset/alert_policy/state_machine.py\<close>) and the episode extraction of
  \<^verbatim>\<open>event_metrics.py\<close>. The machine reads one probability row at a time and carries three streak
  counters; the reference definition \<open>spec_event\<close> looks at the whole history of rows since the
  last transition instead, and the two are proved equal on every reachable state.
\<close>

section \<open>Data\<close>

definition HEALTHY_STATE :: string where
  "HEALTHY_STATE = ''healthy''"

definition INSUFFICIENT_DATA_STATE :: string where
  "INSUFFICIENT_DATA_STATE = ''insufficient_data''"

record StateMachineConfig =
  entry_probability :: pyfloat
  entry_persistence :: int
  healthy_exit_probability :: pyfloat
  exit_persistence :: int

record AlertEvent =
  ev_elapsed :: pyfloat
  ev_type :: string
  ev_from :: string
  ev_to :: string
  ev_class :: "string option"

record StateMachineResult =
  smr_row_states :: "string list"
  smr_events :: "AlertEvent list"

definition confirmed_state :: "string \<Rightarrow> string" where
  "confirmed_state fault_class = ''confirmed_'' @ fault_class"

definition pending_state :: "string \<Rightarrow> string" where
  "pending_state fault_class = ''pending_'' @ fault_class"

record AlertMachineState =
  ms_state :: string
  ms_confirmed :: "string option"
  ms_pending :: "string option"
  ms_pending_streak :: int
  ms_exit_streak :: int
  ms_switch :: "string option"
  ms_switch_streak :: int

definition initial_machine :: AlertMachineState where
  "initial_machine =
     \<lparr>ms_state = HEALTHY_STATE, ms_confirmed = None, ms_pending = None, ms_pending_streak = 0,
      ms_exit_streak = 0, ms_switch = None, ms_switch_streak = 0\<rparr>"

section \<open>Reading a row\<close>

text \<open>
  A row is its elapsed time, its class probabilities and its validity flag. Probabilities are
  finite floats; \<open>np.argmax\<close> returns the first maximum and refuses an empty row.
\<close>

type_synonym alert_row = "pyfloat \<times> pyfloat list \<times> bool"

fun py_index :: "'a \<Rightarrow> 'a list \<Rightarrow> nat option" where
  "py_index x [] = None"
| "py_index x (y # ys) = (if x = y then Some 0 else map_option Suc (py_index x ys))"

fun argmax_from :: "nat \<Rightarrow> nat \<Rightarrow> pyfloat \<Rightarrow> pyfloat list \<Rightarrow> nat" where
  "argmax_from i best m [] = best"
| "argmax_from i best m (x # xs) =
     (if x > m then argmax_from (Suc i) i x xs else argmax_from (Suc i) best m xs)"

fun np_argmax :: "pyfloat list \<Rightarrow> nat result" where
  "np_argmax [] = Err (ValueError ''attempt to get argmax of an empty sequence'')"
| "np_argmax (x # xs) = Ok (argmax_from 1 0 x xs)"

definition py_item :: "string \<Rightarrow> 'a list \<Rightarrow> nat \<Rightarrow> 'a result" where
  "py_item message xs i = (if i < length xs then Ok (xs ! i) else Err (IndexError message))"

definition tuple_index :: "string \<Rightarrow> string list \<Rightarrow> nat result" where
  "tuple_index x xs =
     (case py_index x xs of
        None \<Rightarrow> Err (ValueError ''tuple.index(x): x not in tuple'')
      | Some i \<Rightarrow> Ok i)"

definition row_diagnosis ::
    "string list \<Rightarrow> nat \<Rightarrow> pyfloat list \<Rightarrow> (string \<times> pyfloat \<times> pyfloat) result" where
  "row_diagnosis classes healthy_index proba =
     res_bind (np_argmax proba) (\<lambda>diag_index.
     res_bind (py_item ''tuple index out of range'' classes diag_index) (\<lambda>diag.
     res_bind (py_item ''index out of bounds'' proba diag_index) (\<lambda>diag_prob.
     res_bind (py_item ''index out of bounds'' proba healthy_index) (\<lambda>healthy_prob.
     Ok (diag, diag_prob, healthy_prob)))))"

definition row_qualifies :: "StateMachineConfig \<Rightarrow> string \<Rightarrow> pyfloat \<Rightarrow> bool" where
  "row_qualifies config diag diag_prob \<longleftrightarrow>
     diag \<noteq> HEALTHY_STATE \<and> diag_prob \<ge> entry_probability config"

section \<open>One step\<close>

definition step_invalid :: "AlertMachineState \<Rightarrow> AlertMachineState" where
  "step_invalid m =
     (if ms_state m = HEALTHY_STATE then m\<lparr>ms_pending := None, ms_pending_streak := 0\<rparr> else m)"

definition enter_confirmed :: "string \<Rightarrow> AlertMachineState" where
  "enter_confirmed fault_class =
     initial_machine\<lparr>ms_state := confirmed_state fault_class, ms_confirmed := Some fault_class\<rparr>"

definition next_pending ::
    "AlertMachineState \<Rightarrow> string \<Rightarrow> bool \<Rightarrow> string option \<times> int" where
  "next_pending m diag qualifies =
     (if qualifies then
        if Some diag = ms_pending m then (ms_pending m, ms_pending_streak m + 1)
        else (Some diag, 1)
      else (None, 0))"

definition step_healthy ::
    "StateMachineConfig \<Rightarrow> AlertMachineState \<Rightarrow> pyfloat \<Rightarrow> string \<Rightarrow> bool \<Rightarrow>
     AlertMachineState \<times> string \<times> AlertEvent option" where
  "step_healthy config m t diag qualifies =
     (case next_pending m diag qualifies of
        (None, streak) \<Rightarrow>
          (m\<lparr>ms_state := HEALTHY_STATE, ms_confirmed := None, ms_pending := None,
             ms_pending_streak := streak\<rparr>, HEALTHY_STATE, None)
      | (Some c, streak) \<Rightarrow>
          if streak \<ge> entry_persistence config then
            (enter_confirmed c, confirmed_state c,
             Some \<lparr>ev_elapsed = t, ev_type = ''new_alert'', ev_from = HEALTHY_STATE,
                   ev_to = confirmed_state c, ev_class = Some c\<rparr>)
          else
            (m\<lparr>ms_state := HEALTHY_STATE, ms_confirmed := None, ms_pending := Some c,
               ms_pending_streak := streak\<rparr>, pending_state c, None))"

definition next_switch ::
    "AlertMachineState \<Rightarrow> string \<Rightarrow> string \<Rightarrow> bool \<Rightarrow> string option \<times> int" where
  "next_switch m confirmed diag qualifies =
     (if diag \<noteq> confirmed \<and> qualifies
      then (Some diag, if Some diag = ms_switch m then ms_switch_streak m + 1 else 1)
      else (None, 0))"

definition step_confirmed ::
    "StateMachineConfig \<Rightarrow> AlertMachineState \<Rightarrow> string \<Rightarrow> pyfloat \<Rightarrow> string \<Rightarrow> bool \<Rightarrow> bool \<Rightarrow>
     AlertMachineState \<times> string \<times> AlertEvent option" where
  "step_confirmed config m confirmed t diag qualifies healthy_evidence =
     (let exit_streak = (if healthy_evidence then ms_exit_streak m + 1 else 0);
          (switch, switch_streak) = next_switch m confirmed diag qualifies;
          stay = m\<lparr>ms_exit_streak := exit_streak, ms_switch := switch, ms_switch_streak := switch_streak\<rparr>
      in if exit_streak \<ge> exit_persistence config then
           (initial_machine, HEALTHY_STATE,
            Some \<lparr>ev_elapsed = t, ev_type = ''cleared'', ev_from = confirmed_state confirmed,
                  ev_to = HEALTHY_STATE, ev_class = Some confirmed\<rparr>)
         else case switch of
             None \<Rightarrow> (stay, ms_state m, None)
           | Some c \<Rightarrow>
               if switch_streak \<ge> entry_persistence config then
                 (enter_confirmed c, confirmed_state c,
                  Some \<lparr>ev_elapsed = t, ev_type = ''class_change'',
                        ev_from = confirmed_state confirmed, ev_to = confirmed_state c,
                        ev_class = Some c\<rparr>)
               else (stay, ms_state m, None))"

definition step_state_machine ::
    "StateMachineConfig \<Rightarrow> string list \<Rightarrow> AlertMachineState \<Rightarrow> alert_row \<Rightarrow>
     (AlertMachineState \<times> string \<times> AlertEvent option) result" where
  "step_state_machine config classes m row =
     (let (t, proba, valid) = row in
      res_bind (tuple_index HEALTHY_STATE classes) (\<lambda>healthy_index.
      if \<not> valid then Ok (step_invalid m, INSUFFICIENT_DATA_STATE, None)
      else
        res_bind (row_diagnosis classes healthy_index proba) (\<lambda>(diag, diag_prob, healthy_prob).
        let qualifies = row_qualifies config diag diag_prob in
        if ms_state m = HEALTHY_STATE then Ok (step_healthy config m t diag qualifies)
        else case ms_confirmed m of
            None \<Rightarrow> Err AssertionError
          | Some confirmed \<Rightarrow>
              Ok (step_confirmed config m confirmed t diag qualifies
                    (healthy_prob \<ge> healthy_exit_probability config)))))"

section \<open>A whole run\<close>

text \<open>
  \<^verbatim>\<open>zip(..., strict=True)\<close> over the three sequences: a length mismatch raises when the shortest is
  exhausted, after the rows before it were processed.
\<close>

fun run_rows ::
    "StateMachineConfig \<Rightarrow> string list \<Rightarrow> AlertMachineState \<Rightarrow> string list \<Rightarrow> AlertEvent list \<Rightarrow>
     pyfloat list \<Rightarrow> pyfloat list list \<Rightarrow> bool list \<Rightarrow>
     (AlertMachineState \<times> StateMachineResult) result" where
  "run_rows config classes m states events (t # ts) (row # rows) (valid # vs) =
     res_bind (step_state_machine config classes m (t, row, valid)) (\<lambda>(m', row_state, event).
     run_rows config classes m' (states @ [row_state])
       (case event of None \<Rightarrow> events | Some e \<Rightarrow> events @ [e]) ts rows vs)"
| "run_rows config classes m states events [] [] [] =
     Ok (m, \<lparr>smr_row_states = states, smr_events = events\<rparr>)"
| "run_rows config classes m states events (t # ts) [] vs =
     Err (ValueError ''zip() argument 2 is shorter than argument 1'')"
| "run_rows config classes m states events (t # ts) (row # rows) [] =
     Err (ValueError ''zip() argument 3 is shorter than arguments 1-2'')"
| "run_rows config classes m states events [] (row # rows) vs =
     Err (ValueError ''zip() argument 2 is longer than argument 1'')"
| "run_rows config classes m states events [] [] (valid # vs) =
     Err (ValueError ''zip() argument 3 is longer than arguments 1-2'')"

definition run_state_machine ::
    "StateMachineConfig \<Rightarrow> string list \<Rightarrow> pyfloat list \<Rightarrow> pyfloat list list \<Rightarrow> bool list option \<Rightarrow>
     StateMachineResult result" where
  "run_state_machine config classes elapsed proba row_valid =
     (let validity = (case row_valid of Some vs \<Rightarrow> vs | None \<Rightarrow> replicate (length proba) True) in
      res_bind (run_rows config classes initial_machine [] [] elapsed proba validity)
        (\<lambda>(m, result). Ok result))"

section \<open>Episodes\<close>

record FalseEpisode =
  fe_run_id :: string
  fe_class :: string
  fe_start :: pyfloat
  fe_end :: pyfloat
  fe_censored :: bool

definition duration_seconds :: "FalseEpisode \<Rightarrow> pyfloat" where
  "duration_seconds e = fsub (fe_end e) (fe_start e)"

text \<open>The loop of \<^verbatim>\<open>episodes_from_events\<close>, with the open start and class as arguments.\<close>

fun episodes_loop ::
    "string \<Rightarrow> pyfloat option \<Rightarrow> string option \<Rightarrow> AlertEvent list \<Rightarrow> pyfloat \<Rightarrow>
     FalseEpisode list result" where
  "episodes_loop run cur_start cur_class [] segment_end =
     Ok (case (cur_start, cur_class) of
           (Some s, Some c) \<Rightarrow> [\<lparr>fe_run_id = run, fe_class = c, fe_start = s, fe_end = segment_end,
                                 fe_censored = True\<rparr>]
         | _ \<Rightarrow> [])"
| "episodes_loop run cur_start cur_class (e # es) segment_end =
     (if ev_type e = ''new_alert'' then
        episodes_loop run (Some (ev_elapsed e)) (ev_class e) es segment_end
      else case cur_start of
          None \<Rightarrow> episodes_loop run cur_start cur_class es segment_end
        | Some s \<Rightarrow>
            if ev_type e = ''class_change'' \<or> ev_type e = ''cleared'' then
              (case cur_class of
                 None \<Rightarrow> Err AssertionError
               | Some c \<Rightarrow>
                   res_bind
                     (if ev_type e = ''class_change''
                      then episodes_loop run (Some (ev_elapsed e)) (ev_class e) es segment_end
                      else episodes_loop run None None es segment_end)
                     (\<lambda>rest. Ok (\<lparr>fe_run_id = run, fe_class = c, fe_start = s,
                        fe_end = ev_elapsed e, fe_censored = False\<rparr> # rest)))
            else episodes_loop run cur_start cur_class es segment_end)"

definition episodes_from_events ::
    "string \<Rightarrow> AlertEvent list \<Rightarrow> pyfloat \<Rightarrow> FalseEpisode list result" where
  "episodes_from_events run events segment_end = episodes_loop run None None events segment_end"

section \<open>Rows as evidence\<close>

definition usable_row :: "alert_row \<Rightarrow> bool" where
  "usable_row row = snd (snd row)"

text \<open>The class a valid row argues for, and whether it is evidence of health.\<close>

definition candidate :: "StateMachineConfig \<Rightarrow> string list \<Rightarrow> alert_row \<Rightarrow> string option" where
  "candidate config classes row =
     (let (t, proba, valid) = row in
      if \<not> valid then None
      else case res_bind (tuple_index HEALTHY_STATE classes) (\<lambda>i. row_diagnosis classes i proba) of
          Inr (diag, p, h) \<Rightarrow> if row_qualifies config diag p then Some diag else None
        | Inl _ \<Rightarrow> None)"

definition exit_evidence :: "StateMachineConfig \<Rightarrow> string list \<Rightarrow> alert_row \<Rightarrow> bool" where
  "exit_evidence config classes row =
     (let (t, proba, valid) = row in
      valid \<and> (case res_bind (tuple_index HEALTHY_STATE classes) (\<lambda>i. row_diagnosis classes i proba) of
          Inr (diag, p, h) \<Rightarrow> h \<ge> healthy_exit_probability config
        | Inl _ \<Rightarrow> False))"

definition readable :: "string list \<Rightarrow> alert_row \<Rightarrow> bool" where
  "readable classes row \<longleftrightarrow>
     HEALTHY_STATE \<in> set classes \<and> length (fst (snd row)) = length classes"

lemma py_index_Some: "x \<in> set xs \<Longrightarrow> \<exists>i < length xs. py_index x xs = Some i"
  by (induction xs) auto

lemma argmax_from_bound: "best < i \<Longrightarrow> argmax_from i best m xs < i + length xs"
proof (induction xs arbitrary: i best m)
  case (Cons x xs)
  from Cons.prems Cons.IH [of i "Suc i" x] Cons.IH [of best "Suc i" m] show ?case by simp
qed simp

lemma np_argmax_bound:
  assumes "xs \<noteq> []"
  obtains i where "i < length xs" "np_argmax xs = Ok i"
proof (cases xs)
  case (Cons x ys)
  with argmax_from_bound [of 0 1 x ys] that show thesis by simp
qed (use assms in simp)

text \<open>A readable row is diagnosed without error, and its class is one of the classes.\<close>

lemma readable_diagnosis:
  assumes "readable classes (t, proba, v)"
  obtains i diag p h where "tuple_index HEALTHY_STATE classes = Ok i"
    "row_diagnosis classes i proba = Ok (diag, p, h)"
proof -
  from assms have h: "HEALTHY_STATE \<in> set classes" and l: "length proba = length classes"
    by (simp_all add: readable_def)
  from py_index_Some [OF h] obtain i
    where i: "py_index HEALTHY_STATE classes = Some i" "i < length classes" by blast
  from h l have "proba \<noteq> []" by auto
  from np_argmax_bound [OF this] obtain j where j: "j < length proba" "np_argmax proba = Ok j" .
  show thesis
    by (rule that [of i "classes ! j" "proba ! j" "proba ! i"])
       (use i j l in \<open>simp_all add: tuple_index_def row_diagnosis_def py_item_def\<close>)
qed

lemma confirmed_state_simps [simp]:
  "confirmed_state c \<noteq> HEALTHY_STATE" "HEALTHY_STATE \<noteq> confirmed_state c"
  "confirmed_state c = confirmed_state d \<longleftrightarrow> c = d"
  by (simp_all add: confirmed_state_def HEALTHY_STATE_def)

lemma candidate_not_healthy: "candidate config classes row \<noteq> Some HEALTHY_STATE"
  by (auto simp: candidate_def Let_def row_qualifies_def split: prod.splits sum.splits if_splits)

text \<open>A step in terms of the evidence of its row.\<close>

lemma step_cases:
  assumes step: "step_state_machine config classes m row = Ok (m', rs, ev)"
  obtains (invalid) "\<not> usable_row row" "m' = step_invalid m" "rs = INSUFFICIENT_DATA_STATE" "ev = None"
  | (healthy) diag q where "usable_row row" "ms_state m = HEALTHY_STATE"
      "candidate config classes row = (if q then Some diag else None)"
      "(m', rs, ev) = step_healthy config m (fst row) diag q"
  | (confirmed) c diag q where "usable_row row" "ms_state m \<noteq> HEALTHY_STATE" "ms_confirmed m = Some c"
      "candidate config classes row = (if q then Some diag else None)"
      "(m', rs, ev) = step_confirmed config m c (fst row) diag q (exit_evidence config classes row)"
proof -
  obtain t proba v where row: "row = (t, proba, v)" by (cases row)
  from step obtain i where i: "tuple_index HEALTHY_STATE classes = Ok i"
    by (auto simp: row step_state_machine_def)
  show thesis
  proof (cases v)
    case False
    with step i show thesis by (intro invalid) (auto simp: row step_state_machine_def usable_row_def)
  next
    case True
    with step i obtain diag p h where d: "row_diagnosis classes i proba = Ok (diag, p, h)"
      by (auto simp: row step_state_machine_def)
    have cand: "candidate config classes row = (if row_qualifies config diag p then Some diag else None)"
      and evid: "exit_evidence config classes row \<longleftrightarrow> healthy_exit_probability config \<le> h"
      using True i d by (simp_all add: row candidate_def exit_evidence_def)
    show thesis
    proof (cases "ms_state m = HEALTHY_STATE")
      case s: True
      with True step i d show thesis
        by (intro healthy [OF _ _ cand]) (auto simp: row step_state_machine_def usable_row_def)
    next
      case s: False
      with True step i d obtain c where "ms_confirmed m = Some c"
        by (auto simp: row step_state_machine_def Let_def split: option.splits)
      with s True step i d evid show thesis
        by (intro confirmed [OF _ _ _ cand]) (auto simp: row step_state_machine_def usable_row_def)
    qed
  qed
qed

lemma step_total:
  assumes "readable classes row" and "ms_state m \<noteq> HEALTHY_STATE \<Longrightarrow> ms_confirmed m \<noteq> None"
  shows "\<exists>m' rs ev. step_state_machine config classes m row = Ok (m', rs, ev)"
proof -
  obtain t proba v where row: "row = (t, proba, v)" by (cases row)
  obtain i diag p h where "tuple_index HEALTHY_STATE classes = Ok i"
    "row_diagnosis classes i proba = Ok (diag, p, h)"
    using readable_diagnosis assms(1) unfolding row by metis
  with assms(2) have "\<exists>x. step_state_machine config classes m row = Ok x"
    by (auto simp: row step_state_machine_def Let_def simp del: split_paired_Ex split: option.splits)
  then show ?thesis by (metis prod_cases3)
qed

section \<open>Machine invariant\<close>

text \<open>
  The state string and the confirmed class agree, no counter reaches its target without its
  transition having fired, and a candidate is tracked exactly while its counter is positive.
\<close>

definition tracked :: "string option \<Rightarrow> int \<Rightarrow> int \<Rightarrow> bool" where
  "tracked c streak target \<longleftrightarrow>
     (case c of None \<Rightarrow> streak = 0 | Some d \<Rightarrow> 0 < streak \<and> streak < target \<and> d \<noteq> HEALTHY_STATE)"

definition machine_wf :: "StateMachineConfig \<Rightarrow> AlertMachineState \<Rightarrow> bool" where
  "machine_wf config m \<longleftrightarrow>
     (case ms_confirmed m of
        None \<Rightarrow> ms_state m = HEALTHY_STATE \<and> ms_exit_streak m = 0 \<and> ms_switch m = None \<and>
          ms_switch_streak m = 0 \<and> tracked (ms_pending m) (ms_pending_streak m) (entry_persistence config)
      | Some c \<Rightarrow> ms_state m = confirmed_state c \<and> c \<noteq> HEALTHY_STATE \<and> ms_pending m = None \<and>
          ms_pending_streak m = 0 \<and> 0 \<le> ms_exit_streak m \<and>
          (ms_exit_streak m = 0 \<or> ms_exit_streak m < exit_persistence config) \<and>
          ms_switch m \<noteq> Some c \<and>
          tracked (ms_switch m) (ms_switch_streak m) (entry_persistence config))"

lemma machine_wf_initial: "machine_wf config initial_machine"
  by (simp add: machine_wf_def initial_machine_def tracked_def)

lemma machine_wf_enter: "c \<noteq> HEALTHY_STATE \<Longrightarrow> machine_wf config (enter_confirmed c)"
  by (simp add: machine_wf_def enter_confirmed_def initial_machine_def tracked_def)

lemmas step_defs = step_healthy_def step_confirmed_def next_pending_def next_switch_def Let_def

lemma machine_wf_step:
  assumes wf: "machine_wf config m" and step: "step_state_machine config classes m row = Ok (m', rs, ev)"
  shows "machine_wf config m'"
  using step
proof (cases rule: step_cases)
  case invalid
  then show ?thesis using wf by (auto simp: machine_wf_def step_invalid_def tracked_def split: option.splits)
next
  case (healthy diag q)
  then have "q \<Longrightarrow> diag \<noteq> HEALTHY_STATE" using candidate_not_healthy by metis
  with healthy wf show ?thesis
    by (auto simp: step_defs machine_wf_enter split: if_splits option.splits)
       (auto simp: machine_wf_def tracked_def split: option.splits)
next
  case (confirmed c diag q)
  then have "q \<Longrightarrow> diag \<noteq> HEALTHY_STATE" using candidate_not_healthy by metis
  with confirmed wf show ?thesis
    by (auto simp: step_defs machine_wf_enter machine_wf_initial split: if_splits option.splits)
       (auto simp: machine_wf_def tracked_def split: option.splits)
qed

text \<open>The state a streaming caller holds after a row; a row that raises leaves it unchanged.\<close>

definition advance ::
    "StateMachineConfig \<Rightarrow> string list \<Rightarrow> alert_row \<Rightarrow> AlertMachineState \<Rightarrow> AlertMachineState" where
  "advance config classes row m =
     (case step_state_machine config classes m row of Inr (m', rs, ev) \<Rightarrow> m' | Inl _ \<Rightarrow> m)"

interpretation fsm: driven_machine "advance config classes" initial_machine "\<lambda>_. True" "machine_wf config"
  for config classes
proof unfold_locales
  show "machine_wf config initial_machine" by (rule machine_wf_initial)
next
  fix m row assume "machine_wf config m"
  then show "machine_wf config (advance config classes row m)"
    by (auto simp: advance_def split: sum.splits dest: machine_wf_step)
qed

lemma machine_wf_state:
  "machine_wf config m \<Longrightarrow> ms_state m = HEALTHY_STATE \<longleftrightarrow> ms_confirmed m = None"
  by (auto simp: machine_wf_def split: option.splits)

section \<open>The counters against the history\<close>

text \<open>
  \<open>alert_reach config classes h m\<close>: the machine is in state \<open>m\<close> and \<open>h\<close> are the rows read since
  the last transition, newest first.
\<close>

inductive alert_reach ::
    "StateMachineConfig \<Rightarrow> string list \<Rightarrow> alert_row list \<Rightarrow> AlertMachineState \<Rightarrow> bool"
  for config classes where
  reach_start: "alert_reach config classes [] initial_machine"
| reach_silent:
    "alert_reach config classes (row # h) m'"
    if "alert_reach config classes h m" "step_state_machine config classes m row = Ok (m', rs, None)"
| reach_event:
    "alert_reach config classes [] m'"
    if "alert_reach config classes h m" "step_state_machine config classes m row = Ok (m', rs, Some e)"

lemma alert_reach_wf: "alert_reach config classes h m \<Longrightarrow> machine_wf config m"
  by (induction rule: alert_reach.induct) (auto intro: machine_wf_initial machine_wf_step)

definition streak :: "('a \<Rightarrow> bool) \<Rightarrow> 'a list \<Rightarrow> int" where
  "streak P h = int (length (takeWhile P h))"

lemma streak_simps [simp]:
  "streak P [] = 0" "streak P (x # h) = (if P x then streak P h + 1 else 0)"
  by (simp_all add: streak_def)

lemma streak_nonneg [simp]: "0 \<le> streak P h"
  by (simp add: streak_def)

text \<open>What the counters hold, as a function of the history.\<close>

definition tracks ::
    "('a \<Rightarrow> string option) \<Rightarrow> string option \<Rightarrow> 'a list \<Rightarrow> string option \<Rightarrow> int \<Rightarrow> bool" where
  "tracks cand skip h c n \<longleftrightarrow>
     (case h of
        [] \<Rightarrow> c = None \<and> n = 0
      | r # _ \<Rightarrow> c = (if cand r = skip then None else cand r) \<and>
                n = (if c = None then 0 else streak (\<lambda>r. cand r = c) h))"

definition counters_match ::
    "StateMachineConfig \<Rightarrow> string list \<Rightarrow> alert_row list \<Rightarrow> AlertMachineState \<Rightarrow> bool" where
  "counters_match config classes h m \<longleftrightarrow>
     (if ms_confirmed m = None
      then tracks (candidate config classes) None h (ms_pending m) (ms_pending_streak m)
      else ms_exit_streak m = streak (exit_evidence config classes) (filter usable_row h) \<and>
           tracks (candidate config classes) (ms_confirmed m) (filter usable_row h)
             (ms_switch m) (ms_switch_streak m))"

lemma tracks_extend:
  assumes "tracks cand skip h c n"
  shows "tracks cand skip (r # h) (if cand r = skip then None else cand r)
           (if cand r = skip \<or> cand r = None then 0 else if cand r = c then n + 1 else 1)"
  using assms by (cases h) (auto simp: tracks_def)

lemma tracks_None_ext: "cand r = None \<Longrightarrow> tracks cand skip (r # h) None 0"
  by (simp add: tracks_def)

lemma candidate_invalid: "\<not> usable_row row \<Longrightarrow> candidate config classes row = None"
  by (auto simp: candidate_def usable_row_def Let_def split: prod.splits)

lemma counters_silent:
  assumes wf: "machine_wf config m" and cm: "counters_match config classes h m"
    and step: "step_state_machine config classes m row = Ok (m', rs, None)"
  shows "counters_match config classes (row # h) m'"
  using step
proof (cases rule: step_cases)
  case invalid
  with cm wf machine_wf_state [OF wf] show ?thesis
    by (auto simp: counters_match_def step_invalid_def tracks_None_ext candidate_invalid)
next
  case (healthy diag q)
  with cm machine_wf_state [OF wf] have "tracks (candidate config classes) None h (ms_pending m) (ms_pending_streak m)"
    by (simp add: counters_match_def)
  from tracks_extend [OF this, of row] healthy show ?thesis
    by (auto simp: counters_match_def step_defs enter_confirmed_def split: if_splits option.splits)
next
  case (confirmed c diag q)
  with cm have "tracks (candidate config classes) (Some c) (filter usable_row h) (ms_switch m) (ms_switch_streak m)"
    and "ms_exit_streak m = streak (exit_evidence config classes) (filter usable_row h)"
    by (simp_all add: counters_match_def)
  with tracks_extend [OF this(1), of row] confirmed show ?thesis
    by (auto simp: counters_match_def step_defs split: if_splits option.splits)
qed

lemma alert_reach_counters:
  "alert_reach config classes h m \<Longrightarrow> counters_match config classes h m"
proof (induction rule: alert_reach.induct)
  case reach_start
  show ?case by (simp add: counters_match_def initial_machine_def tracks_def)
next
  case (reach_silent h m row m' rs)
  then show ?case using counters_silent alert_reach_wf by blast
next
  case (reach_event h m row m' rs e)
  from reach_event.hyps(2) show ?case
    by (cases rule: step_cases)
       (auto simp: step_defs counters_match_def tracks_def initial_machine_def enter_confirmed_def
         split: if_splits option.splits)
qed

text \<open>
  The documented transition rules, over the history of rows since the last transition: an alert
  needs \<open>entry_persistence\<close> consecutive rows for its class; once confirmed, rows without
  sufficient data are passed over, the exit is tried first, then the switch of class.
\<close>

definition spec_event ::
    "StateMachineConfig \<Rightarrow> string list \<Rightarrow> string option \<Rightarrow> alert_row list \<Rightarrow> alert_row \<Rightarrow>
     (string \<times> string) option" where
  "spec_event config classes confirmed h row =
     (let cand = candidate config classes in
      if \<not> usable_row row then None
      else case confirmed of
          None \<Rightarrow>
            (case cand row of
               None \<Rightarrow> None
             | Some c \<Rightarrow>
                 if streak (\<lambda>r. cand r = Some c) (row # h) \<ge> entry_persistence config
                 then Some (''new_alert'', c) else None)
        | Some c \<Rightarrow>
            let rows = row # filter usable_row h in
            if streak (exit_evidence config classes) rows \<ge> exit_persistence config
            then Some (''cleared'', c)
            else case cand row of
                None \<Rightarrow> None
              | Some d \<Rightarrow>
                  if d \<noteq> c \<and> streak (\<lambda>r. cand r = Some d) rows \<ge> entry_persistence config
                  then Some (''class_change'', d) else None)"

definition event_label :: "AlertEvent \<Rightarrow> string \<times> string" where
  "event_label e = (ev_type e, the (ev_class e))"

lemma tracks_streak:
  assumes "tracks cand skip h c n" "Some d \<noteq> skip"
  shows "streak (\<lambda>r. cand r = Some d) h = (if Some d = c then n else 0)"
  using assms by (cases h) (auto simp: tracks_def split: if_splits)

section \<open>Event logs\<close>

text \<open>An event log is a path through the states: each event starts where the last one ended.\<close>

definition event_ok :: "AlertEvent \<Rightarrow> bool" where
  "event_ok e \<longleftrightarrow>
     (\<exists>c. ev_type e = ''new_alert'' \<and> ev_from e = HEALTHY_STATE \<and> ev_to e = confirmed_state c \<and>
          ev_class e = Some c) \<or>
     (\<exists>c d. ev_type e = ''class_change'' \<and> ev_from e = confirmed_state c \<and> c \<noteq> d \<and>
          ev_to e = confirmed_state d \<and> ev_class e = Some d) \<or>
     (\<exists>c. ev_type e = ''cleared'' \<and> ev_from e = confirmed_state c \<and> ev_to e = HEALTHY_STATE \<and>
          ev_class e = Some c)"

fun event_path :: "string \<Rightarrow> AlertEvent list \<Rightarrow> string \<Rightarrow> bool" where
  "event_path s [] s' \<longleftrightarrow> s = s'"
| "event_path s (e # es) s' \<longleftrightarrow> ev_from e = s \<and> event_ok e \<and> event_path (ev_to e) es s'"

lemma event_path_snoc:
  "event_path s (es @ [e]) s' \<longleftrightarrow> event_path s es (ev_from e) \<and> event_ok e \<and> ev_to e = s'"
  by (induction es arbitrary: s) auto

lemma step_event_path:
  assumes wf: "machine_wf config m" and step: "step_state_machine config classes m row = Ok (m', rs, ev)"
  shows "(case ev of None \<Rightarrow> ms_state m' = ms_state m
          | Some e \<Rightarrow> event_ok e \<and> ev_from e = ms_state m \<and> ev_to e = ms_state m' \<and> ev_elapsed e = fst row)"
  using step
proof (cases rule: step_cases)
  case invalid
  then show ?thesis by (simp add: step_invalid_def)
next
  case (healthy diag q)
  then show ?thesis
    by (auto simp: step_defs enter_confirmed_def initial_machine_def event_ok_def split: if_splits option.splits)
next
  case (confirmed c diag q)
  with wf have "ms_state m = confirmed_state c" by (simp add: machine_wf_def)
  with confirmed show ?thesis
    by (auto simp: step_defs enter_confirmed_def initial_machine_def event_ok_def split: if_splits option.splits)
qed

text \<open>A run as the list of its rows.\<close>

fun run_list_rows ::
    "StateMachineConfig \<Rightarrow> string list \<Rightarrow> AlertMachineState \<Rightarrow> alert_row list \<Rightarrow>
     (AlertMachineState \<times> string list \<times> AlertEvent list) result" where
  "run_list_rows config classes m [] = Ok (m, [], [])"
| "run_list_rows config classes m (row # rows) =
     res_bind (step_state_machine config classes m row) (\<lambda>(m', rs, ev).
     res_bind (run_list_rows config classes m' rows) (\<lambda>(m'', states, events).
     Ok (m'', rs # states, (case ev of None \<Rightarrow> [] | Some e \<Rightarrow> [e]) @ events)))"

lemma run_rows_list:
  "length rows = length ts \<Longrightarrow> length vs = length ts \<Longrightarrow>
   run_rows config classes m states events ts rows vs =
     res_bind (run_list_rows config classes m (zip ts (zip rows vs))) (\<lambda>(m', states', events').
     Ok (m', \<lparr>smr_row_states = states @ states', smr_events = events @ events'\<rparr>))"
proof (induction config classes m states events ts rows vs rule: run_rows.induct)
  case (1 config classes m states events t ts row rows valid vs)
  show ?case
  proof (cases "step_state_machine config classes m (t, row, valid)")
    case (Inr x)
    obtain m' rs ev where x: "x = (m', rs, ev)" by (cases x)
    from 1 Inr x show ?thesis
      by (cases "run_list_rows config classes m' (zip ts (zip rows vs))") (auto split: option.splits)
  qed (use 1 in simp)
qed simp_all

lemma run_rows_lengths:
  "run_rows config classes m states events ts rows vs = Ok r \<Longrightarrow>
   length rows = length ts \<and> length vs = length ts"
  by (induction config classes m states events ts rows vs rule: run_rows.induct)
     (auto simp: res_bind_Ok_iff split: prod.splits)

lemma run_list_rows_append:
  "run_list_rows config classes m (xs @ ys) =
     res_bind (run_list_rows config classes m xs) (\<lambda>(m', states, events).
     res_bind (run_list_rows config classes m' ys) (\<lambda>(m'', states', events').
     Ok (m'', states @ states', events @ events')))"
proof (induction xs arbitrary: m)
  case Nil
  show ?case by (cases "run_list_rows config classes m ys") auto
next
  case (Cons x xs)
  show ?case
  proof (cases "step_state_machine config classes m x")
    case (Inr r)
    obtain m' rs ev where r: "r = (m', rs, ev)" by (cases r)
    show ?thesis
    proof (cases "run_list_rows config classes m' xs")
      case (Inr r')
      obtain m1 st es where r': "r' = (m1, st, es)" by (cases r')
      from Cons Inr \<open>step_state_machine config classes m x = Inr r\<close> r r' show ?thesis
        by (cases "run_list_rows config classes m1 ys") auto
    qed (use Cons \<open>step_state_machine config classes m x = Inr r\<close> r in simp)
  qed simp
qed

lemma run_list_rows_total:
  assumes "\<forall>row \<in> set rows. readable classes row" "machine_wf config m"
  shows "\<exists>m' states events. run_list_rows config classes m rows = Ok (m', states, events) \<and>
    machine_wf config m' \<and> length states = length rows"
  using assms
proof (induction rows arbitrary: m)
  case (Cons row rows)
  from Cons.prems obtain m1 rs ev where step: "step_state_machine config classes m row = Ok (m1, rs, ev)"
    using step_total [of classes row m config] machine_wf_state [of config m] by auto
  with machine_wf_step [OF Cons.prems(2) step] Cons obtain m' states events where
    "run_list_rows config classes m1 rows = Ok (m', states, events)" "machine_wf config m'"
    "length states = length rows" by fastforce
  with step show ?case by simp
qed simp

lemma run_list_rows_path:
  assumes "run_list_rows config classes m rows = Ok (m', states, events)" "machine_wf config m"
  shows "event_path (ms_state m) events (ms_state m') \<and>
    subseq (map ev_elapsed events) (map fst rows)"
  using assms
proof (induction rows arbitrary: m events states)
  case (Cons row rows)
  then obtain m1 rs ev st es where step: "step_state_machine config classes m row = Ok (m1, rs, ev)"
    and run: "run_list_rows config classes m1 rows = Ok (m', st, es)"
    and ev: "events = (case ev of None \<Rightarrow> [] | Some e \<Rightarrow> [e]) @ es"
    by (auto simp: res_bind_Ok_iff)
  from Cons.IH [OF run machine_wf_step [OF Cons.prems(2) step]]
    step_event_path [OF Cons.prems(2) step] show ?case
    by (cases ev) (auto simp: ev)
qed simp

lemma sorted_subseq: "subseq xs ys \<Longrightarrow> sorted ys \<Longrightarrow> sorted (xs :: 'a::linorder list)"
  by (induction rule: list_emb.induct) (auto dest: subseq_order.order_trans list_emb_set)

text \<open>Episodes of a well-formed event log.\<close>

definition opens :: "AlertEvent \<Rightarrow> bool" where
  "opens e \<longleftrightarrow> ev_type e \<noteq> ''cleared''"

fun back_to_back :: "pyfloat \<Rightarrow> FalseEpisode list \<Rightarrow> pyfloat \<Rightarrow> bool" where
  "back_to_back t0 [] t1 \<longleftrightarrow> t0 \<le> t1"
| "back_to_back t0 (e # eps) t1 \<longleftrightarrow> t0 \<le> fe_start e \<and> fe_start e \<le> fe_end e \<and> back_to_back (fe_end e) eps t1"

lemma back_to_back_earlier: "back_to_back t eps t1 \<Longrightarrow> t0 \<le> t \<Longrightarrow> back_to_back t0 eps t1"
  by (cases eps) auto

lemma episodes_loop_path:
  assumes "event_path s es s'" "sorted (t0 # map ev_elapsed es @ [t1])"
    and "s = HEALTHY_STATE \<and> cs = None \<and> cc = None \<or> (\<exists>c. s = confirmed_state c \<and> cs = Some t0 \<and> cc = Some c)"
  shows "\<exists>eps. episodes_loop run cs cc es t1 = Ok eps \<and>
    map fe_class eps = (case cc of None \<Rightarrow> [] | Some c \<Rightarrow> [c]) @ map (\<lambda>e. the (ev_class e)) (filter opens es) \<and>
    back_to_back t0 eps t1 \<and> (\<forall>e \<in> set eps. fe_run_id e = run) \<and>
    ((\<exists>e \<in> set eps. fe_censored e) \<longleftrightarrow> s' \<noteq> HEALTHY_STATE)"
  using assms
proof (induction es arbitrary: s cs cc t0)
  case Nil
  then show ?case by auto
next
  case (Cons e es)
  then have ok: "event_ok e" and from_s: "ev_from e = s" and path: "event_path (ev_to e) es s'"
    and srt: "sorted (ev_elapsed e # map ev_elapsed es @ [t1])" and le: "t0 \<le> ev_elapsed e"
    by auto
  from ok consider
      (new) c where "ev_type e = ''new_alert''" "s = HEALTHY_STATE" "ev_to e = confirmed_state c" "ev_class e = Some c"
    | (chg) c d where "ev_type e = ''class_change''" "s = confirmed_state c" "ev_to e = confirmed_state d" "ev_class e = Some d"
    | (clr) c where "ev_type e = ''cleared''" "s = confirmed_state c" "ev_to e = HEALTHY_STATE" "ev_class e = Some c"
    using from_s by (auto simp: event_ok_def)
  then show ?case
  proof cases
    case (new c)
    from Cons.IH [OF path srt, of "Some (ev_elapsed e)" "Some c"] new Cons.prems(3) le show ?thesis
      by (auto simp: opens_def dest: back_to_back_earlier)
  next
    case (chg c d)
    from Cons.IH [OF path srt, of "Some (ev_elapsed e)" "Some d"] chg Cons.prems(3) le show ?thesis
      by (auto simp: opens_def)
  next
    case (clr c)
    from Cons.IH [OF path srt, of None None] clr Cons.prems(3) le show ?thesis
      by (auto simp: opens_def)
  qed
qed

section \<open>Properties\<close>

definition demo_alert_config :: StateMachineConfig where
  "demo_alert_config =
     \<lparr>entry_probability = 1/2, entry_persistence = 1, healthy_exit_probability = 1/2,
      exit_persistence = 2\<rparr>"

definition demo_classes :: "string list" where
  "demo_classes = [''healthy'', ''leak'', ''valve'']"

definition demo_row :: "pyfloat \<Rightarrow> pyfloat list \<Rightarrow> alert_row" where
  "demo_row t proba = (t, proba, True)"

text \<open>
  C1. The incremental counters implement the documented rules: on every reachable state the event
  a row causes is the one the reference definition reads off the whole history of rows since the
  last transition. In a confirmed state that history passes over the rows without sufficient data,
  so a streak continues across them.
\<close>

theorem alert_transition_exact:
  assumes reach: "alert_reach config classes h m"
    and step: "step_state_machine config classes m row = Ok (m', rs, ev)"
  shows "map_option event_label ev = spec_event config classes (ms_confirmed m) h row"
  using step
proof (cases rule: step_cases)
  case invalid
  then show ?thesis by (simp add: spec_event_def)
next
  case (healthy diag q)
  note cm = alert_reach_counters [OF reach] and wf = alert_reach_wf [OF reach]
  with healthy machine_wf_state [OF wf] have
    t: "tracks (candidate config classes) None h (ms_pending m) (ms_pending_streak m)"
    and n: "ms_confirmed m = None"
    by (simp_all add: counters_match_def)
  from tracks_streak [OF t, of diag] healthy n show ?thesis
    by (auto simp: spec_event_def Let_def step_defs event_label_def split: if_splits option.splits)
next
  case (confirmed c diag q)
  with alert_reach_counters [OF reach] have
    t: "tracks (candidate config classes) (Some c) (filter usable_row h) (ms_switch m) (ms_switch_streak m)"
    and e: "ms_exit_streak m = streak (exit_evidence config classes) (filter usable_row h)"
    by (simp_all add: counters_match_def)
  from tracks_streak [OF t, of diag] confirmed e show ?thesis
    by (auto simp: spec_event_def Let_def step_defs event_label_def split: if_splits option.splits)
qed

theorem alert_transition_exact_witness:
  "\<exists>e m' rs. step_state_machine demo_alert_config demo_classes initial_machine
     (demo_row 0 [1/4, 3/4, 0]) = Ok (m', rs, Some e) \<and> event_label e = (''new_alert'', ''leak'')"
proof -
  let ?row = "demo_row 0 [1/4, 3/4, 0]"
  have "readable demo_classes ?row"
    by (simp add: readable_def demo_classes_def demo_row_def HEALTHY_STATE_def)
  then obtain m' rs ev where
    step: "step_state_machine demo_alert_config demo_classes initial_machine ?row = Ok (m', rs, ev)"
    using step_total [of demo_classes ?row initial_machine demo_alert_config]
    by (auto simp: initial_machine_def)
  have "spec_event demo_alert_config demo_classes (ms_confirmed initial_machine) [] ?row
    = Some (''new_alert'', ''leak'')" by code_simp
  with alert_transition_exact [OF reach_start step] step show ?thesis by auto
qed

text \<open>
  C35. Machine invariant: whatever rows a caller feeds in, the state string agrees with the
  confirmed class, pending evidence is only tracked while healthy and switch evidence only while
  confirmed, no counter stands at its target, and the next readable row never raises.
\<close>

theorem alert_machine_invariant:
  "machine_wf config (fold (advance config classes) rows initial_machine) \<and>
   (readable classes row \<longrightarrow>
      (\<exists>r. step_state_machine config classes
             (fold (advance config classes) rows initial_machine) row = Ok r))"
proof -
  have wf: "machine_wf config (fold (advance config classes) rows initial_machine)"
    by (rule fsm.inv_run) simp
  then show ?thesis using step_total machine_wf_state by metis
qed

theorem alert_machine_invariant_witness:
  "\<exists>r. step_state_machine demo_alert_config demo_classes
     (fold (advance demo_alert_config demo_classes) [demo_row 0 [1/4, 3/4, 0]] initial_machine)
     (demo_row 5 [1, 0, 0]) = Ok r"
proof -
  have "readable demo_classes (demo_row 5 [1, 0, 0])"
    by (simp add: readable_def demo_classes_def demo_row_def HEALTHY_STATE_def)
  with alert_machine_invariant show ?thesis by blast
qed

text \<open>
  A run over readable rows of equal number returns one row state per row, and its events form a path from the
  healthy state: each event starts in the state where the previous one ended, changes the state,
  and carries the elapsed time of a distinct row, in row order.
\<close>

theorem alert_run_total:
  assumes "HEALTHY_STATE \<in> set classes" "\<forall>row \<in> set proba. length row = length classes"
    and "length proba = length elapsed" "row_valid = None \<or> length (the row_valid) = length elapsed"
  shows "\<exists>result s. run_state_machine config classes elapsed proba row_valid = Ok result \<and>
    length (smr_row_states result) = length elapsed \<and>
    event_path HEALTHY_STATE (smr_events result) s \<and>
    subseq (map ev_elapsed (smr_events result)) elapsed"
proof -
  define vs where "vs = (case row_valid of Some vs \<Rightarrow> vs | None \<Rightarrow> replicate (length proba) True)"
  have l: "length vs = length elapsed" using assms(3,4) by (auto simp: vs_def split: option.splits)
  let ?rows = "zip elapsed (zip proba vs)"
  have "\<forall>row \<in> set ?rows. readable classes row"
    using assms(1,2) by (fastforce simp: readable_def dest: set_zip_rightD set_zip_leftD)
  from run_list_rows_total [OF this machine_wf_initial] obtain m states events where
    run: "run_list_rows config classes initial_machine ?rows = Ok (m, states, events)"
    and len: "length states = length ?rows" by blast
  have "map fst ?rows = elapsed" using assms(3) l by simp
  with run_list_rows_path [OF run machine_wf_initial] have
    "event_path HEALTHY_STATE events (ms_state m)" "subseq (map ev_elapsed events) elapsed"
    by (simp_all add: initial_machine_def)
  moreover have "run_state_machine config classes elapsed proba row_valid =
      Ok \<lparr>smr_row_states = states, smr_events = events\<rparr>"
    using run run_rows_list [OF assms(3) l] by (simp add: run_state_machine_def vs_def [symmetric])
  ultimately show ?thesis using len assms(3) l by auto
qed

theorem alert_run_total_witness:
  "\<exists>result s. run_state_machine demo_alert_config demo_classes [0, 5] [[1/4, 3/4, 0], [1, 0, 0]] None
     = Ok result \<and> event_path HEALTHY_STATE (smr_events result) s"
  using alert_run_total [of demo_classes "[[1/4, 3/4, 0], [1, 0, 0]]" "[0, 5]" None demo_alert_config]
  by (auto simp: demo_classes_def HEALTHY_STATE_def)

text \<open>
  Episode extraction never fails its assertion on a run of the machine: with ascending times
  the episodes are disjoint, in order and inside the segment, there is one per alert or class
  change, labelled with its class, and one is censored exactly when the run ends confirmed.
\<close>

theorem episodes_of_run:
  assumes "run_rows config classes initial_machine [] [] elapsed proba valids = Ok (m, result)"
    and "sorted (t0 # elapsed @ [segment_end])"
  shows "\<exists>eps. episodes_from_events run (smr_events result) segment_end = Ok eps \<and>
    back_to_back t0 eps segment_end \<and>
    map fe_class eps = map (\<lambda>e. the (ev_class e)) (filter opens (smr_events result)) \<and>
    ((\<exists>e \<in> set eps. fe_censored e) \<longleftrightarrow> ms_state m \<noteq> HEALTHY_STATE)"
proof -
  from run_rows_lengths [OF assms(1)] have l: "length proba = length elapsed" "length valids = length elapsed"
    by simp_all
  let ?rows = "zip elapsed (zip proba valids)"
  from assms(1) run_rows_list [OF l] obtain states where
    "run_list_rows config classes initial_machine ?rows = Ok (m, states, smr_events result)"
    by (auto simp: res_bind_Ok_iff)
  from run_list_rows_path [OF this machine_wf_initial] l have
    path: "event_path HEALTHY_STATE (smr_events result) (ms_state m)"
    and sub: "subseq (map ev_elapsed (smr_events result)) elapsed"
    by (simp_all add: initial_machine_def)
  from sub have "subseq (t0 # map ev_elapsed (smr_events result) @ [segment_end]) (t0 # elapsed @ [segment_end])"
    by (simp add: list_emb_append_mono)
  with assms(2) have "sorted (t0 # map ev_elapsed (smr_events result) @ [segment_end])"
    by (rule sorted_subseq [rotated])
  from episodes_loop_path [OF path this, of None None run] show ?thesis
    by (auto simp: episodes_from_events_def)
qed

theorem episodes_of_run_witness:
  "\<exists>m result eps. run_rows demo_alert_config demo_classes initial_machine [] [] [0]
     [[1/4, 3/4, 0]] [True] = Ok (m, result) \<and>
     episodes_from_events ''r'' (smr_events result) 5 = Ok eps \<and> map fe_class eps = [''leak'']"
proof -
  have "(case run_rows demo_alert_config demo_classes initial_machine [] [] [0] [[1/4, 3/4, 0]] [True] of
      Inr (m, result) \<Rightarrow> map (\<lambda>e. the (ev_class e)) (filter opens (smr_events result)) = [''leak'']
    | Inl _ \<Rightarrow> False)" by code_simp
  then obtain m result where
    r: "run_rows demo_alert_config demo_classes initial_machine [] [] [0] [[1/4, 3/4, 0]] [True] = Ok (m, result)"
    and c: "map (\<lambda>e. the (ev_class e)) (filter opens (smr_events result)) = [''leak'']"
    by (auto split: sum.splits)
  from episodes_of_run [OF r, of 0 5 "''r''"] c r show ?thesis by auto
qed

end
