(* ===== verification/Fault_Inference.thy ===== *)
theory Fault_Inference
  imports Telemetry_Assembly Alert_Machine
begin

text \<open>
  The per-asset inference session, its evidence, the session manager and the replay of a recorded
  run (\<^verbatim>\<open>src/backend/simulator/inference/session.py\<close>, \<^verbatim>\<open>evidence.py\<close>, \<^verbatim>\<open>result.py\<close>, \<^verbatim>\<open>replay.py\<close>
  and the record of \<^verbatim>\<open>loader.py\<close>). The fitted classifier is an argument: a function from the
  feature vector to the class probabilities. A call returns its result together with the session
  it leaves behind, also when it raises. The history dictionary has the fixed keys
  \<open>DEFAULT_MEASUREMENTS\<close> and is a function here.
\<close>

section \<open>Results\<close>

datatype InferenceStatus = WARMING_UP | VALID_PREDICTION | INSUFFICIENT_DATA

fun inference_status_value :: "InferenceStatus \<Rightarrow> string" where
  "inference_status_value WARMING_UP = ''warming_up''"
| "inference_status_value VALID_PREDICTION = ''valid_prediction''"
| "inference_status_value INSUFFICIENT_DATA = ''insufficient_data''"

record EvidenceItem =
  evi_label :: string
  evi_value :: pyfloat
  evi_detail :: string

record InferenceResult =
  ir_status :: InferenceStatus
  ir_asset_id :: string
  ir_timestamp :: datetime
  ir_diagnosed_class :: "string option"
  ir_class_probabilities :: "(string, pyfloat) dict option"
  ir_maximum_probability :: "pyfloat option"
  ir_alert_state :: "string option"
  ir_alert_event :: "AlertEvent option"
  ir_evidence :: "EvidenceItem list"
  ir_model_system_version :: "string option"
  ir_model_hash :: "string option"
  ir_policy_hash :: "string option"
  ir_feature_schema_version :: "string option"
  ir_reason_codes :: "string list"
  ir_invalid_feature_names :: "string list"
  ir_samples_available :: "nat option"
  ir_samples_required :: "nat option"

definition blank_result :: "InferenceStatus \<Rightarrow> string \<Rightarrow> datetime \<Rightarrow> InferenceResult" where
  "blank_result status asset ts =
     \<lparr>ir_status = status, ir_asset_id = asset, ir_timestamp = ts, ir_diagnosed_class = None,
      ir_class_probabilities = None, ir_maximum_probability = None, ir_alert_state = None,
      ir_alert_event = None, ir_evidence = [], ir_model_system_version = None, ir_model_hash = None,
      ir_policy_hash = None, ir_feature_schema_version = None, ir_reason_codes = [],
      ir_invalid_feature_names = [], ir_samples_available = None, ir_samples_required = None\<rparr>"

text \<open>\<^verbatim>\<open>InferenceResult.__post_init__\<close>.\<close>

definition check_result :: "InferenceResult \<Rightarrow> InferenceResult result" where
  "check_result r =
     construct
       [nonempty_check ''asset_id'' (ir_asset_id r),
        (ir_status r = VALID_PREDICTION \<longrightarrow>
           ir_diagnosed_class r \<noteq> None \<and> ir_class_probabilities r \<noteq> None,
         ValueError ''valid_prediction result requires diagnosed_class and class_probabilities''),
        (ir_status r \<noteq> VALID_PREDICTION \<longrightarrow> ir_diagnosed_class r = None,
         ValueError ''diagnosed_class must be None unless status is valid_prediction''),
        (ir_status r = WARMING_UP \<longrightarrow> ir_samples_available r \<noteq> None \<and> ir_samples_required r \<noteq> None,
         ValueError ''warming_up result requires samples_available and samples_required'')] r"

section \<open>Evidence\<close>

definition MAX_EVIDENCE_ITEMS :: nat where
  "MAX_EVIDENCE_ITEMS = 5"

definition alert_progress_evidence ::
    "AlertMachineState \<Rightarrow> StateMachineConfig \<Rightarrow> EvidenceItem option result" where
  "alert_progress_evidence m config =
     (if ms_state m = HEALTHY_STATE then
        (case ms_pending m of
           None \<Rightarrow> Ok None
         | Some c \<Rightarrow>
             if entry_persistence config = 0 then Err ZeroDivisionError
             else Ok (Some \<lparr>evi_label = ''alert_entry_progress'',
               evi_value = fdiv (of_int (ms_pending_streak m)) (of_int (entry_persistence config)),
               evi_detail = ''pending_'' @ c @ '': '' @ int_str (ms_pending_streak m) @ ''/'' @
                 int_str (entry_persistence config) @ '' consecutive qualifying samples''\<rparr>))
      else if exit_persistence config = 0 then Err ZeroDivisionError
      else Ok (Some \<lparr>evi_label = ''alert_exit_progress'',
        evi_value = fdiv (of_int (ms_exit_streak m)) (of_int (exit_persistence config)),
        evi_detail = ms_state m @ '': exit_streak '' @ int_str (ms_exit_streak m) @ ''/'' @
          int_str (exit_persistence config) @ '' consecutive healthy-qualifying samples''\<rparr>))"

definition residual_pairs :: "(string, pyfloat) dict \<Rightarrow> (string \<times> pyfloat) list" where
  "residual_pairs feature_values =
     sorted_by (\<lambda>(name, v). (- \<bar>v\<bar>, name))
       (concat (map (\<lambda>name. case map_of feature_values name of None \<Rightarrow> [] | Some v \<Rightarrow> [(name, v)])
         (map rs_name RESIDUAL_SPECS)))"

definition build_evidence ::
    "(string, pyfloat) dict \<Rightarrow> (string, pyfloat) dict \<Rightarrow> string \<Rightarrow> AlertMachineState \<Rightarrow>
     StateMachineConfig \<Rightarrow> EvidenceItem list result" where
  "build_evidence feature_values class_probabilities diagnosed_class m config =
     (case sorted_by (\<lambda>(c, p). (- p, c)) class_probabilities of
        [] \<Rightarrow> Err (IndexError ''list index out of range'')
      | (best_class, best_probability) # ranked \<Rightarrow>
          res_bind (alert_progress_evidence m config) (\<lambda>progress.
          Ok (take MAX_EVIDENCE_ITEMS
            ([\<lparr>evi_label = ''top_class_probability'', evi_value = best_probability,
               evi_detail = best_class @ '' (diagnosed: '' @ diagnosed_class @ '')''\<rparr>] @
             (case ranked of [] \<Rightarrow> [] | (runner_up, p) # _ \<Rightarrow>
                [\<lparr>evi_label = ''runner_up_class_probability'', evi_value = p, evi_detail = runner_up\<rparr>]) @
             map (\<lambda>(name, v). \<lparr>evi_label = ''residual:'' @ name, evi_value = v,
                   evi_detail = ''observed minus fixed healthy reference curve''\<rparr>)
               (take 2 (residual_pairs feature_values)) @
             (case progress of None \<Rightarrow> [] | Some item \<Rightarrow> [item])))))"

section \<open>The session\<close>

record PromotedFaultSystem =
  pf_predict_proba :: "pyfloat list \<Rightarrow> pyfloat list"
  pf_feature_order :: "string list"
  pf_class_order :: "string list"
  pf_alert_policy_config :: StateMachineConfig
  pf_system_version :: string
  pf_model_hash :: string
  pf_policy_hash :: string
  pf_feature_schema_version :: string

record FaultInferenceSession =
  fs_asset_id :: string
  fs_history :: "string \<Rightarrow> series"
  fs_sample_count :: nat
  fs_last_timestamp :: "datetime option"
  fs_machine_state :: AlertMachineState

definition reset_session :: "FaultInferenceSession \<Rightarrow> FaultInferenceSession" where
  "reset_session s =
     s\<lparr>fs_history := \<lambda>_. [], fs_sample_count := 0, fs_last_timestamp := None,
       fs_machine_state := initial_machine\<rparr>"

definition mk_session :: "string \<Rightarrow> FaultInferenceSession result" where
  "mk_session asset =
     construct [nonempty_check ''asset_id'' asset]
       \<lparr>fs_asset_id = asset, fs_history = \<lambda>_. [], fs_sample_count = 0, fs_last_timestamp = None,
        fs_machine_state = initial_machine\<rparr>"

definition bounded_append :: "series \<Rightarrow> pyfloat \<times> pyfloat \<Rightarrow> series" where
  "bounded_append s x = take_last LONGEST_WINDOW_SAMPLES (s @ [x])"

text \<open>The ingestion loop over the measurements; a missing reading raises after the earlier appends.\<close>

fun append_readings ::
    "pyfloat \<Rightarrow> (string, pyfloat) dict \<Rightarrow> string list \<Rightarrow> (string \<Rightarrow> series) \<Rightarrow>
     unit result \<times> (string \<Rightarrow> series)" where
  "append_readings elapsed vals [] h = (Ok (), h)"
| "append_readings elapsed vals (m # ms) h =
     (case map_of vals m of
        None \<Rightarrow> (Err (KeyError m), h)
      | Some v \<Rightarrow> append_readings elapsed vals ms (h(m := bounded_append (h m) (elapsed, v))))"

text \<open>The feature row of the newest sample in the buffers.\<close>

definition session_row :: "FaultInferenceSession \<Rightarrow> FeatureRowResult result" where
  "session_row s =
     (let h = fs_history s; index = length (h (hd DEFAULT_MEASUREMENTS)) - 1
      in if \<exists>m \<in> set DEFAULT_MEASUREMENTS. length (h m) \<le> index
         then Err (IndexError ''list index out of range'')
         else compute_feature_row (\<lambda>m. snd (h m ! index)) (\<lambda>m. snd (h m ! (index - 1))) h index)"

definition non_monotonic :: "string \<Rightarrow> datetime \<Rightarrow> datetime \<Rightarrow> py_error" where
  "non_monotonic asset previous ts =
     AppError ''NonMonotonicTimestampError''
       (''non-monotonic timestamp for asset '' @ py_repr asset @ '': '' @ isoformat ts @
        '' does not strictly follow the previous sample's '' @ isoformat previous)"

definition zip_classes :: "string list \<Rightarrow> pyfloat list \<Rightarrow> (string, pyfloat) dict result" where
  "zip_classes classes proba =
     (if length classes > length proba then Err (ValueError ''zip() argument 2 is shorter than argument 1'')
      else if length classes < length proba then Err (ValueError ''zip() argument 2 is longer than argument 1'')
      else Ok (foldl (\<lambda>d (c, p). dict_set c p d) [] (zip classes proba)))"

text \<open>Scoring a valid row: the prediction, the machine step, the evidence and the result.\<close>

definition score_row ::
    "PromotedFaultSystem \<Rightarrow> FaultInferenceSession \<Rightarrow> datetime \<Rightarrow> pyfloat \<Rightarrow> FeatureRowResult \<Rightarrow>
     InferenceResult result \<times> FaultInferenceSession" where
  "score_row system s ts elapsed row =
     (let classes = pf_class_order system; config = pf_alert_policy_config system
      in case res_bind (res_map (dict_item (fr_values row)) (pf_feature_order system)) (\<lambda>vector.
              let proba = pf_predict_proba system vector in
              res_bind (np_argmax proba) (\<lambda>i.
              res_bind (py_item ''tuple index out of range'' classes i) (\<lambda>diagnosed.
              res_bind (zip_classes classes proba) (\<lambda>probs.
              res_bind (step_state_machine config classes (fs_machine_state s) (elapsed, proba, True))
                (\<lambda>(m, row_state, event). Ok (diagnosed, probs, proba ! i, m, event)))))) of
           Inl e \<Rightarrow> (Err e, s)
         | Inr (diagnosed, probs, maximum, m, event) \<Rightarrow>
             (res_bind (build_evidence (fr_values row) probs diagnosed m config) (\<lambda>evidence.
                check_result ((blank_result VALID_PREDICTION (fs_asset_id s) ts)
                  \<lparr>ir_diagnosed_class := Some diagnosed, ir_class_probabilities := Some probs,
                   ir_maximum_probability := Some maximum, ir_alert_state := Some (ms_state m),
                   ir_alert_event := event, ir_evidence := evidence,
                   ir_model_system_version := Some (pf_system_version system),
                   ir_model_hash := Some (pf_model_hash system),
                   ir_policy_hash := Some (pf_policy_hash system),
                   ir_feature_schema_version := Some (pf_feature_schema_version system)\<rparr>)),
              s\<lparr>fs_machine_state := m\<rparr>))"

definition reject_row ::
    "PromotedFaultSystem \<Rightarrow> FaultInferenceSession \<Rightarrow> datetime \<Rightarrow> pyfloat \<Rightarrow> FeatureRowResult \<Rightarrow>
     InferenceResult result \<times> FaultInferenceSession" where
  "reject_row system s ts elapsed row =
     (case step_state_machine (pf_alert_policy_config system) (pf_class_order system) (fs_machine_state s)
             (elapsed, replicate (length (pf_class_order system)) 0, False) of
        Inl e \<Rightarrow> (Err e, s)
      | Inr (m, row_state, event) \<Rightarrow>
          (check_result ((blank_result INSUFFICIENT_DATA (fs_asset_id s) ts)
             \<lparr>ir_alert_state := Some (ms_state m), ir_reason_codes := fv_reason_codes (fr_validity row),
              ir_invalid_feature_names := fv_invalid_feature_names (fr_validity row)\<rparr>),
           s\<lparr>fs_machine_state := m\<rparr>))"

definition session_ingest ::
    "PromotedFaultSystem \<Rightarrow> FaultInferenceSession \<Rightarrow> InferenceTelemetrySample \<Rightarrow>
     InferenceResult result \<times> FaultInferenceSession" where
  "session_ingest system s sample =
     (if ts_asset_id sample \<noteq> fs_asset_id s then
        (Err (ValueError (''sample asset_id '' @ py_repr (ts_asset_id sample) @
           '' does not match this session's asset_id '' @ py_repr (fs_asset_id s))), s)
      else if (case fs_last_timestamp s of None \<Rightarrow> False | Some l \<Rightarrow> ts_timestamp sample \<le> l) then
        (Err (non_monotonic (fs_asset_id s) (the (fs_last_timestamp s)) (ts_timestamp sample)), s)
      else
        let elapsed = fmul (of_nat (fs_sample_count s + 1)) DT_SECONDS in
        case append_readings elapsed (ts_values sample) DEFAULT_MEASUREMENTS (fs_history s) of
          (Inl e, h) \<Rightarrow> (Err e, s\<lparr>fs_history := h\<rparr>)
        | (Inr _, h) \<Rightarrow>
            let s1 = s\<lparr>fs_history := h, fs_sample_count := fs_sample_count s + 1,
                       fs_last_timestamp := Some (ts_timestamp sample)\<rparr> in
            if fs_sample_count s1 < LONGEST_WINDOW_SAMPLES then
              (check_result ((blank_result WARMING_UP (fs_asset_id s1) (ts_timestamp sample))
                 \<lparr>ir_samples_available := Some (fs_sample_count s1),
                  ir_samples_required := Some LONGEST_WINDOW_SAMPLES\<rparr>), s1)
            else case session_row s1 of
                Inl e \<Rightarrow> (Err e, s1)
              | Inr row \<Rightarrow>
                  if validity_status (fr_validity row) = ''insufficient_data''
                  then reject_row system s1 (ts_timestamp sample) elapsed row
                  else score_row system s1 (ts_timestamp sample) elapsed row)"

section \<open>Manager and replay\<close>

type_synonym FaultInferenceManager = "(string, FaultInferenceSession) dict"

definition session_for ::
    "FaultInferenceManager \<Rightarrow> string \<Rightarrow> (FaultInferenceSession \<times> FaultInferenceManager) result" where
  "session_for manager asset =
     (case map_of manager asset of
        Some s \<Rightarrow> Ok (s, manager)
      | None \<Rightarrow> res_bind (mk_session asset) (\<lambda>s. Ok (s, dict_set asset s manager)))"

definition manager_ingest ::
    "PromotedFaultSystem \<Rightarrow> FaultInferenceManager \<Rightarrow> InferenceTelemetrySample \<Rightarrow>
     InferenceResult result \<times> FaultInferenceManager" where
  "manager_ingest system manager sample =
     (case session_for manager (ts_asset_id sample) of
        Inl e \<Rightarrow> (Err e, manager)
      | Inr (s, manager') \<Rightarrow>
          (case session_ingest system s sample of
             (r, s') \<Rightarrow> (r, dict_set (ts_asset_id sample) s' manager')))"

definition manager_reset :: "FaultInferenceManager \<Rightarrow> string option \<Rightarrow> FaultInferenceManager result" where
  "manager_reset manager asset =
     (case asset of
        None \<Rightarrow> Ok (map (\<lambda>(k, s). (k, reset_session s)) manager)
      | Some k \<Rightarrow> res_bind (session_for manager k) (\<lambda>(s, manager').
          Ok (dict_set k (reset_session s) manager')))"

fun ingest_samples ::
    "PromotedFaultSystem \<Rightarrow> FaultInferenceSession \<Rightarrow> InferenceTelemetrySample list \<Rightarrow>
     (InferenceResult list \<times> FaultInferenceSession) result" where
  "ingest_samples system s [] = Ok ([], s)"
| "ingest_samples system s (x # xs) =
     (case session_ingest system s x of
        (Inl e, s') \<Rightarrow> Err e
      | (Inr r, s') \<Rightarrow> res_bind (ingest_samples system s' xs) (\<lambda>(rs, s''). Ok (r # rs, s'')))"

text \<open>
  The loop of \<^verbatim>\<open>replay_run\<close> validates and ingests one batch at a time; an empty first batch has no
  asset to read.
\<close>

fun replay_batches ::
    "PromotedFaultSystem \<Rightarrow> FaultInferenceSession \<Rightarrow> Observation list list \<Rightarrow> InferenceResult list result" where
  "replay_batches system s [] = Ok []"
| "replay_batches system s (batch # batches) =
     res_bind (from_observations batch) (\<lambda>sample.
     case session_ingest system s sample of
       (Inl e, s') \<Rightarrow> Err e
     | (Inr r, s') \<Rightarrow> res_bind (replay_batches system s' batches) (\<lambda>rs. Ok (r # rs)))"

definition replay_run ::
    "PromotedFaultSystem \<Rightarrow> Observation list list \<Rightarrow> InferenceResult list result" where
  "replay_run system batches =
     (case batches of
        [] \<Rightarrow> Ok []
      | [] # _ \<Rightarrow> Err (IndexError ''tuple index out of range'')
      | (ob # _) # _ \<Rightarrow>
          res_bind (mk_session (obs_asset_id ob)) (\<lambda>s. replay_batches system s batches))"

section \<open>What the buffers hold\<close>

definition sample_value :: "InferenceTelemetrySample \<Rightarrow> string \<Rightarrow> pyfloat" where
  "sample_value x m = the (map_of (ts_values x) m)"

text \<open>The series the offline builder would have for the same samples.\<close>

definition full_series :: "InferenceTelemetrySample list \<Rightarrow> string \<Rightarrow> series" where
  "full_series xs m = map (\<lambda>i. (clock i, sample_value (xs ! i) m)) [0..<length xs]"

definition complete_for :: "string \<Rightarrow> InferenceTelemetrySample \<Rightarrow> bool" where
  "complete_for k x \<longleftrightarrow> ts_asset_id x = k \<and> (\<forall>m \<in> set DEFAULT_MEASUREMENTS. m \<in> dom (map_of (ts_values x)))"

lemma full_series_snoc: "full_series (xs @ [x]) m = full_series xs m @ [(clock (length xs), sample_value x m)]"
  by (simp add: full_series_def nth_append)

lemma length_full_series [simp]: "length (full_series xs m) = length xs"
  by (simp add: full_series_def)

lemma full_series_on_clock: "on_clock (full_series xs m)"
  by (simp add: on_clock_def full_series_def comp_def)

lemma take_last_take_last: "take_last n (take_last n xs @ [x]) = take_last n (xs @ [x])"
proof (cases "n \<le> length xs")
  case True
  then obtain ys zs where xs: "xs = ys @ zs" "length zs = n"
    by (metis append_take_drop_id diff_diff_cancel length_drop)
  then show ?thesis by (simp add: take_last_def drop_append)
qed (simp add: take_last_def)

lemma append_readings_Ok:
  assumes "distinct ms" "\<forall>m \<in> set ms. m \<in> dom (map_of vals)"
  shows "append_readings t vals ms h =
    (Ok (), \<lambda>m. if m \<in> set ms then bounded_append (h m) (t, the (map_of vals m)) else h m)"
  using assms
proof (induction ms arbitrary: h)
  case (Cons m ms)
  then obtain v where v: "map_of vals m = Some v" by auto
  with Cons show ?case by (auto intro!: ext)
qed simp

lemma measurements_distinct: "distinct DEFAULT_MEASUREMENTS"
  by (simp add: DEFAULT_MEASUREMENTS_def)

lemma compute_feature_row_cong:
  assumes "\<And>m. m \<in> set DEFAULT_MEASUREMENTS \<Longrightarrow> current m = current' m"
    and "\<And>m. m \<in> set DEFAULT_MEASUREMENTS \<Longrightarrow> previous m = previous' m"
  shows "compute_feature_row current previous s index = compute_feature_row current' previous' s index"
proof -
  have "measurement_entries current previous s index m = measurement_entries current' previous' s index m"
    if "m \<in> set DEFAULT_MEASUREMENTS" for m
    by (simp add: measurement_entries_def assms that)
  moreover have "current n = current' n" if "n \<in> {''voltage'', ''current'', ''power_output'', ''fuel_flow'',
      ''stack_temperature'', ''coolant_flow''}" for n
    using that by (intro assms(1)) (auto simp: DEFAULT_MEASUREMENTS_def)
  ultimately show ?thesis
    by (simp add: compute_feature_row_def compute_residuals_def RESIDUAL_SPECS_def cong: res_map_cong)
qed

text \<open>The invariant of a session fed with the samples \<open>xs\<close>.\<close>

definition session_holds :: "StateMachineConfig \<Rightarrow> string \<Rightarrow> InferenceTelemetrySample list \<Rightarrow> FaultInferenceSession \<Rightarrow> bool" where
  "session_holds config k xs s \<longleftrightarrow>
     fs_asset_id s = k \<and> fs_sample_count s = length xs \<and>
     fs_last_timestamp s = (if xs = [] then None else Some (ts_timestamp (last xs))) \<and>
     (\<forall>m \<in> set DEFAULT_MEASUREMENTS. fs_history s m = take_last LONGEST_WINDOW_SAMPLES (full_series xs m)) \<and>
     machine_wf config (fs_machine_state s)"

lemma nth_take_last: "i < n \<Longrightarrow> n \<le> length xs \<Longrightarrow> take_last n xs ! i = xs ! (length xs - n + i)"
  by (simp add: take_last_def)

lemma session_row_offline:
  assumes inv: "session_holds config k xs s" and n: "LONGEST_WINDOW_SAMPLES \<le> length xs"
  shows "session_row s = compute_feature_row (sample_value (last xs)) (sample_value (xs ! (length xs - 2)))
    (full_series xs) (length xs - 1)"
proof -
  let ?L = LONGEST_WINDOW_SAMPLES and ?h = "fs_history s"
  have h: "?h m = take_last ?L (full_series xs m)" if "m \<in> set DEFAULT_MEASUREMENTS" for m
    using inv that by (simp add: session_holds_def)
  then have len: "length (?h m) = ?L" if "m \<in> set DEFAULT_MEASUREMENTS" for m
    using that n by simp
  have hd: "hd DEFAULT_MEASUREMENTS \<in> set DEFAULT_MEASUREMENTS" by (simp add: DEFAULT_MEASUREMENTS_def)
  have L: "?L = 12" by (simp add: LONGEST_WINDOW_SAMPLES_def)
  have cur: "snd (?h m ! 11) = sample_value (last xs) m" and prev: "snd (?h m ! 10) = sample_value (xs ! (length xs - 2)) m"
    if "m \<in> set DEFAULT_MEASUREMENTS" for m
  proof -
    have e: "length xs - 12 + 11 = length xs - 1" "length xs - 12 + 10 = length xs - 2"
      and b: "length xs - 1 < length xs" "length xs - 2 < length xs" and ne: "xs \<noteq> []"
      using n L by auto
    have "?h m ! 11 = full_series xs m ! (length xs - 1)" "?h m ! 10 = full_series xs m ! (length xs - 2)"
      using nth_take_last [of 11 12 "full_series xs m"] nth_take_last [of 10 12 "full_series xs m"] n
      unfolding h [OF that] L length_full_series e by simp_all
    then show "snd (?h m ! 11) = sample_value (last xs) m" "snd (?h m ! 10) = sample_value (xs ! (length xs - 2)) m"
      using b ne by (simp_all add: full_series_def last_conv_nth)
  qed
  have "session_row s = compute_feature_row (\<lambda>m. snd (?h m ! 11)) (\<lambda>m. snd (?h m ! 10)) ?h (?L - 1)"
    using len hd by (simp add: session_row_def Let_def L)
  also have "\<dots> = compute_feature_row (sample_value (last xs)) (sample_value (xs ! (length xs - 2))) ?h (?L - 1)"
    by (rule compute_feature_row_cong) (use cur prev in auto)
  also have "\<dots> = compute_feature_row (sample_value (last xs)) (sample_value (xs ! (length xs - 2))) (full_series xs) (length xs - 1)"
    by (rule compute_feature_row_buffer) (use n L h in auto)
  finally show ?thesis .
qed

section \<open>One sample\<close>

definition system_wf :: "PromotedFaultSystem \<Rightarrow> bool" where
  "system_wf system \<longleftrightarrow>
     HEALTHY_STATE \<in> set (pf_class_order system) \<and>
     set (pf_feature_order system) \<subseteq> set feature_column_order \<and>
     entry_persistence (pf_alert_policy_config system) \<noteq> 0 \<and>
     exit_persistence (pf_alert_policy_config system) \<noteq> 0"

text \<open>The classifier returns one probability per class.\<close>

definition predicts_classes :: "PromotedFaultSystem \<Rightarrow> bool" where
  "predicts_classes system \<longleftrightarrow> (\<forall>v. length (pf_predict_proba system v) = length (pf_class_order system))"

definition expected_status :: "InferenceTelemetrySample list \<Rightarrow> InferenceStatus" where
  "expected_status xs =
     (if length xs < LONGEST_WINDOW_SAMPLES then WARMING_UP
      else if rejected_ratios (sample_value (last xs)) = [] then VALID_PREDICTION
      else INSUFFICIENT_DATA)"

lemma check_result_Ok: "check_result r = Ok r' \<longleftrightarrow> r' = r \<and> ir_asset_id r \<noteq> [] \<and>
    (ir_status r = VALID_PREDICTION \<longrightarrow> ir_diagnosed_class r \<noteq> None \<and> ir_class_probabilities r \<noteq> None) \<and>
    (ir_status r \<noteq> VALID_PREDICTION \<longrightarrow> ir_diagnosed_class r = None) \<and>
    (ir_status r = WARMING_UP \<longrightarrow> ir_samples_available r \<noteq> None \<and> ir_samples_required r \<noteq> None)"
  by (auto simp: check_result_def construct_Ok_iff)

lemma alert_progress_Ok:
  "entry_persistence config \<noteq> 0 \<Longrightarrow> exit_persistence config \<noteq> 0 \<Longrightarrow>
   \<exists>item. alert_progress_evidence m config = Ok item"
  by (auto simp: alert_progress_evidence_def split: option.splits)

lemma build_evidence_Ok:
  assumes "probs \<noteq> []" "entry_persistence config \<noteq> 0" "exit_persistence config \<noteq> 0"
  shows "\<exists>ev. build_evidence fv probs d m config = Ok ev \<and> ev \<noteq> [] \<and> length ev \<le> MAX_EVIDENCE_ITEMS"
proof -
  obtain item where "alert_progress_evidence m config = Ok item"
    using alert_progress_Ok assms by blast
  moreover obtain best rest where "sorted_by (\<lambda>(c, p). (- p, c)) probs = best # rest"
    using assms(1) by (cases "sorted_by (\<lambda>(c, p). (- p, c)) probs") (metis length_0_conv length_sorted_by, blast)
  ultimately show ?thesis by (cases best) (simp add: build_evidence_def MAX_EVIDENCE_ITEMS_def)
qed

lemma dict_sets_nonempty: "zs \<noteq> [] \<Longrightarrow> foldl (\<lambda>d (c, p). dict_set c p d) d zs \<noteq> []"
proof (induction zs rule: rev_induct)
  case (snoc z zs)
  obtain c p where "z = (c, p)" by (cases z)
  then show ?case by (cases "foldl (\<lambda>d (c, p). dict_set c p d) d zs") (auto split: if_splits)
qed simp

lemma compute_row_of_session:
  assumes "session_holds config k xs s" "LONGEST_WINDOW_SAMPLES \<le> length xs" "int (length xs) < clock_bound"
  obtains row where "session_row s = Ok row"
    "map fst (fr_values row) = filter (\<lambda>c. c \<notin> set (rejected_ratios (sample_value (last xs)))) feature_column_order"
    "fv_invalid_feature_names (fr_validity row) = rejected_ratios (sample_value (last xs))"
proof -
  from assms(2) have "0 < length xs" unfolding LONGEST_WINDOW_SAMPLES_def by linarith
  then have "\<exists>r. compute_feature_row (sample_value (last xs)) (sample_value (xs ! (length xs - 2)))
      (full_series xs) (length xs - 1) = Ok r"
    using assms(2,3) by (intro compute_feature_row_total) (auto simp: full_series_on_clock)
  then obtain row where row: "compute_feature_row (sample_value (last xs)) (sample_value (xs ! (length xs - 2)))
      (full_series xs) (length xs - 1) = Ok row" by blast
  from that [OF _ compute_feature_row_Ok(1) [OF row] compute_feature_row_Ok(2) [OF row]]
  show thesis using session_row_offline [OF assms(1,2)] row by simp
qed

lemma readable_row:
  "system_wf system \<Longrightarrow> predicts_classes system \<Longrightarrow>
   readable (pf_class_order system) (t, pf_predict_proba system v, b)"
  by (simp add: readable_def system_wf_def predicts_classes_def)

lemma score_row_Ok:
  assumes wf: "system_wf system" "predicts_classes system"
    and m: "machine_wf (pf_alert_policy_config system) (fs_machine_state s)" and k: "fs_asset_id s \<noteq> []"
    and cols: "map fst (fr_values row) = feature_column_order"
  obtains r m' where "score_row system s ts t row = (Ok r, s\<lparr>fs_machine_state := m'\<rparr>)"
    "machine_wf (pf_alert_policy_config system) m'" "ir_status r = VALID_PREDICTION"
    "ir_alert_state r = Some (ms_state m')"
proof -
  let ?classes = "pf_class_order system" and ?config = "pf_alert_policy_config system"
  have "\<exists>x. dict_item (fr_values row) n = Ok x" if "n \<in> set (pf_feature_order system)" for n
  proof -
    have "n \<in> fst ` set (fr_values row)"
      using that wf(1) cols unfolding system_wf_def by (metis list.set_map subsetD)
    then show ?thesis by (auto simp: dict_item_def map_of_eq_None_iff split: option.splits)
  qed
  then obtain v where v: "res_map (dict_item (fr_values row)) (pf_feature_order system) = Ok v"
    using res_map_total by blast
  let ?proba = "pf_predict_proba system v"
  have len: "length ?proba = length ?classes" using wf(2) by (simp add: predicts_classes_def)
  have ne: "?classes \<noteq> []" using wf(1) by (auto simp: system_wf_def)
  then have "?proba \<noteq> []" using len by auto
  then obtain i where i: "i < length ?proba" "np_argmax ?proba = Ok i" by (rule np_argmax_bound)
  define probs where "probs = foldl (\<lambda>d (c, p). dict_set c p d) [] (zip ?classes ?proba)"
  have probs: "zip_classes ?classes ?proba = Ok probs" using len by (simp add: zip_classes_def probs_def)
  have "probs \<noteq> []" unfolding probs_def by (rule dict_sets_nonempty) (use ne len in auto)
  obtain m' rs ev where step: "step_state_machine ?config ?classes (fs_machine_state s) (t, ?proba, True) = Ok (m', rs, ev)"
    using step_total [OF readable_row [OF wf]] machine_wf_state [OF m] by metis
  obtain evidence where "build_evidence (fr_values row) probs (?classes ! i) m' ?config = Ok evidence"
    using build_evidence_Ok [OF \<open>probs \<noteq> []\<close>] wf(1) unfolding system_wf_def by metis
  with v i probs step len k that [OF _ machine_wf_step [OF m step]] show thesis
    by (simp add: score_row_def Let_def py_item_def check_result_Ok blank_result_def check_result_def construct_Cons)
qed

lemma reject_row_Ok:
  assumes wf: "system_wf system" and m: "machine_wf (pf_alert_policy_config system) (fs_machine_state s)"
    and k: "fs_asset_id s \<noteq> []"
  obtains r m' where "reject_row system s ts t row = (Ok r, s\<lparr>fs_machine_state := m'\<rparr>)"
    "machine_wf (pf_alert_policy_config system) m'" "ir_status r = INSUFFICIENT_DATA"
proof -
  let ?row = "(t, replicate (length (pf_class_order system)) 0, False)"
  have "readable (pf_class_order system) ?row" using wf by (simp add: readable_def system_wf_def)
  then obtain m' rs ev where step:
    "step_state_machine (pf_alert_policy_config system) (pf_class_order system) (fs_machine_state s) ?row = Ok (m', rs, ev)"
    using step_total machine_wf_state [OF m] by metis
  with k that [OF _ machine_wf_step [OF m step]] show thesis
    by (simp add: reject_row_def check_result_def construct_Cons blank_result_def)
qed

lemma session_ingest_Ok:
  assumes wf: "system_wf system" "predicts_classes system" and k: "k \<noteq> []"
    and inv: "session_holds (pf_alert_policy_config system) k xs s"
    and x: "complete_for k x" "xs \<noteq> [] \<Longrightarrow> ts_timestamp (last xs) < ts_timestamp x"
    and bound: "int (length xs) + 1 < clock_bound"
  obtains r s' where "session_ingest system s x = (Ok r, s')"
    "session_holds (pf_alert_policy_config system) k (xs @ [x]) s'" "ir_status r = expected_status (xs @ [x])"
proof -
  let ?c = "pf_alert_policy_config system" and ?t = "clock (length xs)"
  define h where "h = (\<lambda>m. if m \<in> set DEFAULT_MEASUREMENTS
      then bounded_append (fs_history s m) (?t, the (map_of (ts_values x) m)) else fs_history s m)"
  define s1 where "s1 = s\<lparr>fs_history := h, fs_sample_count := fs_sample_count s + 1,
      fs_last_timestamp := Some (ts_timestamp x)\<rparr>"
  have app: "append_readings ?t (ts_values x) DEFAULT_MEASUREMENTS (fs_history s) = (Ok (), h)"
    unfolding h_def using x(1) by (intro append_readings_Ok measurements_distinct) (simp add: complete_for_def)
  have t: "fmul (of_nat (fs_sample_count s + 1)) DT_SECONDS = ?t"
    using inv by (simp add: session_holds_def clock_def)
  have inv1: "session_holds ?c k (xs @ [x]) s1"
    using inv by (auto simp: session_holds_def s1_def h_def bounded_append_def full_series_snoc sample_value_def
        take_last_take_last)
  have guard: "ts_asset_id x = fs_asset_id s" "\<not> (case fs_last_timestamp s of None \<Rightarrow> False | Some l \<Rightarrow> ts_timestamp x \<le> l)"
    using inv x by (auto simp: session_holds_def complete_for_def split: if_splits)
  have k1: "fs_asset_id s1 \<noteq> []" "machine_wf ?c (fs_machine_state s1)" and n1: "fs_sample_count s1 = length xs + 1"
    using inv1 k by (simp_all add: session_holds_def)
  have keep: "session_holds ?c k (xs @ [x]) (s1\<lparr>fs_machine_state := m'\<rparr>)" if "machine_wf ?c m'" for m'
    using inv1 that by (simp add: session_holds_def)
  have ingest: "session_ingest system s x =
      (if fs_sample_count s1 < LONGEST_WINDOW_SAMPLES then
         (check_result ((blank_result WARMING_UP (fs_asset_id s1) (ts_timestamp x))
            \<lparr>ir_samples_available := Some (fs_sample_count s1), ir_samples_required := Some LONGEST_WINDOW_SAMPLES\<rparr>), s1)
       else case session_row s1 of
           Inl e \<Rightarrow> (Err e, s1)
         | Inr row \<Rightarrow>
             if validity_status (fr_validity row) = ''insufficient_data''
             then reject_row system s1 (ts_timestamp x) ?t row else score_row system s1 (ts_timestamp x) ?t row)"
    using guard unfolding session_ingest_def Let_def t app s1_def by simp
  show thesis
  proof (cases "length xs + 1 < LONGEST_WINDOW_SAMPLES")
    case True
    with that [OF _ inv1] k1 n1 guard show thesis
      by (simp add: ingest expected_status_def check_result_def construct_Cons blank_result_def)
  next
    case False
    then obtain row where row: "session_row s1 = Ok row"
      "map fst (fr_values row) = filter (\<lambda>c. c \<notin> set (rejected_ratios (sample_value x))) feature_column_order"
      "fv_invalid_feature_names (fr_validity row) = rejected_ratios (sample_value x)"
      using compute_row_of_session [OF inv1] bound by (auto simp: not_less)
    show thesis
    proof (cases "rejected_ratios (sample_value x) = []")
      case True
      then have "map fst (fr_values row) = feature_column_order" using row(2) by simp
      from score_row_Ok [OF wf k1(2,1) this, of "ts_timestamp x" ?t] obtain r m' where
        "score_row system s1 (ts_timestamp x) ?t row = (Ok r, s1\<lparr>fs_machine_state := m'\<rparr>)"
        "machine_wf ?c m'" "ir_status r = VALID_PREDICTION" by metis
      with that [OF _ keep] True False row n1 guard show thesis
        by (simp add: ingest expected_status_def validity_status_def)
    next
      case rej: False
      from reject_row_Ok [OF wf(1) k1(2,1), of "ts_timestamp x" ?t row] obtain r m' where
        "reject_row system s1 (ts_timestamp x) ?t row = (Ok r, s1\<lparr>fs_machine_state := m'\<rparr>)"
        "machine_wf ?c m'" "ir_status r = INSUFFICIENT_DATA" by metis
      with that [OF _ keep] rej False row n1 guard show thesis
        by (simp add: ingest expected_status_def validity_status_def)
    qed
  qed
qed

section \<open>A whole stream\<close>

definition stream_ok :: "string \<Rightarrow> InferenceTelemetrySample list \<Rightarrow> bool" where
  "stream_ok k xs \<longleftrightarrow> k \<noteq> [] \<and> (\<forall>x \<in> set xs. complete_for k x) \<and>
     sorted_wrt (<) (map ts_timestamp xs) \<and> int (length xs) < clock_bound"

lemma ingest_samples_snoc:
  "ingest_samples system s (xs @ [x]) =
     res_bind (ingest_samples system s xs) (\<lambda>(rs, s').
     case session_ingest system s' x of (Inl e, s'') \<Rightarrow> Err e | (Inr r, s'') \<Rightarrow> Ok (rs @ [r], s''))"
proof (induction xs arbitrary: s)
  case Nil
  show ?case by (auto split: prod.splits sum.splits)
next
  case (Cons y ys)
  obtain r s1 where y: "session_ingest system s y = (r, s1)" by fastforce
  show ?case
  proof (cases r)
    case (Inr r0)
    show ?thesis
    proof (cases "ingest_samples system s1 ys")
      case (Inr p)
      obtain rs s2 where p: "p = (rs, s2)" by (cases p)
      obtain r' s3 where "session_ingest system s2 x = (r', s3)" by fastforce
      with Cons y Inr p \<open>r = Inr r0\<close> show ?thesis by (cases r') simp_all
    qed (use Cons y Inr in simp)
  qed (simp add: y)
qed

lemma ingest_samples_Ok:
  assumes wf: "system_wf system" "predicts_classes system"
    and s0: "session_holds (pf_alert_policy_config system) k [] s0" and "stream_ok k xs"
  shows "\<exists>rs s. ingest_samples system s0 xs = Ok (rs, s) \<and>
    session_holds (pf_alert_policy_config system) k xs s \<and>
    map ir_status rs = map (\<lambda>n. expected_status (take (Suc n) xs)) [0..<length xs]"
  using assms(4)
proof (induction xs rule: rev_induct)
  case Nil
  with s0 show ?case by simp
next
  case (snoc x xs)
  then have ok: "stream_ok k xs" and x: "complete_for k x" and k: "k \<noteq> []" and b: "int (length xs) + 1 < clock_bound"
    and lt: "xs \<noteq> [] \<Longrightarrow> ts_timestamp (last xs) < ts_timestamp x"
    by (auto simp: stream_ok_def sorted_wrt_append)
  from snoc.IH [OF ok] obtain rs s where run: "ingest_samples system s0 xs = Ok (rs, s)"
    and inv: "session_holds (pf_alert_policy_config system) k xs s"
    and st: "map ir_status rs = map (\<lambda>n. expected_status (take (Suc n) xs)) [0..<length xs]" by blast
  from session_ingest_Ok [OF wf k inv x lt b] obtain r s' where
    "session_ingest system s x = (Ok r, s')"
    "session_holds (pf_alert_policy_config system) k (xs @ [x]) s'" "ir_status r = expected_status (xs @ [x])" .
  with run st show ?case by (simp add: ingest_samples_snoc)
qed

lemma mk_session_holds: "mk_session k = Ok s0 \<Longrightarrow> session_holds config k [] s0"
  by (auto simp: mk_session_def construct_Ok_iff session_holds_def full_series_def take_last_def
      machine_wf_initial)

section \<open>Properties\<close>

definition demo_sample :: "int \<Rightarrow> InferenceTelemetrySample" where
  "demo_sample t = \<lparr>ts_asset_id = ''stack-1'', ts_timestamp = t,
     ts_values = map (\<lambda>n. (n, 2)) DEFAULT_MEASUREMENTS,
     ts_units = map (\<lambda>n. (n, the (map_of CANONICAL_UNITS n))) DEFAULT_MEASUREMENTS\<rparr>"

definition demo_stream :: "InferenceTelemetrySample list" where
  "demo_stream = map (\<lambda>n. demo_sample (int n)) [0..<12]"

definition demo_system :: PromotedFaultSystem where
  "demo_system = \<lparr>pf_predict_proba = \<lambda>_. [1/4, 3/4, 0], pf_feature_order = [''voltage'', ''current''],
     pf_class_order = demo_classes, pf_alert_policy_config = demo_alert_config,
     pf_system_version = ''v1'', pf_model_hash = ''m'', pf_policy_hash = ''p'',
     pf_feature_schema_version = ''1.0''\<rparr>"

lemma demo_stream_ok: "stream_ok ''stack-1'' demo_stream"
proof -
  have "m \<in> dom (map_of (ts_values (demo_sample t)))" if "m \<in> set DEFAULT_MEASUREMENTS" for m t
    using that by (simp add: demo_sample_def dom_map_of_conv_image_fst image_image)
  then have "complete_for ''stack-1'' (demo_sample t)" for t
    by (simp add: complete_for_def) (simp add: demo_sample_def)
  then show ?thesis
    by (auto simp: stream_ok_def demo_stream_def clock_bound_def sorted_wrt_map comp_def)
       (simp add: demo_sample_def strict_sorted_iff sorted_wrt_upt)
qed

lemma demo_system_wf: "system_wf demo_system" "predicts_classes demo_system"
proof -
  have "set [''voltage'', ''current''] \<subseteq> set (concat (map measurement_columns DEFAULT_MEASUREMENTS))"
    by (auto simp: measurement_columns_def column_suffixes_def DEFAULT_MEASUREMENTS_def)
  then show "system_wf demo_system"
    unfolding system_wf_def feature_columns_blocks
    by (auto simp: demo_system_def demo_classes_def demo_alert_config_def HEALTHY_STATE_def)
  show "predicts_classes demo_system" by (simp add: predicts_classes_def demo_system_def demo_classes_def)
qed

text \<open>
  C5. Streaming and batch agree: after any stream of at least twelve complete samples, the feature
  row the session computes from its twelve-entry ring buffers is the row the offline builder
  computes from the full series at the same index.
\<close>

theorem streaming_matches_offline:
  assumes "system_wf system" "predicts_classes system" "mk_session k = Ok s0" "stream_ok k xs"
    and "LONGEST_WINDOW_SAMPLES \<le> length xs"
  shows "\<exists>rs s. ingest_samples system s0 xs = Ok (rs, s) \<and>
    session_row s = compute_feature_row (sample_value (last xs)) (sample_value (xs ! (length xs - 2)))
      (full_series xs) (length xs - 1)"
  using ingest_samples_Ok [OF assms(1,2) mk_session_holds [OF assms(3)] assms(4)]
    session_row_offline [OF _ assms(5)] by blast

theorem streaming_matches_offline_witness:
  "\<exists>s0 rs s. mk_session ''stack-1'' = Ok s0 \<and> ingest_samples demo_system s0 demo_stream = Ok (rs, s) \<and>
     session_row s = compute_feature_row (\<lambda>m. sample_value (demo_sample 11) m) (\<lambda>m. sample_value (demo_sample 10) m)
       (full_series demo_stream) 11"
proof -
  obtain s0 where s0: "mk_session ''stack-1'' = Ok s0" by (simp add: mk_session_def construct_Cons)
  have l: "length demo_stream = 12" "last demo_stream = demo_sample 11" "demo_stream ! 10 = demo_sample 10"
    by (simp_all add: demo_stream_def last_map)
  have "\<exists>rs s. ingest_samples demo_system s0 demo_stream = Ok (rs, s) \<and>
    session_row s = compute_feature_row (sample_value (last demo_stream)) (sample_value (demo_stream ! (length demo_stream - 2)))
      (full_series demo_stream) (length demo_stream - 1)"
    by (rule streaming_matches_offline [OF demo_system_wf s0 demo_stream_ok])
       (simp add: l(1) LONGEST_WINDOW_SAMPLES_def)
  then show ?thesis using s0 l by auto
qed



lemma ingest_after_completion:
  assumes "assembler_ingest a ev now = Ok (outs, a')" "ao_status (last outs) = COMPLETE"
    and "te_asset_id ev' = te_asset_id ev" "te_timestamp ev' \<le> te_timestamp ev"
  shows "\<exists>d a''. assembler_ingest a' ev' now' =
    Ok ([rejected (te_asset_id ev) (te_timestamp ev') ''late'' d], a'')"
proof -
  have "\<exists>b. map_of (sa_buffers a') (te_asset_id ev) = Some b \<and> ab_latest_processed b = Some (te_timestamp ev)"
    using assms(1,2)
    by (auto simp: assembler_ingest_def res_bind_Ok_iff Let_def ingest_reading_def put_buffer_map
        rejected_def pending_outcome_def split: if_splits option.splits)
  then obtain b where b: "map_of (sa_buffers a') (te_asset_id ev) = Some b"
    "ab_latest_processed b = Some (te_timestamp ev)" by blast
  then have "is_late (b\<lparr>ab_last_active := now'\<rparr>) ev'" using assms(4) by (simp add: is_late_def)
  with b assms(3) show ?thesis by (auto simp: assembler_ingest_def buffer_for_def Let_def)
qed

text \<open>
  A sample that was already assembled is never assembled twice by the same buffer: once an event
  completes its sample, every further event for that asset and instant is rejected as late, even
  the redelivery of the completing event itself after its result could not be published.
\<close>

theorem completed_sample_is_final:
  assumes "assembler_ingest a ev now = Ok (outs, a')" "ao_status (last outs) = COMPLETE"
    and "te_asset_id ev' = te_asset_id ev" "te_timestamp ev' \<le> te_timestamp ev"
  shows "\<exists>d a''. assembler_ingest a' ev' now' =
    Ok ([rejected (te_asset_id ev) (te_timestamp ev') ''late'' d], a'')"
  using assms by (rule ingest_after_completion)

lemma demo_completes:
  "(case ingest_all (mk_assembler 60 1 1) (map (\<lambda>ev. (ev, 0)) (butlast demo_events)) of
      Inl _ \<Rightarrow> False
    | Inr (_, a) \<Rightarrow> (case assembler_ingest a (last demo_events) 0 of
          Inr (outs, _) \<Rightarrow> ao_status (last outs) = COMPLETE | Inl _ \<Rightarrow> False))"
  by code_simp

theorem completed_sample_is_final_witness:
  "\<exists>a' d a''. assembler_ingest a' (last demo_events) 1 =
     Ok ([rejected ''stack-1'' 0 ''late'' d], a'')"
proof -
  from demo_completes obtain os a where
    c: "case assembler_ingest a (last demo_events) 0 of
          Inr (outs, _) \<Rightarrow> ao_status (last outs) = COMPLETE | Inl _ \<Rightarrow> False"
    by (cases "ingest_all (mk_assembler 60 1 1) (map (\<lambda>ev. (ev, 0)) (butlast demo_events))") auto
  then obtain outs a' where
    "assembler_ingest a (last demo_events) 0 = Ok (outs, a')" "ao_status (last outs) = COMPLETE"
    by (cases "assembler_ingest a (last demo_events) 0") auto
  from completed_sample_is_final [OF this, of "last demo_events" 1] show ?thesis
    by (auto simp: demo_events_def DEFAULT_MEASUREMENTS_def)
qed

lemma session_ingest_last:
  assumes "session_ingest system s x = (Ok r, s')"
  shows "fs_asset_id s' = ts_asset_id x" "fs_last_timestamp s' = Some (ts_timestamp x)"
proof -
  have score: "fs_asset_id (snd (score_row system s1 t e row)) = fs_asset_id s1"
    "fs_last_timestamp (snd (score_row system s1 t e row)) = fs_last_timestamp s1" for s1 t e row
    by (auto simp: score_row_def Let_def split: sum.splits)
  have reject: "fs_asset_id (snd (reject_row system s1 t e row)) = fs_asset_id s1"
    "fs_last_timestamp (snd (reject_row system s1 t e row)) = fs_last_timestamp s1" for s1 t e row
    by (auto simp: reject_row_def split: sum.splits)
  from assms score reject show "fs_asset_id s' = ts_asset_id x" "fs_last_timestamp s' = Some (ts_timestamp x)"
    by (auto simp: session_ingest_def Let_def split: if_splits prod.splits sum.splits dest!: arg_cong [of _ _ snd])
qed

lemma demo_eviction:
  "(case ingest_all (mk_assembler 60 1 1)
       (map (\<lambda>ev. (ev, 0)) (demo_events @ [(hd demo_events)\<lparr>te_asset_id := ''stack-2''\<rparr>] @ demo_events)) of
      Inl _ \<Rightarrow> False
    | Inr (outs, _) \<Rightarrow> outs ! 6 = outs ! 15 \<and> ao_status (outs ! 6) = COMPLETE \<and> length outs = 16)"
  by code_simp

text \<open>
  The two bounded memories disagree about the past: evicting an asset's buffer forgets that a
  sample was completed, so the redelivered readings complete the same sample again, but the inference
  session remembers its last timestamp and refuses the second copy with an error that the worker
  does not catch.
\<close>

theorem evicted_asset_replays_into_an_error:
  assumes "manager_ingest system manager sample = (Ok r, manager')"
  shows "(\<exists>m. manager_ingest system manager' sample =
       (Err (non_monotonic (ts_asset_id sample) (ts_timestamp sample) (ts_timestamp sample)), m)) \<and>
    (\<exists>outs a. ingest_all (mk_assembler 60 1 1)
       (map (\<lambda>ev. (ev, 0)) (demo_events @ [(hd demo_events)\<lparr>te_asset_id := ''stack-2''\<rparr>] @ demo_events)) = Ok (outs, a) \<and>
       ao_status (outs ! 6) = COMPLETE \<and> outs ! 15 = outs ! 6)"
proof
  from assms obtain s m0 s' where "session_ingest system s sample = (Ok r, s')"
    and m: "manager' = dict_set (ts_asset_id sample) s' m0"
    by (auto simp: manager_ingest_def split: sum.splits prod.splits)
  from session_ingest_last [OF this(1)] m show "\<exists>m. manager_ingest system manager' sample =
       (Err (non_monotonic (ts_asset_id sample) (ts_timestamp sample) (ts_timestamp sample)), m)"
    by (simp add: manager_ingest_def session_for_def session_ingest_def)
  from demo_eviction show "\<exists>outs a. ingest_all (mk_assembler 60 1 1)
       (map (\<lambda>ev. (ev, 0)) (demo_events @ [(hd demo_events)\<lparr>te_asset_id := ''stack-2''\<rparr>] @ demo_events)) = Ok (outs, a) \<and>
       ao_status (outs ! 6) = COMPLETE \<and> outs ! 15 = outs ! 6"
    by (auto split: sum.splits)
qed

theorem evicted_asset_replays_into_an_error_witness:
  "\<exists>manager e m. manager_ingest demo_system manager (demo_sample 0) = (Err e, m) \<and> manager \<noteq> []"
proof -
  obtain s0 where s0: "mk_session ''stack-1'' = Ok s0" by (simp add: mk_session_def construct_Cons)
  have "demo_sample (int 0) \<in> set demo_stream" unfolding demo_stream_def set_map by (rule imageI) simp
  then have "complete_for ''stack-1'' (demo_sample 0)" using demo_stream_ok by (auto simp: stream_ok_def)
  moreover have "(''stack-1'' :: string) \<noteq> []" "int (length ([] :: InferenceTelemetrySample list)) + 1 < clock_bound"
    by (simp_all add: clock_bound_def)
  ultimately obtain r s1 where r: "session_ingest demo_system s0 (demo_sample 0) = (Ok r, s1)"
    using session_ingest_Ok [OF demo_system_wf _ mk_session_holds [OF s0]] by metis
  then have m: "manager_ingest demo_system [] (demo_sample 0) = (Ok r, [(''stack-1'', s1)])"
    using s0 by (simp add: manager_ingest_def session_for_def demo_sample_def)
  from evicted_asset_replays_into_an_error [OF m] show ?thesis by blast
qed

end
