(* ===== verification/Streaming_Worker.thy ===== *)
theory Streaming_Worker
  imports Fault_Inference
begin

text \<open>
  The streaming worker (\<^verbatim>\<open>src/backend/simulator/inference_worker/worker.py\<close>, the publish loop of
  \<^verbatim>\<open>kafka_io.py\<close>, the output events of \<^verbatim>\<open>events.py\<close> and \<^verbatim>\<open>identity.py\<close>). The Kafka clients, the
  clocks, the JSON decoder, the ISO parser and the name-based UUID are the fields of an environment
  record: the n-th send of the process is acknowledged or not, the n-th clock read returns a
  value. What the worker does to the outside (acknowledged sends, failed attempts, sleeps,
  commits) is a trace in its state. Metrics and log records are left out.
\<close>

section \<open>Output events\<close>

definition RESULT_EVENT_TYPE :: string where
  "RESULT_EVENT_TYPE = ''fault_inference.v1''"

definition TRANSITION_EVENT_TYPE :: string where
  "TRANSITION_EVENT_TYPE = ''fault_alert_transition.v1''"

definition TRANSITION_TYPE_BY_ALERT_EVENT_TYPE :: "(string, string) dict" where
  "TRANSITION_TYPE_BY_ALERT_EVENT_TYPE =
     [(''new_alert'', ''confirmed''), (''class_change'', ''class_changed''), (''cleared'', ''cleared'')]"

record FaultInferenceResultEvent =
  fr_event_id :: string
  fr_event_version :: string
  fr_occurred_at :: datetime
  fr_asset_id :: string
  fr_source_timestamp :: datetime
  fr_status :: string
  fr_diagnosed_class :: "string option"
  fr_class_scores :: "(string, pyfloat) dict option"
  fr_maximum_score :: "pyfloat option"
  fr_evidence :: "EvidenceItem list"
  fr_alert_state :: "string option"
  fr_model_system_version :: "string option"
  fr_model_hash :: "string option"
  fr_policy_hash :: "string option"
  fr_feature_schema_version :: "string option"
  fr_reason_codes :: "string list"

record FaultAlertTransitionEvent =
  ft_event_id :: string
  ft_event_version :: string
  ft_occurred_at :: datetime
  ft_asset_id :: string
  ft_source_timestamp :: datetime
  ft_transition_type :: string
  ft_from_state :: string
  ft_to_state :: string
  ft_diagnosed_class :: "string option"
  ft_evidence :: "EvidenceItem list"
  ft_model_system_version :: "string option"
  ft_model_hash :: "string option"
  ft_policy_hash :: "string option"
  ft_feature_schema_version :: "string option"
  ft_class_scores :: "(string, pyfloat) dict option"
  ft_maximum_score :: "pyfloat option"

text \<open>The asset of a data-quality event is whatever the rejected payload holds there.\<close>

record TelemetryDataQualityEvent =
  dq_event_id :: string
  dq_event_version :: string
  dq_occurred_at :: datetime
  dq_asset_id :: json
  dq_source_timestamp :: "datetime option"
  dq_reason :: string
  dq_detail :: string

definition deterministic_event_id :: "(string \<Rightarrow> string) \<Rightarrow> string list \<Rightarrow> string" where
  "deterministic_event_id uuid5 parts = uuid5 (str_join ''|'' parts)"

definition build_result_event ::
    "(string \<Rightarrow> string) \<Rightarrow> InferenceResult \<Rightarrow> datetime \<Rightarrow> FaultInferenceResultEvent" where
  "build_result_event uuid5 r now =
     \<lparr>fr_event_id = deterministic_event_id uuid5
        [RESULT_EVENT_TYPE, ir_asset_id r, isoformat (ir_timestamp r),
         case_option [] id (ir_model_hash r), inference_status_value (ir_status r)],
      fr_event_version = INPUT_EVENT_VERSION, fr_occurred_at = now, fr_asset_id = ir_asset_id r,
      fr_source_timestamp = ir_timestamp r, fr_status = inference_status_value (ir_status r),
      fr_diagnosed_class = ir_diagnosed_class r, fr_class_scores = ir_class_probabilities r,
      fr_maximum_score = ir_maximum_probability r, fr_evidence = ir_evidence r,
      fr_alert_state = ir_alert_state r, fr_model_system_version = ir_model_system_version r,
      fr_model_hash = ir_model_hash r, fr_policy_hash = ir_policy_hash r,
      fr_feature_schema_version = ir_feature_schema_version r, fr_reason_codes = ir_reason_codes r\<rparr>"

definition transition_event ::
    "(string \<Rightarrow> string) \<Rightarrow> InferenceResult \<Rightarrow> datetime \<Rightarrow> AlertEvent \<Rightarrow> string \<Rightarrow> FaultAlertTransitionEvent" where
  "transition_event uuid5 r now e transition_type =
     \<lparr>ft_event_id = deterministic_event_id uuid5
        [TRANSITION_EVENT_TYPE, ir_asset_id r, isoformat (ir_timestamp r), transition_type,
         (case ev_class e of None \<Rightarrow> ''None'' | Some c \<Rightarrow> c), case_option [] id (ir_model_hash r)],
      ft_event_version = INPUT_EVENT_VERSION, ft_occurred_at = now, ft_asset_id = ir_asset_id r,
      ft_source_timestamp = ir_timestamp r, ft_transition_type = transition_type,
      ft_from_state = ev_from e, ft_to_state = ev_to e, ft_diagnosed_class = ir_diagnosed_class r,
      ft_evidence = ir_evidence r, ft_model_system_version = ir_model_system_version r,
      ft_model_hash = ir_model_hash r, ft_policy_hash = ir_policy_hash r,
      ft_feature_schema_version = ir_feature_schema_version r,
      ft_class_scores = ir_class_probabilities r, ft_maximum_score = ir_maximum_probability r\<rparr>"

definition build_transition_event ::
    "(string \<Rightarrow> string) \<Rightarrow> InferenceResult \<Rightarrow> datetime \<Rightarrow> FaultAlertTransitionEvent option result" where
  "build_transition_event uuid5 r now =
     (case ir_alert_event r of
        None \<Rightarrow> Ok None
      | Some e \<Rightarrow> res_bind (dict_item TRANSITION_TYPE_BY_ALERT_EVENT_TYPE (ev_type e))
          (\<lambda>transition_type. Ok (Some (transition_event uuid5 r now e transition_type))))"

text \<open>Python truth of a decoded value.\<close>

fun json_truthy :: "json \<Rightarrow> bool" where
  "json_truthy JNull = False"
| "json_truthy (JBool b) = b"
| "json_truthy (JInt i) = (i \<noteq> 0)"
| "json_truthy (JFloat x) = (x \<noteq> 0)"
| "json_truthy (JNonFinite s) = True"
| "json_truthy (JStr s) = (s \<noteq> [])"
| "json_truthy (JList xs) = (xs \<noteq> [])"
| "json_truthy (JObj kvs) = (kvs \<noteq> [])"

text \<open>\<^verbatim>\<open>asset_id or ""\<close> as a part of the joined identity: a part that is no string raises.\<close>

definition identity_part :: "json \<Rightarrow> string result" where
  "identity_part asset =
     (if \<not> json_truthy asset then Ok []
      else case asset of JStr s \<Rightarrow> Ok s
        | _ \<Rightarrow> Err (TypeError ''sequence item 1: expected str instance''))"

definition build_data_quality_event ::
    "(string \<Rightarrow> string) \<Rightarrow> json \<Rightarrow> datetime option \<Rightarrow> string \<Rightarrow> string \<Rightarrow> datetime \<Rightarrow>
     TelemetryDataQualityEvent result" where
  "build_data_quality_event uuid5 asset ts reason detail now =
     res_bind (identity_part asset) (\<lambda>part.
     Ok \<lparr>dq_event_id = deterministic_event_id uuid5
           [''telemetry_data_quality.v1'', part, case_option [] isoformat ts, reason, detail],
         dq_event_version = INPUT_EVENT_VERSION, dq_occurred_at = now, dq_asset_id = asset,
         dq_source_timestamp = ts, dq_reason = reason, dq_detail = detail\<rparr>)"

section \<open>The worker's state and environment\<close>

datatype worker_message =
    ResultMessage FaultInferenceResultEvent
  | TransitionMessage FaultAlertTransitionEvent
  | QualityMessage TelemetryDataQualityEvent

text \<open>One send: topic, key and value.\<close>

type_synonym publication = "string \<times> string \<times> worker_message"

datatype worker_action = Acked publication | Failed publication | Slept pyfloat | Commit

record StreamingWorker =
  sw_manager :: FaultInferenceManager
  sw_assembler :: SampleAssembler
  sw_sends :: nat
  sw_ticks :: nat
  sw_trace :: "worker_action list"

record WorkerEnvironment =
  we_decode :: "string \<Rightarrow> string + json"
  we_fromisoformat :: "string \<Rightarrow> datetime option"
  we_uuid5 :: "string \<Rightarrow> string"
  we_send :: "nat \<Rightarrow> bool"
  we_monotonic :: "nat \<Rightarrow> pyfloat"
  we_now :: "nat \<Rightarrow> datetime"
  we_system :: PromotedFaultSystem
  we_results_topic :: string
  we_alert_transitions_topic :: string
  we_data_quality_topic :: string
  we_publish_max_retries :: nat
  we_backoff_seconds :: pyfloat

definition mk_worker :: "SampleAssembler \<Rightarrow> StreamingWorker" where
  "mk_worker a = \<lparr>sw_manager = [], sw_assembler = a, sw_sends = 0, sw_ticks = 0, sw_trace = []\<rparr>"

definition act :: "worker_action \<Rightarrow> StreamingWorker \<Rightarrow> StreamingWorker" where
  "act x w = w\<lparr>sw_trace := sw_trace w @ [x]\<rparr>"

definition tick :: "StreamingWorker \<Rightarrow> StreamingWorker" where
  "tick w = w\<lparr>sw_ticks := Suc (sw_ticks w)\<rparr>"

section \<open>Publishing\<close>

text \<open>
  The \<^verbatim>\<open>while True\<close> of \<^verbatim>\<open>publish_with_retry\<close>, entered with \<open>attempt\<close> failures behind it: the send
  is acknowledged, or the attempts are used up, or the loop sleeps and tries again.
\<close>

function publish_attempts ::
    "WorkerEnvironment \<Rightarrow> publication \<Rightarrow> nat \<Rightarrow> StreamingWorker \<Rightarrow> bool \<times> StreamingWorker" where
  "publish_attempts env p attempt w =
     (let w1 = w\<lparr>sw_sends := Suc (sw_sends w)\<rparr>
      in if we_send env (sw_sends w) then (True, act (Acked p) w1)
         else
           let attempt' = Suc attempt; w2 = act (Failed p) w1 in
           if attempt' > we_publish_max_retries env then (False, w2)
           else publish_attempts env p attempt'
                  (act (Slept (fmul (we_backoff_seconds env) (of_nat attempt'))) w2))"
  by pat_completeness auto
termination
  by (relation "measure (\<lambda>(env, p, attempt, w). Suc (we_publish_max_retries env) - attempt)") auto

declare publish_attempts.simps [simp del]

definition publish_with_retry ::
    "WorkerEnvironment \<Rightarrow> publication \<Rightarrow> StreamingWorker \<Rightarrow> bool \<times> StreamingWorker" where
  "publish_with_retry env p w = publish_attempts env p 0 w"

section \<open>Message handling\<close>

definition TELEMETRY_VALIDATION_ERRORS :: "string list" where
  "TELEMETRY_VALIDATION_ERRORS =
     [''MissingFieldError'', ''UnsupportedEventVersionError'', ''MalformedTimestampError'',
      ''UnsupportedMeasurementNameError'', ''UnitMismatchError'', ''NonFiniteValueError'',
      ''InvalidAssetIdError'']"

text \<open>What \<^verbatim>\<open>except TelemetryEventValidationError\<close> catches, as its message.\<close>

definition validation_error :: "py_error \<Rightarrow> string option" where
  "validation_error e =
     (case e of AppError name message \<Rightarrow>
        if name \<in> set TELEMETRY_VALIDATION_ERRORS then Some message else None
      | _ \<Rightarrow> None)"

definition publish_data_quality ::
    "WorkerEnvironment \<Rightarrow> json \<Rightarrow> datetime option \<Rightarrow> string \<Rightarrow> string \<Rightarrow> StreamingWorker \<Rightarrow>
     bool result \<times> StreamingWorker" where
  "publish_data_quality env asset ts reason detail w =
     (case build_data_quality_event (we_uuid5 env) asset ts reason detail (we_now env (sw_ticks w)) of
        Inl e \<Rightarrow> (Err e, tick w)
      | Inr ev \<Rightarrow>
          (let key = (case asset of JStr s \<Rightarrow> if s = [] then ''unknown'' else s | _ \<Rightarrow> ''unknown'');
               (ok, w') = publish_with_retry env (we_data_quality_topic env, key, QualityMessage ev) (tick w)
           in (Ok ok, w')))"

text \<open>
  The two publishes of \<^verbatim>\<open>_run_inference\<close>. The result event and the transition event each read
  the clock; the transition is only built after the result went out.
\<close>

definition publish_result ::
    "WorkerEnvironment \<Rightarrow> InferenceResult \<Rightarrow> StreamingWorker \<Rightarrow> bool result \<times> StreamingWorker" where
  "publish_result env r w =
     (let ev = build_result_event (we_uuid5 env) r (we_now env (sw_ticks w));
          (ok, w1) = publish_with_retry env (we_results_topic env, ir_asset_id r, ResultMessage ev) (tick w)
      in if \<not> ok then (Ok False, w1)
         else case build_transition_event (we_uuid5 env) r (we_now env (sw_ticks w1)) of
             Inl e \<Rightarrow> (Err e, w1)
           | Inr None \<Rightarrow> (Ok True, w1)
           | Inr (Some te) \<Rightarrow>
               (let (ok', w2) = publish_with_retry env
                      (we_alert_transitions_topic env, ft_asset_id te, TransitionMessage te) (tick w1)
                in (Ok ok', w2)))"

definition run_inference ::
    "WorkerEnvironment \<Rightarrow> InferenceTelemetrySample \<Rightarrow> StreamingWorker \<Rightarrow> bool result \<times> StreamingWorker" where
  "run_inference env sample w =
     (case manager_ingest (we_system env) (sw_manager w) sample of
        (Inl e, manager') \<Rightarrow> (Err e, w\<lparr>sw_manager := manager'\<rparr>)
      | (Inr r, manager') \<Rightarrow> publish_result env r (w\<lparr>sw_manager := manager'\<rparr>))"

definition handle_assembly_outcome ::
    "WorkerEnvironment \<Rightarrow> AssemblyOutcome \<Rightarrow> StreamingWorker \<Rightarrow> bool result \<times> StreamingWorker" where
  "handle_assembly_outcome env out w =
     (case ao_status out of
        PENDING \<Rightarrow> (Ok True, w)
      | REJECTED \<Rightarrow>
          publish_data_quality env (case ao_asset_id out of None \<Rightarrow> JNull | Some k \<Rightarrow> JStr k)
            (ao_source_timestamp out)
            (case ao_reason out of None \<Rightarrow> ''malformed'' | Some r \<Rightarrow> if r = [] then ''malformed'' else r)
            (ao_detail out) w
      | COMPLETE \<Rightarrow>
          (case ao_sample out of
             None \<Rightarrow> (Err AssertionError, w)
           | Some sample \<Rightarrow> run_inference env sample w))"

text \<open>\<^verbatim>\<open>all(...)\<close> stops at the first outcome that could not be published.\<close>

fun handle_outcomes ::
    "WorkerEnvironment \<Rightarrow> AssemblyOutcome list \<Rightarrow> StreamingWorker \<Rightarrow> bool result \<times> StreamingWorker" where
  "handle_outcomes env [] w = (Ok True, w)"
| "handle_outcomes env (out # outs) w =
     (case handle_assembly_outcome env out w of
        (Inr True, w') \<Rightarrow> handle_outcomes env outs w'
      | r \<Rightarrow> r)"

text \<open>
  The assembler's buffers are mutable objects: on an exception of its \<^verbatim>\<open>ingest\<close> the worker is lost
  with them, and the model keeps the state before the call.
\<close>

definition handle_message ::
    "WorkerEnvironment \<Rightarrow> string \<Rightarrow> StreamingWorker \<Rightarrow> bool result \<times> StreamingWorker" where
  "handle_message env payload w =
     (case we_decode env payload of
        Inl exc \<Rightarrow>
          publish_data_quality env JNull None ''malformed'' (''invalid JSON payload: '' @ exc) w
      | Inr raw \<Rightarrow>
          (case validate_telemetry_event (we_fromisoformat env) raw of
             Inl e \<Rightarrow>
               (case validation_error e of
                  Some message \<Rightarrow> publish_data_quality env (json_get raw ''asset_id'') None ''malformed'' message w
                | None \<Rightarrow> (Err e, w))
           | Inr event \<Rightarrow>
               (case assembler_ingest (sw_assembler w) event (we_monotonic env (sw_ticks w)) of
                  Inl e \<Rightarrow> (Err e, tick w)
                | Inr (outs, a') \<Rightarrow> handle_outcomes env outs ((tick w)\<lparr>sw_assembler := a'\<rparr>))))"

section \<open>Polling\<close>

text \<open>The messages of one poll, in the order of its partitions. The flag tells whether all were handled.\<close>

fun handle_messages ::
    "WorkerEnvironment \<Rightarrow> string list \<Rightarrow> StreamingWorker \<Rightarrow> bool result \<times> StreamingWorker" where
  "handle_messages env [] w = (Ok True, w)"
| "handle_messages env (m # ms) w =
     (case handle_message env m w of
        (Inr True, w') \<Rightarrow> handle_messages env ms (act Commit w')
      | r \<Rightarrow> r)"

text \<open>The sweep publishes every outcome and ignores whether it succeeded.\<close>

fun publish_swept ::
    "WorkerEnvironment \<Rightarrow> AssemblyOutcome list \<Rightarrow> StreamingWorker \<Rightarrow> unit result \<times> StreamingWorker" where
  "publish_swept env [] w = (Ok (), w)"
| "publish_swept env (out # outs) w =
     (case handle_assembly_outcome env out w of
        (Inl e, w') \<Rightarrow> (Err e, w')
      | (Inr _, w') \<Rightarrow> publish_swept env outs w')"

definition worker_sweep :: "WorkerEnvironment \<Rightarrow> StreamingWorker \<Rightarrow> unit result \<times> StreamingWorker" where
  "worker_sweep env w =
     (let (outs, a') = sweep_timeouts (sw_assembler w) (we_monotonic env (sw_ticks w))
      in publish_swept env outs ((tick w)\<lparr>sw_assembler := a'\<rparr>))"

definition poll_once ::
    "WorkerEnvironment \<Rightarrow> string list list \<Rightarrow> StreamingWorker \<Rightarrow> unit result \<times> StreamingWorker" where
  "poll_once env records w =
     (case handle_messages env (concat records) w of
        (Inl e, w') \<Rightarrow> (Err e, w')
      | (Inr False, w') \<Rightarrow> (Ok (), w')
      | (Inr True, w') \<Rightarrow> worker_sweep env w')"

text \<open>\<^verbatim>\<open>run\<close>, as the list of what its polls return until it is told to stop.\<close>

fun worker_run ::
    "WorkerEnvironment \<Rightarrow> string list list list \<Rightarrow> StreamingWorker \<Rightarrow> unit result \<times> StreamingWorker" where
  "worker_run env [] w = (Ok (), w)"
| "worker_run env (records # polls) w =
     (case poll_once env records w of
        (Inl e, w') \<Rightarrow> (Err e, w')
      | (Inr _, w') \<Rightarrow> worker_run env polls w')"

section \<open>The publish loop\<close>

text \<open>How many of the first attempts fail, and what the loop leaves in the trace after \<open>n\<close> failures.\<close>

definition failures :: "WorkerEnvironment \<Rightarrow> nat \<Rightarrow> nat" where
  "failures env sent =
     length (takeWhile (\<lambda>i. \<not> we_send env (sent + i)) [0..<Suc (we_publish_max_retries env)])"

definition publish_trace :: "WorkerEnvironment \<Rightarrow> publication \<Rightarrow> nat \<Rightarrow> worker_action list" where
  "publish_trace env p n =
     concat (map (\<lambda>i. [Failed p, Slept (fmul (we_backoff_seconds env) (of_nat (Suc i)))])
       [0..<min n (we_publish_max_retries env)]) @
     [if n \<le> we_publish_max_retries env then Acked p else Failed p]"

definition published :: "WorkerEnvironment \<Rightarrow> publication \<Rightarrow> StreamingWorker \<Rightarrow> StreamingWorker" where
  "published env p w =
     w\<lparr>sw_sends := sw_sends w + Suc (min (failures env (sw_sends w)) (we_publish_max_retries env)),
       sw_trace := sw_trace w @ publish_trace env p (failures env (sw_sends w))\<rparr>"

lemma takeWhile_upt_shift:
  "length (takeWhile P [i..<n]) = (if i < n \<and> P i then Suc (length (takeWhile P [Suc i..<n])) else 0)"
  by (cases "i < n") (simp_all add: upt_conv_Cons)

lemma publish_attempts_trace:
  assumes "attempt \<le> we_publish_max_retries env" "sw_sends w = sent + attempt"
    and "n = attempt + length (takeWhile (\<lambda>i. \<not> we_send env (sent + i)) [attempt..<Suc (we_publish_max_retries env)])"
  shows "publish_attempts env p attempt w =
    (n \<le> we_publish_max_retries env,
     w\<lparr>sw_sends := sent + Suc (min n (we_publish_max_retries env)),
       sw_trace := sw_trace w @
         concat (map (\<lambda>i. [Failed p, Slept (fmul (we_backoff_seconds env) (of_nat (Suc i)))])
           [attempt..<min n (we_publish_max_retries env)]) @
         [if n \<le> we_publish_max_retries env then Acked p else Failed p]\<rparr>)"
  using assms
proof (induction env p attempt w rule: publish_attempts.induct)
  case (1 env p attempt w)
  let ?max = "we_publish_max_retries env"
  note tw = takeWhile_upt_shift [of "\<lambda>i. \<not> we_send env (sent + i)" attempt "Suc ?max"]
  show ?case
  proof (cases "we_send env (sw_sends w)")
    case True
    with 1 tw show ?thesis by (simp add: publish_attempts.simps [of env p attempt] act_def)
  next
    case False
    show ?thesis
    proof (cases "attempt = ?max")
      case True
      with False 1 tw show ?thesis by (simp add: publish_attempts.simps [of env p ?max w] act_def)
    next
      case less: False
      then have lt: "attempt < ?max" using 1 by simp
      have n: "n = Suc attempt + length (takeWhile (\<lambda>i. \<not> we_send env (sent + i)) [Suc attempt..<Suc ?max])"
        using 1 tw False lt by simp
      then have "Suc attempt \<le> min n ?max" using lt by simp
      then have up: "[attempt..<min n ?max] = attempt # [Suc attempt..<min n ?max]"
        by (simp add: upt_conv_Cons)
      show ?thesis
        using 1(1) [OF refl False refl refl] lt n False 1(3) up
        by (simp add: publish_attempts.simps [of env p attempt] act_def)
    qed
  qed
qed

lemma publish_with_retry_eq:
  "publish_with_retry env p w = (failures env (sw_sends w) \<le> we_publish_max_retries env, published env p w)"
  unfolding publish_with_retry_def
  by (subst publish_attempts_trace [where sent = "sw_sends w" and n = "failures env (sw_sends w)"])
     (simp_all add: failures_def published_def publish_trace_def)

text \<open>
  C38. The publish loop terminates after at most one attempt more than the configured retries, stops
  at the first acknowledged attempt, reports success exactly when there is one, sleeps only between
  attempts, for a time that grows linearly, and changes nothing else in the worker.
\<close>

theorem publish_loop_exact:
  "publish_with_retry env p w =
     (let n = length (takeWhile (\<lambda>i. \<not> we_send env (sw_sends w + i)) [0..<Suc (we_publish_max_retries env)])
      in (n \<noteq> Suc (we_publish_max_retries env),
          w\<lparr>sw_sends := sw_sends w + min (Suc n) (Suc (we_publish_max_retries env)),
            sw_trace := sw_trace w @
              concat (map (\<lambda>i. [Failed p, Slept (fmul (we_backoff_seconds env) (of_nat (Suc i)))])
                [0..<min n (we_publish_max_retries env)]) @
              [if n = Suc (we_publish_max_retries env) then Failed p else Acked p]\<rparr>))"
proof -
  let ?n = "failures env (sw_sends w)" and ?max = "we_publish_max_retries env"
  have "?n \<le> Suc ?max" unfolding failures_def by (metis length_takeWhile_le length_upt minus_nat.diff_0)
  then have "?n \<le> ?max \<longleftrightarrow> ?n \<noteq> Suc ?max" by auto
  then show ?thesis
    unfolding publish_with_retry_eq published_def publish_trace_def Let_def failures_def [symmetric] by simp
qed

section \<open>Commits\<close>

text \<open>Every publication with a failed attempt was acknowledged by a later one.\<close>

fun settled :: "worker_action list \<Rightarrow> bool" where
  "settled [] \<longleftrightarrow> True"
| "settled (Failed p # xs) \<longleftrightarrow> Acked p \<in> set xs \<and> settled xs"
| "settled (_ # xs) \<longleftrightarrow> settled xs"

lemma settled_append: "settled xs \<Longrightarrow> settled ys \<Longrightarrow> settled (xs @ ys)"
  by (induction xs rule: settled.induct) auto

lemma settled_retries: "settled (concat (map (\<lambda>i. [Failed p, Slept (f i)]) is) @ [Acked p])"
  by (induction "is") auto

lemma unsettled_last: "\<not> settled (xs @ [Failed p])"
  by (induction xs rule: settled.induct) auto

text \<open>
  \<open>extends w w' good\<close>: the trace of \<open>w'\<close> continues that of \<open>w\<close> without a commit, and every
  failed publication in the continuation was made up for when \<open>good\<close>, the last one was not otherwise.
\<close>

definition extends :: "StreamingWorker \<Rightarrow> StreamingWorker \<Rightarrow> bool \<Rightarrow> bool" where
  "extends w w' good \<longleftrightarrow>
     (\<exists>xs. sw_trace w' = sw_trace w @ xs \<and> Commit \<notin> set xs \<and>
        (if good then settled xs else \<exists>ys p. xs = ys @ [Failed p]))"

lemma extends_other [simp]:
  "extends (w\<lparr>sw_ticks := n\<rparr>) w' good \<longleftrightarrow> extends w w' good"
  "extends (w\<lparr>sw_manager := m\<rparr>) w' good \<longleftrightarrow> extends w w' good"
  "extends (w\<lparr>sw_assembler := a\<rparr>) w' good \<longleftrightarrow> extends w w' good"
  by (simp_all add: extends_def)

lemma extends_refl: "sw_trace w' = sw_trace w \<Longrightarrow> extends w w' True"
  by (simp add: extends_def)

lemma extends_trans: "extends w w1 True \<Longrightarrow> extends w1 w2 good \<Longrightarrow> extends w w2 good"
  unfolding extends_def by (cases good) (auto intro: settled_append)

lemma extends_publish:
  "publish_with_retry env p w = (ok, w') \<Longrightarrow> extends w w' ok"
  using settled_retries [of p "\<lambda>i. fmul (we_backoff_seconds env) (of_nat (Suc i))"]
  by (cases p) (auto simp: publish_with_retry_eq extends_def published_def publish_trace_def)

lemma extends_quality:
  "publish_data_quality env asset ts reason detail w = (Ok ok, w') \<Longrightarrow> extends w w' ok"
  by (auto simp: publish_data_quality_def Let_def split: sum.splits prod.splits
      dest!: extends_publish simp: tick_def)

lemma extends_result: "publish_result env r w = (Ok ok, w') \<Longrightarrow> extends w w' ok"
  unfolding publish_result_def Let_def
  by (auto split: if_splits sum.splits prod.splits option.splits dest!: extends_publish
      intro: extends_trans simp: tick_def)

lemma extends_outcome: "handle_assembly_outcome env out w = (Ok ok, w') \<Longrightarrow> extends w w' ok"
  by (auto simp: handle_assembly_outcome_def run_inference_def extends_refl
      split: AssemblyStatus.splits option.splits sum.splits prod.splits
      dest!: extends_quality extends_result)

lemma extends_outcomes: "handle_outcomes env outs w = (Ok ok, w') \<Longrightarrow> extends w w' ok"
proof (induction outs arbitrary: w)
  case Nil
  then show ?case by (simp add: extends_refl)
next
  case (Cons out outs)
  then show ?case
    by (auto split: prod.splits sum.splits bool.splits dest: extends_outcome intro: extends_trans)
qed

lemma extends_message: "handle_message env m w = (Ok ok, w') \<Longrightarrow> extends w w' ok"
  by (auto simp: handle_message_def tick_def split: sum.splits prod.splits option.splits
      dest!: extends_quality extends_outcomes)

text \<open>
  C20. Commits are issued exactly for handled messages: in the trace of one batch every commit closes
  a stretch in which each failed publication was made up for by an acknowledged one, there is one
  commit per message when all were handled, and none after the first message that could not be
  published.
\<close>

theorem commits_follow_publishes:
  assumes "handle_messages env ms w = (Ok ok, w')"
  shows "\<exists>segments rest. sw_trace w' = sw_trace w @ concat (map (\<lambda>s. s @ [Commit]) segments) @ rest \<and>
    (\<forall>s \<in> set segments. settled s \<and> Commit \<notin> set s) \<and> Commit \<notin> set rest \<and>
    (if ok then rest = [] \<and> length segments = length ms
     else \<not> settled rest \<and> length segments < length ms)"
  using assms
proof (induction ms arbitrary: w)
  case Nil
  then show ?case by (auto intro!: exI [of _ "[]"])
next
  case (Cons m ms)
  from Cons.prems obtain done1 w1 where m: "handle_message env m w = (Ok done1, w1)"
    by (auto split: prod.splits sum.splits)
  from extends_message [OF m] obtain xs where xs: "sw_trace w1 = sw_trace w @ xs" "Commit \<notin> set xs"
    "if done1 then settled xs else \<exists>ys p. xs = ys @ [Failed p]" by (auto simp: extends_def)
  show ?case
  proof (cases done1)
    case False
    with Cons.prems m have "ok = False" "w' = w1" by simp_all
    with xs False show ?thesis
      by (intro exI [of _ "[]"] exI [of _ xs]) (auto simp: unsettled_last)
  next
    case True
    with Cons.prems m have "handle_messages env ms (act Commit w1) = (Ok ok, w')" by simp
    from Cons.IH [OF this] obtain segments rest where
      "sw_trace w' = (sw_trace w1 @ [Commit]) @ concat (map (\<lambda>s. s @ [Commit]) segments) @ rest"
      "\<forall>s \<in> set segments. settled s \<and> Commit \<notin> set s" "Commit \<notin> set rest"
      "if ok then rest = [] \<and> length segments = length ms else \<not> settled rest \<and> length segments < length ms"
      by (auto simp: act_def)
    with xs True show ?thesis
      by (intro exI [of _ "xs # segments"] exI [of _ rest]) auto
  qed
qed

text \<open>A worker whose payloads are measurement names, and an empty payload that is no JSON.\<close>

definition demo_reading :: "string \<Rightarrow> json" where
  "demo_reading name = JObj
     [(''event_id'', JStr (''e-'' @ name)), (''event_version'', JStr ''v1''), (''asset_id'', JStr ''stack-1''),
      (''timestamp'', JStr ''t''), (''measurement_name'', JStr name), (''value'', JInt 2),
      (''unit'', JStr (case map_of CANONICAL_UNITS name of None \<Rightarrow> [] | Some u \<Rightarrow> u)), (''source'', JStr ''mqtt'')]"

definition demo_environment :: "(nat \<Rightarrow> bool) \<Rightarrow> WorkerEnvironment" where
  "demo_environment send =
     \<lparr>we_decode = \<lambda>s. if s = [] then Inl ''Expecting value'' else Inr (demo_reading s),
      we_fromisoformat = \<lambda>s. Some 0, we_uuid5 = id, we_send = send, we_monotonic = of_nat, we_now = int,
      we_system = demo_system, we_results_topic = ''results'', we_alert_transitions_topic = ''transitions'',
      we_data_quality_topic = ''quality'', we_publish_max_retries = 1, we_backoff_seconds = 1/2\<rparr>"

definition demo_worker :: StreamingWorker where
  "demo_worker = mk_worker (mk_assembler 60 1 1)"

lemma demo_batch:
  "case handle_messages (demo_environment (\<lambda>n. n \<noteq> 0)) ['''', ''''] demo_worker of
     (Inr ok, w') \<Rightarrow> ok | (Inl e, w') \<Rightarrow> False"
  by code_simp

theorem commits_follow_publishes_witness:
  "\<exists>w' segments. handle_messages (demo_environment (\<lambda>n. n \<noteq> 0)) ['''', ''''] demo_worker = (Ok True, w') \<and>
     length segments = 2 \<and> sw_trace w' = concat (map (\<lambda>s. s @ [Commit]) segments)"
proof -
  from demo_batch obtain w' where
    run: "handle_messages (demo_environment (\<lambda>n. n \<noteq> 0)) ['''', ''''] demo_worker = (Ok True, w')"
    by (auto split: prod.splits sum.splits)
  from commits_follow_publishes [OF this] obtain segments where
    "sw_trace w' = sw_trace demo_worker @ concat (map (\<lambda>s. s @ [Commit]) segments)" "length segments = 2" by auto
  with run show ?thesis by (intro exI [of _ w'] exI [of _ segments]) (simp add: demo_worker_def mk_worker_def)
qed

lemma publish_keeps_assembler:
  "publish_data_quality env asset ts reason detail w = (r, w') \<Longrightarrow> sw_assembler w' = sw_assembler w"
  "publish_result env res w = (r, w') \<Longrightarrow> sw_assembler w' = sw_assembler w"
  by (auto simp: publish_data_quality_def publish_result_def publish_with_retry_eq published_def tick_def Let_def
      split: sum.splits if_splits option.splits)

lemma outcomes_keep_assembler: "handle_outcomes env outs w = (r, w') \<Longrightarrow> sw_assembler w' = sw_assembler w"
proof (induction outs arbitrary: w)
  case (Cons out outs)
  from Cons.prems obtain r1 w1 where o1: "handle_assembly_outcome env out w = (r1, w1)"
    by (cases "handle_assembly_outcome env out w") auto
  then have "sw_assembler w1 = sw_assembler w"
    by (auto simp: handle_assembly_outcome_def run_inference_def
        split: AssemblyStatus.splits option.splits sum.splits prod.splits dest!: publish_keeps_assembler)
  with Cons o1 show ?case by (auto split: sum.splits bool.splits)
qed simp

text \<open>
  C30. A completed sample whose result cannot be published is lost: the poll ends normally, the next
  message that is handled is committed over it, and if the same message is ever redelivered to this
  worker it only produces a report of a late reading.
\<close>

theorem unpublished_result_is_lost:
  assumes "we_decode env m = Ok raw" "validate_telemetry_event (we_fromisoformat env) raw = Ok ev"
    and "assembler_ingest (sw_assembler w) ev (we_monotonic env (sw_ticks w)) = Ok (outs, a)"
    and "ao_status (last outs) = COMPLETE"
    and "handle_message env m w = (Ok False, w1)" "handle_message env m2 w1 = (Ok True, w2)"
  shows "poll_once env [m # ms] w = (Ok (), w1) \<and>
    handle_messages env [m2] w1 = (Ok True, act Commit w2) \<and>
    (\<exists>detail a2. handle_message env m w1 =
       publish_data_quality env (JStr (te_asset_id ev)) (Some (te_timestamp ev)) ''late'' detail
         ((tick w1)\<lparr>sw_assembler := a2\<rparr>))"
proof (intro conjI)
  show "poll_once env [m # ms] w = (Ok (), w1)" using assms(5) by (simp add: poll_once_def)
  show "handle_messages env [m2] w1 = (Ok True, act Commit w2)" using assms(6) by simp
  have "sw_assembler w1 = a"
    using assms(1-3,5) by (auto simp: handle_message_def dest!: outcomes_keep_assembler)
  with ingest_after_completion [OF assms(3,4) refl order_refl] obtain d a2 where
    "assembler_ingest (sw_assembler w1) ev (we_monotonic env (sw_ticks w1)) =
       Ok ([rejected (te_asset_id ev) (te_timestamp ev) ''late'' d], a2)" by metis
  with assms(1,2) show "\<exists>detail a2. handle_message env m w1 =
       publish_data_quality env (JStr (te_asset_id ev)) (Some (te_timestamp ev)) ''late'' detail
         ((tick w1)\<lparr>sw_assembler := a2\<rparr>)"
    by (intro exI [of _ d] exI [of _ a2])
       (auto simp: handle_message_def handle_assembly_outcome_def rejected_def split: prod.splits sum.splits bool.splits)
qed

lemma demo_reading_valid:
  assumes "map_of CANONICAL_UNITS n = Some u"
  shows "validate_telemetry_event (\<lambda>s. Some 0) (demo_reading n) =
    Ok \<lparr>te_event_id = ''e-'' @ n, te_event_version = ''v1'', te_asset_id = ''stack-1'', te_timestamp = 0,
        te_measurement_name = n, te_value = 2, te_unit = u, te_source = ''mqtt''\<rparr>"
proof -
  have fl: "fl 2 = 2" by code_simp
  have "n \<in> set SUPPORTED_MEASUREMENTS" using assms by (simp add: supported_unit)
  then show ?thesis
    using assms fl
    by (simp add: validate_telemetry_event_def demo_reading_def REQUIRED_INPUT_FIELDS_def check_field_def present_field_def Let_def
        json_get_def in_frozenset_def INPUT_EVENT_VERSION_def parse_event_timestamp_def event_value_def json_str_def)
qed

lemma demo_event_valid:
  "i < length DEFAULT_MEASUREMENTS \<Longrightarrow>
   validate_telemetry_event (\<lambda>s. Some 0) (demo_reading (DEFAULT_MEASUREMENTS ! i)) = Ok (demo_events ! i)"
proof -
  assume i: "i < length DEFAULT_MEASUREMENTS"
  have "list_all (\<lambda>n. map_of CANONICAL_UNITS n \<noteq> None) DEFAULT_MEASUREMENTS"
    by (simp add: DEFAULT_MEASUREMENTS_def CANONICAL_UNITS_def)
  with i obtain u where "map_of CANONICAL_UNITS (DEFAULT_MEASUREMENTS ! i) = Some u"
    by (auto simp: list_all_length)
  with i demo_reading_valid [OF this] show ?thesis by (simp add: demo_events_def)
qed

lemma demo_loss:
  "(case ingest_all (mk_assembler 60 1 1) (map (\<lambda>ev. (ev, 0)) (butlast demo_events)) of
      Inl _ \<Rightarrow> False
    | Inr (_, a) \<Rightarrow> (case assembler_ingest a (last demo_events) 0 of
          Inl _ \<Rightarrow> False
        | Inr (outs, a') \<Rightarrow> ao_status (last outs) = COMPLETE \<and>
            (case handle_outcomes (demo_environment (\<lambda>n. 2 \<le> n)) outs ((tick (mk_worker a))\<lparr>sw_assembler := a'\<rparr>) of
               (Inl e, w1) \<Rightarrow> False
             | (Inr ok, w1) \<Rightarrow> \<not> ok \<and>
                 (case handle_message (demo_environment (\<lambda>n. 2 \<le> n)) '''' w1 of
                    (Inl e, w2) \<Rightarrow> False | (Inr ok2, w2) \<Rightarrow> ok2))))"
  by code_simp

theorem unpublished_result_is_lost_witness:
  "\<exists>w w1 w2. poll_once (demo_environment (\<lambda>n. 2 \<le> n)) [[''coolant_flow'']] w = (Ok (), w1) \<and>
     handle_messages (demo_environment (\<lambda>n. 2 \<le> n)) [''''] w1 = (Ok True, act Commit w2)"
proof -
  let ?env = "demo_environment (\<lambda>n. 2 \<le> n)"
  obtain os a where a: "ingest_all (mk_assembler 60 1 1) (map (\<lambda>ev. (ev, 0)) (butlast demo_events)) = Ok (os, a)"
    using demo_loss by (auto split: sum.splits)
  obtain outs a' where o1: "assembler_ingest a (last demo_events) 0 = Ok (outs, a')"
    using demo_loss a by (auto split: sum.splits)
  have c: "ao_status (last outs) = COMPLETE" using demo_loss a o1 by simp
  obtain r w1 where r: "handle_outcomes ?env outs ((tick (mk_worker a))\<lparr>sw_assembler := a'\<rparr>) = (r, w1)"
    by (cases "handle_outcomes ?env outs ((tick (mk_worker a))\<lparr>sw_assembler := a'\<rparr>)")
  then have w1: "handle_outcomes ?env outs ((tick (mk_worker a))\<lparr>sw_assembler := a'\<rparr>) = (Ok False, w1)"
    using demo_loss a o1 by (cases r) auto
  obtain r2 w2 where r2: "handle_message ?env '''' w1 = (r2, w2)" by (cases "handle_message ?env '''' w1")
  then have w2: "handle_message ?env '''' w1 = (Ok True, w2)" using demo_loss a o1 w1 by (cases r2) auto
  have env: "we_decode ?env ''coolant_flow'' = Ok (demo_reading ''coolant_flow'')"
    "validate_telemetry_event (we_fromisoformat ?env) (demo_reading ''coolant_flow'') = Ok (last demo_events)"
    "assembler_ingest (sw_assembler (mk_worker a)) (last demo_events) (we_monotonic ?env (sw_ticks (mk_worker a))) = Ok (outs, a')"
    using demo_event_valid [of 6] o1
    by (simp_all add: demo_environment_def mk_worker_def demo_events_def DEFAULT_MEASUREMENTS_def)
  then have "handle_message ?env ''coolant_flow'' (mk_worker a) = (Ok False, w1)"
    using w1 by (simp add: handle_message_def)
  from unpublished_result_is_lost [OF env c this w2, where ms = "[]"] show ?thesis by blast
qed

section \<open>What a consumer of the transitions topic sees\<close>

text \<open>
  The abstract board: one alert state per asset, changed only by the transitions published for it.
  \<open>board_follows\<close> replays a trace on it and demands that each transition starts where the asset is.
\<close>

type_synonym board = "string \<Rightarrow> string"

definition empty_board :: board where
  "empty_board = (\<lambda>_. HEALTHY_STATE)"

fun board_step :: "worker_action \<Rightarrow> board \<Rightarrow> board option" where
  "board_step (Acked (topic, key, TransitionMessage e)) b =
     (if ft_from_state e = b (ft_asset_id e) then Some (b(ft_asset_id e := ft_to_state e)) else None)"
| "board_step _ b = Some b"

fun board_follows :: "worker_action list \<Rightarrow> board \<Rightarrow> board option" where
  "board_follows [] b = Some b"
| "board_follows (x # xs) b = (case board_step x b of None \<Rightarrow> None | Some b' \<Rightarrow> board_follows xs b')"

text \<open>The abstraction of a worker: the alert state of each session.\<close>

definition alert_board :: "FaultInferenceManager \<Rightarrow> board" where
  "alert_board manager k = (case map_of manager k of None \<Rightarrow> HEALTHY_STATE | Some s \<Rightarrow> ms_state (fs_machine_state s))"

definition refines_board :: "WorkerEnvironment \<Rightarrow> StreamingWorker \<Rightarrow> bool" where
  "refines_board env w \<longleftrightarrow>
     board_follows (sw_trace w) empty_board = Some (alert_board (sw_manager w)) \<and>
     (\<forall>k s. map_of (sw_manager w) k = Some s \<longrightarrow>
        machine_wf (pf_alert_policy_config (we_system env)) (fs_machine_state s))"

definition broker_recovers :: "WorkerEnvironment \<Rightarrow> bool" where
  "broker_recovers env \<longleftrightarrow> (\<forall>n. \<exists>i \<le> we_publish_max_retries env. we_send env (n + i))"

lemma board_follows_append:
  "board_follows (xs @ ys) b = (case board_follows xs b of None \<Rightarrow> None | Some b' \<Rightarrow> board_follows ys b')"
  by (induction xs arbitrary: b) (auto split: option.splits)

lemma board_follows_retries:
  "board_follows (concat (map (\<lambda>i. [Failed p, Slept (f i)]) is)) b = Some b"
  by (induction "is") auto

lemma publish_recovers:
  assumes "broker_recovers env"
  shows "publish_with_retry env p w = (True, published env p w) \<and>
    board_follows (sw_trace (published env p w)) b =
      (case board_follows (sw_trace w) b of None \<Rightarrow> None | Some b' \<Rightarrow> board_step (Acked p) b')"
proof -
  obtain i where i: "i \<le> we_publish_max_retries env" "we_send env (sw_sends w + i)"
    using assms by (auto simp: broker_recovers_def)
  let ?l = "[0..<Suc (we_publish_max_retries env)]"
  have "failures env (sw_sends w) \<le> i"
  proof (rule ccontr)
    assume "\<not> failures env (sw_sends w) \<le> i"
    then have lt: "i < length (takeWhile (\<lambda>i. \<not> we_send env (sw_sends w + i)) ?l)" by (simp add: failures_def)
    from nth_mem [OF lt] have "\<not> we_send env (sw_sends w + takeWhile (\<lambda>i. \<not> we_send env (sw_sends w + i)) ?l ! i)"
      by (metis (mono_tags, lifting) set_takeWhileD)
    moreover have "takeWhile (\<lambda>i. \<not> we_send env (sw_sends w + i)) ?l ! i = i"
      using lt i(1) by (simp add: takeWhile_nth del: upt_Suc)
    ultimately show False using i(2) by simp
  qed
  with i(1) have n: "failures env (sw_sends w) \<le> we_publish_max_retries env" by simp
  then show ?thesis
    by (auto simp: publish_with_retry_eq published_def publish_trace_def board_follows_append board_follows_retries
        split: option.splits)
qed

text \<open>One result moves the machine along its alert event, or not at all.\<close>

definition moves :: "StateMachineConfig \<Rightarrow> AlertMachineState \<Rightarrow> InferenceResult \<Rightarrow> AlertMachineState \<Rightarrow> bool" where
  "moves config m r m' \<longleftrightarrow> machine_wf config m' \<and>
     (case ir_alert_event r of
        None \<Rightarrow> ms_state m' = ms_state m
      | Some e \<Rightarrow> event_ok e \<and> ev_from e = ms_state m \<and> ev_to e = ms_state m')"

lemma score_row_moves:
  assumes "score_row system s ts t row = (Ok r, s')"
    and wf: "machine_wf (pf_alert_policy_config system) (fs_machine_state s)"
  shows "moves (pf_alert_policy_config system) (fs_machine_state s) r (fs_machine_state s') \<and> ir_asset_id r = fs_asset_id s"
proof -
  from assms(1) obtain proba m rs ev where
    step: "step_state_machine (pf_alert_policy_config system) (pf_class_order system) (fs_machine_state s) (t, proba, True) = Ok (m, rs, ev)"
    and s': "fs_machine_state s' = m" and r: "ir_alert_event r = ev" "ir_asset_id r = fs_asset_id s"
    by (auto simp: score_row_def Let_def res_bind_Ok_iff blank_result_def check_result_def construct_Ok_iff
        split: sum.splits)
  from step_event_path [OF wf step] machine_wf_step [OF wf step] show ?thesis
    by (auto simp: moves_def s' r split: option.splits)
qed

lemma reject_row_moves:
  assumes "reject_row system s ts t row = (Ok r, s')"
    and wf: "machine_wf (pf_alert_policy_config system) (fs_machine_state s)"
  shows "moves (pf_alert_policy_config system) (fs_machine_state s) r (fs_machine_state s') \<and> ir_asset_id r = fs_asset_id s"
proof -
  let ?row = "(t, replicate (length (pf_class_order system)) 0, False)"
  from assms(1) obtain m rs ev where
    step: "step_state_machine (pf_alert_policy_config system) (pf_class_order system) (fs_machine_state s) ?row = Ok (m, rs, ev)"
    and s': "fs_machine_state s' = m" and r: "ir_alert_event r = None" "ir_asset_id r = fs_asset_id s"
    by (auto simp: reject_row_def blank_result_def check_result_def construct_Ok_iff split: sum.splits)
  from step have "ev = None" by (cases rule: step_cases) (auto simp: usable_row_def)
  with step_event_path [OF wf step] machine_wf_step [OF wf step] show ?thesis
    by (simp add: moves_def s' r)
qed

lemma session_ingest_moves:
  assumes run: "session_ingest system s x = (Ok r, s')"
    and wf: "machine_wf (pf_alert_policy_config system) (fs_machine_state s)"
  shows "moves (pf_alert_policy_config system) (fs_machine_state s) r (fs_machine_state s') \<and> ir_asset_id r = ts_asset_id x"
proof -
  have warm: "check_result ((blank_result WARMING_UP k ts)\<lparr>ir_samples_available := a, ir_samples_required := b\<rparr>) = Ok r \<Longrightarrow>
      ir_alert_event r = None \<and> ir_asset_id r = k" for k ts a b
    by (auto simp: check_result_def construct_Ok_iff blank_result_def)
  from run show ?thesis
    unfolding session_ingest_def Let_def
    using warm wf
    by (auto simp: moves_def split: if_splits sum.splits prod.splits option.splits
        dest!: score_row_moves reject_row_moves)
qed

lemma manager_ingest_moves:
  assumes "manager_ingest system manager x = (Ok r, manager')"
    and wf: "\<forall>k s. map_of manager k = Some s \<longrightarrow> machine_wf (pf_alert_policy_config system) (fs_machine_state s)"
  shows "(\<forall>k s. map_of manager' k = Some s \<longrightarrow> machine_wf (pf_alert_policy_config system) (fs_machine_state s)) \<and>
    (case ir_alert_event r of
       None \<Rightarrow> alert_board manager' = alert_board manager
     | Some e \<Rightarrow> event_ok e \<and> ev_from e = alert_board manager (ir_asset_id r) \<and>
         alert_board manager' = (alert_board manager)(ir_asset_id r := ev_to e))"
proof -
  let ?k = "ts_asset_id x" and ?config = "pf_alert_policy_config system"
  from assms(1) obtain s m1 s' where sf: "session_for manager ?k = Ok (s, m1)"
    and run: "session_ingest system s x = (Ok r, s')" and m': "manager' = dict_set ?k s' m1"
    by (auto simp: manager_ingest_def split: sum.splits prod.splits)
  have init: "ms_state initial_machine = HEALTHY_STATE" by (simp add: initial_machine_def)
  have s: "machine_wf ?config (fs_machine_state s)" "ms_state (fs_machine_state s) = alert_board manager ?k"
    and m1: "map_of m1 = (map_of manager)(?k \<mapsto> s)"
    using sf wf init by (auto simp: session_for_def res_bind_Ok_iff mk_session_def construct_Ok_iff machine_wf_initial
        alert_board_def split: option.splits)
  from session_ingest_moves [OF run s(1)] have
    mv: "moves ?config (fs_machine_state s) r (fs_machine_state s')" and k: "ir_asset_id r = ?k" by simp_all
  have board: "alert_board manager' = (alert_board manager)(?k := ms_state (fs_machine_state s'))"
    by (auto simp: alert_board_def m' m1)
  have "\<forall>k s. map_of manager' k = Some s \<longrightarrow> machine_wf ?config (fs_machine_state s)"
    using wf mv by (auto simp: m' m1 moves_def)
  with mv board s(2) k show ?thesis
    by (auto simp: moves_def split: option.splits)
qed

lemma quality_keeps_board:
  assumes "broker_recovers env" "publish_data_quality env asset ts reason detail w = (Ok ok, w')"
  shows "ok \<and> sw_manager w' = sw_manager w \<and> board_follows (sw_trace w') b = board_follows (sw_trace w) b"
proof -
  from assms(2) obtain p where "publish_with_retry env p (tick w) = (ok, w')" "\<exists>ev. snd (snd p) = QualityMessage ev"
    by (auto simp: publish_data_quality_def Let_def split: sum.splits prod.splits)
  with publish_recovers [OF assms(1), of p "tick w" b] show ?thesis
    by (cases p) (auto simp: published_def tick_def split: option.splits)
qed

lemma result_moves_board:
  assumes rec: "broker_recovers env" and run: "publish_result env r w = (Ok ok, w')"
  shows "ok \<and> sw_manager w' = sw_manager w \<and>
    board_follows (sw_trace w') b = (case board_follows (sw_trace w) b of None \<Rightarrow> None | Some b' \<Rightarrow>
       (case ir_alert_event r of None \<Rightarrow> Some b'
        | Some e \<Rightarrow> if ev_from e = b' (ir_asset_id r) then Some (b'(ir_asset_id r := ev_to e)) else None))"
proof -
  let ?ev = "build_result_event (we_uuid5 env) r (we_now env (sw_ticks w))"
  let ?p = "(we_results_topic env, ir_asset_id r, ResultMessage ?ev)"
  define w1 where "w1 = published env ?p (tick w)"
  have p1: "publish_with_retry env ?p (tick w) = (True, w1)"
    using publish_recovers [OF rec, of ?p "tick w"] by (simp add: w1_def)
  have w1: "sw_manager w1 = sw_manager w" "board_follows (sw_trace w1) b = board_follows (sw_trace w) b"
    using publish_recovers [OF rec, of ?p "tick w" b]
    by (auto simp: w1_def published_def tick_def split: option.splits)
  have run1: "publish_result env r w =
      (case build_transition_event (we_uuid5 env) r (we_now env (sw_ticks w1)) of
         Inl e \<Rightarrow> (Err e, w1)
       | Inr None \<Rightarrow> (Ok True, w1)
       | Inr (Some te) \<Rightarrow> (case publish_with_retry env
            (we_alert_transitions_topic env, ft_asset_id te, TransitionMessage te) (tick w1) of (ok', w2) \<Rightarrow> (Ok ok', w2)))"
    unfolding publish_result_def Let_def p1 prod.case by simp
  show ?thesis
  proof (cases "ir_alert_event r")
    case None
    with run run1 w1 show ?thesis by (auto simp: build_transition_event_def split: option.splits)
  next
    case (Some e)
  have "build_transition_event (we_uuid5 env) r (we_now env (sw_ticks w1)) \<noteq> Ok None"
    using Some by (auto simp: build_transition_event_def res_bind_Ok_iff)
  with run run1 obtain te where te: "build_transition_event (we_uuid5 env) r (we_now env (sw_ticks w1)) = Ok (Some te)"
    and p: "publish_with_retry env (we_alert_transitions_topic env, ft_asset_id te, TransitionMessage te) (tick w1) = (ok, w')"
    by (auto split: sum.splits option.splits prod.splits)
  from te Some have "ft_asset_id te = ir_asset_id r" "ft_from_state te = ev_from e" "ft_to_state te = ev_to e"
    by (auto simp: build_transition_event_def transition_event_def res_bind_Ok_iff)
    with publish_recovers [OF rec, of "(we_alert_transitions_topic env, ft_asset_id te, TransitionMessage te)" "tick w1" b] p w1 Some
    show ?thesis by (auto simp: published_def tick_def split: option.splits)
  qed
qed

lemma refines_other [simp]:
  "refines_board env (w\<lparr>sw_ticks := n\<rparr>) \<longleftrightarrow> refines_board env w"
  "refines_board env (w\<lparr>sw_assembler := a\<rparr>) \<longleftrightarrow> refines_board env w"
  "refines_board env (tick w) \<longleftrightarrow> refines_board env w"
  "refines_board env (act Commit w) \<longleftrightarrow> refines_board env w"
  by (auto simp: refines_board_def tick_def act_def board_follows_append split: option.splits)

lemma outcome_refines:
  assumes rec: "broker_recovers env" and inv: "refines_board env w"
    and run: "handle_assembly_outcome env out w = (Ok ok, w')"
  shows "ok \<and> refines_board env w'"
proof (cases "ao_status out")
  case PENDING
  with run inv show ?thesis by (simp add: handle_assembly_outcome_def)
next
  case REJECTED
  with run obtain asset ts reason detail where
    q: "publish_data_quality env asset ts reason detail w = (Ok ok, w')"
    by (auto simp: handle_assembly_outcome_def)
  from quality_keeps_board [OF rec q, of empty_board] inv show ?thesis by (simp add: refines_board_def)
next
  case COMPLETE
  with run obtain x r m' where m: "manager_ingest (we_system env) (sw_manager w) x = (Ok r, m')"
    and p: "publish_result env r (w\<lparr>sw_manager := m'\<rparr>) = (Ok ok, w')"
    by (auto simp: handle_assembly_outcome_def run_inference_def split: option.splits prod.splits sum.splits)
  from inv have wf: "\<forall>k s. map_of (sw_manager w) k = Some s \<longrightarrow>
      machine_wf (pf_alert_policy_config (we_system env)) (fs_machine_state s)"
    and b: "board_follows (sw_trace w) empty_board = Some (alert_board (sw_manager w))"
    by (simp_all add: refines_board_def)
  from manager_ingest_moves [OF m wf] result_moves_board [OF rec p, of empty_board] b show ?thesis
    by (auto simp: refines_board_def split: option.splits)
qed

lemma outcomes_refine:
  assumes "broker_recovers env"
  shows "refines_board env w \<Longrightarrow> handle_outcomes env outs w = (Ok ok, w') \<Longrightarrow> ok \<and> refines_board env w'"
proof (induction outs arbitrary: w)
  case (Cons out outs)
  then obtain ok1 w1 where o1: "handle_assembly_outcome env out w = (Ok ok1, w1)"
    by (auto split: prod.splits sum.splits)
  from outcome_refines [OF assms Cons.prems(1) o1] Cons.IH [of w1] Cons.prems(2) o1 show ?case by auto
qed simp

lemma message_refines:
  assumes rec: "broker_recovers env" and inv: "refines_board env w"
    and run: "handle_message env m w = (Ok ok, w')"
  shows "ok \<and> refines_board env w'"
proof -
  have q: "ok \<and> refines_board env w'" if "publish_data_quality env asset ts reason detail w = (Ok ok, w')"
    for asset ts reason detail
    using quality_keeps_board [OF rec that, of empty_board] inv by (simp add: refines_board_def)
  have o: "ok \<and> refines_board env w'" if "handle_outcomes env outs ((tick w)\<lparr>sw_assembler := a\<rparr>) = (Ok ok, w')"
    for outs a
    using outcomes_refine [OF rec _ that] inv by simp
  from run show ?thesis
    unfolding handle_message_def
    by (auto split: sum.splits option.splits prod.splits dest: q o)
qed

lemma messages_refine:
  assumes "broker_recovers env"
  shows "refines_board env w \<Longrightarrow> handle_messages env ms w = (Ok ok, w') \<Longrightarrow> ok \<and> refines_board env w'"
proof (induction ms arbitrary: w)
  case (Cons m ms)
  then obtain ok1 w1 where m: "handle_message env m w = (Ok ok1, w1)"
    by (auto split: prod.splits sum.splits)
  from message_refines [OF assms Cons.prems(1) m] Cons.IH [of "act Commit w1"] Cons.prems(2) m show ?case by auto
qed simp

lemma swept_refines:
  assumes "broker_recovers env"
  shows "refines_board env w \<Longrightarrow> publish_swept env outs w = (Ok u, w') \<Longrightarrow> refines_board env w'"
proof (induction outs arbitrary: w)
  case (Cons out outs)
  then obtain ok1 w1 where o1: "handle_assembly_outcome env out w = (Ok ok1, w1)"
    by (auto split: prod.splits sum.splits)
  from outcome_refines [OF assms Cons.prems(1) o1] Cons.IH [of w1] Cons.prems(2) o1 show ?case by auto
qed simp

lemma poll_refines:
  assumes rec: "broker_recovers env" and inv: "refines_board env w" and run: "poll_once env records w = (Ok u, w')"
  shows "refines_board env w'"
proof -
  from run obtain ok1 w1 where m: "handle_messages env (concat records) w = (Ok ok1, w1)"
    by (auto simp: poll_once_def split: prod.splits sum.splits bool.splits)
  from messages_refine [OF rec inv m] have "ok1" "refines_board env w1" by simp_all
  moreover from this run m obtain outs a' where
    "publish_swept env outs ((tick w1)\<lparr>sw_assembler := a'\<rparr>) = (Ok u, w')"
    by (auto simp: poll_once_def worker_sweep_def Let_def split: prod.splits)
  ultimately show ?thesis
    using swept_refines [OF rec, of "(tick w1)\<lparr>sw_assembler := a'\<rparr>"] by simp
qed

text \<open>
  C9. The transitions topic refines the sessions: with a broker that always recovers within the
  configured retries, and as long as nothing raises, a consumer that replays the acknowledged
  transitions from the healthy start finds each of them starting in the state it knows for the
  asset, and ends with exactly the alert states of the worker's sessions.
\<close>

theorem transitions_topic_refines_sessions:
  assumes "broker_recovers env" "worker_run env polls (mk_worker a) = (Ok u, w)"
  shows "board_follows (sw_trace w) empty_board = Some (alert_board (sw_manager w))"
proof -
  have "refines_board env w" if "refines_board env w0" "worker_run env polls w0 = (Ok u, w)" for w0
    using that
  proof (induction polls arbitrary: w0)
    case (Cons records polls)
    then show ?case by (auto split: prod.splits sum.splits dest: poll_refines [OF assms(1)])
  qed simp
  moreover have "refines_board env (mk_worker a)"
    by (auto simp: refines_board_def mk_worker_def alert_board_def empty_board_def)
  ultimately show ?thesis using assms(2) by (simp add: refines_board_def)
qed

lemma demo_polls:
  "case worker_run (demo_environment (\<lambda>n. True)) [[['''']], [[''voltage'']]] demo_worker of
     (Inr u, w') \<Rightarrow> True | (Inl e, w') \<Rightarrow> False"
  by code_simp

theorem transitions_topic_refines_sessions_witness:
  "\<exists>w. worker_run (demo_environment (\<lambda>n. True)) [[['''']], [[''voltage'']]] demo_worker = (Ok (), w) \<and>
     board_follows (sw_trace w) empty_board = Some (alert_board (sw_manager w))"
proof -
  obtain r w where r: "worker_run (demo_environment (\<lambda>n. True)) [[['''']], [[''voltage'']]] demo_worker = (r, w)"
    by (cases "worker_run (demo_environment (\<lambda>n. True)) [[['''']], [[''voltage'']]] demo_worker")
  then have run: "worker_run (demo_environment (\<lambda>n. True)) [[['''']], [[''voltage'']]]
      (mk_worker (mk_assembler 60 1 1)) = (Ok (), w)"
    using demo_polls by (cases r) (auto simp: demo_worker_def)
  have "broker_recovers (demo_environment (\<lambda>n. True))" by (auto simp: broker_recovers_def demo_environment_def)
  from transitions_topic_refines_sessions [OF this run] run show ?thesis by (auto simp: demo_worker_def)
qed

section \<open>Every complete sample is answered\<close>

lemma result_published:
  assumes rec: "broker_recovers env" and ev: "\<And>e. ir_alert_event r = Some e \<Longrightarrow> event_ok e"
  obtains w' xs e where "publish_result env r w = (Ok True, w')" "sw_manager w' = sw_manager w"
    "sw_trace w' = sw_trace w @ xs"
    "Acked (we_results_topic env, ir_asset_id r, ResultMessage (build_result_event (we_uuid5 env) r e)) \<in> set xs"
proof -
  let ?e = "we_now env (sw_ticks w)"
  let ?p = "(we_results_topic env, ir_asset_id r, ResultMessage (build_result_event (we_uuid5 env) r ?e))"
  define w1 where "w1 = published env ?p (tick w)"
  have p1: "publish_with_retry env ?p (tick w) = (True, w1)"
    using publish_recovers [OF rec, of ?p "tick w"] by (simp add: w1_def)
  then have n: "failures env (sw_sends w) \<le> we_publish_max_retries env"
    by (auto simp: publish_with_retry_eq tick_def)
  then obtain xs where xs: "sw_trace w1 = sw_trace w @ xs" "Acked ?p \<in> set xs"
    by (auto simp: w1_def published_def tick_def publish_trace_def)
  have m1: "sw_manager w1 = sw_manager w" by (simp add: w1_def published_def tick_def)
  show thesis
  proof (cases "ir_alert_event r")
    case None
    then have "publish_result env r w = (Ok True, w1)"
      unfolding publish_result_def Let_def p1 prod.case by (simp add: build_transition_event_def)
    with xs m1 show thesis by (intro that) auto
  next
    case (Some e)
    from ev [OF Some] obtain t where "map_of TRANSITION_TYPE_BY_ALERT_EVENT_TYPE (ev_type e) = Some t"
      by (auto simp: event_ok_def TRANSITION_TYPE_BY_ALERT_EVENT_TYPE_def)
    then obtain te where te: "build_transition_event (we_uuid5 env) r (we_now env (sw_ticks w1)) = Ok (Some te)"
      using Some by (auto simp: build_transition_event_def dict_item_def)
    let ?q = "(we_alert_transitions_topic env, ft_asset_id te, TransitionMessage te)"
    have "publish_result env r w = (Ok True, published env ?q (tick w1))"
      using publish_recovers [OF rec, of ?q "tick w1"]
      unfolding publish_result_def Let_def p1 prod.case te by simp
    moreover have "sw_trace (published env ?q (tick w1)) =
        sw_trace w @ (xs @ publish_trace env ?q (failures env (sw_sends w1)))"
      "sw_manager (published env ?q (tick w1)) = sw_manager w"
      using xs m1 by (simp_all add: published_def tick_def)
    moreover have "Acked ?p \<in> set (xs @ publish_trace env ?q (failures env (sw_sends w1)))" using xs by simp
    ultimately show thesis by (intro that)
  qed
qed

lemma ingest_outcomes_length: "assembler_ingest a ev now = Ok (outs, a') \<Longrightarrow> 1 \<le> length outs"
  by (auto simp: assembler_ingest_def res_bind_Ok_iff Let_def split: if_splits option.splits)

lemma ingest_all_length: "ingest_all a arrivals = Ok (outs, a') \<Longrightarrow> length arrivals \<le> length outs"
proof (induction arrivals arbitrary: a outs)
  case (Cons e rest)
  obtain ev now where e: "e = (ev, now)" by (cases e)
  from Cons.prems obtain o1 a1 o2 where "assembler_ingest a ev now = Ok (o1, a1)"
    "ingest_all a1 rest = Ok (o2, a')" "outs = o1 @ o2" by (auto simp: e res_bind_Ok_iff)
  with Cons.IH [of a1 o2] ingest_outcomes_length [of a ev now o1 a1] show ?case by simp
qed simp

lemma ingest_all_single:
  assumes "ingest_all a ((ev, now) # rest) = Ok (o1 # outs, a')" "length outs = length rest"
  obtains a1 where "assembler_ingest a ev now = Ok ([o1], a1)" "ingest_all a1 rest = Ok (outs, a')"
proof -
  from assms(1) obtain p a1 o2 where p: "assembler_ingest a ev now = Ok (p, a1)"
    "ingest_all a1 rest = Ok (o2, a')" "o1 # outs = p @ o2" by (auto simp: res_bind_Ok_iff)
  from p(3) have "Suc (length outs) = length p + length o2" by (metis length_Cons length_append)
  with ingest_outcomes_length [OF p(1)] ingest_all_length [OF p(2)] assms(2) have "length p = 1" by linarith
  then obtain x where "p = [x]" by (auto simp: length_Suc_conv)
  with p show thesis by (intro that) auto
qed

text \<open>The worker knows the session of an asset that has ingested the samples \<open>xs\<close> so far.\<close>

definition knows :: "WorkerEnvironment \<Rightarrow> StreamingWorker \<Rightarrow> string \<Rightarrow> InferenceTelemetrySample list \<Rightarrow> bool" where
  "knows env w k xs \<longleftrightarrow>
     (case map_of (sw_manager w) k of
        None \<Rightarrow> xs = []
      | Some s \<Rightarrow> session_holds (pf_alert_policy_config (we_system env)) k xs s)"

text \<open>A payload that decodes to a valid reading.\<close>

definition carries :: "WorkerEnvironment \<Rightarrow> string \<Rightarrow> TelemetryObservationEvent \<Rightarrow> bool" where
  "carries env m ev \<longleftrightarrow>
     (\<exists>raw. we_decode env m = Ok raw \<and> validate_telemetry_event (we_fromisoformat env) raw = Ok ev)"

lemma session_ingest_timestamp:
  assumes "session_ingest system s x = (Ok r, s')"
  shows "ir_timestamp r = ts_timestamp x"
  using assms unfolding session_ingest_def Let_def
  by (auto simp: score_row_def reject_row_def Let_def res_bind_Ok_iff check_result_def construct_Ok_iff blank_result_def
      split: if_splits sum.splits prod.splits option.splits)

lemma manager_ingest_Ok:
  assumes wf: "system_wf (we_system env)" "predicts_classes (we_system env)" and "k \<noteq> []" "knows env w k xs"
    and x: "complete_for k x" "xs \<noteq> [] \<Longrightarrow> ts_timestamp (last xs) < ts_timestamp x"
    and "int (length xs) + 1 < clock_bound"
  obtains r m' where "manager_ingest (we_system env) (sw_manager w) x = (Ok r, m')"
    "ir_asset_id r = k" "ir_timestamp r = ts_timestamp x" "ir_status r = expected_status (xs @ [x])"
    "\<And>e. ir_alert_event r = Some e \<Longrightarrow> event_ok e"
    "\<And>w'. sw_manager w' = m' \<Longrightarrow> knows env w' k (xs @ [x])"
proof -
  let ?c = "pf_alert_policy_config (we_system env)"
  obtain s m1 where sf: "session_for (sw_manager w) k = Ok (s, m1)" and s: "session_holds ?c k xs s"
    using assms(3,4) mk_session_holds
    by (auto simp: knows_def session_for_def mk_session_def construct_Cons split: option.splits)
  from session_ingest_Ok [OF wf assms(3) s x assms(7)] obtain r s' where
    run: "session_ingest (we_system env) s x = (Ok r, s')" and s': "session_holds ?c k (xs @ [x]) s'"
    and st: "ir_status r = expected_status (xs @ [x])" .
  have mw: "machine_wf ?c (fs_machine_state s)" using s by (simp add: session_holds_def)
  have k: "ts_asset_id x = k" using x(1) by (simp add: complete_for_def)
  from session_ingest_moves [OF run mw] k have mv: "ir_asset_id r = k" "\<And>e. ir_alert_event r = Some e \<Longrightarrow> event_ok e"
    by (auto simp: moves_def split: option.splits)
  have t: "ir_timestamp r = ts_timestamp x" by (rule session_ingest_timestamp [OF run])
  have "manager_ingest (we_system env) (sw_manager w) x = (Ok r, dict_set k s' m1)"
    using sf run by (simp add: manager_ingest_def k)
  moreover have "knows env w' k (xs @ [x])" if "sw_manager w' = dict_set k s' m1" for w'
    using s' by (simp add: knows_def that)
  ultimately show thesis using mv t st by (intro that)
qed

lemma handle_batch:
  assumes rec: "broker_recovers env" and wf: "system_wf (we_system env)" "predicts_classes (we_system env)"
    and x: "k \<noteq> []" "complete_for k x" "xs \<noteq> [] \<Longrightarrow> ts_timestamp (last xs) < ts_timestamp x"
    "int (length xs) + 1 < clock_bound"
  shows "knows env w k xs \<Longrightarrow> list_all2 (carries env) ms evs \<Longrightarrow> evs \<noteq> [] \<Longrightarrow>
    ingest_all (sw_assembler w) (zip evs (map (we_monotonic env) [sw_ticks w..<sw_ticks w + length evs])) =
      Ok (replicate (length evs - 1) (pending_outcome k t) @ [complete_outcome k t x], a') \<Longrightarrow>
    \<exists>w' r e ys. handle_messages env ms w = (Ok True, w') \<and> knows env w' k (xs @ [x]) \<and>
      sw_trace w' = sw_trace w @ ys \<and>
      Acked (we_results_topic env, k, ResultMessage (build_result_event (we_uuid5 env) r e)) \<in> set ys \<and>
      ir_asset_id r = k \<and> ir_timestamp r = ts_timestamp x \<and> ir_status r = expected_status (xs @ [x])"
proof (induction evs arbitrary: ms w)
  case (Cons ev evs)
  from Cons.prems(2) obtain m ms' where ms: "ms = m # ms'" and m: "carries env m ev"
    and rest: "list_all2 (carries env) ms' evs" by (auto simp: list_all2_Cons2)
  let ?now = "we_monotonic env (sw_ticks w)"
  have ups: "[sw_ticks w..<sw_ticks w + length (ev # evs)] = sw_ticks w # [Suc (sw_ticks w)..<Suc (sw_ticks w) + length evs]"
    unfolding length_Cons add_Suc_right by (subst upt_conv_Cons) simp_all
  have handle: "handle_message env m w = handle_outcomes env outs ((tick w)\<lparr>sw_assembler := a1\<rparr>)"
    if "assembler_ingest (sw_assembler w) ev ?now = Ok (outs, a1)" for outs a1
    using m that by (auto simp: carries_def handle_message_def)
  show ?case
  proof (cases evs)
    case Nil
    then have "assembler_ingest (sw_assembler w) ev ?now = Ok ([complete_outcome k t x], a')"
      using Cons.prems(4) by (auto simp: res_bind_Ok_iff)
    from handle [OF this] have h: "handle_message env m w =
        (case run_inference env x ((tick w)\<lparr>sw_assembler := a'\<rparr>) of
           (Inr True, w') \<Rightarrow> (Ok True, w') | r \<Rightarrow> r)"
      by (auto simp: handle_assembly_outcome_def complete_outcome_def split: prod.splits sum.splits bool.splits)
    have kn: "knows env ((tick w)\<lparr>sw_assembler := a'\<rparr>) k xs"
      using Cons.prems(1) by (simp add: knows_def tick_def)
    obtain r m' where r: "manager_ingest (we_system env) (sw_manager ((tick w)\<lparr>sw_assembler := a'\<rparr>)) x = (Ok r, m')"
      "ir_asset_id r = k" "ir_timestamp r = ts_timestamp x" "ir_status r = expected_status (xs @ [x])"
      and ev_ok: "\<And>e. ir_alert_event r = Some e \<Longrightarrow> event_ok e"
      and kn': "\<And>w'. sw_manager w' = m' \<Longrightarrow> knows env w' k (xs @ [x])"
      using manager_ingest_Ok [OF wf x(1) kn x(2-4)] by metis
    obtain w' ys e where w': "publish_result env r ((tick w)\<lparr>sw_assembler := a', sw_manager := m'\<rparr>) = (Ok True, w')"
      "sw_manager w' = m'" "sw_trace w' = sw_trace w @ ys"
      "Acked (we_results_topic env, ir_asset_id r, ResultMessage (build_result_event (we_uuid5 env) r e)) \<in> set ys"
      using result_published [where r = r and w = "(tick w)\<lparr>sw_assembler := a', sw_manager := m'\<rparr>", OF rec ev_ok]
      by (auto simp: tick_def)
    have "handle_messages env ms w = (Ok True, act Commit w')"
      using h r(1) w'(1) rest Nil by (simp add: ms run_inference_def)
    moreover have "sw_trace (act Commit w') = sw_trace w @ (ys @ [Commit])" using w'(3) by (simp add: act_def)
    moreover have "knows env (act Commit w') k (xs @ [x])" using kn' w'(2) by (simp add: act_def)
    ultimately show ?thesis using w'(4) r by (intro exI [of _ "act Commit w'"] exI [of _ r] exI [of _ e] exI [of _ "ys @ [Commit]"]) auto
  next
    case (Cons ev2 evs2)
    then have outs: "replicate (length (ev # evs) - 1) (pending_outcome k t) @ [complete_outcome k t x] =
        pending_outcome k t # (replicate (length evs - 1) (pending_outcome k t) @ [complete_outcome k t x])" by simp
    have len: "length (replicate (length evs - 1) (pending_outcome k t) @ [complete_outcome k t x]) =
        length (zip evs (map (we_monotonic env) [Suc (sw_ticks w)..<Suc (sw_ticks w) + length evs]))"
      unfolding Cons by (simp del: upt_Suc)
    from Cons.prems(4) [unfolded outs ups list.map zip_Cons_Cons] len obtain a1 where
      a1: "assembler_ingest (sw_assembler w) ev ?now = Ok ([pending_outcome k t], a1)"
      "ingest_all a1 (zip evs (map (we_monotonic env) [Suc (sw_ticks w)..<Suc (sw_ticks w) + length evs])) =
        Ok (replicate (length evs - 1) (pending_outcome k t) @ [complete_outcome k t x], a')"
      by (rule ingest_all_single)
    let ?w1 = "act Commit ((tick w)\<lparr>sw_assembler := a1\<rparr>)"
    have "handle_message env m w = (Ok True, (tick w)\<lparr>sw_assembler := a1\<rparr>)"
      using handle [OF a1(1)] by (simp add: handle_assembly_outcome_def pending_outcome_def)
    then have step: "handle_messages env ms w = handle_messages env ms' ?w1" by (simp add: ms)
    have "\<exists>w' r e ys. handle_messages env ms' ?w1 = (Ok True, w') \<and> knows env w' k (xs @ [x]) \<and>
        sw_trace w' = sw_trace ?w1 @ ys \<and>
        Acked (we_results_topic env, k, ResultMessage (build_result_event (we_uuid5 env) r e)) \<in> set ys \<and>
        ir_asset_id r = k \<and> ir_timestamp r = ts_timestamp x \<and> ir_status r = expected_status (xs @ [x])"
      by (rule Cons.IH) (use Cons.prems(1) rest a1(2) Cons in \<open>simp_all add: act_def tick_def knows_def\<close>)
    then obtain w' r e ys where "handle_messages env ms' ?w1 = (Ok True, w')" "knows env w' k (xs @ [x])"
      "sw_trace w' = sw_trace w @ (Commit # ys)"
      "Acked (we_results_topic env, k, ResultMessage (build_result_event (we_uuid5 env) r e)) \<in> set (Commit # ys)"
      "ir_asset_id r = k" "ir_timestamp r = ts_timestamp x" "ir_status r = expected_status (xs @ [x])"
      by (auto simp: act_def tick_def)
    with step show ?thesis by metis
  qed
qed simp



end
