(* ===== verification/Corroboration.thy ===== *)
theory Corroboration
  imports Repositories
begin

text \<open>
  The deterministic rules of the reasoning bridge
  (\<^verbatim>\<open>src/backend/app/application/reasoning_bridge/fault_class_mapping.py\<close>, \<^verbatim>\<open>corroboration.py\<close> and
  \<^verbatim>\<open>recommendation_policy.py\<close>, and the value objects of \<^verbatim>\<open>domain/ai_fault_evidence.py\<close>): what each
  supported fault class stands for, how recent observations corroborate an alert, and the
  recommendation that follows. The literal types of the source are strings that the constructors check.
\<close>

section \<open>Fault classes\<close>

record FaultClassMapping =
  fm_fault_class :: string
  fm_situation_type :: string
  fm_relevant_measurements :: "string list"
  fm_operator_impact :: string
  fm_allowed_categories :: "string list"
  fm_recommended_steps :: "string list"
  fm_verification_steps :: "string list"

definition cooling_mapping :: FaultClassMapping where
  "cooling_mapping =
     \<lparr>fm_fault_class = ''cooling_degradation'', fm_situation_type = ''cooling_system_degradation'',
      fm_relevant_measurements = [''stack_temperature'', ''coolant_flow'', ''current''],
      fm_operator_impact =
        ''Reduced cooling capacity risks accelerated stack degradation and '' @
        ''an eventual forced load reduction or shutdown if unaddressed.'',
      fm_allowed_categories = [''investigate'', ''monitor''],
      fm_recommended_steps =
        [''Inspect the coolant loop for restrictions, leaks, or pump issues.'',
         ''Verify the coolant-flow sensor against a manual or redundant reading.'',
         ''Schedule a maintenance inspection of the cooling subsystem.'',
         ''Reduce load only if deterministic operating thresholds support it.''],
      fm_verification_steps =
        [''Cross-check stack temperature against a secondary sensor if available.'',
         ''Confirm coolant-flow readings are physically plausible before acting.'']\<rparr>"

definition hydrogen_mapping :: FaultClassMapping where
  "hydrogen_mapping =
     \<lparr>fm_fault_class = ''hydrogen_supply_issue'', fm_situation_type = ''hydrogen_supply_degradation'',
      fm_relevant_measurements = [''fuel_flow'', ''voltage'', ''current'', ''power_output''],
      fm_operator_impact =
        ''Reduced hydrogen supply risks stack starvation, voltage instability, '' @
        ''and lost power output if unaddressed.'',
      fm_allowed_categories = [''investigate'', ''monitor''],
      fm_recommended_steps =
        [''Inspect the hydrogen supply path for restrictions or leaks.'',
         ''Check regulator/valve pressure against the expected setpoint.'',
         ''Verify fuel-flow instrumentation against a redundant reading.'',
         ''Reduce load or isolate the stack only if deterministic rules support it.''],
      fm_verification_steps =
        [''Confirm the fuel-flow drop is not attributable to a commanded '' @
         ''load reduction before treating it as a supply issue.'']\<rparr>"

definition sensor_mapping :: FaultClassMapping where
  "sensor_mapping =
     \<lparr>fm_fault_class = ''sensor_anomaly'', fm_situation_type = ''sensor_reading_anomaly'',
      fm_relevant_measurements = [''stack_temperature'', ''current'', ''voltage'', ''fuel_flow''],
      fm_operator_impact =
        ''A faulty sensor risks masking a real fault or triggering false '' @
        ''alarms; it is not itself an operational safety event.'',
      fm_allowed_categories = [''investigate'', ''monitor''],
      fm_recommended_steps =
        [''Compare the suspect measurement against a redundant or manual '' @
         ''reading before taking any other action.'',
         ''Inspect sensor wiring, connections, and calibration.''],
      fm_verification_steps =
        [''Do not intervene in the plant based solely on the suspect sensor's '' @
         ''own reading.'']\<rparr>"

definition FAULT_CLASS_MAPPINGS :: "(string, FaultClassMapping) dict" where
  "FAULT_CLASS_MAPPINGS =
     [(''cooling_degradation'', cooling_mapping), (''hydrogen_supply_issue'', hydrogen_mapping),
      (''sensor_anomaly'', sensor_mapping)]"

definition is_supported_fault_class :: "string \<Rightarrow> bool" where
  "is_supported_fault_class fault_class \<longleftrightarrow> fault_class \<in> set (dict_keys FAULT_CLASS_MAPPINGS)"

definition get_fault_class_mapping :: "string \<Rightarrow> FaultClassMapping result" where
  "get_fault_class_mapping fault_class =
     (case map_of FAULT_CLASS_MAPPINGS fault_class of
        None \<Rightarrow> Err (KeyError (''unsupported fault class: '' @ py_repr fault_class))
      | Some mapping \<Rightarrow> Ok mapping)"

section \<open>Corroboration\<close>

definition MIN_OBSERVATIONS_FOR_TREND :: nat where
  "MIN_OBSERVATIONS_FOR_TREND = 4"

record CorroborationOutcome =
  co_result :: string
  co_rule_ids :: "string list"
  co_notes :: string
  co_supporting_ids :: "string list"

definition outcome :: "string \<Rightarrow> string list \<Rightarrow> string \<Rightarrow> string list \<Rightarrow> CorroborationOutcome" where
  "outcome res rules notes ids =
     \<lparr>co_result = res, co_rule_ids = rules, co_notes = notes, co_supporting_ids = ids\<rparr>"

definition recent_trend :: "Observation list \<Rightarrow> TrendDirection option result" where
  "recent_trend observations =
     (if length observations < MIN_OBSERVATIONS_FOR_TREND then Ok None
      else res_bind (trend_detect observations) (\<lambda>t. Ok (Some (dt_direction t))))"

text \<open>Identifiers without repetition, in order of first occurrence.\<close>

definition unique_ids :: "Observation list list \<Rightarrow> string list" where
  "unique_ids groups =
     foldl (\<lambda>seen ob. if obs_id ob \<in> set seen then seen else seen @ [obs_id ob]) [] (concat groups)"

text \<open>The UTF-8 bytes of the dash in the notes.\<close>

definition em_dash :: string where
  "em_dash = [CHR 0xE2, CHR 0x80, CHR 0x94]"

definition corroborate_cooling_degradation ::
    "Observation list \<Rightarrow> Observation list \<Rightarrow> CorroborationOutcome result" where
  "corroborate_cooling_degradation stack_temperature coolant_flow =
     res_bind (recent_trend stack_temperature) (\<lambda>temperature_trend.
     res_bind (recent_trend coolant_flow) (\<lambda>coolant_trend.
     let ids = unique_ids [stack_temperature, coolant_flow] in
     Ok (case temperature_trend of
        None \<Rightarrow> outcome ''insufficient_evidence''
          [''cooling_degradation.insufficient_stack_temperature_history'']
          ''Not enough stack_temperature history to corroborate or refute.'' ids
      | Some t \<Rightarrow>
          if t \<noteq> INCREASING then outcome ''not_corroborated''
            [''cooling_degradation.stack_temperature_not_increasing'']
            (''stack_temperature trend is '' @ trend_value t @ '', not increasing.'') ids
          else case coolant_trend of
             None \<Rightarrow> outcome ''partially_corroborated''
               [''cooling_degradation.stack_temperature_increasing'',
                ''cooling_degradation.insufficient_coolant_flow_history'']
               (''stack_temperature is increasing, but coolant_flow history is '' @
                ''insufficient to assess whether cooling is compensating.'') ids
           | Some INCREASING \<Rightarrow> outcome ''not_corroborated''
               [''cooling_degradation.stack_temperature_increasing'',
                ''cooling_degradation.coolant_flow_increasing_contradicts'']
               (''coolant_flow is increasing alongside stack_temperature, '' @
                ''consistent with active compensation rather than degradation.'') ids
           | Some STABLE \<Rightarrow> outcome ''partially_corroborated''
               [''cooling_degradation.stack_temperature_increasing'',
                ''cooling_degradation.coolant_flow_stable'']
               (''stack_temperature is increasing while coolant_flow is stable '' @ em_dash @
                '' consistent with, but not conclusive for, cooling degradation.'') ids
           | Some DECREASING \<Rightarrow> outcome ''corroborated''
               [''cooling_degradation.stack_temperature_increasing'',
                ''cooling_degradation.coolant_flow_decreasing'']
               (''stack_temperature is increasing while coolant_flow is decreasing '' @ em_dash @
                '' cooling capacity is not compensating for the rising temperature.'') ids)))"

definition corroborate_hydrogen_supply_issue ::
    "Observation list \<Rightarrow> Observation list \<Rightarrow> CorroborationOutcome result" where
  "corroborate_hydrogen_supply_issue fuel_flow voltage =
     res_bind (recent_trend fuel_flow) (\<lambda>fuel_flow_trend.
     res_bind (recent_trend voltage) (\<lambda>voltage_trend.
     let ids = unique_ids [fuel_flow, voltage] in
     Ok (case fuel_flow_trend of
        None \<Rightarrow> outcome ''insufficient_evidence''
          [''hydrogen_supply_issue.insufficient_fuel_flow_history'']
          ''Not enough fuel_flow history to corroborate or refute.'' ids
      | Some t \<Rightarrow>
          if t \<noteq> DECREASING then outcome ''not_corroborated''
            [''hydrogen_supply_issue.fuel_flow_not_decreasing'']
            (''fuel_flow trend is '' @ trend_value t @ '', not decreasing.'') ids
          else case voltage_trend of
             None \<Rightarrow> outcome ''partially_corroborated''
               [''hydrogen_supply_issue.fuel_flow_decreasing'',
                ''hydrogen_supply_issue.insufficient_voltage_history'']
               (''fuel_flow is decreasing, but voltage history is insufficient to '' @
                ''assess whether the response is consistent with starvation.'') ids
           | Some v \<Rightarrow>
               if v \<noteq> DECREASING then outcome ''partially_corroborated''
                 [''hydrogen_supply_issue.fuel_flow_decreasing'',
                  ''hydrogen_supply_issue.voltage_not_decreasing'']
                 (''fuel_flow is decreasing but voltage is not '' @ em_dash @ '' consistent with a '' @
                  ''commanded load reduction rather than a supply issue alone.'') ids
               else outcome ''corroborated''
                 [''hydrogen_supply_issue.fuel_flow_decreasing'',
                  ''hydrogen_supply_issue.voltage_decreasing'']
                 (''fuel_flow and voltage are both decreasing, consistent with hydrogen '' @
                  ''starvation rather than a load change alone.'') ids)))"

definition related_outcome :: "TrendDirection list \<Rightarrow> string list \<Rightarrow> CorroborationOutcome" where
  "related_outcome known ids =
     (let moved = length (filter (\<lambda>t. t \<noteq> STABLE) known)
      in if known = [] then outcome ''partially_corroborated'' [''sensor_anomaly.stack_temperature_shifted'']
           (''stack_temperature shows a shift, but there is not enough history '' @
            ''on the related signals to confirm physical inconsistency.'') ids
         else if moved = 0 then outcome ''corroborated''
           [''sensor_anomaly.stack_temperature_shifted'', ''sensor_anomaly.related_signals_stable'']
           (''stack_temperature shifted while current, voltage, and fuel_flow '' @
            ''all remained stable '' @ em_dash @ '' physically inconsistent with a real '' @
            ''thermal event.'') ids
         else if moved = length known then outcome ''not_corroborated''
           [''sensor_anomaly.stack_temperature_shifted'', ''sensor_anomaly.related_signals_also_shifted'']
           (''stack_temperature shifted alongside every related signal '' @ em_dash @ '' '' @
            ''physically consistent with a real event, not a sensor anomaly.'') ids
         else outcome ''partially_corroborated''
           [''sensor_anomaly.stack_temperature_shifted'', ''sensor_anomaly.related_signals_partially_shifted'']
           (''stack_temperature shifted while only some related signals moved '' @ em_dash @ '' '' @
            ''ambiguous between a sensor anomaly and a real event.'') ids)"

text \<open>The related signals are only examined when the temperature has shifted.\<close>

definition corroborate_sensor_anomaly ::
    "Observation list \<Rightarrow> Observation list \<Rightarrow> Observation list \<Rightarrow> Observation list \<Rightarrow> CorroborationOutcome result" where
  "corroborate_sensor_anomaly stack_temperature current voltage fuel_flow =
     res_bind (recent_trend stack_temperature) (\<lambda>temperature_trend.
     let ids = unique_ids [stack_temperature, current, voltage, fuel_flow] in
     case temperature_trend of
        None \<Rightarrow> Ok (outcome ''insufficient_evidence''
          [''sensor_anomaly.insufficient_stack_temperature_history'']
          ''Not enough stack_temperature history to corroborate or refute.'' ids)
      | Some STABLE \<Rightarrow> Ok (outcome ''not_corroborated'' [''sensor_anomaly.stack_temperature_stable'']
          (''stack_temperature shows no shift, so there is nothing for a '' @
           ''sensor anomaly to explain.'') ids)
      | Some t \<Rightarrow>
          res_bind (res_map recent_trend [current, voltage, fuel_flow]) (\<lambda>related_trends.
          Ok (related_outcome (List.map_filter id related_trends) ids)))"

section \<open>Recommendations\<close>

record FaultRecommendation =
  fc_id :: string
  fc_status :: string
  fc_category :: string
  fc_urgency :: string
  fc_action_summary :: string
  fc_reason :: string
  fc_supporting_rule_ids :: "string list"
  fc_supporting_observation_ids :: "string list"
  fc_recommended_steps :: "string list"
  fc_limitations :: string

definition RECOMMENDATION_STATUSES :: "string list" where
  "RECOMMENDATION_STATUSES = [''produced'', ''withheld'']"

definition RECOMMENDATION_CATEGORIES :: "string list" where
  "RECOMMENDATION_CATEGORIES = [''investigate'', ''monitor'']"

definition URGENCIES :: "string list" where
  "URGENCIES = [''INFORMATIONAL'', ''INSPECTION_REQUIRED'', ''ELEVATED'', ''URGENT'']"

definition one_of :: "string \<Rightarrow> string list \<Rightarrow> string \<Rightarrow> bool \<times> py_error" where
  "one_of field allowed s =
     (s \<in> set allowed, ValueError (field @ '' must be one of: '' @ str_join '', '' allowed))"

text \<open>\<^verbatim>\<open>FaultRecommendation.__post_init__\<close>.\<close>

definition check_recommendation :: "FaultRecommendation \<Rightarrow> FaultRecommendation result" where
  "check_recommendation r =
     construct
       [nonempty_check ''id'' (fc_id r),
        one_of ''status'' RECOMMENDATION_STATUSES (fc_status r),
        one_of ''category'' RECOMMENDATION_CATEGORIES (fc_category r),
        one_of ''urgency'' URGENCIES (fc_urgency r),
        nonempty_check ''action_summary'' (fc_action_summary r),
        nonempty_check ''reason'' (fc_reason r),
        nonempty_check ''limitations'' (fc_limitations r)] r"

definition build_recommendation ::
    "string \<Rightarrow> FaultClassMapping \<Rightarrow> CorroborationOutcome \<Rightarrow> FaultRecommendation result" where
  "build_recommendation recommendation_id mapping c =
     (let base = \<lparr>fc_id = recommendation_id, fc_status = ''withheld'', fc_category = ''monitor'',
            fc_urgency = ''INFORMATIONAL'', fc_action_summary = [], fc_reason = co_notes c,
            fc_supporting_rule_ids = co_rule_ids c, fc_supporting_observation_ids = co_supporting_ids c,
            fc_recommended_steps = [], fc_limitations = []\<rparr>;
          fault = fm_fault_class mapping
      in check_recommendation
       (if co_result c = ''corroborated'' then
          base\<lparr>fc_status := ''produced'', fc_category := ''investigate'', fc_urgency := ''ELEVATED'',
            fc_action_summary :=
              ''Deterministic evidence corroborates the AI-diagnosed '' @ fault @ ''.'',
            fc_recommended_steps := fm_recommended_steps mapping,
            fc_limitations :=
              ''Model scores are diagnostic ranking scores, not calibrated '' @
              ''probabilities; this recommendation is based on the alert '' @
              ''policy's own confirmed diagnosis plus deterministic '' @
              ''corroboration, not a model-score threshold.''\<rparr>
        else if co_result c = ''partially_corroborated'' then
          base\<lparr>fc_status := ''produced'', fc_category := ''investigate'', fc_urgency := ''INSPECTION_REQUIRED'',
            fc_action_summary :=
              ''Deterministic evidence partially supports the AI-diagnosed '' @ fault @
              ''; verification is recommended before '' @ ''any operational action.'',
            fc_recommended_steps := fm_verification_steps mapping,
            fc_limitations :=
              ''Evidence is ambiguous '' @ em_dash @ '' this recommends verification, not a '' @
              ''confirmed-fault response.''\<rparr>
        else if co_result c = ''not_corroborated'' then
          base\<lparr>fc_action_summary :=
              ''Deterministic evidence does not corroborate the AI-diagnosed '' @ fault @
              ''; no fault-action recommendation is made.'',
            fc_recommended_steps :=
              [''Continue monitoring; no deterministic evidence currently '' @
               ''supports operator action for this alert.''],
            fc_limitations :=
              ''The AI alert and deterministic evidence disagree; this '' @
              ''disagreement is recorded, not discarded, but does not by '' @
              ''itself justify a fault-action recommendation.''\<rparr>
        else
          base\<lparr>fc_action_summary :=
              ''Insufficient observable telemetry to corroborate or refute the '' @
              ''AI-diagnosed '' @ fault @ ''; more data is needed.'',
            fc_recommended_steps :=
              [''Gather additional telemetry or perform a manual inspection '' @
               ''before drawing a conclusion.''],
            fc_limitations :=
              ''This is not a healthy-operation determination '' @ em_dash @ '' evidence is '' @
              ''simply insufficient to corroborate or refute the alert.''\<rparr>))"

section \<open>What the rules establish\<close>

definition corroboration_results :: "string list" where
  "corroboration_results =
     [''corroborated'', ''partially_corroborated'', ''not_corroborated'', ''insufficient_evidence'']"

lemma outcome_simps [simp]:
  "co_result (outcome r rules notes ids) = r" "co_rule_ids (outcome r rules notes ids) = rules"
  "co_notes (outcome r rules notes ids) = notes" "co_supporting_ids (outcome r rules notes ids) = ids"
  by (simp_all add: outcome_def)

lemma unique_ids_fold:
  "set (foldl (\<lambda>seen ob. if obs_id ob \<in> set seen then seen else seen @ [obs_id ob]) acc obs) =
     set acc \<union> obs_id ` set obs"
  "distinct acc \<Longrightarrow> distinct (foldl (\<lambda>seen ob. if obs_id ob \<in> set seen then seen else seen @ [obs_id ob]) acc obs)"
  by (induction obs arbitrary: acc) auto

lemma unique_ids_exact:
  "set (unique_ids groups) = obs_id ` set (concat groups)" "distinct (unique_ids groups)"
  using unique_ids_fold [of "[]" "concat groups"] by (simp_all add: unique_ids_def)

lemma recent_trend_total: "same_series obs \<Longrightarrow> \<exists>t. recent_trend obs = Ok t"
  by (auto simp: recent_trend_def MIN_OBSERVATIONS_FOR_TREND_def trend_detect_Ok_iff res_bind_Ok_iff)

lemma recent_trend_cases:
  "recent_trend obs = Ok t \<Longrightarrow>
     t = (if length obs < 4 then None else Some (split_half_direction (sorted_by obs_timestamp obs)))"
  by (auto simp: recent_trend_def MIN_OBSERVATIONS_FOR_TREND_def trend_detect_Ok_iff res_bind_Ok_iff split: if_splits)

lemma recent_trend_short: "recent_trend obs = Ok (Some t) \<Longrightarrow> length obs < 8 \<Longrightarrow> t = STABLE"
  using recent_trend_cases [of obs "Some t"]
  by (auto simp: split_half_direction_def MIN_SAMPLES_FOR_DIRECTIONAL_TREND_def Let_def split: if_splits)

lemma recent_trend_long: "recent_trend obs = Ok t \<Longrightarrow> 4 \<le> length obs \<Longrightarrow> t \<noteq> None"
  using recent_trend_cases [of obs t] by simp

lemma corroboration_results_simps [simp]:
  "''corroborated'' \<in> set corroboration_results" "''partially_corroborated'' \<in> set corroboration_results"
  "''not_corroborated'' \<in> set corroboration_results" "''insufficient_evidence'' \<in> set corroboration_results"
  by (simp_all add: corroboration_results_def)

text \<open>A verdict of the four kinds, with a note, citing exactly the given readings.\<close>

definition verdict :: "string list \<Rightarrow> CorroborationOutcome \<Rightarrow> bool" where
  "verdict ids c \<longleftrightarrow> co_result c \<in> set corroboration_results \<and> co_notes c \<noteq> [] \<and> co_supporting_ids c = ids"

lemma verdict_outcome: "r \<in> set corroboration_results \<Longrightarrow> notes \<noteq> [] \<Longrightarrow> verdict ids (outcome r rules notes ids)"
  by (simp add: verdict_def)

lemma verdict_related: "verdict ids (related_outcome ts ids)"
  unfolding related_outcome_def Let_def by (auto intro!: verdict_outcome simp: corroboration_results_simps)

lemma cooling_outcome:
  assumes "corroborate_cooling_degradation a b = Ok c"
  shows "verdict (unique_ids [a, b]) c"
  using assms unfolding corroborate_cooling_degradation_def Let_def res_bind_Ok_iff
  by (auto intro!: verdict_outcome split: option.splits TrendDirection.splits if_splits)

lemma hydrogen_outcome:
  assumes "corroborate_hydrogen_supply_issue a b = Ok c"
  shows "verdict (unique_ids [a, b]) c"
  using assms unfolding corroborate_hydrogen_supply_issue_def Let_def res_bind_Ok_iff
  by (auto intro!: verdict_outcome split: option.splits if_splits)

lemma sensor_outcome:
  assumes "corroborate_sensor_anomaly a b d e = Ok c"
  shows "verdict (unique_ids [a, b, d, e]) c"
proof -
  from assms obtain t where t: "recent_trend a = Ok t"
    by (auto simp: corroborate_sensor_anomaly_def res_bind_Ok_iff)
  have shifted: "verdict (unique_ids [a, b, d, e]) c" if "res_bind (res_map recent_trend [b, d, e]) (\<lambda>ts.
      Ok (related_outcome (List.map_filter id ts) (unique_ids [a, b, d, e]))) = Ok c"
    using that verdict_related by (auto simp del: res_map.simps simp: res_bind_Ok_iff)
  show ?thesis
  proof (cases t)
    case None
    with t assms show ?thesis by (auto simp: corroborate_sensor_anomaly_def Let_def intro!: verdict_outcome)
  next
    case (Some x)
    with t assms shifted show ?thesis
      by (cases x) (auto simp: corroborate_sensor_anomaly_def Let_def simp del: res_map.simps intro!: verdict_outcome)
  qed
qed

lemma cooling_total: "same_series a \<Longrightarrow> same_series b \<Longrightarrow> \<exists>c. corroborate_cooling_degradation a b = Ok c"
  using recent_trend_total [of a] recent_trend_total [of b]
  by (auto simp: corroborate_cooling_degradation_def Let_def)

lemma hydrogen_total: "same_series a \<Longrightarrow> same_series b \<Longrightarrow> \<exists>c. corroborate_hydrogen_supply_issue a b = Ok c"
  using recent_trend_total [of a] recent_trend_total [of b]
  by (auto simp: corroborate_hydrogen_supply_issue_def Let_def)

lemma sensor_total:
  assumes "same_series a" "same_series b" "same_series d" "same_series e"
  shows "\<exists>c. corroborate_sensor_anomaly a b d e = Ok c"
proof -
  obtain t where t: "recent_trend a = Ok t" using recent_trend_total [OF assms(1)] by blast
  obtain ts where "res_map recent_trend [b, d, e] = Ok ts"
    using res_map_total [of "[b, d, e]" recent_trend] recent_trend_total assms(2-4) by auto
  with t show ?thesis
    by (cases t) (auto simp: corroborate_sensor_anomaly_def Let_def simp del: res_map.simps split: TrendDirection.splits)
qed

lemma build_recommendation_Ok:
  assumes "rid \<noteq> []" "co_notes c \<noteq> []"
  obtains r where "build_recommendation rid mapping c = Ok r" "fc_id r = rid"
    "fc_status r = (if co_result c \<in> {''corroborated'', ''partially_corroborated''} then ''produced'' else ''withheld'')"
    "fc_urgency r = (if co_result c = ''corroborated'' then ''ELEVATED''
       else if co_result c = ''partially_corroborated'' then ''INSPECTION_REQUIRED'' else ''INFORMATIONAL'')"
    "fc_supporting_observation_ids r = co_supporting_ids c" "fc_supporting_rule_ids r = co_rule_ids c"
    "check_recommendation r = Ok r"
proof -
  have ok: "check_recommendation r = Ok r" if "build_recommendation rid mapping c = Ok r" for r
    using that by (auto simp: build_recommendation_def check_recommendation_def construct_Ok_iff Let_def)
  have "\<exists>r. build_recommendation rid mapping c = Ok r \<and> fc_id r = rid \<and>
    fc_status r = (if co_result c \<in> {''corroborated'', ''partially_corroborated''} then ''produced'' else ''withheld'') \<and>
    fc_urgency r = (if co_result c = ''corroborated'' then ''ELEVATED''
       else if co_result c = ''partially_corroborated'' then ''INSPECTION_REQUIRED'' else ''INFORMATIONAL'') \<and>
    fc_supporting_observation_ids r = co_supporting_ids c \<and> fc_supporting_rule_ids r = co_rule_ids c"
    using assms
    by (simp add: build_recommendation_def check_recommendation_def construct_Cons Let_def one_of_def
        RECOMMENDATION_STATUSES_def RECOMMENDATION_CATEGORIES_def URGENCIES_def)
  with ok that show thesis by blast
qed

section \<open>Properties\<close>

text \<open>
  Four to seven observations are never enough and yet they count as evidence: with that many
  temperature readings of one series, whatever their values, cooling degradation and a sensor anomaly
  are reported as not corroborated, and so is a hydrogen supply issue with that many fuel-flow
  readings, because the trend detector calls every series shorter than eight stable. With three or
  fewer readings the verdict is insufficient evidence.
\<close>

theorem short_history_refutes:
  assumes "same_series obs" "length obs < 8" "same_series others"
  shows "\<exists>c1 c2 c3. corroborate_cooling_degradation obs others = Ok c1 \<and>
    corroborate_hydrogen_supply_issue obs others = Ok c2 \<and>
    corroborate_sensor_anomaly obs cur volt fuel = Ok c3 \<and>
    (\<forall>c \<in> {c1, c2, c3}. co_result c =
       (if length obs < 4 then ''insufficient_evidence'' else ''not_corroborated''))"
proof -
  obtain t u where t: "recent_trend obs = Ok t" and u: "recent_trend others = Ok u"
    using recent_trend_total assms by metis
  from recent_trend_cases [OF t] recent_trend_short [of obs] t assms(2)
  have "t = (if length obs < 4 then None else Some STABLE)" by (auto split: if_splits)
  then show ?thesis
    by (simp add: corroborate_cooling_degradation_def corroborate_hydrogen_supply_issue_def
        corroborate_sensor_anomaly_def t u Let_def)
qed

definition demo_temps :: "Observation list" where
  "demo_temps = demo_series ''stack_temperature'' [40, 50, 60, 70, 80, 90, 100]"

definition demo_flows :: "Observation list" where
  "demo_flows = demo_series ''coolant_flow'' [9, 7, 5, 3, 1, 1, 1]"

lemma demo_rising_short: "same_series demo_temps" "same_series demo_flows" "length demo_temps = 7"
  by (simp_all add: demo_temps_def demo_flows_def demo_series_def same_series_def)

theorem short_history_refutes_witness:
  "\<exists>c. corroborate_cooling_degradation demo_temps demo_flows = Ok c \<and> co_result c = ''not_corroborated''"
  using short_history_refutes [OF demo_rising_short(1) _ demo_rising_short(2)] unfolding demo_rising_short(3) by fastforce

text \<open>
  A verdict is supported by the trends it names: when cooling degradation is corroborated the
  temperature rises and the coolant flow falls, each over at least eight readings; the recommendation
  is then produced with elevated urgency, it is withheld exactly when the verdict is neither
  corroborated nor partly so, it never reads the model scores, and it cites every reading looked at
  exactly once.
\<close>

theorem recommendation_rests_on_trends:
  assumes "corroborate_cooling_degradation temps flows = Ok c" "rid \<noteq> []"
  shows "\<exists>r. build_recommendation rid cooling_mapping c = Ok r \<and>
    (fc_status r = ''withheld'' \<longleftrightarrow> co_result c \<notin> {''corroborated'', ''partially_corroborated''}) \<and>
    (fc_urgency r = ''ELEVATED'' \<longleftrightarrow>
       split_half_direction (sorted_by obs_timestamp temps) = INCREASING \<and>
       split_half_direction (sorted_by obs_timestamp flows) = DECREASING) \<and>
    distinct (fc_supporting_observation_ids r) \<and>
    set (fc_supporting_observation_ids r) = obs_id ` set (temps @ flows)"
proof -
  note c = cooling_outcome [OF assms(1), unfolded verdict_def]
  from build_recommendation_Ok [OF assms(2), of c cooling_mapping] c obtain r where
    r: "build_recommendation rid cooling_mapping c = Ok r"
    "fc_status r = (if co_result c \<in> {''corroborated'', ''partially_corroborated''} then ''produced'' else ''withheld'')"
    "fc_urgency r = (if co_result c = ''corroborated'' then ''ELEVATED''
       else if co_result c = ''partially_corroborated'' then ''INSPECTION_REQUIRED'' else ''INFORMATIONAL'')"
    "fc_supporting_observation_ids r = co_supporting_ids c" by metis
  from assms(1) obtain t u where t: "recent_trend temps = Ok t" and u: "recent_trend flows = Ok u"
    by (auto simp: corroborate_cooling_degradation_def res_bind_Ok_iff)
  have long: "\<not> length obs < 4" if "split_half_direction (sorted_by obs_timestamp obs) \<noteq> STABLE" for obs
    using that by (auto simp: split_half_direction_def MIN_SAMPLES_FOR_DIRECTIONAL_TREND_def Let_def split: if_splits)
  have iff: "co_result c = ''corroborated'' \<longleftrightarrow>
      split_half_direction (sorted_by obs_timestamp temps) = INCREASING \<and>
      split_half_direction (sorted_by obs_timestamp flows) = DECREASING"
    using assms(1) recent_trend_cases [OF t] recent_trend_cases [OF u] long [of temps] long [of flows]
    by (auto simp: corroborate_cooling_degradation_def t u Let_def split: if_splits TrendDirection.splits)
  with r c unique_ids_exact [of "[temps, flows]"] show ?thesis by (intro exI [of _ r]) auto
qed

theorem recommendation_rests_on_trends_witness:
  "\<exists>c r. corroborate_cooling_degradation demo_temps demo_flows = Ok c \<and>
     build_recommendation ''rec'' cooling_mapping c = Ok r \<and> fc_urgency r \<noteq> ''ELEVATED''"
proof -
  obtain c where c: "corroborate_cooling_degradation demo_temps demo_flows = Ok c"
    using cooling_total demo_rising_short by blast
  have "split_half_direction (sorted_by obs_timestamp demo_temps) = STABLE"
    by (simp add: split_half_direction_def MIN_SAMPLES_FOR_DIRECTIONAL_TREND_def demo_rising_short)
  with recommendation_rests_on_trends [OF c, of "''rec''"] c show ?thesis by auto
qed

end
