(* ===== verification/Bridge_Events.thy ===== *)
theory Bridge_Events
  imports Streaming_Worker Corroboration
begin

text \<open>
  The two ends of the alert-transition topic: the JSON the streaming worker sends
  (\<^verbatim>\<open>to_json_dict\<close> of \<^verbatim>\<open>src/backend/simulator/inference_worker/events.py\<close>, dumped with sorted keys by
  \<^verbatim>\<open>kafka_io.py\<close>) and the validation of the reasoning bridge
  (\<^verbatim>\<open>src/backend/app/application/reasoning_bridge/input_events.py\<close>). A JSON text is represented by
  the value it decodes to; \<^verbatim>\<open>datetime.fromisoformat\<close> is a parameter.
\<close>

section \<open>A transition event on the wire\<close>

definition opt_json :: "('a \<Rightarrow> json) \<Rightarrow> 'a option \<Rightarrow> json" where
  "opt_json f x = (case x of None \<Rightarrow> JNull | Some v \<Rightarrow> f v)"

definition scores_json :: "(string, pyfloat) dict \<Rightarrow> json" where
  "scores_json d = JObj (map (\<lambda>(k, v). (k, JFloat v)) d)"

definition evidence_item_json :: "EvidenceItem \<Rightarrow> json" where
  "evidence_item_json item =
     JObj [(''label'', JStr (evi_label item)), (''value'', JFloat (evi_value item)),
           (''detail'', JStr (evi_detail item))]"

definition transition_fields :: "FaultAlertTransitionEvent \<Rightarrow> (string \<times> json) list" where
  "transition_fields te =
     [(''event_id'', JStr (ft_event_id te)), (''event_version'', JStr (ft_event_version te)),
      (''occurred_at'', JStr (isoformat (ft_occurred_at te))), (''asset_id'', JStr (ft_asset_id te)),
      (''source_timestamp'', JStr (isoformat (ft_source_timestamp te))),
      (''transition_type'', JStr (ft_transition_type te)), (''from_state'', JStr (ft_from_state te)),
      (''to_state'', JStr (ft_to_state te)), (''diagnosed_class'', opt_json JStr (ft_diagnosed_class te)),
      (''evidence'', JList (map evidence_item_json (ft_evidence te))),
      (''model_system_version'', opt_json JStr (ft_model_system_version te)),
      (''model_hash'', opt_json JStr (ft_model_hash te)), (''policy_hash'', opt_json JStr (ft_policy_hash te)),
      (''feature_schema_version'', opt_json JStr (ft_feature_schema_version te)),
      (''class_scores'', opt_json scores_json (ft_class_scores te)),
      (''maximum_score'', opt_json JFloat (ft_maximum_score te))]"

definition transition_json :: "FaultAlertTransitionEvent \<Rightarrow> json" where
  "transition_json te = JObj (transition_fields te)"

text \<open>\<^verbatim>\<open>json.dumps(..., sort_keys=True)\<close>, read back.\<close>

fun sort_keys :: "json \<Rightarrow> json" where
  "sort_keys (JList xs) = JList (map sort_keys xs)"
| "sort_keys (JObj kvs) = JObj (sorted_by fst (map (\<lambda>(k, v). (k, sort_keys v)) kvs))"
| "sort_keys j = j"

section \<open>Validation at the bridge\<close>

definition SUPPORTED_INPUT_EVENT_VERSIONS :: "string list" where
  "SUPPORTED_INPUT_EVENT_VERSIONS = [''v1'']"

definition SUPPORTED_TRANSITION_TYPES :: "string list" where
  "SUPPORTED_TRANSITION_TYPES = [''confirmed'', ''class_changed'', ''cleared'']"

definition CONFIRMED_PREFIX :: string where
  "CONFIRMED_PREFIX = ''confirmed_''"

definition REQUIRED_ALERT_FIELDS :: "string list" where
  "REQUIRED_ALERT_FIELDS =
     [''event_id'', ''event_version'', ''asset_id'', ''source_timestamp'', ''transition_type'', ''from_state'',
      ''to_state'', ''diagnosed_class'', ''evidence'', ''model_system_version'', ''model_hash'', ''policy_hash'',
      ''feature_schema_version'', ''class_scores'', ''maximum_score'']"

text \<open>The messages of the validation errors.\<close>

definition missing_alert_field :: "string \<Rightarrow> py_error" where
  "missing_alert_field name =
     AppError ''MissingFieldError'' (''alert-transition event is missing field '' @ py_repr name)"

definition unsupported_alert_version :: "json \<Rightarrow> py_error" where
  "unsupported_alert_version event_version =
     AppError ''UnsupportedEventVersionError''
       (''unsupported event_version '' @ json_repr event_version @ '' (supported: '' @
        py_list_repr (sorted_by id SUPPORTED_INPUT_EVENT_VERSIONS) @ '')'')"

definition unsupported_transition_type :: "json \<Rightarrow> py_error" where
  "unsupported_transition_type transition_type =
     AppError ''UnsupportedTransitionTypeError''
       (''unsupported transition_type '' @ json_repr transition_type @ '' (supported: '' @
        py_list_repr (sorted_by id SUPPORTED_TRANSITION_TYPES) @ '')'')"

definition malformed_alert_timestamp :: "json \<Rightarrow> py_error" where
  "malformed_alert_timestamp raw =
     AppError ''MalformedTimestampError'' (''unparseable source_timestamp: '' @ json_repr raw)"

definition malformed_scores :: "string \<Rightarrow> py_error" where
  "malformed_scores detail =
     AppError ''MalformedScoresError'' (''malformed class_scores/maximum_score: '' @ detail)"

definition healthy_class_rejected :: py_error where
  "healthy_class_rejected =
     AppError ''HealthyClassRejectedError'' ''healthy is never accepted as a fault-alert class''"

definition malformed_state :: "string \<Rightarrow> string \<Rightarrow> string \<Rightarrow> py_error" where
  "malformed_state transition_type from_state to_state =
     AppError ''MalformedStateError''
       (''cannot extract a fault class from transition_type='' @ py_repr transition_type @
        '' from_state='' @ py_repr from_state @ '' to_state='' @ py_repr to_state)"

record ValidatedAlertTransition =
  va_event_id :: string
  va_event_version :: string
  va_asset_id :: string
  va_source_timestamp :: datetime
  va_transition_type :: string
  va_from_state :: string
  va_to_state :: string
  va_fault_class :: string
  va_diagnosed_class :: string
  va_evidence_items :: "json list"
  va_model_system_version :: string
  va_model_hash :: string
  va_policy_hash :: string
  va_feature_schema_version :: string
  va_class_scores :: "(string, pyfloat) dict"
  va_maximum_score :: pyfloat

definition parse_alert_timestamp :: "(string \<Rightarrow> datetime option) \<Rightarrow> json \<Rightarrow> datetime result" where
  "parse_alert_timestamp fromisoformat raw =
     (case raw of
        JStr s \<Rightarrow>
          (case fromisoformat (replace_char (CHR ''Z'') ''+00:00'' s) of
             None \<Rightarrow> Err (malformed_alert_timestamp raw)
           | Some t \<Rightarrow> Ok t)
      | _ \<Rightarrow> Err (malformed_alert_timestamp raw))"

definition extract_fault_class :: "string \<Rightarrow> string \<Rightarrow> string \<Rightarrow> string result" where
  "extract_fault_class transition_type from_state to_state =
     (let state = (if transition_type = ''cleared'' then from_state else to_state)
      in if take (length CONFIRMED_PREFIX) state \<noteq> CONFIRMED_PREFIX then
           Err (malformed_state transition_type from_state to_state)
         else
           let fault_class = drop (length CONFIRMED_PREFIX) state in
           if fault_class = [] then Err (malformed_state transition_type from_state to_state)
           else Ok fault_class)"

text \<open>
  \<^verbatim>\<open>float(score)\<close> of an integer or a float that is no boolean and is finite; \<^verbatim>\<open>float\<close> itself raises
  on an integer beyond the range of doubles.
\<close>

definition alert_score :: "string \<Rightarrow> string \<Rightarrow> json \<Rightarrow> pyfloat result" where
  "alert_score not_numeric not_finite j =
     (case j of
        JFloat x \<Rightarrow> Ok x
      | JInt i \<Rightarrow> if \<bar>fl (of_int i)\<bar> \<ge> 2 ^ 1024 then Err OverflowError else Ok (fl (of_int i))
      | JNonFinite _ \<Rightarrow> Err (malformed_scores not_finite)
      | _ \<Rightarrow> Err (malformed_scores not_numeric))"

definition class_scores_of :: "json \<Rightarrow> (string, pyfloat) dict result" where
  "class_scores_of class_scores =
     (case class_scores of
        JObj (kv # kvs) \<Rightarrow>
          res_map (\<lambda>(k, v). res_bind
            (alert_score ''class_scores values must be numeric'' ''class_scores values must be finite'' v)
            (\<lambda>x. Ok (k, x))) (kv # kvs)
      | _ \<Rightarrow> Err (malformed_scores ''class_scores must be a non-empty object''))"

definition maximum_score_of :: "json \<Rightarrow> pyfloat result" where
  "maximum_score_of maximum_score =
     res_bind (alert_score ''maximum_score must be numeric'' ''maximum_score must be finite and in [0.0, 1.0]''
                 maximum_score) (\<lambda>x.
     if 0 \<le> x \<and> x \<le> 1 then Ok x
     else Err (malformed_scores ''maximum_score must be finite and in [0.0, 1.0]''))"

definition validate_alert_transition ::
    "(string \<Rightarrow> datetime option) \<Rightarrow> json \<Rightarrow> ValidatedAlertTransition result" where
  "validate_alert_transition fromisoformat raw =
     res_bind (res_map (present_field missing_alert_field raw) REQUIRED_ALERT_FIELDS) (\<lambda>_.
     let event_version = json_get raw ''event_version''; transition = json_get raw ''transition_type'' in
     res_bind (in_frozenset event_version SUPPORTED_INPUT_EVENT_VERSIONS) (\<lambda>known_version.
     if \<not> known_version then Err (unsupported_alert_version event_version) else
     res_bind (in_frozenset transition SUPPORTED_TRANSITION_TYPES) (\<lambda>known_type.
     if \<not> known_type then Err (unsupported_transition_type transition) else
     case json_get raw ''asset_id'' of
       JStr (c # cs) \<Rightarrow>
         res_bind (parse_alert_timestamp fromisoformat (json_get raw ''source_timestamp'')) (\<lambda>source_timestamp.
         let from_state = json_str (json_get raw ''from_state''); to_state = json_str (json_get raw ''to_state'') in
         res_bind (extract_fault_class (json_str transition) from_state to_state) (\<lambda>fault_class.
         if fault_class = ''healthy'' then Err healthy_class_rejected else
         case json_get raw ''evidence'' of
           JList evidence \<Rightarrow>
             res_bind (class_scores_of (json_get raw ''class_scores'')) (\<lambda>class_scores.
             res_bind (maximum_score_of (json_get raw ''maximum_score'')) (\<lambda>maximum_score.
             Ok \<lparr>va_event_id = json_str (json_get raw ''event_id''), va_event_version = json_str event_version,
                 va_asset_id = c # cs, va_source_timestamp = source_timestamp,
                 va_transition_type = json_str transition, va_from_state = from_state, va_to_state = to_state,
                 va_fault_class = fault_class,
                 va_diagnosed_class = json_str (json_get raw ''diagnosed_class''),
                 va_evidence_items = evidence,
                 va_model_system_version = json_str (json_get raw ''model_system_version''),
                 va_model_hash = json_str (json_get raw ''model_hash''),
                 va_policy_hash = json_str (json_get raw ''policy_hash''),
                 va_feature_schema_version = json_str (json_get raw ''feature_schema_version''),
                 va_class_scores = class_scores, va_maximum_score = maximum_score\<rparr>))
         | _ \<Rightarrow> Err (malformed_scores ''evidence must be a list'')))
     | _ \<Rightarrow> Err (missing_alert_field ''asset_id''))))"

definition ALERT_VALIDATION_ERRORS :: "string list" where
  "ALERT_VALIDATION_ERRORS =
     [''MissingFieldError'', ''UnsupportedEventVersionError'', ''UnsupportedTransitionTypeError'',
      ''MalformedTimestampError'', ''MalformedScoresError'', ''HealthyClassRejectedError'',
      ''MalformedStateError'']"


section \<open>From the worker to the bridge\<close>

lemma dec_digits_chars: "c \<in> set (dec_digits n) \<Longrightarrow> of_char c \<in> {48..57::nat}"
proof (induction n rule: dec_digits.induct)
  case (1 n)
  have "(of_char (char_of (48 + nat k)) :: nat) \<in> {48..57}" if "k < 10" for k :: int
    using that by (simp only: of_char_of) auto
  with 1 show ?case by (subst (asm) (2) dec_digits.simps) (auto split: if_splits)
qed

lemma isoformat_no_Z: "CHR ''Z'' \<notin> set (isoformat t)"
proof -
  have "CHR ''Z'' \<notin> set (int_str n)" for n
    using dec_digits_chars [of "CHR ''Z''"] by (auto simp: int_str_def)
  then show ?thesis
    by (simp add: isoformat_def Let_def two_digits_def padded_def split: prod.split)
qed

lemma replace_char_id: "a \<notin> set s \<Longrightarrow> replace_char a b s = s"
  by (induction s) (auto simp: replace_char_def)

lemma sorted_by_map: "sorted_by f (map g xs) = map g (sorted_by (f \<circ> g) xs)"
proof -
  have "insort_key f (g x) (map g ys) = map g (insort_key (f \<circ> g) x ys)" for x ys
    by (induction ys) auto
  then show ?thesis by (induction xs) (auto simp: sorted_by_def)
qed

lemma map_of_sorted_by:
  assumes "distinct (map fst kvs)"
  shows "map_of (sorted_by fst kvs) = map_of kvs"
  using assms by (simp add: map_of_inject_set distinct_map_sorted_by)

lemma map_of_sort_keys:
  assumes "distinct (map fst kvs)"
  shows "map_of (sorted_by fst (map (\<lambda>(k, v). (k, sort_keys v)) kvs)) k = map_option sort_keys (map_of kvs k)"
  using assms by (subst map_of_sorted_by) (auto simp: comp_def case_prod_beta map_of_map)

lemma sort_keys_object:
  assumes "distinct (map fst kvs)"
  shows "json_get (sort_keys (JObj kvs)) name = (case map_of kvs name of None \<Rightarrow> JNull | Some v \<Rightarrow> sort_keys v)"
    and "present_field missing (sort_keys (JObj kvs)) name =
      (case map_of kvs name of None \<Rightarrow> Err (missing name) | Some v \<Rightarrow> if v = JNull then Err (missing name) else Ok ())"
proof -
  have "sort_keys v = JNull \<longleftrightarrow> v = JNull" for v by (cases v) auto
  then show "json_get (sort_keys (JObj kvs)) name = (case map_of kvs name of None \<Rightarrow> JNull | Some v \<Rightarrow> sort_keys v)"
    "present_field missing (sort_keys (JObj kvs)) name =
      (case map_of kvs name of None \<Rightarrow> Err (missing name) | Some v \<Rightarrow> if v = JNull then Err (missing name) else Ok ())"
    by (auto simp: json_get_def present_field_def map_of_sort_keys [OF assms] split: option.splits json.splits)
qed

lemma class_scores_of_sorted:
  assumes "d \<noteq> []"
  shows "class_scores_of (sort_keys (scores_json d)) = Ok (sorted_by fst d)"
proof -
  let ?f = "\<lambda>(k, v). (k, JFloat v)" and ?ys = "sorted_by fst d"
  have all: "res_map (\<lambda>(k, v). res_bind (alert_score a b v) (\<lambda>x. Ok (k, x))) (map ?f ys) = Ok ys"
    for a b and ys :: "(string, pyfloat) dict"
    by (induction ys) (auto simp: alert_score_def)
  have "sort_keys (scores_json d) = JObj (map ?f ?ys)"
    by (simp add: scores_json_def sorted_by_map comp_def case_prod_beta)
  moreover have "class_scores_of (JObj (map ?f ys)) = Ok ys" if "ys \<noteq> []" for ys
  proof -
    from that obtain y zs where y: "map ?f ys = y # zs" by (cases ys) simp_all
    show ?thesis using all [of _ _ ys] unfolding y by (simp add: class_scores_of_def)
  qed
  moreover have "?ys \<noteq> []" using assms by (metis length_0_conv length_sorted_by)
  ultimately show ?thesis by metis
qed

text \<open>What the bridge makes of a transition event of a class \<open>c\<close> that arrives intact.\<close>

definition delivered :: "FaultAlertTransitionEvent \<Rightarrow> string \<Rightarrow> ValidatedAlertTransition" where
  "delivered te c =
     \<lparr>va_event_id = ft_event_id te, va_event_version = ''v1'', va_asset_id = ft_asset_id te,
      va_source_timestamp = ft_source_timestamp te, va_transition_type = ft_transition_type te,
      va_from_state = ft_from_state te, va_to_state = ft_to_state te, va_fault_class = c,
      va_diagnosed_class = the (ft_diagnosed_class te),
      va_evidence_items = map (\<lambda>item. sort_keys (evidence_item_json item)) (ft_evidence te),
      va_model_system_version = the (ft_model_system_version te), va_model_hash = the (ft_model_hash te),
      va_policy_hash = the (ft_policy_hash te), va_feature_schema_version = the (ft_feature_schema_version te),
      va_class_scores = sorted_by fst (the (ft_class_scores te)), va_maximum_score = the (ft_maximum_score te)\<rparr>"

definition scored :: "FaultAlertTransitionEvent \<Rightarrow> bool" where
  "scored te \<longleftrightarrow>
     ft_diagnosed_class te \<noteq> None \<and> ft_model_system_version te \<noteq> None \<and> ft_model_hash te \<noteq> None \<and>
     ft_policy_hash te \<noteq> None \<and> ft_feature_schema_version te \<noteq> None \<and>
     (\<exists>d. ft_class_scores te = Some d \<and> d \<noteq> []) \<and>
     (\<exists>x. ft_maximum_score te = Some x \<and> 0 \<le> x \<and> x \<le> 1)"

lemma extract_confirmed:
  assumes "(if ty = ''cleared'' then from_state else to_state) = confirmed_state c" "c \<noteq> []"
  shows "extract_fault_class ty from_state to_state = Ok c"
  using assms by (simp add: extract_fault_class_def confirmed_state_def CONFIRMED_PREFIX_def Let_def split: if_splits)

lemma transition_arrives:
  assumes "scored te" "ft_asset_id te \<noteq> []" "ft_event_version te = ''v1''"
    and ty: "ft_transition_type te \<in> set SUPPORTED_TRANSITION_TYPES"
    and c: "(if ft_transition_type te = ''cleared'' then ft_from_state te else ft_to_state te) = confirmed_state c"
      "c \<noteq> []" "c \<noteq> ''healthy''"
    and iso: "fromisoformat (isoformat (ft_source_timestamp te)) = Some (ft_source_timestamp te)"
  shows "validate_alert_transition fromisoformat (sort_keys (transition_json te)) = Ok (delivered te c)"
proof -
  let ?raw = "sort_keys (JObj (transition_fields te))"
  have dist: "distinct (map fst (transition_fields te))" by (simp add: transition_fields_def)
  note obj = sort_keys_object [OF dist]
  from assms(1) obtain dc sv mh ph fv d x where f: "ft_diagnosed_class te = Some dc"
      "ft_model_system_version te = Some sv" "ft_model_hash te = Some mh" "ft_policy_hash te = Some ph"
      "ft_feature_schema_version te = Some fv" "ft_class_scores te = Some d" "ft_maximum_score te = Some x"
    and d: "d \<noteq> []" and x: "0 \<le> x" "x \<le> 1"
    unfolding scored_def by blast
  have "present_field missing_alert_field ?raw n = Ok ()" if "n \<in> set REQUIRED_ALERT_FIELDS" for n
    using that unfolding obj by (auto simp: REQUIRED_ALERT_FIELDS_def transition_fields_def f opt_json_def scores_json_def)
  then have present: "\<exists>u. res_map (present_field missing_alert_field ?raw) REQUIRED_ALERT_FIELDS = Ok u"
    by (intro res_map_total) blast
  have get: "json_get ?raw ''event_version'' = JStr ''v1''" "json_get ?raw ''transition_type'' = JStr (ft_transition_type te)"
    "json_get ?raw ''asset_id'' = JStr (ft_asset_id te)"
    "json_get ?raw ''source_timestamp'' = JStr (isoformat (ft_source_timestamp te))"
    "json_get ?raw ''from_state'' = JStr (ft_from_state te)" "json_get ?raw ''to_state'' = JStr (ft_to_state te)"
    "json_get ?raw ''evidence'' = JList (map (\<lambda>item. sort_keys (evidence_item_json item)) (ft_evidence te))"
    "json_get ?raw ''class_scores'' = sort_keys (scores_json d)" "json_get ?raw ''maximum_score'' = JFloat x"
    "json_get ?raw ''event_id'' = JStr (ft_event_id te)" "json_get ?raw ''diagnosed_class'' = JStr dc"
    "json_get ?raw ''model_system_version'' = JStr sv" "json_get ?raw ''model_hash'' = JStr mh"
    "json_get ?raw ''policy_hash'' = JStr ph" "json_get ?raw ''feature_schema_version'' = JStr fv"
    unfolding obj by (simp_all add: transition_fields_def f opt_json_def assms(3) comp_def)
  have time: "parse_alert_timestamp fromisoformat (JStr (isoformat (ft_source_timestamp te))) = Ok (ft_source_timestamp te)"
    by (simp add: parse_alert_timestamp_def replace_char_id isoformat_no_Z iso)
  have max: "maximum_score_of (JFloat x) = Ok x" using x by (simp add: maximum_score_of_def alert_score_def)
  obtain a as where asset: "ft_asset_id te = a # as" using assms(2) by (cases "ft_asset_id te") auto
  have str: "json_str (JStr s) = s" for s by (simp add: json_str_def)
  have ver: "''v1'' \<in> set SUPPORTED_INPUT_EVENT_VERSIONS" by (simp add: SUPPORTED_INPUT_EVENT_VERSIONS_def)
  from present obtain u where u: "res_map (present_field missing_alert_field ?raw) REQUIRED_ALERT_FIELDS = Ok u" ..
  show ?thesis
    unfolding validate_alert_transition_def transition_json_def u get asset
    by (simp add: in_frozenset_def ver ty str time extract_confirmed [OF c(1,2)] c(3) max
        class_scores_of_sorted [OF d] delivered_def f asset del: sort_keys.simps(2))
qed


text \<open>A result that carries an alert event is a scored one.\<close>

lemma score_row_scores:
  assumes "score_row system s ts t row = (Ok r, s')"
  shows "\<exists>d x v i. ir_class_probabilities r = Some d \<and> ir_maximum_probability r = Some x \<and>
    zip_classes (pf_class_order system) (pf_predict_proba system v) = Ok d \<and>
    np_argmax (pf_predict_proba system v) = Ok i \<and> x = pf_predict_proba system v ! i \<and>
    ir_diagnosed_class r \<noteq> None \<and> ir_model_system_version r \<noteq> None \<and> ir_model_hash r \<noteq> None \<and>
    ir_policy_hash r \<noteq> None \<and> ir_feature_schema_version r \<noteq> None \<and> ir_asset_id r \<noteq> []"
  using assms
  by (auto simp: score_row_def Let_def res_bind_Ok_iff check_result_Ok blank_result_def split: sum.splits) blast

lemma session_valid_scored:
  assumes "session_ingest system s x = (Ok r, s')" "ir_status r = VALID_PREDICTION"
  shows "\<exists>s1 ts t row. score_row system s1 ts t row = (Ok r, s') \<and> fs_machine_state s1 = fs_machine_state s"
proof -
  have warm: "check_result ((blank_result WARMING_UP k ts)\<lparr>ir_samples_available := a, ir_samples_required := b\<rparr>) = Ok r \<Longrightarrow>
      ir_status r \<noteq> VALID_PREDICTION" for k ts a b
    by (auto simp: check_result_Ok blank_result_def)
  have rej: "reject_row system s1 ts t row = (Ok r, s2) \<Longrightarrow> ir_status r \<noteq> VALID_PREDICTION" for s1 ts t row s2
    by (auto simp: reject_row_def check_result_Ok blank_result_def split: sum.splits)
  from assms warm rej show ?thesis
    unfolding session_ingest_def Let_def
    by (auto split: if_splits sum.splits prod.splits option.splits) (fastforce+)
qed

lemma session_event_valid:
  assumes "session_ingest system s x = (Ok r, s')" "ir_alert_event r = Some e"
  shows "ir_status r = VALID_PREDICTION"
proof -
  have warm: "check_result ((blank_result WARMING_UP k ts)\<lparr>ir_samples_available := a, ir_samples_required := b\<rparr>) = Ok r \<Longrightarrow>
      ir_alert_event r = None" for k ts a b
    by (auto simp: check_result_Ok blank_result_def)
  have rej: "reject_row system s1 ts t row = (Ok r, s2) \<Longrightarrow> ir_alert_event r = None" for s1 ts t row s2
    by (auto simp: reject_row_def check_result_Ok blank_result_def split: sum.splits)
  have sc: "score_row system s1 ts t row = (Ok r, s2) \<Longrightarrow> ir_status r = VALID_PREDICTION" for s1 ts t row s2
    by (auto simp: score_row_def Let_def res_bind_Ok_iff check_result_Ok blank_result_def split: sum.splits)
  from assms warm rej sc show ?thesis
    unfolding session_ingest_def Let_def
    by (auto split: if_splits sum.splits prod.splits option.splits) (blast+)
qed

lemma probabilities_scored:
  assumes unit_range: "\<And>v p. p \<in> set (pf_predict_proba system v) \<Longrightarrow> 0 \<le> p \<and> p \<le> 1"
    and d: "zip_classes (pf_class_order system) (pf_predict_proba system v) = Ok d"
    and i: "np_argmax (pf_predict_proba system v) = Ok i"
  shows "d \<noteq> []" "0 \<le> pf_predict_proba system v ! i" "pf_predict_proba system v ! i \<le> 1"
proof -
  have "pf_predict_proba system v \<noteq> []" using i by auto
  then have "i < length (pf_predict_proba system v)" using np_argmax_bound i by (metis sum.inject(2))
  then show "d \<noteq> []" "0 \<le> pf_predict_proba system v ! i" "pf_predict_proba system v ! i \<le> 1"
    using d unit_range [OF nth_mem]
    by (auto simp: zip_classes_def zip_eq_Nil_iff split: if_splits intro!: dict_sets_nonempty)
qed


text \<open>The state an asset's consumers know is healthy or a confirmed class other than healthy.\<close>

lemma board_state:
  assumes "\<forall>k s. map_of manager k = Some s \<longrightarrow> machine_wf config (fs_machine_state s)"
    and "alert_board manager k = confirmed_state c"
  shows "c \<noteq> HEALTHY_STATE"
proof -
  have "machine_wf config m \<Longrightarrow> ms_state m = confirmed_state c \<Longrightarrow> c \<noteq> HEALTHY_STATE" for m
    by (auto simp: machine_wf_def split: option.splits)
  with assms show ?thesis by (auto simp: alert_board_def split: option.splits)
qed

text \<open>The event class of a manager's transition, and why its state names it.\<close>

lemma transition_class:
  assumes run: "manager_ingest system manager x = (Ok r, manager')"
    and wf: "\<forall>k s. map_of manager k = Some s \<longrightarrow> machine_wf (pf_alert_policy_config system) (fs_machine_state s)"
    and e: "ir_alert_event r = Some e"
    and ty: "dict_item TRANSITION_TYPE_BY_ALERT_EVENT_TYPE (ev_type e) = Ok ty"
  obtains c where "ev_class e = Some c" "c \<noteq> HEALTHY_STATE" "ty \<in> set SUPPORTED_TRANSITION_TYPES"
    "(if ty = ''cleared'' then ev_from e else ev_to e) = confirmed_state c"
proof -
  from manager_ingest_moves [OF run wf] e have
    wf': "\<forall>k s. map_of manager' k = Some s \<longrightarrow> machine_wf (pf_alert_policy_config system) (fs_machine_state s)"
    and ok: "event_ok e" and from_b: "ev_from e = alert_board manager (ir_asset_id r)"
    and to_b: "ev_to e = alert_board manager' (ir_asset_id r)"
    by simp_all
  note safe = board_state [OF wf, of "ir_asset_id r", folded from_b] board_state [OF wf', of "ir_asset_id r", folded to_b]
  from ok ty that safe show thesis
    by (auto simp: event_ok_def dict_item_def TRANSITION_TYPE_BY_ALERT_EVENT_TYPE_def SUPPORTED_TRANSITION_TYPES_def)
qed

lemma manager_event_scored:
  assumes "manager_ingest system manager x = (Ok r, manager')" "ir_alert_event r = Some e"
  obtains s s1 s' ts t row where "score_row system s1 ts t row = (Ok r, s')"
proof -
  from assms(1) obtain s s' where "session_ingest system s x = (Ok r, s')"
    by (auto simp: manager_ingest_def split: sum.splits prod.splits)
  with session_valid_scored session_event_valid assms(2) that show thesis by blast
qed

text \<open>
  C18. What the worker publishes the bridge accepts: the transition event of any result of a session
  manager, sent as JSON with sorted keys and decoded again, passes the validation, and the validated
  transition holds the event's identity, asset, time, states and scores and the class that the alert
  state machine moved, which is never \<^verbatim>\<open>healthy\<close>. The classifier's outputs are taken to be between
  0 and 1, the class to have a name, and the ISO parser to read the timestamp back.
\<close>

theorem worker_transitions_are_accepted:
  assumes run: "manager_ingest system manager x = (Ok r, manager')"
    and wf: "\<forall>k s. map_of manager k = Some s \<longrightarrow> machine_wf (pf_alert_policy_config system) (fs_machine_state s)"
    and ev: "build_transition_event uuid5 r now = Ok (Some te)"
    and proba: "\<And>v p. p \<in> set (pf_predict_proba system v) \<Longrightarrow> 0 \<le> p \<and> p \<le> 1"
    and named: "\<And>e. ir_alert_event r = Some e \<Longrightarrow> ev_class e \<noteq> Some []"
    and iso: "fromisoformat (isoformat (ir_timestamp r)) = Some (ir_timestamp r)"
  shows "\<exists>e c. ir_alert_event r = Some e \<and> ev_class e = Some c \<and> c \<noteq> HEALTHY_STATE \<and>
    validate_alert_transition fromisoformat (sort_keys (transition_json te)) = Ok (delivered te c)"
proof -
  from ev obtain e ty where e: "ir_alert_event r = Some e"
    and ty: "dict_item TRANSITION_TYPE_BY_ALERT_EVENT_TYPE (ev_type e) = Ok ty"
    and te: "te = transition_event uuid5 r now e ty"
    by (auto simp: build_transition_event_def res_bind_Ok_iff split: option.splits)
  from transition_class [OF run wf e ty] obtain c where c: "ev_class e = Some c" "c \<noteq> HEALTHY_STATE"
    "ty \<in> set SUPPORTED_TRANSITION_TYPES" "(if ty = ''cleared'' then ev_from e else ev_to e) = confirmed_state c" .
  from manager_event_scored [OF run e] obtain s s1 s' ts t row where "score_row system s1 ts t row = (Ok r, s')" .
  from score_row_scores [OF this] obtain d v i where r: "ir_class_probabilities r = Some d"
    "ir_maximum_probability r = Some (pf_predict_proba system v ! i)"
    "zip_classes (pf_class_order system) (pf_predict_proba system v) = Ok d" "np_argmax (pf_predict_proba system v) = Ok i"
    "ir_diagnosed_class r \<noteq> None" "ir_model_system_version r \<noteq> None" "ir_model_hash r \<noteq> None"
    "ir_policy_hash r \<noteq> None" "ir_feature_schema_version r \<noteq> None" "ir_asset_id r \<noteq> []" by blast
  have "scored te" using r(1,2,5-9) probabilities_scored [OF proba r(3,4)]
    by (simp add: scored_def te transition_event_def)
  then have "validate_alert_transition fromisoformat (sort_keys (transition_json te)) = Ok (delivered te c)"
    using r(10) c named [OF e] iso
    by (intro transition_arrives)
       (auto simp: te transition_event_def INPUT_EVENT_VERSION_def HEALTHY_STATE_def split: if_splits)
  with e c show ?thesis by blast
qed


definition demo_warm :: FaultInferenceSession where
  "demo_warm = \<lparr>fs_asset_id = ''stack-1'',
     fs_history = (\<lambda>m. take_last LONGEST_WINDOW_SAMPLES (full_series (take 11 demo_stream) m)),
     fs_sample_count = 11, fs_last_timestamp = Some 10, fs_machine_state = initial_machine\<rparr>"

lemma demo_first_alert:
  obtains r manager' e where
    "manager_ingest demo_system [(''stack-1'', demo_warm)] (demo_sample 11) = (Ok r, manager')"
    "ir_alert_event r = Some e" "ev_type e = ''new_alert''" "ev_class e = Some ''leak''"
proof -
  let ?xs = "take 11 demo_stream"
  have xs: "?xs @ [demo_sample 11] = demo_stream" "length ?xs = 11" "last ?xs = demo_sample 10" "?xs \<noteq> []"
    by (simp_all add: demo_stream_def take_map last_map take_upt upt_rec)
  have holds: "session_holds (pf_alert_policy_config demo_system) ''stack-1'' ?xs demo_warm"
    using xs(2-4) by (simp add: session_holds_def demo_warm_def machine_wf_initial) (simp add: demo_sample_def)
  have x: "complete_for ''stack-1'' (demo_sample 11)" "ts_timestamp (last ?xs) < ts_timestamp (demo_sample 11)"
    using demo_stream_ok in_set_conv_decomp [of "demo_sample 11" demo_stream] xs(1)
    unfolding stream_ok_def xs(3) by (metis, simp add: demo_sample_def)
  have "int (length ?xs) + 1 < clock_bound" unfolding xs(2) by (simp add: clock_bound_def)
  from session_ingest_Ok [OF demo_system_wf _ holds x this] obtain r s' where
    run: "session_ingest demo_system demo_warm (demo_sample 11) = (Ok r, s')"
    and st: "ir_status r = expected_status demo_stream" unfolding xs(1) by blast
  have "rejected_ratios (sample_value (demo_sample 11)) = []" by code_simp
  then have "ir_status r = VALID_PREDICTION"
    using st xs by (simp add: expected_status_def demo_stream_def LONGEST_WINDOW_SAMPLES_def last_map)
  from session_valid_scored [OF run this] obtain s1 ts t row where
    sc: "score_row demo_system s1 ts t row = (Ok r, s')" and "fs_machine_state s1 = initial_machine"
    by (auto simp: demo_warm_def)
  moreover have "step_state_machine demo_alert_config demo_classes initial_machine (t, [1/4, 3/4, 0], True) =
    Ok (enter_confirmed ''leak'', confirmed_state ''leak'', Some \<lparr>ev_elapsed = t, ev_type = ''new_alert'', ev_from = HEALTHY_STATE,
       ev_to = confirmed_state ''leak'', ev_class = Some ''leak''\<rparr>)"
    by code_simp
  ultimately have "ir_alert_event r = Some \<lparr>ev_elapsed = t, ev_type = ''new_alert'', ev_from = HEALTHY_STATE,
       ev_to = confirmed_state ''leak'', ev_class = Some ''leak''\<rparr>"
    by (auto simp: score_row_def Let_def res_bind_Ok_iff check_result_Ok blank_result_def demo_system_def
        split: sum.splits)
  moreover have "manager_ingest demo_system [(''stack-1'', demo_warm)] (demo_sample 11) =
      (Ok r, dict_set ''stack-1'' s' [(''stack-1'', demo_warm)])"
    using run by (simp add: manager_ingest_def session_for_def demo_sample_def)
  ultimately show thesis using that by simp
qed

theorem worker_transitions_are_accepted_witness:
  "\<exists>r manager' te. manager_ingest demo_system [(''stack-1'', demo_warm)] (demo_sample 11) = (Ok r, manager') \<and>
     build_transition_event id r 5 = Ok (Some te) \<and>
     validate_alert_transition (\<lambda>s. Some (ir_timestamp r)) (sort_keys (transition_json te)) = Ok (delivered te ''leak'')"
proof -
  obtain r manager' e where run: "manager_ingest demo_system [(''stack-1'', demo_warm)] (demo_sample 11) = (Ok r, manager')"
    and e: "ir_alert_event r = Some e" "ev_type e = ''new_alert''" "ev_class e = Some ''leak''"
    using demo_first_alert .
  then obtain te where te: "build_transition_event id r 5 = Ok (Some te)"
    by (simp add: build_transition_event_def dict_item_def TRANSITION_TYPE_BY_ALERT_EVENT_TYPE_def)
  have wf: "\<forall>k s. map_of [(''stack-1'', demo_warm)] k = Some s \<longrightarrow>
      machine_wf (pf_alert_policy_config demo_system) (fs_machine_state s)"
    by (auto simp: demo_warm_def machine_wf_initial)
  have "\<exists>e c. ir_alert_event r = Some e \<and> ev_class e = Some c \<and> c \<noteq> HEALTHY_STATE \<and>
    validate_alert_transition (\<lambda>s. Some (ir_timestamp r)) (sort_keys (transition_json te)) = Ok (delivered te c)"
    by (rule worker_transitions_are_accepted [OF run wf te]) (use e in \<open>auto simp: demo_system_def\<close>)
  then show ?thesis using run te e by auto
qed

end
