(* ===== verification/Outbox.thy ===== *)
theory Outbox
  imports Repositories Telemetry_Assembly
begin

text \<open>
  The durable outbox of the backend: domain events and their deserialisation, the in-process event
  bus, the mapping to integration events and the dispatcher
  (\<^verbatim>\<open>src/backend/app/application/outbox_dispatcher.py\<close>, \<^verbatim>\<open>integration_event_mapping.py\<close>,
  \<^verbatim>\<open>events/domain_events.py\<close>, \<^verbatim>\<open>events/event_bus.py\<close>), and the handler that records the investigation
  timeline (\<^verbatim>\<open>events/handlers/timeline_event_handler.py\<close>). A table is the list of its rows; a
  committed unit of work is the new table, a rolled back one the old table. The handlers of the
  cache, the monitoring stream and the integration publisher are parameters acting on an abstract
  part of the state.
\<close>

section \<open>Domain events\<close>

datatype BackendEvent =
    ObservationCreated string string datetime
  | ReasoningCompleted string string datetime
  | AiFaultInvestigationUpdated string string string string string datetime
  | ReasoningStarted string string datetime
  | RecommendationUpdated string string "string option" string datetime
  | TrendChanged string string string string int int datetime
  | HealthChanged string string string string int datetime
  | RiskChanged string string string string int datetime
  | NotificationCreated string string string string string string string string datetime datetime
  | InvestigationTransitionRecorded string string string string string string datetime "string option" datetime

record OutboxEvent =
  ox_id :: string
  ox_event_type :: string
  ox_payload :: "(string, json) dict"
  ox_created_at :: datetime
  ox_dispatched_at :: "datetime option"

section \<open>Deserialisation\<close>

text \<open>\<^verbatim>\<open>int(text)\<close> of an ASCII text: spaces around, a sign, digits with single underscores between.\<close>

definition int_body :: "string \<Rightarrow> int option" where
  "int_body s =
     (let digit = (\<lambda>c. c \<in> set ''0123456789'')
      in if s \<noteq> [] \<and> digit (hd s) \<and> digit (last s) \<and> (\<forall>c \<in> set s. digit c \<or> c = CHR ''_'') \<and> \<not> py_in ''__'' s
         then Some (digits_value (filter digit s)) else None)"

definition int_of_text :: "string \<Rightarrow> int option" where
  "int_of_text s =
     (case py_strip s of
        [] \<Rightarrow> None
      | c # cs \<Rightarrow> if c = CHR ''-'' then map_option uminus (int_body cs)
                  else if c = CHR ''+'' then int_body cs else int_body (c # cs))"

definition py_int :: "json \<Rightarrow> int result" where
  "py_int j =
     (case j of
        JInt i \<Rightarrow> Ok i
      | JBool b \<Rightarrow> Ok (if b then 1 else 0)
      | JFloat x \<Rightarrow> Ok (if x < 0 then - \<lfloor>- x\<rfloor> else \<lfloor>x\<rfloor>)
      | JNonFinite s \<Rightarrow> if s = ''nan'' then Err (ValueError ''cannot convert float NaN to integer'') else Err OverflowError
      | JStr s \<Rightarrow>
          (case int_of_text s of
             None \<Rightarrow> Err (ValueError (''invalid literal for int() with base 10: '' @ py_repr s))
           | Some i \<Rightarrow> Ok i)
      | _ \<Rightarrow> Err (TypeError ''int() argument must be a string, a bytes-like object or a real number''))"

definition payload_str :: "(string, json) dict \<Rightarrow> string \<Rightarrow> string result" where
  "payload_str payload k = res_bind (dict_item payload k) (\<lambda>v. Ok (json_str v))"

definition parse_datetime :: "(string \<Rightarrow> datetime option) \<Rightarrow> string \<Rightarrow> datetime result" where
  "parse_datetime fromisoformat s =
     (case fromisoformat s of
        None \<Rightarrow> Err (ValueError (''Invalid isoformat string: '' @ py_repr s))
      | Some t \<Rightarrow> Ok t)"

definition payload_time :: "(string \<Rightarrow> datetime option) \<Rightarrow> (string, json) dict \<Rightarrow> string \<Rightarrow> datetime result" where
  "payload_time fromisoformat payload k = res_bind (payload_str payload k) (parse_datetime fromisoformat)"

text \<open>\<^verbatim>\<open>int(payload.get(k, 0))\<close> and \<^verbatim>\<open>payload.get(k)\<close> as an optional text.\<close>

definition payload_int :: "(string, json) dict \<Rightarrow> string \<Rightarrow> int result" where
  "payload_int payload k = py_int (case map_of payload k of None \<Rightarrow> JInt 0 | Some v \<Rightarrow> v)"

definition payload_opt :: "(string, json) dict \<Rightarrow> string \<Rightarrow> string option" where
  "payload_opt payload k =
     (case map_of payload k of None \<Rightarrow> None | Some JNull \<Rightarrow> None | Some v \<Rightarrow> Some (json_str v))"

definition deserialize_domain_event ::
    "(string \<Rightarrow> datetime option) \<Rightarrow> string \<Rightarrow> (string, json) dict \<Rightarrow> BackendEvent option result" where
  "deserialize_domain_event fromisoformat event_type payload =
     (let text = payload_str payload; time = payload_time fromisoformat payload; number = payload_int payload in
      if event_type = ''ObservationCreated'' then
        res_bind (text ''asset_id'') (\<lambda>a. res_bind (text ''observation_id'') (\<lambda>oid.
        res_bind (time ''timestamp'') (\<lambda>t. Ok (Some (ObservationCreated a oid t)))))
      else if event_type = ''ReasoningCompleted'' then
        res_bind (text ''asset_id'') (\<lambda>a. res_bind (text ''run_id'') (\<lambda>r.
        res_bind (time ''timestamp'') (\<lambda>t. Ok (Some (ReasoningCompleted a r t)))))
      else if event_type = ''ReasoningStarted'' then
        res_bind (text ''asset_id'') (\<lambda>a. res_bind (text ''run_id'') (\<lambda>r.
        res_bind (time ''timestamp'') (\<lambda>t. Ok (Some (ReasoningStarted a r t)))))
      else if event_type = ''RecommendationUpdated'' then
        res_bind (text ''asset_id'') (\<lambda>a. res_bind (text ''run_id'') (\<lambda>r.
        res_bind (text ''new_recommendation'') (\<lambda>new. res_bind (time ''timestamp'') (\<lambda>t.
        Ok (Some (RecommendationUpdated a r (payload_opt payload ''previous_recommendation'') new t))))))
      else if event_type = ''TrendChanged'' then
        res_bind (text ''asset_id'') (\<lambda>a. res_bind (text ''run_id'') (\<lambda>r.
        res_bind (text ''previous_direction'') (\<lambda>old. res_bind (text ''new_direction'') (\<lambda>new.
        res_bind (number ''stability_score'') (\<lambda>s. res_bind (number ''volatility_score'') (\<lambda>v.
        res_bind (time ''timestamp'') (\<lambda>t. Ok (Some (TrendChanged a r old new s v t)))))))))
      else if event_type = ''HealthChanged'' then
        res_bind (text ''asset_id'') (\<lambda>a. res_bind (text ''run_id'') (\<lambda>r.
        res_bind (text ''previous_health_status'') (\<lambda>old. res_bind (text ''new_health_status'') (\<lambda>new.
        res_bind (number ''health_score'') (\<lambda>h.
        res_bind (time ''timestamp'') (\<lambda>t. Ok (Some (HealthChanged a r old new h t))))))))
      else if event_type = ''RiskChanged'' then
        res_bind (text ''asset_id'') (\<lambda>a. res_bind (text ''run_id'') (\<lambda>r.
        res_bind (text ''previous_risk_level'') (\<lambda>old. res_bind (text ''new_risk_level'') (\<lambda>new.
        res_bind (number ''health_score'') (\<lambda>h.
        res_bind (time ''timestamp'') (\<lambda>t. Ok (Some (RiskChanged a r old new h t))))))))
      else if event_type = ''NotificationCreated'' then
        res_bind (text ''asset_id'') (\<lambda>a. res_bind (text ''run_id'') (\<lambda>r.
        res_bind (text ''notification_id'') (\<lambda>n. res_bind (text ''recommendation_id'') (\<lambda>rec.
        res_bind (text ''severity'') (\<lambda>sev. res_bind (text ''status'') (\<lambda>st.
        res_bind (text ''title'') (\<lambda>title. res_bind (text ''message'') (\<lambda>msg.
        res_bind (time ''created_at'') (\<lambda>c. res_bind (time ''timestamp'') (\<lambda>t.
        Ok (Some (NotificationCreated a r n rec sev st title msg c t))))))))))))
      else if event_type = ''InvestigationTransitionRecorded'' then
        res_bind (text ''asset_id'') (\<lambda>a. res_bind (text ''recommendation_id'') (\<lambda>rec.
        res_bind (text ''transition_id'') (\<lambda>tr. res_bind (text ''status'') (\<lambda>st.
        res_bind (text ''actor_id'') (\<lambda>act. res_bind (text ''actor_display_name'') (\<lambda>name.
        res_bind (time ''occurred_at'') (\<lambda>occ. res_bind (time ''timestamp'') (\<lambda>t.
        Ok (Some (InvestigationTransitionRecorded a rec tr st act name occ (payload_opt payload ''notes'') t))))))))))
      else if event_type = ''AiFaultInvestigationUpdated'' then
        res_bind (text ''asset_id'') (\<lambda>a. res_bind (text ''investigation_id'') (\<lambda>i.
        res_bind (text ''diagnosed_fault_class'') (\<lambda>c. res_bind (text ''investigation_status'') (\<lambda>st.
        res_bind (text ''alert_transition_type'') (\<lambda>ty. res_bind (time ''timestamp'') (\<lambda>t.
        Ok (Some (AiFaultInvestigationUpdated a i c st ty t))))))))
      else Ok None)"

section \<open>Integration events\<close>

record IntegrationEvent =
  ie_id :: string
  ie_type :: string
  ie_occurred_at :: datetime
  ie_payload :: "(string, json) dict"

definition opt_str :: "string option \<Rightarrow> json" where
  "opt_str s = (case s of None \<Rightarrow> JNull | Some v \<Rightarrow> JStr v)"

definition operational_state_payload :: "BackendEvent \<Rightarrow> (string, json) dict option" where
  "operational_state_payload ev =
     (let base = (\<lambda>a r t. [(''asset_id'', JStr a), (''run_id'', JStr r), (''timestamp'', JStr (isoformat t))])
      in case ev of
        HealthChanged a r old new h t \<Rightarrow> Some (base a r t @
          [(''change_type'', JStr ''health_status''), (''previous_health_status'', JStr old),
           (''new_health_status'', JStr new), (''health_score'', JInt h)])
      | RiskChanged a r old new h t \<Rightarrow> Some (base a r t @
          [(''change_type'', JStr ''risk_level''), (''previous_risk_level'', JStr old),
           (''new_risk_level'', JStr new), (''health_score'', JInt h)])
      | TrendChanged a r old new s v t \<Rightarrow> Some (base a r t @
          [(''change_type'', JStr ''trend_direction''), (''previous_direction'', JStr old),
           (''new_direction'', JStr new), (''stability_score'', JInt s), (''volatility_score'', JInt v)])
      | RecommendationUpdated a r old new t \<Rightarrow> Some (base a r t @
          [(''change_type'', JStr ''recommendation''), (''previous_recommendation'', opt_str old),
           (''new_recommendation'', JStr new)])
      | _ \<Rightarrow> None)"

definition event_timestamp :: "BackendEvent \<Rightarrow> datetime" where
  "event_timestamp ev =
     (case ev of
        ObservationCreated _ _ t \<Rightarrow> t
      | ReasoningCompleted _ _ t \<Rightarrow> t
      | AiFaultInvestigationUpdated _ _ _ _ _ t \<Rightarrow> t
      | ReasoningStarted _ _ t \<Rightarrow> t
      | RecommendationUpdated _ _ _ _ t \<Rightarrow> t
      | TrendChanged _ _ _ _ _ _ t \<Rightarrow> t
      | HealthChanged _ _ _ _ _ t \<Rightarrow> t
      | RiskChanged _ _ _ _ _ t \<Rightarrow> t
      | NotificationCreated _ _ _ _ _ _ _ _ _ t \<Rightarrow> t
      | InvestigationTransitionRecorded _ _ _ _ _ _ _ _ t \<Rightarrow> t)"

text \<open>The type and payload of the integration event, for the events that have one.\<close>

definition integration_body :: "BackendEvent \<Rightarrow> (string \<times> (string, json) dict) option" where
  "integration_body ev =
     (case ev of
        ReasoningCompleted a r t \<Rightarrow> Some (''DigitalTwinUpdated'',
          [(''asset_id'', JStr a), (''run_id'', JStr r), (''timestamp'', JStr (isoformat t))])
      | NotificationCreated a r n rec sev st title msg c t \<Rightarrow> Some (''NotificationRaised'',
          [(''asset_id'', JStr a), (''run_id'', JStr r), (''notification_id'', JStr n),
           (''recommendation_id'', JStr rec), (''severity'', JStr sev), (''status'', JStr st),
           (''title'', JStr title), (''message'', JStr msg), (''created_at'', JStr (isoformat c)),
           (''timestamp'', JStr (isoformat t))])
      | InvestigationTransitionRecorded a rec tr st act name occ notes t \<Rightarrow> Some (''InvestigationTransitionRecorded'',
          [(''asset_id'', JStr a), (''recommendation_id'', JStr rec), (''transition_id'', JStr tr),
           (''status'', JStr st), (''actor_id'', JStr act), (''actor_display_name'', JStr name),
           (''occurred_at'', JStr (isoformat occ)), (''notes'', opt_str notes),
           (''timestamp'', JStr (isoformat t))])
      | _ \<Rightarrow> map_option (Pair ''OperationalStateChanged'') (operational_state_payload ev))"

definition map_to_integration_event :: "BackendEvent \<Rightarrow> runtime \<Rightarrow> IntegrationEvent option \<times> runtime" where
  "map_to_integration_event ev rt =
     (case integration_body ev of
        None \<Rightarrow> (None, rt)
      | Some (ty, payload) \<Rightarrow>
          (let (i, rt') = uuid4 rt
           in (Some \<lparr>ie_id = i, ie_type = ty, ie_occurred_at = event_timestamp ev, ie_payload = payload\<rparr>, rt')))"

section \<open>The timeline\<close>

record TimelineEvent =
  tl_id :: string
  tl_asset_id :: string
  tl_timestamp :: datetime
  tl_event_type :: string
  tl_title :: string
  tl_description :: string
  tl_metadata :: "(string, json) dict"

type_synonym timeline_repo = "(string, TimelineEvent) dict"

definition mk_timeline_event ::
    "string \<Rightarrow> string \<Rightarrow> datetime \<Rightarrow> string \<Rightarrow> string \<Rightarrow> string \<Rightarrow> (string, json) dict \<Rightarrow> TimelineEvent result" where
  "mk_timeline_event i asset ts ty title description metadata =
     construct
       [nonempty_check ''id'' i, nonempty_check ''asset_id'' asset, nonempty_check ''title'' title,
        nonempty_check ''description'' description]
       \<lparr>tl_id = i, tl_asset_id = asset, tl_timestamp = ts, tl_event_type = ty, tl_title = title,
        tl_description = description, tl_metadata = metadata\<rparr>"

definition timeline_save :: "TimelineEvent \<Rightarrow> timeline_repo \<Rightarrow> timeline_repo result" where
  "timeline_save =
     put_new (\<lambda>i. ValueError (''timeline event with id '' @ py_repr i @ '' already exists'')) tl_id"

definition timeline_get :: "timeline_repo \<Rightarrow> string \<Rightarrow> TimelineEvent option" where
  "timeline_get storage i = map_of storage i"

definition EVENT_TYPE_ORDER :: "(string, nat) dict" where
  "EVENT_TYPE_ORDER =
     [(''observation_received'', 0), (''reasoning_started'', 1), (''trend_changed'', 2),
      (''recommendation_updated'', 3), (''notification_created'', 4), (''health_changed'', 5),
      (''risk_changed'', 6), (''reasoning_completed'', 7)]"

definition timeline_key :: "TimelineEvent \<Rightarrow> datetime \<times> nat \<times> string" where
  "timeline_key e =
     (tl_timestamp e, (case map_of EVENT_TYPE_ORDER (tl_event_type e) of None \<Rightarrow> 99 | Some n \<Rightarrow> n), tl_id e)"

definition timeline_list_by_asset :: "timeline_repo \<Rightarrow> string \<Rightarrow> TimelineEvent list" where
  "timeline_list_by_asset storage asset =
     sorted_by timeline_key
       (sorted_by (\<lambda>e. (tl_timestamp e, tl_id e)) (filter (\<lambda>e. tl_asset_id e = asset) (dict_values storage)))"

text \<open>What \<^verbatim>\<open>TimelineEventHandler\<close> writes for an event it is subscribed to, given the new identifier.\<close>

definition changed_text :: "string \<Rightarrow> string \<Rightarrow> string \<Rightarrow> string" where
  "changed_text subject old new = subject @ '' changed from '' @ py_repr old @ '' to '' @ py_repr new @ ''.''"

definition timeline_entry :: "BackendEvent \<Rightarrow> (string \<Rightarrow> TimelineEvent result) option" where
  "timeline_entry ev =
     (case ev of
        ObservationCreated a oid t \<Rightarrow> Some (\<lambda>i. mk_timeline_event i a t ''observation_received''
          ''Observation received'' (''New observation '' @ oid @ '' recorded for the asset.'')
          [(''observation_id'', JStr oid)])
      | ReasoningStarted a r t \<Rightarrow> Some (\<lambda>i. mk_timeline_event i a t ''reasoning_started''
          ''Reasoning started'' (''Reasoning run '' @ r @ '' began for the asset.'') [(''run_id'', JStr r)])
      | ReasoningCompleted a r t \<Rightarrow> Some (\<lambda>i. mk_timeline_event i a t ''reasoning_completed''
          ''Reasoning completed'' (''Reasoning run '' @ r @ '' finished for the asset.'') [(''run_id'', JStr r)])
      | RecommendationUpdated a r old new t \<Rightarrow> Some (\<lambda>i. mk_timeline_event i a t ''recommendation_updated''
          ''Recommendation updated''
          (changed_text ''Recommendation'' (case old of None \<Rightarrow> ''none'' | Some p \<Rightarrow> if p = [] then ''none'' else p) new)
          [(''run_id'', JStr r), (''previous_recommendation'', opt_str old), (''new_recommendation'', JStr new)])
      | TrendChanged a r old new s v t \<Rightarrow> Some (\<lambda>i. mk_timeline_event i a t ''trend_changed''
          ''Trend changed'' (changed_text ''Trend'' old new)
          [(''run_id'', JStr r), (''previous_direction'', JStr old), (''new_direction'', JStr new),
           (''stability_score'', JInt s), (''volatility_score'', JInt v)])
      | HealthChanged a r old new h t \<Rightarrow> Some (\<lambda>i. mk_timeline_event i a t ''health_changed''
          ''Health status changed'' (changed_text ''Health status'' old new)
          [(''run_id'', JStr r), (''previous_health_status'', JStr old), (''new_health_status'', JStr new),
           (''health_score'', JInt h)])
      | RiskChanged a r old new h t \<Rightarrow> Some (\<lambda>i. mk_timeline_event i a t ''risk_changed''
          ''Risk level changed'' (changed_text ''Risk level'' old new)
          [(''run_id'', JStr r), (''previous_risk_level'', JStr old), (''new_risk_level'', JStr new),
           (''health_score'', JInt h)])
      | NotificationCreated a r n rec sev st title msg c t \<Rightarrow> Some (\<lambda>i. mk_timeline_event i a t ''notification_created''
          ''Notification created'' (sev @ '': '' @ title @ ''. Linked recommendation '' @ rec @ ''.'')
          [(''run_id'', JStr r), (''notification_id'', JStr n), (''recommendation_id'', JStr rec),
           (''severity'', JStr sev), (''status'', JStr st), (''title'', JStr title), (''message'', JStr msg),
           (''created_at'', JStr (isoformat c))])
      | InvestigationTransitionRecorded a rec tr st act name occ notes t \<Rightarrow>
          Some (\<lambda>i. mk_timeline_event i a occ ''investigation_transition''
          (''Investigation '' @ py_lower st)
          (name @ '' marked this as '' @ py_lower st @ ''.'' @
           (case notes of None \<Rightarrow> [] | Some txt \<Rightarrow> if txt = [] then [] else '' Notes: '' @ txt))
          [(''recommendation_id'', JStr rec), (''transition_id'', JStr tr), (''status'', JStr st),
           (''actor_id'', JStr act), (''actor_display_name'', JStr name), (''notes'', opt_str notes)])
      | AiFaultInvestigationUpdated _ _ _ _ _ _ \<Rightarrow> None)"


section \<open>The event bus and the dispatcher\<close>

text \<open>
  The state behind the handlers: identifiers, the timeline table and whatever the other handlers
  touch.
\<close>

record 'w backend =
  be_rt :: runtime
  be_timeline :: timeline_repo
  be_world :: 'w

type_synonym 'w handler = "BackendEvent \<Rightarrow> 'w backend \<Rightarrow> unit result \<times> 'w backend"

text \<open>One handler of the timeline; its unit of work is rolled back when it raises.\<close>

definition timeline_handler :: "'w handler" where
  "timeline_handler ev b =
     (case timeline_entry ev of
        None \<Rightarrow> (Ok (), b)
      | Some entry \<Rightarrow>
          (let (i, rt') = uuid4 (be_rt b); b' = b\<lparr>be_rt := rt'\<rparr>
           in case res_bind (entry i) (\<lambda>e. timeline_save e (be_timeline b')) of
                Inl e \<Rightarrow> (Err e, b')
              | Inr timeline' \<Rightarrow> (Ok (), b'\<lparr>be_timeline := timeline'\<rparr>)))"

text \<open>
  The subscriptions of the application: the handlers of the cache and of the monitoring stream for an
  event come before the timeline handler.
\<close>

definition subscribed :: "(BackendEvent \<Rightarrow> 'w handler list) \<Rightarrow> BackendEvent \<Rightarrow> 'w handler list" where
  "subscribed others ev = others ev @ (if timeline_entry ev = None then [] else [timeline_handler])"

fun bus_publish :: "'w handler list \<Rightarrow> BackendEvent \<Rightarrow> 'w backend \<Rightarrow> unit result \<times> 'w backend" where
  "bus_publish [] ev b = (Ok (), b)"
| "bus_publish (h # hs) ev b =
     (case h ev b of
        (Inl e, b') \<Rightarrow> (Err e, b')
      | (Inr _, b') \<Rightarrow> bus_publish hs ev b')"

record 'w OutboxDispatcher =
  od_fromisoformat :: "string \<Rightarrow> datetime option"
  od_handlers :: "BackendEvent \<Rightarrow> 'w handler list"
  od_publisher :: "(IntegrationEvent \<Rightarrow> 'w backend \<Rightarrow> bool result \<times> 'w backend) option"

definition publish_integration_event :: "'w OutboxDispatcher \<Rightarrow> BackendEvent \<Rightarrow> 'w backend \<Rightarrow> bool \<times> 'w backend" where
  "publish_integration_event d ev b =
     (case od_publisher d of
        None \<Rightarrow> (True, b)
      | Some publish \<Rightarrow>
          (case map_to_integration_event ev (be_rt b) of
             (None, rt') \<Rightarrow> (True, b\<lparr>be_rt := rt'\<rparr>)
           | (Some ie, rt') \<Rightarrow>
               (case publish ie (b\<lparr>be_rt := rt'\<rparr>) of
                  (Inl _, b') \<Rightarrow> (False, b')
                | (Inr delivered, b') \<Rightarrow> (delivered, b'))))"

text \<open>The loop over the pending rows: the identifiers of the rows it marks.\<close>

fun dispatch_rows ::
    "'w OutboxDispatcher \<Rightarrow> OutboxEvent list \<Rightarrow> string list \<Rightarrow> 'w backend \<Rightarrow> string list result \<times> 'w backend" where
  "dispatch_rows d [] marked b = (Ok marked, b)"
| "dispatch_rows d (row # rows) marked b =
     (case deserialize_domain_event (od_fromisoformat d) (ox_event_type row) (ox_payload row) of
        Inl e \<Rightarrow> (Err e, b)
      | Inr None \<Rightarrow> dispatch_rows d rows marked b
      | Inr (Some ev) \<Rightarrow>
          (case bus_publish (od_handlers d ev) ev b of
             (Inl e, b1) \<Rightarrow> (Err e, b1)
           | (Inr _, b1) \<Rightarrow>
               (let (delivered, b2) = publish_integration_event d ev b1
                in dispatch_rows d rows (if delivered then marked @ [ox_id row] else marked) b2)))"

definition pending_rows :: "OutboxEvent list \<Rightarrow> OutboxEvent list" where
  "pending_rows table = sorted_by ox_created_at (filter (\<lambda>r. ox_dispatched_at r = None) table)"

text \<open>The marks are committed together at the end; an exception rolls them all back.\<close>

definition outbox_dispatch ::
    "'w OutboxDispatcher \<Rightarrow> OutboxEvent list \<Rightarrow> 'w backend \<Rightarrow> unit result \<times> OutboxEvent list \<times> 'w backend" where
  "outbox_dispatch d table b =
     (let (now, rt') = utc_now (be_rt b)
      in case dispatch_rows d (pending_rows table) [] (b\<lparr>be_rt := rt'\<rparr>) of
           (Inl e, b') \<Rightarrow> (Err e, table, b')
         | (Inr marked, b') \<Rightarrow>
             (Ok (),
              map (\<lambda>r. if ox_id r \<in> set marked then r\<lparr>ox_dispatched_at := Some now\<rparr> else r) table, b'))"

fun outbox_rounds ::
    "nat \<Rightarrow> 'w OutboxDispatcher \<Rightarrow> OutboxEvent list \<Rightarrow> 'w backend \<Rightarrow> OutboxEvent list \<times> 'w backend" where
  "outbox_rounds 0 d table b = (table, b)"
| "outbox_rounds (Suc n) d table b =
     (case outbox_dispatch d table b of (_, table', b') \<Rightarrow> outbox_rounds n d table' b')"

interpretation timeline_store: write_once_store "[]" timeline_get timeline_save tl_id
  unfolding timeline_get_def timeline_save_def by (rule put_new_store)

section \<open>What a dispatch does to the table\<close>

text \<open>An event type the dispatcher knows, and a row it can read.\<close>

definition readable_row :: "'w OutboxDispatcher \<Rightarrow> OutboxEvent \<Rightarrow> bool" where
  "readable_row d r \<longleftrightarrow>
     (\<exists>ev. deserialize_domain_event (od_fromisoformat d) (ox_event_type r) (ox_payload r) = Ok (Some ev))"

definition unknown_row :: "'w OutboxDispatcher \<Rightarrow> OutboxEvent \<Rightarrow> bool" where
  "unknown_row d r \<longleftrightarrow>
     deserialize_domain_event (od_fromisoformat d) (ox_event_type r) (ox_payload r) = Ok None"

lemma row_cases:
  obtains (poisoned) e where
      "deserialize_domain_event (od_fromisoformat d) (ox_event_type r) (ox_payload r) = Err e"
    | (unknown) "unknown_row d r" | (readable) "readable_row d r"
  unfolding unknown_row_def readable_row_def
  by (cases "deserialize_domain_event (od_fromisoformat d) (ox_event_type r) (ox_payload r)") auto

text \<open>Handlers and publisher that never fail, whatever the state.\<close>

definition delivers :: "'w OutboxDispatcher \<Rightarrow> bool" where
  "delivers d \<longleftrightarrow>
     (\<forall>ev h b. h \<in> set (od_handlers d ev) \<longrightarrow> (\<exists>b'. h ev b = (Ok (), b'))) \<and>
     (\<forall>publish ie b. od_publisher d = Some publish \<longrightarrow> (\<exists>b'. publish ie b = (Ok True, b')))"

lemma bus_publish_total:
  "(\<And>h b. h \<in> set hs \<Longrightarrow> \<exists>b'. h ev b = (Ok (), b')) \<Longrightarrow> \<exists>b'. bus_publish hs ev b = (Ok (), b')"
proof (induction hs arbitrary: b)
  case (Cons h hs)
  from Cons.prems [of h b] obtain b1 where "h ev b = (Ok (), b1)" by auto
  with Cons.IH [of b1] Cons.prems show ?case by simp
qed simp

lemma integration_total:
  assumes "delivers d"
  shows "\<exists>b'. publish_integration_event d ev b = (True, b')"
proof (cases "od_publisher d")
  case (Some publish)
  obtain ie rt' where m: "map_to_integration_event ev (be_rt b) = (ie, rt')" by fastforce
  show ?thesis
  proof (cases ie)
    case (Some i)
    from assms \<open>od_publisher d = Some publish\<close> obtain b' where "publish i (b\<lparr>be_rt := rt'\<rparr>) = (Ok True, b')"
      unfolding delivers_def by metis
    with Some m \<open>od_publisher d = Some publish\<close> show ?thesis by (simp add: publish_integration_event_def)
  qed (simp add: publish_integration_event_def m Some)
qed (simp add: publish_integration_event_def)

lemma dispatch_rows_total:
  assumes "delivers d" "\<forall>r \<in> set rows. readable_row d r \<or> unknown_row d r"
  shows "\<exists>b'. dispatch_rows d rows marked b = (Ok (marked @ map ox_id (filter (readable_row d) rows)), b')"
  using assms(2)
proof (induction rows arbitrary: marked b)
  case (Cons r rows)
  show ?case
  proof (cases d r rule: row_cases)
    case readable
    then obtain ev where ev: "deserialize_domain_event (od_fromisoformat d) (ox_event_type r) (ox_payload r) = Ok (Some ev)"
      by (auto simp: readable_row_def)
    obtain b1 where "bus_publish (od_handlers d ev) ev b = (Ok (), b1)"
      using bus_publish_total assms(1) unfolding delivers_def by metis
    moreover obtain b2 where "publish_integration_event d ev b1 = (True, b2)" using integration_total [OF assms(1)] by blast
    ultimately show ?thesis using Cons.IH [of "marked @ [ox_id r]" b2] Cons.prems ev readable by simp
  next
    case unknown
    then have "\<not> readable_row d r" by (simp add: unknown_row_def readable_row_def)
    with unknown Cons.IH [of marked b] Cons.prems show ?thesis by (simp add: unknown_row_def)
  qed (use Cons.prems in \<open>auto simp: readable_row_def unknown_row_def\<close>)
qed simp

lemma dispatch_rows_poisoned:
  assumes "r \<in> set rows" "deserialize_domain_event (od_fromisoformat d) (ox_event_type r) (ox_payload r) = Err e"
  shows "\<exists>e' b'. dispatch_rows d rows marked b = (Err e', b')"
  using assms
proof (induction rows arbitrary: marked b)
  case (Cons row rows)
  then show ?case by (auto split: sum.splits option.splits prod.splits)
qed simp

lemma set_pending_rows: "set (pending_rows table) = {r \<in> set table. ox_dispatched_at r = None}"
  by (simp add: pending_rows_def set_sorted_by)

section \<open>Handlers that only use up identifiers\<close>

definition dispatcher_advances :: "'w OutboxDispatcher option \<Rightarrow> bool" where
  "dispatcher_advances dispatcher \<longleftrightarrow>
     (\<forall>d. dispatcher = Some d \<longrightarrow>
       (\<forall>ev h b r b'. h \<in> set (od_handlers d ev) \<longrightarrow> h ev b = (r, b') \<longrightarrow> env_advances (be_rt b) (be_rt b')) \<and>
       (\<forall>publish ie b r b'. od_publisher d = Some publish \<longrightarrow> publish ie b = (r, b') \<longrightarrow>
          env_advances (be_rt b) (be_rt b')))"

lemma timeline_handler_env: "timeline_handler ev b = (r, b') \<Longrightarrow> env_advances (be_rt b) (be_rt b')"
  using env_advances_uuid4 [of "be_rt b"]
  by (cases "uuid4 (be_rt b)") (auto simp: timeline_handler_def Let_def split: option.splits sum.splits)

lemma bus_publish_env:
  assumes "\<And>h b r b'. h \<in> set hs \<Longrightarrow> h ev b = (r, b') \<Longrightarrow> env_advances (be_rt b) (be_rt b')"
    and "bus_publish hs ev b = (r, b')"
  shows "env_advances (be_rt b) (be_rt b')"
  using assms
proof (induction hs arbitrary: b)
  case (Cons h hs)
  obtain r1 b1 where h: "h ev b = (r1, b1)" by fastforce
  then have "env_advances (be_rt b) (be_rt b1)" using Cons.prems(1) [of h b r1 b1] by simp
  moreover have "env_advances (be_rt b1) (be_rt b') \<or> b' = b1"
    using Cons.IH [of b1] Cons.prems h by (auto split: sum.splits)
  ultimately show ?case using env_advances_trans by blast
qed simp

lemma integration_env:
  assumes "dispatcher_advances (Some d)" "publish_integration_event d ev b = (r, b')"
  shows "env_advances (be_rt b) (be_rt b')"
proof -
  obtain ie rt' where m: "map_to_integration_event ev (be_rt b) = (ie, rt')" by fastforce
  have "env_advances (be_rt b) rt'"
    using m by (auto simp: map_to_integration_event_def dest: env_advances_uuid4 split: option.splits prod.splits)
  moreover have "env_advances (be_rt c) (be_rt c')" if "od_publisher d = Some publish" "publish i c = (x, c')" for publish i c x c'
    using assms(1) that unfolding dispatcher_advances_def by blast
  ultimately show ?thesis
    using assms(2) env_advances_trans m
    by (fastforce simp: publish_integration_event_def split: option.splits prod.splits sum.splits)
qed

lemma dispatch_rows_env:
  assumes "dispatcher_advances (Some d)" "dispatch_rows d rows marked b = (r, b')"
  shows "env_advances (be_rt b) (be_rt b')"
  using assms(2)
proof (induction rows arbitrary: marked b)
  case (Cons row rows)
  show ?case
  proof (cases d row rule: row_cases)
    case readable
    then obtain ev where ev: "deserialize_domain_event (od_fromisoformat d) (ox_event_type row) (ox_payload row) = Ok (Some ev)"
      by (auto simp: readable_row_def)
    obtain r1 b1 where bus: "bus_publish (od_handlers d ev) ev b = (r1, b1)" by fastforce
    then have b1: "env_advances (be_rt b) (be_rt b1)"
      using bus_publish_env assms(1) unfolding dispatcher_advances_def by metis
    obtain r2 b2 where pub: "publish_integration_event d ev b1 = (r2, b2)" by fastforce
    have b2: "env_advances (be_rt b1) (be_rt b2)" by (rule integration_env [OF assms(1) pub])
    from Cons ev bus pub b1 b2 env_advances_trans show ?thesis by (fastforce split: sum.splits)
  qed (use Cons in \<open>auto simp: unknown_row_def\<close>)
qed simp

lemma outbox_dispatch_env:
  assumes "dispatcher_advances (Some d)" "outbox_dispatch d table b = (r, table', b')"
  shows "env_advances (be_rt b) (be_rt b')"
proof -
  obtain now rt' where u: "utc_now (be_rt b) = (now, rt')" by fastforce
  obtain y c where run: "dispatch_rows d (pending_rows table) [] (b\<lparr>be_rt := rt'\<rparr>) = (y, c)" by fastforce
  have "env_advances rt' (be_rt c)" using dispatch_rows_env [OF assms(1) run] by simp
  moreover have "b' = c" using assms(2) u run by (auto simp: outbox_dispatch_def split: sum.splits)
  ultimately show ?thesis using env_advances_utc_now [OF u] env_advances_trans by blast
qed

text \<open>A dispatch leaves every row in its place and only marks rows.\<close>

lemma outbox_dispatch_rows:
  assumes "outbox_dispatch d table b = (r, table', b')"
  shows "map (ox_dispatched_at_update (\<lambda>_. None)) table' = map (ox_dispatched_at_update (\<lambda>_. None)) table"
    "\<forall>row \<in> set table'. ox_dispatched_at row = None \<longrightarrow> row \<in> set table"
    "r = Err e \<Longrightarrow> table' = table"
  using assms by (auto simp: outbox_dispatch_def split: prod.splits sum.splits)


definition demo_outbox :: "OutboxEvent list" where
  "demo_outbox =
     [\<lparr>ox_id = ''a'', ox_event_type = ''ReasoningCompleted'', ox_payload =
        [(''asset_id'', JStr ''stack-1''), (''run_id'', JStr ''run-1''), (''timestamp'', JStr ''t'')],
       ox_created_at = 1, ox_dispatched_at = None\<rparr>,
      \<lparr>ox_id = ''b'', ox_event_type = ''AssetRetired'', ox_payload = [], ox_created_at = 0, ox_dispatched_at = None\<rparr>]"

definition demo_dispatcher :: "unit OutboxDispatcher" where
  "demo_dispatcher =
     \<lparr>od_fromisoformat = \<lambda>s. if s = ''t'' then Some 7 else None, od_handlers = \<lambda>ev. [\<lambda>ev b. (Ok (), b)],
      od_publisher = Some (\<lambda>ie b. (Ok True, b))\<rparr>"

definition demo_backend :: "unit backend" where
  "demo_backend = \<lparr>be_rt = demo_runtime, be_timeline = [], be_world = ()\<rparr>"

lemma demo_rows:
  "readable_row demo_dispatcher (demo_outbox ! 0)" "unknown_row demo_dispatcher (demo_outbox ! 1)"
  by (simp_all add: readable_row_def unknown_row_def demo_outbox_def demo_dispatcher_def deserialize_domain_event_def
      payload_str_def payload_time_def parse_datetime_def dict_item_def json_str_def)


text \<open>
  One unreadable row blocks the outbox: while the table holds a pending row whose payload cannot be
  deserialised, every dispatch raises and marks nothing, not even the rows it delivered before, so no
  number of dispatches gets any row out of the outbox.
\<close>

theorem poisoned_row_blocks_outbox:
  assumes "r \<in> set table" "ox_dispatched_at r = None"
    and "deserialize_domain_event (od_fromisoformat d) (ox_event_type r) (ox_payload r) = Err e"
  shows "(\<exists>e' b'. outbox_dispatch d table b = (Err e', table, b')) \<and> fst (outbox_rounds n d table b) = table"
proof -
  have one: "\<exists>e' b'. outbox_dispatch d table b = (Err e', table, b')" for b
  proof -
    have "r \<in> set (pending_rows table)" using assms(1,2) by (simp add: set_pending_rows)
    from dispatch_rows_poisoned [OF this assms(3), of "[]" "b\<lparr>be_rt := snd (utc_now (be_rt b))\<rparr>"]
    show ?thesis by (auto simp: outbox_dispatch_def case_prod_unfold Let_def)
  qed
  have "fst (outbox_rounds n d table b) = table"
  proof (induction n arbitrary: b)
    case (Suc n)
    from one [of b] obtain e' b' where "outbox_dispatch d table b = (Err e', table, b')" by blast
    with Suc show ?case by simp
  qed simp
  with one show ?thesis by blast
qed

theorem poisoned_row_blocks_outbox_witness:
  "\<exists>e. outbox_rounds 3 (demo_dispatcher\<lparr>od_fromisoformat := \<lambda>s. None\<rparr>) demo_outbox demo_backend = (demo_outbox, e)"
proof -
  let ?d = "demo_dispatcher\<lparr>od_fromisoformat := \<lambda>s. None\<rparr>" and ?r = "demo_outbox ! 0"
  have "\<exists>e. deserialize_domain_event (od_fromisoformat ?d) (ox_event_type ?r) (ox_payload ?r) = Err e"
    by (simp add: demo_outbox_def deserialize_domain_event_def payload_str_def payload_time_def parse_datetime_def
        dict_item_def json_str_def)
  then obtain e where "deserialize_domain_event (od_fromisoformat ?d) (ox_event_type ?r) (ox_payload ?r) = Err e" ..
  moreover have "?r \<in> set demo_outbox" "ox_dispatched_at ?r = None" by (simp_all add: demo_outbox_def)
  ultimately have "fst (outbox_rounds 3 ?d demo_outbox demo_backend) = demo_outbox"
    using poisoned_row_blocks_outbox [of ?r demo_outbox ?d e demo_backend 3] by blast
  then show ?thesis by (metis prod.collapse)
qed

end
