(* ===== verification/Reasoning_Bridge.thy ===== *)
theory Reasoning_Bridge
  imports Bridge_Events Outbox
begin

text \<open>
  The reasoning bridge: the evidence record of an AI fault alert and its table
  (\<^verbatim>\<open>src/backend/app/domain/ai_fault_evidence.py\<close>, \<^verbatim>\<open>infrastructure/repositories/ai_fault_evidence_repository.py\<close>
  and its mapper), the lifecycle of investigations, the service that processes one alert transition in
  one unit of work, the event it publishes and the worker around it
  (\<^verbatim>\<open>application/reasoning_bridge/\<close>). Texts are compared by their bytes where the database orders by a
  text column.
\<close>

section \<open>Evidence\<close>

text \<open>The columns shared by the domain entity and its database row; they differ in the recommendation.\<close>

record 'r EvidenceColumns =
  af_id :: string
  af_source_event_id :: string
  af_asset_id :: string
  af_observed_at :: datetime
  af_alert_transition_type :: string
  af_diagnosed_fault_class :: string
  af_from_state :: string
  af_to_state :: string
  af_model_system_version :: string
  af_model_hash :: string
  af_policy_hash :: string
  af_feature_schema_version :: string
  af_class_scores :: "(string, pyfloat) dict"
  af_maximum_score :: pyfloat
  af_evidence_items :: "json list"
  af_investigation_id :: string
  af_investigation_status :: string
  af_previous_diagnosed_fault_class :: "string option"
  af_corroboration_result :: string
  af_corroboration_rule_ids :: "string list"
  af_corroboration_notes :: string
  af_recommendation :: "'r option"
  af_recorded_at :: datetime

type_synonym AiFaultEvidence = "FaultRecommendation EvidenceColumns"
type_synonym AiFaultEvidenceModel = "json EvidenceColumns"

definition INVESTIGATION_STATUSES :: "string list" where
  "INVESTIGATION_STATUSES = [''OPEN'', ''CLEARED'']"

definition CORROBORATION_RESULTS :: "string list" where
  "CORROBORATION_RESULTS =
     [''corroborated'', ''partially_corroborated'', ''not_corroborated'', ''insufficient_evidence'',
      ''not_applicable'']"

text \<open>\<^verbatim>\<open>AiFaultEvidence.__post_init__\<close>.\<close>

definition check_fault_evidence :: "AiFaultEvidence \<Rightarrow> AiFaultEvidence result" where
  "check_fault_evidence e =
     construct
       [nonempty_check ''id'' (af_id e),
        nonempty_check ''source_event_id'' (af_source_event_id e),
        nonempty_check ''asset_id'' (af_asset_id e),
        one_of ''alert_transition_type'' SUPPORTED_TRANSITION_TYPES (af_alert_transition_type e),
        nonempty_check ''diagnosed_fault_class'' (af_diagnosed_fault_class e),
        nonempty_check ''model_system_version'' (af_model_system_version e),
        nonempty_check ''model_hash'' (af_model_hash e),
        nonempty_check ''policy_hash'' (af_policy_hash e),
        nonempty_check ''feature_schema_version'' (af_feature_schema_version e),
        (0 \<le> af_maximum_score e \<and> af_maximum_score e \<le> 1, ValueError ''maximum_score must be between 0.0 and 1.0''),
        nonempty_check ''investigation_id'' (af_investigation_id e),
        one_of ''investigation_status'' INVESTIGATION_STATUSES (af_investigation_status e),
        one_of ''corroboration_result'' CORROBORATION_RESULTS (af_corroboration_result e)] e"

section \<open>Rows\<close>

definition str_list_json :: "string list \<Rightarrow> json" where
  "str_list_json xs = JList (map JStr xs)"

definition recommendation_json :: "FaultRecommendation \<Rightarrow> json" where
  "recommendation_json r =
     JObj [(''id'', JStr (fc_id r)), (''status'', JStr (fc_status r)), (''category'', JStr (fc_category r)),
           (''urgency'', JStr (fc_urgency r)), (''action_summary'', JStr (fc_action_summary r)),
           (''reason'', JStr (fc_reason r)),
           (''supporting_rule_ids'', str_list_json (fc_supporting_rule_ids r)),
           (''supporting_observation_ids'', str_list_json (fc_supporting_observation_ids r)),
           (''recommended_steps'', str_list_json (fc_recommended_steps r)),
           (''limitations'', JStr (fc_limitations r))]"

text \<open>
  \<^verbatim>\<open>from_json_dict\<close> of a stored object. The members that the code stores uncast are read as the texts
  the column holds; a list column that is absent is empty.
\<close>

definition json_texts :: "(string, json) dict \<Rightarrow> string \<Rightarrow> string list" where
  "json_texts data k =
     (case map_of data k of Some (JList xs) \<Rightarrow> map json_str xs | _ \<Rightarrow> [])"

definition recommendation_of_json :: "json \<Rightarrow> FaultRecommendation result" where
  "recommendation_of_json j =
     (let data = (case j of JObj kvs \<Rightarrow> kvs | _ \<Rightarrow> []); field = payload_str data in
      res_bind (field ''id'') (\<lambda>i. res_bind (field ''status'') (\<lambda>st. res_bind (field ''category'') (\<lambda>cat.
      res_bind (field ''urgency'') (\<lambda>urg. res_bind (field ''action_summary'') (\<lambda>summary.
      res_bind (field ''reason'') (\<lambda>reason. res_bind (field ''limitations'') (\<lambda>limits.
      check_recommendation
        \<lparr>fc_id = i, fc_status = st, fc_category = cat, fc_urgency = urg, fc_action_summary = summary,
         fc_reason = reason, fc_supporting_rule_ids = json_texts data ''supporting_rule_ids'',
         fc_supporting_observation_ids = json_texts data ''supporting_observation_ids'',
         fc_recommended_steps = json_texts data ''recommended_steps'', fc_limitations = limits\<rparr>))))))))"

definition with_recommendation :: "'a EvidenceColumns \<Rightarrow> 'b option \<Rightarrow> 'b EvidenceColumns" where
  "with_recommendation e rec =
     \<lparr>af_id = af_id e, af_source_event_id = af_source_event_id e, af_asset_id = af_asset_id e,
      af_observed_at = af_observed_at e, af_alert_transition_type = af_alert_transition_type e,
      af_diagnosed_fault_class = af_diagnosed_fault_class e, af_from_state = af_from_state e,
      af_to_state = af_to_state e, af_model_system_version = af_model_system_version e,
      af_model_hash = af_model_hash e, af_policy_hash = af_policy_hash e,
      af_feature_schema_version = af_feature_schema_version e, af_class_scores = af_class_scores e,
      af_maximum_score = af_maximum_score e, af_evidence_items = af_evidence_items e,
      af_investigation_id = af_investigation_id e, af_investigation_status = af_investigation_status e,
      af_previous_diagnosed_fault_class = af_previous_diagnosed_fault_class e,
      af_corroboration_result = af_corroboration_result e,
      af_corroboration_rule_ids = af_corroboration_rule_ids e,
      af_corroboration_notes = af_corroboration_notes e, af_recommendation = rec,
      af_recorded_at = af_recorded_at e\<rparr>"

definition ai_fault_evidence_to_model :: "AiFaultEvidence \<Rightarrow> AiFaultEvidenceModel" where
  "ai_fault_evidence_to_model e = with_recommendation e (map_option recommendation_json (af_recommendation e))"

definition ai_fault_evidence_to_domain :: "AiFaultEvidenceModel \<Rightarrow> AiFaultEvidence result" where
  "ai_fault_evidence_to_domain model =
     (case af_recommendation model of
        None \<Rightarrow> check_fault_evidence (with_recommendation model None)
      | Some j \<Rightarrow> res_bind (recommendation_of_json j) (\<lambda>rec.
          check_fault_evidence (with_recommendation model (Some rec))))"

section \<open>The evidence table\<close>

type_synonym evidence_repo = "(string, AiFaultEvidenceModel) dict"

definition evidence_row :: "evidence_repo \<Rightarrow> string \<Rightarrow> AiFaultEvidenceModel option" where
  "evidence_row storage i = map_of storage i"

definition insert_evidence :: "AiFaultEvidenceModel \<Rightarrow> evidence_repo \<Rightarrow> evidence_repo result" where
  "insert_evidence =
     put_new (\<lambda>i. ValueError (''AI fault evidence with id '' @ py_repr i @ '' already exists'')) af_id"

definition evidence_save :: "AiFaultEvidence \<Rightarrow> evidence_repo \<Rightarrow> evidence_repo result" where
  "evidence_save e = insert_evidence (ai_fault_evidence_to_model e)"

definition opt_domain :: "AiFaultEvidenceModel option \<Rightarrow> AiFaultEvidence option result" where
  "opt_domain model =
     (case model of None \<Rightarrow> Ok None | Some m \<Rightarrow> res_bind (ai_fault_evidence_to_domain m) (\<lambda>e. Ok (Some e)))"

definition evidence_get :: "evidence_repo \<Rightarrow> string \<Rightarrow> AiFaultEvidence option result" where
  "evidence_get storage i = opt_domain (evidence_row storage i)"

definition evidence_key :: "'r EvidenceColumns \<Rightarrow> datetime \<times> string" where
  "evidence_key e = (af_observed_at e, af_id e)"

definition asset_rows :: "evidence_repo \<Rightarrow> string \<Rightarrow> AiFaultEvidenceModel list" where
  "asset_rows storage asset = filter (\<lambda>e. af_asset_id e = asset) (dict_values storage)"

definition first_row :: "'a list \<Rightarrow> 'a option" where
  "first_row xs = (case xs of [] \<Rightarrow> None | x # _ \<Rightarrow> Some x)"

definition latest_row :: "evidence_repo \<Rightarrow> string \<Rightarrow> AiFaultEvidenceModel option" where
  "latest_row storage asset = first_row (sorted_by_desc evidence_key (asset_rows storage asset))"

definition get_latest_for_asset :: "evidence_repo \<Rightarrow> string \<Rightarrow> AiFaultEvidence option result" where
  "get_latest_for_asset storage asset = opt_domain (latest_row storage asset)"

definition list_for_investigation :: "evidence_repo \<Rightarrow> string \<Rightarrow> AiFaultEvidence list result" where
  "list_for_investigation storage investigation =
     res_map ai_fault_evidence_to_domain
       (sorted_by evidence_key (filter (\<lambda>e. af_investigation_id e = investigation) (dict_values storage)))"

text \<open>The latest row of every investigation of an asset, newest first.\<close>

definition rank_in_investigation :: "AiFaultEvidenceModel list \<Rightarrow> AiFaultEvidenceModel \<Rightarrow> nat" where
  "rank_in_investigation rows e =
     1 + length (filter (\<lambda>x. af_investigation_id x = af_investigation_id e \<and> evidence_key e < evidence_key x) rows)"

definition list_for_asset_grouped :: "evidence_repo \<Rightarrow> string \<Rightarrow> nat \<Rightarrow> AiFaultEvidence list result" where
  "list_for_asset_grouped storage asset limit =
     (let rows = asset_rows storage asset
      in res_map ai_fault_evidence_to_domain
           (take limit (sorted_by_desc evidence_key (filter (\<lambda>e. rank_in_investigation rows e = 1) rows))))"

section \<open>Investigations\<close>

record InvestigationDecision =
  id_investigation_id :: string
  id_investigation_status :: string
  id_previous_class :: "string option"
  id_is_new :: bool

definition open_case :: "AiFaultEvidence option \<Rightarrow> AiFaultEvidence option" where
  "open_case active =
     (case active of None \<Rightarrow> None | Some a \<Rightarrow> if af_investigation_status a = ''OPEN'' then Some a else None)"

definition decide_investigation ::
    "string \<Rightarrow> string \<Rightarrow> AiFaultEvidence option \<Rightarrow> runtime \<Rightarrow> InvestigationDecision \<times> runtime" where
  "decide_investigation transition_type fault_class active rt =
     (if transition_type = ''cleared'' then
        (case open_case active of
           Some a \<Rightarrow>
             (\<lparr>id_investigation_id = af_investigation_id a, id_investigation_status = ''CLEARED'',
               id_previous_class = Some (af_diagnosed_fault_class a), id_is_new = False\<rparr>, rt)
         | None \<Rightarrow>
             (let (i, rt') = uuid4 rt
              in (\<lparr>id_investigation_id = i, id_investigation_status = ''CLEARED'', id_previous_class = None,
                   id_is_new = True\<rparr>, rt')))
      else
        (case open_case active of
           Some a \<Rightarrow>
             (\<lparr>id_investigation_id = af_investigation_id a, id_investigation_status = ''OPEN'',
               id_previous_class =
                 (if af_diagnosed_fault_class a \<noteq> fault_class then Some (af_diagnosed_fault_class a) else None),
               id_is_new = False\<rparr>, rt)
         | None \<Rightarrow>
             (let (i, rt') = uuid4 rt
              in (\<lparr>id_investigation_id = i, id_investigation_status = ''OPEN'', id_previous_class = None,
                   id_is_new = True\<rparr>, rt'))))"

section \<open>Corroboration against the stored observations\<close>

text \<open>\<^verbatim>\<open>timedelta(seconds=x)\<close> in microseconds.\<close>

definition seconds_us :: "pyfloat \<Rightarrow> int" where
  "seconds_us x =
     (let whole = (if x < 0 then - \<lfloor>- x\<rfloor> else \<lfloor>x\<rfloor>)
      in whole * 1000000 + round_even (fmul (fsub x (of_int whole)) 1000000))"

definition sql_time_range ::
    "observation_repo \<Rightarrow> string \<Rightarrow> datetime option \<Rightarrow> datetime option \<Rightarrow> string option \<Rightarrow> nat option \<Rightarrow> bool \<Rightarrow>
     Observation list" where
  "sql_time_range storage asset start stop mt limit newest_first =
     (let selected = filter (\<lambda>ob. obs_asset_id ob = asset \<and>
            (case start of None \<Rightarrow> True | Some s \<Rightarrow> s \<le> obs_timestamp ob) \<and>
            (case stop of None \<Rightarrow> True | Some e \<Rightarrow> obs_timestamp ob \<le> e) \<and>
            (case mt of None \<Rightarrow> True | Some m \<Rightarrow> mt_name (obs_measurement_type ob) = m)) (dict_values storage);
          ordered = (if newest_first then sorted_by_desc time_id_key selected else sorted_by time_id_key selected)
      in case limit of None \<Rightarrow> ordered | Some n \<Rightarrow> take n ordered)"

record BridgeConfig =
  bc_window_seconds :: pyfloat
  bc_sample_limit :: nat
  bc_has_event_bus :: bool

definition fetch ::
    "BridgeConfig \<Rightarrow> observation_repo \<Rightarrow> ValidatedAlertTransition \<Rightarrow> string \<Rightarrow> Observation list" where
  "fetch cfg storage ev mt =
     (let stop = va_source_timestamp ev
      in sql_time_range storage (va_asset_id ev) (Some (stop - seconds_us (bc_window_seconds cfg))) (Some stop)
           (Some mt) (Some (bc_sample_limit cfg)) False)"

definition unsupported_fault_class :: "string \<Rightarrow> py_error" where
  "unsupported_fault_class c = AppError ''UnsupportedFaultClassError'' (''unsupported fault class: '' @ py_repr c)"

definition corroborate ::
    "BridgeConfig \<Rightarrow> observation_repo \<Rightarrow> ValidatedAlertTransition \<Rightarrow> FaultClassMapping \<Rightarrow> CorroborationOutcome result" where
  "corroborate cfg storage ev mapping =
     (let obs = fetch cfg storage ev; c = fm_fault_class mapping
      in if c = ''cooling_degradation'' then
           corroborate_cooling_degradation (obs ''stack_temperature'') (obs ''coolant_flow'')
         else if c = ''hydrogen_supply_issue'' then
           corroborate_hydrogen_supply_issue (obs ''fuel_flow'') (obs ''voltage'')
         else if c = ''sensor_anomaly'' then
           corroborate_sensor_anomaly (obs ''stack_temperature'') (obs ''current'') (obs ''voltage'') (obs ''fuel_flow'')
         else Err (unsupported_fault_class c))"


section \<open>The service\<close>

record 'w bridge =
  br_backend :: "'w backend"
  br_observations :: observation_repo
  br_evidence :: evidence_repo
  br_outbox :: "OutboxEvent list"

record ProcessingOutcome =
  po_evidence :: AiFaultEvidence
  po_is_duplicate :: bool
  po_is_new_investigation :: bool

definition with_rt :: "runtime \<Rightarrow> 'w bridge \<Rightarrow> 'w bridge" where
  "with_rt rt br = br\<lparr>br_backend := (br_backend br)\<lparr>be_rt := rt\<rparr>\<rparr>"

definition not_applicable :: CorroborationOutcome where
  "not_applicable =
     outcome ''not_applicable'' []
       (''Alert cleared; clearing does not diagnose a fault, so '' @ ''no corroboration is run.'') []"

text \<open>Corroboration and recommendation; a clearing transition has neither.\<close>

definition assess_transition ::
    "BridgeConfig \<Rightarrow> observation_repo \<Rightarrow> ValidatedAlertTransition \<Rightarrow> InvestigationDecision \<Rightarrow>
     (CorroborationOutcome \<times> FaultRecommendation option) result" where
  "assess_transition cfg storage ev decision =
     (if va_transition_type ev = ''cleared'' then Ok (not_applicable, None)
      else res_bind (get_fault_class_mapping (va_fault_class ev)) (\<lambda>mapping.
        res_bind (corroborate cfg storage ev mapping) (\<lambda>c.
        res_bind (build_recommendation
            (''ai-fault-rec-'' @ id_investigation_id decision @ ''-'' @ va_event_id ev) mapping c) (\<lambda>rec.
        Ok (c, Some rec)))))"

definition evidence_of ::
    "ValidatedAlertTransition \<Rightarrow> InvestigationDecision \<Rightarrow> CorroborationOutcome \<Rightarrow> FaultRecommendation option \<Rightarrow>
     datetime \<Rightarrow> AiFaultEvidence" where
  "evidence_of ev decision c rec recorded_at =
     \<lparr>af_id = va_event_id ev, af_source_event_id = va_event_id ev, af_asset_id = va_asset_id ev,
      af_observed_at = va_source_timestamp ev, af_alert_transition_type = va_transition_type ev,
      af_diagnosed_fault_class = va_fault_class ev, af_from_state = va_from_state ev,
      af_to_state = va_to_state ev, af_model_system_version = va_model_system_version ev,
      af_model_hash = va_model_hash ev, af_policy_hash = va_policy_hash ev,
      af_feature_schema_version = va_feature_schema_version ev, af_class_scores = va_class_scores ev,
      af_maximum_score = va_maximum_score ev, af_evidence_items = va_evidence_items ev,
      af_investigation_id = id_investigation_id decision,
      af_investigation_status = id_investigation_status decision,
      af_previous_diagnosed_fault_class = id_previous_class decision,
      af_corroboration_result = co_result c, af_corroboration_rule_ids = co_rule_ids c,
      af_corroboration_notes = co_notes c, af_recommendation = rec, af_recorded_at = recorded_at\<rparr>"

text \<open>The timeline entries of a transition, in the order they are saved, each given its identifier.\<close>

definition bridge_entries ::
    "ValidatedAlertTransition \<Rightarrow> InvestigationDecision \<Rightarrow> CorroborationOutcome \<Rightarrow> FaultRecommendation option \<Rightarrow>
     datetime \<Rightarrow> (string \<Rightarrow> TimelineEvent result) list" where
  "bridge_entries ev decision c rec now =
     (let asset = va_asset_id ev; fault = va_fault_class ev; investigation = id_investigation_id decision in
      (\<lambda>i. mk_timeline_event i asset (va_source_timestamp ev) ''ai_fault_alert_received''
         (''AI fault alert received: '' @ fault)
         (va_transition_type ev @ '' alert for '' @ fault @ '' (source event '' @ va_event_id ev @ '').'')
         [(''source_event_id'', JStr (va_event_id ev)), (''transition_type'', JStr (va_transition_type ev)),
          (''diagnosed_fault_class'', JStr fault), (''model_system_version'', JStr (va_model_system_version ev)),
          (''model_hash'', JStr (va_model_hash ev)), (''investigation_id'', JStr investigation)]) #
      (if va_transition_type ev = ''cleared'' then
         [\<lambda>i. mk_timeline_event i asset now ''ai_fault_alert_cleared'' ''AI fault alert cleared''
            (fault @ '' alert cleared; investigation '' @ investigation @ '' marked resolved.'')
            [(''investigation_id'', JStr investigation), (''diagnosed_fault_class'', JStr fault)]]
       else
         [\<lambda>i. mk_timeline_event i asset now ''ai_fault_corroboration_completed''
            (''Deterministic corroboration: '' @ co_result c) (co_notes c)
            [(''corroboration_result'', JStr (co_result c)), (''rule_ids'', str_list_json (co_rule_ids c)),
             (''investigation_id'', JStr investigation)],
          \<lambda>i. mk_timeline_event i asset now ''ai_fault_investigation_updated''
            (if id_is_new decision then ''AI fault investigation opened'' else ''AI fault investigation updated'')
            (''Investigation '' @ investigation @ '' now concerns '' @ fault @
             (case id_previous_class decision of
                None \<Rightarrow> ''.''
              | Some p \<Rightarrow> if p = [] then ''.'' else '' (previously '' @ p @ '').''))
            [(''investigation_id'', JStr investigation), (''is_new_investigation'', JBool (id_is_new decision)),
             (''previous_diagnosed_fault_class'', opt_str (id_previous_class decision))]] @
         (case rec of
            None \<Rightarrow> []
          | Some r \<Rightarrow>
              [\<lambda>i. mk_timeline_event i asset now ''ai_fault_recommendation_recorded''
                 (''Recommendation '' @ fc_status r) (fc_action_summary r)
                 [(''recommendation_id'', JStr (fc_id r)), (''status'', JStr (fc_status r)),
                  (''urgency'', JStr (fc_urgency r)), (''investigation_id'', JStr investigation)]])))"

fun save_entries ::
    "(string \<Rightarrow> TimelineEvent result) list \<Rightarrow> timeline_repo \<Rightarrow> runtime \<Rightarrow> timeline_repo result \<times> runtime" where
  "save_entries [] timeline rt = (Ok timeline, rt)"
| "save_entries (entry # entries) timeline rt =
     (let (i, rt') = uuid4 rt
      in case res_bind (entry i) (\<lambda>e. timeline_save e timeline) of
           Inl e \<Rightarrow> (Err e, rt')
         | Inr timeline' \<Rightarrow> save_entries entries timeline' rt')"

text \<open>The outbox row of a processed transition: an identifier and two clock readings.\<close>

definition outbox_row :: "AiFaultEvidence \<Rightarrow> runtime \<Rightarrow> OutboxEvent \<times> runtime" where
  "outbox_row e rt =
     (let (i, rt1) = uuid4 rt; (ts, rt2) = utc_now rt1; (created, rt3) = utc_now rt2
      in (\<lparr>ox_id = i, ox_event_type = ''AiFaultInvestigationUpdated'',
           ox_payload =
             [(''asset_id'', JStr (af_asset_id e)), (''investigation_id'', JStr (af_investigation_id e)),
              (''diagnosed_fault_class'', JStr (af_diagnosed_fault_class e)),
              (''investigation_status'', JStr (af_investigation_status e)),
              (''alert_transition_type'', JStr (af_alert_transition_type e)),
              (''timestamp'', JStr (isoformat ts))],
           ox_created_at = created, ox_dispatched_at = None\<rparr>, rt3))"

text \<open>
  What the unit of work does for a transition that is not yet on record, up to its commit: on an
  exception the tables are those before it, and only identifiers and clock readings are used up.
\<close>

definition record_transition ::
    "BridgeConfig \<Rightarrow> ValidatedAlertTransition \<Rightarrow> AiFaultEvidence option \<Rightarrow> 'w bridge \<Rightarrow>
     ProcessingOutcome result \<times> 'w bridge" where
  "record_transition cfg ev active br =
     (let (decision, rt1) =
            decide_investigation (va_transition_type ev) (va_fault_class ev) active (be_rt (br_backend br))
      in case assess_transition cfg (br_observations br) ev decision of
           Inl e \<Rightarrow> (Err e, with_rt rt1 br)
         | Inr (c, rec) \<Rightarrow>
             let (recorded_at, rt2) = utc_now rt1; evidence = evidence_of ev decision c rec recorded_at
             in case res_bind (check_fault_evidence evidence) (\<lambda>e. evidence_save e (br_evidence br)) of
                  Inl e \<Rightarrow> (Err e, with_rt rt2 br)
                | Inr evidence' \<Rightarrow>
                    let (now, rt3) = utc_now rt2
                    in case save_entries (bridge_entries ev decision c rec now) (be_timeline (br_backend br)) rt3 of
                         (Inl e, rt4) \<Rightarrow> (Err e, with_rt rt4 br)
                       | (Inr timeline', rt4) \<Rightarrow>
                           let (rows, rt5) =
                                 (if bc_has_event_bus cfg then let (row, rt') = outbox_row evidence rt4 in ([row], rt')
                                  else ([], rt4))
                           in (Ok \<lparr>po_evidence = evidence, po_is_duplicate = False,
                                   po_is_new_investigation = id_is_new decision\<rparr>,
                               br\<lparr>br_backend := (br_backend br)\<lparr>be_rt := rt5, be_timeline := timeline'\<rparr>,
                                  br_evidence := evidence', br_outbox := br_outbox br @ rows\<rparr>))"

text \<open>Dispatching after the commit; an exception of a handler leaves the service.\<close>

definition dispatch_after ::
    "BridgeConfig \<Rightarrow> 'w OutboxDispatcher option \<Rightarrow> 'w bridge \<Rightarrow> unit result \<times> 'w bridge" where
  "dispatch_after cfg dispatcher br =
     (case dispatcher of
        Some d \<Rightarrow>
          if bc_has_event_bus cfg then
            (case outbox_dispatch d (br_outbox br) (br_backend br) of
               (r, table, b) \<Rightarrow> (r, br\<lparr>br_backend := b, br_outbox := table\<rparr>))
          else (Ok (), br)
      | None \<Rightarrow> (Ok (), br))"

definition process_alert_transition ::
    "BridgeConfig \<Rightarrow> 'w OutboxDispatcher option \<Rightarrow> ValidatedAlertTransition \<Rightarrow> 'w bridge \<Rightarrow>
     ProcessingOutcome result \<times> 'w bridge" where
  "process_alert_transition cfg dispatcher ev br =
     (if \<not> is_supported_fault_class (va_fault_class ev) then (Err (unsupported_fault_class (va_fault_class ev)), br)
      else case evidence_get (br_evidence br) (va_event_id ev) of
          Inl e \<Rightarrow> (Err e, br)
        | Inr (Some existing) \<Rightarrow>
            (Ok \<lparr>po_evidence = existing, po_is_duplicate = True, po_is_new_investigation = False\<rparr>, br)
        | Inr None \<Rightarrow>
            (case get_latest_for_asset (br_evidence br) (va_asset_id ev) of
               Inl e \<Rightarrow> (Err e, br)
             | Inr active \<Rightarrow>
                 (case record_transition cfg ev active br of
                    (Inl e, br') \<Rightarrow> (Err e, br')
                  | (Inr res, br') \<Rightarrow>
                      (case dispatch_after cfg dispatcher br' of
                         (Inl e, br'') \<Rightarrow> (Err e, br'')
                       | (Inr _, br'') \<Rightarrow> (Ok res, br'')))))"

section \<open>The published event\<close>

record FaultReasoningResultEvent =
  fo_event_id :: string
  fo_event_version :: string
  fo_occurred_at :: datetime
  fo_source_alert_event_id :: string
  fo_asset_id :: string
  fo_diagnosed_class :: string
  fo_corroboration_result :: string
  fo_investigation_id :: string
  fo_operational_situation_id :: "string option"
  fo_recommendation_status :: "string option"
  fo_recommendation_action_summary :: "string option"
  fo_urgency :: "string option"
  fo_supporting_rule_ids :: "string list"
  fo_supporting_observation_ids :: "string list"
  fo_model_system_version :: string
  fo_model_hash :: string
  fo_reasoning_rule_version :: string

definition build_reasoning_result_event ::
    "(string \<Rightarrow> string) \<Rightarrow> AiFaultEvidence \<Rightarrow> datetime \<Rightarrow> FaultReasoningResultEvent" where
  "build_reasoning_result_event uuid5 e now =
     (let rec = af_recommendation e in
      \<lparr>fo_event_id = uuid5 (str_join ''|''
         [''fault_reasoning_result.v1'', af_source_event_id e, af_investigation_id e]),
       fo_event_version = ''v1'', fo_occurred_at = now, fo_source_alert_event_id = af_source_event_id e,
       fo_asset_id = af_asset_id e, fo_diagnosed_class = af_diagnosed_fault_class e,
       fo_corroboration_result = af_corroboration_result e, fo_investigation_id = af_investigation_id e,
       fo_operational_situation_id = None, fo_recommendation_status = map_option fc_status rec,
       fo_recommendation_action_summary = map_option fc_action_summary rec,
       fo_urgency = map_option fc_urgency rec,
       fo_supporting_rule_ids = case_option [] fc_supporting_rule_ids rec,
       fo_supporting_observation_ids = case_option [] fc_supporting_observation_ids rec,
       fo_model_system_version = af_model_system_version e, fo_model_hash = af_model_hash e,
       fo_reasoning_rule_version = ''1.0''\<rparr>)"

definition reasoning_result_json :: "FaultReasoningResultEvent \<Rightarrow> json" where
  "reasoning_result_json e =
     JObj [(''event_id'', JStr (fo_event_id e)), (''event_version'', JStr (fo_event_version e)),
           (''occurred_at'', JStr (isoformat (fo_occurred_at e))),
           (''source_alert_event_id'', JStr (fo_source_alert_event_id e)), (''asset_id'', JStr (fo_asset_id e)),
           (''diagnosed_class'', JStr (fo_diagnosed_class e)),
           (''corroboration_result'', JStr (fo_corroboration_result e)),
           (''investigation_id'', JStr (fo_investigation_id e)),
           (''operational_situation_id'', opt_str (fo_operational_situation_id e)),
           (''recommendation_status'', opt_str (fo_recommendation_status e)),
           (''recommendation_action_summary'', opt_str (fo_recommendation_action_summary e)),
           (''urgency'', opt_str (fo_urgency e)),
           (''supporting_rule_ids'', str_list_json (fo_supporting_rule_ids e)),
           (''supporting_observation_ids'', str_list_json (fo_supporting_observation_ids e)),
           (''model_system_version'', JStr (fo_model_system_version e)),
           (''model_hash'', JStr (fo_model_hash e)),
           (''reasoning_rule_version'', JStr (fo_reasoning_rule_version e))]"


section \<open>The worker\<close>

text \<open>One send: topic, key and the JSON value.\<close>

type_synonym bridge_publication = "string \<times> string \<times> json"

datatype bridge_action =
    BridgeAcked bridge_publication
  | BridgeFailed bridge_publication
  | BridgeSlept pyfloat
  | BridgeCommit

record 'w BridgeWorker =
  bw_bridge :: "'w bridge"
  bw_sends :: nat
  bw_trace :: "bridge_action list"

record 'w BridgeEnvironment =
  bv_decode :: "string \<Rightarrow> string + json"
  bv_fromisoformat :: "string \<Rightarrow> datetime option"
  bv_uuid5 :: "string \<Rightarrow> string"
  bv_send :: "nat \<Rightarrow> bool"
  bv_config :: BridgeConfig
  bv_dispatcher :: "'w OutboxDispatcher option"
  bv_output_topic :: string
  bv_publish_max_retries :: nat
  bv_backoff_seconds :: pyfloat

definition bridge_act :: "bridge_action \<Rightarrow> 'w BridgeWorker \<Rightarrow> 'w BridgeWorker" where
  "bridge_act x w = w\<lparr>bw_trace := bw_trace w @ [x]\<rparr>"

function bridge_publish_attempts ::
    "'w BridgeEnvironment \<Rightarrow> bridge_publication \<Rightarrow> nat \<Rightarrow> 'w BridgeWorker \<Rightarrow> bool \<times> 'w BridgeWorker" where
  "bridge_publish_attempts env p attempt w =
     (let w1 = w\<lparr>bw_sends := Suc (bw_sends w)\<rparr>
      in if bv_send env (bw_sends w) then (True, bridge_act (BridgeAcked p) w1)
         else
           let attempt' = Suc attempt; w2 = bridge_act (BridgeFailed p) w1 in
           if attempt' > bv_publish_max_retries env then (False, w2)
           else bridge_publish_attempts env p attempt'
                  (bridge_act (BridgeSlept (fmul (bv_backoff_seconds env) (of_nat attempt'))) w2))"
  by pat_completeness auto
termination
  by (relation "measure (\<lambda>(env, p, attempt, w). Suc (bv_publish_max_retries env) - attempt)") auto

declare bridge_publish_attempts.simps [simp del]

definition alert_validation_error :: "py_error \<Rightarrow> bool" where
  "alert_validation_error e =
     (case e of AppError name _ \<Rightarrow> name \<in> set ALERT_VALIDATION_ERRORS | _ \<Rightarrow> False)"

definition is_unsupported :: "py_error \<Rightarrow> bool" where
  "is_unsupported e = (case e of AppError name _ \<Rightarrow> name = ''UnsupportedFaultClassError'' | _ \<Rightarrow> False)"

text \<open>Publishing the result of a transition that was new.\<close>

definition publish_outcome ::
    "'w BridgeEnvironment \<Rightarrow> AiFaultEvidence \<Rightarrow> 'w BridgeWorker \<Rightarrow> bool \<times> 'w BridgeWorker" where
  "publish_outcome env e w =
     (let br = bw_bridge w; (now, rt') = utc_now (be_rt (br_backend br));
          event = build_reasoning_result_event (bv_uuid5 env) e now
      in bridge_publish_attempts env
           (bv_output_topic env, fo_asset_id event, sort_keys (reasoning_result_json event)) 0
           (w\<lparr>bw_bridge := with_rt rt' br\<rparr>))"

text \<open>The flag tells whether the offset may be committed.\<close>

definition bridge_handle_message ::
    "'w BridgeEnvironment \<Rightarrow> string \<Rightarrow> 'w BridgeWorker \<Rightarrow> bool result \<times> 'w BridgeWorker" where
  "bridge_handle_message env payload w =
     (case bv_decode env payload of
        Inl _ \<Rightarrow> (Ok True, w)
      | Inr raw \<Rightarrow>
          (case validate_alert_transition (bv_fromisoformat env) raw of
             Inl e \<Rightarrow> if alert_validation_error e then (Ok True, w) else (Err e, w)
           | Inr validated \<Rightarrow>
               (case process_alert_transition (bv_config env) (bv_dispatcher env) validated (bw_bridge w) of
                  (Inl e, br') \<Rightarrow> (Ok (is_unsupported e), w\<lparr>bw_bridge := br'\<rparr>)
                | (Inr res, br') \<Rightarrow>
                    if po_is_duplicate res then (Ok True, w\<lparr>bw_bridge := br'\<rparr>)
                    else (case publish_outcome env (po_evidence res) (w\<lparr>bw_bridge := br'\<rparr>) of
                            (sent, w') \<Rightarrow> (Ok sent, w')))))"

text \<open>The messages of one poll: the loop returns at the first message that was not handled.\<close>

fun bridge_poll :: "'w BridgeEnvironment \<Rightarrow> string list \<Rightarrow> 'w BridgeWorker \<Rightarrow> unit result \<times> 'w BridgeWorker" where
  "bridge_poll env [] w = (Ok (), w)"
| "bridge_poll env (m # ms) w =
     (case bridge_handle_message env m w of
        (Inl e, w') \<Rightarrow> (Err e, w')
      | (Inr False, w') \<Rightarrow> (Ok (), w')
      | (Inr True, w') \<Rightarrow> bridge_poll env ms (bridge_act BridgeCommit w'))"

fun bridge_run :: "'w BridgeEnvironment \<Rightarrow> string list list list \<Rightarrow> 'w BridgeWorker \<Rightarrow> unit result \<times> 'w BridgeWorker" where
  "bridge_run env [] w = (Ok (), w)"
| "bridge_run env (records # polls) w =
     (case bridge_poll env (concat records) w of
        (Inl e, w') \<Rightarrow> (Err e, w')
      | (Inr _, w') \<Rightarrow> bridge_run env polls w')"

section \<open>Rows and evidence\<close>

interpretation evidence_store: write_once_store "[]" evidence_row insert_evidence af_id
  unfolding evidence_row_def insert_evidence_def by (rule put_new_store)

lemma with_recommendation_simps [simp]:
  "with_recommendation (with_recommendation e r) s = with_recommendation e s"
  "with_recommendation e (af_recommendation e) = e" "af_recommendation (with_recommendation e r) = r"
  "af_id (with_recommendation e r) = af_id e" "af_asset_id (with_recommendation e r) = af_asset_id e"
  "af_observed_at (with_recommendation e r) = af_observed_at e"
  "af_investigation_id (with_recommendation e r) = af_investigation_id e"
  "af_investigation_status (with_recommendation e r) = af_investigation_status e"
  "af_diagnosed_fault_class (with_recommendation e r) = af_diagnosed_fault_class e"
  by (simp_all add: with_recommendation_def)

lemma evidence_to_model_simps [simp]:
  "af_id (ai_fault_evidence_to_model e) = af_id e" "af_asset_id (ai_fault_evidence_to_model e) = af_asset_id e"
  "evidence_key (ai_fault_evidence_to_model e) = evidence_key e"
  "af_investigation_id (ai_fault_evidence_to_model e) = af_investigation_id e"
  "af_investigation_status (ai_fault_evidence_to_model e) = af_investigation_status e"
  by (simp_all add: ai_fault_evidence_to_model_def evidence_key_def)

lemma recommendation_roundtrip:
  assumes "check_recommendation r = Ok r"
  shows "recommendation_of_json (recommendation_json r) = Ok r"
proof -
  have "map json_str (map JStr xs) = xs" for xs by (simp add: comp_def json_str_def)
  with assms show ?thesis
    by (cases r) (simp add: recommendation_of_json_def recommendation_json_def payload_str_def dict_item_def json_texts_def
        str_list_json_def json_str_def comp_def)
qed

text \<open>An evidence record that its constructor and its recommendation's constructor accept.\<close>

definition evidence_ok :: "AiFaultEvidence \<Rightarrow> bool" where
  "evidence_ok e \<longleftrightarrow> check_fault_evidence e = Ok e \<and>
     (\<forall>r. af_recommendation e = Some r \<longrightarrow> check_recommendation r = Ok r)"

lemma evidence_roundtrip:
  assumes "evidence_ok e"
  shows "ai_fault_evidence_to_domain (ai_fault_evidence_to_model e) = Ok e"
proof (cases "af_recommendation e")
  case None
  then have "with_recommendation e None = e" by (metis with_recommendation_simps(2))
  with assms None show ?thesis
    by (simp add: ai_fault_evidence_to_domain_def ai_fault_evidence_to_model_def evidence_ok_def)
next
  case (Some r)
  then have "with_recommendation e (Some r) = e" by (metis with_recommendation_simps(2))
  with assms Some show ?thesis
    by (simp add: ai_fault_evidence_to_domain_def ai_fault_evidence_to_model_def evidence_ok_def recommendation_roundtrip)
qed


text \<open>A table that the repository has built.\<close>

definition evidence_table_wf :: "evidence_repo \<Rightarrow> bool" where
  "evidence_table_wf storage \<longleftrightarrow> dict_wf storage \<and>
     (\<forall>k m. (k, m) \<in> set storage \<longrightarrow> (\<exists>e. evidence_ok e \<and> k = af_id e \<and> m = ai_fault_evidence_to_model e))"

lemma evidence_table_wf_empty [simp]: "evidence_table_wf []"
  by (simp add: evidence_table_wf_def dict_wf_def)

lemma evidence_get_wf:
  assumes "evidence_table_wf storage"
  shows "(evidence_row storage i = None \<and> evidence_get storage i = Ok None) \<or>
    (\<exists>e. evidence_ok e \<and> af_id e = i \<and> evidence_row storage i = Some (ai_fault_evidence_to_model e) \<and>
         evidence_get storage i = Ok (Some e))"
proof (cases "map_of storage i")
  case None
  then show ?thesis by (simp add: evidence_get_def evidence_row_def opt_domain_def)
next
  case (Some m)
  with assms obtain e where "evidence_ok e" "i = af_id e" "m = ai_fault_evidence_to_model e"
    unfolding evidence_table_wf_def by (meson map_of_SomeD)
  with Some show ?thesis by (simp add: evidence_get_def evidence_row_def opt_domain_def evidence_roundtrip)
qed

lemma evidence_table_wf_row:
  assumes "evidence_table_wf storage" "m \<in> set (dict_values storage)"
  shows "\<exists>e. evidence_ok e \<and> m = ai_fault_evidence_to_model e"
proof -
  from assms(2) obtain k where "(k, m) \<in> set storage" by (auto simp: dict_values_def)
  with assms(1) show ?thesis unfolding evidence_table_wf_def by blast
qed

lemma first_row_desc:
  "first_row (sorted_by_desc evidence_key rows) = Some m \<Longrightarrow>
     m \<in> set rows \<and> (\<forall>x \<in> set rows. evidence_key x \<le> evidence_key m)"
  "first_row (sorted_by_desc evidence_key rows) = None \<longleftrightarrow> rows = []"
proof -
  let ?s = "sort_key evidence_key (rev rows)"
  show "first_row (sorted_by_desc evidence_key rows) = Some m \<Longrightarrow>
      m \<in> set rows \<and> (\<forall>x \<in> set rows. evidence_key x \<le> evidence_key m)"
  proof -
    assume "first_row (sorted_by_desc evidence_key rows) = Some m"
    then obtain ms where rev: "rev ?s = m # ms"
      by (auto simp: first_row_def sorted_by_desc_def split: list.splits)
    then have s: "?s = rev ms @ [m]" by simp
    have "sorted (map evidence_key ?s)" by (rule sorted_sort_key)
    then have "\<forall>x \<in> set ms. evidence_key x \<le> evidence_key m" unfolding s by (simp add: sorted_append)
    moreover have "set rows = insert m (set ms)" using arg_cong [OF s, of set] by simp
    ultimately show ?thesis by simp
  qed
  show "first_row (sorted_by_desc evidence_key rows) = None \<longleftrightarrow> rows = []"
  proof -
    have "first_row xs = None \<longleftrightarrow> xs = []" for xs :: "'a EvidenceColumns list" by (cases xs) (simp_all add: first_row_def)
    then show ?thesis by (metis length_0_conv length_sorted_by_desc)
  qed
qed

lemma latest_row_wf:
  assumes "evidence_table_wf storage"
  obtains (none) "latest_row storage asset = None" "asset_rows storage asset = []"
      "get_latest_for_asset storage asset = Ok None"
  | (some) e where "latest_row storage asset = Some (ai_fault_evidence_to_model e)" "evidence_ok e"
      "ai_fault_evidence_to_model e \<in> set (asset_rows storage asset)"
      "\<forall>x \<in> set (asset_rows storage asset). evidence_key x \<le> evidence_key e"
      "get_latest_for_asset storage asset = Ok (Some e)"
proof (cases "latest_row storage asset")
  case None
  then have "asset_rows storage asset = []" unfolding latest_row_def first_row_desc(2) .
  with None show thesis using none by (simp add: get_latest_for_asset_def opt_domain_def)
next
  case (Some m)
  from first_row_desc(1) [OF this [unfolded latest_row_def]] have m: "m \<in> set (asset_rows storage asset)"
    "\<forall>x \<in> set (asset_rows storage asset). evidence_key x \<le> evidence_key m" by auto
  then obtain e where e: "evidence_ok e" "m = ai_fault_evidence_to_model e"
    using evidence_table_wf_row [OF assms, of m] by (auto simp: asset_rows_def)
  have "get_latest_for_asset storage asset = Ok (Some e)"
    using Some e by (simp add: get_latest_for_asset_def opt_domain_def evidence_roundtrip)
  moreover have "evidence_key m = evidence_key e" using e(2) by simp
  ultimately show thesis using some [of e] Some m e by metis
qed

lemma evidence_save_Ok:
  assumes "evidence_table_wf storage" "evidence_ok e" "evidence_save e storage = Ok storage'"
  shows "evidence_row storage (af_id e) = None" "storage' = storage @ [(af_id e, ai_fault_evidence_to_model e)]"
    "evidence_table_wf storage'"
proof -
  show none: "evidence_row storage (af_id e) = None"
    using assms(3) evidence_store.save_OkD(1) by (fastforce simp: evidence_save_def)
  show new: "storage' = storage @ [(af_id e, ai_fault_evidence_to_model e)]"
    using assms(3) none
    by (auto simp: evidence_save_def insert_evidence_def put_new_def evidence_row_def map_of_eq_None_iff dict_set_new
        split: if_splits option.splits)
  show "evidence_table_wf storage'"
    using assms(1,2) none by (auto simp: new evidence_table_wf_def dict_wf_def evidence_row_def map_of_eq_None_iff)
qed

section \<open>What one transition does\<close>

lemma decide_investigation_cases:
  assumes "decide_investigation ty fc active rt = (d, rt')"
  shows "id_investigation_status d = (if ty = ''cleared'' then ''CLEARED'' else ''OPEN'')" "env_advances rt rt'"
    and "case open_case active of
        Some a \<Rightarrow> id_investigation_id d = af_investigation_id a \<and> \<not> id_is_new d \<and> rt' = rt
      | None \<Rightarrow> id_investigation_id d = rt_uuids rt (rt_uuid_count rt) \<and> id_is_new d \<and>
          rt_uuid_count rt' = Suc (rt_uuid_count rt)"
  using assms
  by (auto simp: decide_investigation_def uuid4_def env_advances_def split: option.splits if_splits)

lemma save_entries_env: "save_entries entries timeline rt = (r, rt') \<Longrightarrow> env_advances rt rt'"
proof (induction entries timeline rt rule: save_entries.induct)
  case (2 entry entries timeline rt)
  obtain i rt1 where i: "uuid4 rt = (i, rt1)" by fastforce
  show ?case
  proof (cases "res_bind (entry i) (\<lambda>e. timeline_save e timeline)")
    case (Inl e)
    with 2 i show ?thesis by (auto intro: env_advances_uuid4)
  next
    case (Inr timeline')
    with 2 i have "env_advances rt1 rt'" by auto
    then show ?thesis using env_advances_trans env_advances_uuid4 [OF i] by blast
  qed
qed simp

lemma assess_transition_checked:
  assumes "assess_transition cfg storage ev d = Ok (c, Some r)"
  shows "check_recommendation r = Ok r"
proof -
  have "check_recommendation x = Ok y \<Longrightarrow> y = x" for x y
    by (auto simp: check_recommendation_def construct_Ok_iff)
  with assms show ?thesis
    by (auto simp: assess_transition_def build_recommendation_def Let_def res_bind_Ok_iff split: if_splits)
qed


lemma record_transition_Err:
  assumes "record_transition cfg ev active br = (Err e, br')"
  shows "\<exists>rt. br' = with_rt rt br \<and> env_advances (be_rt (br_backend br)) rt"
proof -
  let ?rt = "be_rt (br_backend br)"
  obtain d rt1 where d: "decide_investigation (va_transition_type ev) (va_fault_class ev) active ?rt = (d, rt1)" by fastforce
  obtain t2 rt2 where t2: "utc_now rt1 = (t2, rt2)" by fastforce
  obtain t3 rt3 where t3: "utc_now rt2 = (t3, rt3)" by fastforce
  have env: "env_advances ?rt rt1" "env_advances ?rt rt2" "env_advances ?rt rt3"
    using decide_investigation_cases(2) [OF d] env_advances_utc_now [OF t2] env_advances_utc_now [OF t3] env_advances_trans
    by blast+
  have "save_entries es tl rt3 = (x, rt4) \<Longrightarrow> env_advances ?rt rt4" for es tl x rt4
    using save_entries_env env_advances_trans env(3) by blast
  with assms env show ?thesis
    by (auto simp: record_transition_def d t2 t3 Let_def split: sum.splits prod.splits if_splits)
qed

lemma outbox_row_env: "outbox_row e rt = (row, rt') \<Longrightarrow> env_advances rt rt'"
  by (auto simp: outbox_row_def uuid4_def utc_now_def env_advances_def Let_def)

lemma record_transition_Ok:
  assumes "record_transition cfg ev active br = (Ok res, br')"
  obtains d rt1 c rec ts where
    "decide_investigation (va_transition_type ev) (va_fault_class ev) active (be_rt (br_backend br)) = (d, rt1)"
    "assess_transition cfg (br_observations br) ev d = Ok (c, rec)"
    "po_evidence res = evidence_of ev d c rec ts" "evidence_ok (po_evidence res)"
    "\<not> po_is_duplicate res" "po_is_new_investigation res = id_is_new d"
    "evidence_save (po_evidence res) (br_evidence br) = Ok (br_evidence br')"
    "env_advances rt1 (be_rt (br_backend br'))" "br_observations br' = br_observations br"
proof -
  let ?rt = "be_rt (br_backend br)"
  obtain d rt1 where d: "decide_investigation (va_transition_type ev) (va_fault_class ev) active ?rt = (d, rt1)" by fastforce
  obtain t2 rt2 where t2: "utc_now rt1 = (t2, rt2)" by fastforce
  obtain t3 rt3 where t3: "utc_now rt2 = (t3, rt3)" by fastforce
  from assms obtain c rec where a: "assess_transition cfg (br_observations br) ev d = Ok (c, rec)"
    by (auto simp: record_transition_def d t2 t3 Let_def split: sum.splits prod.splits)
  let ?e = "evidence_of ev d c rec t2"
  from assms obtain storage where s: "check_fault_evidence ?e = Ok ?e" "evidence_save ?e (br_evidence br) = Ok storage"
    by (auto simp: record_transition_def d t2 t3 a Let_def res_bind_Ok_iff check_fault_evidence_def construct_Ok_iff
        split: sum.splits prod.splits)
  from assms obtain timeline rt4 where t: "save_entries (bridge_entries ev d c rec t3) (be_timeline (br_backend br)) rt3 = (Ok timeline, rt4)"
    by (auto simp: record_transition_def d t2 t3 a s Let_def split: sum.splits prod.splits)
  obtain row rt5 where row: "outbox_row ?e rt4 = (row, rt5)" by fastforce
  have env: "env_advances rt1 rt4" "env_advances rt1 rt5"
    using env_advances_utc_now [OF t2] env_advances_utc_now [OF t3] save_entries_env [OF t] outbox_row_env [OF row]
      env_advances_trans by blast+
  have ok: "evidence_ok ?e"
    unfolding evidence_ok_def using s(1) assess_transition_checked a by (auto simp: evidence_of_def)
  from assms have "res = \<lparr>po_evidence = ?e, po_is_duplicate = False, po_is_new_investigation = id_is_new d\<rparr>"
    "br_evidence br' = storage" "br_observations br' = br_observations br"
    "be_rt (br_backend br') = (if bc_has_event_bus cfg then rt5 else rt4)"
    by (auto simp: record_transition_def d t2 t3 a s t row Let_def split: if_splits)
  with that [OF d a] ok s(2) env show thesis by (auto split: if_splits)
qed


section \<open>What a dispatch leaves alone\<close>

lemma dispatch_after_keeps:
  assumes "dispatch_after cfg dispatcher br = (r, br')"
  shows "br_evidence br' = br_evidence br" "br_observations br' = br_observations br"
    and "dispatcher_advances dispatcher \<Longrightarrow> env_advances (be_rt (br_backend br)) (be_rt (br_backend br'))"
proof -
  show "br_evidence br' = br_evidence br" "br_observations br' = br_observations br"
    using assms by (auto simp: dispatch_after_def split: option.splits if_splits prod.splits)
  assume adv: "dispatcher_advances dispatcher"
  with assms show "env_advances (be_rt (br_backend br)) (be_rt (br_backend br'))"
    using outbox_dispatch_env by (auto simp: dispatch_after_def split: option.splits if_splits prod.splits)
qed

text \<open>A call either leaves the evidence table as it was or appends the row of the transition.\<close>

lemma process_cases:
  assumes run: "process_alert_transition cfg dispatcher ev br = (r, br')" and wf: "evidence_table_wf (br_evidence br)"
  obtains (kept) "br_evidence br' = br_evidence br" "br_observations br' = br_observations br"
      "dispatcher_advances dispatcher \<Longrightarrow> env_advances (be_rt (br_backend br)) (be_rt (br_backend br'))"
  | (recorded) active d rt1 c rec ts e where
      "get_latest_for_asset (br_evidence br) (va_asset_id ev) = Ok active"
      "decide_investigation (va_transition_type ev) (va_fault_class ev) active (be_rt (br_backend br)) = (d, rt1)"
      "assess_transition cfg (br_observations br) ev d = Ok (c, rec)" "e = evidence_of ev d c rec ts" "evidence_ok e"
      "evidence_save e (br_evidence br) = Ok (br_evidence br')" "br_observations br' = br_observations br"
      "dispatcher_advances dispatcher \<Longrightarrow> env_advances rt1 (be_rt (br_backend br'))"
      "r = Ok \<lparr>po_evidence = e, po_is_duplicate = False, po_is_new_investigation = id_is_new d\<rparr> \<or> (\<exists>x. r = Err x)"
proof (cases "\<exists>active res br1. is_supported_fault_class (va_fault_class ev) \<and>
    evidence_get (br_evidence br) (va_event_id ev) = Ok None \<and>
    get_latest_for_asset (br_evidence br) (va_asset_id ev) = Ok active \<and> record_transition cfg ev active br = (Ok res, br1)")
  case True
  then obtain active res br1 where sup: "is_supported_fault_class (va_fault_class ev)"
    and new: "evidence_get (br_evidence br) (va_event_id ev) = Ok None"
    and act: "get_latest_for_asset (br_evidence br) (va_asset_id ev) = Ok active"
    and rec: "record_transition cfg ev active br = (Ok res, br1)" by blast
  obtain x br2 where dis: "dispatch_after cfg dispatcher br1 = (x, br2)" by fastforce
  from run sup new act rec dis have out: "br' = br2" "r = Ok res \<or> (\<exists>x. r = Err x)"
    by (auto simp: process_alert_transition_def split: sum.splits)
  note keep = dispatch_after_keeps [OF dis]
  from rec show thesis
  proof (rule record_transition_Ok)
    fix d rt1 c rec' ts
    assume a: "decide_investigation (va_transition_type ev) (va_fault_class ev) active (be_rt (br_backend br)) = (d, rt1)"
      "assess_transition cfg (br_observations br) ev d = Ok (c, rec')" "po_evidence res = evidence_of ev d c rec' ts"
      "evidence_ok (po_evidence res)" "\<not> po_is_duplicate res" "po_is_new_investigation res = id_is_new d"
      "evidence_save (po_evidence res) (br_evidence br) = Ok (br_evidence br1)"
      "env_advances rt1 (be_rt (br_backend br1))" "br_observations br1 = br_observations br"
    have res: "res = \<lparr>po_evidence = po_evidence res, po_is_duplicate = False, po_is_new_investigation = id_is_new d\<rparr>"
      using a(5,6) by (cases res) simp
    have adv: "dispatcher_advances dispatcher \<Longrightarrow> env_advances rt1 (be_rt (br_backend br'))"
      using keep(3) a(8) env_advances_trans out(1) by blast
    show thesis
      by (rule recorded [OF act a(1,2,3,4)]) (use a keep out adv res in auto)
  qed
next
  case False
  then have "br' = br \<or> (\<exists>active x. record_transition cfg ev active br = (Err x, br'))"
    using run by (auto simp: process_alert_transition_def split: sum.splits option.splits if_splits prod.splits)
  then show thesis
  proof
    assume "\<exists>active x. record_transition cfg ev active br = (Err x, br')"
    then show thesis using record_transition_Err kept by (fastforce simp: with_rt_def)
  qed (use kept in simp)
qed


section \<open>Investigations over time\<close>

text \<open>The investigations of an asset whose latest row is open.\<close>

definition open_cases :: "evidence_repo \<Rightarrow> string \<Rightarrow> string list" where
  "open_cases storage asset =
     (let rows = asset_rows storage asset
      in map af_investigation_id
           (filter (\<lambda>m. af_investigation_status m = ''OPEN'' \<and> rank_in_investigation rows m = 1) rows))"

definition in_order :: "evidence_repo \<Rightarrow> ValidatedAlertTransition \<Rightarrow> bool" where
  "in_order storage ev \<longleftrightarrow>
     (\<forall>m \<in> set (asset_rows storage (va_asset_id ev)). evidence_key m < (va_source_timestamp ev, va_event_id ev))"

text \<open>
  The states a service reaches from an empty evidence table by transitions that are redelivered or
  newer than what their asset has on record; a call may also fail.
\<close>

inductive bridge_reach :: "BridgeConfig \<Rightarrow> 'w OutboxDispatcher option \<Rightarrow> 'w bridge \<Rightarrow> bool"
  for cfg dispatcher where
  start: "br_evidence br = [] \<Longrightarrow> uuids_fresh (be_rt (br_backend br)) \<Longrightarrow> bridge_reach cfg dispatcher br"
| step: "bridge_reach cfg dispatcher br \<Longrightarrow>
    process_alert_transition cfg dispatcher ev br = (r, br') \<Longrightarrow>
    evidence_row (br_evidence br) (va_event_id ev) \<noteq> None \<or> in_order (br_evidence br) ev \<Longrightarrow>
    bridge_reach cfg dispatcher br'"

text \<open>The row that decides whether an investigation is open is the newest of its asset.\<close>

definition open_rows_latest :: "AiFaultEvidenceModel list \<Rightarrow> bool" where
  "open_rows_latest rows \<longleftrightarrow>
     (\<forall>m \<in> set rows. af_investigation_status m = ''OPEN'' \<longrightarrow> rank_in_investigation rows m = 1 \<longrightarrow>
        (\<forall>x \<in> set rows. evidence_key x \<le> evidence_key m))"

definition ids_used :: "evidence_repo \<Rightarrow> runtime \<Rightarrow> bool" where
  "ids_used storage rt \<longleftrightarrow>
     (\<forall>m \<in> set (dict_values storage). \<exists>n < rt_uuid_count rt. af_investigation_id m = rt_uuids rt n)"

definition bridge_invariant :: "evidence_repo \<Rightarrow> runtime \<Rightarrow> bool" where
  "bridge_invariant storage rt \<longleftrightarrow> evidence_table_wf storage \<and> uuids_fresh rt \<and> ids_used storage rt \<and>
     (\<forall>asset. open_rows_latest (asset_rows storage asset))"

lemma ids_used_advances: "env_advances rt rt' \<Longrightarrow> ids_used storage rt \<Longrightarrow> ids_used storage rt'"
  unfolding ids_used_def env_advances_def by (metis order_less_le_trans)

lemma evidence_table_wf_key:
  assumes "evidence_table_wf storage" "(k, m) \<in> set storage"
  shows "k = af_id m"
proof -
  from assms obtain e where "k = af_id e" "m = ai_fault_evidence_to_model e" unfolding evidence_table_wf_def by blast
  then show ?thesis by simp
qed

lemma evidence_ids:
  assumes "evidence_table_wf storage"
  shows "distinct (map af_id (dict_values storage))"
proof -
  have "map af_id (dict_values storage) = map fst storage"
    unfolding dict_values_def using evidence_table_wf_key [OF assms] by auto
  then show ?thesis using assms unfolding evidence_table_wf_def dict_wf_def by metis
qed

lemma evidence_table_wf_unique:
  "evidence_table_wf storage \<Longrightarrow> m \<in> set (dict_values storage) \<Longrightarrow> m' \<in> set (dict_values storage) \<Longrightarrow> af_id m = af_id m' \<Longrightarrow>
     m = m'"
  using evidence_ids [of storage] by (auto simp: distinct_map inj_on_def)

lemma rank_one: "rank_in_investigation rows m = 1 \<longleftrightarrow>
    (\<forall>x \<in> set rows. af_investigation_id x = af_investigation_id m \<longrightarrow> evidence_key x \<le> evidence_key m)"
  by (auto simp: rank_in_investigation_def filter_empty_conv not_less)

lemma asset_rows_snoc:
  "asset_rows (storage @ [(k, m)]) asset = asset_rows storage asset @ (if af_asset_id m = asset then [m] else [])"
  by (simp add: asset_rows_def dict_values_def)

text \<open>Appending the newest row, to the open investigation or to a new one, keeps open rows newest.\<close>

lemma open_rows_latest_snoc:
  assumes inv: "open_rows_latest rows" and newest: "\<forall>x \<in> set rows. evidence_key x < evidence_key m"
    and same: "\<forall>a \<in> set rows. af_investigation_status a = ''OPEN'' \<longrightarrow>
      (\<forall>x \<in> set rows. evidence_key x \<le> evidence_key a) \<longrightarrow> af_investigation_id m = af_investigation_id a"
  shows "open_rows_latest (rows @ [m])"
  unfolding open_rows_latest_def rank_one
proof (intro ballI impI)
  fix a x
  assume a: "a \<in> set (rows @ [m])" and st: "af_investigation_status a = ''OPEN''"
    and last: "\<forall>y \<in> set (rows @ [m]). af_investigation_id y = af_investigation_id a \<longrightarrow> evidence_key y \<le> evidence_key a"
    and x: "x \<in> set (rows @ [m])"
  show "evidence_key x \<le> evidence_key a"
  proof (cases "a = m")
    case True
    then show ?thesis using x newest by (auto intro: less_imp_le)
  next
    case False
    then have old: "a \<in> set rows" using a by simp
    then have "\<forall>y \<in> set rows. evidence_key y \<le> evidence_key a"
      using inv st last unfolding open_rows_latest_def rank_one by simp
    then have "evidence_key m \<le> evidence_key a" using same old st last by simp
    then show ?thesis using newest old by (meson leD)
  qed
qed

lemma bridge_invariant_step:
  assumes inv: "bridge_invariant (br_evidence br) (be_rt (br_backend br))" and adv: "dispatcher_advances dispatcher"
    and run: "process_alert_transition cfg dispatcher ev br = (r, br')"
    and ord: "evidence_row (br_evidence br) (va_event_id ev) \<noteq> None \<or> in_order (br_evidence br) ev"
  shows "bridge_invariant (br_evidence br') (be_rt (br_backend br'))"
proof -
  let ?S = "br_evidence br" and ?rt = "be_rt (br_backend br)" and ?rt' = "be_rt (br_backend br')"
  have wf: "evidence_table_wf ?S" and fresh: "uuids_fresh ?rt"
    and ids: "ids_used ?S ?rt"
    and latest: "\<And>asset. open_rows_latest (asset_rows ?S asset)"
    using inv by (simp_all add: bridge_invariant_def)
  show ?thesis
    using run wf
  proof (cases rule: process_cases)
    case kept
    with adv have env: "env_advances ?rt ?rt'" by simp
    with kept wf latest env_advances_fresh [OF env fresh] ids_used_advances [OF env ids] show ?thesis by (simp add: bridge_invariant_def)
  next
    case (recorded active d rt1 c rec ts e)
    let ?m = "ai_fault_evidence_to_model e"
    have e: "af_id e = va_event_id ev" "af_asset_id e = va_asset_id ev" "evidence_key e = (va_source_timestamp ev, va_event_id ev)"
      "af_investigation_id e = id_investigation_id d"
      using recorded(4) by (simp_all add: evidence_of_def evidence_key_def)
    note saved = evidence_save_Ok [OF wf recorded(5,6)]
    have ord': "in_order ?S ev" using ord saved(1) e(1) by simp
    have env: "env_advances ?rt rt1" "env_advances rt1 ?rt'"
      using decide_investigation_cases(2) [OF recorded(2)] recorded(8) adv by auto
    then have env': "env_advances ?rt ?rt'" by (rule env_advances_trans)
    have dec: "case open_case active of Some a \<Rightarrow> id_investigation_id d = af_investigation_id a
      | None \<Rightarrow> id_investigation_id d = rt_uuids ?rt (rt_uuid_count ?rt) \<and> rt_uuid_count rt1 = Suc (rt_uuid_count ?rt)"
      using decide_investigation_cases(3) [OF recorded(2)] by (auto split: option.splits)
    have "ids_used (br_evidence br') ?rt' \<and>
      (\<forall>a \<in> set (asset_rows ?S (va_asset_id ev)). af_investigation_status a = ''OPEN'' \<longrightarrow>
        (\<forall>x \<in> set (asset_rows ?S (va_asset_id ev)). evidence_key x \<le> evidence_key a) \<longrightarrow>
        af_investigation_id ?m = af_investigation_id a)"
      using wf
    proof (cases rule: latest_row_wf [where asset = "va_asset_id ev"])
      case none
      then have "open_case active = None" using recorded(1) by (simp add: open_case_def)
      then have "\<exists>n < rt_uuid_count ?rt'. af_investigation_id ?m = rt_uuids ?rt' n"
        using dec env e(4) by (intro exI [of _ "rt_uuid_count ?rt"]) (simp add: env_advances_def)
      then show ?thesis using none ids_used_advances [OF env' ids]
        by (auto simp: ids_used_def saved(2) dict_values_def)
    next
      case (some e0)
      let ?old = "ai_fault_evidence_to_model e0"
      have act: "active = Some e0" using some(5) recorded(1) by simp
      have m0: "?old \<in> set (dict_values ?S)" using some(3) by (simp add: asset_rows_def)
      have "\<exists>n < rt_uuid_count ?rt'. af_investigation_id ?m = rt_uuids ?rt' n"
      proof (cases "af_investigation_status e0 = ''OPEN''")
        case True
        with dec act e(4) have "af_investigation_id ?m = af_investigation_id ?old" by (simp add: open_case_def)
        then show ?thesis using ids_used_advances [OF env' ids] m0 unfolding ids_used_def by metis
      next
        case False
        with dec act env e(4) show ?thesis
          by (intro exI [of _ "rt_uuid_count ?rt"]) (simp add: env_advances_def open_case_def)
      qed
      moreover have "af_investigation_id ?m = af_investigation_id a"
        if a: "a \<in> set (asset_rows ?S (va_asset_id ev))" "af_investigation_status a = ''OPEN''"
          "\<forall>x \<in> set (asset_rows ?S (va_asset_id ev)). evidence_key x \<le> evidence_key a" for a
      proof -
        have "evidence_key a = evidence_key ?old" using a(1,3) some(3,4) by (auto intro!: order_antisym)
        then have "a = ?old" using evidence_table_wf_unique [OF wf _ m0, of a] a(1) by (simp add: evidence_key_def asset_rows_def)
        with dec act e(4) a(2) show ?thesis by (simp add: open_case_def)
      qed
      ultimately show ?thesis using ids_used_advances [OF env' ids] by (auto simp: ids_used_def saved(2) dict_values_def)
    qed
    then have used: "ids_used (br_evidence br') ?rt'"
      and same: "\<forall>a \<in> set (asset_rows ?S (va_asset_id ev)). af_investigation_status a = ''OPEN'' \<longrightarrow>
        (\<forall>x \<in> set (asset_rows ?S (va_asset_id ev)). evidence_key x \<le> evidence_key a) \<longrightarrow>
        af_investigation_id ?m = af_investigation_id a" by blast+
    have "open_rows_latest (asset_rows (br_evidence br') asset)" for asset
      using open_rows_latest_snoc [OF latest, of "va_asset_id ev" ?m] same ord' latest [of asset] e
      by (cases "asset = va_asset_id ev") (simp_all add: saved(2) asset_rows_snoc in_order_def)
    then show ?thesis
      using saved(3) used env_advances_fresh [OF env' fresh] by (simp add: bridge_invariant_def)
  qed
qed


lemma filter_unique:
  assumes "distinct xs" "m \<in> set xs" "\<And>x. x \<in> set xs \<Longrightarrow> P x \<Longrightarrow> x = m"
  shows "filter P xs = (if P m then [m] else [])"
proof -
  from split_list [OF assms(2)] obtain ys zs where xs: "xs = ys @ m # zs" by blast
  have "x \<in> set ys \<or> x \<in> set zs \<Longrightarrow> \<not> P x" for x using assms(1) assms(3) [of x] unfolding xs by auto
  then have "filter P ys = []" "filter P zs = []" by (simp_all add: filter_empty_conv)
  then show ?thesis by (simp add: xs)
qed

lemma bridge_reach_invariant:
  "bridge_reach cfg dispatcher br \<Longrightarrow> dispatcher_advances dispatcher \<Longrightarrow>
     bridge_invariant (br_evidence br) (be_rt (br_backend br))"
proof (induction rule: bridge_reach.induct)
  case (start br)
  then show ?case
    by (simp add: bridge_invariant_def ids_used_def dict_values_def asset_rows_def open_rows_latest_def)
next
  case (step br ev r br')
  then show ?case using bridge_invariant_step by blast
qed

text \<open>
  C3. At most one investigation of an asset is open: in every state the service reaches when the
  transitions of an asset arrive in the order of their timestamps (redeliveries and failing calls
  included), the open investigations of an asset are none or the one its newest row belongs to.
\<close>

theorem one_open_investigation:
  assumes "bridge_reach cfg dispatcher br" "dispatcher_advances dispatcher"
  shows "open_cases (br_evidence br) asset =
    (case latest_row (br_evidence br) asset of
       None \<Rightarrow> []
     | Some m \<Rightarrow> if af_investigation_status m = ''OPEN'' then [af_investigation_id m] else [])"
proof -
  let ?S = "br_evidence br"
  let ?open = "\<lambda>m. af_investigation_status m = ''OPEN'' \<and> rank_in_investigation (asset_rows ?S asset) m = 1"
  from bridge_reach_invariant [OF assms] have wf: "evidence_table_wf ?S" and latest: "open_rows_latest (asset_rows ?S asset)"
    by (simp_all add: bridge_invariant_def)
  have rows: "distinct (asset_rows ?S asset)" using evidence_ids [OF wf] by (simp add: asset_rows_def distinct_map)
  show ?thesis
    using wf
  proof (cases rule: latest_row_wf [where asset = asset])
    case none
    then show ?thesis by (simp add: open_cases_def)
  next
    case (some e)
    let ?new = "ai_fault_evidence_to_model e"
    have "x = ?new" if x: "x \<in> set (asset_rows ?S asset)" "?open x" for x
    proof -
      have "evidence_key ?new \<le> evidence_key x" using latest x some(3) unfolding open_rows_latest_def by blast
      then have "evidence_key x = evidence_key ?new" using some(4) x(1) by (auto intro!: order_antisym)
      then show ?thesis using evidence_table_wf_unique [OF wf, of x ?new] x(1) some(3) by (simp add: evidence_key_def asset_rows_def)
    qed
    then have "filter ?open (asset_rows ?S asset) = (if ?open ?new then [?new] else [])"
      by (rule filter_unique [OF rows some(3)])
    moreover have "rank_in_investigation (asset_rows ?S asset) ?new = 1" unfolding rank_one using some(4) by simp
    ultimately show ?thesis using some(1) by (simp add: open_cases_def)
  qed
qed

section \<open>Redelivery\<close>

lemma bridge_publish_keeps: "bridge_publish_attempts env p n w = (ok, w') \<Longrightarrow> bw_bridge w' = bw_bridge w"
proof (induction env p n w arbitrary: ok w' rule: bridge_publish_attempts.induct)
  case (1 env p attempt w)
  note unfold = bridge_publish_attempts.simps [of env p attempt w, unfolded Let_def]
  consider "bv_send env (bw_sends w)" | "\<not> bv_send env (bw_sends w)" "Suc attempt > bv_publish_max_retries env"
    | "\<not> bv_send env (bw_sends w)" "\<not> Suc attempt > bv_publish_max_retries env" by blast
  then show ?case
  proof cases
    case 3
    with "1.prems" have "bridge_publish_attempts env p (Suc attempt)
        (bridge_act (BridgeSlept (fmul (bv_backoff_seconds env) (of_nat (Suc attempt))))
          (bridge_act (BridgeFailed p) (w\<lparr>bw_sends := Suc (bw_sends w)\<rparr>))) = (ok, w')"
      unfolding unfold by simp
    from "1.IH" [OF refl 3(1) refl refl 3(2) this] show ?thesis by (simp add: bridge_act_def)
  qed (use "1.prems" in \<open>auto simp: unfold bridge_act_def\<close>)
qed

lemma bridge_publish_down:
  "(\<And>n. \<not> bv_send env n) \<Longrightarrow> fst (bridge_publish_attempts env p n w) = False"
proof (induction env p n w rule: bridge_publish_attempts.induct)
  case (1 env p attempt w)
  then show ?case by (simp add: bridge_publish_attempts.simps [of env p attempt w] Let_def)
qed


lemma process_new_known:
  assumes wf: "evidence_table_wf (br_evidence br)"
    and run: "process_alert_transition cfg dispatcher ev br = (Ok res, br')" "\<not> po_is_duplicate res"
  shows "\<exists>e. evidence_get (br_evidence br') (va_event_id ev) = Ok (Some e)" "is_supported_fault_class (va_fault_class ev)"
proof -
  show sup: "is_supported_fault_class (va_fault_class ev)"
    using run(1) by (simp add: process_alert_transition_def split: if_splits)
  show "\<exists>e. evidence_get (br_evidence br') (va_event_id ev) = Ok (Some e)"
    using run(1) wf
  proof (cases rule: process_cases)
    case kept
    have "evidence_get (br_evidence br) (va_event_id ev) \<noteq> Ok None"
    proof
      assume none: "evidence_get (br_evidence br) (va_event_id ev) = Ok None"
      then obtain active br1 where r: "record_transition cfg ev active br = (Ok res, br1)"
        and d: "\<exists>x. dispatch_after cfg dispatcher br1 = (x, br')"
        using run(1) sup by (auto simp: process_alert_transition_def split: sum.splits prod.splits)
      have "br_evidence br' = br_evidence br1" using d dispatch_after_keeps(1) by blast
      moreover from r obtain e where "evidence_ok e" "evidence_save e (br_evidence br) = Ok (br_evidence br1)"
        by (rule record_transition_Ok) blast
      ultimately show False using evidence_save_Ok(2) [OF wf] kept(1) by auto
    qed
    then show ?thesis using evidence_get_wf [OF wf, of "va_event_id ev"] kept(1) by auto
  next
    case (recorded active d rt1 c rec ts e)
    note saved = evidence_save_Ok [OF wf recorded(5,6)]
    have "af_id e = va_event_id ev" using recorded(4) by (simp add: evidence_of_def)
    then have "evidence_row (br_evidence br') (va_event_id ev) \<noteq> None"
      by (auto simp: saved(2) evidence_row_def map_of_eq_None_iff)
    then show ?thesis using evidence_get_wf [OF saved(3), of "va_event_id ev"] by auto
  qed
qed

text \<open>
  C29. A result that could not be published is never published: when a new transition is recorded but
  every attempt to publish its result fails, the message is not handled; delivered again to a worker
  with any broker, it is taken for a duplicate, nothing is sent and its offset is committed.
\<close>

theorem redelivery_publishes_nothing:
  assumes wf: "evidence_table_wf (br_evidence (bw_bridge w))"
    and msg: "bv_decode env payload = Inr raw" "validate_alert_transition (bv_fromisoformat env) raw = Ok ev"
    and first: "process_alert_transition (bv_config env) (bv_dispatcher env) ev (bw_bridge w) = (Ok res, br')"
      "\<not> po_is_duplicate res"
    and down: "\<And>n. \<not> bv_send env n"
  shows "\<exists>w1. bridge_handle_message env payload w = (Ok False, w1) \<and>
    (\<exists>e. evidence_get (br_evidence (bw_bridge w1)) (va_event_id ev) = Ok (Some e)) \<and>
    (\<forall>send. bridge_poll (env\<lparr>bv_send := send\<rparr>) [payload] w1 = (Ok (), w1\<lparr>bw_trace := bw_trace w1 @ [BridgeCommit]\<rparr>))"
proof -
  obtain ok w1 where pub: "publish_outcome env (po_evidence res) (w\<lparr>bw_bridge := br'\<rparr>) = (ok, w1)" by fastforce
  have keep: "\<exists>rt. bw_bridge w1 = with_rt rt br'"
    using pub bridge_publish_keeps by (fastforce simp: publish_outcome_def Let_def split: prod.splits)
  have "\<not> ok" using pub bridge_publish_down [OF down] by (auto simp: publish_outcome_def Let_def split: prod.splits) (metis fst_conv)
  then have handled: "bridge_handle_message env payload w = (Ok False, w1)"
    using msg first pub by (simp add: bridge_handle_message_def)
  from process_new_known [OF wf first] keep obtain e where
    known: "evidence_get (br_evidence (bw_bridge w1)) (va_event_id ev) = Ok (Some e)"
    and sup: "is_supported_fault_class (va_fault_class ev)" by (auto simp: with_rt_def)
  then have "bridge_poll (env\<lparr>bv_send := send\<rparr>) [payload] w1 = (Ok (), w1\<lparr>bw_trace := bw_trace w1 @ [BridgeCommit]\<rparr>)" for send
    using msg by (simp add: bridge_handle_message_def process_alert_transition_def bridge_act_def)
  with handled known show ?thesis by blast
qed

section \<open>What the corroboration reads\<close>

lemma sorted_by_append:
  assumes "\<forall>x \<in> set xs. \<forall>y \<in> set ys. k x < k y"
  shows "sorted_by k (xs @ ys) = sorted_by k xs @ sorted_by k ys"
  unfolding sorted_by_def
proof (rule properties_for_sort_key)
  show "mset (sort_key k xs @ sort_key k ys) = mset (xs @ ys)" by simp
  show "sorted (map k (sort_key k xs @ sort_key k ys))"
    using assms by (auto simp: sorted_append intro: less_imp_le)
  show "filter (\<lambda>x. k z = k x) (sort_key k xs @ sort_key k ys) = filter (\<lambda>x. k z = k x) (xs @ ys)" for z
    by (simp add: sort_key_stable eq_commute)
qed

text \<open>
  The newest readings are cut off: when the window holds as many readings of each measurement as the
  sample limit, observations that follow in the same window, up to the alert itself, never change
  the verdict, because the query takes the oldest readings of the window.
\<close>

theorem newest_readings_are_cut_off:
  assumes full: "\<And>mt. mt \<in> set [''stack_temperature'', ''coolant_flow'', ''fuel_flow'', ''voltage'', ''current''] \<Longrightarrow>
      length (fetch cfg storage ev mt) = bc_sample_limit cfg"
    and later: "\<And>a b. a \<in> set (dict_values storage) \<Longrightarrow> b \<in> set (dict_values extra) \<Longrightarrow> time_id_key a < time_id_key b"
  shows "corroborate cfg (storage @ extra) ev mapping = corroborate cfg storage ev mapping"
proof -
  have same: "fetch cfg (storage @ extra) ev mt = fetch cfg storage ev mt"
    if len: "length (fetch cfg storage ev mt) = bc_sample_limit cfg" for mt
  proof -
    define P where "P = (\<lambda>ob :: Observation. obs_asset_id ob = va_asset_id ev \<and>
      va_source_timestamp ev - seconds_us (bc_window_seconds cfg) \<le> obs_timestamp ob \<and>
      obs_timestamp ob \<le> va_source_timestamp ev \<and> mt_name (obs_measurement_type ob) = mt)"
    have f: "fetch cfg s ev mt = take (bc_sample_limit cfg) (sorted_by time_id_key (filter P (dict_values s)))" for s
      by (simp add: fetch_def sql_time_range_def P_def Let_def)
    have "sorted_by time_id_key (filter P (dict_values (storage @ extra))) =
        sorted_by time_id_key (filter P (dict_values storage)) @ sorted_by time_id_key (filter P (dict_values extra))"
      using later by (subst sorted_by_append [symmetric]) (auto simp: dict_values_def)
    with len show ?thesis unfolding f by simp
  qed
  have "fetch cfg (storage @ extra) ev mt = fetch cfg storage ev mt"
    if "mt \<in> set [''stack_temperature'', ''coolant_flow'', ''fuel_flow'', ''voltage'', ''current'']" for mt
    using same full that by blast
  then show ?thesis by (simp add: corroborate_def Let_def)
qed


section \<open>A new transition is recorded\<close>

lemma fetch_same_series: "same_series (fetch cfg storage ev mt)"
proof -
  have "obs_asset_id x = va_asset_id ev \<and> mt_name (obs_measurement_type x) = mt" if "x \<in> set (fetch cfg storage ev mt)" for x
    using that set_take_subset [of "bc_sample_limit cfg"]
    by (fastforce simp: fetch_def sql_time_range_def Let_def set_sorted_by)
  moreover have "x = y" if "mt_name x = mt_name y" for x y using that by (cases x; cases y) simp
  ultimately show ?thesis unfolding same_series_def by metis
qed

definition transition_ok :: "ValidatedAlertTransition \<Rightarrow> bool" where
  "transition_ok ev \<longleftrightarrow> va_event_id ev \<noteq> [] \<and> va_asset_id ev \<noteq> [] \<and> is_supported_fault_class (va_fault_class ev) \<and>
     va_transition_type ev \<in> set SUPPORTED_TRANSITION_TYPES \<and> va_model_system_version ev \<noteq> [] \<and>
     va_model_hash ev \<noteq> [] \<and> va_policy_hash ev \<noteq> [] \<and> va_feature_schema_version ev \<noteq> [] \<and>
     0 \<le> va_maximum_score ev \<and> va_maximum_score ev \<le> 1"

definition timeline_used :: "timeline_repo \<Rightarrow> runtime \<Rightarrow> bool" where
  "timeline_used timeline rt \<longleftrightarrow> (\<forall>k \<in> fst ` set timeline. \<exists>n < rt_uuid_count rt. k = rt_uuids rt n)"

definition bridge_ready :: "'w bridge \<Rightarrow> bool" where
  "bridge_ready br \<longleftrightarrow> evidence_table_wf (br_evidence br) \<and> uuids_fresh (be_rt (br_backend br)) \<and>
     timeline_used (be_timeline (br_backend br)) (be_rt (br_backend br))"

lemma supported_classes:
  "is_supported_fault_class c \<longleftrightarrow> c = ''cooling_degradation'' \<or> c = ''hydrogen_supply_issue'' \<or> c = ''sensor_anomaly''"
  by (auto simp: is_supported_fault_class_def dict_keys_def FAULT_CLASS_MAPPINGS_def)

lemma corroborate_total:
  assumes "is_supported_fault_class (va_fault_class ev)"
  obtains mapping c ids where "get_fault_class_mapping (va_fault_class ev) = Ok mapping"
    "corroborate cfg storage ev mapping = Ok c" "verdict ids c"
proof -
  note s = fetch_same_series [of cfg storage ev]
  from assms consider "va_fault_class ev = ''cooling_degradation''" | "va_fault_class ev = ''hydrogen_supply_issue''"
    | "va_fault_class ev = ''sensor_anomaly''" unfolding supported_classes by blast
  then show thesis
  proof cases
    case 1
    with cooling_total [OF s s] obtain c where "corroborate cfg storage ev cooling_mapping = Ok c"
      "corroborate_cooling_degradation (fetch cfg storage ev ''stack_temperature'') (fetch cfg storage ev ''coolant_flow'') = Ok c"
      by (auto simp: corroborate_def cooling_mapping_def)
    with that [of cooling_mapping c] cooling_outcome 1 show thesis
      by (auto simp: get_fault_class_mapping_def FAULT_CLASS_MAPPINGS_def)
  next
    case 2
    with hydrogen_total [OF s s] obtain c where "corroborate cfg storage ev hydrogen_mapping = Ok c"
      "corroborate_hydrogen_supply_issue (fetch cfg storage ev ''fuel_flow'') (fetch cfg storage ev ''voltage'') = Ok c"
      by (auto simp: corroborate_def hydrogen_mapping_def)
    with that [of hydrogen_mapping c] hydrogen_outcome 2 show thesis
      by (auto simp: get_fault_class_mapping_def FAULT_CLASS_MAPPINGS_def)
  next
    case 3
    from sensor_total [OF s s s s] obtain c where c: "corroborate_sensor_anomaly (fetch cfg storage ev ''stack_temperature'') (fetch cfg storage ev ''current'')
         (fetch cfg storage ev ''voltage'') (fetch cfg storage ev ''fuel_flow'') = Ok c" by blast
    then have "corroborate cfg storage ev sensor_mapping = Ok c" by (simp add: corroborate_def sensor_mapping_def)
    with that [of sensor_mapping c, OF _ _ sensor_outcome [OF c]] 3 show thesis
      by (auto simp: get_fault_class_mapping_def FAULT_CLASS_MAPPINGS_def)
  qed
qed

lemma assess_transition_total:
  assumes "is_supported_fault_class (va_fault_class ev)"
  obtains c rec where "assess_transition cfg storage ev d = Ok (c, rec)" "co_notes c \<noteq> []"
    "co_result c \<in> set CORROBORATION_RESULTS" "rec = None \<longleftrightarrow> va_transition_type ev = ''cleared''"
    "\<forall>r. rec = Some r \<longrightarrow> check_recommendation r = Ok r"
proof (cases "va_transition_type ev = ''cleared''")
  case True
  then show thesis
    using that [of not_applicable None] by (simp add: assess_transition_def not_applicable_def CORROBORATION_RESULTS_def)
next
  case False
  from corroborate_total [OF assms, of cfg storage] obtain mapping c ids where
    m: "get_fault_class_mapping (va_fault_class ev) = Ok mapping" "corroborate cfg storage ev mapping = Ok c" and v: "verdict ids c" .
  have "''ai-fault-rec-'' @ id_investigation_id d @ ''-'' @ va_event_id ev \<noteq> []" by simp
  then obtain r where r: "build_recommendation (''ai-fault-rec-'' @ id_investigation_id d @ ''-'' @ va_event_id ev) mapping c = Ok r"
    "check_recommendation r = Ok r" using v build_recommendation_Ok unfolding verdict_def by metis
  from v have "co_notes c \<noteq> []" "co_result c \<in> set CORROBORATION_RESULTS"
    by (auto simp: verdict_def CORROBORATION_RESULTS_def corroboration_results_def)
  with m r False that [of c "Some r"] show thesis by (simp add: assess_transition_def)
qed

lemma save_entries_total:
  assumes "\<forall>entry \<in> set entries. \<forall>i. i \<noteq> [] \<longrightarrow> (\<exists>e. entry i = Ok e \<and> tl_id e = i)"
    and "uuids_fresh rt" "timeline_used timeline rt"
  shows "\<exists>timeline' rt'. save_entries entries timeline rt = (Ok timeline', rt') \<and>
    length timeline' = length timeline + length entries"
  using assms
proof (induction entries arbitrary: timeline rt)
  case (Cons entry entries)
  let ?i = "rt_uuids rt (rt_uuid_count rt)" and ?rt = "rt\<lparr>rt_uuid_count := Suc (rt_uuid_count rt)\<rparr>"
  have u: "uuid4 rt = (?i, ?rt)" by (simp add: uuid4_def)
  have i: "?i \<noteq> []" "?i \<notin> fst ` set timeline"
    using Cons.prems(2,3) by (auto simp: uuids_fresh_def timeline_used_def inj_eq)
  obtain e where e: "entry ?i = Ok e" "tl_id e = ?i" using Cons.prems(1) i(1) by auto
  have saved: "timeline_save e timeline = Ok (timeline @ [(?i, e)])"
    using i(2) e(2) by (simp add: timeline_save_def put_new_def map_of_eq_None_iff [THEN iffD2] dict_set_new split: option.split)
  have "uuids_fresh ?rt" "timeline_used (timeline @ [(?i, e)]) ?rt"
    using Cons.prems(2,3) by (simp add: uuids_fresh_def) (use Cons.prems(3) in \<open>force simp: timeline_used_def less_Suc_eq\<close>)
  with Cons.IH [of ?rt "timeline @ [(?i, e)]"] Cons.prems(1) u e saved show ?case by auto
qed simp

lemma bridge_entries_total:
  assumes "va_asset_id ev \<noteq> []" "co_notes c \<noteq> []" "\<forall>r. rec = Some r \<longrightarrow> fc_action_summary r \<noteq> []"
  shows "\<forall>entry \<in> set (bridge_entries ev d c rec now). \<forall>i. i \<noteq> [] \<longrightarrow> (\<exists>e. entry i = Ok e \<and> tl_id e = i)"
  using assms by (auto simp: bridge_entries_def mk_timeline_event_def construct_Cons Let_def split: option.splits)


lemma record_transition_total:
  assumes ready: "bridge_ready br" and ok: "transition_ok ev" and new: "evidence_row (br_evidence br) (va_event_id ev) = None"
    and act: "\<forall>a. active = Some a \<longrightarrow> evidence_ok a"
  shows "\<exists>res br'. record_transition cfg ev active br = (Ok res, br')"
proof -
  let ?rt = "be_rt (br_backend br)"
  from ready have wf: "evidence_table_wf (br_evidence br)" and fresh: "uuids_fresh ?rt"
    and used: "timeline_used (be_timeline (br_backend br)) ?rt" by (simp_all add: bridge_ready_def)
  obtain d rt1 where d: "decide_investigation (va_transition_type ev) (va_fault_class ev) active ?rt = (d, rt1)" by fastforce
  note dc = decide_investigation_cases [OF d]
  have "id_investigation_id d \<noteq> []"
    using dc(3) act fresh
    by (auto simp: open_case_def uuids_fresh_def evidence_ok_def check_fault_evidence_def construct_Ok_iff split: option.splits if_splits)
  moreover have "id_investigation_status d \<in> set INVESTIGATION_STATUSES" using dc(1) by (simp add: INVESTIGATION_STATUSES_def)
  moreover obtain c rec where a: "assess_transition cfg (br_observations br) ev d = Ok (c, rec)" "co_notes c \<noteq> []"
    "co_result c \<in> set CORROBORATION_RESULTS" "\<forall>r. rec = Some r \<longrightarrow> check_recommendation r = Ok r"
    using ok assess_transition_total unfolding transition_ok_def by metis
  ultimately have chk: "check_fault_evidence (evidence_of ev d c rec t) = Ok (evidence_of ev d c rec t)" for t
    using ok by (auto simp: check_fault_evidence_def construct_Ok_iff evidence_of_def transition_ok_def one_of_def supported_classes)
  have save: "\<exists>storage. evidence_save (evidence_of ev d c rec t) (br_evidence br) = Ok storage" for t
    using evidence_store.save_fresh [of "br_evidence br" "ai_fault_evidence_to_model (evidence_of ev d c rec t)"] new
    by (auto simp: evidence_save_def evidence_of_def)
  obtain t2 rt2 where t2: "utc_now rt1 = (t2, rt2)" by fastforce
  obtain t3 rt3 where t3: "utc_now rt2 = (t3, rt3)" by fastforce
  have env: "env_advances ?rt rt3"
    using dc(2) env_advances_utc_now [OF t2] env_advances_utc_now [OF t3] env_advances_trans by blast
  have "\<forall>r. rec = Some r \<longrightarrow> fc_action_summary r \<noteq> []"
    using a(4) by (auto simp: check_recommendation_def construct_Ok_iff)
  then have "\<forall>entry \<in> set (bridge_entries ev d c rec t3). \<forall>i. i \<noteq> [] \<longrightarrow> (\<exists>e. entry i = Ok e \<and> tl_id e = i)"
    using bridge_entries_total ok a(2) unfolding transition_ok_def by blast
  moreover have "timeline_used (be_timeline (br_backend br)) rt3"
    using used env unfolding timeline_used_def env_advances_def by (metis order_less_le_trans)
  ultimately obtain timeline rt4 where
    "save_entries (bridge_entries ev d c rec t3) (be_timeline (br_backend br)) rt3 = (Ok timeline, rt4)"
    using save_entries_total env_advances_fresh [OF env fresh] by blast
  with d a(1) t2 t3 chk save [of t2] show ?thesis
    by (auto simp: record_transition_def Let_def split: prod.splits)
qed



section \<open>A concrete alert\<close>

definition demo_transition :: FaultAlertTransitionEvent where
  "demo_transition =
     \<lparr>ft_event_id = ''ev-1'', ft_event_version = ''v1'', ft_occurred_at = 50, ft_asset_id = ''stack-1'',
      ft_source_timestamp = 50, ft_transition_type = ''confirmed'', ft_from_state = ''healthy'',
      ft_to_state = ''confirmed_sensor_anomaly'', ft_diagnosed_class = Some ''sensor_anomaly'', ft_evidence = [],
      ft_model_system_version = Some ''1'', ft_model_hash = Some ''m'', ft_policy_hash = Some ''p'',
      ft_feature_schema_version = Some ''1.0'', ft_class_scores = Some [(''sensor_anomaly'', 1)], ft_maximum_score = Some 1\<rparr>"

definition demo_alert :: ValidatedAlertTransition where
  "demo_alert = delivered demo_transition ''sensor_anomaly''"

definition demo_bridge :: "observation_repo \<Rightarrow> unit bridge" where
  "demo_bridge observations =
     \<lparr>br_backend = demo_backend, br_observations = observations, br_evidence = [], br_outbox = []\<rparr>"

definition demo_bridge_env :: "unit BridgeEnvironment" where
  "demo_bridge_env =
     \<lparr>bv_decode = \<lambda>s. Inr (sort_keys (transition_json demo_transition)), bv_fromisoformat = \<lambda>s. Some 50,
      bv_uuid5 = id, bv_send = \<lambda>n. False,
      bv_config = \<lparr>bc_window_seconds = 900, bc_sample_limit = 1, bc_has_event_bus = True\<rparr>,
      bv_dispatcher = None, bv_output_topic = ''results'', bv_publish_max_retries = 3, bv_backoff_seconds = 1/2\<rparr>"

lemma demo_alert_valid:
  "validate_alert_transition (bv_fromisoformat demo_bridge_env) (sort_keys (transition_json demo_transition)) = Ok demo_alert"
  unfolding demo_alert_def
  by (rule transition_arrives)
     (simp_all add: scored_def demo_transition_def SUPPORTED_TRANSITION_TYPES_def confirmed_state_def demo_bridge_env_def)

lemma demo_alert_ok:
  "transition_ok demo_alert" "bridge_ready (demo_bridge obs)" "dispatch_after cfg None br = (Ok (), br)"
  "va_event_id demo_alert = ''ev-1''" "va_asset_id demo_alert = ''stack-1''" "va_transition_type demo_alert = ''confirmed''"
  by (simp_all add: transition_ok_def demo_alert_def delivered_def demo_transition_def supported_classes
      SUPPORTED_TRANSITION_TYPES_def bridge_ready_def demo_bridge_def demo_backend_def timeline_used_def
      demo_runtime_fresh dispatch_after_def)

lemma demo_processed:
  obtains res br' where "record_transition cfg demo_alert None (demo_bridge []) = (Ok res, br')"
    "process_alert_transition cfg None demo_alert (demo_bridge []) = (Ok res, br')" "\<not> po_is_duplicate res"
proof -
  have "evidence_row (br_evidence (demo_bridge [])) (va_event_id demo_alert) = None"
    by (simp add: demo_bridge_def evidence_row_def)
  from record_transition_total [OF demo_alert_ok(2,1) this] obtain res br' where
    run: "record_transition cfg demo_alert None (demo_bridge []) = (Ok res, br')" by blast
  have "is_supported_fault_class (va_fault_class demo_alert)" using demo_alert_ok(1) by (simp add: transition_ok_def)
  moreover have "evidence_get (br_evidence (demo_bridge [])) i = Ok None"
    "get_latest_for_asset (br_evidence (demo_bridge [])) a = Ok None" for i a
    by (simp_all add: demo_bridge_def evidence_get_def evidence_row_def opt_domain_def get_latest_for_asset_def
        latest_row_def asset_rows_def dict_values_def sorted_by_desc_def first_row_def)
  ultimately have "process_alert_transition cfg None demo_alert (demo_bridge []) = (Ok res, br')"
    using run by (simp add: process_alert_transition_def demo_alert_ok(3))
  moreover have "\<not> po_is_duplicate res" using run by (rule record_transition_Ok) blast
  ultimately show thesis using that run by blast
qed


theorem one_open_investigation_witness:
  "\<exists>br :: unit bridge. bridge_reach (bv_config demo_bridge_env) None br \<and> br_evidence br \<noteq> [] \<and> length (open_cases (br_evidence br) ''stack-1'') \<le> 1"
proof -
  let ?cfg = "bv_config demo_bridge_env"
  have start: "bridge_reach ?cfg None (demo_bridge [])"
    by (rule bridge_reach.start) (simp_all add: demo_bridge_def demo_backend_def demo_runtime_fresh)
  have ord: "in_order (br_evidence (demo_bridge [])) demo_alert"
    by (simp add: demo_bridge_def in_order_def asset_rows_def dict_values_def)
  obtain res br' where run: "record_transition ?cfg demo_alert None (demo_bridge []) = (Ok res, br')"
    and p: "process_alert_transition ?cfg None demo_alert (demo_bridge []) = (Ok res, br')" by (rule demo_processed)
  have reach: "bridge_reach ?cfg None br'" by (rule bridge_reach.step [OF start p]) (simp add: ord)
  from run obtain e where "evidence_ok e" "evidence_save e (br_evidence (demo_bridge [])) = Ok (br_evidence br')"
    by (rule record_transition_Ok) blast
  then have "br_evidence br' \<noteq> []"
    using evidence_save_Ok(2) [of "br_evidence (demo_bridge [])" e] by (simp add: demo_bridge_def)
  moreover have "length (open_cases (br_evidence br') ''stack-1'') \<le> 1"
    using one_open_investigation [OF reach, of "''stack-1''"] by (simp add: dispatcher_advances_def split: option.splits)
  ultimately show ?thesis using reach by blast
qed

theorem redelivery_publishes_nothing_witness:
  "\<exists>w1. bridge_handle_message demo_bridge_env ''m'' \<lparr>bw_bridge = demo_bridge [], bw_sends = 0, bw_trace = []\<rparr> = (Ok False, w1) \<and>
     bridge_poll (demo_bridge_env\<lparr>bv_send := \<lambda>n. True\<rparr>) [''m''] w1 = (Ok (), w1\<lparr>bw_trace := bw_trace w1 @ [BridgeCommit]\<rparr>)"
proof -
  let ?w = "\<lparr>bw_bridge = demo_bridge [], bw_sends = 0, bw_trace = []\<rparr>"
  obtain res br' where "process_alert_transition (bv_config demo_bridge_env) None demo_alert (demo_bridge []) = (Ok res, br')"
    and dup: "\<not> po_is_duplicate res" by (rule demo_processed)
  then have p: "process_alert_transition (bv_config demo_bridge_env) (bv_dispatcher demo_bridge_env) demo_alert (bw_bridge ?w) = (Ok res, br')"
    by (simp add: demo_bridge_env_def)
  have "evidence_table_wf (br_evidence (bw_bridge ?w))" "bv_decode demo_bridge_env ''m'' = Inr (sort_keys (transition_json demo_transition))"
    "\<not> bv_send demo_bridge_env n" for n
    by (simp_all add: demo_bridge_def demo_bridge_env_def)
  from redelivery_publishes_nothing [OF this(1,2) demo_alert_valid p dup this(3)] show ?thesis by blast
qed

definition demo_reading_at :: "string \<Rightarrow> datetime \<Rightarrow> string \<times> Observation" where
  "demo_reading_at mt t =
     (mt, \<lparr>obs_id = mt, obs_asset_id = ''stack-1'', obs_timestamp = t, obs_measurement_type = MeasurementType mt,
           obs_value = 1, obs_unit = ''u''\<rparr>)"

theorem newest_readings_are_cut_off_witness:
  "corroborate (bv_config demo_bridge_env)
     (map (\<lambda>mt. demo_reading_at mt 40) [''stack_temperature'', ''coolant_flow'', ''fuel_flow'', ''voltage'', ''current''] @
      [(''late'', snd (demo_reading_at ''voltage'' 45))]) demo_alert sensor_mapping =
   corroborate (bv_config demo_bridge_env)
     (map (\<lambda>mt. demo_reading_at mt 40) [''stack_temperature'', ''coolant_flow'', ''fuel_flow'', ''voltage'', ''current''])
     demo_alert sensor_mapping"
proof (rule newest_readings_are_cut_off)
  let ?names = "[''stack_temperature'', ''coolant_flow'', ''fuel_flow'', ''voltage'', ''current'']"
  have us: "seconds_us 900 = 900000000" by code_simp
  show "length (fetch (bv_config demo_bridge_env) (map (\<lambda>mt. demo_reading_at mt 40) ?names) demo_alert mt) =
      bc_sample_limit (bv_config demo_bridge_env)" if "mt \<in> set ?names" for mt
    using that us
    by (auto simp: fetch_def sql_time_range_def demo_bridge_env_def dict_values_def demo_reading_at_def demo_alert_ok(5)
        demo_alert_def delivered_def demo_transition_def sorted_by_def Let_def)
  show "time_id_key a < time_id_key b" if "a \<in> set (dict_values (map (\<lambda>mt. demo_reading_at mt 40) ?names))"
    "b \<in> set (dict_values [(''late'', snd (demo_reading_at ''voltage'' 45))])" for a b
    using that by (auto simp: dict_values_def demo_reading_at_def time_id_key_def)
qed

end
