(* ===== verification/Job_Queue.thy ===== *)
theory Job_Queue
  imports Repositories
begin

text \<open>
  The durable queue of reasoning jobs (\<^verbatim>\<open>src/backend/app/domain/reasoning_job.py\<close>,
  \<^verbatim>\<open>application/reasoning_job_queue.py\<close>, \<^verbatim>\<open>infrastructure/repositories/reasoning_job_repository.py\<close>
  and its mapper): the table with its partial unique index, the upsert that coalesces requests, the
  claim of the oldest pending job, the completion that schedules a follow-up, and the counters. The
  queue is shown to implement a per-asset state machine and to serve pending jobs in order.
  A table is its list of rows in insertion order; a statement of the repository is one step.
\<close>

section \<open>Jobs and rows\<close>

datatype ReasoningJobStatus = JOB_PENDING | JOB_RUNNING | JOB_COMPLETED | JOB_FAILED

primrec job_status_value :: "ReasoningJobStatus \<Rightarrow> string" where
  "job_status_value JOB_PENDING = ''PENDING''"
| "job_status_value JOB_RUNNING = ''RUNNING''"
| "job_status_value JOB_COMPLETED = ''COMPLETED''"
| "job_status_value JOB_FAILED = ''FAILED''"

text \<open>The domain entity and the row have the same columns; the row has the status as text.\<close>

record 'status job =
  rj_id :: string
  rj_asset_id :: string
  rj_status :: 'status
  rj_created_at :: datetime
  rj_started_at :: "datetime option"
  rj_completed_at :: "datetime option"
  rj_attempts :: int
  rj_dirty :: bool
  rj_coalesced_count :: int

type_synonym ReasoningJob = "ReasoningJobStatus job"
type_synonym ReasoningJobModel = "string job"
type_synonym job_table = "ReasoningJobModel list"

definition with_status :: "'b \<Rightarrow> 'a job \<Rightarrow> 'b job" where
  "with_status s j =
     \<lparr>rj_id = rj_id j, rj_asset_id = rj_asset_id j, rj_status = s, rj_created_at = rj_created_at j,
      rj_started_at = rj_started_at j, rj_completed_at = rj_completed_at j, rj_attempts = rj_attempts j,
      rj_dirty = rj_dirty j, rj_coalesced_count = rj_coalesced_count j\<rparr>"

definition job_status_of :: "string \<Rightarrow> ReasoningJobStatus result" where
  "job_status_of s =
     (if s = ''PENDING'' then Ok JOB_PENDING
      else if s = ''RUNNING'' then Ok JOB_RUNNING
      else if s = ''COMPLETED'' then Ok JOB_COMPLETED
      else if s = ''FAILED'' then Ok JOB_FAILED
      else Err (ValueError (py_repr s @ '' is not a valid ReasoningJobStatus'')))"

definition reasoning_job_to_model :: "ReasoningJob \<Rightarrow> ReasoningJobModel" where
  "reasoning_job_to_model job = with_status (job_status_value (rj_status job)) job"

definition reasoning_job_to_domain :: "ReasoningJobModel \<Rightarrow> ReasoningJob result" where
  "reasoning_job_to_domain model = res_bind (job_status_of (rj_status model)) (\<lambda>s. Ok (with_status s model))"

section \<open>The repository\<close>

definition outstanding :: "ReasoningJobModel \<Rightarrow> bool" where
  "outstanding r \<longleftrightarrow> rj_status r = ''PENDING'' \<or> rj_status r = ''RUNNING''"

definition integrity_error :: "string \<Rightarrow> py_error" where
  "integrity_error constraint = AppError ''IntegrityError'' constraint"

text \<open>An insert fails on a known identifier and on a second outstanding job of the asset.\<close>

definition job_insert :: "ReasoningJobModel \<Rightarrow> job_table \<Rightarrow> job_table result" where
  "job_insert r table =
     (if \<exists>r' \<in> set table. rj_id r' = rj_id r then Err (integrity_error ''reasoning_jobs_pkey'')
      else if outstanding r \<and> (\<exists>r' \<in> set table. outstanding r' \<and> rj_asset_id r' = rj_asset_id r)
      then Err (integrity_error ''ux_reasoning_jobs_outstanding'')
      else Ok (table @ [r]))"

definition job_save :: "ReasoningJob \<Rightarrow> job_table \<Rightarrow> job_table result" where
  "job_save job table = job_insert (reasoning_job_to_model job) table"

definition job_row :: "job_table \<Rightarrow> string \<Rightarrow> ReasoningJobModel option" where
  "job_row table i = find (\<lambda>r. rj_id r = i) table"

definition job_get :: "job_table \<Rightarrow> string \<Rightarrow> ReasoningJob option result" where
  "job_get table i =
     (case job_row table i of
        None \<Rightarrow> Ok None
      | Some model \<Rightarrow> res_bind (reasoning_job_to_domain model) (\<lambda>j. Ok (Some j)))"

text \<open>The update of the row with an identifier.\<close>

definition set_row :: "string \<Rightarrow> (ReasoningJobModel \<Rightarrow> ReasoningJobModel) \<Rightarrow> job_table \<Rightarrow> job_table" where
  "set_row i f table = map (\<lambda>r. if rj_id r = i then f r else r) table"

definition job_update :: "ReasoningJob \<Rightarrow> job_table \<Rightarrow> job_table result" where
  "job_update job table =
     (case job_row table (rj_id job) of
        None \<Rightarrow> Err (ValueError (''reasoning job with id '' @ py_repr (rj_id job) @ '' not found''))
      | Some _ \<Rightarrow>
          (let table' = set_row (rj_id job)
                 (\<lambda>r. r\<lparr>rj_asset_id := rj_asset_id job, rj_status := job_status_value (rj_status job),
                        rj_created_at := rj_created_at job, rj_started_at := rj_started_at job,
                        rj_completed_at := rj_completed_at job, rj_attempts := rj_attempts job\<rparr>) table
           in if \<exists>r \<in> set table. rj_id r \<noteq> rj_id job \<and> outstanding r \<and> rj_asset_id r = rj_asset_id job \<and>
                   rj_status job \<in> {JOB_PENDING, JOB_RUNNING}
              then Err (integrity_error ''ux_reasoning_jobs_outstanding'') else Ok table'))"

definition count_by_status :: "string \<Rightarrow> job_table \<Rightarrow> nat" where
  "count_by_status s table = length (filter (\<lambda>r. rj_status r = s) table)"

text \<open>Pending rows in the order of their creation; the database leaves the order of ties open.\<close>

definition pending_jobs :: "job_table \<Rightarrow> ReasoningJobModel list" where
  "pending_jobs table = sorted_by rj_created_at (filter (\<lambda>r. rj_status r = ''PENDING'') table)"

definition claim_oldest_pending ::
    "job_table \<Rightarrow> runtime \<Rightarrow> ReasoningJob option result \<times> job_table \<times> runtime" where
  "claim_oldest_pending table rt =
     (case pending_jobs table of
        [] \<Rightarrow> (Ok None, table, rt)
      | model # _ \<Rightarrow>
          (let (now, rt') = utc_now rt;
               claimed = model\<lparr>rj_status := ''RUNNING'', rj_started_at := Some now,
                               rj_attempts := rj_attempts model + 1\<rparr>
           in (res_bind (reasoning_job_to_domain claimed) (\<lambda>j. Ok (Some j)),
               set_row (rj_id model) (\<lambda>_. claimed) table, rt')))"

definition pending_row :: "string \<Rightarrow> string \<Rightarrow> datetime \<Rightarrow> ReasoningJobModel" where
  "pending_row i asset now =
     \<lparr>rj_id = i, rj_asset_id = asset, rj_status = ''PENDING'', rj_created_at = now, rj_started_at = None,
      rj_completed_at = None, rj_attempts = 0, rj_dirty = False, rj_coalesced_count = 0\<rparr>"

text \<open>\<^verbatim>\<open>INSERT ... ON CONFLICT DO UPDATE\<close> on the partial index, and whether the row is new.\<close>

definition enqueue_or_mark_dirty ::
    "string \<Rightarrow> job_table \<Rightarrow> runtime \<Rightarrow> (ReasoningJob \<times> bool) result \<times> job_table \<times> runtime" where
  "enqueue_or_mark_dirty asset table rt =
     (let (now, rt1) = utc_now rt; (candidate, rt2) = uuid4 rt1
      in case find (\<lambda>r. outstanding r \<and> rj_asset_id r = asset) table of
           Some old \<Rightarrow>
             (let row = old\<lparr>rj_dirty := True, rj_coalesced_count := rj_coalesced_count old + 1\<rparr>
              in (res_bind (reasoning_job_to_domain row) (\<lambda>job. Ok (job, rj_id job = candidate)),
                  set_row (rj_id old) (\<lambda>_. row) table, rt2))
         | None \<Rightarrow>
             (let row = pending_row candidate asset now
              in case job_insert row table of
                   Inl e \<Rightarrow> (Err e, table, rt2)
                 | Inr table' \<Rightarrow>
                     (res_bind (reasoning_job_to_domain row) (\<lambda>job. Ok (job, rj_id job = candidate)), table', rt2)))"

text \<open>
  The job leaves the index first, then its dirty mark is consumed, then the follow-up is inserted.
  The identifier of the job selects the row; its other fields are those of the table.
\<close>

definition finish_and_reschedule ::
    "ReasoningJob \<Rightarrow> ReasoningJobStatus \<Rightarrow> job_table \<Rightarrow> runtime \<Rightarrow>
     (ReasoningJob \<times> ReasoningJob option) result \<times> job_table \<times> runtime" where
  "finish_and_reschedule job terminal table rt =
     (let (now, rt1) = utc_now rt
      in case job_row table (rj_id job) of
           None \<Rightarrow> (Err (AppError ''NoResultFound'' ''No row was found when one was required''), table, rt1)
         | Some old \<Rightarrow>
             (let finished = old\<lparr>rj_status := job_status_value terminal, rj_completed_at := Some now\<rparr>;
                  table1 = set_row (rj_id job) (\<lambda>_. finished) table
              in case reasoning_job_to_domain finished of
                   Inl e \<Rightarrow> (Err e, table1, rt1)
                 | Inr finished_job \<Rightarrow>
                     if \<not> rj_dirty finished_job then (Ok (finished_job, None), table1, rt1)
                     else
                       (let table2 = set_row (rj_id job) (\<lambda>r. r\<lparr>rj_dirty := False\<rparr>) table1;
                            finished_job' = finished_job\<lparr>rj_dirty := False\<rparr>;
                            (i, rt2) = uuid4 rt1;
                            row = pending_row i (rj_asset_id finished_job') now
                        in case job_insert row table2 of
                             Inl e \<Rightarrow> (Err e, table2, rt2)
                           | Inr table3 \<Rightarrow>
                               (res_bind (reasoning_job_to_domain row)
                                  (\<lambda>rescheduled. Ok (finished_job', Some rescheduled)), table3, rt2))))"

definition complete_and_reschedule ::
    "ReasoningJob \<Rightarrow> job_table \<Rightarrow> runtime \<Rightarrow>
     (ReasoningJob \<times> ReasoningJob option) result \<times> job_table \<times> runtime" where
  "complete_and_reschedule job = finish_and_reschedule job JOB_COMPLETED"

definition fail_and_reschedule ::
    "ReasoningJob \<Rightarrow> job_table \<Rightarrow> runtime \<Rightarrow>
     (ReasoningJob \<times> ReasoningJob option) result \<times> job_table \<times> runtime" where
  "fail_and_reschedule job = finish_and_reschedule job JOB_FAILED"

section \<open>The queue and its counters\<close>

record JobMetrics =
  jm_created :: int
  jm_coalesced :: int
  jm_completed :: int
  jm_failed :: int
  jm_rescheduled :: int
  jm_running :: int

definition no_jobs_counted :: JobMetrics where
  "no_jobs_counted =
     \<lparr>jm_created = 0, jm_coalesced = 0, jm_completed = 0, jm_failed = 0, jm_rescheduled = 0, jm_running = 0\<rparr>"

record job_queue =
  jq_table :: job_table
  jq_rt :: runtime
  jq_metrics :: JobMetrics

type_synonym 'a queue_op = "job_queue \<Rightarrow> 'a result \<times> job_queue"

definition count_job :: "(JobMetrics \<Rightarrow> JobMetrics) \<Rightarrow> job_queue \<Rightarrow> job_queue" where
  "count_job f q = q\<lparr>jq_metrics := f (jq_metrics q)\<rparr>"

definition record_reasoning_job_created :: "JobMetrics \<Rightarrow> JobMetrics" where
  "record_reasoning_job_created m = m\<lparr>jm_created := jm_created m + 1\<rparr>"

definition record_reasoning_job_running_started :: "JobMetrics \<Rightarrow> JobMetrics" where
  "record_reasoning_job_running_started m = m\<lparr>jm_running := jm_running m + 1\<rparr>"

definition record_reasoning_job_running_finished :: "JobMetrics \<Rightarrow> JobMetrics" where
  "record_reasoning_job_running_finished m = m\<lparr>jm_running := jm_running m - 1\<rparr>"

definition record_reasoning_job_completed :: "JobMetrics \<Rightarrow> JobMetrics" where
  "record_reasoning_job_completed m = m\<lparr>jm_completed := jm_completed m + 1\<rparr>"

definition record_reasoning_job_failed :: "JobMetrics \<Rightarrow> JobMetrics" where
  "record_reasoning_job_failed m = m\<lparr>jm_failed := jm_failed m + 1\<rparr>"

definition record_reasoning_job_coalesced :: "JobMetrics \<Rightarrow> JobMetrics" where
  "record_reasoning_job_coalesced m = m\<lparr>jm_coalesced := jm_coalesced m + 1\<rparr>"

definition record_reasoning_job_rescheduled :: "JobMetrics \<Rightarrow> JobMetrics" where
  "record_reasoning_job_rescheduled m = m\<lparr>jm_rescheduled := jm_rescheduled m + 1\<rparr>"

definition enqueue :: "string \<Rightarrow> ReasoningJob queue_op" where
  "enqueue asset q =
     (case enqueue_or_mark_dirty asset (jq_table q) (jq_rt q) of
        (r, table, rt) \<Rightarrow>
          (let q' = q\<lparr>jq_table := table, jq_rt := rt\<rparr>
           in case r of
                Inl e \<Rightarrow> (Err e, q')
              | Inr (job, created) \<Rightarrow>
                  (Ok job, count_job (if created then record_reasoning_job_created
                                      else record_reasoning_job_coalesced) q')))"

definition claim :: "ReasoningJob option queue_op" where
  "claim q =
     (case claim_oldest_pending (jq_table q) (jq_rt q) of
        (r, table, rt) \<Rightarrow>
          (let q' = q\<lparr>jq_table := table, jq_rt := rt\<rparr>
           in case r of
                Inr (Some job) \<Rightarrow> (r, count_job record_reasoning_job_running_started q')
              | _ \<Rightarrow> (r, q')))"

definition finish_job :: "ReasoningJobStatus \<Rightarrow> (JobMetrics \<Rightarrow> JobMetrics) \<Rightarrow> ReasoningJob \<Rightarrow> ReasoningJob queue_op" where
  "finish_job terminal tally job q =
     (case finish_and_reschedule job terminal (jq_table q) (jq_rt q) of
        (r, table, rt) \<Rightarrow>
          (let q' = q\<lparr>jq_table := table, jq_rt := rt\<rparr>
           in case r of
                Inl e \<Rightarrow> (Err e, q')
              | Inr (finished, rescheduled) \<Rightarrow>
                  (let q1 = count_job tally (count_job record_reasoning_job_running_finished q')
                   in (Ok finished,
                       if rescheduled \<noteq> None
                       then count_job record_reasoning_job_rescheduled (count_job record_reasoning_job_created q1)
                       else q1))))"

definition queue_complete :: "ReasoningJob \<Rightarrow> ReasoningJob queue_op" where
  "queue_complete = finish_job JOB_COMPLETED record_reasoning_job_completed"

definition queue_fail :: "ReasoningJob \<Rightarrow> ReasoningJob queue_op" where
  "queue_fail = finish_job JOB_FAILED record_reasoning_job_failed"

section \<open>The table\<close>

text \<open>
  Identifiers are unique, an asset has one outstanding job at most, only an outstanding job is dirty,
  and a job is attempted once: it has not been started while it is pending.
\<close>

definition job_row_ok :: "ReasoningJobModel \<Rightarrow> bool" where
  "job_row_ok r \<longleftrightarrow>
     (rj_status r = ''PENDING'' \<and> rj_attempts r = 0 \<and> rj_started_at r = None \<or>
      rj_status r \<in> {''RUNNING'', ''COMPLETED'', ''FAILED''} \<and> rj_attempts r = 1 \<and> rj_started_at r \<noteq> None) \<and>
     (rj_dirty r \<longrightarrow> outstanding r)"

definition job_table_wf :: "job_table \<Rightarrow> bool" where
  "job_table_wf table \<longleftrightarrow>
     distinct (map rj_id table) \<and> (\<forall>r \<in> set table. job_row_ok r) \<and>
     (\<forall>r \<in> set table. \<forall>r' \<in> set table.
        outstanding r \<and> outstanding r' \<and> rj_asset_id r = rj_asset_id r' \<longrightarrow> rj_id r = rj_id r')"

lemma job_table_wf_distinct: "job_table_wf table \<Longrightarrow> distinct (map rj_id table)"
  by (simp add: job_table_wf_def)

lemma job_table_wf_row: "job_table_wf table \<Longrightarrow> r \<in> set table \<Longrightarrow> job_row_ok r"
  unfolding job_table_wf_def by blast

lemma rows_same_id: "distinct (map rj_id table) \<Longrightarrow> r \<in> set table \<Longrightarrow> r' \<in> set table \<Longrightarrow> rj_id r = rj_id r' \<Longrightarrow> r = r'"
  by (simp add: distinct_map inj_on_def)

lemma rows_same_asset:
  assumes "job_table_wf table" "r \<in> set table" "r' \<in> set table" "outstanding r" "outstanding r'"
    "rj_asset_id r = rj_asset_id r'"
  shows "r = r'"
proof -
  have "rj_id r = rj_id r'" using assms unfolding job_table_wf_def by blast
  then show ?thesis by (rule rows_same_id [OF job_table_wf_distinct [OF assms(1)] assms(2,3)])
qed

lemma job_table_wfI:
  assumes "distinct (map rj_id table)" "\<And>r. r \<in> set table \<Longrightarrow> job_row_ok r"
    "\<And>r r'. r \<in> set table \<Longrightarrow> r' \<in> set table \<Longrightarrow> outstanding r \<Longrightarrow> outstanding r' \<Longrightarrow>
       rj_asset_id r = rj_asset_id r' \<Longrightarrow> r = r'"
  shows "job_table_wf table"
  unfolding job_table_wf_def using assms by blast

lemma job_row_Some: "distinct (map rj_id table) \<Longrightarrow> job_row table i = Some r \<longleftrightarrow> r \<in> set table \<and> rj_id r = i"
  by (auto simp: job_row_def find_Some_iff in_set_conv_nth distinct_conv_nth nth_eq_iff_index_eq)

lemma job_row_None: "job_row table i = None \<longleftrightarrow> i \<notin> rj_id ` set table"
  by (auto simp: job_row_def find_None_iff)

lemma set_row_set:
  assumes "distinct (map rj_id table)" "m \<in> set table"
  shows "set (set_row (rj_id m) f table) = insert (f m) (set table - {m})"
proof -
  have "set (set_row (rj_id m) f table) = (\<lambda>r. if r = m then f m else r) ` set table"
    unfolding set_row_def set_map
    by (rule image_cong [OF refl]) (use rows_same_id [OF assms(1) _ assms(2)] in auto)
  then show ?thesis using assms(2) by auto
qed

lemma set_row_length [simp]: "length (set_row i f table) = length table"
  by (simp add: set_row_def)

lemma set_row_ids: "(\<And>r. rj_id r = i \<Longrightarrow> rj_id (f r) = i) \<Longrightarrow> map rj_id (set_row i f table) = map rj_id table"
  by (auto simp: set_row_def)

lemma set_row_twice: "(\<And>r. rj_id r = i \<Longrightarrow> rj_id (f r) = i) \<Longrightarrow> set_row i g (set_row i f table) = set_row i (g \<circ> f) table"
  by (auto simp: set_row_def)

text \<open>Replacing one row keeps the table well formed when the row stays of its asset and is not reopened.\<close>

lemma set_row_wf:
  assumes wf: "job_table_wf table" and m: "m \<in> set table" and f: "rj_id m' = rj_id m" "rj_asset_id m' = rj_asset_id m"
    and ok: "job_row_ok m'" and reopen: "outstanding m' \<Longrightarrow> outstanding m"
  shows "job_table_wf (set_row (rj_id m) (\<lambda>_. m') table)"
proof (rule job_table_wfI)
  note dist = job_table_wf_distinct [OF wf]
  note rows = set_row_set [OF dist m, of "\<lambda>_. m'"]
  show "distinct (map rj_id (set_row (rj_id m) (\<lambda>_. m') table))"
    by (subst set_row_ids) (use f dist in auto)
  show "job_row_ok r" if "r \<in> set (set_row (rj_id m) (\<lambda>_. m') table)" for r
    using that ok job_table_wf_row [OF wf] unfolding rows by blast
  fix r r'
  assume "r \<in> set (set_row (rj_id m) (\<lambda>_. m') table)" "r' \<in> set (set_row (rj_id m) (\<lambda>_. m') table)"
    and o: "outstanding r" "outstanding r'" "rj_asset_id r = rj_asset_id r'"
  then consider "r = r'" | "r = m'" "r' \<in> set table - {m}" | "r' = m'" "r \<in> set table - {m}"
    | "r \<in> set table" "r' \<in> set table" unfolding rows by blast
  then show "r = r'"
  proof cases
    case 2
    then have "r' = m" using rows_same_asset [OF wf _ m] o f reopen by auto
    with 2 show ?thesis by simp
  next
    case 3
    then have "r = m" using rows_same_asset [OF wf _ m] o f reopen by auto
    with 3 show ?thesis by simp
  qed (use o rows_same_asset [OF wf] in auto)
qed

lemma pending_row_simps [simp]:
  "rj_id (pending_row i a t) = i" "rj_asset_id (pending_row i a t) = a" "rj_created_at (pending_row i a t) = t"
  "rj_status (pending_row i a t) = ''PENDING''" "\<not> rj_dirty (pending_row i a t)"
  "rj_coalesced_count (pending_row i a t) = 0"
  "outstanding (pending_row i a t)" "job_row_ok (pending_row i a t)"
  by (simp_all add: pending_row_def outstanding_def job_row_ok_def)

lemma insert_pending_wf:
  assumes wf: "job_table_wf table" and new: "i \<notin> rj_id ` set table"
    and free: "\<And>r. r \<in> set table \<Longrightarrow> outstanding r \<Longrightarrow> rj_asset_id r \<noteq> a"
  shows "job_insert (pending_row i a t) table = Ok (table @ [pending_row i a t])"
    and "job_table_wf (table @ [pending_row i a t])"
proof -
  have "\<not> (\<exists>r' \<in> set table. rj_id r' = rj_id (pending_row i a t))" using new by force
  moreover have "\<not> (\<exists>r' \<in> set table. outstanding r' \<and> rj_asset_id r' = rj_asset_id (pending_row i a t))"
    using free by force
  ultimately show "job_insert (pending_row i a t) table = Ok (table @ [pending_row i a t])"
    by (simp add: job_insert_def)
  show "job_table_wf (table @ [pending_row i a t])"
  proof (rule job_table_wfI)
    show "distinct (map rj_id (table @ [pending_row i a t]))"
      using new job_table_wf_distinct [OF wf] by simp
    show "job_row_ok r" if "r \<in> set (table @ [pending_row i a t])" for r
      using that job_table_wf_row [OF wf] by auto
    show "r = r'" if "r \<in> set (table @ [pending_row i a t])" "r' \<in> set (table @ [pending_row i a t])"
      "outstanding r" "outstanding r'" "rj_asset_id r = rj_asset_id r'" for r r'
      using that free [of r] free [of r'] rows_same_asset [OF wf, of r r'] by auto
  qed
qed

section \<open>The abstract queue\<close>

text \<open>
  What an asset needs: nothing, a run that has not started, or a run in progress; the flag says that
  a request arrived meanwhile and a further run will follow.
\<close>

datatype asset_work = Idle | Queued bool | Busy bool

fun requested :: "asset_work \<Rightarrow> asset_work" where
  "requested Idle = Queued False"
| "requested (Queued _) = Queued True"
| "requested (Busy _) = Busy True"

fun started :: "asset_work \<Rightarrow> asset_work" where
  "started (Queued d) = Busy d"
| "started w = w"

fun ended :: "asset_work \<Rightarrow> asset_work" where
  "ended (Busy True) = Queued False"
| "ended (Busy False) = Idle"
| "ended w = w"

text \<open>A request that no run has started for yet.\<close>

fun owed :: "asset_work \<Rightarrow> bool" where
  "owed Idle = False"
| "owed (Queued _) = True"
| "owed (Busy d) = d"

definition open_job :: "job_table \<Rightarrow> string \<Rightarrow> ReasoningJobModel option" where
  "open_job table a = find (\<lambda>r. outstanding r \<and> rj_asset_id r = a) table"

definition job_work :: "ReasoningJobModel \<Rightarrow> asset_work" where
  "job_work r = (if rj_status r = ''PENDING'' then Queued (rj_dirty r) else Busy (rj_dirty r))"

definition work_of :: "job_table \<Rightarrow> string \<Rightarrow> asset_work" where
  "work_of table a = (case open_job table a of None \<Rightarrow> Idle | Some r \<Rightarrow> job_work r)"

lemma find_SomeD: "find P xs = Some x \<Longrightarrow> x \<in> set xs \<and> P x"
  by (induction xs) (auto split: if_splits)

lemma find_unique:
  assumes "x \<in> set xs" "P x" "\<And>y. y \<in> set xs \<Longrightarrow> P y \<Longrightarrow> y = x"
  shows "find P xs = Some x"
proof (cases "find P xs")
  case None
  then show ?thesis using assms(1,2) by (auto simp: find_None_iff)
next
  case (Some y)
  then have "y = x" using find_SomeD [OF Some] assms(3) by blast
  with Some show ?thesis by simp
qed

lemma open_job_Some:
  assumes "job_table_wf table"
  shows "open_job table a = Some r \<longleftrightarrow> r \<in> set table \<and> outstanding r \<and> rj_asset_id r = a"
proof
  show "open_job table a = Some r \<Longrightarrow> r \<in> set table \<and> outstanding r \<and> rj_asset_id r = a"
    unfolding open_job_def by (drule find_SomeD) simp
  assume r: "r \<in> set table \<and> outstanding r \<and> rj_asset_id r = a"
  show "open_job table a = Some r"
    unfolding open_job_def
    by (rule find_unique) (use r rows_same_asset [OF assms, of _ r] in auto)
qed

lemma open_job_None: "open_job table a = None \<longleftrightarrow> (\<forall>r \<in> set table. outstanding r \<longrightarrow> rj_asset_id r \<noteq> a)"
  by (auto simp: open_job_def find_None_iff)

lemma work_of_row:
  "job_table_wf table \<Longrightarrow> r \<in> set table \<Longrightarrow> outstanding r \<Longrightarrow> work_of table (rj_asset_id r) = job_work r"
  by (simp add: work_of_def open_job_Some [THEN iffD2])

lemma work_of_cases:
  assumes "job_table_wf table"
  obtains (idle) "work_of table a = Idle" "\<And>r. r \<in> set table \<Longrightarrow> outstanding r \<Longrightarrow> rj_asset_id r \<noteq> a"
    | (job) r where "r \<in> set table" "outstanding r" "rj_asset_id r = a" "work_of table a = job_work r"
  using assms by (cases "open_job table a") (auto simp: work_of_def open_job_None open_job_Some)

text \<open>Replacing an outstanding row changes the work of its asset only.\<close>

lemma work_of_set_row:
  assumes wf: "job_table_wf table" and m: "m \<in> set table" "outstanding m"
    and f: "rj_id m' = rj_id m" "rj_asset_id m' = rj_asset_id m" and ok: "job_row_ok m'"
  shows "work_of (set_row (rj_id m) (\<lambda>_. m') table) =
    (work_of table)(rj_asset_id m := if outstanding m' then job_work m' else Idle)"
proof
  fix a
  let ?t = "set_row (rj_id m) (\<lambda>_. m') table"
  have wf': "job_table_wf ?t" by (rule set_row_wf [OF wf m(1) f ok]) (rule m(2))
  note rows = set_row_set [OF job_table_wf_distinct [OF wf] m(1), of "\<lambda>_. m'"]
  show "work_of ?t a = ((work_of table)(rj_asset_id m := if outstanding m' then job_work m' else Idle)) a"
  proof (cases "a = rj_asset_id m")
    case True
    then have alone: "r = m'" if "r \<in> set ?t" "outstanding r" "rj_asset_id r = a" for r
      using that rows_same_asset [OF wf _ m(1)] m(2) unfolding rows by auto
    show ?thesis
    proof (cases "outstanding m'")
      case True
      moreover have "m' \<in> set ?t" unfolding rows by simp
      ultimately have "work_of ?t a = job_work m'" using work_of_row [OF wf'] f \<open>a = _\<close> by metis
      with True \<open>a = _\<close> show ?thesis by simp
    next
      case False
      then have "open_job ?t a = None" using alone by (auto simp: open_job_None)
      with False \<open>a = _\<close> show ?thesis by (simp add: work_of_def)
    qed
  next
    case False
    have same: "r \<in> set ?t \<longleftrightarrow> r \<in> set table" if "rj_asset_id r = a" for r
      using that False f unfolding rows by auto
    have "open_job ?t a = open_job table a"
    proof (cases "open_job table a")
      case None
      then have "open_job ?t a = None" using same by (auto simp: open_job_None)
      with None show ?thesis by simp
    next
      case (Some r)
      then have "open_job ?t a = Some r" using same by (simp add: open_job_Some wf wf')
      with Some show ?thesis by simp
    qed
    with False show ?thesis by (simp add: work_of_def)
  qed
qed

lemma work_of_append_pending:
  assumes "job_table_wf table" "job_table_wf (table @ [pending_row i a t])" "work_of table a = Idle"
  shows "work_of (table @ [pending_row i a t]) = (work_of table)(a := Queued False)"
proof
  fix b
  show "work_of (table @ [pending_row i a t]) b = ((work_of table)(a := Queued False)) b"
  proof (cases "b = a")
    case True
    then show ?thesis using work_of_row [OF assms(2), of "pending_row i a t"] by (simp add: job_work_def)
  next
    case False
    have "open_job (table @ [pending_row i a t]) b = open_job table b"
    proof (cases "open_job table b")
      case None
      then have "open_job (table @ [pending_row i a t]) b = None" using False by (auto simp: open_job_None)
      with None show ?thesis by simp
    next
      case (Some r)
      then have "open_job (table @ [pending_row i a t]) b = Some r" using False by (simp add: open_job_Some assms(1,2))
      with Some show ?thesis by simp
    qed
    with False show ?thesis by (simp add: work_of_def)
  qed
qed

section \<open>The order of the queue\<close>

text \<open>The assets of the pending jobs, next one first.\<close>

definition queue_order :: "job_table \<Rightarrow> string list" where
  "queue_order table = map rj_asset_id (pending_jobs table)"

definition is_pending :: "ReasoningJobModel \<Rightarrow> bool" where
  "is_pending r \<longleftrightarrow> rj_status r = ''PENDING''"

lemma pending_jobs_sorted: "sorted (map rj_created_at table) \<Longrightarrow> pending_jobs table = filter is_pending table"
  unfolding pending_jobs_def is_pending_def by (rule sorted_by_id) (rule sorted_filter)

lemma set_row_split:
  assumes "distinct (map rj_id table)" "table = xs @ m # ys"
  shows "set_row (rj_id m) (\<lambda>_. m') table = xs @ m' # ys"
proof -
  have "map (\<lambda>r. if rj_id r = rj_id m then m' else r) zs = zs" if "rj_id m \<notin> rj_id ` set zs" for zs
    using that by (induction zs) auto
  then show ?thesis using assms by (simp add: set_row_def)
qed

lemma set_row_created:
  assumes "distinct (map rj_id table)" "m \<in> set table" "rj_created_at m' = rj_created_at m"
  shows "map rj_created_at (set_row (rj_id m) (\<lambda>_. m') table) = map rj_created_at table"
proof -
  obtain xs ys where "table = xs @ m # ys" using split_list [OF assms(2)] by blast
  then show ?thesis by (subst set_row_split [OF assms(1)]) (auto simp: assms(3))
qed

lemma queue_order_set_row:
  assumes "distinct (map rj_id table)" "sorted (map rj_created_at table)" "m \<in> set table"
    "rj_created_at m' = rj_created_at m" "rj_asset_id m' = rj_asset_id m" "is_pending m' = is_pending m"
  shows "queue_order (set_row (rj_id m) (\<lambda>_. m') table) = queue_order table"
proof -
  obtain xs ys where t: "table = xs @ m # ys" using split_list [OF assms(3)] by blast
  have "sorted (map rj_created_at (set_row (rj_id m) (\<lambda>_. m') table))"
    using assms(2) by (simp add: set_row_created assms(1,3,4))
  then show ?thesis
    unfolding queue_order_def pending_jobs_sorted [OF assms(2)] set_row_split [OF assms(1) t]
    by (simp add: pending_jobs_sorted) (simp add: t assms(5,6))
qed

section \<open>States of the queue\<close>

definition queue_inv :: "job_queue \<Rightarrow> bool" where
  "queue_inv q \<longleftrightarrow>
     uuids_fresh (jq_rt q) \<and> mono (rt_clock (jq_rt q)) \<and> job_table_wf (jq_table q) \<and>
     sorted (map rj_created_at (jq_table q)) \<and>
     (\<forall>r \<in> set (jq_table q). rj_created_at r \<le> rt_clock (jq_rt q) (rt_clock_count (jq_rt q)) \<and>
        (\<exists>n < rt_uuid_count (jq_rt q). rj_id r = rt_uuids (jq_rt q) n))"

lemma queue_invD:
  assumes "queue_inv q"
  shows "uuids_fresh (jq_rt q)" "mono (rt_clock (jq_rt q))" "job_table_wf (jq_table q)"
    "distinct (map rj_id (jq_table q))" "sorted (map rj_created_at (jq_table q))"
  using assms job_table_wf_distinct by (auto simp: queue_inv_def)

lemma queue_inv_row:
  "queue_inv q \<Longrightarrow> r \<in> set (jq_table q) \<Longrightarrow> rj_created_at r \<le> rt_clock (jq_rt q) (rt_clock_count (jq_rt q))"
  "queue_inv q \<Longrightarrow> r \<in> set (jq_table q) \<Longrightarrow> \<exists>n < rt_uuid_count (jq_rt q). rj_id r = rt_uuids (jq_rt q) n"
  unfolding queue_inv_def by blast+

text \<open>A later runtime of the same environment.\<close>

definition rt_later :: "runtime \<Rightarrow> runtime \<Rightarrow> bool" where
  "rt_later rt rt' \<longleftrightarrow> rt_uuids rt' = rt_uuids rt \<and> rt_clock rt' = rt_clock rt \<and>
     rt_uuid_count rt \<le> rt_uuid_count rt' \<and> rt_clock_count rt \<le> rt_clock_count rt'"

lemma rt_later_refl [simp]: "rt_later rt rt"
  by (simp add: rt_later_def)

lemma rt_later_trans: "rt_later a b \<Longrightarrow> rt_later b c \<Longrightarrow> rt_later a c"
  by (simp add: rt_later_def)

lemma queue_inv_later:
  assumes "queue_inv q" "rt_later (jq_rt q) rt'"
  shows "queue_inv (q\<lparr>jq_rt := rt'\<rparr>)"
proof -
  have "rt_clock (jq_rt q) (rt_clock_count (jq_rt q)) \<le> rt_clock rt' (rt_clock_count rt')"
    using assms queue_invD(2) [OF assms(1)] by (auto simp: rt_later_def dest: monoD)
  moreover have "\<exists>n < rt_uuid_count rt'. rj_id r = rt_uuids rt' n" if "r \<in> set (jq_table q)" for r
    using queue_inv_row(2) [OF assms(1) that] assms(2) unfolding rt_later_def by (metis order_less_le_trans)
  ultimately show ?thesis
    using queue_invD [OF assms(1)] queue_inv_row(1) [OF assms(1)] assms(2)
    unfolding queue_inv_def rt_later_def uuids_fresh_def by (force dest: order_trans)
qed

lemma queue_inv_metrics [simp]: "queue_inv (q\<lparr>jq_metrics := m\<rparr>) = queue_inv q"
  by (simp add: queue_inv_def)

lemma count_job_simps [simp]:
  "jq_table (count_job f q) = jq_table q" "jq_rt (count_job f q) = jq_rt q"
  "jq_metrics (count_job f q) = f (jq_metrics q)" "queue_inv (count_job f q) = queue_inv q"
  by (simp_all add: count_job_def)

text \<open>Replacing a row, and inserting a new one, in a state of the queue.\<close>

lemma queue_inv_set_row:
  assumes inv: "queue_inv q" and later: "rt_later (jq_rt q) rt'" and m: "m \<in> set (jq_table q)"
    and m': "rj_id m' = rj_id m" "rj_asset_id m' = rj_asset_id m" "rj_created_at m' = rj_created_at m"
      "job_row_ok m'" "outstanding m' \<Longrightarrow> outstanding m"
  shows "queue_inv (q\<lparr>jq_table := set_row (rj_id m) (\<lambda>_. m') (jq_table q), jq_rt := rt'\<rparr>)"
proof -
  let ?t = "set_row (rj_id m) (\<lambda>_. m') (jq_table q)"
  note dist = queue_invD(4) [OF inv]
  have inv': "queue_inv (q\<lparr>jq_rt := rt'\<rparr>)" by (rule queue_inv_later [OF inv later])
  have rows: "r \<in> set ?t \<Longrightarrow> \<exists>r' \<in> set (jq_table q). rj_id r = rj_id r' \<and> rj_created_at r = rj_created_at r'" for r
    unfolding set_row_set [OF dist m] using m m' by auto
  have "job_table_wf ?t" by (rule set_row_wf [OF queue_invD(3) [OF inv] m m'(1,2,4,5)])
  moreover have "sorted (map rj_created_at ?t)" using queue_invD(5) [OF inv] by (simp add: set_row_created dist m m'(3))
  moreover have "rj_created_at r \<le> rt_clock rt' (rt_clock_count rt') \<and> (\<exists>n < rt_uuid_count rt'. rj_id r = rt_uuids rt' n)"
    if "r \<in> set ?t" for r
    using rows [OF that] queue_inv_row [OF inv'] by auto
  ultimately show ?thesis using queue_invD(1,2) [OF inv'] by (simp add: queue_inv_def)
qed

lemma fresh_job_id:
  assumes "queue_inv q" "rt_later (jq_rt q) rt'" "uuid4 rt' = (i, rt'')"
  shows "i \<notin> rj_id ` set (jq_table q)"
proof
  assume "i \<in> rj_id ` set (jq_table q)"
  then obtain n where "n < rt_uuid_count (jq_rt q)" "i = rt_uuids (jq_rt q) n"
    using queue_inv_row(2) [OF assms(1)] by auto
  with assms queue_invD(1) [OF assms(1)] show False
    by (auto simp: uuid4_def rt_later_def uuids_fresh_def inj_eq)
qed

section \<open>What the operations do\<close>

lemma utc_now_later: "utc_now rt = (t, rt') \<Longrightarrow> rt_later rt rt' \<and> t = rt_clock rt (rt_clock_count rt)"
  by (auto simp: utc_now_def rt_later_def)

lemma uuid4_later: "uuid4 rt = (i, rt') \<Longrightarrow> rt_later rt rt'"
  by (auto simp: uuid4_def rt_later_def)

lemma to_domain_known:
  "rj_status m \<in> {''PENDING'', ''RUNNING'', ''COMPLETED'', ''FAILED''} \<Longrightarrow>
     \<exists>s. job_status_value s = rj_status m \<and> reasoning_job_to_domain m = Ok (with_status s m)"
  unfolding reasoning_job_to_domain_def job_status_of_def
  by (elim insertE emptyE; simp; metis job_status_value.simps)

lemma with_status_simps [simp]:
  "rj_id (with_status s m) = rj_id m" "rj_asset_id (with_status s m) = rj_asset_id m"
  "rj_dirty (with_status s m) = rj_dirty m" "rj_status (with_status s m) = s"
  "rj_attempts (with_status s m) = rj_attempts m" "rj_coalesced_count (with_status s m) = rj_coalesced_count m"
  by (simp_all add: with_status_def)

lemma to_domain_ok:
  assumes "job_row_ok m"
  shows "\<exists>s. job_status_value s = rj_status m \<and> reasoning_job_to_domain m = Ok (with_status s m)"
  by (rule to_domain_known) (use assms in \<open>auto simp: job_row_ok_def\<close>)

lemma outstanding_ok: "job_row_ok r \<Longrightarrow> outstanding r \<longleftrightarrow> rj_status r \<notin> {''COMPLETED'', ''FAILED''}"
  by (auto simp: job_row_ok_def outstanding_def)

text \<open>A row with the present time and a new identifier goes to the end of the table.\<close>

lemma queue_inv_append:
  assumes inv: "queue_inv q" and wf: "job_table_wf (jq_table q @ [pending_row i a t])"
    and t: "utc_now (jq_rt q) = (t, rt1)" and i: "uuid4 rt1 = (i, rt2)"
  shows "queue_inv (q\<lparr>jq_table := jq_table q @ [pending_row i a t], jq_rt := rt2\<rparr>)"
proof -
  have later: "rt_later (jq_rt q) rt2" and t': "t = rt_clock (jq_rt q) (rt_clock_count (jq_rt q))"
    and clock: "rt_clock rt2 = rt_clock (jq_rt q)"
    and i': "rt_uuid_count rt2 = Suc (rt_uuid_count rt1)" "i = rt_uuids rt2 (rt_uuid_count rt1)"
    using t i by (auto simp: utc_now_def uuid4_def rt_later_def)
  have inv': "queue_inv (q\<lparr>jq_rt := rt2\<rparr>)" by (rule queue_inv_later [OF inv later])
  have "sorted (map rj_created_at (jq_table q @ [pending_row i a t]))"
    using queue_invD(5) [OF inv] queue_inv_row(1) [OF inv] t' by (auto simp: sorted_append)
  moreover have "t \<le> rt_clock rt2 (rt_clock_count rt2)"
    using later queue_invD(2) [OF inv] unfolding t' clock by (auto simp: rt_later_def dest: monoD)
  moreover have "\<exists>n < rt_uuid_count rt2. i = rt_uuids rt2 n" using i' by auto
  ultimately show ?thesis using wf queue_invD(1,2) [OF inv'] queue_inv_row [OF inv']
    by (auto simp: queue_inv_def)
qed

text \<open>A request on an asset with an outstanding job is absorbed by it.\<close>

lemma enqueue_absorbed:
  assumes inv: "queue_inv q" and r: "r \<in> set (jq_table q)" "outstanding r" "rj_asset_id r = a"
  defines "r' \<equiv> r\<lparr>rj_dirty := True, rj_coalesced_count := rj_coalesced_count r + 1\<rparr>"
  shows "\<exists>job rt'. rt_later (jq_rt q) rt' \<and> rj_asset_id job = a \<and>
    enqueue a q = (Ok job, count_job record_reasoning_job_coalesced
      (q\<lparr>jq_table := set_row (rj_id r) (\<lambda>_. r') (jq_table q), jq_rt := rt'\<rparr>))"
proof -
  obtain t rt1 where t: "utc_now (jq_rt q) = (t, rt1)" by fastforce
  obtain i rt2 where i: "uuid4 rt1 = (i, rt2)" by fastforce
  have later: "rt_later (jq_rt q) rt1" "rt_later (jq_rt q) rt2"
    using utc_now_later [OF t] uuid4_later [OF i] rt_later_trans by blast+
  have "find (\<lambda>r. outstanding r \<and> rj_asset_id r = a) (jq_table q) = Some r"
    using open_job_Some [OF queue_invD(3) [OF inv], of a r] r by (simp add: open_job_def)
  moreover have "job_row_ok r'"
    using job_table_wf_row [OF queue_invD(3) [OF inv] r(1)] r(2) by (auto simp: r'_def job_row_ok_def outstanding_def)
  then obtain s where "reasoning_job_to_domain r' = Ok (with_status s r')" using to_domain_ok by blast
  moreover have "rj_id r \<noteq> i" using fresh_job_id [OF inv later(1) i] r(1) by blast
  moreover have "rj_id r' = rj_id r" "rj_asset_id r' = rj_asset_id r" by (simp_all add: r'_def)
  ultimately show ?thesis using later(2) r(3)
    by (auto simp: enqueue_def enqueue_or_mark_dirty_def t i Let_def simp flip: r'_def)
qed

text \<open>A request on an asset without one creates a job at the end of the queue.\<close>

lemma enqueue_created:
  assumes inv: "queue_inv q" and free: "\<And>r. r \<in> set (jq_table q) \<Longrightarrow> outstanding r \<Longrightarrow> rj_asset_id r \<noteq> a"
  shows "\<exists>job i t rt'. rj_asset_id job = a \<and> queue_inv (q\<lparr>jq_table := jq_table q @ [pending_row i a t], jq_rt := rt'\<rparr>) \<and>
    enqueue a q = (Ok job, count_job record_reasoning_job_created
      (q\<lparr>jq_table := jq_table q @ [pending_row i a t], jq_rt := rt'\<rparr>))"
proof -
  obtain t rt1 where t: "utc_now (jq_rt q) = (t, rt1)" by fastforce
  obtain i rt2 where i: "uuid4 rt1 = (i, rt2)" by fastforce
  have later: "rt_later (jq_rt q) rt1" "rt_later (jq_rt q) rt2"
    using utc_now_later [OF t] uuid4_later [OF i] rt_later_trans by blast+
  have new: "i \<notin> rj_id ` set (jq_table q)" by (rule fresh_job_id [OF inv later(1) i])
  note ins = insert_pending_wf [OF queue_invD(3) [OF inv] new free, of t]
  have "queue_inv (q\<lparr>jq_table := jq_table q @ [pending_row i a t], jq_rt := rt2\<rparr>)"
    by (rule queue_inv_append [OF inv ins(2) t i])
  moreover have "find (\<lambda>r. outstanding r \<and> rj_asset_id r = a) (jq_table q) = None"
    using free by (auto simp: find_None_iff)
  moreover obtain s where "reasoning_job_to_domain (pending_row i a t) = Ok (with_status s (pending_row i a t))"
    using to_domain_ok [of "pending_row i a t"] by auto
  ultimately show ?thesis
    by (intro exI [of _ "with_status s (pending_row i a t)"] exI [of _ i] exI [of _ t] exI [of _ rt2])
      (simp add: enqueue_def enqueue_or_mark_dirty_def t i Let_def ins(1))
qed

text \<open>A claim takes the first pending job, if there is one.\<close>

lemma claim_none:
  assumes "queue_inv q" "queue_order (jq_table q) = []"
  shows "claim q = (Ok None, q)"
  using assms by (auto simp: claim_def claim_oldest_pending_def queue_order_def split: list.splits)

lemma claim_some:
  assumes inv: "queue_inv q" and order: "queue_order (jq_table q) = a # rest"
  obtains m m' job rt' where "m \<in> set (jq_table q)" "is_pending m" "rj_asset_id m = a"
    "queue_order (set_row (rj_id m) (\<lambda>_. m') (jq_table q)) = rest"
    "rj_id m' = rj_id m" "rj_asset_id m' = a" "rj_created_at m' = rj_created_at m" "rj_dirty m' = rj_dirty m"
    "rj_status m' = ''RUNNING''" "job_row_ok m'" "rj_coalesced_count m' = rj_coalesced_count m"
    "rj_id job = rj_id m" "rj_asset_id job = a" "rj_status job = JOB_RUNNING"
    "rt_later (jq_rt q) rt'"
    "claim q = (Ok (Some job), count_job record_reasoning_job_running_started
       (q\<lparr>jq_table := set_row (rj_id m) (\<lambda>_. m') (jq_table q), jq_rt := rt'\<rparr>))"
proof -
  obtain t rt1 where t: "utc_now (jq_rt q) = (t, rt1)" by fastforce
  have pend: "pending_jobs (jq_table q) = filter is_pending (jq_table q)"
    by (rule pending_jobs_sorted) (rule queue_invD(5) [OF inv])
  obtain m ms where m: "pending_jobs (jq_table q) = m # ms" "rj_asset_id m = a"
    using order by (auto simp: queue_order_def)
  then obtain us vs where uv: "jq_table q = us @ m # vs" "\<forall>u \<in> set us. \<not> is_pending u" "is_pending m" "ms = filter is_pending vs"
    using pend by (auto simp: filter_eq_Cons_iff)
  define m' where "m' = m\<lparr>rj_status := ''RUNNING'', rj_started_at := Some t, rj_attempts := rj_attempts m + 1\<rparr>"
  have mem: "m \<in> set (jq_table q)" using uv(1) by simp
  have ok: "job_row_ok m'" using job_table_wf_row [OF queue_invD(3) [OF inv] mem] uv(3)
    by (auto simp: job_row_ok_def m'_def is_pending_def outstanding_def)
  have dom: "reasoning_job_to_domain m' = Ok (with_status JOB_RUNNING m')"
    by (simp add: reasoning_job_to_domain_def job_status_of_def m'_def)
  have created: "rj_created_at m' = rj_created_at m" by (simp add: m'_def)
  have "sorted (map rj_created_at (set_row (rj_id m) (\<lambda>_. m') (jq_table q)))"
    using queue_invD(5) [OF inv] by (simp add: set_row_created [OF queue_invD(4) [OF inv] mem created])
  then have "queue_order (set_row (rj_id m) (\<lambda>_. m') (jq_table q)) = map rj_asset_id ms"
    unfolding queue_order_def set_row_split [OF queue_invD(4) [OF inv] uv(1)]
    using uv(2,4) by (simp add: pending_jobs_sorted is_pending_def m'_def filter_False)
  then have next_order: "queue_order (set_row (rj_id m) (\<lambda>_. m') (jq_table q)) = rest"
    using order m(1) by (simp add: queue_order_def)
  have "claim q = (Ok (Some (with_status JOB_RUNNING m')), count_job record_reasoning_job_running_started
       (q\<lparr>jq_table := set_row (rj_id m) (\<lambda>_. m') (jq_table q), jq_rt := rt1\<rparr>))"
    by (simp add: claim_def claim_oldest_pending_def m(1) t dom Let_def flip: m'_def)
  then show ?thesis
    by (intro that [of m m' "with_status JOB_RUNNING m'" rt1])
      (use mem uv(3) m(2) next_order ok utc_now_later [OF t, THEN conjunct1] in \<open>simp_all add: m'_def\<close>)
qed

text \<open>A finished job leaves the index; a dirty one is followed by a new job of the asset.\<close>

lemma finish_clean:
  assumes inv: "queue_inv q" and r: "r \<in> set (jq_table q)" "rj_id job = rj_id r" "rj_status r \<noteq> ''PENDING''"
    and clean: "\<not> rj_dirty r" and final: "final \<in> {JOB_COMPLETED, JOB_FAILED}"
  obtains t rt' where "rt_later (jq_rt q) rt'"
    "finish_job final tally job q = (Ok (with_status final (r\<lparr>rj_completed_at := Some t\<rparr>)),
       count_job tally (count_job record_reasoning_job_running_finished
         (q\<lparr>jq_table := set_row (rj_id r) (\<lambda>_. r\<lparr>rj_status := job_status_value final, rj_completed_at := Some t\<rparr>) (jq_table q),
            jq_rt := rt'\<rparr>)))"
proof -
  obtain t rt1 where t: "utc_now (jq_rt q) = (t, rt1)" by fastforce
  define r' where "r' = r\<lparr>rj_status := job_status_value final, rj_completed_at := Some t\<rparr>"
  have row: "job_row (jq_table q) (rj_id r) = Some r"
    using job_row_Some [OF queue_invD(4) [OF inv]] r(1) by blast
  have dom: "reasoning_job_to_domain r' = Ok (with_status final (r\<lparr>rj_completed_at := Some t\<rparr>))"
    using final by (auto simp: reasoning_job_to_domain_def job_status_of_def r'_def with_status_def)
  show ?thesis
    by (rule that [of rt1 t])
      (use utc_now_later [OF t, THEN conjunct1] clean in
        \<open>simp_all add: finish_job_def finish_and_reschedule_def t row r(2) dom Let_def flip: r'_def\<close>)
qed

lemma finish_dirty:
  assumes inv: "queue_inv q" and r: "r \<in> set (jq_table q)" "rj_id job = rj_id r" "rj_status r \<noteq> ''PENDING''"
    and dirty: "rj_dirty r" and final: "final \<in> {JOB_COMPLETED, JOB_FAILED}"
  obtains t i rt' where
    "queue_inv (q\<lparr>jq_table := set_row (rj_id r)
          (\<lambda>_. r\<lparr>rj_status := job_status_value final, rj_completed_at := Some t, rj_dirty := False\<rparr>) (jq_table q)
          @ [pending_row i (rj_asset_id r) t], jq_rt := rt'\<rparr>)"
    "finish_job final tally job q =
       (Ok (with_status final (r\<lparr>rj_completed_at := Some t, rj_dirty := False\<rparr>)),
        count_job record_reasoning_job_rescheduled (count_job record_reasoning_job_created
          (count_job tally (count_job record_reasoning_job_running_finished
            (q\<lparr>jq_table := set_row (rj_id r)
                 (\<lambda>_. r\<lparr>rj_status := job_status_value final, rj_completed_at := Some t, rj_dirty := False\<rparr>) (jq_table q)
                 @ [pending_row i (rj_asset_id r) t], jq_rt := rt'\<rparr>)))))"
proof -
  obtain t rt1 where t: "utc_now (jq_rt q) = (t, rt1)" by fastforce
  obtain i rt2 where i: "uuid4 rt1 = (i, rt2)" by fastforce
  define r1 where "r1 = r\<lparr>rj_status := job_status_value final, rj_completed_at := Some t\<rparr>"
  define r2 where "r2 = r1\<lparr>rj_dirty := False\<rparr>"
  let ?t = "set_row (rj_id r) (\<lambda>_. r2) (jq_table q)"
  let ?q = "q\<lparr>jq_table := ?t\<rparr>"
  have row: "job_row (jq_table q) (rj_id r) = Some r"
    using job_row_Some [OF queue_invD(4) [OF inv]] r(1) by blast
  have open_r: "outstanding r" using job_table_wf_row [OF queue_invD(3) [OF inv] r(1)] dirty by (simp add: job_row_ok_def)
  have closed: "\<not> outstanding r2" using final by (auto simp: outstanding_def r2_def r1_def)
  have ok: "job_row_ok r2"
    using job_table_wf_row [OF queue_invD(3) [OF inv] r(1)] r(3) final by (auto simp: job_row_ok_def r2_def r1_def)
  have "queue_inv (q\<lparr>jq_table := ?t, jq_rt := jq_rt q\<rparr>)"
    by (rule queue_inv_set_row [OF inv _ r(1)]) (use ok closed in \<open>simp_all add: r2_def r1_def\<close>)
  then have inv2: "queue_inv ?q" by simp
  have "rj_asset_id r' \<noteq> rj_asset_id r" if "r' \<in> set ?t" "outstanding r'" for r'
    using that closed rows_same_asset [OF queue_invD(3) [OF inv] _ r(1)] open_r
    unfolding set_row_set [OF queue_invD(4) [OF inv] r(1)] by auto
  then have ins: "job_insert (pending_row i (rj_asset_id r) t) ?t = Ok (?t @ [pending_row i (rj_asset_id r) t])"
    "job_table_wf (?t @ [pending_row i (rj_asset_id r) t])"
    using insert_pending_wf [OF queue_invD(3) [OF inv2]] fresh_job_id [OF inv2 _ i] utc_now_later [OF t] by simp_all
  have dom: "reasoning_job_to_domain r1 = Ok (with_status final (r\<lparr>rj_completed_at := Some t\<rparr>))"
    using final by (auto simp: reasoning_job_to_domain_def job_status_of_def r1_def with_status_def)
  obtain s where new: "reasoning_job_to_domain (pending_row i (rj_asset_id r) t) = Ok (with_status s (pending_row i (rj_asset_id r) t))"
    using to_domain_ok [of "pending_row i (rj_asset_id r) t"] by auto
  have two: "set_row (rj_id r) (\<lambda>r. r\<lparr>rj_dirty := False\<rparr>) (set_row (rj_id r) (\<lambda>_. r1) (jq_table q)) = ?t"
    by (subst set_row_twice) (simp_all add: r1_def r2_def comp_def)
  have inv3: "queue_inv (?q\<lparr>jq_table := jq_table ?q @ [pending_row i (rj_asset_id r) t], jq_rt := rt2\<rparr>)"
    by (rule queue_inv_append [OF inv2 _ _ i]) (use ins(2) t in simp_all)
  have r2: "r\<lparr>rj_status := job_status_value final, rj_completed_at := Some t, rj_dirty := False\<rparr> = r2"
    by (simp add: r2_def r1_def)
  show ?thesis
    by (rule that [where t = t and i = i and rt' = rt2]; unfold r2)
      (use inv3 dirty in \<open>simp_all add: finish_job_def finish_and_reschedule_def t i row r(2) dom two ins(1) new Let_def
         with_status_def flip: r1_def\<close>)
qed

section \<open>The specification\<close>

text \<open>
  Requests, claims and ends of runs as they reach the queue; an end is of the asset's running job.
\<close>

datatype job_op = Request string | Claim | Finish string bool

definition job_step :: "job_op \<Rightarrow> job_queue \<Rightarrow> string option result \<times> job_queue" where
  "job_step op q =
     (case op of
        Request a \<Rightarrow> (case enqueue a q of (r, q') \<Rightarrow> (res_bind r (\<lambda>_. Ok None), q'))
      | Claim \<Rightarrow> (case claim q of (r, q') \<Rightarrow> (res_bind r (\<lambda>j. Ok (map_option rj_asset_id j)), q'))
      | Finish a ok \<Rightarrow>
          (case open_job (jq_table q) a of
             None \<Rightarrow> (Ok None, q)
           | Some r \<Rightarrow>
               if rj_status r = ''RUNNING'' then
                 (case (if ok then queue_complete else queue_fail) (with_status JOB_RUNNING r) q of
                    (res, q') \<Rightarrow> (res_bind res (\<lambda>_. Ok None), q'))
               else (Ok None, q)))"

text \<open>A run of operations and what each of them answered.\<close>

fun op_run :: "('op \<Rightarrow> 'q \<Rightarrow> 'r \<times> 'q) \<Rightarrow> 'op list \<Rightarrow> 'q \<Rightarrow> 'r list \<times> 'q" where
  "op_run step [] q = ([], q)"
| "op_run step (op # ops) q =
     (let (r, q1) = step op q; (rs, q2) = op_run step ops q1 in (r # rs, q2))"

abbreviation job_run :: "job_op list \<Rightarrow> job_queue \<Rightarrow> string option result list \<times> job_queue" where
  "job_run \<equiv> op_run job_step"

lemma op_run_Cons:
  "fst (op_run step (op # ops) q) = fst (step op q) # fst (op_run step ops (snd (step op q)))"
  "snd (op_run step (op # ops) q) = snd (op_run step ops (snd (step op q)))"
  by (simp_all add: case_prod_beta Let_def)

lemma op_run_append: "snd (op_run step (xs @ ys) q) = snd (op_run step ys (snd (op_run step xs q)))"
  by (induction xs arbitrary: q) (simp_all add: case_prod_beta Let_def)

text \<open>The same as a list of waiting assets and what each asset needs.\<close>

type_synonym work_queue = "string list \<times> (string \<Rightarrow> asset_work)"

fun spec_step :: "job_op \<Rightarrow> work_queue \<Rightarrow> string option \<times> work_queue" where
  "spec_step (Request a) (waiting, work) =
     (None, if work a = Idle then waiting @ [a] else waiting, work(a := requested (work a)))"
| "spec_step Claim ([], work) = (None, [], work)"
| "spec_step Claim (a # waiting, work) = (Some a, waiting, work(a := started (work a)))"
| "spec_step (Finish a _) (waiting, work) =
     (None, if work a = Busy True then waiting @ [a] else waiting, work(a := ended (work a)))"

abbreviation spec_run :: "job_op list \<Rightarrow> work_queue \<Rightarrow> string option list \<times> work_queue" where
  "spec_run \<equiv> op_run spec_step"

definition work_queue_of :: "job_queue \<Rightarrow> work_queue" where
  "work_queue_of q = (queue_order (jq_table q), work_of (jq_table q))"

lemma work_queue_of_count [simp]: "work_queue_of (count_job f q) = work_queue_of q"
  by (simp add: work_queue_of_def)

text \<open>The work of an asset is queued exactly when it waits in the queue.\<close>

lemma queue_order_mem:
  assumes "queue_inv q"
  shows "a \<in> set (queue_order (jq_table q)) \<longleftrightarrow> (\<exists>d. work_of (jq_table q) a = Queued d)"
proof -
  note wf = queue_invD(3) [OF assms]
  have order: "queue_order (jq_table q) = map rj_asset_id (filter is_pending (jq_table q))"
    by (simp add: queue_order_def pending_jobs_sorted queue_invD(5) [OF assms])
  have pend: "outstanding r" "job_work r = Queued (rj_dirty r)" if "is_pending r" for r
    using that by (auto simp: is_pending_def outstanding_def job_work_def)
  show ?thesis
  proof (cases rule: work_of_cases [OF wf, of a, case_names idle job])
    case idle
    then have "a \<notin> set (queue_order (jq_table q))" using pend(1) by (auto simp: order)
    with idle(1) show ?thesis by simp
  next
    case (job r)
    have "a \<in> set (queue_order (jq_table q)) \<longleftrightarrow> is_pending r"
    proof
      assume "a \<in> set (queue_order (jq_table q))"
      then obtain r' where r': "r' \<in> set (jq_table q)" "is_pending r'" "rj_asset_id r' = a" by (auto simp: order)
      then have "r' = r" using rows_same_asset [OF wf r'(1) job(1)] job(2,3) pend(1) by simp
      with r'(2) show "is_pending r" by simp
    next
      assume "is_pending r"
      then show "a \<in> set (queue_order (jq_table q))" using job(1,3) by (auto simp: order)
    qed
    moreover have "is_pending r \<longleftrightarrow> (\<exists>d. job_work r = Queued d)" by (simp add: is_pending_def job_work_def)
    ultimately show ?thesis by (simp add: job(4))
  qed
qed

lemma queue_order_append:
  assumes "sorted (map rj_created_at (table @ [pending_row i a t]))"
  shows "queue_order (table @ [pending_row i a t]) = queue_order table @ [a]"
proof -
  have "sorted (map rj_created_at table)" using assms by (simp add: sorted_append)
  then show ?thesis using pending_jobs_sorted [OF assms] by (simp add: queue_order_def pending_jobs_sorted is_pending_def)
qed

lemma append_step:
  assumes "queue_inv q" "queue_inv (q\<lparr>jq_table := jq_table q @ [pending_row i a t], jq_rt := rt'\<rparr>)"
    "work_of (jq_table q) a = Idle"
  shows "work_queue_of (q\<lparr>jq_table := jq_table q @ [pending_row i a t], jq_rt := rt'\<rparr>) =
    (queue_order (jq_table q) @ [a], (work_of (jq_table q))(a := Queued False))"
  using queue_order_append work_of_append_pending [OF queue_invD(3) [OF assms(1)] _ assms(3)]
    queue_invD(3,5) [OF assms(2)]
  by (simp add: work_queue_of_def)

text \<open>The counters: jobs created, requests absorbed, and the jobs in each state a worker leaves them in.\<close>

definition metrics_ok :: "job_queue \<Rightarrow> bool" where
  "metrics_ok q \<longleftrightarrow>
     jm_created (jq_metrics q) = int (length (jq_table q)) \<and>
     jm_coalesced (jq_metrics q) = sum_list (map rj_coalesced_count (jq_table q)) \<and>
     jm_running (jq_metrics q) = int (count_by_status ''RUNNING'' (jq_table q)) \<and>
     jm_completed (jq_metrics q) = int (count_by_status ''COMPLETED'' (jq_table q)) \<and>
     jm_failed (jq_metrics q) = int (count_by_status ''FAILED'' (jq_table q))"

lemma set_row_counts:
  assumes "distinct (map rj_id table)" "m \<in> set table"
  shows "int (count_by_status s (set_row (rj_id m) (\<lambda>_. m') table)) =
      int (count_by_status s table) - of_bool (rj_status m = s) + of_bool (rj_status m' = s)"
    and "sum_list (map rj_coalesced_count (set_row (rj_id m) (\<lambda>_. m') table)) =
      sum_list (map rj_coalesced_count table) - rj_coalesced_count m + rj_coalesced_count m'"
proof -
  obtain xs ys where t: "table = xs @ m # ys" using split_list [OF assms(2)] by blast
  note split = set_row_split [OF assms(1) t]
  show "int (count_by_status s (set_row (rj_id m) (\<lambda>_. m') table)) =
      int (count_by_status s table) - of_bool (rj_status m = s) + of_bool (rj_status m' = s)"
    unfolding split by (simp add: t count_by_status_def)
  show "sum_list (map rj_coalesced_count (set_row (rj_id m) (\<lambda>_. m') table)) =
      sum_list (map rj_coalesced_count table) - rj_coalesced_count m + rj_coalesced_count m'"
    unfolding split by (simp add: t)
qed

lemma count_append: "count_by_status s (xs @ ys) = count_by_status s xs + count_by_status s ys"
  by (simp add: count_by_status_def)

lemma count_pending_row: "count_by_status s [pending_row i a t] = of_bool (s = ''PENDING'')"
  by (auto simp: count_by_status_def)

lemmas job_count_defs = record_reasoning_job_created_def record_reasoning_job_running_started_def
  record_reasoning_job_running_finished_def record_reasoning_job_completed_def record_reasoning_job_failed_def
  record_reasoning_job_coalesced_def record_reasoning_job_rescheduled_def

text \<open>A step answers what the specification answers, in the state it specifies, with exact counters.\<close>

definition step_refines :: "job_op \<Rightarrow> job_queue \<Rightarrow> bool" where
  "step_refines op q \<longleftrightarrow>
     fst (job_step op q) = Ok (fst (spec_step op (work_queue_of q))) \<and>
     work_queue_of (snd (job_step op q)) = snd (spec_step op (work_queue_of q)) \<and>
     queue_inv (snd (job_step op q)) \<and> (metrics_ok q \<longrightarrow> metrics_ok (snd (job_step op q)))"

lemma request_refines:
  assumes inv: "queue_inv q"
  shows "step_refines (Request a) q"
proof (cases rule: work_of_cases [OF queue_invD(3) [OF inv], of a, case_names idle job])
  case idle
  then obtain job i t rt' where e: "rj_asset_id job = a"
      "queue_inv (q\<lparr>jq_table := jq_table q @ [pending_row i a t], jq_rt := rt'\<rparr>)"
      "enqueue a q = (Ok job, count_job record_reasoning_job_created
         (q\<lparr>jq_table := jq_table q @ [pending_row i a t], jq_rt := rt'\<rparr>))"
    using enqueue_created [OF inv, of a] by blast
  have "metrics_ok q \<Longrightarrow> metrics_ok (snd (enqueue a q))"
    by (simp add: e(3) metrics_ok_def job_count_defs count_append count_pending_row)
  then show ?thesis using e(2) append_step [OF inv e(2) idle(1)] idle(1)
    by (simp add: step_refines_def job_step_def e(3) work_queue_of_def [of q])
next
  case (job r)
  define r' where "r' = r\<lparr>rj_dirty := True, rj_coalesced_count := rj_coalesced_count r + 1\<rparr>"
  obtain j rt' where e: "rt_later (jq_rt q) rt'" "enqueue a q = (Ok j, count_job record_reasoning_job_coalesced
      (q\<lparr>jq_table := set_row (rj_id r) (\<lambda>_. r') (jq_table q), jq_rt := rt'\<rparr>))"
    using enqueue_absorbed [OF inv job(1-3)] by (auto simp: r'_def)
  have r': "rj_id r' = rj_id r" "rj_asset_id r' = rj_asset_id r" "rj_created_at r' = rj_created_at r"
    "is_pending r' = is_pending r" "outstanding r' = outstanding r" "job_row_ok r'" "job_work r' = requested (job_work r)"
    "rj_status r' = rj_status r" "rj_coalesced_count r' = rj_coalesced_count r + 1"
    using job_table_wf_row [OF queue_invD(3) [OF inv] job(1)] job(2)
    by (auto simp: r'_def job_row_ok_def outstanding_def is_pending_def job_work_def)
  note inv' = queue_inv_set_row [OF inv e(1) job(1) r'(1-3,6)]
  have "metrics_ok q \<Longrightarrow> metrics_ok (snd (enqueue a q))"
    by (simp add: e(2) metrics_ok_def job_count_defs set_row_counts [OF queue_invD(4) [OF inv] job(1)] r'(8,9))
  moreover have "job_work r \<noteq> Idle" by (simp add: job_work_def)
  moreover have "work_queue_of (snd (enqueue a q)) =
      (queue_order (jq_table q), (work_of (jq_table q))(a := requested (job_work r)))"
    using queue_order_set_row [OF queue_invD(4,5) [OF inv] job(1) r'(3,2,4)]
      work_of_set_row [OF queue_invD(3) [OF inv] job(1,2) r'(1,2,6)] job(2,3) r'(5,7)
    by (simp add: e(2) work_queue_of_def)
  ultimately show ?thesis using inv' r'(5) job(2,4)
    by (simp add: step_refines_def job_step_def e(2) work_queue_of_def)
qed

lemma claim_refines:
  assumes inv: "queue_inv q"
  shows "step_refines Claim q"
proof (cases "queue_order (jq_table q)")
  case Nil
  then show ?thesis using inv by (simp add: step_refines_def job_step_def claim_none work_queue_of_def)
next
  case (Cons a rest)
  obtain m m' job rt' where m: "m \<in> set (jq_table q)" "is_pending m" "rj_asset_id m = a"
    "queue_order (set_row (rj_id m) (\<lambda>_. m') (jq_table q)) = rest"
    "rj_id m' = rj_id m" "rj_asset_id m' = a" "rj_created_at m' = rj_created_at m" "rj_dirty m' = rj_dirty m"
    "rj_status m' = ''RUNNING''" "job_row_ok m'" "rj_asset_id job = a" "rt_later (jq_rt q) rt'"
    "rj_coalesced_count m' = rj_coalesced_count m"
    and c: "claim q = (Ok (Some job), count_job record_reasoning_job_running_started
       (q\<lparr>jq_table := set_row (rj_id m) (\<lambda>_. m') (jq_table q), jq_rt := rt'\<rparr>))"
    by (rule claim_some [OF inv Cons])
  have out: "outstanding m" "outstanding m'" using m(2,9) by (simp_all add: outstanding_def is_pending_def)
  note inv' = queue_inv_set_row [OF inv m(12) m(1,5) _ m(7,10)]
  have "metrics_ok q \<Longrightarrow> metrics_ok (snd (claim q))"
    using m(2,9,13)
    by (simp add: c metrics_ok_def job_count_defs set_row_counts [OF queue_invD(4) [OF inv] m(1)] is_pending_def)
  moreover have "work_of (jq_table q) a = Queued (rj_dirty m)"
    using work_of_row [OF queue_invD(3) [OF inv] m(1) out(1)] m(2,3) by (simp add: job_work_def is_pending_def)
  moreover have "work_of (set_row (rj_id m) (\<lambda>_. m') (jq_table q)) = (work_of (jq_table q))(a := Busy (rj_dirty m))"
    using work_of_set_row [OF queue_invD(3) [OF inv] m(1) out(1) m(5) _ m(10)] out(2) m(3,6,8,9)
    by (simp add: job_work_def)
  ultimately show ?thesis using inv' out m(3,4,6,11) Cons
    by (simp add: step_refines_def job_step_def c work_queue_of_def)
qed

lemma finish_refines:
  assumes inv: "queue_inv q"
  shows "step_refines (Finish a ok) q"
proof (cases rule: work_of_cases [OF queue_invD(3) [OF inv], of a, case_names idle job])
  case idle
  then have "open_job (jq_table q) a = None" by (simp add: open_job_None)
  then show ?thesis using inv idle(1) by (simp add: step_refines_def job_step_def work_queue_of_def fun_upd_idem)
next
  case (job r)
  note dist = queue_invD(4) [OF inv] and wf = queue_invD(3) [OF inv]
  have row: "open_job (jq_table q) a = Some r" using job by (simp add: open_job_Some wf)
  show ?thesis
  proof (cases "rj_status r = ''RUNNING''")
    case False
    then have "job_work r = Queued (rj_dirty r)" using job(2) by (simp add: job_work_def outstanding_def)
    then show ?thesis using inv False row job(4)
      by (simp add: step_refines_def job_step_def work_queue_of_def fun_upd_idem)
  next
    case running: True
    define final where "final = (if ok then JOB_COMPLETED else JOB_FAILED)"
    define counted where "counted = (if ok then record_reasoning_job_completed else record_reasoning_job_failed)"
    have counted: "jm_created (counted c) = jm_created c" "jm_coalesced (counted c) = jm_coalesced c"
      "jm_running (counted c) = jm_running c" "jm_completed (counted c) = jm_completed c + of_bool ok"
      "jm_failed (counted c) = jm_failed c + of_bool (\<not> ok)" for c
      by (simp_all add: counted_def job_count_defs)
    have final: "final \<in> {JOB_COMPLETED, JOB_FAILED}" by (simp add: final_def)
    have fin: "(if ok then queue_complete else queue_fail) = finish_job final counted"
      by (simp add: final_def counted_def queue_complete_def queue_fail_def)
    have st: "rj_status r \<noteq> ''PENDING''" "\<not> is_pending r" using running by (simp_all add: is_pending_def)
    have row_ok: "job_row_ok r" by (rule job_table_wf_row [OF wf job(1)])
    define r' where "r' t d = r\<lparr>rj_status := job_status_value final, rj_completed_at := Some t, rj_dirty := d\<rparr>" for t d
    have r': "rj_id (r' t d) = rj_id r" "rj_asset_id (r' t d) = rj_asset_id r" "rj_created_at (r' t d) = rj_created_at r"
      "is_pending (r' t d) = is_pending r" "\<not> outstanding (r' t d)" "rj_coalesced_count (r' t d) = rj_coalesced_count r"
      "rj_status (r' t d) = (if ok then ''COMPLETED'' else ''FAILED'')" "job_row_ok (r' t False)" for t d
      using running row_ok by (auto simp: r'_def final_def outstanding_def is_pending_def job_row_ok_def)
    have work: "work_of (set_row (rj_id r) (\<lambda>_. r' t False) (jq_table q)) = (work_of (jq_table q))(a := Idle)" for t
      using work_of_set_row [OF wf job(1,2) r'(1,2,8)] r'(5) job(3) by simp
    have order: "queue_order (set_row (rj_id r) (\<lambda>_. r' t False) (jq_table q)) = queue_order (jq_table q)" for t
      by (rule queue_order_set_row [OF dist queue_invD(5) [OF inv] job(1) r'(3,2,4)])
    have busy: "work_of (jq_table q) a = Busy (rj_dirty r)" using job(4) running by (simp add: job_work_def)
    show ?thesis
    proof (cases "rj_dirty r")
      case False
      then have clean: "r\<lparr>rj_status := job_status_value final, rj_completed_at := Some t\<rparr> = r' t False" for t
        by (simp add: r'_def)
      obtain t rt' j where later: "rt_later (jq_rt q) rt'" and f: "finish_job final counted (with_status JOB_RUNNING r) q =
         (Ok j, count_job counted (count_job record_reasoning_job_running_finished
           (q\<lparr>jq_table := set_row (rj_id r) (\<lambda>_. r' t False) (jq_table q), jq_rt := rt'\<rparr>)))"
        using finish_clean [OF inv job(1) _ st(1) False final, of "with_status JOB_RUNNING r" counted, unfolded clean]
        by (metis with_status_simps(1))
      note inv' = queue_inv_set_row [OF inv later job(1) r'(1,2,3,8)]
      have "metrics_ok q \<Longrightarrow> metrics_ok (snd (finish_job final counted (with_status JOB_RUNNING r) q))"
        by (simp add: f metrics_ok_def counted job_count_defs set_row_counts [OF dist job(1)] r'(6,7) running)
      then show ?thesis using inv' r'(5) busy False
        by (simp add: step_refines_def job_step_def row running fin f work_queue_of_def order work)
    next
      case True
      obtain t i rt' j where inv': "queue_inv (q\<lparr>jq_table := set_row (rj_id r) (\<lambda>_. r' t False) (jq_table q)
            @ [pending_row i (rj_asset_id r) t], jq_rt := rt'\<rparr>)"
        and f: "finish_job final counted (with_status JOB_RUNNING r) q =
         (Ok j, count_job record_reasoning_job_rescheduled (count_job record_reasoning_job_created
           (count_job counted (count_job record_reasoning_job_running_finished
             (q\<lparr>jq_table := set_row (rj_id r) (\<lambda>_. r' t False) (jq_table q) @ [pending_row i (rj_asset_id r) t],
                jq_rt := rt'\<rparr>)))))"
        using finish_dirty [OF inv job(1) _ st(1) True final, of "with_status JOB_RUNNING r" counted]
        unfolding r'_def by (metis with_status_simps(1))
      let ?t = "set_row (rj_id r) (\<lambda>_. r' t False) (jq_table q)"
      have "metrics_ok q \<Longrightarrow> metrics_ok (snd (finish_job final counted (with_status JOB_RUNNING r) q))"
        by (simp add: f metrics_ok_def counted job_count_defs count_append count_pending_row
            set_row_counts [OF dist job(1)] r'(6,7) running)
      moreover have "queue_order (?t @ [pending_row i a t]) = queue_order (jq_table q) @ [a]"
        using queue_order_append [of ?t i a t] queue_invD(5) [OF inv'] job(3) order by simp
      moreover have "work_of (?t @ [pending_row i a t]) = (work_of (jq_table q))(a := Queued False)"
        using work_of_append_pending [of ?t i a t] set_row_wf [OF wf job(1) r'(1,2,8)] r'(5) queue_invD(3) [OF inv'] job(3) work
        by simp
      ultimately show ?thesis using inv' busy True job(3)
        by (simp add: step_refines_def job_step_def row running fin f work_queue_of_def)
    qed
  qed
qed

lemma job_step_refines: "queue_inv q \<Longrightarrow> step_refines op q"
  by (cases op) (auto intro: request_refines claim_refines finish_refines)

definition mk_queue :: "runtime \<Rightarrow> job_queue" where
  "mk_queue rt = \<lparr>jq_table = [], jq_rt = rt, jq_metrics = no_jobs_counted\<rparr>"

lemma mk_queue_inv: "uuids_fresh rt \<Longrightarrow> mono (rt_clock rt) \<Longrightarrow> queue_inv (mk_queue rt) \<and> metrics_ok (mk_queue rt)"
  by (simp add: mk_queue_def queue_inv_def metrics_ok_def no_jobs_counted_def job_table_wf_def count_by_status_def)

lemma work_queue_of_mk_queue: "work_queue_of (mk_queue rt) = ([], \<lambda>_. Idle)"
  by (auto simp: work_queue_of_def mk_queue_def queue_order_def pending_jobs_def sorted_by_def work_of_def open_job_def)

lemma demo_runtime_ok: "uuids_fresh demo_runtime" "mono (rt_clock demo_runtime)"
  by (simp_all add: demo_runtime_fresh) (simp add: demo_runtime_def mono_def)

section \<open>Requests are served\<close>

text \<open>\<open>Queued\<close> assets are those that wait, each once.\<close>

definition spec_inv :: "work_queue \<Rightarrow> bool" where
  "spec_inv s \<longleftrightarrow> (\<forall>a. a \<in> set (fst s) \<longleftrightarrow> (\<exists>d. snd s a = Queued d))"

lemma spec_inv_work_queue: "queue_inv q \<Longrightarrow> spec_inv (work_queue_of q)"
  by (simp add: spec_inv_def work_queue_of_def queue_order_mem)

text \<open>A request stays owed until a claim takes it.\<close>

lemma spec_owed_step:
  assumes "owed (snd s a)" "fst (spec_step op s) \<noteq> Some a"
  shows "owed (snd (snd (spec_step op s)) a)"
proof -
  have "owed (requested w)" "(w = Busy True \<or> w = Queued d) \<Longrightarrow> owed (ended w)" for w d by (cases w; auto)+
  then show ?thesis using assms
    by (cases "(op, s)" rule: spec_step.cases) (auto elim!: owed.elims)
qed

lemma spec_owed_run:
  assumes "owed (snd s a)" "Some a \<notin> set (fst (spec_run ops s))"
  shows "owed (snd (snd (spec_run ops s)) a)"
  using assms
proof (induction ops arbitrary: s)
  case Nil
  then show ?case by simp
next
  case (Cons op ops)
  have "owed (snd (snd (spec_step op s)) a)"
    by (rule spec_owed_step) (use Cons.prems in \<open>auto simp: op_run_Cons simp del: op_run.simps\<close>)
  moreover have "Some a \<notin> set (fst (spec_run ops (snd (spec_step op s))))"
    using Cons.prems(2) by (simp add: op_run_Cons del: op_run.simps)
  ultimately show ?case using Cons.IH by (simp add: op_run_Cons del: op_run.simps)
qed

text \<open>A claim takes the first waiting asset and every other step leaves the waiting assets in place.\<close>

lemma spec_waiting_step:
  "(op \<noteq> Claim \<longrightarrow> (\<exists>new. fst (snd (spec_step op s)) = fst s @ new)) \<and>
   (op = Claim \<longrightarrow> fst s \<noteq> [] \<longrightarrow> fst (spec_step op s) = Some (hd (fst s)) \<and> fst (snd (spec_step op s)) = tl (fst s))"
  by (cases "(op, s)" rule: spec_step.cases) auto

lemma spec_served:
  assumes "k < length (fst s)" "k < length (filter (\<lambda>op. op = Claim) ops)"
  shows "Some (fst s ! k) \<in> set (fst (spec_run ops s))"
  using assms
proof (induction ops arbitrary: s k)
  case Nil
  then show ?case by simp
next
  case (Cons op ops)
  let ?s1 = "snd (spec_step op s)"
  note step = spec_waiting_step [of op s]
  show ?case
  proof (cases "op = Claim")
    case False
    with step obtain new where "fst ?s1 = fst s @ new" by blast
    with Cons.IH [of k ?s1] Cons.prems False show ?thesis
      by (simp add: op_run_Cons nth_append del: op_run.simps)
  next
    case True
    then have s1: "fst (spec_step op s) = Some (hd (fst s))" "fst ?s1 = tl (fst s)"
      using step Cons.prems(1) by auto
    show ?thesis
    proof (cases k)
      case 0
      with Cons.prems(1) s1 show ?thesis by (simp add: op_run_Cons hd_conv_nth del: op_run.simps)
    next
      case (Suc j)
      then have "Some (fst ?s1 ! j) \<in> set (fst (spec_run ops ?s1))"
        using Cons.IH [of j ?s1] Cons.prems True s1(2) by simp
      then show ?thesis using Suc s1(2) Cons.prems(1)
        by (simp add: op_run_Cons nth_tl del: op_run.simps)
    qed
  qed
qed

section \<open>The contract of the queue\<close>

text \<open>
  A queue that takes one step of the specification at a time keeps what the specification promises
  over every run.
\<close>

locale work_queue_provider =
  fixes step :: "job_op \<Rightarrow> 'q \<Rightarrow> string option result \<times> 'q"
    and inv :: "'q \<Rightarrow> bool"
    and abs :: "'q \<Rightarrow> work_queue"
  assumes step_inv: "inv q \<Longrightarrow> inv (snd (step op q))"
    and step_answer: "inv q \<Longrightarrow> fst (step op q) = Ok (fst (spec_step op (abs q)))"
    and step_abs: "inv q \<Longrightarrow> abs (snd (step op q)) = snd (spec_step op (abs q))"
begin

lemma run_refines:
  assumes "inv q"
  shows "fst (op_run step ops q) = map Ok (fst (spec_run ops (abs q))) \<and>
    abs (snd (op_run step ops q)) = snd (spec_run ops (abs q)) \<and> inv (snd (op_run step ops q))"
  using assms
proof (induction ops arbitrary: q)
  case Nil
  then show ?case by simp
next
  case (Cons op ops)
  then show ?case using Cons.IH [OF step_inv [OF Cons.prems]]
    by (simp add: op_run_Cons step_answer step_abs del: op_run.simps)
qed

lemmas run_answers = run_refines [THEN conjunct1]
lemmas run_abs = run_refines [THEN conjunct2, THEN conjunct1]
lemmas run_inv = run_refines [THEN conjunct2, THEN conjunct2]

lemma request_owed:
  assumes "inv q"
  shows "owed (snd (abs (snd (step (Request a) q))) a)"
proof -
  have "owed (requested w)" for w by (cases w) auto
  then show ?thesis using step_abs [OF assms] by (cases "abs q") simp
qed

lemma owed_until_claimed:
  assumes "inv q" "owed (snd (abs q) a)" "Ok (Some a) \<notin> set (fst (op_run step ops q))"
  shows "owed (snd (abs (snd (op_run step ops q))) a)"
  using spec_owed_run [OF assms(2)] assms(3) by (simp add: run_answers [OF assms(1)] run_abs [OF assms(1)] image_iff)

lemma waiting_served:
  assumes "inv q" "a \<in> set (fst (abs q))" "length (fst (abs q)) \<le> length (filter (\<lambda>op. op = Claim) ops)"
  shows "Ok (Some a) \<in> set (fst (op_run step ops q))"
proof -
  obtain k where "k < length (fst (abs q))" "fst (abs q) ! k = a" using assms(2) by (auto simp: in_set_conv_nth)
  then have "Some a \<in> set (fst (spec_run ops (abs q)))" using spec_served [of k "abs q" ops] assms(3) by simp
  then show ?thesis by (simp add: run_answers [OF assms(1)])
qed

end

interpretation jobs: work_queue_provider job_step "\<lambda>q. queue_inv q \<and> metrics_ok q" work_queue_of
  by unfold_locales (use job_step_refines in \<open>auto simp: step_refines_def\<close>)

section \<open>Properties\<close>

text \<open>
  C7. Whatever requests, claims and ends of runs reach the queue, it answers and stands like the
  specification: one outstanding job per asset, first come first served, and requests that arrive
  during a run absorbed into exactly one further run; no statement ever violates a constraint.
\<close>

theorem job_queue_refines_specification:
  assumes "uuids_fresh rt" "mono (rt_clock rt)"
  shows "fst (job_run ops (mk_queue rt)) = map Ok (fst (spec_run ops ([], \<lambda>_. Idle))) \<and>
    work_queue_of (snd (job_run ops (mk_queue rt))) = snd (spec_run ops ([], \<lambda>_. Idle))"
  using jobs.run_answers [OF mk_queue_inv [OF assms]] jobs.run_abs [OF mk_queue_inv [OF assms]]
  by (simp add: work_queue_of_mk_queue)

definition demo_ops :: "job_op list" where
  "demo_ops = [Request ''a'', Request ''b'', Claim, Request ''a'', Request ''a'', Finish ''a'' True, Claim, Claim, Claim]"

theorem job_queue_refines_specification_witness:
  "fst (job_run demo_ops (mk_queue demo_runtime)) =
     map Ok [None, None, Some ''a'', None, None, None, Some ''b'', Some ''a'', None]"
  using job_queue_refines_specification [OF demo_runtime_ok, of demo_ops] by (simp add: demo_ops_def)



text \<open>
  C15. A request is never lost: until a claim takes the asset it stays owed a run, however requests,
  claims and ends of runs interleave; and a waiting asset is claimed once as many claims were made
  as assets were waiting.
\<close>

theorem requests_are_served:
  fixes ops :: "job_op list" and a :: string
  assumes "uuids_fresh rt" "mono (rt_clock rt)"
  defines "q \<equiv> snd (job_run (ops @ [Request a]) (mk_queue rt))"
  shows "owed (work_of (jq_table q) a) \<and>
    (Ok (Some a) \<notin> set (fst (job_run later q)) \<longrightarrow> owed (work_of (jq_table (snd (job_run later q))) a)) \<and>
    ((\<exists>d. work_of (jq_table q) a = Queued d) \<longrightarrow>
       length (filter (\<lambda>op. op = Claim) later) \<ge> length (queue_order (jq_table q)) \<longrightarrow>
       Ok (Some a) \<in> set (fst (job_run later q)))"
proof -
  let ?p = "snd (job_run ops (mk_queue rt))"
  have p: "queue_inv ?p \<and> metrics_ok ?p" by (rule jobs.run_inv [OF mk_queue_inv [OF assms(1,2)]])
  have q: "q = snd (job_step (Request a) ?p)" by (simp add: q_def op_run_append op_run_Cons del: op_run.simps(2))
  have inv: "queue_inv q \<and> metrics_ok q" unfolding q by (rule jobs.step_inv [OF p])
  have owed: "owed (snd (work_queue_of q) a)" unfolding q by (rule jobs.request_owed [OF p])
  have "a \<in> set (fst (work_queue_of q))" if "work_of (jq_table q) a = Queued d" for d
    using queue_order_mem inv that by (simp add: work_queue_of_def)
  then show ?thesis
    using owed jobs.owed_until_claimed [OF inv owed, of later] jobs.waiting_served [OF inv, of a later]
    by (auto simp: work_queue_of_def)
qed

theorem requests_are_served_witness:
  "owed (work_of (jq_table (snd (job_run ([Request ''a'', Claim] @ [Request ''a'']) (mk_queue demo_runtime)))) ''a'')"
  using requests_are_served [OF demo_runtime_ok, of "[Request ''a'', Claim]" "''a''"] by blast

end
