(* ===== verification/Operator_Investigations.thy ===== *)
theory Operator_Investigations
  imports Outbox Job_Queue
begin

text \<open>
  What an operator does about a recommendation: the transition record
  (\<^verbatim>\<open>src/backend/app/domain/investigation.py\<close>), its table
  (\<^verbatim>\<open>infrastructure/repositories/investigation_repository.py\<close> and the mapper) and the service that
  only accepts forward moves (\<^verbatim>\<open>application/investigation_service.py\<close>), wired with an event bus and a
  dispatcher as in \<^verbatim>\<open>api/dependencies/services.py\<close>.
\<close>

section \<open>Transitions\<close>

definition INVESTIGATION_STATUS_ORDER :: "string list" where
  "INVESTIGATION_STATUS_ORDER = [''ACKNOWLEDGED'', ''INVESTIGATING'', ''RESOLVED'']"

record InvestigationEvent =
  iv_id :: string
  iv_asset_id :: string
  iv_recommendation_id :: string
  iv_status :: string
  iv_actor_id :: string
  iv_actor_display_name :: string
  iv_occurred_at :: datetime
  iv_notes :: "string option"

definition check_investigation_event :: "InvestigationEvent \<Rightarrow> InvestigationEvent result" where
  "check_investigation_event e =
     construct
       [nonempty_check ''id'' (iv_id e), nonempty_check ''asset_id'' (iv_asset_id e),
        nonempty_check ''recommendation_id'' (iv_recommendation_id e),
        (iv_status e \<in> set INVESTIGATION_STATUS_ORDER,
         ValueError (''status must be one of: '' @ str_join '', '' INVESTIGATION_STATUS_ORDER)),
        nonempty_check ''actor_id'' (iv_actor_id e),
        nonempty_check ''actor_display_name'' (iv_actor_display_name e)] e"

section \<open>The table\<close>

text \<open>A row has the fields of the entity; reading it builds the entity again.\<close>

type_synonym transition_table = "InvestigationEvent list"

definition transition_save :: "InvestigationEvent \<Rightarrow> transition_table \<Rightarrow> transition_table result" where
  "transition_save e table =
     (if \<exists>row \<in> set table. iv_id row = iv_id e
      then Err (ValueError (''investigation transition with id '' @ py_repr (iv_id e) @ '' already exists''))
      else Ok (table @ [e]))"

definition list_for_recommendation :: "transition_table \<Rightarrow> string \<Rightarrow> InvestigationEvent list result" where
  "list_for_recommendation table recommendation =
     res_map check_investigation_event
       (sorted_by (\<lambda>e. (iv_occurred_at e, iv_id e)) (filter (\<lambda>e. iv_recommendation_id e = recommendation) table))"

definition get_latest_for_recommendation :: "transition_table \<Rightarrow> string \<Rightarrow> InvestigationEvent option result" where
  "get_latest_for_recommendation table recommendation =
     res_bind (list_for_recommendation table recommendation) (\<lambda>ts. Ok (if ts = [] then None else Some (last ts)))"

section \<open>The service\<close>

record 'w desk =
  dk_backend :: "'w backend"
  dk_transitions :: transition_table
  dk_outbox :: "OutboxEvent list"

record TransitionRequest =
  rq_asset_id :: string
  rq_recommendation_id :: string
  rq_status :: string
  rq_actor_id :: string
  rq_actor_display_name :: string
  rq_notes :: "string option"

text \<open>\<^verbatim>\<open>INVESTIGATION_STATUS_ORDER.index(status)\<close>.\<close>

definition status_rank :: "string \<Rightarrow> int result" where
  "status_rank s =
     (case List.find (\<lambda>i. INVESTIGATION_STATUS_ORDER ! i = s) [0..<length INVESTIGATION_STATUS_ORDER] of
        None \<Rightarrow> Err (ValueError ''tuple.index(x): x not in tuple'')
      | Some i \<Rightarrow> Ok (int i))"

text \<open>Is the move forward? Returns or raises.\<close>

definition check_forward :: "TransitionRequest \<Rightarrow> InvestigationEvent option \<Rightarrow> unit result" where
  "check_forward rq current =
     res_bind (case current of None \<Rightarrow> Ok (-1) | Some e \<Rightarrow> status_rank (iv_status e)) (\<lambda>current_rank.
     res_bind (status_rank (rq_status rq)) (\<lambda>rank.
       if rank \<le> current_rank
       then Err (AppError ''InvestigationTransitionRejectedError''
              (''cannot transition investigation for recommendation '' @ py_repr (rq_recommendation_id rq) @ '' from '' @
               py_repr (case current of None \<Rightarrow> ''NEW'' | Some e \<Rightarrow> iv_status e) @ '' to '' @ py_repr (rq_status rq)))
       else Ok ()))"

definition transition_payload :: "InvestigationEvent \<Rightarrow> datetime \<Rightarrow> (string, json) dict" where
  "transition_payload e now =
     [(''asset_id'', JStr (iv_asset_id e)), (''recommendation_id'', JStr (iv_recommendation_id e)),
      (''transition_id'', JStr (iv_id e)), (''status'', JStr (iv_status e)), (''actor_id'', JStr (iv_actor_id e)),
      (''actor_display_name'', JStr (iv_actor_display_name e)), (''occurred_at'', JStr (isoformat (iv_occurred_at e))),
      (''notes'', opt_str (iv_notes e)), (''timestamp'', JStr (isoformat now))]"

text \<open>
  The unit of work of a transition: what it commits, or the exception that rolls it back. Identifiers
  and clock readings are used up either way.
\<close>

definition transition_unit :: "TransitionRequest \<Rightarrow> 'w desk \<Rightarrow> InvestigationEvent result \<times> 'w desk" where
  "transition_unit rq dk =
     (case res_bind (get_latest_for_recommendation (dk_transitions dk) (rq_recommendation_id rq)) (check_forward rq) of
        Inl e \<Rightarrow> (Err e, dk)
      | Inr _ \<Rightarrow>
          (let (i, rt1) = uuid4 (be_rt (dk_backend dk)); (now, rt2) = utc_now rt1;
               used = (\<lambda>rt. dk\<lparr>dk_backend := (dk_backend dk)\<lparr>be_rt := rt\<rparr>\<rparr>)
           in case res_bind (check_investigation_event
                  \<lparr>iv_id = i, iv_asset_id = rq_asset_id rq, iv_recommendation_id = rq_recommendation_id rq,
                   iv_status = rq_status rq, iv_actor_id = rq_actor_id rq,
                   iv_actor_display_name = rq_actor_display_name rq, iv_occurred_at = now, iv_notes = rq_notes rq\<rparr>)
                  (\<lambda>e. res_bind (transition_save e (dk_transitions dk)) (\<lambda>table. Ok (e, table))) of
                Inl e \<Rightarrow> (Err e, used rt2)
              | Inr (e, table) \<Rightarrow>
                  (let (oid, rt3) = uuid4 rt2; (stamp, rt4) = utc_now rt3; (created, rt5) = utc_now rt4
                   in (Ok e, (used rt5)\<lparr>dk_transitions := table, dk_outbox := dk_outbox dk @
                         [\<lparr>ox_id = oid, ox_event_type = ''InvestigationTransitionRecorded'',
                           ox_payload = transition_payload e stamp, ox_created_at = created,
                           ox_dispatched_at = None\<rparr>]\<rparr>))))"

definition operator_transition ::
    "'w OutboxDispatcher \<Rightarrow> TransitionRequest \<Rightarrow> 'w desk \<Rightarrow> InvestigationEvent result \<times> 'w desk" where
  "operator_transition d rq dk =
     (case transition_unit rq dk of
        (Inl e, dk1) \<Rightarrow> (Err e, dk1)
      | (Inr e, dk1) \<Rightarrow>
          (case outbox_dispatch d (dk_outbox dk1) (dk_backend dk1) of
             (r, table, b) \<Rightarrow> (res_bind r (\<lambda>_. Ok e), dk1\<lparr>dk_outbox := table, dk_backend := b\<rparr>)))"


section \<open>Reachable desks\<close>

definition rank_of :: "string \<Rightarrow> nat" where
  "rank_of s = (if s = ''ACKNOWLEDGED'' then 0 else if s = ''INVESTIGATING'' then 1 else 2)"

lemma status_rank_cases:
  "status_rank s = (if s \<in> set INVESTIGATION_STATUS_ORDER then Ok (int (rank_of s))
     else Err (ValueError ''tuple.index(x): x not in tuple''))"
proof -
  have three: "[0..<3] = [0, 1, 2::nat]" by (simp add: numeral_3_eq_3 upt_rec)
  show ?thesis
    by (simp add: status_rank_def INVESTIGATION_STATUS_ORDER_def rank_of_def numeral_3_eq_3 upt_rec)
qed

definition of_recommendation :: "string \<Rightarrow> transition_table \<Rightarrow> transition_table" where
  "of_recommendation rec table = filter (\<lambda>e. iv_recommendation_id e = rec) table"

text \<open>
  Rows were checked and carry identifiers and times that were drawn; in the order of the table times
  ascend, and along one recommendation so do the ranks of the statuses.
\<close>

definition desk_inv :: "'w desk \<Rightarrow> bool" where
  "desk_inv dk \<longleftrightarrow>
     (let rt = be_rt (dk_backend dk); table = dk_transitions dk
      in uuids_fresh rt \<and> strict_mono (rt_clock rt) \<and>
         (\<forall>e \<in> set table. check_investigation_event e = Ok e \<and>
            (\<exists>n < rt_uuid_count rt. iv_id e = rt_uuids rt n) \<and>
            (\<exists>n < rt_clock_count rt. iv_occurred_at e = rt_clock rt n)) \<and>
         sorted_wrt (\<lambda>a b. iv_occurred_at a < iv_occurred_at b) table \<and>
         (\<forall>rec. sorted_wrt (\<lambda>a b. rank_of (iv_status a) < rank_of (iv_status b)) (of_recommendation rec table)))"

lemma desk_invD:
  assumes "desk_inv dk"
  shows "uuids_fresh (be_rt (dk_backend dk))" "strict_mono (rt_clock (be_rt (dk_backend dk)))"
    "e \<in> set (dk_transitions dk) \<Longrightarrow> check_investigation_event e = Ok e"
    "e \<in> set (dk_transitions dk) \<Longrightarrow> \<exists>n < rt_uuid_count (be_rt (dk_backend dk)). iv_id e = rt_uuids (be_rt (dk_backend dk)) n"
    "e \<in> set (dk_transitions dk) \<Longrightarrow> \<exists>n < rt_clock_count (be_rt (dk_backend dk)). iv_occurred_at e = rt_clock (be_rt (dk_backend dk)) n"
    "sorted_wrt (\<lambda>a b. iv_occurred_at a < iv_occurred_at b) (dk_transitions dk)"
    "sorted_wrt (\<lambda>a b. rank_of (iv_status a) < rank_of (iv_status b)) (of_recommendation rec (dk_transitions dk))"
  using assms unfolding desk_inv_def Let_def by blast+

lemma checked_status: "check_investigation_event e = Ok e' \<Longrightarrow> iv_status e \<in> set INVESTIGATION_STATUS_ORDER"
  by (simp add: check_investigation_event_def construct_Ok_iff)

lemma desk_listing:
  assumes "desk_inv dk"
  shows "list_for_recommendation (dk_transitions dk) rec = Ok (of_recommendation rec (dk_transitions dk))"
proof -
  let ?rows = "of_recommendation rec (dk_transitions dk)"
  have "sorted_wrt (\<lambda>a b. iv_occurred_at a < iv_occurred_at b) ?rows"
    unfolding of_recommendation_def by (rule sorted_wrt_filter) (rule desk_invD(6) [OF assms])
  then have "sorted (map (\<lambda>e. (iv_occurred_at e, iv_id e)) ?rows)"
    unfolding sorted_map by (rule sorted_wrt_mono_rel [rotated]) simp
  then have "sorted_by (\<lambda>e. (iv_occurred_at e, iv_id e)) ?rows = ?rows" by (rule sorted_by_id)
  moreover have "res_map check_investigation_event ?rows = Ok (map id ?rows)"
    by (rule res_map_pure) (use desk_invD(3) [OF assms] in \<open>auto simp: of_recommendation_def\<close>)
  ultimately show ?thesis by (simp add: list_for_recommendation_def of_recommendation_def)
qed


lemma desk_latest:
  assumes "desk_inv dk"
  shows "get_latest_for_recommendation (dk_transitions dk) rec =
    Ok (let ts = of_recommendation rec (dk_transitions dk) in if ts = [] then None else Some (last ts))"
  using desk_listing [OF assms] by (simp add: get_latest_for_recommendation_def Let_def)

text \<open>The moves the service accepts.\<close>

definition forward_move :: "TransitionRequest \<Rightarrow> transition_table \<Rightarrow> bool" where
  "forward_move rq table \<longleftrightarrow>
     rq_status rq \<in> set INVESTIGATION_STATUS_ORDER \<and>
     (\<forall>e \<in> set (of_recommendation (rq_recommendation_id rq) table). rank_of (iv_status e) < rank_of (rq_status rq))"

definition complete_request :: "TransitionRequest \<Rightarrow> bool" where
  "complete_request rq \<longleftrightarrow>
     rq_asset_id rq \<noteq> [] \<and> rq_recommendation_id rq \<noteq> [] \<and> rq_actor_id rq \<noteq> [] \<and> rq_actor_display_name rq \<noteq> []"

lemma sorted_wrt_last:
  assumes "sorted_wrt (\<lambda>a b. f a < f b) xs" "xs \<noteq> []"
  shows "(\<forall>x \<in> set xs. f x < (n :: nat)) \<longleftrightarrow> f (last xs) < n"
proof -
  obtain ys y where "xs = ys @ [y]" using assms(2) by (cases xs rule: rev_cases) auto
  with assms(1) show ?thesis by (auto simp: sorted_wrt_append)
qed

lemma check_forward_exact:
  assumes inv: "desk_inv dk"
  shows "(\<exists>u. res_bind (get_latest_for_recommendation (dk_transitions dk) (rq_recommendation_id rq)) (check_forward rq) = Ok u)
    \<longleftrightarrow> forward_move rq (dk_transitions dk)"
proof -
  let ?ts = "of_recommendation (rq_recommendation_id rq) (dk_transitions dk)"
  show ?thesis
  proof (cases "?ts = []")
    case True
    then show ?thesis
      by (simp add: desk_latest [OF inv] check_forward_def status_rank_cases forward_move_def Let_def)
  next
    case False
    then have "last ?ts \<in> set (dk_transitions dk)" using last_in_set [of ?ts] by (auto simp: of_recommendation_def)
    then have "iv_status (last ?ts) \<in> set INVESTIGATION_STATUS_ORDER"
      using checked_status desk_invD(3) [OF inv] by blast
    with False show ?thesis
      using sorted_wrt_last [OF desk_invD(7) [OF inv] False, of "rank_of (rq_status rq)"]
      by (simp add: desk_latest [OF inv] check_forward_def status_rank_cases forward_move_def Let_def not_le)
  qed
qed

text \<open>What a unit of work commits.\<close>

definition event_of :: "TransitionRequest \<Rightarrow> string \<Rightarrow> datetime \<Rightarrow> InvestigationEvent" where
  "event_of rq i now =
     \<lparr>iv_id = i, iv_asset_id = rq_asset_id rq, iv_recommendation_id = rq_recommendation_id rq,
      iv_status = rq_status rq, iv_actor_id = rq_actor_id rq, iv_actor_display_name = rq_actor_display_name rq,
      iv_occurred_at = now, iv_notes = rq_notes rq\<rparr>"

lemma unit_refused:
  assumes inv: "desk_inv dk" and bad: "\<not> (forward_move rq (dk_transitions dk) \<and> complete_request rq)"
  shows "\<exists>e rt. transition_unit rq dk = (Err e, dk\<lparr>dk_backend := (dk_backend dk)\<lparr>be_rt := rt\<rparr>\<rparr>) \<and>
    env_advances (be_rt (dk_backend dk)) rt"
proof (cases "res_bind (get_latest_for_recommendation (dk_transitions dk) (rq_recommendation_id rq)) (check_forward rq)")
  case (Inl e)
  then show ?thesis by (auto simp: transition_unit_def intro!: exI [of _ "be_rt (dk_backend dk)"])
next
  case (Inr u)
  obtain i rt1 where i: "uuid4 (be_rt (dk_backend dk)) = (i, rt1)" by fastforce
  obtain now rt2 where t: "utc_now rt1 = (now, rt2)" by fastforce
  have "\<not> complete_request rq" using check_forward_exact [OF inv, of rq] Inr bad by blast
  then have "\<not> (\<exists>e. check_investigation_event (event_of rq i now) = Ok e)"
    by (auto simp: check_investigation_event_def construct_Ok_iff event_of_def complete_request_def)
  then obtain x where "check_investigation_event (event_of rq i now) = Err x"
    by (cases "check_investigation_event (event_of rq i now)") auto
  then show ?thesis using Inr env_advances_trans [OF env_advances_uuid4 [OF i] env_advances_utc_now [OF t]]
    by (auto simp: transition_unit_def i t event_of_def)
qed


lemma desk_inv_later:
  assumes "desk_inv dk" "env_advances (be_rt (dk_backend dk)) (be_rt (dk_backend dk'))" "dk_transitions dk' = dk_transitions dk"
  shows "desk_inv dk'"
proof -
  have "(\<exists>n < rt_uuid_count (be_rt (dk_backend dk')). iv_id e = rt_uuids (be_rt (dk_backend dk')) n) \<and>
      (\<exists>n < rt_clock_count (be_rt (dk_backend dk')). iv_occurred_at e = rt_clock (be_rt (dk_backend dk')) n)"
    if "e \<in> set (dk_transitions dk)" for e
  proof -
    from desk_invD(4,5) [OF assms(1) that] obtain n m where
      "n < rt_uuid_count (be_rt (dk_backend dk))" "iv_id e = rt_uuids (be_rt (dk_backend dk)) n"
      "m < rt_clock_count (be_rt (dk_backend dk))" "iv_occurred_at e = rt_clock (be_rt (dk_backend dk)) m" by blast
    then show ?thesis using assms(2)
      by (intro conjI exI [of _ n] exI [of _ m]) (simp_all add: env_advances_def)
  qed
  moreover have "uuids_fresh (be_rt (dk_backend dk'))" by (rule env_advances_fresh [OF assms(2) desk_invD(1) [OF assms(1)]])
  moreover have "strict_mono (rt_clock (be_rt (dk_backend dk')))"
    using desk_invD(2) [OF assms(1)] assms(2) by (simp add: env_advances_def)
  ultimately show ?thesis
    unfolding desk_inv_def Let_def assms(3) using desk_invD(3,6,7) [OF assms(1)] by blast
qed

lemma unit_accepted:
  assumes inv: "desk_inv dk" and move: "forward_move rq (dk_transitions dk)" and full: "complete_request rq"
  obtains i now dk1 where "transition_unit rq dk = (Ok (event_of rq i now), dk1)"
    "dk_transitions dk1 = dk_transitions dk @ [event_of rq i now]" "desk_inv dk1"
    "env_advances (be_rt (dk_backend dk)) (be_rt (dk_backend dk1))"
proof -
  let ?rt = "be_rt (dk_backend dk)"
  obtain i rt1 where i: "uuid4 ?rt = (i, rt1)" by fastforce
  obtain now rt2 where t: "utc_now rt1 = (now, rt2)" by fastforce
  obtain oid rt3 where o: "uuid4 rt2 = (oid, rt3)" by fastforce
  obtain st rt4 where s: "utc_now rt3 = (st, rt4)" by fastforce
  obtain c rt5 where c: "utc_now rt4 = (c, rt5)" by fastforce
  have adv: "env_advances ?rt rt5"
    using env_advances_uuid4 [OF i] env_advances_utc_now [OF t] env_advances_uuid4 [OF o] env_advances_utc_now [OF s]
      env_advances_utc_now [OF c] by (meson env_advances_trans)
  have i': "i = rt_uuids ?rt (rt_uuid_count ?rt)" "rt_uuid_count ?rt < rt_uuid_count rt5"
    and now: "now = rt_clock ?rt (rt_clock_count ?rt)" "rt_clock_count ?rt < rt_clock_count rt5"
    using i t o s c by (auto simp: uuid4_def utc_now_def)
  let ?e = "event_of rq i now"
  have fresh: "iv_id row \<noteq> i" if "row \<in> set (dk_transitions dk)" for row
    using desk_invD(4) [OF inv that] desk_invD(1) [OF inv] i'(1) by (auto simp: uuids_fresh_def inj_eq)
  have earlier: "iv_occurred_at row < now" if "row \<in> set (dk_transitions dk)" for row
    using desk_invD(5) [OF inv that] desk_invD(2) [OF inv] now(1) by (auto simp: strict_mono_less)
  have "i \<noteq> []" using desk_invD(1) [OF inv] i'(1) by (simp add: uuids_fresh_def)
  then have checked: "check_investigation_event ?e = Ok ?e"
    using move full by (simp add: check_investigation_event_def construct_Ok_iff event_of_def complete_request_def forward_move_def)
  obtain u where u: "res_bind (get_latest_for_recommendation (dk_transitions dk) (rq_recommendation_id rq)) (check_forward rq) = Ok u"
    using check_forward_exact [OF inv, of rq] move by blast
  have save: "transition_save ?e (dk_transitions dk) = Ok (dk_transitions dk @ [?e])"
    using fresh by (auto simp: transition_save_def event_of_def)
  define dk1 where "dk1 = snd (transition_unit rq dk)"
  have unit': "transition_unit rq dk = (Ok ?e, dk1)" and dk1: "dk_transitions dk1 = dk_transitions dk @ [?e]" "be_rt (dk_backend dk1) = rt5"
    using u checked save by (simp_all add: dk1_def transition_unit_def i t o s c Let_def flip: event_of_def)
  have later: "desk_inv (dk1\<lparr>dk_transitions := dk_transitions dk\<rparr>)"
    by (rule desk_inv_later [OF inv]) (simp_all add: dk1(2) adv)
  have new: "of_recommendation rec (dk_transitions dk1) =
      of_recommendation rec (dk_transitions dk) @ (if rq_recommendation_id rq = rec then [?e] else [])" for rec
    by (simp add: dk1(1) of_recommendation_def event_of_def)
  have rows: "check_investigation_event e = Ok e \<and> (\<exists>n < rt_uuid_count rt5. iv_id e = rt_uuids rt5 n) \<and>
      (\<exists>n < rt_clock_count rt5. iv_occurred_at e = rt_clock rt5 n)" if "e \<in> set (dk_transitions dk1)" for e
  proof (cases "e = ?e")
    case True
    then show ?thesis using checked i' now adv by (auto simp: event_of_def env_advances_def)
  next
    case False
    then have "e \<in> set (dk_transitions dk)" using that by (simp add: dk1(1))
    then show ?thesis using desk_invD(3-5) [OF later, of e] by (simp add: dk1(2))
  qed
  have "sorted_wrt (\<lambda>a b. iv_occurred_at a < iv_occurred_at b) (dk_transitions dk1)"
    using desk_invD(6) [OF inv] earlier by (simp add: dk1(1) sorted_wrt_append event_of_def)
  moreover have "sorted_wrt (\<lambda>a b. rank_of (iv_status a) < rank_of (iv_status b)) (of_recommendation rec (dk_transitions dk1))" for rec
    using desk_invD(7) [OF inv, of rec] move by (auto simp: new sorted_wrt_append forward_move_def event_of_def)
  moreover have "uuids_fresh rt5" "strict_mono (rt_clock rt5)" using desk_invD(1,2) [OF later] by (simp_all add: dk1(2))
  ultimately have "desk_inv dk1" using rows by (simp add: desk_inv_def dk1(2))
  then show ?thesis using that [OF unit' dk1(1)] adv dk1(2) by simp
qed


lemma dispatch_desk:
  assumes "dispatcher_advances (Some d)" "outbox_dispatch d (dk_outbox dk) (dk_backend dk) = (r, table, b)" "desk_inv dk"
  shows "desk_inv (dk\<lparr>dk_outbox := table, dk_backend := b\<rparr>)"
  by (rule desk_inv_later [OF assms(3)]) (use outbox_dispatch_env [OF assms(1,2)] in simp_all)

lemma operator_step:
  assumes inv: "desk_inv dk" and adv: "dispatcher_advances (Some d)"
  shows "desk_inv (snd (operator_transition d rq dk))"
proof (cases "forward_move rq (dk_transitions dk) \<and> complete_request rq")
  case True
  then obtain i now dk1 where u: "transition_unit rq dk = (Ok (event_of rq i now), dk1)" "desk_inv dk1"
    using unit_accepted [OF inv] by metis
  obtain r table b where o: "outbox_dispatch d (dk_outbox dk1) (dk_backend dk1) = (r, table, b)" by (metis prod_cases3)
  show ?thesis using dispatch_desk [OF adv o u(2)] by (simp add: operator_transition_def u(1) o)
next
  case False
  then obtain e rt where u: "transition_unit rq dk = (Err e, dk\<lparr>dk_backend := (dk_backend dk)\<lparr>be_rt := rt\<rparr>\<rparr>)"
    "env_advances (be_rt (dk_backend dk)) rt"
    using unit_refused [OF inv] by blast
  have "desk_inv (dk\<lparr>dk_backend := (dk_backend dk)\<lparr>be_rt := rt\<rparr>\<rparr>)" by (rule desk_inv_later [OF inv]) (simp_all add: u(2))
  then show ?thesis by (simp add: operator_transition_def u(1))
qed

definition empty_desk :: "'w backend \<Rightarrow> 'w desk" where
  "empty_desk b = \<lparr>dk_backend = b, dk_transitions = [], dk_outbox = []\<rparr>"

lemma empty_desk_inv: "uuids_fresh (be_rt b) \<Longrightarrow> strict_mono (rt_clock (be_rt b)) \<Longrightarrow> desk_inv (empty_desk b)"
  by (simp add: desk_inv_def empty_desk_def of_recommendation_def)

lemma desk_run_inv:
  "desk_inv dk \<Longrightarrow> dispatcher_advances (Some d) \<Longrightarrow> desk_inv (snd (op_run (operator_transition d) rqs dk))"
  by (induction rqs arbitrary: dk) (simp, simp add: op_run_Cons operator_step del: op_run.simps)

lemma few_ranks:
  assumes "sorted_wrt (\<lambda>a b. rank_of (iv_status a) < rank_of (iv_status b)) ts"
  shows "length ts \<le> 3"
proof -
  have "sorted_wrt (<) (map (\<lambda>e. rank_of (iv_status e)) ts)" using assms by (simp add: sorted_wrt_map)
  then have "distinct (map (\<lambda>e. rank_of (iv_status e)) ts)" by (simp add: strict_sorted_iff)
  then have "length ts = card (set (map (\<lambda>e. rank_of (iv_status e)) ts))" by (simp only: distinct_card length_map)
  also have "\<dots> \<le> card {0, 1, 2 :: nat}" by (rule card_mono) (auto simp: rank_of_def)
  finally show ?thesis by simp
qed

section \<open>Properties\<close>

text \<open>
  C28. Investigations only move forward: after any requests of any operators, the recorded transitions of
  a recommendation, in the order the service lists them, climb from acknowledged over investigating to
  resolved without a step back or a repetition, so there are three at most. Two transitions never carry
  the same time.
\<close>

theorem operator_moves_forward:
  fixes d :: "'w OutboxDispatcher" and rqs :: "TransitionRequest list"
  assumes "uuids_fresh (be_rt b)" "strict_mono (rt_clock (be_rt b))" "dispatcher_advances (Some d)"
  defines "dk \<equiv> snd (op_run (operator_transition d) rqs (empty_desk b))"
  shows "\<exists>ts. list_for_recommendation (dk_transitions dk) rec = Ok ts \<and>
    sorted_wrt (\<lambda>x y. rank_of (iv_status x) < rank_of (iv_status y) \<and> iv_occurred_at x < iv_occurred_at y) ts \<and> length ts \<le> 3"
proof -
  have inv: "desk_inv dk" unfolding dk_def by (rule desk_run_inv [OF empty_desk_inv [OF assms(1,2)] assms(3)])
  let ?ts = "of_recommendation rec (dk_transitions dk)"
  have "sorted_wrt (\<lambda>x y. iv_occurred_at x < iv_occurred_at y) ?ts"
    unfolding of_recommendation_def by (rule sorted_wrt_filter) (rule desk_invD(6) [OF inv])
  then have "sorted_wrt (\<lambda>x y. rank_of (iv_status x) < rank_of (iv_status y) \<and> iv_occurred_at x < iv_occurred_at y) ?ts"
    using desk_invD(7) [OF inv, of rec] by (induction ?ts) (auto simp: sorted_wrt_iff_nth_less)
  then show ?thesis using desk_listing [OF inv] few_ranks [OF desk_invD(7) [OF inv]] by blast
qed

definition demo_request :: "string \<Rightarrow> TransitionRequest" where
  "demo_request s = \<lparr>rq_asset_id = ''stack-1'', rq_recommendation_id = ''rec-1'', rq_status = s, rq_actor_id = ''op-1'',
     rq_actor_display_name = ''Ada'', rq_notes = None\<rparr>"

text \<open>
  A request is answered exactly: one that is no forward move, or that lacks a field, raises and leaves
  the table and the outbox as they were; any other appends one transition with the fields of the request,
  and the answer is that transition unless the dispatch that follows the commit raises.
\<close>

theorem operator_transition_exact:
  fixes d :: "'w OutboxDispatcher" and rq :: TransitionRequest
  assumes inv: "desk_inv dk" and adv: "dispatcher_advances (Some d)"
  defines "ok \<equiv> forward_move rq (dk_transitions dk) \<and> complete_request rq"
  shows "\<exists>r dk'. operator_transition d rq dk = (r, dk') \<and> desk_inv dk' \<and>
    (if ok then \<exists>e. dk_transitions dk' = dk_transitions dk @ [e] \<and> iv_recommendation_id e = rq_recommendation_id rq \<and>
                  iv_status e = rq_status rq \<and> iv_actor_id e = rq_actor_id rq \<and> iv_notes e = rq_notes rq \<and>
                  (r = Ok e \<or> (\<exists>x. r = Err x))
     else (\<exists>x. r = Err x) \<and> dk_transitions dk' = dk_transitions dk \<and> dk_outbox dk' = dk_outbox dk)"
proof (cases ok)
  case True
  then obtain i now dk1 where u: "transition_unit rq dk = (Ok (event_of rq i now), dk1)"
      "dk_transitions dk1 = dk_transitions dk @ [event_of rq i now]" "desk_inv dk1"
    using unit_accepted [OF inv] unfolding ok_def by metis
  obtain r table b where o: "outbox_dispatch d (dk_outbox dk1) (dk_backend dk1) = (r, table, b)" by (metis prod_cases3)
  show ?thesis using dispatch_desk [OF adv o u(3)] u(1,2) True
    by (cases r) (auto simp: operator_transition_def o event_of_def)
next
  case False
  then obtain e rt where u: "transition_unit rq dk = (Err e, dk\<lparr>dk_backend := (dk_backend dk)\<lparr>be_rt := rt\<rparr>\<rparr>)"
    using unit_refused [OF inv] unfolding ok_def by blast
  then show ?thesis using False operator_step [OF inv adv, of rq] by (simp add: operator_transition_def)
qed


lemma demo_desk:
  "uuids_fresh (be_rt demo_backend)" "strict_mono (rt_clock (be_rt demo_backend))" "dispatcher_advances (Some demo_dispatcher)"
  by (simp_all add: demo_backend_def demo_runtime_fresh dispatcher_advances_def demo_dispatcher_def)
    (simp add: demo_runtime_def strict_mono_def)

theorem operator_moves_forward_witness:
  "\<exists>ts. list_for_recommendation (dk_transitions (snd (op_run (operator_transition demo_dispatcher)
       (map demo_request [''ACKNOWLEDGED'', ''RESOLVED'', ''INVESTIGATING'']) (empty_desk demo_backend)))) ''rec-1'' = Ok ts \<and>
     sorted_wrt (\<lambda>x y. rank_of (iv_status x) < rank_of (iv_status y)) ts"
  using operator_moves_forward [OF demo_desk, of "map demo_request [''ACKNOWLEDGED'', ''RESOLVED'', ''INVESTIGATING'']" "''rec-1''"]
  by (auto elim: sorted_wrt_mono_rel [rotated])

theorem operator_transition_exact_witness:
  "\<exists>r dk' e. operator_transition demo_dispatcher (demo_request ''INVESTIGATING'') (empty_desk demo_backend) = (r, dk') \<and>
     dk_transitions dk' = [e] \<and> iv_status e = ''INVESTIGATING''"
proof -
  have "forward_move (demo_request ''INVESTIGATING'') (dk_transitions (empty_desk demo_backend))"
    "complete_request (demo_request ''INVESTIGATING'')" "dk_transitions (empty_desk demo_backend) = []"
    by (simp_all add: forward_move_def complete_request_def demo_request_def of_recommendation_def empty_desk_def
        INVESTIGATION_STATUS_ORDER_def)
  moreover have "rq_status (demo_request ''INVESTIGATING'') = ''INVESTIGATING''" by (simp add: demo_request_def)
  ultimately show ?thesis
    using operator_transition_exact [OF empty_desk_inv [OF demo_desk(1,2)] demo_desk(3), of "demo_request ''INVESTIGATING''"]
    by auto
qed

end
