(* ===== verification/Plant_Machine.thy ===== *)
theory Plant_Machine
  imports Domain_Model
begin

text \<open>
  The simulated fuel cell stack (\<^verbatim>\<open>src/backend/simulator/machine.py\<close>): its state, the three commands and
  the tick, in the float arithmetic of \<^theory_text>\<open>Py_Float\<close>. The mathematical functions of the C library
  (\<^verbatim>\<open>math.exp\<close>, \<^verbatim>\<open>math.sin\<close>) are a parameter; \<open>math_ok\<close> is what is documented of them. The theorems show
  that no sequence of commands and ticks leaves the ratings of the stack, and that every ramp ends.
\<close>

section \<open>State\<close>

datatype OperatingMode = IDLE | RUNNING | RAMPING

record FuelCellMachineState =
  fs_load :: pyfloat
  fs_target_load :: pyfloat
  fs_current :: pyfloat
  fs_voltage :: pyfloat
  fs_stack_temperature :: pyfloat
  fs_stack_pressure :: pyfloat
  fs_hydrogen_flow :: pyfloat
  fs_air_flow :: pyfloat
  fs_cooling_efficiency :: pyfloat
  fs_fuel_supply_factor :: pyfloat
  fs_coolant_flow :: pyfloat
  fs_operating_mode :: OperatingMode
  fs_tick_count :: int

record FuelCellMachine =
  fm_asset_id :: string
  fm_load :: pyfloat
  fm_target_load :: pyfloat
  fm_current :: pyfloat
  fm_voltage :: pyfloat
  fm_stack_temperature :: pyfloat
  fm_stack_pressure :: pyfloat
  fm_hydrogen_flow :: pyfloat
  fm_air_flow :: pyfloat
  fm_cooling_efficiency :: pyfloat
  fm_target_cooling_efficiency :: pyfloat
  fm_fuel_supply_factor :: pyfloat
  fm_target_fuel_supply_factor :: pyfloat
  fm_operating_mode :: OperatingMode
  fm_tick_count :: int

text \<open>The constructor with its defaults; the fleet passes the load and the temperature.\<close>

definition mk_machine :: "string \<Rightarrow> pyfloat \<Rightarrow> pyfloat \<Rightarrow> FuelCellMachine" where
  "mk_machine asset load temperature =
     \<lparr>fm_asset_id = asset, fm_load = load, fm_target_load = 50, fm_current = 100, fm_voltage = flit 76 100,
      fm_stack_temperature = temperature, fm_stack_pressure = 152, fm_hydrogen_flow = 2, fm_air_flow = 8,
      fm_cooling_efficiency = flit 85 100, fm_target_cooling_efficiency = flit 85 100,
      fm_fuel_supply_factor = 1, fm_target_fuel_supply_factor = 1, fm_operating_mode = RUNNING, fm_tick_count = 0\<rparr>"

definition default_machine :: "string \<Rightarrow> FuelCellMachine" where
  "default_machine asset = mk_machine asset 50 65"

record MathLib =
  ml_exp :: "pyfloat \<Rightarrow> pyfloat"
  ml_sin :: "pyfloat \<Rightarrow> pyfloat"

section \<open>Helpers\<close>

definition clamp :: "pyfloat \<Rightarrow> pyfloat \<Rightarrow> pyfloat \<Rightarrow> pyfloat" where
  "clamp x lower upper = max lower (min x upper)"

definition lag_toward :: "MathLib \<Rightarrow> pyfloat \<Rightarrow> pyfloat \<Rightarrow> pyfloat \<Rightarrow> pyfloat \<Rightarrow> pyfloat" where
  "lag_toward ml current target dt time_constant =
     (if time_constant \<le> 0 then target
      else let alpha = fsub 1 (ml_exp ml (fdiv (- dt) time_constant))
           in fadd current (fmul (fsub target current) alpha))"

definition micro_variation :: "MathLib \<Rightarrow> int \<Rightarrow> int \<Rightarrow> pyfloat \<Rightarrow> pyfloat" where
  "micro_variation ml tick channel amplitude =
     fmul (ml_sin ml (fadd (fmul (fl (of_int tick)) (flit 17 100)) (fmul (of_int channel) (flit 13 10)))) amplitude"

definition coolant_flow_of :: "pyfloat \<Rightarrow> pyfloat \<Rightarrow> pyfloat" where
  "coolant_flow_of load_percent cooling =
     py_round (fadd (fadd 8 (fmul (fdiv load_percent 100) 18)) (fmul (fsub (flit 85 100) cooling) 12)) 4"

section \<open>Commands and tick\<close>

definition set_target_load :: "pyfloat \<Rightarrow> FuelCellMachine \<Rightarrow> FuelCellMachine" where
  "set_target_load target m =
     (let t = clamp target 0 100
      in m\<lparr>fm_target_load := t,
           fm_operating_mode :=
             (if 1 < \<bar>fsub t (fm_load m)\<bar> then RAMPING
              else if fm_operating_mode m = RAMPING then RUNNING else fm_operating_mode m)\<rparr>)"

definition set_cooling_efficiency :: "pyfloat \<Rightarrow> FuelCellMachine \<Rightarrow> FuelCellMachine" where
  "set_cooling_efficiency cooling m = m\<lparr>fm_target_cooling_efficiency := clamp cooling (flit 4 10) 1\<rparr>"

definition set_fuel_supply_factor :: "pyfloat \<Rightarrow> FuelCellMachine \<Rightarrow> FuelCellMachine" where
  "set_fuel_supply_factor factor m = m\<lparr>fm_target_fuel_supply_factor := clamp factor (flit 4 10) 1\<rparr>"

definition fuel_starvation_voltage_penalty :: "pyfloat \<Rightarrow> pyfloat" where
  "fuel_starvation_voltage_penalty factor =
     (if flit 98 100 \<le> factor then 0
      else let starvation_range = fsub (flit 98 100) (flit 4 10);
               depth = fdiv (fsub (flit 98 100) factor) starvation_range
           in fmul (flit 6 100) (min 1 depth))"

definition machine_state :: "FuelCellMachine \<Rightarrow> FuelCellMachineState" where
  "machine_state m =
     \<lparr>fs_load = fm_load m, fs_target_load = fm_target_load m, fs_current = fm_current m, fs_voltage = fm_voltage m,
      fs_stack_temperature = fm_stack_temperature m, fs_stack_pressure = fm_stack_pressure m,
      fs_hydrogen_flow = fm_hydrogen_flow m, fs_air_flow = fm_air_flow m,
      fs_cooling_efficiency = fm_cooling_efficiency m, fs_fuel_supply_factor = fm_fuel_supply_factor m,
      fs_coolant_flow = coolant_flow_of (fm_load m) (fm_cooling_efficiency m),
      fs_operating_mode = fm_operating_mode m, fs_tick_count = fm_tick_count m\<rparr>"

text \<open>The values a tick steers to, each from the values the tick has already updated.\<close>

definition target_voltage :: "MathLib \<Rightarrow> int \<Rightarrow> pyfloat \<Rightarrow> pyfloat \<Rightarrow> pyfloat" where
  "target_voltage ml tick current factor =
     fadd (fsub (fsub (flit 78 100) (fmul (fdiv current 200) (flit 6 100))) (fuel_starvation_voltage_penalty factor))
       (micro_variation ml tick 1 (flit 2 1000))"

definition target_temperature :: "MathLib \<Rightarrow> int \<Rightarrow> pyfloat \<Rightarrow> pyfloat \<Rightarrow> pyfloat" where
  "target_temperature ml tick load_fraction cooling =
     fadd (fsub (fadd 55 (fmul load_fraction 20)) (fmul (fsub cooling (flit 8 10)) 10))
       (micro_variation ml tick 2 (flit 15 100))"

definition target_pressure :: "MathLib \<Rightarrow> int \<Rightarrow> pyfloat \<Rightarrow> pyfloat" where
  "target_pressure ml tick temperature =
     fadd (fsub 160 (fmul (fsub temperature 60) (flit 5 10))) (micro_variation ml tick 3 (flit 2 10))"

definition machine_tick :: "MathLib \<Rightarrow> pyfloat \<Rightarrow> FuelCellMachine \<Rightarrow> FuelCellMachineState result \<times> FuelCellMachine" where
  "machine_tick ml dt m =
     (if dt \<le> 0 then (Err (ValueError ''dt_seconds must be positive''), m)
      else
        let tick = fm_tick_count m + 1;
            cooling = lag_toward ml (fm_cooling_efficiency m) (fm_target_cooling_efficiency m) dt 60;
            factor = lag_toward ml (fm_fuel_supply_factor m) (fm_target_fuel_supply_factor m) dt 30;
            load = lag_toward ml (fm_load m) (fm_target_load m) dt 30;
            mode = (if \<bar>fsub (fm_target_load m) load\<bar> \<le> 1 then RUNNING else fm_operating_mode m);
            load_fraction = fdiv load 100;
            target_current = fmul load_fraction 200;
            current = lag_toward ml (fm_current m) target_current dt 30;
            voltage = lag_toward ml (fm_voltage m) (target_voltage ml tick current factor) dt (fdiv 30 2);
            target_fuel_flow = fmul (fadd (flit 15 10) (fmul load_fraction 1)) factor;
            hydrogen = lag_toward ml (fm_hydrogen_flow m) target_fuel_flow dt 30;
            limited = (if factor < flit 98 100
              then lag_toward ml current (min current (fmul target_current factor)) dt (fdiv 30 2) else current);
            air = lag_toward ml (fm_air_flow m) (fmul hydrogen 4) dt 30;
            temperature = lag_toward ml (fm_stack_temperature m) (target_temperature ml tick load_fraction cooling) dt 60;
            pressure = lag_toward ml (fm_stack_pressure m) (target_pressure ml tick temperature) dt (fdiv 60 2);
            m' = m\<lparr>fm_tick_count := tick, fm_cooling_efficiency := cooling, fm_fuel_supply_factor := factor,
              fm_load := load, fm_operating_mode := mode, fm_current := limited, fm_voltage := voltage,
              fm_hydrogen_flow := hydrogen, fm_air_flow := air, fm_stack_temperature := temperature,
              fm_stack_pressure := pressure\<rparr>
        in (Ok (machine_state m'), m'))"

text \<open>What drives a machine.\<close>

datatype MachineCommand = SetLoad pyfloat | SetCooling pyfloat | SetFuel pyfloat | Tick pyfloat

fun machine_step :: "MathLib \<Rightarrow> MachineCommand \<Rightarrow> FuelCellMachine \<Rightarrow> FuelCellMachine" where
  "machine_step ml (SetLoad x) m = set_target_load x m"
| "machine_step ml (SetCooling x) m = set_cooling_efficiency x m"
| "machine_step ml (SetFuel x) m = set_fuel_supply_factor x m"
| "machine_step ml (Tick dt) m = snd (machine_tick ml dt m)"

section \<open>Bounds on rounded arithmetic\<close>

text \<open>
  What the C library promises: results are floats, the exponential of a negative number lies between 0
  and 1, the sine between -1 and 1.
\<close>

definition math_ok :: "MathLib \<Rightarrow> bool" where
  "math_ok ml \<longleftrightarrow>
     (\<forall>x. is_float (ml_exp ml x) \<and> (x < 0 \<longrightarrow> 0 \<le> ml_exp ml x \<and> ml_exp ml x \<le> 1)) \<and>
     (\<forall>x. is_float (ml_sin ml x) \<and> \<bar>ml_sin ml x\<bar> \<le> 1)"

lemma fl_near:
  assumes "\<bar>x\<bar> \<le> 1000"
  shows "x - 1 / 1000000000000 \<le> fl x" "fl x \<le> x + 1 / 1000000000000"
proof -
  have "\<bar>fl x - x\<bar> \<le> 1000 / 2 ^ 53" using fl_error [of x] assms by simp
  also have "\<dots> \<le> (1 / 1000000000000 :: rat)" by simp
  finally show "x - 1 / 1000000000000 \<le> fl x" "fl x \<le> x + 1 / 1000000000000" by linarith+
qed

lemma fl_near_abs: "\<bar>x\<bar> \<le> 1000 \<Longrightarrow> \<bar>fl x - x\<bar> \<le> 1 / 1000000000000"
  by (intro abs_leI) (use fl_near [of x] in linarith)+

lemma mul_between:
  fixes x y :: rat
  assumes "a \<le> x" "x \<le> b" "0 \<le> y" "y \<le> d" "a \<le> 0" "0 \<le> b"
  shows "a * d \<le> x * y" "x * y \<le> b * d"
proof -
  have "a * d \<le> a * y" using assms by (simp add: mult_left_mono_neg)
  also have "\<dots> \<le> x * y" using assms by (simp add: mult_right_mono)
  finally show "a * d \<le> x * y" .
  have "x * y \<le> b * y" using assms by (simp add: mult_right_mono)
  also have "\<dots> \<le> b * d" using assms by (simp add: mult_left_mono)
  finally show "x * y \<le> b * d" .
qed

lemma is_float_ops [simp]: "is_float (fadd x y)" "is_float (fsub x y)" "is_float (fmul x y)" "is_float (fdiv x y)" "is_float (flit p q)"
  by (simp_all add: fadd_def fsub_def fmul_def fdiv_def flit_def)

lemma is_float_small [simp]: "is_float 0" "is_float 1" "numeral n \<le> (2 ^ 53 :: int) \<Longrightarrow> is_float (numeral n)"
  by (simp_all add: is_float_def fl_numeral)

lemma is_float_clamp: "is_float x \<Longrightarrow> is_float lower \<Longrightarrow> is_float upper \<Longrightarrow> is_float (clamp x lower upper)"
  by (simp add: clamp_def max_def min_def)

lemma clamp_between: "lower \<le> upper \<Longrightarrow> lower \<le> clamp x lower upper" "lower \<le> upper \<Longrightarrow> clamp x lower upper \<le> upper"
  by (simp_all add: clamp_def)

section \<open>The lag\<close>

text \<open>A weight between 0 and 1 moves a value towards its target; rounding may overshoot it by a hair.\<close>

lemma weighted_step:
  assumes "is_float c" and "0 \<le> w" "w \<le> 1" and "\<bar>c\<bar> \<le> 400" "\<bar>t\<bar> \<le> 400"
  defines "r \<equiv> fadd c (fmul (fsub t c) w)"
  shows "t \<le> c \<Longrightarrow> r \<le> c \<and> t - 1 / 100000000000 \<le> r" "c \<le> t \<Longrightarrow> c \<le> r \<and> r \<le> t + 1 / 100000000000"
proof -
  have flc: "fl c = c" using assms(1) by (simp add: is_float_def)
  have D: "fl (fsub t c) = fsub t c" by (simp add: fsub_def)
  note near = fl_near [of "t - c"] fl_near [of "c + fsub t c"]
  have "\<bar>t - c\<bar> \<le> 800" using assms(4,5) by linarith
  then have sub: "t - c - 1 / 1000000000000 \<le> fsub t c" "fsub t c \<le> t - c + 1 / 1000000000000"
    using fl_near [of "t - c"] by (simp_all add: fsub_def)
  have "t \<le> 400" "- 400 \<le> t" using assms(5) by linarith+
  then have "\<bar>c + fsub t c\<bar> \<le> 1000" using sub by (intro abs_leI) linarith+
  then have add: "t - 1 / 100000000000 \<le> fl (c + fsub t c)" "fl (c + fsub t c) \<le> t + 1 / 100000000000"
    using fl_near [of "c + fsub t c"] sub by linarith+
  show "r \<le> c \<and> t - 1 / 100000000000 \<le> r" if le: "t \<le> c"
  proof -
    have neg: "fsub t c \<le> 0" using fl_mono [of "t - c" 0] le by (simp add: fsub_def)
    have "fsub t c \<le> fsub t c * w" using mult_left_mono_neg [OF assms(3) neg] by simp
    then have lower: "fsub t c \<le> fmul (fsub t c) w" using fl_mono D by (metis fmul_def)
    have "fsub t c * w \<le> 0" using neg assms(2) by (simp add: mult_nonpos_nonneg)
    then have upper: "fmul (fsub t c) w \<le> 0" using fl_mono [of _ 0] by (simp add: fmul_def)
    have "r \<le> fl c" unfolding r_def fadd_def by (rule fl_mono) (use upper in linarith)
    moreover have "fl (c + fsub t c) \<le> r" unfolding r_def fadd_def by (rule fl_mono) (use lower in linarith)
    ultimately show ?thesis using add flc by linarith
  qed
  show "c \<le> r \<and> r \<le> t + 1 / 100000000000" if le: "c \<le> t"
  proof -
    have pos: "0 \<le> fsub t c" using fl_mono [of 0 "t - c"] le by (simp add: fsub_def)
    have "fsub t c * w \<le> fsub t c" using mult_left_mono [OF assms(3) pos] by simp
    then have upper: "fmul (fsub t c) w \<le> fsub t c" using fl_mono D by (metis fmul_def)
    have "0 \<le> fsub t c * w" using pos assms(2) by simp
    then have lower: "0 \<le> fmul (fsub t c) w" using fl_mono [of 0] by (simp add: fmul_def)
    have "fl c \<le> r" unfolding r_def fadd_def by (rule fl_mono) (use lower in linarith)
    moreover have "r \<le> fl (c + fsub t c)" unfolding r_def fadd_def by (rule fl_mono) (use upper in linarith)
    ultimately show ?thesis using add flc by linarith
  qed
qed

definition lag_weight :: "MathLib \<Rightarrow> pyfloat \<Rightarrow> pyfloat \<Rightarrow> pyfloat" where
  "lag_weight ml dt time_constant = fsub 1 (ml_exp ml (fdiv (- dt) time_constant))"

lemma lag_weight_between:
  assumes "math_ok ml" "0 < dt" "0 < k"
  shows "0 \<le> lag_weight ml dt k" "lag_weight ml dt k \<le> 1"
proof -
  have "fdiv (- dt) k < 0" using assms(2,3) by (simp add: fdiv_def)
  then have "0 \<le> ml_exp ml (fdiv (- dt) k)" "ml_exp ml (fdiv (- dt) k) \<le> 1" using assms(1) by (simp_all add: math_ok_def)
  then show "0 \<le> lag_weight ml dt k" "lag_weight ml dt k \<le> 1"
    using fl_mono [of 0 "1 - ml_exp ml (fdiv (- dt) k)"] fl_mono [of "1 - ml_exp ml (fdiv (- dt) k)" 1]
    by (simp_all add: lag_weight_def fsub_def)
qed

lemma lag_toward_weight:
  "0 < k \<Longrightarrow> lag_toward ml c t dt k = fadd c (fmul (fsub t c) (lag_weight ml dt k))"
  by (simp add: lag_toward_def lag_weight_def Let_def)

text \<open>A lagged value stays where its targets are.\<close>

definition kept_in :: "rat \<Rightarrow> rat \<Rightarrow> rat \<Rightarrow> pyfloat \<Rightarrow> bool" where
  "kept_in slack lo hi x \<longleftrightarrow> is_float x \<and> lo - slack \<le> x \<and> x \<le> hi + slack"

lemma lag_kept:
  assumes "math_ok ml" "0 < dt" "0 < k" and "kept_in s lo hi c" and "lo \<le> t" "t \<le> hi"
    and "- 300 \<le> lo" "hi \<le> 300" "1 / 100000000000 \<le> s" "s \<le> 1"
  shows "kept_in s lo hi (lag_toward ml c t dt k)"
proof -
  have c: "is_float c" "lo - s \<le> c" "c \<le> hi + s" using assms(4) by (simp_all add: kept_in_def)
  have "\<bar>c\<bar> \<le> 400" "\<bar>t\<bar> \<le> 400" using c assms(5-10) by linarith+
  note step = weighted_step [OF c(1) lag_weight_between [OF assms(1-3)] this]
  show ?thesis
  proof (cases "t \<le> c")
    case True
    then show ?thesis using step(1) c assms(5-10) unfolding lag_toward_weight [OF assms(3)] kept_in_def
      by (intro conjI is_float_ops) linarith+
  next
    case False
    then show ?thesis using step(2) c assms(5-10) unfolding lag_toward_weight [OF assms(3)] kept_in_def
      by (intro conjI is_float_ops) linarith+
  qed
qed

text \<open>The same with a target that is a little off the range itself.\<close>

lemma lag_rated:
  assumes "math_ok ml" "0 < dt" "0 < k" and "kept_in s lo hi c" and "lo - s / 2 \<le> t" "t \<le> hi + s / 2"
    and "- 299 \<le> lo" "hi \<le> 299" "1 / 1000000000 \<le> s" "s \<le> 1"
  shows "kept_in s lo hi (lag_toward ml c t dt k)"
proof -
  have "kept_in (s / 2) (lo - s / 2) (hi + s / 2) c" using assms(4) by (simp add: kept_in_def)
  then have "kept_in (s / 2) (lo - s / 2) (hi + s / 2) (lag_toward ml c t dt k)"
    by (rule lag_kept [OF assms(1-3) _ assms(5,6)]) (use assms(7-10) in linarith)+
  then show ?thesis by (simp add: kept_in_def)
qed

section \<open>Ratings\<close>

lemma fl_between:
  assumes "a \<le> x" "x \<le> b" "- 1000 \<le> a" "b \<le> 1000"
  shows "a - 1 / 1000000000000 \<le> fl x" "fl x \<le> b + 1 / 1000000000000"
proof -
  have "\<bar>x\<bar> \<le> 1000" using assms by (intro abs_leI) linarith+
  from fl_near [OF this] assms show "a - 1 / 1000000000000 \<le> fl x" "fl x \<le> b + 1 / 1000000000000" by linarith+
qed

lemma flit_near:
  assumes "\<bar>of_int p / of_int q\<bar> \<le> (1000 :: rat)"
  shows "of_int p / of_int q - 1 / 1000000000000 \<le> flit p q" "flit p q \<le> of_int p / of_int q + 1 / 1000000000000"
  using fl_near [OF assms] by (simp_all add: flit_def)

lemma micro_variation_between:
  assumes "math_ok ml" "is_float a" "0 \<le> a"
  shows "- a \<le> micro_variation ml tick channel a" "micro_variation ml tick channel a \<le> a"
proof -
  define v where "v = ml_sin ml (fadd (fmul (fl (of_int tick)) (flit 17 100)) (fmul (of_int channel) (flit 13 10)))"
  have "\<bar>v\<bar> \<le> 1" using assms(1) by (simp add: v_def math_ok_def)
  then have "\<bar>v * a\<bar> \<le> a" using assms(3) mult_right_mono [of "\<bar>v\<bar>" 1 a] by (simp add: abs_mult)
  then have "- a \<le> v * a" "v * a \<le> a" by (simp_all add: abs_le_iff)
  then have "fl (- a) \<le> fl (v * a)" "fl (v * a) \<le> fl a" using fl_mono by blast+
  moreover have "micro_variation ml tick channel a = fl (v * a)" by (simp add: micro_variation_def v_def fmul_def)
  ultimately show "- a \<le> micro_variation ml tick channel a" "micro_variation ml tick channel a \<le> a"
    using assms(2) by (simp_all add: is_float_def fl_minus)
qed

lemma starvation_range_pos: "0 < fsub (flit 98 100) (flit 4 10)"
  using flit_near [of 98 100] flit_near [of 4 10] by simp

lemma penalty_between: "0 \<le> fuel_starvation_voltage_penalty factor" "fuel_starvation_voltage_penalty factor \<le> flit 6 100"
proof -
  define depth where "depth = fdiv (fsub (flit 98 100) factor) (fsub (flit 98 100) (flit 4 10))"
  have six: "0 \<le> flit 6 100" using flit_near [of 6 100] by simp
  have "0 \<le> fmul (flit 6 100) (min 1 depth) \<and> fmul (flit 6 100) (min 1 depth) \<le> flit 6 100" if "factor < flit 98 100"
  proof -
    have "0 \<le> fsub (flit 98 100) factor" using that by (simp add: order_less_imp_le)
    then have "0 \<le> depth"
      unfolding depth_def fdiv_def by (intro fl.rnd_nonneg divide_nonneg_pos starvation_range_pos)
    then have "0 \<le> flit 6 100 * min 1 depth" "flit 6 100 * min 1 depth \<le> flit 6 100"
      using six mult_left_mono [of "min 1 depth" 1 "flit 6 100"] by simp_all
    then show ?thesis using fl_mono [of 0] fl_mono [of "flit 6 100 * min 1 depth" "flit 6 100"] by (simp add: fmul_def flit_def)
  qed
  then show "0 \<le> fuel_starvation_voltage_penalty factor" "fuel_starvation_voltage_penalty factor \<le> flit 6 100"
    using six by (simp_all add: fuel_starvation_voltage_penalty_def Let_def depth_def not_le)
qed

lemma target_voltage_between:
  assumes "math_ok ml" "- (1 / 10000000) \<le> c" "c \<le> 200 + 1 / 10000000"
  shows "658 / 1000 - 1 / 100000000 \<le> target_voltage ml tick c factor" "target_voltage ml tick c factor \<le> 782 / 1000 + 1 / 100000000"
proof -
  have six: "0 \<le> flit 6 100" "flit 6 100 \<le> 6 / 100 + 1 / 1000000000000" using flit_near [of 6 100] by simp_all
  have frac: "- (1 / 1000000000) \<le> fdiv c 200" "fdiv c 200 \<le> 1 + 1 / 1000000000"
    using fl_between [of "- (1 / 2000000000)" "c / 200" "1 + 1 / 2000000000"] assms(2,3) by (simp_all add: fdiv_def)
  have "- (1 / 1000000000) * (6 / 100 + 1 / 1000000000000) \<le> fdiv c 200 * flit 6 100"
    "fdiv c 200 * flit 6 100 \<le> (1 + 1 / 1000000000) * (6 / 100 + 1 / 1000000000000)"
    by (rule mul_between [OF frac six]; simp)+
  then have drop: "- (1 / 1000000000) \<le> fmul (fdiv c 200) (flit 6 100)" "fmul (fdiv c 200) (flit 6 100) \<le> 6 / 100 + 1 / 1000000000"
    using fl_between [of "- (1 / 10000000000)" "fdiv c 200 * flit 6 100" "6 / 100 + 1 / 10000000000"] by (simp_all add: fmul_def)
  have open_circuit: "78 / 100 - 1 / 1000000000000 \<le> flit 78 100" "flit 78 100 \<le> 78 / 100 + 1 / 1000000000000"
    using flit_near [of 78 100] by simp_all
  have loaded: "72 / 100 - 2 / 1000000000 \<le> fsub (flit 78 100) (fmul (fdiv c 200) (flit 6 100))"
    "fsub (flit 78 100) (fmul (fdiv c 200) (flit 6 100)) \<le> 78 / 100 + 2 / 1000000000"
    using fl_between [of "72 / 100 - 15 / 10000000000" "flit 78 100 - fmul (fdiv c 200) (flit 6 100)" "78 / 100 + 15 / 10000000000"]
      drop open_circuit by (simp_all add: fsub_def)
  define penalized where "penalized = fsub (fsub (flit 78 100) (fmul (fdiv c 200) (flit 6 100))) (fuel_starvation_voltage_penalty factor)"
  have pen: "66 / 100 - 3 / 1000000000 \<le> penalized" "penalized \<le> 78 / 100 + 3 / 1000000000"
    using fl_between [of "66 / 100 - 25 / 10000000000" "fsub (flit 78 100) (fmul (fdiv c 200) (flit 6 100)) - fuel_starvation_voltage_penalty factor" "78 / 100 + 25 / 10000000000"]
      loaded penalty_between [of factor] six by (simp_all add: penalized_def fsub_def)
  define v where "v = micro_variation ml tick 1 (flit 2 1000)"
  have amp: "0 \<le> flit 2 1000" "flit 2 1000 \<le> 2 / 1000 + 1 / 1000000000000" using flit_near [of 2 1000] by simp_all
  have var: "- flit 2 1000 \<le> v" "v \<le> flit 2 1000"
    unfolding v_def by (rule micro_variation_between [OF assms(1) _ amp(1)], simp)+
  show "658 / 1000 - 1 / 100000000 \<le> target_voltage ml tick c factor" "target_voltage ml tick c factor \<le> 782 / 1000 + 1 / 100000000"
    using fl_between [of "658 / 1000 - 4 / 1000000000" "penalized + v" "782 / 1000 + 4 / 1000000000"] pen var amp
    by (simp_all add: target_voltage_def fadd_def flip: penalized_def v_def)
qed

lemma target_temperature_between:
  assumes "math_ok ml" "- (1 / 10000000000) \<le> f" "f \<le> 1 + 1 / 10000000000"
    and "4 / 10 - 1 / 100000000 \<le> cooling" "cooling \<le> 1 + 1 / 100000000"
  shows "5285 / 100 - 3 / 10000000 \<le> target_temperature ml tick f cooling"
    "target_temperature ml tick f cooling \<le> 7915 / 100 + 3 / 10000000"
proof -
  define heat where "heat = fadd 55 (fmul f 20)"
  define bonus where "bonus = fmul (fsub cooling (flit 8 10)) 10"
  define v where "v = micro_variation ml tick 2 (flit 15 100)"
  have "- (3 / 1000000000) \<le> fmul f 20" "fmul f 20 \<le> 20 + 3 / 1000000000"
    using fl_between [of "- (2 / 1000000000)" "f * 20" "20 + 2 / 1000000000"] assms(2,3) by (simp_all add: fmul_def)
  then have heat: "55 - 4 / 1000000000 \<le> heat" "heat \<le> 75 + 4 / 1000000000"
    using fl_between [of "55 - 3 / 1000000000" "55 + fmul f 20" "75 + 3 / 1000000000"] by (simp_all add: heat_def fadd_def)
  have eight: "8 / 10 - 1 / 1000000000000 \<le> flit 8 10" "flit 8 10 \<le> 8 / 10 + 1 / 1000000000000" using flit_near [of 8 10] by simp_all
  then have "- (4 / 10) - 2 / 100000000 \<le> fsub cooling (flit 8 10)" "fsub cooling (flit 8 10) \<le> 2 / 10 + 2 / 100000000"
    using fl_between [of "- (4 / 10) - 15 / 1000000000" "cooling - flit 8 10" "2 / 10 + 15 / 1000000000"] assms(4,5)
    by (simp_all add: fsub_def)
  then have bonus: "- 4 - 21 / 100000000 \<le> bonus" "bonus \<le> 2 + 21 / 100000000"
    using fl_between [of "- 4 - 20 / 100000000" "fsub cooling (flit 8 10) * 10" "2 + 20 / 100000000"] by (simp_all add: bonus_def fmul_def)
  have cooled: "53 - 22 / 100000000 \<le> fsub heat bonus" "fsub heat bonus \<le> 79 + 22 / 100000000"
    using fl_between [of "53 - 215 / 1000000000" "heat - bonus" "79 + 215 / 1000000000"] heat bonus by (simp_all add: fsub_def)
  have amp: "0 \<le> flit 15 100" "flit 15 100 \<le> 15 / 100 + 1 / 1000000000000" using flit_near [of 15 100] by simp_all
  have "- flit 15 100 \<le> v" "v \<le> flit 15 100" unfolding v_def by (rule micro_variation_between [OF assms(1) _ amp(1)], simp)+
  moreover have "target_temperature ml tick f cooling = fl (fsub heat bonus + v)"
    unfolding target_temperature_def heat_def [symmetric] bonus_def [symmetric] v_def [symmetric] by (rule fadd_def)
  ultimately show "5285 / 100 - 3 / 10000000 \<le> target_temperature ml tick f cooling"
    "target_temperature ml tick f cooling \<le> 7915 / 100 + 3 / 10000000"
    using fl_between [of "5285 / 100 - 23 / 100000000" "fsub heat bonus + v" "7915 / 100 + 23 / 100000000"]
      cooled amp by simp_all
qed

lemma target_pressure_between:
  assumes "math_ok ml" "5285 / 100 - 1 / 1000000 \<le> t" "t \<le> 7915 / 100 + 1 / 1000000"
  shows "150225 / 1000 - 1 / 1000000 \<le> target_pressure ml tick t" "target_pressure ml tick t \<le> 163775 / 1000 + 1 / 1000000"
proof -
  define v where "v = micro_variation ml tick 3 (flit 2 10)"
  have half: "flit 5 10 = 1 / 2" using fl_exact [of "1 / 2" 1 "- 1"] by (simp add: flit_def power_int_minus)
  have "- (715 / 100) - 11 / 10000000 \<le> fsub t 60" "fsub t 60 \<le> 1915 / 100 + 11 / 10000000"
    using fl_between [of "- (715 / 100) - 1 / 1000000" "t - 60" "1915 / 100 + 1 / 1000000"] assms(2,3) by (simp_all add: fsub_def)
  then have "- (3575 / 1000) - 6 / 10000000 \<le> fmul (fsub t 60) (flit 5 10)" "fmul (fsub t 60) (flit 5 10) \<le> 9575 / 1000 + 6 / 10000000"
    using fl_between [of "- (3575 / 1000) - 55 / 100000000" "fsub t 60 * (1 / 2)" "9575 / 1000 + 55 / 100000000"]
    by (simp_all add: fmul_def half)
  then have base: "150425 / 1000 - 7 / 10000000 \<le> fsub 160 (fmul (fsub t 60) (flit 5 10))"
    "fsub 160 (fmul (fsub t 60) (flit 5 10)) \<le> 163575 / 1000 + 7 / 10000000"
    using fl_between [of "150425 / 1000 - 6 / 10000000" "160 - fmul (fsub t 60) (flit 5 10)" "163575 / 1000 + 6 / 10000000"]
    by (simp_all add: fsub_def)
  have amp: "0 \<le> flit 2 10" "flit 2 10 \<le> 2 / 10 + 1 / 1000000000000" using flit_near [of 2 10] by simp_all
  have "- flit 2 10 \<le> v" "v \<le> flit 2 10" unfolding v_def by (rule micro_variation_between [OF assms(1) _ amp(1)], simp)+
  with base amp show "150225 / 1000 - 1 / 1000000 \<le> target_pressure ml tick t" "target_pressure ml tick t \<le> 163775 / 1000 + 1 / 1000000"
    using fl_between [of "150225 / 1000 - 8 / 10000000" "fsub 160 (fmul (fsub t 60) (flit 5 10)) + v" "163775 / 1000 + 8 / 10000000"]
    by (simp_all add: target_pressure_def fadd_def flip: v_def)
qed

lemma target_fuel_flow_between:
  assumes "- (1 / 10000000000) \<le> f" "f \<le> 1 + 1 / 10000000000"
    and "4 / 10 - 1 / 100000000 \<le> factor" "factor \<le> 1 + 1 / 100000000"
  shows "6 / 10 - 5 / 100000000 \<le> fmul (fadd (flit 15 10) (fmul f 1)) factor"
    "fmul (fadd (flit 15 10) (fmul f 1)) factor \<le> 25 / 10 + 5 / 100000000"
proof -
  have base: "flit 15 10 = 3 / 2" using fl_exact [of "3 / 2" 3 "- 1"] by (simp add: flit_def power_int_minus)
  have "- (2 / 10000000000) \<le> fmul f 1" "fmul f 1 \<le> 1 + 2 / 10000000000"
    using fl_between [of "- (1 / 10000000000)" f "1 + 1 / 10000000000"] assms(1,2) by (simp_all add: fmul_def)
  then have demand: "3 / 2 - 1 / 1000000000 \<le> fadd (flit 15 10) (fmul f 1)" "fadd (flit 15 10) (fmul f 1) \<le> 5 / 2 + 1 / 1000000000"
    using fl_between [of "3 / 2 - 3 / 10000000000" "3 / 2 + fmul f 1" "5 / 2 + 3 / 10000000000"] by (simp_all add: fadd_def base)
  have "(3 / 2 - 1 / 1000000000) * (4 / 10 - 1 / 100000000) \<le> fadd (flit 15 10) (fmul f 1) * factor"
    by (rule mult_mono) (use demand assms(3) in linarith)+
  moreover have "fadd (flit 15 10) (fmul f 1) * factor \<le> (5 / 2 + 1 / 1000000000) * (1 + 1 / 100000000)"
    by (rule mult_mono) (use demand assms(3,4) in linarith)+
  ultimately show "6 / 10 - 5 / 100000000 \<le> fmul (fadd (flit 15 10) (fmul f 1)) factor"
    "fmul (fadd (flit 15 10) (fmul f 1)) factor \<le> 25 / 10 + 5 / 100000000"
    using fl_between [of "6 / 10 - 4 / 100000000" "fadd (flit 15 10) (fmul f 1) * factor" "25 / 10 + 4 / 100000000"]
    by (simp_all add: fmul_def)
qed

text \<open>What a tick leaves in each field.\<close>

lemma machine_tick_fields:
  assumes "0 < dt" "machine_tick ml dt m = (r, m')"
  defines "current \<equiv> lag_toward ml (fm_current m) (fmul (fdiv (fm_load m') 100) 200) dt 30"
  shows "r = Ok (machine_state m')" "fm_asset_id m' = fm_asset_id m" "fm_tick_count m' = fm_tick_count m + 1"
    "fm_target_load m' = fm_target_load m" "fm_target_cooling_efficiency m' = fm_target_cooling_efficiency m"
    "fm_target_fuel_supply_factor m' = fm_target_fuel_supply_factor m"
    "fm_cooling_efficiency m' = lag_toward ml (fm_cooling_efficiency m) (fm_target_cooling_efficiency m) dt 60"
    "fm_fuel_supply_factor m' = lag_toward ml (fm_fuel_supply_factor m) (fm_target_fuel_supply_factor m) dt 30"
    "fm_load m' = lag_toward ml (fm_load m) (fm_target_load m) dt 30"
    "fm_operating_mode m' = (if \<bar>fsub (fm_target_load m) (fm_load m')\<bar> \<le> 1 then RUNNING else fm_operating_mode m)"
    "fm_current m' = (if fm_fuel_supply_factor m' < flit 98 100
       then lag_toward ml current (min current (fmul (fmul (fdiv (fm_load m') 100) 200) (fm_fuel_supply_factor m'))) dt (fdiv 30 2) else current)"
    "fm_voltage m' = lag_toward ml (fm_voltage m) (target_voltage ml (fm_tick_count m') current (fm_fuel_supply_factor m')) dt (fdiv 30 2)"
    "fm_hydrogen_flow m' = lag_toward ml (fm_hydrogen_flow m)
       (fmul (fadd (flit 15 10) (fmul (fdiv (fm_load m') 100) 1)) (fm_fuel_supply_factor m')) dt 30"
    "fm_air_flow m' = lag_toward ml (fm_air_flow m) (fmul (fm_hydrogen_flow m') 4) dt 30"
    "fm_stack_temperature m' = lag_toward ml (fm_stack_temperature m)
       (target_temperature ml (fm_tick_count m') (fdiv (fm_load m') 100) (fm_cooling_efficiency m')) dt 60"
    "fm_stack_pressure m' = lag_toward ml (fm_stack_pressure m)
       (target_pressure ml (fm_tick_count m') (fm_stack_temperature m')) dt (fdiv 60 2)"
  using assms(1,2) unfolding current_def by (auto simp: machine_tick_def Let_def)

text \<open>
  The ratings of a stack: load and current, the 0.658 to 0.782 V a cell can be steered to, the flows and
  the temperature and pressure that follow, each with the slack the rounding needs.
\<close>

definition in_ratings :: "FuelCellMachine \<Rightarrow> bool" where
  "in_ratings m \<longleftrightarrow>
     0 \<le> fm_target_load m \<and> fm_target_load m \<le> 100 \<and>
     flit 4 10 \<le> fm_target_cooling_efficiency m \<and> fm_target_cooling_efficiency m \<le> 1 \<and>
     flit 4 10 \<le> fm_target_fuel_supply_factor m \<and> fm_target_fuel_supply_factor m \<le> 1 \<and>
     kept_in (1 / 1000000000) 0 100 (fm_load m) \<and>
     kept_in (1 / 1000000000) (4 / 10) 1 (fm_cooling_efficiency m) \<and>
     kept_in (1 / 1000000000) (4 / 10) 1 (fm_fuel_supply_factor m) \<and>
     kept_in (1 / 10000000) 0 200 (fm_current m) \<and>
     kept_in (1 / 10000000) (658 / 1000) (782 / 1000) (fm_voltage m) \<and>
     kept_in (1 / 10000000) (6 / 10) (25 / 10) (fm_hydrogen_flow m) \<and>
     kept_in (1 / 1000000) (24 / 10) 10 (fm_air_flow m) \<and>
     kept_in (1 / 1000000) (5285 / 100) (7915 / 100) (fm_stack_temperature m) \<and>
     kept_in (1 / 100000) (150225 / 1000) (163775 / 1000) (fm_stack_pressure m)"

lemma four_tenths: "4 / 10 - 1 / 1000000000000 \<le> flit 4 10" "flit 4 10 \<le> 4 / 10 + 1 / 1000000000000"
  using flit_near [of 4 10] by simp_all

lemma load_fraction_between:
  assumes "kept_in (1 / 1000000000) 0 100 load"
  shows "- (1 / 10000000000) \<le> fdiv load 100" "fdiv load 100 \<le> 1 + 1 / 10000000000"
    "- (1 / 20000000) \<le> fmul (fdiv load 100) 200" "fmul (fdiv load 100) 200 \<le> 200 + 1 / 20000000"
proof -
  have f: "- (2 / 100000000000) \<le> fdiv load 100" "fdiv load 100 \<le> 1 + 2 / 100000000000"
    using fl_between [of "- (1 / 100000000000)" "load / 100" "1 + 1 / 100000000000"] assms by (simp_all add: kept_in_def fdiv_def)
  then show "- (1 / 10000000000) \<le> fdiv load 100" "fdiv load 100 \<le> 1 + 1 / 10000000000" by simp_all
  from f show "- (1 / 20000000) \<le> fmul (fdiv load 100) 200" "fmul (fdiv load 100) 200 \<le> 200 + 1 / 20000000"
    using fl_between [of "- (4 / 1000000000)" "fdiv load 100 * 200" "200 + 4 / 1000000000"] by (simp_all add: fmul_def)
qed

lemma limited_current_kept:
  assumes "math_ok ml" "0 < dt" "0 < k" "kept_in (1 / 10000000) 0 200 c" "- (6 / 100000000) \<le> x"
  shows "kept_in (1 / 10000000) 0 200 (lag_toward ml c (min c x) dt k)"
proof -
  have c: "is_float c" "- (1 / 10000000) \<le> c" "c \<le> 200 + 1 / 10000000" using assms(4) by (simp_all add: kept_in_def)
  have b: "\<bar>c\<bar> \<le> 400" "\<bar>min c x\<bar> \<le> 400" using c assms(5) by (auto simp: abs_le_iff min_def)
  note step = weighted_step [OF c(1) lag_weight_between [OF assms(1-3)] b]
  define r where "r = fadd c (fmul (fsub (min c x) c) (lag_weight ml dt k))"
  have "r \<le> c" "min c x - 1 / 100000000000 \<le> r" "c \<le> x \<Longrightarrow> c \<le> r" using step by (simp_all add: r_def min_def)
  then have "- (1 / 10000000) \<le> r" "r \<le> 200 + 1 / 10000000" using c(2,3) assms(5) by (auto simp: min_def split: if_splits)
  then show ?thesis by (simp add: lag_toward_weight [OF assms(3)] kept_in_def r_def)
qed

lemma supply_limit_lower:
  assumes "- (1 / 20000000) \<le> target" "target \<le> 200 + 1 / 20000000" "kept_in (1 / 1000000000) (4 / 10) 1 factor"
  shows "- (6 / 100000000) \<le> fmul target factor"
proof -
  have "- (1 / 20000000) * (1 + 1 / 1000000000) \<le> target * factor" "target * factor \<le> (200 + 1 / 20000000) * (1 + 1 / 1000000000)"
    by (rule mul_between [OF assms(1,2)]; use assms(3) in \<open>simp add: kept_in_def\<close>)+
  then show ?thesis
    using fl_between [of "- (55 / 1000000000)" "target * factor" "201"] by (simp add: fmul_def)
qed

lemma halved: "fdiv 30 2 = 15" "fdiv 60 2 = 30"
  by (simp_all add: fdiv_def fl_numeral)

lemma tick_in_ratings:
  assumes ml: "math_ok ml" and dt: "0 < dt" and ok: "in_ratings m" and tick: "machine_tick ml dt m = (r, m')"
  shows "in_ratings m'"
proof -
  note f = machine_tick_fields [OF dt tick]
  note o = ok [unfolded in_ratings_def] and rated = lag_rated [OF ml dt]
  have load: "kept_in (1 / 1000000000) 0 100 (fm_load m')" unfolding f(9) by (rule rated) (use o in simp_all)
  have cooling: "kept_in (1 / 1000000000) (4 / 10) 1 (fm_cooling_efficiency m')"
    unfolding f(7) by (rule rated) (use o four_tenths in simp_all)
  have fuel: "kept_in (1 / 1000000000) (4 / 10) 1 (fm_fuel_supply_factor m')"
    unfolding f(8) by (rule rated) (use o four_tenths in simp_all)
  note lf = load_fraction_between [OF load]
  define c where "c = lag_toward ml (fm_current m) (fmul (fdiv (fm_load m') 100) 200) dt 30"
  have c: "kept_in (1 / 10000000) 0 200 c" unfolding c_def by (rule rated) (use o lf in simp_all)
  have current: "kept_in (1 / 10000000) 0 200 (fm_current m')"
    using f(11) [folded c_def] c limited_current_kept [OF ml dt _ c supply_limit_lower [OF lf(3,4) fuel]]
    by (simp add: halved split: if_splits)
  have "- (1 / 10000000) \<le> c" "c \<le> 200 + 1 / 10000000" using c by (simp_all add: kept_in_def)
  note tv = target_voltage_between [OF ml this]
  have voltage: "kept_in (1 / 10000000) (658 / 1000) (782 / 1000) (fm_voltage m')"
    unfolding f(12) [folded c_def] halved
    by (rule rated; (use o in \<open>simp; fail\<close>)?) (use tv [of "fm_tick_count m'" "fm_fuel_supply_factor m'"] in simp_all)
  have fb: "4 / 10 - 1 / 100000000 \<le> fm_fuel_supply_factor m'" "fm_fuel_supply_factor m' \<le> 1 + 1 / 100000000"
    "4 / 10 - 1 / 100000000 \<le> fm_cooling_efficiency m'" "fm_cooling_efficiency m' \<le> 1 + 1 / 100000000"
    using fuel cooling by (simp_all add: kept_in_def)
  have hydrogen: "kept_in (1 / 10000000) (6 / 10) (25 / 10) (fm_hydrogen_flow m')" unfolding f(13)
    by (rule rated; (use o in \<open>simp; fail\<close>)?) (use target_fuel_flow_between [OF lf(1,2) fb(1,2)] in simp_all)
  have "24 / 10 - 1 / 2000000 \<le> fmul (fm_hydrogen_flow m') 4" "fmul (fm_hydrogen_flow m') 4 \<le> 10 + 1 / 2000000"
    using fl_between [of "24 / 10 - 4 / 10000000" "fm_hydrogen_flow m' * 4" "10 + 4 / 10000000"] hydrogen
    by (simp_all add: kept_in_def fmul_def)
  then have air: "kept_in (1 / 1000000) (24 / 10) 10 (fm_air_flow m')" unfolding f(14)
    by - (rule rated; use o in simp)
  have temperature: "kept_in (1 / 1000000) (5285 / 100) (7915 / 100) (fm_stack_temperature m')" unfolding f(15)
    by (rule rated; (use o in \<open>simp; fail\<close>)?) (use target_temperature_between [OF ml lf(1,2) fb(3,4), of "fm_tick_count m'"] in simp_all)
  then have "5285 / 100 - 1 / 1000000 \<le> fm_stack_temperature m'" "fm_stack_temperature m' \<le> 7915 / 100 + 1 / 1000000"
    by (simp_all add: kept_in_def)
  note tp = target_pressure_between [OF ml this]
  have pressure: "kept_in (1 / 100000) (150225 / 1000) (163775 / 1000) (fm_stack_pressure m')" unfolding f(16) halved
    by (rule rated; (use o in \<open>simp; fail\<close>)?) (use tp [of "fm_tick_count m'"] in simp_all)
  show ?thesis unfolding in_ratings_def f(4-6)
    using o load cooling fuel current voltage hydrogen air temperature pressure by blast
qed

section \<open>Commands and ticks in any order\<close>

text \<open>A stack ramps exactly while its load is more than one percent off the setpoint.\<close>

definition mode_ok :: "FuelCellMachine \<Rightarrow> bool" where
  "mode_ok m \<longleftrightarrow> fm_operating_mode m \<noteq> IDLE \<and> (fm_operating_mode m = RAMPING \<longleftrightarrow> 1 < \<bar>fsub (fm_target_load m) (fm_load m)\<bar>)"

lemma settled_load_stays:
  assumes "math_ok ml" "0 < dt" "is_float c" "\<bar>c\<bar> \<le> 400" "\<bar>t\<bar> \<le> 400" "\<bar>fsub t c\<bar> \<le> 1"
  shows "\<bar>fsub t (lag_toward ml c t dt 30)\<bar> \<le> 1"
proof -
  note step = weighted_step [OF assms(3) lag_weight_between [OF assms(1,2), of 30] assms(4,5)]
  define r where "r = lag_toward ml c t dt 30"
  have r: "r = fadd c (fmul (fsub t c) (lag_weight ml dt 30))" by (simp add: r_def lag_toward_weight)
  have small: "fl x \<le> 1" if "x \<le> 1" for x using fl_mono [OF that] by simp
  have small': "- 1 \<le> fl x" if "- 1 \<le> x" for x using fl_mono [OF that] fl_minus [of 1] by simp
  have "\<bar>fsub t r\<bar> \<le> 1"
  proof (cases "t \<le> c")
    case True
    with step(1) have "r \<le> c" "t - 1 / 100000000000 \<le> r" by (simp_all add: r)
    moreover from this have "fsub t r \<le> 1" using small [of "t - r"] by (simp add: fsub_def)
    moreover have "fsub t c \<le> fsub t r" by (rule fsub_mono) (simp_all add: calculation)
    ultimately show ?thesis using assms(6) by linarith
  next
    case False
    with step(2) have "c \<le> r" "r \<le> t + 1 / 100000000000" by (simp_all add: r)
    moreover from this have "- 1 \<le> fsub t r" using small' [of "t - r"] by (simp add: fsub_def)
    moreover have "fsub t r \<le> fsub t c" by (rule fsub_mono) (simp_all add: calculation)
    ultimately show ?thesis using assms(6) by linarith
  qed
  then show ?thesis by (simp add: r_def)
qed

definition machine_inv :: "FuelCellMachine \<Rightarrow> bool" where
  "machine_inv m \<longleftrightarrow> in_ratings m \<and> mode_ok m"

lemma command_keeps:
  assumes "math_ok ml" "machine_inv m"
  shows "machine_inv (machine_step ml c m)"
proof (cases c)
  case (Tick dt)
  show ?thesis
  proof (cases "dt \<le> 0")
    case True
    then show ?thesis using assms(2) Tick by (simp add: machine_tick_def)
  next
    case False
    then have dt: "0 < dt" by simp
    obtain r m' where tick: "machine_tick ml dt m = (r, m')" by fastforce
    note f = machine_tick_fields [OF dt tick]
    have ok: "in_ratings m'" using tick_in_ratings [OF assms(1) dt _ tick] assms(2) by (simp add: machine_inv_def)
    have load: "is_float (fm_load m)" "\<bar>fm_load m\<bar> \<le> 400" "\<bar>fm_target_load m\<bar> \<le> 400"
      using assms(2) by (auto simp: machine_inv_def in_ratings_def kept_in_def abs_le_iff)
    have mode: "fm_operating_mode m' \<noteq> RAMPING" if "fm_operating_mode m \<noteq> RAMPING" using that f(10) by simp
    have "mode_ok m'"
      using settled_load_stays [OF assms(1) dt load] assms(2) unfolding mode_ok_def f(4) f(9) [symmetric] f(10)
      by (auto simp: machine_inv_def mode_ok_def not_less)
    with ok show ?thesis by (simp add: machine_inv_def Tick tick)
  qed
next
  case (SetLoad x)
  have "mode_ok (set_target_load x m)" using assms(2) by (auto simp: machine_inv_def mode_ok_def set_target_load_def Let_def)
  moreover have "in_ratings (set_target_load x m)" using assms(2) clamp_between [of 0 100 x]
    by (simp add: machine_inv_def in_ratings_def set_target_load_def Let_def)
  ultimately show ?thesis by (simp add: machine_inv_def SetLoad)
next
  case (SetCooling x)
  then show ?thesis using assms(2) clamp_between [of "flit 4 10" 1 x] four_tenths
    by (simp add: machine_inv_def in_ratings_def mode_ok_def set_cooling_efficiency_def)
next
  case (SetFuel x)
  then show ?thesis using assms(2) clamp_between [of "flit 4 10" 1 x] four_tenths
    by (simp add: machine_inv_def in_ratings_def mode_ok_def set_fuel_supply_factor_def)
qed

lemma default_machine_inv: "machine_inv (default_machine a)"
  using four_tenths flit_near [of 85 100] flit_near [of 76 100]
  by (simp add: machine_inv_def in_ratings_def mode_ok_def default_machine_def mk_machine_def kept_in_def)

interpretation stack: driven_machine "machine_step ml" "default_machine a" "\<lambda>_. math_ok ml" machine_inv for ml a
  by unfold_locales (simp_all add: default_machine_inv command_keeps)

lemma coolant_flow_between:
  assumes "kept_in (1 / 1000000000) 0 100 load" "kept_in (1 / 1000000000) (4 / 10) 1 cooling"
  shows "6 \<le> coolant_flow_of load cooling" "coolant_flow_of load cooling \<le> 32"
proof -
  note lf = load_fraction_between(1,2) [OF assms(1)]
  have heat: "- (3 / 1000000000) \<le> fmul (fdiv load 100) 18" "fmul (fdiv load 100) 18 \<le> 18 + 3 / 1000000000"
    using fl_between [of "- (2 / 1000000000)" "fdiv load 100 * 18" "18 + 2 / 1000000000"] lf by (simp_all add: fmul_def)
  have base: "7 \<le> fadd 8 (fmul (fdiv load 100) 18)" "fadd 8 (fmul (fdiv load 100) 18) \<le> 26 + 1 / 1000000"
    using fl_between [of "7 + 1 / 2" "8 + fmul (fdiv load 100) 18" "26 + 1 / 2000000"] heat by (simp_all add: fadd_def)
  have base': "8 - 1 / 1000000 \<le> fadd 8 (fmul (fdiv load 100) 18)"
    using fl_between [of "8 - 1 / 2000000" "8 + fmul (fdiv load 100) 18" 27] heat by (simp add: fadd_def)
  have "- (15 / 100) - 1 / 1000000 \<le> fsub (flit 85 100) cooling" "fsub (flit 85 100) cooling \<le> 45 / 100 + 1 / 1000000"
    using fl_between [of "- (15 / 100) - 1 / 2000000" "flit 85 100 - cooling" "45 / 100 + 1 / 2000000"] assms(2) flit_near [of 85 100]
    by (simp_all add: fsub_def kept_in_def)
  then have "- 2 \<le> fmul (fsub (flit 85 100) cooling) 12 + 1 / 10" "fmul (fsub (flit 85 100) cooling) 12 \<le> 5 + 1 / 2"
    using fl_between [of "- (19 / 10)" "fsub (flit 85 100) cooling * 12" "5 + 49 / 100"] by (simp_all add: fmul_def)
  moreover have "- 2 + 1 / 10 \<le> fmul (fsub (flit 85 100) cooling) 12"
    using fl_between [of "- (185 / 100)" "fsub (flit 85 100) cooling * 12" 6] calculation
      \<open>- (15 / 100) - 1 / 1000000 \<le> fsub (flit 85 100) cooling\<close> \<open>fsub (flit 85 100) cooling \<le> 45 / 100 + 1 / 1000000\<close>
    by (simp add: fmul_def)
  ultimately have "6 \<le> fadd (fadd 8 (fmul (fdiv load 100) 18)) (fmul (fsub (flit 85 100) cooling) 12)"
    "fadd (fadd 8 (fmul (fdiv load 100) 18)) (fmul (fsub (flit 85 100) cooling) 12) \<le> 32"
    using fl_between [of "6 + 1 / 100" "fadd 8 (fmul (fdiv load 100) 18) + fmul (fsub (flit 85 100) cooling) 12" "31 + 9 / 10"] base base'
    by (simp_all add: fadd_def [of "fadd 8 (fmul (fdiv load 100) 18)"])
  from py_round_between [of 6 _ 32 4] this show "6 \<le> coolant_flow_of load cooling" "coolant_flow_of load cooling \<le> 32"
    by (simp_all add: coolant_flow_of_def)
qed

section \<open>Ramps\<close>

lemma lag_contracts:
  assumes "math_ok ml" "0 < dt" "0 < k" "\<bar>c\<bar> \<le> 101" "\<bar>t\<bar> \<le> 101"
  shows "\<bar>t - lag_toward ml c t dt k\<bar> \<le> (1 - lag_weight ml dt k) * \<bar>t - c\<bar> + 1 / 100000000000"
proof -
  define w where "w = lag_weight ml dt k"
  have w: "0 \<le> w" "w \<le> 1" using lag_weight_between [OF assms(1-3)] by (simp_all add: w_def)
  define D where "D = fsub t c"
  define M where "M = fmul D w"
  have bound: "\<bar>t - c\<bar> \<le> 202" using assms(4,5) by linarith
  have D: "\<bar>D - (t - c)\<bar> \<le> 1 / 1000000000000" using fl_near_abs [of "t - c"] bound by (simp add: D_def fsub_def)
  then have Db: "\<bar>D\<bar> \<le> 203" using bound by linarith
  have Dw: "\<bar>D * w\<bar> \<le> \<bar>D\<bar>" using w by (simp add: abs_mult mult_left_le)
  then have M: "\<bar>M - D * w\<bar> \<le> 1 / 1000000000000" using fl_near_abs [of "D * w"] Db by (simp add: M_def fmul_def)
  have "\<bar>D - (t - c)\<bar> * w \<le> \<bar>D - (t - c)\<bar>" using w by (simp add: mult_left_le)
  then have "\<bar>(D - (t - c)) * w\<bar> \<le> 1 / 1000000000000" using D w by (simp add: abs_mult)
  then have Mt: "\<bar>M - (t - c) * w\<bar> \<le> 2 / 1000000000000" using M unfolding left_diff_distrib by linarith
  have "\<bar>c + M\<bar> \<le> 1000" using M Dw Db assms(4) by linarith
  then have "\<bar>fadd c M - (c + M)\<bar> \<le> 1 / 1000000000000" using fl_near_abs [of "c + M"] by (simp add: fadd_def)
  with Mt have "\<bar>fadd c M - (c + (t - c) * w)\<bar> \<le> 3 / 1000000000000" by linarith
  moreover have "t - (c + (t - c) * w) = (1 - w) * (t - c)" by (simp add: algebra_simps)
  moreover have "\<bar>(1 - w) * (t - c)\<bar> = (1 - w) * \<bar>t - c\<bar>" using w by (simp add: abs_mult)
  ultimately have "\<bar>t - fadd c M\<bar> \<le> (1 - w) * \<bar>t - c\<bar> + 1 / 100000000000" by linarith
  then show ?thesis by (simp add: lag_toward_weight [OF assms(3)] D_def M_def w_def)
qed

lemma load_approaches:
  assumes ml: "math_ok ml" and dt: "0 < dt" and decay: "ml_exp ml (fdiv (- dt) 30) \<le> 99 / 100" and inv: "machine_inv m"
  shows "let m' = fold (machine_step ml) (replicate n (Tick dt)) m
    in machine_inv m' \<and> fm_target_load m' = fm_target_load m \<and>
       \<bar>fm_target_load m - fm_load m'\<bar> \<le> (991 / 1000) ^ n * 101 + 1 / 100000000"
proof (induction n)
  case 0
  have "0 \<le> fm_target_load m" "fm_target_load m \<le> 100" "- 1 \<le> fm_load m" "fm_load m \<le> 101"
    using inv by (simp_all add: machine_inv_def in_ratings_def kept_in_def)
  then have "\<bar>fm_target_load m - fm_load m\<bar> \<le> 101" by (intro abs_leI) linarith+
  then show ?case using inv by (simp add: Let_def)
next
  case (Suc n)
  define m1 where "m1 = fold (machine_step ml) (replicate n (Tick dt)) m"
  have IH: "machine_inv m1" "fm_target_load m1 = fm_target_load m"
    "\<bar>fm_target_load m - fm_load m1\<bar> \<le> (991 / 1000) ^ n * 101 + 1 / 100000000"
    using Suc by (simp_all add: m1_def Let_def)
  obtain r m2 where tick: "machine_tick ml dt m1 = (r, m2)" by fastforce
  note f = machine_tick_fields [OF dt tick]
  have small: "\<bar>fm_load m1\<bar> \<le> 101" "\<bar>fm_target_load m1\<bar> \<le> 101"
    using IH(1) by (auto simp: machine_inv_def in_ratings_def kept_in_def abs_le_iff)
  have "1 / 100 - 1 / 1000000000000 \<le> lag_weight ml dt 30"
    using decay fl_between [of "1 / 100" "1 - ml_exp ml (fdiv (- dt) 30)" 1] ml dt
    by (simp add: lag_weight_def fsub_def math_ok_def fdiv_def)
  then have "(1 - lag_weight ml dt 30) * \<bar>fm_target_load m1 - fm_load m1\<bar> \<le> 991 / 1000 * \<bar>fm_target_load m1 - fm_load m1\<bar>"
    by (intro mult_right_mono) simp_all
  then have "\<bar>fm_target_load m - fm_load m2\<bar> \<le> 991 / 1000 * \<bar>fm_target_load m - fm_load m1\<bar> + 1 / 100000000000"
    using lag_contracts [OF ml dt _ small, of 30] IH(2) f(9) by simp
  with IH(3) have "\<bar>fm_target_load m - fm_load m2\<bar> \<le> (991 / 1000) ^ Suc n * 101 + 1 / 100000000" by simp
  moreover have "fold (machine_step ml) (replicate (Suc n) (Tick dt)) m = m2"
    using tick by (simp add: replicate_append_same [symmetric] m1_def del: replicate_Suc)
  moreover have "machine_inv m2" using command_keeps [OF ml IH(1), of "Tick dt"] tick by simp
  ultimately show ?case using f(4) IH(2) by (simp add: Let_def del: power_Suc replicate_Suc)
qed

lemma decay_thousand: "(991 / 1000 :: rat) ^ 1000 \<le> 1 / 1000"
proof -
  have a: "(991 / 1000 :: rat) ^ 10 \<le> 92 / 100" by (simp add: power_divide)
  have b: "(92 / 100 :: rat) ^ 10 \<le> 44 / 100" by (simp add: power_divide)
  have c: "(44 / 100 :: rat) ^ 10 \<le> 1 / 1000" by (simp add: power_divide)
  have "(991 / 1000 :: rat) ^ 1000 = (((991 / 1000) ^ 10) ^ 10) ^ 10" by (simp flip: power_mult)
  also have "\<dots> \<le> ((92 / 100) ^ 10) ^ 10" using a by (intro power_mono) simp_all
  also have "\<dots> \<le> (44 / 100) ^ 10" using b by (intro power_mono) simp_all
  finally show ?thesis using c by simp
qed

section \<open>Mild starvation\<close>

text \<open>The weight of one lag step decides which of two targets is ahead after it.\<close>

lemma lag_prefers:
  assumes "math_ok ml" "0 < dt" "0 < k" "1 / 2000 \<le> lag_weight ml dt k" and "\<bar>v\<bar> \<le> 1"
    and "0 \<le> t1" "t1 + 4 / 10000 \<le> t2" "t2 \<le> 1"
  shows "lag_toward ml v t1 dt k < lag_toward ml v t2 dt k"
proof -
  define w where "w = lag_weight ml dt k"
  have w: "0 \<le> w" "w \<le> 1" "1 / 2000 \<le> w" using lag_weight_between [OF assms(1-3)] assms(4) by (simp_all add: w_def)
  have near: "\<bar>fadd v (fmul (fsub t v) w) - (v + (t - v) * w)\<bar> \<le> 1 / 100000000000" if "0 \<le> t" "t \<le> 1" for t
  proof -
    have D: "\<bar>fsub t v - (t - v)\<bar> \<le> 1 / 1000000000000" using fl_near_abs [of "t - v"] that assms(5) by (simp add: fsub_def)
    then have "\<bar>fsub t v - (t - v)\<bar> * w \<le> 1 / 1000000000000" using w mult_left_le [of w "\<bar>fsub t v - (t - v)\<bar>"] by linarith
    then have Dw: "\<bar>fsub t v * w - (t - v) * w\<bar> \<le> 1 / 1000000000000" using w by (simp add: abs_mult flip: left_diff_distrib)
    have Db: "\<bar>fsub t v\<bar> \<le> 3" using D that assms(5) by linarith
    then have "\<bar>fsub t v * w\<bar> \<le> 3" using w mult_left_le [of w "\<bar>fsub t v\<bar>"] by (simp add: abs_mult)
    then have M: "\<bar>fmul (fsub t v) w - fsub t v * w\<bar> \<le> 1 / 1000000000000" "\<bar>fmul (fsub t v) w\<bar> \<le> 4"
      using fl_near_abs [of "fsub t v * w"] unfolding fmul_def by linarith+
    moreover from M(2) have "\<bar>v + fmul (fsub t v) w\<bar> \<le> 1000" using assms(5) by linarith
    ultimately show ?thesis using fl_near_abs [of "v + fmul (fsub t v) w"] Dw unfolding fadd_def by linarith
  qed
  have "4 / 10000 * (1 / 2000) \<le> (t2 - t1) * w" by (rule mult_mono) (use w assms(6-8) in simp_all)
  then have "v + (t1 - v) * w + 1 / 10000000 \<le> v + (t2 - v) * w" by (simp add: algebra_simps)
  moreover have "\<bar>fadd v (fmul (fsub t1 v) w) - (v + (t1 - v) * w)\<bar> \<le> 1 / 100000000000"
    "\<bar>fadd v (fmul (fsub t2 v) w) - (v + (t2 - v) * w)\<bar> \<le> 1 / 100000000000"
    using assms(6-8) by (intro near; linarith)+
  ultimately show ?thesis unfolding lag_toward_weight [OF assms(3)] w_def [symmetric] by linarith
qed

lemma voltages_compared:
  assumes "math_ok ml" "0 \<le> c" "c \<le> 195 + 1 / 1000"
  shows "target_voltage ml n 200 1 + 4 / 10000 \<le> target_voltage ml n c (flit 97 100)"
proof -
  define v where "v = micro_variation ml n 1 (flit 2 1000)"
  have amp: "0 \<le> flit 2 1000" "flit 2 1000 \<le> 1" using flit_near [of 2 1000] by simp_all
  have v: "- 1 \<le> v" "v \<le> 1" using micro_variation_between [OF assms(1) _ amp(1), of n 1] amp by (simp_all add: v_def)
  have six: "6 / 100 - 1 / 1000000000000 \<le> flit 6 100" "flit 6 100 \<le> 6 / 100 + 1 / 1000000000000"
    and ocv: "78 / 100 - 1 / 1000000000000 \<le> flit 78 100" "flit 78 100 \<le> 78 / 100 + 1 / 1000000000000"
    and f97: "97 / 100 - 1 / 1000000000000 \<le> flit 97 100" "flit 97 100 \<le> 97 / 100 + 1 / 1000000000000"
    and f98: "98 / 100 - 1 / 1000000000000 \<le> flit 98 100" "flit 98 100 \<le> 98 / 100 + 1 / 1000000000000"
    using flit_near [of 6 100] flit_near [of 78 100] flit_near [of 97 100] flit_near [of 98 100] by simp_all
  have one: "fdiv 200 200 = 1" by (simp add: fdiv_def)
  have full: "fmul 1 (flit 6 100) = flit 6 100" by (simp add: fmul_def flit_def)
  have "fuel_starvation_voltage_penalty 1 = 0" using f98 by (simp add: fuel_starvation_voltage_penalty_def)
  then have "target_voltage ml n 200 1 = fadd (fsub (fsub (flit 78 100) (flit 6 100)) 0) v"
    by (simp add: target_voltage_def v_def one full)
  moreover have "fsub (flit 78 100) (flit 6 100) \<le> 72 / 100 + 1 / 10000000"
    using fl_between [of 0 "flit 78 100 - flit 6 100" "72 / 100 + 1 / 20000000"] six ocv by (simp add: fsub_def)
  then have "fsub (fsub (flit 78 100) (flit 6 100)) 0 \<le> 72 / 100 + 1 / 10000000" by (simp add: fsub_def)
  ultimately have healthy: "target_voltage ml n 200 1 \<le> 72 / 100 + v + 1 / 1000000"
    using fl_between [of "- 900" "fsub (fsub (flit 78 100) (flit 6 100)) 0 + v" "72 / 100 + v + 1 / 10000000"] v
      fl_between [of "- 10" "flit 78 100 - flit 6 100" 10] six ocv
    by (simp add: fadd_def fsub_def)
  have frac: "- 1 \<le> fdiv c 200" "fdiv c 200 \<le> 97501 / 100000"
    using fl_between [of 0 "c / 200" "975006 / 1000000"] assms(2,3) by (simp_all add: fdiv_def)
  then have "fdiv c 200 * flit 6 100 \<le> 97501 / 100000 * (6 / 100 + 1 / 1000000000000)"
    by (intro mul_between(2) [of "- 1"]) (use six in simp_all)
  moreover have "- 1 * 1 \<le> fdiv c 200 * flit 6 100" by (rule mul_between(1) [OF frac]) (use six in simp_all)
  ultimately have drop: "- 2 \<le> fmul (fdiv c 200) (flit 6 100)" "fmul (fdiv c 200) (flit 6 100) \<le> 58502 / 1000000"
    using fl_between [of "- 1" "fdiv c 200 * flit 6 100" "58501 / 1000000"] by (simp_all add: fmul_def)
  define depth where "depth = fdiv (fsub (flit 98 100) (flit 97 100)) (fsub (flit 98 100) (flit 4 10))"
  have shallow: "0 \<le> fsub (flit 98 100) (flit 97 100)" "fsub (flit 98 100) (flit 97 100) \<le> 1 / 100 + 1 / 10000000"
    and range: "57 / 100 \<le> fsub (flit 98 100) (flit 4 10)" "58 / 100 - 1 / 10000000 \<le> fsub (flit 98 100) (flit 4 10)"
    using fl_between [of "9 / 1000" "flit 98 100 - flit 97 100" "1 / 100 + 1 / 20000000"]
      fl_between [of "58 / 100 - 1 / 20000000" "flit 98 100 - flit 4 10" 1] f97 f98 four_tenths
    by (simp_all add: fsub_def)
  have "fsub (flit 98 100) (flit 97 100) / fsub (flit 98 100) (flit 4 10) \<le> (1 / 100 + 1 / 10000000) / (58 / 100 - 1 / 10000000)"
    by (rule frac_le) (use shallow range in simp_all)
  moreover have "0 \<le> fsub (flit 98 100) (flit 97 100) / fsub (flit 98 100) (flit 4 10)"
    by (rule divide_nonneg_nonneg) (use shallow range in linarith)+
  ultimately have depth: "0 \<le> depth" "depth \<le> 173 / 10000"
    using fl_between [of 0 "fsub (flit 98 100) (flit 97 100) / fsub (flit 98 100) (flit 4 10)" "172 / 10000 + 5 / 100000"]
      fl.rnd_nonneg by (simp_all add: depth_def fdiv_def)
  have "fuel_starvation_voltage_penalty (flit 97 100) = fmul (flit 6 100) depth"
    using f97 f98 depth by (simp add: fuel_starvation_voltage_penalty_def depth_def [symmetric] Let_def)
  moreover have "flit 6 100 * depth \<le> (6 / 100 + 1 / 1000000000000) * (173 / 10000)" by (rule mult_mono) (use six depth in simp_all)
  moreover have "0 \<le> flit 6 100 * depth" using six depth by simp
  ultimately have pen: "- 1 \<le> fuel_starvation_voltage_penalty (flit 97 100)" "fuel_starvation_voltage_penalty (flit 97 100) \<le> 1039 / 1000000"
    using fl_between [of 0 "flit 6 100 * depth" "10385 / 10000000"] by (simp_all add: fmul_def)
  define base where "base = fsub (flit 78 100) (fmul (fdiv c 200) (flit 6 100))"
  have base: "721497 / 1000000 \<le> base" "base \<le> 3"
    using fl_between [of "721498 / 1000000 - 1 / 10000000" "flit 78 100 - fmul (fdiv c 200) (flit 6 100)" "28 / 10"] ocv drop
    by (simp_all add: base_def fsub_def)
  have low: "720456 / 1000000 \<le> fsub base (fuel_starvation_voltage_penalty (flit 97 100))"
    "fsub base (fuel_starvation_voltage_penalty (flit 97 100)) \<le> 5"
    using fl_between [of "720457 / 1000000" "base - fuel_starvation_voltage_penalty (flit 97 100)" 4] base pen by (simp_all add: fsub_def)
  have "target_voltage ml n c (flit 97 100) = fl (fsub base (fuel_starvation_voltage_penalty (flit 97 100)) + v)"
    unfolding target_voltage_def base_def [symmetric] v_def [symmetric] by (rule fadd_def)
  then have "720455 / 1000000 + v \<le> target_voltage ml n c (flit 97 100)"
    using fl_between [of "720456 / 1000000 + v" "fsub base (fuel_starvation_voltage_penalty (flit 97 100)) + v" 10] low v by simp
  with healthy show ?thesis by linarith
qed

section \<open>Properties\<close>

definition about :: "rat \<Rightarrow> rat \<Rightarrow> pyfloat \<Rightarrow> bool" where
  "about lo hi x \<longleftrightarrow> lo - 1 / 100000 \<le> x \<and> x \<le> hi + 1 / 100000"

lemma kept_about: "kept_in s lo hi x \<Longrightarrow> s \<le> 1 / 100000 \<Longrightarrow> about lo hi x"
  by (simp add: kept_in_def about_def)

lemma machine_inv_about:
  assumes "machine_inv m"
  shows "about 0 100 (fm_load m)" "about 0 200 (fm_current m)" "about (658 / 1000) (782 / 1000) (fm_voltage m)"
    "about (5285 / 100) (7915 / 100) (fm_stack_temperature m)" "about (150225 / 1000) (163775 / 1000) (fm_stack_pressure m)"
    "about (6 / 10) (25 / 10) (fm_hydrogen_flow m)" "about (24 / 10) 10 (fm_air_flow m)"
    "about (4 / 10) 1 (fm_cooling_efficiency m)" "about (4 / 10) 1 (fm_fuel_supply_factor m)"
    "6 \<le> coolant_flow_of (fm_load m) (fm_cooling_efficiency m)" "coolant_flow_of (fm_load m) (fm_cooling_efficiency m) \<le> 32"
    "fm_operating_mode m \<noteq> IDLE" "fm_operating_mode m = RAMPING \<longleftrightarrow> 1 < \<bar>fsub (fm_target_load m) (fm_load m)\<bar>"
proof -
  note o = assms [unfolded machine_inv_def, THEN conjunct1, unfolded in_ratings_def]
  show "about 0 100 (fm_load m)" "about 0 200 (fm_current m)" "about (658 / 1000) (782 / 1000) (fm_voltage m)"
    "about (5285 / 100) (7915 / 100) (fm_stack_temperature m)" "about (150225 / 1000) (163775 / 1000) (fm_stack_pressure m)"
    "about (6 / 10) (25 / 10) (fm_hydrogen_flow m)" "about (24 / 10) 10 (fm_air_flow m)"
    "about (4 / 10) 1 (fm_cooling_efficiency m)" "about (4 / 10) 1 (fm_fuel_supply_factor m)"
    using o by (auto elim!: kept_about)
  show "6 \<le> coolant_flow_of (fm_load m) (fm_cooling_efficiency m)" "coolant_flow_of (fm_load m) (fm_cooling_efficiency m) \<le> 32"
    using o coolant_flow_between by blast+
qed (use assms in \<open>simp_all add: machine_inv_def mode_ok_def\<close>)

text \<open>
  No sequence of commands and ticks, whatever their values, leaves the ratings of a stack: load and
  current, the cell voltage, the flows, the temperature and the pressure stay in their ranges up to a
  rounding slack of a hundred-thousandth, and the stack ramps exactly while its load is off the setpoint.
\<close>

theorem stack_stays_in_ratings:
  fixes ml :: MathLib and cs :: "MachineCommand list" and asset :: string
  assumes "math_ok ml"
  defines "m \<equiv> fold (machine_step ml) cs (default_machine asset)"
  defines "s \<equiv> machine_state m"
  shows "about 0 100 (fs_load s) \<and> about 0 200 (fs_current s) \<and> about (658 / 1000) (782 / 1000) (fs_voltage s) \<and>
    about (5285 / 100) (7915 / 100) (fs_stack_temperature s) \<and> about (150225 / 1000) (163775 / 1000) (fs_stack_pressure s) \<and>
    about (6 / 10) (25 / 10) (fs_hydrogen_flow s) \<and> about (24 / 10) 10 (fs_air_flow s) \<and>
    about (4 / 10) 1 (fs_cooling_efficiency s) \<and> about (4 / 10) 1 (fs_fuel_supply_factor s) \<and>
    about 6 32 (fs_coolant_flow s) \<and> fs_operating_mode s \<noteq> IDLE \<and>
    (fs_operating_mode s = RAMPING \<longleftrightarrow> 1 < \<bar>fsub (fs_target_load s) (fs_load s)\<bar>)"
proof -
  have inv: "machine_inv m" unfolding m_def by (rule stack.inv_run) (use assms(1) in simp)
  note a = machine_inv_about [OF inv]
  moreover have "about 6 32 (coolant_flow_of (fm_load m) (fm_cooling_efficiency m))" using a(10,11) by (simp add: about_def)
  ultimately show ?thesis by (simp add: s_def machine_state_def)
qed

text \<open>
  Every ramp ends: whatever a stack went through, once the commands pause and a tick decays the distance
  to the setpoint by one percent or more (a third of a second does), after a thousand ticks or more it runs
  and its load is within 0.2 percent points of the setpoint.
\<close>

theorem ramp_ends:
  fixes ml :: MathLib and cs :: "MachineCommand list" and asset :: string and dt :: pyfloat and n :: nat
  assumes "math_ok ml" "0 < dt" "ml_exp ml (fdiv (- dt) 30) \<le> 99 / 100" "1000 \<le> n"
  defines "m \<equiv> fold (machine_step ml) (cs @ replicate n (Tick dt)) (default_machine asset)"
  shows "fm_operating_mode m = RUNNING \<and> \<bar>fm_target_load m - fm_load m\<bar> \<le> 2 / 10"
proof -
  define m0 where "m0 = fold (machine_step ml) cs (default_machine asset)"
  have "machine_inv m0" unfolding m0_def by (rule stack.inv_run) (use assms(1) in simp)
  from load_approaches [OF assms(1-3) this, of n] have m: "machine_inv m" "fm_target_load m = fm_target_load m0"
    "\<bar>fm_target_load m0 - fm_load m\<bar> \<le> (991 / 1000) ^ n * 101 + 1 / 100000000"
    by (simp_all add: m_def m0_def Let_def)
  have "(991 / 1000 :: rat) ^ n \<le> (991 / 1000) ^ 1000" by (rule power_decreasing [OF assms(4)]) simp_all
  then have "(991 / 1000 :: rat) ^ n \<le> 1 / 1000" using decay_thousand by (rule order_trans)
  then have near: "\<bar>fm_target_load m - fm_load m\<bar> \<le> 2 / 10" using m(3) unfolding m(2) by linarith
  then have "\<bar>fsub (fm_target_load m) (fm_load m)\<bar> \<le> 1"
    using fl_near_abs [of "fm_target_load m - fm_load m"] unfolding fsub_def by linarith
  then show ?thesis using near m(1) by (cases "fm_operating_mode m") (auto simp: machine_inv_def mode_ok_def)
qed

text \<open>
  Mild starvation raises the voltage: of two stacks at full load that only differ in their fuel, the one
  whose supply is down to 97 percent, its current at the limit, has the higher voltage after the next tick.
\<close>

theorem mild_starvation_raises_voltage:
  fixes m :: FuelCellMachine
  assumes ml: "math_ok ml" and dt: "0 < dt" "5 / 6 \<le> ml_exp ml (fdiv (- dt) 30)" "ml_exp ml (fdiv (- dt) 15) \<le> 999 / 1000"
    and full: "fm_load m = 100" "fm_target_load m = 100" "fm_current m = 200" "\<bar>fm_voltage m\<bar> \<le> 1"
    and fuel: "fm_fuel_supply_factor m = 1" "fm_target_fuel_supply_factor m = 1"
  defines "starved \<equiv> m\<lparr>fm_fuel_supply_factor := flit 97 100, fm_target_fuel_supply_factor := flit 97 100, fm_current := 194\<rparr>"
  shows "fm_voltage (snd (machine_tick ml dt m)) < fm_voltage (snd (machine_tick ml dt starved))"
proof -
  have still: "lag_toward ml x x d k = x" if "is_float x" for x d k
    using that by (simp add: lag_toward_def Let_def fadd_def fmul_def fl.rnd_0 is_float_def)
  define w where "w = lag_weight ml dt 30"
  have w: "0 \<le> w" "w \<le> 1 / 6 + 1 / 1000000000000"
    using lag_weight_between [OF ml dt(1), of 30] dt fl_between [of 0 "1 - ml_exp ml (fdiv (- dt) 30)" "1 / 6"] ml
    by (simp_all add: w_def lag_weight_def fsub_def math_ok_def fdiv_def)
  define c where "c = lag_toward ml 194 200 dt 30"
  have six: "fsub 200 194 = 6" by (simp add: fsub_def fl_numeral)
  have "0 \<le> fmul 6 w" "fmul 6 w \<le> 1 + 1 / 10000"
    using fl_between [of 0 "6 * w" "1 + 1 / 100000"] w fl.rnd_nonneg [of "6 * w"] by (simp_all add: fmul_def)
  then have c: "0 \<le> c" "c \<le> 195 + 1 / 1000"
    using fl_between [of 194 "194 + fmul 6 w" "195 + 1 / 10000"] by (simp_all add: c_def lag_toward_weight six fadd_def flip: w_def)
  have tick: "fm_voltage (snd (machine_tick ml dt m)) = lag_toward ml (fm_voltage m) (target_voltage ml (fm_tick_count m + 1) 200 1) dt 15"
    "fm_voltage (snd (machine_tick ml dt starved)) =
       lag_toward ml (fm_voltage m) (target_voltage ml (fm_tick_count m + 1) c (flit 97 100)) dt 15"
    using dt(1) full fuel
    by (simp_all add: machine_tick_def Let_def starved_def still halved fdiv_def fmul_def fl_numeral fl.rnd_0 flip: c_def)
  note compared = voltages_compared [OF ml c, of "fm_tick_count m + 1"]
  have "1 / 2000 \<le> lag_weight ml dt 15"
    using dt(3) fl_between [of "1 / 1000" "1 - ml_exp ml (fdiv (- dt) 15)" 1] ml dt(1)
    by (simp add: lag_weight_def fsub_def math_ok_def fdiv_def)
  then show ?thesis unfolding tick
    by (rule lag_prefers [OF ml dt(1), rotated])
      (use compared target_voltage_between(1) [OF ml, of 200 "fm_tick_count m + 1" 1] full
         target_voltage_between(2) [OF ml, of c "fm_tick_count m + 1" "flit 97 100"] c in simp_all)
qed


definition demo_math :: MathLib where
  "demo_math = \<lparr>ml_exp = \<lambda>x. flit 9 10, ml_sin = \<lambda>x. 0\<rparr>"

lemma demo_math_ok: "math_ok demo_math" "5 / 6 \<le> ml_exp demo_math x" "ml_exp demo_math x \<le> 99 / 100"
  using flit_near [of 9 10] by (simp_all add: math_ok_def demo_math_def)

theorem stack_stays_in_ratings_witness:
  "about 0 200 (fs_current (machine_state (fold (machine_step demo_math) [SetLoad 80, Tick 5, SetFuel (1 / 2), Tick 5] (default_machine ''stack-1''))))"
  using stack_stays_in_ratings [OF demo_math_ok(1), where cs = "[SetLoad 80, Tick 5, SetFuel (1 / 2), Tick 5]" and asset = "''stack-1''"]
  by blast

theorem ramp_ends_witness:
  "fm_operating_mode (fold (machine_step demo_math) ([SetLoad 80] @ replicate 1200 (Tick 1)) (default_machine ''stack-1'')) = RUNNING"
  using ramp_ends [OF demo_math_ok(1) zero_less_one demo_math_ok(3), of 1200 "[SetLoad 80]" "''stack-1''"] by simp

theorem mild_starvation_raises_voltage_witness:
  "\<exists>m. m = (default_machine ''stack-1'')\<lparr>fm_load := 100, fm_target_load := 100, fm_current := 200\<rparr> \<and>
     fm_voltage (snd (machine_tick demo_math 1 m)) <
     fm_voltage (snd (machine_tick demo_math 1
       (m\<lparr>fm_fuel_supply_factor := flit 97 100, fm_target_fuel_supply_factor := flit 97 100, fm_current := 194\<rparr>)))"
  using mild_starvation_raises_voltage [OF demo_math_ok(1) zero_less_one demo_math_ok(2), of "(default_machine ''stack-1'')\<lparr>fm_load := 100, fm_target_load := 100, fm_current := 200\<rparr>"]
    demo_math_ok(3) [of "fdiv (- 1) 15"] flit_near [of 76 100]
  by (simp add: default_machine_def mk_machine_def)

end
