(* ===== verification/Plant_Scenarios.thy ===== *)
theory Plant_Scenarios
  imports Plant_Machine Job_Queue
begin

text \<open>
  The simulated plant (\<^verbatim>\<open>src/backend/simulator\<close>): the fleet (\<^verbatim>\<open>plant.py\<close>), the scenarios that drive it
  (\<^verbatim>\<open>scenarios/*.py\<close>), the timed scripts (\<^verbatim>\<open>scenario_script.py\<close>) and the registry
  (\<^verbatim>\<open>scenario_registry.py\<close>). Machines and telemetry contexts are the values of the fleet's two
  dictionaries; every tick returns them updated, also when it raises half way.
\<close>

section \<open>The fleet\<close>

record TelemetryContext =
  tc_run_id :: string
  tc_sensor_bias :: "(string, pyfloat) dict"

record PlantAlphaFleet =
  pl_machines :: "(string, FuelCellMachine) dict"
  pl_contexts :: "(string, TelemetryContext) dict"
  pl_elapsed :: pyfloat

definition FLEET_BASELINES :: "(string \<times> pyfloat \<times> pyfloat) list" where
  "FLEET_BASELINES =
     [(''fuel-cell-stack-01'', 60, flit 85 100), (''fuel-cell-stack-02'', 63, flit 87 100),
      (''fuel-cell-stack-03'', 58, flit 84 100), (''fuel-cell-stack-04'', 65, flit 85 100)]"

definition DEFAULT_ASSET_IDS :: "string list" where
  "DEFAULT_ASSET_IDS = [''fuel-cell-stack-01'', ''fuel-cell-stack-02'', ''fuel-cell-stack-03'', ''fuel-cell-stack-04'']"

definition fleet_machine :: "(string, pyfloat) dict \<Rightarrow> (string, pyfloat) dict \<Rightarrow> string \<Rightarrow> FuelCellMachine" where
  "fleet_machine loads temperatures asset =
     (let (target, cooling) = (case map_of FLEET_BASELINES asset of Some b \<Rightarrow> b | None \<Rightarrow> (60, flit 85 100));
          machine = mk_machine asset
            (case map_of loads asset of Some x \<Rightarrow> x | None \<Rightarrow> 50)
            (case map_of temperatures asset of Some x \<Rightarrow> x | None \<Rightarrow> 65)
      in set_cooling_efficiency cooling (set_target_load target machine))"

definition fleet_create :: "string \<Rightarrow> string list \<Rightarrow> (string, pyfloat) dict \<Rightarrow> (string, pyfloat) dict \<Rightarrow> PlantAlphaFleet" where
  "fleet_create run assets loads temperatures =
     fold (\<lambda>asset fleet. fleet\<lparr>pl_machines := dict_set asset (fleet_machine loads temperatures asset) (pl_machines fleet),
                         pl_contexts := dict_set asset \<lparr>tc_run_id = run, tc_sensor_bias = []\<rparr> (pl_contexts fleet)\<rparr>)
       assets \<lparr>pl_machines = [], pl_contexts = [], pl_elapsed = 0\<rparr>"

text \<open>One machine after the other; the first that raises ends the loop.\<close>

fun tick_machines :: "MathLib \<Rightarrow> pyfloat \<Rightarrow> (string, FuelCellMachine) dict \<Rightarrow> unit result \<times> (string, FuelCellMachine) dict" where
  "tick_machines ml dt [] = (Ok (), [])"
| "tick_machines ml dt ((asset, m) # ms) =
     (case machine_tick ml dt m of
        (Inl e, m') \<Rightarrow> (Err e, (asset, m') # ms)
      | (Inr _, m') \<Rightarrow> (case tick_machines ml dt ms of (r, ms') \<Rightarrow> (r, (asset, m') # ms')))"

definition fleet_tick :: "MathLib \<Rightarrow> pyfloat \<Rightarrow> PlantAlphaFleet \<Rightarrow> unit result \<times> PlantAlphaFleet" where
  "fleet_tick ml dt fleet =
     (case tick_machines ml dt (pl_machines fleet) of
        (r, ms) \<Rightarrow> (r, fleet\<lparr>pl_elapsed := fadd (pl_elapsed fleet) dt, pl_machines := ms\<rparr>))"

text \<open>\<^verbatim>\<open>fleet.machine(asset)\<close> followed by a command on it, and the same of a context.\<close>

definition on_machine :: "string \<Rightarrow> (FuelCellMachine \<Rightarrow> FuelCellMachine) \<Rightarrow> PlantAlphaFleet \<Rightarrow> unit result \<times> PlantAlphaFleet" where
  "on_machine asset f fleet =
     (case map_of (pl_machines fleet) asset of
        None \<Rightarrow> (Err (KeyError (py_repr asset)), fleet)
      | Some m \<Rightarrow> (Ok (), fleet\<lparr>pl_machines := dict_set asset (f m) (pl_machines fleet)\<rparr>))"

definition on_context :: "string \<Rightarrow> (TelemetryContext \<Rightarrow> TelemetryContext) \<Rightarrow> PlantAlphaFleet \<Rightarrow> unit result \<times> PlantAlphaFleet" where
  "on_context asset f fleet =
     (case map_of (pl_contexts fleet) asset of
        None \<Rightarrow> (Err (KeyError (py_repr asset)), fleet)
      | Some c \<Rightarrow> (Ok (), fleet\<lparr>pl_contexts := dict_set asset (f c) (pl_contexts fleet)\<rparr>))"

definition fleet_bind ::
    "(PlantAlphaFleet \<Rightarrow> unit result \<times> PlantAlphaFleet) \<Rightarrow> (PlantAlphaFleet \<Rightarrow> unit result \<times> PlantAlphaFleet) \<Rightarrow>
     PlantAlphaFleet \<Rightarrow> unit result \<times> PlantAlphaFleet" where
  "fleet_bind f g fleet = (case f fleet of (Inl e, fleet') \<Rightarrow> (Err e, fleet') | (Inr _, fleet') \<Rightarrow> g fleet')"

section \<open>Scenarios\<close>

record NormalOperationProfile =
  np_load_baseline_percent :: pyfloat
  np_load_amplitude_percent :: pyfloat
  np_load_period_seconds :: pyfloat
  np_load_phase_radians :: pyfloat

definition DEFAULT_PROFILE :: NormalOperationProfile where
  "DEFAULT_PROFILE =
     \<lparr>np_load_baseline_percent = 60, np_load_amplitude_percent = 15, np_load_period_seconds = 300, np_load_phase_radians = 0\<rparr>"

definition py_pi :: pyfloat where
  "py_pi = flit 3141592653589793 1000000000000000"

text \<open>\<^verbatim>\<open>for index, asset_id in enumerate(fleet.asset_ids)\<close>.\<close>

fun set_loads :: "(nat \<Rightarrow> pyfloat) \<Rightarrow> nat \<Rightarrow> string list \<Rightarrow> PlantAlphaFleet \<Rightarrow> unit result \<times> PlantAlphaFleet" where
  "set_loads load index [] fleet = (Ok (), fleet)"
| "set_loads load index (asset # assets) fleet =
     fleet_bind (on_machine asset (set_target_load (load index))) (set_loads load (Suc index) assets) fleet"

definition normal_tick :: "MathLib \<Rightarrow> NormalOperationProfile \<Rightarrow> pyfloat \<Rightarrow> PlantAlphaFleet \<Rightarrow> unit result \<times> PlantAlphaFleet" where
  "normal_tick ml p dt =
     fleet_bind (fleet_tick ml dt) (\<lambda>fleet.
       if np_load_period_seconds p = 0 then (Err ZeroDivisionError, fleet)
       else
         let cycle_fraction = fdiv (pl_elapsed fleet) (np_load_period_seconds p);
             phase = fadd (fmul (fmul 2 py_pi) cycle_fraction) (np_load_phase_radians p)
         in set_loads (\<lambda>index. fadd
               (fadd (np_load_baseline_percent p) (fmul (of_nat index) 2))
               (fmul (np_load_amplitude_percent p) (ml_sin ml (fadd phase (fmul (of_nat index) (flit 4 10))))))
              0 (dict_keys (pl_machines fleet)) fleet)"

text \<open>A fault scenario has a target, a duration, and how much simulated time it has run.\<close>

datatype Scenario =
    NormalOperation NormalOperationProfile
  | CoolingDegradation string pyfloat pyfloat pyfloat pyfloat
  | HydrogenSupplyIssue string pyfloat pyfloat pyfloat pyfloat
  | SensorAnomaly string pyfloat pyfloat pyfloat
  | Recovery string pyfloat pyfloat

definition cooling_degradation :: "string \<Rightarrow> pyfloat \<Rightarrow> Scenario" where
  "cooling_degradation target duration = CoolingDegradation target duration (flit 85 100) (flit 55 100) 0"

definition hydrogen_supply_issue :: "string \<Rightarrow> pyfloat \<Rightarrow> Scenario" where
  "hydrogen_supply_issue target duration = HydrogenSupplyIssue target duration 1 (flit 6 10) 0"

definition sensor_anomaly :: "string \<Rightarrow> pyfloat \<Rightarrow> Scenario" where
  "sensor_anomaly target duration = SensorAnomaly target duration 12 0"

definition recovery_scenario :: "string \<Rightarrow> pyfloat \<Rightarrow> Scenario" where
  "recovery_scenario target duration = Recovery target duration 0"

text \<open>The share of the scenario that has passed, for the code that follows it.\<close>

definition with_progress ::
    "pyfloat \<Rightarrow> pyfloat \<Rightarrow> (pyfloat \<Rightarrow> PlantAlphaFleet \<Rightarrow> unit result \<times> PlantAlphaFleet) \<Rightarrow>
     PlantAlphaFleet \<Rightarrow> unit result \<times> PlantAlphaFleet" where
  "with_progress elapsed duration f fleet =
     (if duration = 0 then (Err ZeroDivisionError, fleet) else f (min 1 (fdiv elapsed duration)) fleet)"

definition ramped :: "pyfloat \<Rightarrow> pyfloat \<Rightarrow> pyfloat \<Rightarrow> pyfloat" where
  "ramped start stop progress = fadd start (fmul (fsub stop start) progress)"

definition cooling_tick ::
    "MathLib \<Rightarrow> pyfloat \<Rightarrow> string \<Rightarrow> pyfloat \<Rightarrow> pyfloat \<Rightarrow> pyfloat \<Rightarrow> pyfloat \<Rightarrow> PlantAlphaFleet \<Rightarrow> unit result \<times> PlantAlphaFleet" where
  "cooling_tick ml dt target duration start stop elapsed =
     fleet_bind (normal_tick ml DEFAULT_PROFILE dt) (with_progress elapsed duration (\<lambda>progress.
       on_machine target (set_cooling_efficiency (ramped start stop progress))))"

definition hydrogen_tick ::
    "MathLib \<Rightarrow> pyfloat \<Rightarrow> string \<Rightarrow> pyfloat \<Rightarrow> pyfloat \<Rightarrow> pyfloat \<Rightarrow> pyfloat \<Rightarrow> PlantAlphaFleet \<Rightarrow> unit result \<times> PlantAlphaFleet" where
  "hydrogen_tick ml dt target duration start stop elapsed =
     fleet_bind (normal_tick ml DEFAULT_PROFILE dt) (with_progress elapsed duration (\<lambda>progress.
       on_machine target (set_fuel_supply_factor (ramped start stop progress))))"

definition sensor_tick ::
    "MathLib \<Rightarrow> pyfloat \<Rightarrow> string \<Rightarrow> pyfloat \<Rightarrow> pyfloat \<Rightarrow> pyfloat \<Rightarrow> PlantAlphaFleet \<Rightarrow> unit result \<times> PlantAlphaFleet" where
  "sensor_tick ml dt target duration stop elapsed =
     fleet_bind (normal_tick ml DEFAULT_PROFILE dt) (with_progress elapsed duration (\<lambda>progress.
       on_context target (\<lambda>c. c\<lparr>tc_sensor_bias := dict_set ''stack_temperature'' (fmul stop progress) (tc_sensor_bias c)\<rparr>)))"

definition recovery_tick ::
    "MathLib \<Rightarrow> pyfloat \<Rightarrow> string \<Rightarrow> pyfloat \<Rightarrow> pyfloat \<Rightarrow> PlantAlphaFleet \<Rightarrow> unit result \<times> PlantAlphaFleet" where
  "recovery_tick ml dt target duration elapsed =
     fleet_bind (normal_tick ml DEFAULT_PROFILE dt) (with_progress elapsed duration (\<lambda>progress.
       fleet_bind (on_machine target id)
       (fleet_bind (on_context target id)
       (fleet_bind (on_machine target
          (\<lambda>m. set_fuel_supply_factor (fadd (flit 6 10) (fmul (fsub 1 (flit 6 10)) progress))
             (set_cooling_efficiency (fadd (flit 55 100) (fmul (fsub (flit 85 100) (flit 55 100)) progress)) m)))
       (on_context target (\<lambda>c. c\<lparr>tc_sensor_bias := dict_set ''stack_temperature''
          (max 0 (fmul (case map_of (tc_sensor_bias c) ''stack_temperature'' of Some b \<Rightarrow> b | None \<Rightarrow> 0) (fsub 1 progress)))
          (tc_sensor_bias c)\<rparr>))))))"

fun scenario_tick :: "MathLib \<Rightarrow> pyfloat \<Rightarrow> Scenario \<Rightarrow> PlantAlphaFleet \<Rightarrow> unit result \<times> Scenario \<times> PlantAlphaFleet" where
  "scenario_tick ml dt (NormalOperation p) fleet =
     (case normal_tick ml p dt fleet of (r, fleet') \<Rightarrow> (r, NormalOperation p, fleet'))"
| "scenario_tick ml dt (CoolingDegradation target duration start stop elapsed) fleet =
     (let elapsed' = fadd elapsed dt
      in case cooling_tick ml dt target duration start stop elapsed' fleet of
           (r, fleet') \<Rightarrow> (r, CoolingDegradation target duration start stop elapsed', fleet'))"
| "scenario_tick ml dt (HydrogenSupplyIssue target duration start stop elapsed) fleet =
     (let elapsed' = fadd elapsed dt
      in case hydrogen_tick ml dt target duration start stop elapsed' fleet of
           (r, fleet') \<Rightarrow> (r, HydrogenSupplyIssue target duration start stop elapsed', fleet'))"
| "scenario_tick ml dt (SensorAnomaly target duration stop elapsed) fleet =
     (let elapsed' = fadd elapsed dt
      in case sensor_tick ml dt target duration stop elapsed' fleet of
           (r, fleet') \<Rightarrow> (r, SensorAnomaly target duration stop elapsed', fleet'))"
| "scenario_tick ml dt (Recovery target duration elapsed) fleet =
     (let elapsed' = fadd elapsed dt
      in case recovery_tick ml dt target duration elapsed' fleet of
           (r, fleet') \<Rightarrow> (r, Recovery target duration elapsed', fleet'))"

section \<open>Scripts\<close>

record ScenarioPhase =
  sp_name :: string
  sp_duration_sim_seconds :: pyfloat
  sp_target_asset_id :: string

record ScenarioScriptRunner =
  sr_name :: string
  sr_phases :: "ScenarioPhase list"
  sr_phase_index :: nat
  sr_phase_elapsed :: pyfloat
  sr_active :: Scenario

definition phase :: "string \<Rightarrow> pyfloat \<Rightarrow> string \<Rightarrow> ScenarioPhase" where
  "phase name duration target = \<lparr>sp_name = name, sp_duration_sim_seconds = duration, sp_target_asset_id = target\<rparr>"

definition PRESENTATION_PHASES :: "ScenarioPhase list" where
  "PRESENTATION_PHASES =
     [phase ''normal_operation'' 270 ''fuel-cell-stack-01'', phase ''cooling_degradation'' 1080 ''fuel-cell-stack-01'',
      phase ''recovery'' 2250 ''fuel-cell-stack-01'']"

definition REALISTIC_PHASES :: "ScenarioPhase list" where
  "REALISTIC_PHASES =
     [phase ''normal_operation'' 1800 ''fuel-cell-stack-01'', phase ''cooling_degradation'' 2700 ''fuel-cell-stack-01'',
      phase ''recovery'' 1800 ''fuel-cell-stack-01'', phase ''hydrogen_supply_issue'' 1800 ''fuel-cell-stack-01'',
      phase ''recovery'' 1800 ''fuel-cell-stack-01'', phase ''sensor_anomaly'' 1800 ''fuel-cell-stack-02'',
      phase ''recovery'' 1800 ''fuel-cell-stack-02'']"

definition build_phase :: "ScenarioPhase \<Rightarrow> Scenario result" where
  "build_phase p =
     (let target = sp_target_asset_id p; duration = sp_duration_sim_seconds p
      in if sp_name p = ''normal_operation'' then Ok (NormalOperation DEFAULT_PROFILE)
         else if sp_name p = ''cooling_degradation'' then Ok (cooling_degradation target duration)
         else if sp_name p = ''hydrogen_supply_issue'' then Ok (hydrogen_supply_issue target duration)
         else if sp_name p = ''sensor_anomaly'' then Ok (sensor_anomaly target duration)
         else if sp_name p = ''recovery'' then Ok (recovery_scenario target duration)
         else Err (ValueError (''unsupported scenario phase: '' @ sp_name p)))"

definition mk_script_runner :: "string \<Rightarrow> ScenarioPhase list \<Rightarrow> ScenarioScriptRunner result" where
  "mk_script_runner script_name phases =
     (case phases of
        [] \<Rightarrow> Err (IndexError ''tuple index out of range'')
      | p # _ \<Rightarrow> res_bind (build_phase p) (\<lambda>active.
          Ok \<lparr>sr_name = script_name, sr_phases = phases, sr_phase_index = 0, sr_phase_elapsed = 0, sr_active = active\<rparr>))"

text \<open>The end of a tick: the next phase begins when the current one has had its time.\<close>

definition advance_phase :: "pyfloat \<Rightarrow> ScenarioScriptRunner \<Rightarrow> unit result \<times> ScenarioScriptRunner" where
  "advance_phase dt sr =
     (let elapsed = fadd (sr_phase_elapsed sr) dt; waiting = sr\<lparr>sr_phase_elapsed := elapsed\<rparr>
      in if elapsed < sp_duration_sim_seconds (sr_phases sr ! sr_phase_index sr) then (Ok (), waiting)
         else if length (sr_phases sr) - 1 \<le> sr_phase_index sr then (Ok (), waiting)
         else
           let index = Suc (sr_phase_index sr); moved = sr\<lparr>sr_phase_index := index, sr_phase_elapsed := 0\<rparr>
           in case build_phase (sr_phases sr ! index) of
                Inl e \<Rightarrow> (Err e, moved)
              | Inr active \<Rightarrow> (Ok (), moved\<lparr>sr_active := active\<rparr>))"

definition script_tick ::
    "MathLib \<Rightarrow> pyfloat \<Rightarrow> ScenarioScriptRunner \<times> PlantAlphaFleet \<Rightarrow> unit result \<times> ScenarioScriptRunner \<times> PlantAlphaFleet" where
  "script_tick ml dt s =
     (case scenario_tick ml dt (sr_active (fst s)) (snd s) of
        (r, active, fleet) \<Rightarrow>
          (let sr = (fst s)\<lparr>sr_active := active\<rparr>
           in case r of
                Inl e \<Rightarrow> (Err e, sr, fleet)
              | Inr _ \<Rightarrow> (case advance_phase dt sr of (r', sr') \<Rightarrow> (r', sr', fleet))))"

definition build_script_runner :: "string \<Rightarrow> ScenarioScriptRunner result" where
  "build_script_runner script_name =
     (if script_name = ''demo_presentation'' then mk_script_runner script_name PRESENTATION_PHASES
      else if script_name = ''demo_realistic'' then mk_script_runner script_name REALISTIC_PHASES
      else Err (ValueError (''unsupported scenario script: '' @ script_name)))"

text \<open>\<^verbatim>\<open>build_scenario\<close>: a scenario or a script.\<close>

definition build_scenario :: "string \<Rightarrow> (Scenario + ScenarioScriptRunner) result" where
  "build_scenario name =
     (let target = ''fuel-cell-stack-01''
      in if name = ''normal_operation'' then Ok (Inl (NormalOperation DEFAULT_PROFILE))
         else if name = ''cooling_degradation'' then Ok (Inl (cooling_degradation target 1080))
         else if name = ''hydrogen_supply_issue'' then Ok (Inl (hydrogen_supply_issue target 720))
         else if name = ''sensor_anomaly'' then Ok (Inl (sensor_anomaly target 720))
         else if name = ''recovery'' then Ok (Inl (recovery_scenario target 720))
         else if name = ''demo_presentation'' \<or> name = ''demo_realistic''
           then res_bind (build_script_runner name) (\<lambda>sr. Ok (Inr sr))
         else Err (ValueError (''unsupported scenario: '' @ name)))"

section \<open>What every scenario leaves alone\<close>

text \<open>All machines are in order, and no asset comes or goes.\<close>

definition fleet_ok :: "PlantAlphaFleet \<Rightarrow> bool" where
  "fleet_ok fleet \<longleftrightarrow> (\<forall>m \<in> snd ` set (pl_machines fleet). machine_inv m)"

definition fleet_frame :: "PlantAlphaFleet \<Rightarrow> PlantAlphaFleet \<Rightarrow> bool" where
  "fleet_frame fleet fleet' \<longleftrightarrow> (fleet_ok fleet \<longrightarrow> fleet_ok fleet') \<and> dict_keys (pl_machines fleet') = dict_keys (pl_machines fleet) \<and>
     dict_keys (pl_contexts fleet') = dict_keys (pl_contexts fleet)"

definition frames :: "(PlantAlphaFleet \<Rightarrow> unit result \<times> PlantAlphaFleet) \<Rightarrow> bool" where
  "frames f \<longleftrightarrow> (\<forall>fleet. fleet_frame fleet (snd (f fleet)))"

lemma fleet_frame_refl: "fleet_frame fleet fleet"
  by (simp add: fleet_frame_def)

lemma fleet_frame_trans: "fleet_frame a b \<Longrightarrow> fleet_frame b c \<Longrightarrow> fleet_frame a c"
  by (simp add: fleet_frame_def)

lemma frames_bind:
  assumes "frames f" "frames g"
  shows "frames (fleet_bind f g)"
  unfolding frames_def
proof
  fix fleet
  obtain r fleet1 where f: "f fleet = (r, fleet1)" by fastforce
  then have "fleet_frame fleet fleet1" using assms(1) unfolding frames_def by (metis snd_conv)
  moreover have "fleet_frame fleet1 (snd (g fleet1))" using assms(2) by (simp add: frames_def)
  ultimately show "fleet_frame fleet (snd (fleet_bind f g fleet))"
    using f by (cases r) (auto simp: fleet_bind_def dest: fleet_frame_trans)
qed

lemma dict_set_known:
  "map_of d k \<noteq> None \<Longrightarrow> dict_keys (dict_set k v d) = dict_keys d"
  by (induction k v d rule: dict_set.induct) (auto simp: dict_keys_def split: if_splits)

lemma dict_set_values: "snd ` set (dict_set k v d) \<subseteq> insert v (snd ` set d)"
  by (induction k v d rule: dict_set.induct) auto

lemma frames_on_machine:
  assumes "\<And>m. machine_inv m \<Longrightarrow> machine_inv (f m)"
  shows "frames (on_machine asset f)"
  unfolding frames_def
proof
  fix fleet
  show "fleet_frame fleet (snd (on_machine asset f fleet))"
  proof (cases "map_of (pl_machines fleet) asset")
    case (Some m)
    then have "m \<in> snd ` set (pl_machines fleet)" by (force dest: map_of_SomeD)
    then have "machine_inv x" if "fleet_ok fleet" "x \<in> snd ` set (dict_set asset (f m) (pl_machines fleet))" for x
      using subsetD [OF dict_set_values that(2)] that(1) assms by (fastforce simp: fleet_ok_def)
    then show ?thesis
      using Some dict_set_known [of "pl_machines fleet" asset "f m"] by (simp add: on_machine_def fleet_frame_def fleet_ok_def)
  qed (simp add: on_machine_def fleet_frame_refl)
qed

lemma frames_on_context: "frames (on_context asset f)"
  unfolding frames_def on_context_def
  by (auto simp: fleet_frame_def fleet_ok_def dict_set_known split: option.splits)

lemma tick_machines_frame:
  assumes "math_ok ml" "tick_machines ml dt ms = (r, ms')"
  shows "dict_keys ms' = dict_keys ms \<and> ((\<forall>m \<in> snd ` set ms. machine_inv m) \<longrightarrow> (\<forall>m \<in> snd ` set ms'. machine_inv m))"
  using assms(2)
proof (induction ms arbitrary: r ms')
  case (Cons e ms)
  obtain asset m where e: "e = (asset, m)" by fastforce
  obtain q m' where t: "machine_tick ml dt m = (q, m')" by fastforce
  have "machine_inv m \<Longrightarrow> machine_inv m'" using command_keeps [OF assms(1), of m "Tick dt"] t by simp
  with Cons t e show ?case by (cases q) (auto simp: dict_keys_def split: prod.splits)
qed (simp add: dict_keys_def)

lemma frames_fleet_tick: "math_ok ml \<Longrightarrow> frames (fleet_tick ml dt)"
  using tick_machines_frame [of ml dt] by (auto simp: frames_def fleet_tick_def fleet_frame_def fleet_ok_def split: prod.splits)

lemma command_invs:
  assumes "machine_inv m"
  shows "machine_inv (set_target_load x m)" "machine_inv (set_cooling_efficiency x m)" "machine_inv (set_fuel_supply_factor x m)"
proof -
  define ml where "ml = \<lparr>ml_exp = \<lambda>x. flit 9 10, ml_sin = \<lambda>x. 0\<rparr>"
  have "math_ok ml" using flit_near [of 9 10] by (simp add: math_ok_def ml_def)
  from command_keeps [OF this assms, of "SetLoad x"] command_keeps [OF this assms, of "SetCooling x"]
    command_keeps [OF this assms, of "SetFuel x"]
  show "machine_inv (set_target_load x m)" "machine_inv (set_cooling_efficiency x m)" "machine_inv (set_fuel_supply_factor x m)"
    by simp_all
qed

lemma frames_set_loads: "frames (set_loads load i assets)"
proof (induction assets arbitrary: i)
  case Nil
  then show ?case by (simp add: frames_def fleet_frame_refl)
next
  case (Cons a assets)
  have "set_loads load i (a # assets) = fleet_bind (on_machine a (set_target_load (load i))) (set_loads load (Suc i) assets)" by auto
  then show ?case using frames_bind [OF frames_on_machine Cons] command_invs by simp
qed

lemma frames_pointwise: "(\<And>fleet. fleet_frame fleet (snd (f fleet))) \<Longrightarrow> frames f"
  by (simp add: frames_def)

lemma frames_normal: "math_ok ml \<Longrightarrow> frames (normal_tick ml p dt)"
  unfolding normal_tick_def
  by (rule frames_bind [OF frames_fleet_tick], assumption, rule frames_pointwise)
    (use frames_set_loads in \<open>auto simp: frames_def fleet_frame_refl Let_def\<close>)

lemma frames_progress: "(\<And>x. frames (f x)) \<Longrightarrow> frames (with_progress elapsed duration f)"
  by (simp add: frames_def with_progress_def fleet_frame_refl)

lemma frames_faults:
  assumes "math_ok ml"
  shows "frames (cooling_tick ml dt t d a b e)" "frames (hydrogen_tick ml dt t d a b e)"
    "frames (sensor_tick ml dt t d b e)" "frames (recovery_tick ml dt t d e)"
  unfolding cooling_tick_def hydrogen_tick_def sensor_tick_def recovery_tick_def
  by (intro frames_bind frames_normal assms frames_progress frames_on_machine frames_on_context command_invs; simp)+

section \<open>A plant that never fails\<close>

text \<open>With positive steps and a target that exists, no tick raises.\<close>

definition succeeds :: "(PlantAlphaFleet \<Rightarrow> unit result \<times> PlantAlphaFleet) \<Rightarrow> string list \<Rightarrow> bool" where
  "succeeds f assets \<longleftrightarrow>
     (\<forall>fleet. dict_keys (pl_machines fleet) = assets \<and> dict_keys (pl_contexts fleet) = assets \<longrightarrow> fst (f fleet) = Ok ())"

lemma succeedsI:
  "(\<And>fleet. dict_keys (pl_machines fleet) = assets \<Longrightarrow> dict_keys (pl_contexts fleet) = assets \<Longrightarrow> fst (f fleet) = Ok ()) \<Longrightarrow> succeeds f assets"
  by (simp add: succeeds_def)

lemma succeedsD:
  "succeeds f assets \<Longrightarrow> dict_keys (pl_machines fleet) = assets \<Longrightarrow> dict_keys (pl_contexts fleet) = assets \<Longrightarrow> fst (f fleet) = Ok ()"
  by (simp add: succeeds_def)

lemma succeeds_bind:
  assumes "succeeds f assets" "frames f" "succeeds g assets"
  shows "succeeds (fleet_bind f g) assets"
proof (rule succeedsI)
  fix fleet :: PlantAlphaFleet
  assume k: "dict_keys (pl_machines fleet) = assets" "dict_keys (pl_contexts fleet) = assets"
  obtain r fleet1 where f: "f fleet = (r, fleet1)" by fastforce
  have "r = Ok ()" using succeedsD [OF assms(1) k] f by simp
  moreover have "fleet_frame fleet fleet1" using assms(2) f unfolding frames_def by (metis snd_conv)
  then have "fst (g fleet1) = Ok ()" using k by (intro succeedsD [OF assms(3)]) (simp_all add: fleet_frame_def)
  ultimately show "fst (fleet_bind f g fleet) = Ok ()" by (simp add: fleet_bind_def f)
qed

lemma known_asset: "a \<in> set (dict_keys d) \<Longrightarrow> \<exists>v. map_of d a = Some v"
  by (cases "map_of d a") (auto simp: dict_keys_def map_of_eq_None_iff)

lemma succeeds_on: "a \<in> set assets \<Longrightarrow> succeeds (on_machine a f) assets" "a \<in> set assets \<Longrightarrow> succeeds (on_context a g) assets"
proof -
  assume a: "a \<in> set assets"
  show "succeeds (on_machine a f) assets"
    by (rule succeedsI) (use a known_asset in \<open>force simp: on_machine_def\<close>)
  show "succeeds (on_context a g) assets"
  proof (rule succeedsI)
    fix fleet :: PlantAlphaFleet assume "dict_keys (pl_contexts fleet) = assets"
    then obtain c where "map_of (pl_contexts fleet) a = Some c" using a known_asset by metis
    then show "fst (on_context a g fleet) = Ok ()" by (simp add: on_context_def)
  qed
qed

lemma succeeds_tick: "0 < dt \<Longrightarrow> succeeds (fleet_tick ml dt) assets"
proof -
  assume dt: "0 < dt"
  have "fst (tick_machines ml dt ms) = Ok ()" for ms
  proof (induction ms)
    case (Cons e ms)
    obtain a m where "e = (a, m)" by fastforce
    moreover obtain r m' where t: "machine_tick ml dt m = (r, m')" by fastforce
    moreover have "r = Ok (machine_state m')" by (rule machine_tick_fields(1) [OF dt t])
    moreover obtain q ms' where "tick_machines ml dt ms = (q, ms')" by fastforce
    ultimately show ?case using Cons by simp
  qed simp
  then show ?thesis by (simp add: succeeds_def fleet_tick_def case_prod_beta)
qed

lemma succeeds_set_loads: "set xs \<subseteq> set assets \<Longrightarrow> succeeds (set_loads load i xs) assets"
proof (induction xs arbitrary: i)
  case (Cons a xs)
  have "set_loads load i (a # xs) = fleet_bind (on_machine a (set_target_load (load i))) (set_loads load (Suc i) xs)" by auto
  moreover have "succeeds \<dots> assets"
    by (rule succeeds_bind [OF succeeds_on(1) frames_on_machine]) (use Cons command_invs in auto)
  ultimately show ?case by simp
qed (simp add: succeeds_def)

lemma succeeds_normal:
  assumes "math_ok ml" "0 < dt" "np_load_period_seconds p \<noteq> 0"
  shows "succeeds (normal_tick ml p dt) assets"
  unfolding normal_tick_def
proof (rule succeeds_bind [OF succeeds_tick frames_fleet_tick], rule assms(2), rule assms(1), rule succeedsI)
  fix fleet :: PlantAlphaFleet
  assume k: "dict_keys (pl_machines fleet) = assets" "dict_keys (pl_contexts fleet) = assets"
  have "fst (set_loads load 0 (dict_keys (pl_machines fleet)) fleet) = Ok ()" for load
    by (rule succeedsD [OF succeeds_set_loads k]) (simp add: k(1))
  then show "fst (if np_load_period_seconds p = 0 then (Err ZeroDivisionError, fleet)
      else let cycle_fraction = fdiv (pl_elapsed fleet) (np_load_period_seconds p);
               phase = fadd (fmul (fmul 2 py_pi) cycle_fraction) (np_load_phase_radians p)
           in set_loads (\<lambda>index. fadd (fadd (np_load_baseline_percent p) (fmul (of_nat index) 2))
                (fmul (np_load_amplitude_percent p) (ml_sin ml (fadd phase (fmul (of_nat index) (flit 4 10))))))
              0 (dict_keys (pl_machines fleet)) fleet) = Ok ()"
    using assms(3) by (simp add: Let_def)
qed

lemma succeeds_progress: "duration \<noteq> 0 \<Longrightarrow> (\<And>x. succeeds (f x) assets) \<Longrightarrow> succeeds (with_progress elapsed duration f) assets"
  by (simp add: succeeds_def with_progress_def)

lemma succeeds_faults:
  assumes "math_ok ml" "0 < dt" "t \<in> set assets" "d \<noteq> 0"
  shows "succeeds (cooling_tick ml dt t d a b e) assets" "succeeds (hydrogen_tick ml dt t d a b e) assets"
    "succeeds (sensor_tick ml dt t d b e) assets" "succeeds (recovery_tick ml dt t d e) assets"
  unfolding cooling_tick_def hydrogen_tick_def sensor_tick_def recovery_tick_def
  by (intro succeeds_bind succeeds_normal frames_normal succeeds_progress succeeds_on frames_on_machine frames_on_context
      command_invs assms; simp add: DEFAULT_PROFILE_def)+

section \<open>The timeline of a script\<close>

fun scenario_name :: "Scenario \<Rightarrow> string" where
  "scenario_name (NormalOperation _) = ''normal_operation''"
| "scenario_name (CoolingDegradation _ _ _ _ _) = ''cooling_degradation''"
| "scenario_name (HydrogenSupplyIssue _ _ _ _ _) = ''hydrogen_supply_issue''"
| "scenario_name (SensorAnomaly _ _ _ _) = ''sensor_anomaly''"
| "scenario_name (Recovery _ _ _) = ''recovery''"

fun scenario_ready :: "string list \<Rightarrow> Scenario \<Rightarrow> bool" where
  "scenario_ready assets (NormalOperation p) \<longleftrightarrow> np_load_period_seconds p \<noteq> 0"
| "scenario_ready assets (CoolingDegradation t d _ _ _) \<longleftrightarrow> t \<in> set assets \<and> d \<noteq> 0"
| "scenario_ready assets (HydrogenSupplyIssue t d _ _ _) \<longleftrightarrow> t \<in> set assets \<and> d \<noteq> 0"
| "scenario_ready assets (SensorAnomaly t d _ _) \<longleftrightarrow> t \<in> set assets \<and> d \<noteq> 0"
| "scenario_ready assets (Recovery t d _) \<longleftrightarrow> t \<in> set assets \<and> d \<noteq> 0"

text \<open>A tick is one operation on the fleet.\<close>

lemma scenario_tick_as_operation:
  assumes "math_ok ml"
  obtains f s' where "frames f" "\<And>fleet. scenario_tick ml dt s fleet = (fst (f fleet), s', snd (f fleet))"
    "scenario_name s' = scenario_name s"
    "\<And>assets. 0 < dt \<Longrightarrow> scenario_ready assets s \<Longrightarrow> succeeds f assets \<and> scenario_ready assets s'"
proof -
  note frame = frames_normal [OF assms] frames_faults [OF assms]
  note ok = succeeds_normal [OF assms] succeeds_faults [OF assms]
  show thesis
  proof (cases s)
    case (NormalOperation p)
    show thesis by (rule that [of "normal_tick ml p dt" s]) (simp_all add: NormalOperation frame ok case_prod_beta)
  next
    case (CoolingDegradation t d a b e)
    show thesis
      by (rule that [of "cooling_tick ml dt t d a b (fadd e dt)" "CoolingDegradation t d a b (fadd e dt)"])
        (simp_all add: CoolingDegradation frame ok case_prod_beta Let_def)
  next
    case (HydrogenSupplyIssue t d a b e)
    show thesis
      by (rule that [of "hydrogen_tick ml dt t d a b (fadd e dt)" "HydrogenSupplyIssue t d a b (fadd e dt)"])
        (simp_all add: HydrogenSupplyIssue frame ok case_prod_beta Let_def)
  next
    case (SensorAnomaly t d b e)
    show thesis
      by (rule that [of "sensor_tick ml dt t d b (fadd e dt)" "SensorAnomaly t d b (fadd e dt)"])
        (simp_all add: SensorAnomaly frame ok case_prod_beta Let_def)
  next
    case (Recovery t d e)
    show thesis
      by (rule that [of "recovery_tick ml dt t d (fadd e dt)" "Recovery t d (fadd e dt)"])
        (simp_all add: Recovery frame ok case_prod_beta Let_def)
  qed
qed

lemma scenario_tick_ready:
  assumes "math_ok ml" "0 < dt" "scenario_ready assets s"
    and "dict_keys (pl_machines fleet) = assets" "dict_keys (pl_contexts fleet) = assets"
  obtains s' fleet' where "scenario_tick ml dt s fleet = (Ok (), s', fleet')" "scenario_ready assets s'"
    "scenario_name s' = scenario_name s" "dict_keys (pl_machines fleet') = assets" "dict_keys (pl_contexts fleet') = assets"
proof -
  obtain f s' where f: "frames f" "\<And>fleet. scenario_tick ml dt s fleet = (fst (f fleet), s', snd (f fleet))"
    "scenario_name s' = scenario_name s"
    "\<And>assets. 0 < dt \<Longrightarrow> scenario_ready assets s \<Longrightarrow> succeeds f assets \<and> scenario_ready assets s'"
    using scenario_tick_as_operation [OF assms(1)] by metis
  have "fst (f fleet) = Ok ()" using succeedsD [OF _ assms(4,5)] f(4) [OF assms(2,3)] by blast
  moreover have "fleet_frame fleet (snd (f fleet))" using f(1) by (simp add: frames_def)
  ultimately show ?thesis using that [of s' "snd (f fleet)"] f(2,3) f(4) [OF assms(2,3)] assms(4,5) by (simp add: fleet_frame_def)
qed

lemma scenario_tick_frame:
  assumes "math_ok ml"
  shows "fleet_frame fleet (snd (snd (scenario_tick ml dt s fleet)))"
proof -
  obtain f s' where f: "frames f" "\<And>fleet. scenario_tick ml dt s fleet = (fst (f fleet), s', snd (f fleet))"
    using scenario_tick_as_operation [OF assms, of dt s] by metis
  then show ?thesis by (simp add: frames_def)
qed

lemma script_tick_fleet: "snd (snd (script_tick ml dt s)) = snd (snd (scenario_tick ml dt (sr_active (fst s)) (snd s)))"
  by (simp add: script_tick_def Let_def split: prod.split sum.split)

text \<open>Where a clock of ticks stands in a list of phase lengths, and for how long.\<close>

fun phase_at :: "nat list \<Rightarrow> nat \<Rightarrow> nat" where
  "phase_at (t # u # ts) k = (if k < t then 0 else Suc (phase_at (u # ts) (k - t)))"
| "phase_at ts k = 0"

fun phase_time :: "nat list \<Rightarrow> nat \<Rightarrow> nat" where
  "phase_time (t # u # ts) k = (if k < t then k else phase_time (u # ts) (k - t))"
| "phase_time ts k = k"

lemma phase_at_bounds: "ts \<noteq> [] \<Longrightarrow> phase_at ts k < length ts" "phase_time ts k \<le> k"
  by (induction ts k rule: phase_at.induct) auto

lemma phase_at_zero: "\<forall>t \<in> set ts. 1 \<le> t \<Longrightarrow> phase_at ts 0 = 0 \<and> phase_time ts 0 = 0"
  by (cases "(ts, 0 :: nat)" rule: phase_at.cases) auto

lemma phase_at_Suc:
  assumes "ts \<noteq> []" "\<forall>t \<in> set ts. 1 \<le> t"
  defines "stays k \<equiv> Suc (phase_time ts k) < ts ! phase_at ts k \<or> length ts - 1 \<le> phase_at ts k"
  shows "phase_at ts (Suc k) = (if stays k then phase_at ts k else Suc (phase_at ts k)) \<and>
    phase_time ts (Suc k) = (if stays k then Suc (phase_time ts k) else 0)"
  using assms(1,2) unfolding stays_def
proof (induction ts k rule: phase_at.induct)
  case (1 t u ts k)
  show ?case
  proof (cases "k < t")
    case True
    then show ?thesis using 1(3) phase_at_zero [of "u # ts"] by (cases "Suc k < t") (auto simp: le_Suc_eq)
  next
    case False
    then show ?thesis using 1(1) 1(3) by (simp add: Suc_diff_le)
  qed
qed simp_all

text \<open>Phases of a whole number of seconds that name a scenario and an asset of the plant.\<close>

definition phase_fine :: "string list \<Rightarrow> ScenarioPhase \<Rightarrow> bool" where
  "phase_fine assets p \<longleftrightarrow>
     sp_name p \<in> {''normal_operation'', ''cooling_degradation'', ''hydrogen_supply_issue'', ''sensor_anomaly'', ''recovery''} \<and>
     sp_target_asset_id p \<in> set assets \<and> (\<exists>n \<ge> 1. sp_duration_sim_seconds p = of_int n)"

definition phase_ticks :: "int \<Rightarrow> ScenarioPhase \<Rightarrow> nat" where
  "phase_ticks d p = nat \<lceil>sp_duration_sim_seconds p / of_int d\<rceil>"

lemma build_phase_fine:
  assumes "phase_fine assets p"
  obtains s where "build_phase p = Ok s" "scenario_ready assets s" "scenario_name s = sp_name p"
  using assms by (auto simp: phase_fine_def build_phase_def Let_def DEFAULT_PROFILE_def cooling_degradation_def
      hydrogen_supply_issue_def sensor_anomaly_def recovery_scenario_def)

lemma phase_ticks_less:
  assumes "phase_fine assets p" "1 \<le> d"
  shows "1 \<le> phase_ticks d p" "(of_int (d * int t) :: rat) < sp_duration_sim_seconds p \<longleftrightarrow> t < phase_ticks d p"
proof -
  obtain n where n: "1 \<le> n" "sp_duration_sim_seconds p = of_int n" using assms(1) by (auto simp: phase_fine_def)
  have "0 < \<lceil>of_int n / (of_int d :: rat)\<rceil>" using n(1) assms(2) by simp
  then show "1 \<le> phase_ticks d p" unfolding phase_ticks_def n(2) by linarith
  have "(of_int (d * int t) :: rat) < of_int n \<longleftrightarrow> of_int (int t) < of_int n / (of_int d :: rat)"
    using assms(2) by (simp add: pos_less_divide_eq mult.commute)
  also have "\<dots> \<longleftrightarrow> int t < \<lceil>of_int n / (of_int d :: rat)\<rceil>" by (simp add: less_ceiling_iff)
  also have "\<dots> \<longleftrightarrow> t < phase_ticks d p" by (simp add: phase_ticks_def n(2) zless_nat_eq_int_zless)
  finally show "(of_int (d * int t) :: rat) < sp_duration_sim_seconds p \<longleftrightarrow> t < phase_ticks d p" by (simp add: n(2))
qed

definition on_schedule :: "string list \<Rightarrow> int \<Rightarrow> ScenarioPhase list \<Rightarrow> nat \<Rightarrow> ScenarioScriptRunner \<times> PlantAlphaFleet \<Rightarrow> bool" where
  "on_schedule assets d phases k s \<longleftrightarrow>
     sr_phases (fst s) = phases \<and> sr_phase_index (fst s) = phase_at (map (phase_ticks d) phases) k \<and>
     sr_phase_elapsed (fst s) = of_int (d * int (phase_time (map (phase_ticks d) phases) k)) \<and>
     scenario_ready assets (sr_active (fst s)) \<and>
     scenario_name (sr_active (fst s)) = sp_name (phases ! sr_phase_index (fst s)) \<and>
     dict_keys (pl_machines (snd s)) = assets \<and> dict_keys (pl_contexts (snd s)) = assets"

lemma script_tick_schedule:
  assumes ml: "math_ok ml" and d: "1 \<le> d" and fine: "\<forall>p \<in> set phases. phase_fine assets p" "phases \<noteq> []"
    and at: "on_schedule assets d phases k s" and small: "d * int (Suc k) \<le> 2 ^ 53"
  shows "\<exists>s'. script_tick ml (of_int d) s = (Ok (), s') \<and> on_schedule assets d phases (Suc k) s'"
proof -
  obtain sr fleet where s: "s = (sr, fleet)" by fastforce
  let ?ts = "map (phase_ticks d) phases"
  let ?i = "phase_at ?ts k" and ?t = "phase_time ?ts k"
  note at = at [unfolded on_schedule_def s fst_conv snd_conv]
  have dt: "0 < (of_int d :: rat)" using d by simp
  have ready: "scenario_ready assets (sr_active sr)" "dict_keys (pl_machines fleet) = assets" "dict_keys (pl_contexts fleet) = assets"
    using at by simp_all
  obtain active fleet' where tick: "scenario_tick ml (of_int d) (sr_active sr) fleet = (Ok (), active, fleet')"
    "scenario_ready assets active" "scenario_name active = scenario_name (sr_active sr)"
    "dict_keys (pl_machines fleet') = assets" "dict_keys (pl_contexts fleet') = assets"
    by (rule scenario_tick_ready [OF ml dt ready])
  have i: "?i < length phases" using phase_at_bounds(1) [of ?ts k] fine(2) by simp
  have ones: "\<forall>t \<in> set ?ts. 1 \<le> t" using phase_ticks_less(1) [OF _ d] fine(1) by auto
  have "int (Suc ?t) \<le> int (Suc k)" using phase_at_bounds(2) [of ?ts k] by simp
  then have "d * int (Suc ?t) \<le> d * int (Suc k)" using d by (intro mult_left_mono) simp_all
  then have "d * int (Suc ?t) \<le> 2 ^ 53" using small by (rule order_trans)
  moreover have "0 \<le> d * int (Suc ?t)" using d by simp
  ultimately have bound: "\<bar>d * int (Suc ?t)\<bar> \<le> 2 ^ 53" by simp
  then have elapsed: "fadd (sr_phase_elapsed sr) (of_int d) = of_int (d * int (Suc ?t))"
    using at fl_of_int [OF bound] by (simp add: fadd_def algebra_simps)
  have less: "(of_int (d * int (Suc ?t)) :: rat) < sp_duration_sim_seconds (phases ! ?i) \<longleftrightarrow> Suc ?t < ?ts ! ?i"
    using phase_ticks_less(2) [OF _ d, of assets "phases ! ?i" "Suc ?t"] fine(1) i by simp
  note upd = phase_at_Suc [OF _ ones, of k, simplified length_map]
  show ?thesis
  proof (cases "Suc ?t < ?ts ! ?i \<or> length phases - 1 \<le> ?i")
    case True
    then show ?thesis
      using upd fine(2) at tick less elapsed unfolding s script_tick_def
      by (auto simp: advance_phase_def Let_def on_schedule_def)
  next
    case False
    then have "\<not> length phases - 1 \<le> ?i" by blast
    then have "Suc ?i < length phases" by linarith
    then obtain s2 where "build_phase (phases ! Suc ?i) = Ok s2" "scenario_ready assets s2" "scenario_name s2 = sp_name (phases ! Suc ?i)"
      using build_phase_fine fine(1) nth_mem by metis
    then show ?thesis
      using False upd fine(2) at tick less elapsed unfolding s script_tick_def
      by (auto simp: advance_phase_def Let_def on_schedule_def)
  qed
qed

section \<open>Created fleets\<close>

definition overrides_ok :: "rat \<Rightarrow> rat \<Rightarrow> (string, pyfloat) dict \<Rightarrow> bool" where
  "overrides_ok lo hi d \<longleftrightarrow> (\<forall>x \<in> snd ` set d. is_float x \<and> lo \<le> x \<and> x \<le> hi)"

lemma override_value:
  fixes a :: string
  assumes "overrides_ok lo hi d" "is_float y" "lo \<le> y" "y \<le> hi"
  defines "x \<equiv> (case map_of d a of Some x \<Rightarrow> x | None \<Rightarrow> y)"
  shows "is_float x" "lo \<le> x" "x \<le> hi"
proof -
  have "is_float z \<and> lo \<le> z \<and> z \<le> hi" if "map_of d a = Some z" for z
    using assms(1) map_of_SomeD [OF that] by (force simp: overrides_ok_def)
  then show "is_float x" "lo \<le> x" "x \<le> hi" using assms(2-4) unfolding x_def by (auto split: option.splits)
qed

lemma fleet_machine_inv:
  assumes "overrides_ok 0 100 loads" "overrides_ok (53 :: rat) 79 temperatures"
  shows "machine_inv (fleet_machine loads temperatures a)"
proof -
  define m where "m = mk_machine a (case map_of loads a of Some x \<Rightarrow> x | None \<Rightarrow> 50) (case map_of temperatures a of Some x \<Rightarrow> x | None \<Rightarrow> 65)"
  have "in_ratings m" "fm_operating_mode m = RUNNING"
    using override_value [OF assms(1), of 50 a] override_value [OF assms(2), of 65 a] four_tenths flit_near [of 85 100] flit_near [of 76 100]
    by (simp_all add: m_def in_ratings_def mk_machine_def kept_in_def)
  then have "machine_inv (set_target_load x m)" for x
    using clamp_between [of 0 100 x] by (simp add: machine_inv_def in_ratings_def mode_ok_def set_target_load_def Let_def)
  then show ?thesis unfolding fleet_machine_def m_def [symmetric] Let_def by (simp add: command_invs split: prod.split)
qed

lemma dict_keys_set_snoc: "dict_keys (dict_set k v d) = (if k \<in> set (dict_keys d) then dict_keys d else dict_keys d @ [k])"
  by (induction k v d rule: dict_set.induct) (auto simp: dict_keys_def)

lemma fleet_create_ok:
  fixes run :: string and assets :: "string list"
  assumes "overrides_ok 0 100 loads" "overrides_ok 53 79 temperatures"
  defines "fleet \<equiv> fleet_create run assets loads temperatures"
  shows "fleet_ok fleet" "set (dict_keys (pl_machines fleet)) = set assets" "dict_keys (pl_contexts fleet) = dict_keys (pl_machines fleet)"
    "distinct assets \<Longrightarrow> dict_keys (pl_machines fleet) = assets"
proof -
  let ?step = "\<lambda>asset fleet. fleet\<lparr>pl_machines := dict_set asset (fleet_machine loads temperatures asset) (pl_machines fleet),
      pl_contexts := dict_set asset \<lparr>tc_run_id = run, tc_sensor_bias = []\<rparr> (pl_contexts fleet)\<rparr>"
  let ?start = "\<lparr>pl_machines = [], pl_contexts = [], pl_elapsed = 0\<rparr> :: PlantAlphaFleet"
  have "fleet_ok (fold ?step assets ?start) \<and> set (dict_keys (pl_machines (fold ?step assets ?start))) = set assets \<and>
      dict_keys (pl_contexts (fold ?step assets ?start)) = dict_keys (pl_machines (fold ?step assets ?start)) \<and>
      (distinct assets \<longrightarrow> dict_keys (pl_machines (fold ?step assets ?start)) = assets)"
  proof (induction assets rule: rev_induct)
    case Nil
    then show ?case by (simp add: fleet_ok_def dict_keys_def)
  next
    case (snoc a assets)
    define f where "f = fold ?step assets ?start"
    have "machine_inv x" if "x \<in> snd ` set (dict_set a (fleet_machine loads temperatures a) (pl_machines f))" for x
      using subsetD [OF dict_set_values that] snoc fleet_machine_inv [OF assms(1,2)] by (fastforce simp: fleet_ok_def f_def)
    then show ?case using snoc by (auto simp: fleet_ok_def dict_keys_set_snoc f_def [symmetric])
  qed
  then show "fleet_ok fleet" "set (dict_keys (pl_machines fleet)) = set assets" "dict_keys (pl_contexts fleet) = dict_keys (pl_machines fleet)"
    "distinct assets \<Longrightarrow> dict_keys (pl_machines fleet) = assets"
    by (simp_all add: fleet_def fleet_create_def)
qed

section \<open>Properties\<close>

text \<open>The simulator ticks a scenario or a script.\<close>

definition plant_tick ::
    "MathLib \<Rightarrow> pyfloat \<Rightarrow> (Scenario + ScenarioScriptRunner) \<times> PlantAlphaFleet \<Rightarrow>
     unit result \<times> (Scenario + ScenarioScriptRunner) \<times> PlantAlphaFleet" where
  "plant_tick ml dt s =
     (case fst s of
        Inl scenario \<Rightarrow> (case scenario_tick ml dt scenario (snd s) of (r, scenario', fleet) \<Rightarrow> (r, Inl scenario', fleet))
      | Inr sr \<Rightarrow> (case script_tick ml dt (sr, snd s) of (r, sr', fleet) \<Rightarrow> (r, Inr sr', fleet)))"

lemma plant_tick_frame:
  assumes "math_ok ml"
  shows "fleet_frame (snd s) (snd (snd (plant_tick ml dt s)))"
proof (cases "fst s")
  case (Inl scenario)
  then show ?thesis using scenario_tick_frame [OF assms] by (simp add: plant_tick_def case_prod_beta)
next
  case (Inr sr)
  then show ?thesis
    using scenario_tick_frame [OF assms] script_tick_fleet [of ml dt "(sr, snd s)"] by (simp add: plant_tick_def case_prod_beta)
qed

text \<open>
  C10. The plant stays within its ratings: whichever scenario or script drives a fleet, however it was
  created within the permitted initial loads and temperatures, with whatever steps and however many, also
  when ticks raise, every stack of it keeps its load, current, cell voltage, temperature, pressure and flows
  in range and ramps exactly while off its setpoint, and the fleet keeps its assets.
\<close>

theorem plant_stays_in_ratings:
  fixes ml :: MathLib and dts :: "pyfloat list" and run :: string and assets :: "string list"
  assumes "math_ok ml" "build_scenario name = Ok s" "overrides_ok 0 100 loads" "overrides_ok 53 79 temperatures"
  defines "fleet \<equiv> snd (fold (\<lambda>dt s. snd (plant_tick ml dt s)) dts (s, fleet_create run assets loads temperatures))"
  shows "set (dict_keys (pl_machines fleet)) = set assets \<and>
    (\<forall>(asset, m) \<in> set (pl_machines fleet).
       about 0 100 (fm_load m) \<and> about 0 200 (fm_current m) \<and> about (658 / 1000) (782 / 1000) (fm_voltage m) \<and>
       about (5285 / 100) (7915 / 100) (fm_stack_temperature m) \<and> about (150225 / 1000) (163775 / 1000) (fm_stack_pressure m) \<and>
       about (6 / 10) (25 / 10) (fm_hydrogen_flow m) \<and> about (24 / 10) 10 (fm_air_flow m) \<and>
       fm_operating_mode m \<noteq> IDLE \<and>
       (fm_operating_mode m = RAMPING \<longleftrightarrow> 1 < \<bar>fsub (fm_target_load m) (fm_load m)\<bar>))"
proof -
  have "fleet_frame (snd s0) (snd (fold (\<lambda>dt s. snd (plant_tick ml dt s)) dts s0))" for s0
  proof (induction dts arbitrary: s0)
    case (Cons dt dts)
    from fleet_frame_trans [OF plant_tick_frame [OF assms(1)] Cons.IH] show ?case by simp
  qed (simp add: fleet_frame_refl)
  from this [of "(s, fleet_create run assets loads temperatures)"]
  have frame: "fleet_frame (fleet_create run assets loads temperatures) fleet" unfolding fleet_def snd_conv .
  note created = fleet_create_ok [OF assms(3,4), where run = run and assets = assets]
  have inv: "machine_inv (snd e)" if "e \<in> set (pl_machines fleet)" for e
    using frame created(1) that by (simp add: fleet_frame_def fleet_ok_def)
  show ?thesis
  proof (intro conjI ballI)
    show "set (dict_keys (pl_machines fleet)) = set assets" using frame created(2) by (simp add: fleet_frame_def)
    fix e assume mem: "e \<in> set (pl_machines fleet)"
    obtain asset m where e: "e = (asset, m)" by fastforce
    have m: "machine_inv m" using inv [OF mem] e by simp
    show "case e of (asset, m) \<Rightarrow>
       about 0 100 (fm_load m) \<and> about 0 200 (fm_current m) \<and> about (658 / 1000) (782 / 1000) (fm_voltage m) \<and>
       about (5285 / 100) (7915 / 100) (fm_stack_temperature m) \<and> about (150225 / 1000) (163775 / 1000) (fm_stack_pressure m) \<and>
       about (6 / 10) (25 / 10) (fm_hydrogen_flow m) \<and> about (24 / 10) 10 (fm_air_flow m) \<and>
       fm_operating_mode m \<noteq> IDLE \<and>
       (fm_operating_mode m = RAMPING \<longleftrightarrow> 1 < \<bar>fsub (fm_target_load m) (fm_load m)\<bar>)"
      unfolding e prod.case by (intro conjI machine_inv_about [OF m])
  qed
qed

theorem plant_stays_in_ratings_witness:
  "\<exists>m. (''fuel-cell-stack-01'', m) \<in> set (pl_machines (snd (fold (\<lambda>dt s. snd (plant_tick demo_math dt s)) [90, 90, 0, 90]
       (Inl (NormalOperation DEFAULT_PROFILE), fleet_create ''run'' DEFAULT_ASSET_IDS [] [])))) \<and> about 0 200 (fm_current m)"
proof -
  have b: "build_scenario ''normal_operation'' = Ok (Inl (NormalOperation DEFAULT_PROFILE))" by (simp add: build_scenario_def Let_def)
  have o: "overrides_ok lo hi []" for lo hi by (simp add: overrides_ok_def)
  note t = plant_stays_in_ratings [OF demo_math_ok(1) b o o, where run = "''run''" and assets = DEFAULT_ASSET_IDS and dts = "[90, 90, 0, 90]"]
  then have "''fuel-cell-stack-01'' \<in> fst ` set (pl_machines (snd (fold (\<lambda>dt s. snd (plant_tick demo_math dt s)) [90, 90, 0, 90]
       (Inl (NormalOperation DEFAULT_PROFILE), fleet_create ''run'' DEFAULT_ASSET_IDS [] []))))"
    by (simp add: dict_keys_def DEFAULT_ASSET_IDS_def)
  then obtain m where "(''fuel-cell-stack-01'', m) \<in> set (pl_machines (snd (fold (\<lambda>dt s. snd (plant_tick demo_math dt s)) [90, 90, 0, 90]
       (Inl (NormalOperation DEFAULT_PROFILE), fleet_create ''run'' DEFAULT_ASSET_IDS [] []))))" by force
  with t show ?thesis by fast
qed

text \<open>
  C21. A script keeps its timetable: ticked with a step of a whole number of seconds, a script of phases of
  whole seconds over the assets of the fleet never raises, and after any number of ticks it is in the phase,
  and as far into it, as its durations, rounded up to steps, say; the last phase holds.
\<close>

theorem script_keeps_timetable:
  fixes ml :: MathLib and d :: int and k :: nat
  assumes ml: "math_ok ml" and d: "1 \<le> d" "d * int k \<le> 2 ^ 53"
    and fine: "phases \<noteq> []" "\<forall>p \<in> set phases. phase_fine assets p" "distinct assets"
    and made: "mk_script_runner script phases = Ok sr"
  defines "ts \<equiv> map (phase_ticks d) phases"
  shows "\<exists>sr' fleet. op_run (\<lambda>_. script_tick ml (of_int d)) (replicate k ()) (sr, fleet_create run assets [] []) =
      (replicate k (Ok ()), sr', fleet) \<and>
    sr_phase_index sr' = phase_at ts k \<and> sr_phase_elapsed sr' = of_int (d * int (phase_time ts k)) \<and>
    scenario_name (sr_active sr') = sp_name (phases ! phase_at ts k)"
proof -
  define fleet0 where "fleet0 = fleet_create run assets [] []"
  have o: "overrides_ok lo hi []" for lo hi by (simp add: overrides_ok_def)
  note created = fleet_create_ok [OF o o, where run = run and assets = assets]
  have keys: "dict_keys (pl_machines fleet0) = assets" "dict_keys (pl_contexts fleet0) = assets"
    using created(3) created(4) [OF fine(3)] by (simp_all add: fleet0_def)
  have ones: "\<forall>t \<in> set ts. 1 \<le> t" using phase_ticks_less(1) [OF _ d(1)] fine(2) by (auto simp: ts_def)
  have sr: "build_phase (hd phases) = Ok (sr_active sr)" "sr_phases sr = phases" "sr_phase_index sr = 0" "sr_phase_elapsed sr = 0"
    using made fine(1) by (auto simp: mk_script_runner_def res_bind_Ok_iff split: list.splits)
  obtain s where s: "build_phase (hd phases) = Ok s" "scenario_ready assets s" "scenario_name s = sp_name (hd phases)"
    using build_phase_fine fine(1,2) by (metis hd_in_set)
  have start: "on_schedule assets d phases 0 (sr, fleet0)"
    using phase_at_zero [OF ones] sr s keys fine(1) by (simp add: on_schedule_def ts_def hd_conv_nth)
  have "\<exists>s'. op_run (\<lambda>_. script_tick ml (of_int d)) (replicate j ()) s0 = (replicate j (Ok ()), s') \<and> on_schedule assets d phases (i + j) s'"
    if "on_schedule assets d phases i s0" "d * int (i + j) \<le> 2 ^ 53" for i j s0
    using that
  proof (induction j arbitrary: i s0)
    case (Suc j)
    have "d * int (Suc i) \<le> d * int (i + Suc j)" using d(1) by (intro mult_left_mono) simp_all
    with Suc.prems(2) have "d * int (Suc i) \<le> 2 ^ 53" by linarith
    then obtain s1 where s1: "script_tick ml (of_int d) s0 = (Ok (), s1)" "on_schedule assets d phases (Suc i) s1"
      using script_tick_schedule [OF ml d(1) fine(2,1) Suc.prems(1)] by blast
    from Suc.IH [OF s1(2)] Suc.prems(2) obtain s2 where
      "op_run (\<lambda>_. script_tick ml (of_int d)) (replicate j ()) s1 = (replicate j (Ok ()), s2)" "on_schedule assets d phases (Suc i + j) s2"
      by auto
    then show ?case using s1(1) by simp
  qed auto
  from this [OF start, of k] d(2) obtain s' where
    "op_run (\<lambda>_. script_tick ml (of_int d)) (replicate k ()) (sr, fleet0) = (replicate k (Ok ()), s')" "on_schedule assets d phases k s'"
    by auto
  then show ?thesis unfolding fleet0_def [symmetric]
    by (intro exI [of _ "fst s'"] exI [of _ "snd s'"]) (simp add: on_schedule_def ts_def)
qed

text \<open>
  C31. A recovery begins with a fault: its first tick sets the targets of cooling and fuel supply of its
  stack close to the end of a degradation, whatever they were, so that a stack that was healthy, like the
  one a sensor anomaly was simulated on, is degraded first.
\<close>

theorem recovery_degrades_healthy_stack:
  fixes ml :: MathLib and fleet :: PlantAlphaFleet
  assumes "math_ok ml" "0 < dt" "10 * dt \<le> duration" "target \<in> set (dict_keys (pl_machines fleet))"
    and "dict_keys (pl_contexts fleet) = dict_keys (pl_machines fleet)" "is_float dt"
  shows "\<exists>s' fleet' m. scenario_tick ml dt (recovery_scenario target duration) fleet = (Ok (), s', fleet') \<and>
    map_of (pl_machines fleet') target = Some m \<and>
    fm_target_cooling_efficiency m \<le> 6 / 10 \<and> fm_target_fuel_supply_factor m \<le> 65 / 100"
proof -
  define p where "p = min 1 (fdiv dt duration)"
  have "0 < duration" using assms(2,3) by linarith
  then have "0 \<le> dt / duration" "dt / duration \<le> 1 / 10" using assms(2,3) by (simp_all add: field_simps)
  then have p: "0 \<le> p" "p \<le> 1 / 10 + 1 / 1000000000000"
    using fl_between [of 0 "dt / duration" "1 / 10"] fl.rnd_nonneg by (simp_all add: p_def fdiv_def min_le_iff_disj)
  have period: "np_load_period_seconds DEFAULT_PROFILE \<noteq> 0" by (simp add: DEFAULT_PROFILE_def)
  obtain r fleet1 where n: "normal_tick ml DEFAULT_PROFILE dt fleet = (r, fleet1)" by fastforce
  have r: "r = Ok ()" using succeedsD [OF succeeds_normal [OF assms(1,2) period] refl assms(5)] n by simp
  have "fleet_frame fleet fleet1" using frames_normal [OF assms(1)] n unfolding frames_def by (metis snd_conv)
  then obtain m c where m: "map_of (pl_machines fleet1) target = Some m" and c: "map_of (pl_contexts fleet1) target = Some c"
    using assms(4,5) known_asset [of target "pl_machines fleet1"] known_asset [of target "pl_contexts fleet1"]
    by (auto simp: fleet_frame_def)
  define m' where "m' = set_fuel_supply_factor (fadd (flit 6 10) (fmul (fsub 1 (flit 6 10)) p))
    (set_cooling_efficiency (fadd (flit 55 100) (fmul (fsub (flit 85 100) (flit 55 100)) p)) m)"
  have one: "fadd 0 dt = dt" using assms(6) by (simp add: fadd_def is_float_def)
  have "\<exists>s' fleet'. scenario_tick ml dt (recovery_scenario target duration) fleet = (Ok (), s', fleet') \<and>
      map_of (pl_machines fleet') target = Some m'"
    using \<open>0 < duration\<close> m c
    by (simp add: recovery_scenario_def recovery_tick_def fleet_bind_def n r with_progress_def on_machine_def on_context_def
        one m'_def p_def [symmetric])
  moreover have lits: "flit 55 100 \<le> 55 / 100 + 1 / 1000000000000" "55 / 100 - 1 / 1000000000000 \<le> flit 55 100"
    "flit 85 100 \<le> 85 / 100 + 1 / 1000000000000" "85 / 100 - 1 / 1000000000000 \<le> flit 85 100"
    "flit 6 10 \<le> 6 / 10 + 1 / 1000000000000" "6 / 10 - 1 / 1000000000000 \<le> flit 6 10"
    using flit_near [of 55 100] flit_near [of 85 100] flit_near [of 6 10] by simp_all
  have gap: "29 / 100 \<le> fsub (flit 85 100) (flit 55 100)" "fsub (flit 85 100) (flit 55 100) \<le> 30 / 100 + 1 / 100000"
    "39 / 100 \<le> fsub 1 (flit 6 10)" "fsub 1 (flit 6 10) \<le> 40 / 100 + 1 / 100000"
    using fl_between [of "295 / 1000" "flit 85 100 - flit 55 100" "30 / 100 + 1 / 1000000"]
      fl_between [of "395 / 1000" "1 - flit 6 10" "40 / 100 + 1 / 1000000"] lits by (simp_all add: fsub_def)
  have "fsub (flit 85 100) (flit 55 100) * p \<le> (30 / 100 + 1 / 100000) * (1 / 10 + 1 / 1000000000000)"
    "fsub 1 (flit 6 10) * p \<le> (40 / 100 + 1 / 100000) * (1 / 10 + 1 / 1000000000000)"
    "0 \<le> fsub (flit 85 100) (flit 55 100) * p" "0 \<le> fsub 1 (flit 6 10) * p"
    by (intro mult_mono mult_nonneg_nonneg; use gap p in linarith)+
  then have step: "fmul (fsub (flit 85 100) (flit 55 100)) p \<le> 31 / 1000" "fmul (fsub 1 (flit 6 10)) p \<le> 41 / 1000"
    "0 \<le> fmul (fsub (flit 85 100) (flit 55 100)) p" "0 \<le> fmul (fsub 1 (flit 6 10)) p"
    using fl_between [of 0 "fsub (flit 85 100) (flit 55 100) * p" "305 / 10000"] fl_between [of 0 "fsub 1 (flit 6 10) * p" "405 / 10000"]
      fl.rnd_nonneg by (simp_all add: fmul_def)
  have "fadd (flit 55 100) (fmul (fsub (flit 85 100) (flit 55 100)) p) \<le> 6 / 10" "fadd (flit 6 10) (fmul (fsub 1 (flit 6 10)) p) \<le> 65 / 100"
    using fl_between [of 0 "flit 55 100 + fmul (fsub (flit 85 100) (flit 55 100)) p" "59 / 100"]
      fl_between [of 0 "flit 6 10 + fmul (fsub 1 (flit 6 10)) p" "645 / 1000"] step lits by (simp_all add: fadd_def)
  then have "fm_target_cooling_efficiency m' \<le> 6 / 10 \<and> fm_target_fuel_supply_factor m' \<le> 65 / 100"
    using four_tenths by (simp add: m'_def set_cooling_efficiency_def set_fuel_supply_factor_def clamp_def max_def min_def)
  ultimately show ?thesis by blast
qed

lemma demo_script:
  "PRESENTATION_PHASES \<noteq> []" "\<forall>p \<in> set PRESENTATION_PHASES. phase_fine DEFAULT_ASSET_IDS p" "distinct DEFAULT_ASSET_IDS"
  "\<exists>sr. mk_script_runner ''demo_presentation'' PRESENTATION_PHASES = Ok sr"
proof -
  have whole: "(\<exists>n \<ge> 1. (numeral m :: rat) = of_int n)" for m by (rule exI [of _ "numeral m"]) simp
  show "PRESENTATION_PHASES \<noteq> []" "\<forall>p \<in> set PRESENTATION_PHASES. phase_fine DEFAULT_ASSET_IDS p" "distinct DEFAULT_ASSET_IDS"
    "\<exists>sr. mk_script_runner ''demo_presentation'' PRESENTATION_PHASES = Ok sr"
    using whole
    by (auto simp: PRESENTATION_PHASES_def phase_def phase_fine_def DEFAULT_ASSET_IDS_def mk_script_runner_def build_phase_def Let_def)
qed

theorem script_keeps_timetable_witness:
  "\<exists>sr sr' fleet. mk_script_runner ''demo_presentation'' PRESENTATION_PHASES = Ok sr \<and>
     op_run (\<lambda>_. script_tick demo_math 90) (replicate 15 ()) (sr, fleet_create ''run'' DEFAULT_ASSET_IDS [] []) =
       (replicate 15 (Ok ()), sr', fleet) \<and> sr_phase_index sr' = 2 \<and> scenario_name (sr_active sr') = ''recovery''"
proof -
  obtain sr where sr: "mk_script_runner ''demo_presentation'' PRESENTATION_PHASES = Ok sr" using demo_script(4) by blast
  have ts: "map (phase_ticks 90) PRESENTATION_PHASES = [3, 12, 25]"
    by (simp add: PRESENTATION_PHASES_def phase_def phase_ticks_def)
  have "phase_at [3, 12, 25] 15 = 2" by simp
  moreover have "sp_name (PRESENTATION_PHASES ! 2) = ''recovery''" by (simp add: PRESENTATION_PHASES_def phase_def)
  ultimately show ?thesis
    using script_keeps_timetable [OF demo_math_ok(1) _ _ demo_script(1-3) sr, of 90 15 "''run''"] sr by (auto simp: ts simp del: phase_at.simps)
qed

theorem recovery_degrades_healthy_stack_witness:
  "\<exists>s' fleet' m. scenario_tick demo_math 90 (recovery_scenario ''fuel-cell-stack-02'' 1800) (fleet_create ''run'' DEFAULT_ASSET_IDS [] []) =
       (Ok (), s', fleet') \<and> map_of (pl_machines fleet') ''fuel-cell-stack-02'' = Some m \<and> fm_target_fuel_supply_factor m \<le> 65 / 100"
proof -
  have o: "overrides_ok lo hi []" for lo hi by (simp add: overrides_ok_def)
  note created = fleet_create_ok [OF o o, where run = "''run''" and assets = DEFAULT_ASSET_IDS]
  have "''fuel-cell-stack-02'' \<in> set DEFAULT_ASSET_IDS" by (simp add: DEFAULT_ASSET_IDS_def)
  then show ?thesis
    using recovery_degrades_healthy_stack [OF demo_math_ok(1), of 90 1800 "''fuel-cell-stack-02''" "fleet_create ''run'' DEFAULT_ASSET_IDS [] []"]
      created(2,3) by fastforce
qed

end
