(* ===== verification/Operational_State.thy ===== *)
theory Operational_State
  imports Repositories
begin

text \<open>
  What operators see of a reasoning run (\<^verbatim>\<open>src/backend/app/application\<close>): the trend analysis over the
  latest readings (\<^verbatim>\<open>time_series_analysis.py\<close>), the explainable decision
  (\<^verbatim>\<open>reasoning_compatibility.py\<close>), the operational state (\<^verbatim>\<open>operational_state_engine.py\<close>), the
  recommendation (\<^verbatim>\<open>recommendation_engine.py\<close>) and the notification
  (\<^verbatim>\<open>notification_policy_engine.py\<close>). The chain is shown to be total with scores inside their
  bounds. The square of a float is the correctly rounded product, \<^verbatim>\<open>sqrt\<close> the correctly rounded
  root; \<^verbatim>\<open>hashlib.sha256\<close> is a parameter.
\<close>

section \<open>Trend analysis\<close>

record TrendAnalysis =
  ta_direction :: string
  ta_rate_of_change :: pyfloat
  ta_stability_score :: int
  ta_volatility_score :: int
  ta_observation_window :: int
  ta_summary :: string

definition mk_trend_analysis ::
    "string \<Rightarrow> pyfloat \<Rightarrow> int \<Rightarrow> int \<Rightarrow> int \<Rightarrow> string \<Rightarrow> TrendAnalysis result" where
  "mk_trend_analysis direction rate stability volatility window summary =
     construct
       [(direction \<in> {''rising'', ''falling'', ''stable''},
         ValueError ''direction must be one of: rising, falling, stable''),
        (0 \<le> stability \<and> stability \<le> 100, ValueError ''stability_score must be between 0 and 100''),
        (0 \<le> volatility \<and> volatility \<le> 100, ValueError ''volatility_score must be between 0 and 100''),
        (window \<ge> 0, ValueError ''observation_window must be >= 0''),
        nonempty_check ''summary'' summary]
       \<lparr>ta_direction = direction, ta_rate_of_change = rate, ta_stability_score = stability,
        ta_volatility_score = volatility, ta_observation_window = window, ta_summary = summary\<rparr>"

record TrendDiagnostics =
  td_direction :: string
  td_rate_of_change :: pyfloat
  td_monotonicity :: pyfloat
  td_volatility_norm :: pyfloat
  td_stability_score :: int
  td_volatility_score :: int

definition MIN_SAMPLES_FOR_TREND_ANALYSIS :: nat where
  "MIN_SAMPLES_FOR_TREND_ANALYSIS = 8"

definition step_deltas :: "pyfloat list \<Rightarrow> pyfloat list" where
  "step_deltas values = map2 fsub (tl values) values"

definition monotonicity :: "pyfloat list \<Rightarrow> string \<Rightarrow> pyfloat" where
  "monotonicity deltas direction =
     (if deltas = [] then 1
      else if direction = ''stable'' then
        (if filter (\<lambda>d. \<bar>d\<bar> > flit 1 (10 ^ 12)) deltas = [] then 1 else flit 6 10)
      else
        (let considered = filter (\<lambda>d. \<not> \<bar>d\<bar> \<le> flit 1 (10 ^ 12)) deltas;
             aligned = filter (\<lambda>d. direction = ''rising'' \<and> d > 0 \<or> direction = ''falling'' \<and> d < 0) considered
         in if considered = [] then flit 8 10
            else fdiv (of_nat (length aligned)) (of_nat (length considered))))"

definition py_sqrt :: "pyfloat \<Rightarrow> pyfloat result" where
  "py_sqrt x = (if x < 0 then Err (ValueError ''math domain error'') else Ok (float_sqrt_of_frac x))"

definition volatility_norm :: "pyfloat list \<Rightarrow> pyfloat \<Rightarrow> pyfloat result" where
  "volatility_norm deltas avg_delta =
     (if deltas = [] then Ok 0
      else
        (let n = of_nat (length deltas);
             mean = fdiv (py_sum deltas) n;
             var = fdiv (py_sum (map (\<lambda>d. fmul (fsub d mean) (fsub d mean)) deltas)) n
         in res_bind (py_sqrt var) (\<lambda>std.
            let ratio = fdiv std (fadd \<bar>avg_delta\<bar> (flit 1 1000000))
            in Ok (max 0 (min 1 ratio)))))"

definition stability_of :: "pyfloat \<Rightarrow> pyfloat \<Rightarrow> int" where
  "stability_of share vol =
     max 0 (min 100 (round_even (fmul 100 (fadd (fmul (flit 65 100) share) (fmul (flit 35 100) (fsub 1 vol))))))"

definition compute_signals :: "Observation list \<Rightarrow> TrendDiagnostics result" where
  "compute_signals windowed =
     (let values = map obs_value windowed; deltas = step_deltas values;
          net_change = fsub (last values) (hd values);
          avg_delta = fdiv net_change (of_int (max 1 (int (length values) - 1)));
          hypothesis = (if \<bar>net_change\<bar> \<le> flit 1 (10 ^ 9) then ''stable''
                        else if net_change > 0 then ''rising'' else ''falling'');
          share = monotonicity deltas hypothesis
      in res_bind (volatility_norm deltas avg_delta) (\<lambda>vol.
         let volatility_score = round_even (fmul 100 vol); stability_score = stability_of share vol;
             override = hypothesis \<noteq> ''stable'' \<and> stability_score < 55
         in Ok \<lparr>td_direction = (if override then ''stable'' else hypothesis), td_rate_of_change = avg_delta,
                td_monotonicity = (if override then monotonicity deltas ''stable'' else share),
                td_volatility_norm = vol, td_stability_score = stability_score,
                td_volatility_score = volatility_score\<rparr>))"

definition build_summary :: "string \<Rightarrow> TrendDiagnostics \<Rightarrow> nat \<Rightarrow> string" where
  "build_summary label signals n =
     (let verb = (if td_direction signals = ''rising'' then ''increased'' else ''decreased'')
      in if td_direction signals = ''stable'' then
           (if td_volatility_score signals \<ge> 60 then
              label @ '' stayed within a narrow range but was noisy across the last '' @ nat_str n @ '' observations.''
            else label @ '' remained stable across the last '' @ nat_str n @ '' observations.'')
         else if td_monotonicity signals \<ge> flit 85 100 \<and> td_stability_score signals \<ge> 70 then
           label @ '' '' @ verb @ '' steadily across the last '' @ nat_str n @ '' observations.''
         else
           label @ '' '' @ verb @ '' '' @
             (if td_volatility_score signals \<ge> 45 then ''with variability'' else ''gradually'') @
             '' across the last '' @ nat_str n @ '' observations.'')"

definition trend_window :: "int \<Rightarrow> Observation list \<Rightarrow> Observation list result" where
  "trend_window window observations =
     (if window \<le> 0 then Err (ValueError ''observation_window must be > 0'')
      else Ok (take_last (nat window) (sorted_by time_id_key observations)))"

text \<open>\<^verbatim>\<open>measurement_label or 'Signal'\<close>.\<close>

definition signal_label :: "string option \<Rightarrow> string" where
  "signal_label label = (case label of None \<Rightarrow> ''Signal'' | Some l \<Rightarrow> if l = [] then ''Signal'' else l)"

definition analyze_trend :: "Observation list \<Rightarrow> int \<Rightarrow> string option \<Rightarrow> TrendAnalysis result" where
  "analyze_trend observations window measurement_label =
     res_bind (trend_window window observations) (\<lambda>windowed.
     let label = signal_label measurement_label; n = length windowed
     in if n < MIN_SAMPLES_FOR_TREND_ANALYSIS then
          mk_trend_analysis ''stable'' 0 50 0 (int n) (label @ '' has insufficient history for trend analysis.'')
        else
          res_bind (compute_signals windowed) (\<lambda>signals.
          mk_trend_analysis (td_direction signals) (td_rate_of_change signals) (td_stability_score signals)
            (td_volatility_score signals) (int n) (build_summary label signals n)))"

definition analyze_trend_diagnostics :: "Observation list \<Rightarrow> int \<Rightarrow> TrendDiagnostics option result" where
  "analyze_trend_diagnostics observations window =
     res_bind (trend_window window observations) (\<lambda>windowed.
     if length windowed < MIN_SAMPLES_FOR_TREND_ANALYSIS then Ok None
     else res_bind (compute_signals windowed) (\<lambda>signals. Ok (Some signals)))"

section \<open>The explainable decision\<close>

record BackendEvidence =
  be_id :: string
  be_description :: string
  be_measurement_type :: string
  be_observed_value :: string
  be_contribution_weight :: pyfloat

definition mk_backend_evidence ::
    "string \<Rightarrow> string \<Rightarrow> string \<Rightarrow> string \<Rightarrow> pyfloat \<Rightarrow> BackendEvidence result" where
  "mk_backend_evidence i description measurement value weight =
     construct
       [nonempty_check ''id'' i, nonempty_check ''description'' description,
        nonempty_check ''measurement_type'' measurement, nonempty_check ''observed_value'' value,
        (0 \<le> weight \<and> weight \<le> 1, ValueError ''contribution_weight must be between 0 and 1'')]
       \<lparr>be_id = i, be_description = description, be_measurement_type = measurement,
        be_observed_value = value, be_contribution_weight = weight\<rparr>"

record ConfidenceScore =
  cs_value :: int
  cs_rationale :: string

definition mk_confidence_score :: "int \<Rightarrow> string \<Rightarrow> ConfidenceScore result" where
  "mk_confidence_score v rationale =
     construct [(0 \<le> v \<and> v \<le> 100, ValueError ''value must be between 0 and 100''), nonempty_check ''rationale'' rationale]
       \<lparr>cs_value = v, cs_rationale = rationale\<rparr>"

record AlternativeHypothesis =
  ah_title :: string
  ah_reason :: string
  ah_confidence :: int

definition mk_alternative_hypothesis :: "string \<Rightarrow> string \<Rightarrow> int \<Rightarrow> AlternativeHypothesis result" where
  "mk_alternative_hypothesis title reason confidence =
     construct [nonempty_check ''title'' title, nonempty_check ''reason'' reason,
                (0 \<le> confidence \<and> confidence \<le> 100, ValueError ''confidence must be between 0 and 100'')]
       \<lparr>ah_title = title, ah_reason = reason, ah_confidence = confidence\<rparr>"

record ExplainableDecision =
  ed_assessment :: string
  ed_trend_analysis :: TrendAnalysis
  ed_evidence :: "BackendEvidence list"
  ed_confidence :: ConfidenceScore
  ed_alternative_hypotheses :: "AlternativeHypothesis list"
  ed_recommendation :: string
  ed_expected_outcome :: string

definition ordered_primary_observations :: "Observation list \<Rightarrow> Observation list" where
  "ordered_primary_observations observations = sorted_by time_id_key (primary_measurement_observations observations)"

text \<open>The last two elements of a list with at least two.\<close>

definition legacy_evidence_constructions ::
    "TrendAnalysis \<Rightarrow> Observation list \<Rightarrow> DecisionPlan \<Rightarrow> BackendEvidence result list" where
  "legacy_evidence_constructions trend primary plan =
     (let measurement = (if primary \<noteq> [] then mt_name (obs_measurement_type (hd primary)) else ''unknown'');
          latest = last primary; previous = last (butlast primary); n = length primary
      in (if primary \<noteq> [] then
            [mk_backend_evidence ''latest_reading'' ''Latest recorded reading is considered in the decision.''
               measurement (format_observed_value latest) (flit 35 100)] else []) @
         [mk_backend_evidence ''trend_analysis'' ''Recent time-series behavior contributes to the decision.''
            measurement (ta_summary trend) (flit 25 100)] @
         (if n \<ge> 2 then
            [mk_backend_evidence ''recent_delta''
               ''Change between the two most recent readings supports the assessment.''
               measurement (delta_text previous latest) (flit 3 10)] else []) @
         (if primary \<noteq> [] then
            [mk_backend_evidence ''sample_support''
               ''Multiple observations reduce the chance of a one-off anomaly.''
               measurement (nat_str n @ '' supporting observations'') (if n \<ge> 3 then flit 2 10 else flit 15 100)]
          else []) @
         [mk_backend_evidence ''planner_alignment''
            ''Recommendation is consistent with the operational assessment rules.''
            measurement (priority_value (plan_priority plan) @ '' priority -> '' @ plan_recommendation plan)
            (flit 15 100)])"

definition build_legacy_evidence ::
    "TrendAnalysis \<Rightarrow> Observation list \<Rightarrow> DecisionPlan \<Rightarrow> BackendEvidence list result" where
  "build_legacy_evidence trend primary plan =
     res_map id (legacy_evidence_constructions trend primary plan)"

definition contradictory :: "StructuredAssessment option \<Rightarrow> bool" where
  "contradictory structured = (case structured of None \<Rightarrow> False | Some sa \<Rightarrow> sa_has_contradictions sa)"

definition unexpected :: "StructuredAssessment option \<Rightarrow> bool" where
  "unexpected structured = (case structured of None \<Rightarrow> False | Some sa \<Rightarrow> sa_has_unexpected_expectations sa)"

definition highly_variable :: "StructuredAssessment option \<Rightarrow> bool" where
  "highly_variable structured =
     (case structured of None \<Rightarrow> False
      | Some sa \<Rightarrow> py_in ''high'' (casefold (variation_value (sa_variation_level sa))))"

definition legacy_severity :: "Priority \<Rightarrow> int" where
  "legacy_severity pri =
     (case map_of [(''high'', 25), (''medium'', 15), (''low'', 5)] (casefold (priority_value pri)) of
        None \<Rightarrow> 10 | Some v \<Rightarrow> v)"

definition calculate_legacy_confidence ::
    "string \<Rightarrow> TrendAnalysis \<Rightarrow> TrendDiagnostics option \<Rightarrow> Observation list \<Rightarrow>
     StructuredAssessment option \<Rightarrow> DecisionPlan \<Rightarrow> ConfidenceScore result" where
  "calculate_legacy_confidence assessment trend diagnostics primary structured plan =
     (let n_supporting = length primary;
          support = min 25 (8 * int (min n_supporting 3));
          severity = legacy_severity (plan_priority plan);
          sustained = (case diagnostics of None \<Rightarrow> False
             | Some d \<Rightarrow> ta_direction trend \<noteq> ''stable'' \<and> td_monotonicity d \<ge> flit 85 100 \<and>
                         ta_stability_score trend \<ge> 70);
          trend_consistency = (if ta_stability_score trend \<ge> 75 then 12
             else if ta_stability_score trend \<ge> 60 then 8
             else if ta_stability_score trend \<ge> 45 then 4 else 0);
          sustained_bonus = (if sustained then 6 else 0);
          steady = ta_stability_score trend \<ge> 65 \<and> \<not> highly_variable structured;
          consistency = (if steady then 15 else 5);
          penalties = (if contradictory structured then - 12 else 0);
          base = 35;
          raw = base + support + severity + consistency + trend_consistency + sustained_bonus + penalties
      in mk_confidence_score (max 0 (min 100 raw))
           (''Base '' @ int_str base @ ''. Support '' @ int_str support @ '' from '' @ nat_str n_supporting @
            '' observations. Severity '' @ int_str severity @ '' from '' @ priority_value (plan_priority plan) @
            '' priority. Consistency '' @ int_str consistency @ '' ('' @ (if steady then ''stable'' else ''mixed'') @
            ''). Trend '' @ int_str trend_consistency @ '' (stability '' @ int_str (ta_stability_score trend) @
            ''/100, direction '' @ ta_direction trend @ ''). '' @
            (if sustained then ''Sustained directional change observed.'' else ''No sustained directional change.'') @ '' '' @
            (if contradictory structured then ''Penalty -12 for contradictions.'' else ''No contradiction penalty.'') @
            '' Assessment: '' @ assessment))"

text \<open>\<^verbatim>\<open>max(5, min(cap, int(confidence * factor)))\<close>.\<close>

definition scaled_confidence :: "int \<Rightarrow> int \<Rightarrow> pyfloat \<Rightarrow> int" where
  "scaled_confidence cap confidence factor = max 5 (min cap \<lfloor>fmul (of_int confidence) factor\<rfloor>)"

definition build_legacy_alternatives ::
    "string \<Rightarrow> Observation list \<Rightarrow> StructuredAssessment option \<Rightarrow> int \<Rightarrow> AlternativeHypothesis list result" where
  "build_legacy_alternatives assessment primary structured confidence =
     (let measurement = (if primary \<noteq> [] then mt_name (obs_measurement_type (hd primary)) else ''signal'');
          main = (if highly_variable structured \<or> contradictory structured then
               mk_alternative_hypothesis ''Sensor drift''
                 (''High variability or contradictory signals can indicate measurement drift rather than a true change in '' @
                  measurement @ ''.'') (scaled_confidence 60 confidence (flit 35 100))
             else
               mk_alternative_hypothesis ''Temporary overload''
                 ''A short-lived load change can create transient shifts without a persistent fault.''
                 (scaled_confidence 40 confidence (flit 22 100)));
          further = (if py_in ''increasing'' (casefold assessment) \<and> length primary < 4 then
               [mk_alternative_hypothesis ''Operating mode transition''
                  ''Limited observation history can reflect a mode transition rather than degradation.''
                  (scaled_confidence 50 confidence (flit 25 100))] else [])
      in res_bind (res_map id (main # further)) (\<lambda>alternatives. Ok (take 2 alternatives)))"

definition expected_outcome :: "string \<Rightarrow> string \<Rightarrow> string \<Rightarrow> string" where
  "expected_outcome assessment recommendation priority =
     (let normalized = casefold assessment
      in if py_in ''increasing'' normalized \<or> casefold priority = ''high'' then
           ''After investigation and corrective action, the driving signal should stabilize and return toward expected operating range.''
         else if py_in ''stable'' normalized then
           ''Maintain current operating conditions; expect continued stability with routine monitoring.''
         else if py_in ''improving'' normalized then
           ''Maintain current operations; expect the improving trend to continue if conditions remain unchanged.''
         else
           ''Execute recommendation ('' @ recommendation @ '') and verify the measured signal moves toward expected behavior.'')"

definition DEFAULT_OBSERVATION_WINDOW :: int where
  "DEFAULT_OBSERVATION_WINDOW = 20"

definition build_explainable_decision ::
    "string \<Rightarrow> Observation list \<Rightarrow> DecisionPlan \<Rightarrow> StructuredAssessment option \<Rightarrow> ExplainableDecision result" where
  "build_explainable_decision assessment observations plan structured =
     (let primary = ordered_primary_observations observations;
          label = (if primary \<noteq> [] then Some (mt_name (obs_measurement_type (hd primary))) else None)
      in res_bind (analyze_trend primary DEFAULT_OBSERVATION_WINDOW label) (\<lambda>trend.
         res_bind (analyze_trend_diagnostics primary DEFAULT_OBSERVATION_WINDOW) (\<lambda>diagnostics.
         res_bind (build_legacy_evidence trend primary plan) (\<lambda>evidence.
         res_bind (calculate_legacy_confidence assessment trend diagnostics primary structured plan) (\<lambda>confidence.
         res_bind (build_legacy_alternatives assessment primary structured (cs_value confidence)) (\<lambda>alternatives.
         Ok \<lparr>ed_assessment = assessment, ed_trend_analysis = trend, ed_evidence = evidence,
             ed_confidence = confidence, ed_alternative_hypotheses = alternatives,
             ed_recommendation = plan_recommendation plan,
             ed_expected_outcome = expected_outcome assessment (plan_recommendation plan)
               (priority_value (plan_priority plan))\<rparr>))))))"

section \<open>The operational state\<close>

record OperationalState =
  os_asset_id :: string
  os_health_score :: int
  os_health_status :: string
  os_risk_level :: string
  os_confidence :: int
  os_primary_driver :: string
  os_recommended_action :: string
  os_last_updated :: datetime

definition check_operational_state :: "OperationalState \<Rightarrow> OperationalState result" where
  "check_operational_state s =
     construct
       [nonempty_check ''asset_id'' (os_asset_id s),
        (0 \<le> os_health_score s \<and> os_health_score s \<le> 100, ValueError ''health_score must be between 0 and 100''),
        (os_health_status s \<in> {''NORMAL'', ''WARNING'', ''CRITICAL''},
         ValueError ''health_status must be one of: NORMAL, WARNING, CRITICAL''),
        (os_risk_level s \<in> {''LOW'', ''MEDIUM'', ''HIGH''}, ValueError ''risk_level must be one of: LOW, MEDIUM, HIGH''),
        (0 \<le> os_confidence s \<and> os_confidence s \<le> 100, ValueError ''confidence must be between 0 and 100''),
        nonempty_check ''primary_driver'' (os_primary_driver s),
        nonempty_check ''recommended_action'' (os_recommended_action s)] s"

definition clamp_int :: "int \<Rightarrow> int \<Rightarrow> int \<Rightarrow> int" where
  "clamp_int v lo hi = max lo (min hi v)"

definition priority_penalty :: "string \<Rightarrow> int" where
  "priority_penalty pri =
     (case map_of [(''high'', 45), (''medium'', 25), (''low'', 10)] pri of None \<Rightarrow> 20 | Some v \<Rightarrow> v)"

definition sustained_change :: "TrendAnalysis \<Rightarrow> bool" where
  "sustained_change trend \<longleftrightarrow> ta_direction trend \<in> {''rising'', ''falling''} \<and> ta_stability_score trend \<ge> 65"

definition trend_penalty :: "TrendAnalysis \<Rightarrow> int" where
  "trend_penalty trend =
     (if sustained_change trend then 15 else 0) + (if ta_volatility_score trend \<ge> 60 then 10 else 0) -
     (if ta_direction trend = ''stable'' \<and> ta_stability_score trend \<ge> 75 then 5 else 0)"

definition assessment_penalty :: "StructuredAssessment option \<Rightarrow> int" where
  "assessment_penalty structured =
     (if contradictory structured then 15 else 0) + (if unexpected structured then 10 else 0)"

definition health_status_of :: "int \<Rightarrow> string" where
  "health_status_of score = (if score \<ge> 75 then ''NORMAL'' else if score \<ge> 45 then ''WARNING'' else ''CRITICAL'')"

definition risk_level_of :: "string \<Rightarrow> string \<Rightarrow> string" where
  "risk_level_of pri health =
     (if pri = ''high'' \<or> health = ''CRITICAL'' then ''HIGH''
      else if pri = ''medium'' \<or> health = ''WARNING'' then ''MEDIUM'' else ''LOW'')"

definition operational_state_compute ::
    "string \<Rightarrow> datetime \<Rightarrow> string \<Rightarrow> Observation list \<Rightarrow> DecisionPlan \<Rightarrow>
     StructuredAssessment option \<Rightarrow> OperationalState result" where
  "operational_state_compute asset last_updated assessment observations plan structured =
     res_bind (build_explainable_decision assessment observations plan structured) (\<lambda>explainable.
     let pri = casefold (priority_value (plan_priority plan));
         trend = ed_trend_analysis explainable;
         raw_score = 100 - priority_penalty pri - trend_penalty trend - assessment_penalty structured;
         health_score = clamp_int raw_score 0 100;
         health_status = health_status_of health_score;
         primary_driver =
           (if contradictory structured then ''Contradictory signals detected in structured assessment.''
            else if unexpected structured then ''Unexpected expectation signals detected in assessment.''
            else if sustained_change trend then ''Trend: '' @ ta_summary trend
            else ''Decision priority: '' @ priority_value (plan_priority plan))
     in check_operational_state
          \<lparr>os_asset_id = asset, os_health_score = health_score, os_health_status = health_status,
           os_risk_level = risk_level_of pri health_status,
           os_confidence = clamp_int (cs_value (ed_confidence explainable)) 0 100,
           os_primary_driver = primary_driver, os_recommended_action = plan_recommendation plan,
           os_last_updated = last_updated\<rparr>)"

section \<open>Recommendation and notification\<close>

record Recommendation =
  rec_id :: string
  rec_asset_id :: string
  rec_category :: string
  rec_priority :: string
  rec_urgency :: string
  rec_title :: string
  rec_description :: string
  rec_recommended_steps :: "string list"
  rec_estimated_impact :: string
  rec_created_at :: datetime

definition check_policy_recommendation :: "Recommendation \<Rightarrow> Recommendation result" where
  "check_policy_recommendation r =
     construct
       [nonempty_check ''id'' (rec_id r), nonempty_check ''asset_id'' (rec_asset_id r),
        (rec_category r \<in> {''investigate'', ''mitigate'', ''monitor''},
         ValueError ''category must be one of: investigate, mitigate, monitor''),
        (rec_priority r \<in> {''P0'', ''P1'', ''P2'', ''P3''}, ValueError ''priority must be one of: P0, P1, P2, P3''),
        (rec_urgency r \<in> {''IMMEDIATE'', ''SOON'', ''SCHEDULED''},
         ValueError ''urgency must be one of: IMMEDIATE, SOON, SCHEDULED''),
        nonempty_check ''title'' (rec_title r), nonempty_check ''description'' (rec_description r),
        (rec_recommended_steps r \<noteq> [], ValueError ''recommended_steps must not be empty''),
        ([] \<notin> set (rec_recommended_steps r), ValueError ''recommended_steps must not contain empty entries''),
        nonempty_check ''estimated_impact'' (rec_estimated_impact r)] r"

text \<open>Priority, urgency, category, title, impact, steps and description of a state.\<close>

definition recommendation_policy ::
    "OperationalState \<Rightarrow> string \<times> string \<times> string \<times> string \<times> string \<times> string list \<times> string" where
  "recommendation_policy s =
     (let driver = os_primary_driver s; action = os_recommended_action s;
          driven = ''Primary driver: '' @ driver @ ''. Recommended action: '' @ action @ ''.''
      in if os_health_status s = ''CRITICAL'' then
           (''P0'', ''IMMEDIATE'', ''mitigate'', ''Immediate mitigation required'',
            ''Reduce likelihood of imminent outage and limit operational impact.'',
            [''Acknowledge the incident and page the on-call owner.'',
             ''Validate the primary driver: '' @ driver @ ''.'',
             ''Execute the operational action: '' @ action @ ''.'',
             ''Confirm recovery signals and document the outcome.''],
            ''Operational state indicates critical risk requiring immediate action. '' @ driven)
         else if os_risk_level s = ''HIGH'' then
           (''P1'', ''IMMEDIATE'', ''investigate'', ''Elevated risk identified'',
            ''Confirm whether elevated risk is an early warning sign before it progresses to a critical health reading.'',
            [''Investigate the primary driver: '' @ driver @ ''.'',
             ''Apply the recommended action if corroborated: '' @ action @ ''.'',
             ''Increase monitoring frequency until risk returns to normal.''],
            ''Operational state indicates elevated risk ahead of a confirmed critical health reading (current health status: '' @
              os_health_status s @ ''). '' @ driven)
         else if os_health_status s = ''WARNING'' \<or> os_risk_level s = ''MEDIUM'' then
           (''P2'', ''SOON'', ''investigate'', ''Investigation recommended'',
            ''Prevent degradation from escalating into a user-visible incident.'',
            [''Investigate the primary driver: '' @ driver @ ''.'',
             ''Review recent changes, deployments, and timeline events.'',
             ''Apply the recommended action if corroborated: '' @ action @ ''.'',
             ''Increase monitoring frequency until stable.''],
            ''Operational state indicates a warning condition or medium risk. '' @ driven)
         else
           (''P3'', ''SCHEDULED'', ''monitor'', ''Continue monitoring'',
            ''Maintain steady-state operations while tracking early signals.'',
            [''Continue monitoring key health indicators.'',
             ''Track the primary driver: '' @ driver @ ''.'',
             ''Validate alert thresholds and dashboards are up to date.''],
            ''Operational state indicates normal conditions with low risk. Primary driver: '' @ driver @
              ''. Recommended action (if conditions change): '' @ action @ ''.''))"

definition recommendation_compute :: "(string \<Rightarrow> string) \<Rightarrow> OperationalState \<Rightarrow> Recommendation result" where
  "recommendation_compute sha256_hex s =
     (case recommendation_policy s of
        (pri, urgency, category, title, impact, steps, description) \<Rightarrow>
          (let identity_key = str_join ''|'' [os_asset_id s, category, pri, urgency, title];
               identity_hash = take 16 (sha256_hex identity_key)
           in check_policy_recommendation
                \<lparr>rec_id = ''rec-'' @ os_asset_id s @ ''-'' @ identity_hash, rec_asset_id = os_asset_id s,
                 rec_category = category, rec_priority = pri, rec_urgency = urgency, rec_title = title,
                 rec_description = description, rec_recommended_steps = steps, rec_estimated_impact = impact,
                 rec_created_at = os_last_updated s\<rparr>))"

record Notification =
  nt_id :: string
  nt_asset_id :: string
  nt_recommendation_id :: string
  nt_severity :: string
  nt_status :: string
  nt_title :: string
  nt_message :: string
  nt_created_at :: datetime

definition check_notification :: "Notification \<Rightarrow> Notification result" where
  "check_notification n =
     construct
       [nonempty_check ''id'' (nt_id n), nonempty_check ''asset_id'' (nt_asset_id n),
        nonempty_check ''recommendation_id'' (nt_recommendation_id n),
        (nt_severity n \<in> {''INFO'', ''WARNING'', ''CRITICAL''}, ValueError ''severity must be one of: INFO, WARNING, CRITICAL''),
        (nt_status n \<in> {''OPEN'', ''ACKNOWLEDGED'', ''RESOLVED''},
         ValueError ''status must be one of: OPEN, ACKNOWLEDGED, RESOLVED''),
        nonempty_check ''title'' (nt_title n), nonempty_check ''message'' (nt_message n)] n"

definition notification_compute :: "Recommendation \<Rightarrow> Notification option result" where
  "notification_compute r =
     (let notify = (\<lambda>severity. res_bind (check_notification
            \<lparr>nt_id = ''notif-'' @ rec_id r, nt_asset_id = rec_asset_id r, nt_recommendation_id = rec_id r,
             nt_severity = severity, nt_status = ''OPEN'', nt_title = rec_title r, nt_message = rec_description r,
             nt_created_at = rec_created_at r\<rparr>) (\<lambda>n. Ok (Some n)))
      in if rec_priority r = ''P0'' then notify ''CRITICAL''
         else if rec_priority r \<in> {''P1'', ''P2''} then notify ''WARNING''
         else Ok None)"

section \<open>Sums of squares\<close>

text \<open>
  The compensated sum of non-negative floats is not negative: the correction of one addition is at
  most three rounding units of the sum, so that a thousand of them stay below the sum itself.
\<close>

abbreviation rounding_unit :: rat where
  "rounding_unit \<equiv> 1 / 2 ^ 53"

lemma fl_error_unit: "\<bar>fl x - x\<bar> \<le> rounding_unit * \<bar>x\<bar>"
  using fl_error [of x] by simp

lemma correction_bound:
  fixes tot x :: rat
  assumes "0 \<le> tot" "0 \<le> x"
  defines "t \<equiv> fl (tot + x)"
  shows "\<bar>fl (fl (tot - t) + x)\<bar> \<le> 4 * rounding_unit * (tot + x)" and "(1 - rounding_unit) * (tot + x) \<le> t"
proof -
  define s where "s = tot + x"
  define u :: rat where "u = rounding_unit"
  have u: "0 < u" "u \<le> 1 / 1000" by (simp_all add: u_def)
  have s: "0 \<le> s" "tot \<le> s" "x \<le> s" using assms by (simp_all add: s_def)
  have t: "\<bar>t - s\<bar> \<le> u * s" using fl_error_unit [of "tot + x"] s(1) by (simp add: t_def s_def u_def)
  then have "(1 - u) * s \<le> t" by (simp add: abs_le_iff algebra_simps)
  then show "(1 - rounding_unit) * (tot + x) \<le> t" by (simp only: s_def u_def)
  have "\<bar>tot - t\<bar> \<le> \<bar>t - s\<bar> + x" using assms(2) by (simp add: s_def)
  also have "\<dots> \<le> u * s + s" using t s(3) by simp
  finally have p: "\<bar>tot - t\<bar> \<le> (1 + u) * s" by (simp add: algebra_simps)
  have "\<bar>fl (tot - t) - (tot - t)\<bar> \<le> u * \<bar>tot - t\<bar>" using fl_error_unit [of "tot - t"] by (simp add: u_def)
  also have "\<dots> \<le> u * ((1 + u) * s)" using p u(1) by (intro mult_left_mono) auto
  finally have q: "\<bar>fl (tot - t) - (tot - t)\<bar> \<le> u * (1 + u) * s" by (simp add: mult.assoc)
  have "\<bar>fl (tot - t) + x\<bar> \<le> \<bar>fl (tot - t) - (tot - t)\<bar> + \<bar>t - s\<bar>" by (simp add: s_def)
  also have "\<dots> \<le> u * (1 + u) * s + u * s" using q t by simp
  finally have r: "\<bar>fl (tot - t) + x\<bar> \<le> u * (2 + u) * s" by (simp add: algebra_simps)
  have "\<bar>fl (fl (tot - t) + x)\<bar> \<le> \<bar>fl (fl (tot - t) + x) - (fl (tot - t) + x)\<bar> + \<bar>fl (tot - t) + x\<bar>" by simp
  also have "\<dots> \<le> u * \<bar>fl (tot - t) + x\<bar> + \<bar>fl (tot - t) + x\<bar>"
    using fl_error_unit [of "fl (tot - t) + x"] by (simp add: u_def)
  also have "\<dots> = (1 + u) * \<bar>fl (tot - t) + x\<bar>" by (simp add: algebra_simps)
  also have "\<dots> \<le> (1 + u) * (u * (2 + u) * s)" using r u(1) by (intro mult_left_mono) auto
  also have "\<dots> = u * ((1 + u) * (2 + u)) * s" by (simp add: algebra_simps)
  also have "\<dots> \<le> u * 4 * s"
  proof -
    have "(1 + u) * (2 + u) \<le> (1 + 1 / 1000) * (2 + 1 / 1000)" using u by (intro mult_mono) auto
    then have "(1 + u) * (2 + u) \<le> 4" by simp
    then show ?thesis using u(1) s(1) by (intro mult_right_mono mult_left_mono) auto
  qed
  finally show "\<bar>fl (fl (tot - t) + x)\<bar> \<le> 4 * rounding_unit * (tot + x)"
    by (simp add: s_def u_def)
qed

lemma compensation_step:
  fixes tot x c :: rat
  assumes "0 \<le> tot" "0 \<le> x" "\<bar>c\<bar> \<le> of_nat k * (16 * rounding_unit) * tot" "k \<le> 1000" "e = fl (fl (tot - fl (tot + x)) + x)"
  shows "\<bar>fl (c + e)\<bar> \<le> of_nat (Suc k) * (16 * rounding_unit) * fl (tot + x)"
proof -
  define s where "s = tot + x"
  define u :: rat where "u = rounding_unit"
  define m where "m = (of_nat k :: rat)"
  have u: "0 < u" "u \<le> 1 / 1000000" by (simp_all add: u_def)
  have m: "0 \<le> m" "m \<le> 1000" using assms(4) by (simp_all add: m_def)
  have s: "0 \<le> s" "tot \<le> s" using assms by (simp_all add: s_def)
  have e: "\<bar>e\<bar> \<le> 4 * u * s" "(1 - u) * s \<le> fl (tot + x)"
    using correction_bound [OF assms(1,2)] by (simp_all add: assms(5) s_def u_def)
  have "\<bar>c\<bar> \<le> m * (16 * u) * tot" using assms(3) by (simp add: m_def u_def)
  also have "\<dots> \<le> m * (16 * u) * s" using s(2) m(1) u(1) by (intro mult_left_mono) auto
  finally have c: "\<bar>c + e\<bar> \<le> (16 * m + 4) * u * s" using e(1) by (simp add: algebra_simps)
  have "\<bar>fl (c + e)\<bar> \<le> \<bar>fl (c + e) - (c + e)\<bar> + \<bar>c + e\<bar>" by simp
  also have "\<dots> \<le> u * \<bar>c + e\<bar> + \<bar>c + e\<bar>" using fl_error_unit [of "c + e"] by (simp add: u_def)
  also have "\<dots> = (1 + u) * \<bar>c + e\<bar>" by (simp add: algebra_simps)
  also have "\<dots> \<le> (1 + u) * ((16 * m + 4) * u * s)" using c u(1) by (intro mult_left_mono) auto
  also have "\<dots> = u * s * ((1 + u) * (16 * m + 4))" by (simp add: algebra_simps)
  also have "\<dots> \<le> u * s * ((1 - u) * (16 * m + 16))"
  proof -
    have "u * (32 * m + 20) \<le> 1 / 1000000 * (32 * 1000 + 20)" using u m by (intro mult_mono) auto
    then have "(1 + u) * (16 * m + 4) \<le> (1 - u) * (16 * m + 16)" by (simp add: algebra_simps)
    then show ?thesis using u(1) s(1) by (intro mult_left_mono) auto
  qed
  also have "\<dots> = (m + 1) * (16 * u) * ((1 - u) * s)" by (simp add: algebra_simps)
  also have "\<dots> \<le> (m + 1) * (16 * u) * fl (tot + x)" using e(2) m(1) u(1) by (intro mult_left_mono) auto
  finally show ?thesis by (simp add: m_def u_def algebra_simps)
qed

lemma sum_loop_nonneg:
  assumes "\<forall>x \<in> set xs. 0 \<le> x" "0 \<le> tot" "\<bar>c\<bar> \<le> of_nat k * (16 * rounding_unit) * tot" "k + length xs \<le> 1000"
  shows "0 \<le> sum_loop tot c xs"
  using assms
proof (induction xs arbitrary: tot c k)
  case Nil
  have "of_nat k * (16 * rounding_unit) * tot \<le> 1000 * (16 * rounding_unit) * tot"
    using Nil.prems by (intro mult_right_mono) auto
  also have "\<dots> \<le> tot" using Nil.prems(2) by simp
  finally have "0 \<le> tot + c" using Nil.prems(3) by simp
  then show ?case using Nil.prems(2) fl.rnd_nonneg by (auto simp: fadd_def)
next
  case (Cons x xs)
  let ?t = "fl (tot + x)"
  let ?e = "if \<bar>tot\<bar> \<ge> \<bar>x\<bar> then fl (fl (tot - ?t) + x) else fl (fl (x - ?t) + tot)"
  have x: "0 \<le> x" using Cons.prems(1) by simp
  have "\<bar>fl (c + ?e)\<bar> \<le> of_nat (Suc k) * (16 * rounding_unit) * ?t"
  proof (cases "\<bar>tot\<bar> \<ge> \<bar>x\<bar>")
    case True
    then show ?thesis using compensation_step [OF Cons.prems(2) x Cons.prems(3)] Cons.prems(4) by simp
  next
    case False
    then have le: "tot \<le> x" using Cons.prems(2) x by simp
    have "of_nat k * (16 * rounding_unit) * tot \<le> of_nat k * (16 * rounding_unit) * x"
      using le by (intro mult_left_mono) auto
    then have "\<bar>c\<bar> \<le> of_nat k * (16 * rounding_unit) * x" using Cons.prems(3) by linarith
    then show ?thesis
      using compensation_step [OF x Cons.prems(2)] Cons.prems(4) False by (simp add: add.commute [of x tot])
  qed
  moreover have "0 \<le> ?t" using Cons.prems(2) x by (simp add: fl.rnd_nonneg)
  ultimately have "0 \<le> sum_loop ?t (fl (c + ?e)) xs"
    using Cons.IH [of ?t "fl (c + ?e)" "Suc k"] Cons.prems(1,4) by simp
  then show ?case by (auto simp: Let_def fadd_def fsub_def split: if_splits)
qed

lemma py_sum_nonneg: "\<forall>x \<in> set xs. 0 \<le> x \<Longrightarrow> length xs \<le> 1000 \<Longrightarrow> 0 \<le> py_sum xs"
  unfolding py_sum_def by (rule sum_loop_nonneg [where k = 0]) auto

section \<open>Scores\<close>

lemma flit_between: "0 \<le> p \<Longrightarrow> p \<le> q \<Longrightarrow> 0 < q \<Longrightarrow> 0 \<le> flit p q \<and> flit p q \<le> 1"
  using fl_mono [of "of_int p / of_int q" 1] by (simp add: flit_def fl.rnd_nonneg)

lemma volatility_norm_Ok:
  assumes "length deltas \<le> 1000"
  obtains v where "volatility_norm deltas avg = Ok v" "0 \<le> v" "v \<le> 1"
proof (cases "deltas = []")
  case True
  then show ?thesis by (intro that [of 0]) (simp_all add: volatility_norm_def)
next
  case False
  define m where "m = fdiv (py_sum deltas) (of_nat (length deltas))"
  define var where "var = fdiv (py_sum (map (\<lambda>d. fmul (fsub d m) (fsub d m)) deltas)) (of_nat (length deltas))"
  have "0 \<le> py_sum (map (\<lambda>d. fmul (fsub d m) (fsub d m)) deltas)"
    using assms by (intro py_sum_nonneg) (auto simp: fmul_def intro: fl.rnd_nonneg)
  then have "0 \<le> var" by (simp add: var_def fdiv_def fl.rnd_nonneg)
  then have "py_sqrt var = Ok (float_sqrt_of_frac var)" by (simp add: py_sqrt_def)
  then show ?thesis using False
    by (intro that [of "max 0 (min 1 (fdiv (float_sqrt_of_frac var) (fadd \<bar>avg\<bar> (flit 1 1000000))))"])
      (simp_all add: volatility_norm_def Let_def flip: m_def var_def)
qed

lemma score_between: "0 \<le> v \<Longrightarrow> v \<le> 1 \<Longrightarrow> 0 \<le> round_even (fmul 100 v) \<and> round_even (fmul 100 v) \<le> 100"
proof -
  assume v: "0 \<le> v" "v \<le> 1"
  have "fmul 100 v \<le> fl 100" unfolding fmul_def by (rule fl_mono) (use v in simp)
  also have "\<dots> = 100" by (simp add: fl_simps)
  finally have "fmul 100 v \<le> of_int 100" by simp
  moreover have "of_int 0 \<le> fmul 100 v" using v by (simp add: fmul_def fl.rnd_nonneg)
  ultimately show ?thesis using round_even_bounds_int by blast
qed

definition directions :: "string list" where
  "directions = [''rising'', ''falling'', ''stable'']"

lemma stability_between: "0 \<le> stability_of m v" "stability_of m v \<le> 100"
  by (simp_all add: stability_of_def)

lemma compute_signals_Ok:
  assumes "length obs \<le> 1000"
  obtains d where "compute_signals obs = Ok d" "td_direction d \<in> set directions"
    "0 \<le> td_stability_score d" "td_stability_score d \<le> 100" "0 \<le> td_volatility_score d" "td_volatility_score d \<le> 100"
    "td_direction d \<noteq> ''stable'' \<Longrightarrow> td_stability_score d \<ge> 55"
proof -
  let ?vs = "map obs_value obs"
  have len: "length (step_deltas ?vs) \<le> 1000" using assms by (simp add: step_deltas_def)
  obtain v where v: "volatility_norm (step_deltas ?vs)
      (fdiv (fsub (last ?vs) (hd ?vs)) (of_int (max 1 (int (length ?vs) - 1)))) = Ok v" "0 \<le> v" "v \<le> 1"
    by (rule volatility_norm_Ok [OF len])
  have "\<exists>d. compute_signals obs = Ok d \<and> td_direction d \<in> set directions \<and>
      0 \<le> td_stability_score d \<and> td_stability_score d \<le> 100 \<and> 0 \<le> td_volatility_score d \<and>
      td_volatility_score d \<le> 100 \<and> (td_direction d \<noteq> ''stable'' \<longrightarrow> td_stability_score d \<ge> 55)"
    unfolding compute_signals_def Let_def v(1) res_bind.simps
    by (intro exI conjI, rule refl) (use score_between [OF v(2,3)] in \<open>simp_all add: stability_between directions_def\<close>)
  then show ?thesis using that by blast
qed

lemma trend_window_Ok: "0 < window \<Longrightarrow> \<exists>obs'. trend_window window obs = Ok obs' \<and> length obs' = min (nat window) (length obs)"
  by (auto simp: trend_window_def)

lemma signal_label_nonempty [simp]: "signal_label l \<noteq> []"
  by (auto simp: signal_label_def split: option.splits)

lemma build_summary_nonempty [simp]: "label \<noteq> [] \<Longrightarrow> build_summary label d n \<noteq> []"
  by (simp add: build_summary_def Let_def)

definition trend_ok :: "TrendAnalysis \<Rightarrow> bool" where
  "trend_ok t \<longleftrightarrow> ta_direction t \<in> set directions \<and> 0 \<le> ta_stability_score t \<and> ta_stability_score t \<le> 100 \<and>
     0 \<le> ta_volatility_score t \<and> ta_volatility_score t \<le> 100 \<and> ta_summary t \<noteq> [] \<and>
     (ta_direction t \<noteq> ''stable'' \<longrightarrow> ta_stability_score t \<ge> 55 \<and> ta_observation_window t \<ge> 8)"

lemma analyze_trend_Ok:
  assumes "0 < window" "window \<le> 1000"
  obtains t where "analyze_trend obs window label = Ok t" "trend_ok t"
    "ta_observation_window t = min window (int (length obs))"
proof -
  obtain w where w: "trend_window window obs = Ok w" "length w = min (nat window) (length obs)"
    using trend_window_Ok [OF assms(1)] by blast
  have n: "int (length w) = min window (int (length obs))" using w(2) assms(1) by simp
  show ?thesis
  proof (cases "length w < 8")
    case True
    then have "\<exists>t. analyze_trend obs window label = Ok t \<and> trend_ok t \<and> ta_observation_window t = min window (int (length obs))"
      by (simp add: analyze_trend_def w(1) MIN_SAMPLES_FOR_TREND_ANALYSIS_def Let_def mk_trend_analysis_def
          construct_Cons trend_ok_def directions_def n order_less_imp_le [OF assms(1)])
    then show ?thesis using that by blast
  next
    case False
    obtain d where d: "compute_signals w = Ok d" "td_direction d \<in> set directions"
      "0 \<le> td_stability_score d" "td_stability_score d \<le> 100" "0 \<le> td_volatility_score d" "td_volatility_score d \<le> 100"
      "td_direction d \<noteq> ''stable'' \<Longrightarrow> td_stability_score d \<ge> 55"
      by (rule compute_signals_Ok [where obs = w]) (use w(2) assms in simp_all)
    have dir: "td_direction d \<in> {''rising'', ''falling'', ''stable''}" using d(2) by (simp add: directions_def)
    have res: "analyze_trend obs window label = Ok \<lparr>ta_direction = td_direction d, ta_rate_of_change = td_rate_of_change d,
        ta_stability_score = td_stability_score d, ta_volatility_score = td_volatility_score d,
        ta_observation_window = int (length w), ta_summary = build_summary (signal_label label) d (length w)\<rparr>"
      using dir by (simp add: analyze_trend_def w(1) False MIN_SAMPLES_FOR_TREND_ANALYSIS_def Let_def
          mk_trend_analysis_def construct_Cons d(1,3-6))
    have "8 \<le> int (length w)" using False by simp
    then show ?thesis by (intro that [OF res]) (use d n in \<open>simp_all add: trend_ok_def\<close>)
  qed
qed

lemma analyze_trend_diagnostics_Ok:
  assumes "0 < window" "window \<le> 1000"
  obtains d where "analyze_trend_diagnostics obs window = Ok d"
proof -
  obtain w where w: "trend_window window obs = Ok w" "length w = min (nat window) (length obs)"
    using trend_window_Ok [OF assms(1)] by blast
  obtain d where "compute_signals w = Ok d"
    by (rule compute_signals_Ok [where obs = w]) (use w(2) assms in simp_all)
  then show ?thesis
    by (cases "length w < MIN_SAMPLES_FOR_TREND_ANALYSIS") (auto intro: that simp: analyze_trend_diagnostics_def w(1))
qed

section \<open>The chain never raises\<close>

definition plan_ok :: "DecisionPlan \<Rightarrow> bool" where
  "plan_ok plan \<longleftrightarrow> plan_recommendation plan \<noteq> []"

lemma weights_between [simp]:
  "0 \<le> flit 35 100 \<and> flit 35 100 \<le> 1" "0 \<le> flit 25 100 \<and> flit 25 100 \<le> 1" "0 \<le> flit 3 10 \<and> flit 3 10 \<le> 1"
  "0 \<le> flit 2 10 \<and> flit 2 10 \<le> 1" "0 \<le> flit 15 100 \<and> flit 15 100 \<le> 1"
  using flit_between by simp_all

lemma delta_text_nonempty [simp]: "delta_text p l \<noteq> []"
  by (simp add: delta_text_def)

lemma build_legacy_evidence_Ok:
  assumes "\<forall>ob \<in> set primary. observation_wf ob" "ta_summary trend \<noteq> []"
  obtains evidence where "build_legacy_evidence trend primary plan = Ok evidence"
proof -
  have "mt_name (obs_measurement_type (hd primary)) \<noteq> []" if "primary \<noteq> []"
    using assms(1) hd_in_set [OF that] by (auto simp: observation_wf_def)
  then have "\<exists>x. r = Ok x" if "r \<in> set (legacy_evidence_constructions trend primary plan)" for r
    using that assms(2) by (auto simp: legacy_evidence_constructions_def mk_backend_evidence_def construct_Cons Let_def split: if_splits)
  then show ?thesis
    using that res_map_total [of "legacy_evidence_constructions trend primary plan" id]
    by (auto simp: build_legacy_evidence_def)
qed

lemma mk_confidence_score_clamped:
  "rationale \<noteq> [] \<Longrightarrow> \<exists>c. mk_confidence_score (max 0 (min 100 r)) rationale = Ok c \<and> 0 \<le> cs_value c \<and> cs_value c \<le> 100"
  by (simp add: mk_confidence_score_def construct_Cons)

lemma calculate_legacy_confidence_Ok:
  "\<exists>c. calculate_legacy_confidence a trend d primary structured plan = Ok c \<and> 0 \<le> cs_value c \<and> cs_value c \<le> 100"
  unfolding calculate_legacy_confidence_def Let_def by (rule mk_confidence_score_clamped) simp

lemma scaled_confidence_between: "5 \<le> cap \<Longrightarrow> cap \<le> 100 \<Longrightarrow> 0 \<le> scaled_confidence cap v f \<and> scaled_confidence cap v f \<le> 100"
  unfolding scaled_confidence_def by linarith

lemma mk_alternative_hypothesis_Ok:
  "title \<noteq> [] \<Longrightarrow> reason \<noteq> [] \<Longrightarrow> 5 \<le> cap \<Longrightarrow> cap \<le> 100 \<Longrightarrow>
     \<exists>x. mk_alternative_hypothesis title reason (scaled_confidence cap v f) = Ok x"
  using scaled_confidence_between [of cap v f] by (simp add: mk_alternative_hypothesis_def construct_Cons)

lemma build_legacy_alternatives_Ok: "\<exists>x. build_legacy_alternatives a primary structured v = Ok x"
proof -
  have res: "\<exists>x. res_bind (res_map id rs) (\<lambda>xs. Ok (take 2 xs)) = Ok x" if "\<And>r. r \<in> set rs \<Longrightarrow> \<exists>x. r = Ok x"
    for rs :: "AlternativeHypothesis result list"
    using res_map_total [of rs id] that by auto
  show ?thesis
    unfolding build_legacy_alternatives_def Let_def
    by (rule res) (auto split: if_splits intro!: mk_alternative_hypothesis_Ok)
qed

lemma build_explainable_decision_Ok:
  assumes "\<forall>ob \<in> set observations. observation_wf ob"
  obtains e where "build_explainable_decision a observations plan structured = Ok e" "trend_ok (ed_trend_analysis e)"
    "0 \<le> cs_value (ed_confidence e)" "cs_value (ed_confidence e) \<le> 100"
proof -
  let ?primary = "ordered_primary_observations observations"
  let ?label = "if ?primary \<noteq> [] then Some (mt_name (obs_measurement_type (hd ?primary))) else None"
  have wf: "\<forall>ob \<in> set ?primary. observation_wf ob"
    using assms by (cases observations) (auto simp: ordered_primary_observations_def)
  obtain t where t: "analyze_trend ?primary DEFAULT_OBSERVATION_WINDOW ?label = Ok t" "trend_ok t"
    by (rule analyze_trend_Ok [where obs = ?primary and window = DEFAULT_OBSERVATION_WINDOW and label = ?label])
      (simp_all add: DEFAULT_OBSERVATION_WINDOW_def)
  obtain d where d: "analyze_trend_diagnostics ?primary DEFAULT_OBSERVATION_WINDOW = Ok d"
    by (rule analyze_trend_diagnostics_Ok [where obs = ?primary and window = DEFAULT_OBSERVATION_WINDOW])
      (simp_all add: DEFAULT_OBSERVATION_WINDOW_def)
  obtain ev where ev: "build_legacy_evidence t ?primary plan = Ok ev"
    using build_legacy_evidence_Ok [OF wf] t(2) unfolding trend_ok_def by blast
  obtain c where c: "calculate_legacy_confidence a t d ?primary structured plan = Ok c" "0 \<le> cs_value c" "cs_value c \<le> 100"
    using calculate_legacy_confidence_Ok by blast
  obtain al where al: "build_legacy_alternatives a ?primary structured (cs_value c) = Ok al"
    using build_legacy_alternatives_Ok by blast
  have "\<exists>e. build_explainable_decision a observations plan structured = Ok e \<and> trend_ok (ed_trend_analysis e) \<and>
      0 \<le> cs_value (ed_confidence e) \<and> cs_value (ed_confidence e) \<le> 100"
    unfolding build_explainable_decision_def Let_def t(1) d ev c(1) al res_bind.simps using t(2) c by simp
  then show ?thesis using that by blast
qed

lemma casefold_priority: "casefold (priority_value pri) = priority_value pri"
  by (cases pri) (simp_all add: casefold_def py_lower_def ascii_lower_char_def)

lemma health_status_in: "health_status_of v \<in> {''NORMAL'', ''WARNING'', ''CRITICAL''}"
  by (simp add: health_status_of_def)

lemma risk_level_in: "risk_level_of p h \<in> {''LOW'', ''MEDIUM'', ''HIGH''}"
  by (simp add: risk_level_of_def)

lemma penalties_between:
  "trend_ok t \<Longrightarrow> - 5 \<le> trend_penalty t \<and> trend_penalty t \<le> 25"
  "10 \<le> priority_penalty p \<and> priority_penalty p \<le> 45" "0 \<le> assessment_penalty sa \<and> assessment_penalty sa \<le> 25"
  by (auto simp: trend_penalty_def sustained_change_def priority_penalty_def assessment_penalty_def split: option.splits)

text \<open>The score is never clamped.\<close>

lemma operational_state_Ok:
  assumes "\<forall>ob \<in> set observations. observation_wf ob" "asset \<noteq> []" "plan_ok plan"
  obtains s t where "operational_state_compute asset now a observations plan structured = Ok s" "trend_ok t"
    "os_health_score s = 100 - priority_penalty (priority_value (plan_priority plan)) - trend_penalty t - assessment_penalty structured"
    "os_health_status s = health_status_of (os_health_score s)"
    "os_risk_level s = risk_level_of (priority_value (plan_priority plan)) (os_health_status s)"
    "os_asset_id s = asset" "os_recommended_action s = plan_recommendation plan" "os_last_updated s = now"
    "os_primary_driver s \<noteq> []" "5 \<le> os_health_score s" "os_health_score s \<le> 95"
proof -
  obtain e where e: "build_explainable_decision a observations plan structured = Ok e" "trend_ok (ed_trend_analysis e)"
    "0 \<le> cs_value (ed_confidence e)" "cs_value (ed_confidence e) \<le> 100"
    by (rule build_explainable_decision_Ok [OF assms(1)])
  let ?t = "ed_trend_analysis e"
  define score where "score = 100 - priority_penalty (priority_value (plan_priority plan)) - trend_penalty ?t - assessment_penalty structured"
  have score: "5 \<le> score" "score \<le> 95"
    using penalties_between(1) [OF e(2)] penalties_between(2) [of "priority_value (plan_priority plan)"]
      penalties_between(3) [of structured] unfolding score_def by linarith+
  then have clamp: "clamp_int score 0 100 = score" by (simp add: clamp_int_def)
  have conf: "clamp_int (cs_value (ed_confidence e)) 0 100 = cs_value (ed_confidence e)"
    using e(3,4) by (simp add: clamp_int_def)
  define driver where "driver = (if contradictory structured then ''Contradictory signals detected in structured assessment.''
            else if unexpected structured then ''Unexpected expectation signals detected in assessment.''
            else if sustained_change ?t then ''Trend: '' @ ta_summary ?t
            else ''Decision priority: '' @ priority_value (plan_priority plan))"
  have driver: "driver \<noteq> []" by (simp add: driver_def)
  define s where "s = \<lparr>os_asset_id = asset, os_health_score = score, os_health_status = health_status_of score,
      os_risk_level = risk_level_of (priority_value (plan_priority plan)) (health_status_of score),
      os_confidence = cs_value (ed_confidence e), os_primary_driver = driver,
      os_recommended_action = plan_recommendation plan, os_last_updated = now\<rparr>"
  have "check_operational_state s = Ok s"
    using score e(3,4) assms(2,3) driver health_status_in risk_level_in
    by (simp add: check_operational_state_def construct_Cons s_def plan_ok_def del: insert_iff)
  then have "operational_state_compute asset now a observations plan structured = Ok s"
    by (simp only: operational_state_compute_def e(1) res_bind.simps Let_def casefold_priority clamp conf
        flip: score_def driver_def s_def)
  then show ?thesis
    by (rule that [where t = ?t]) (use e(2) score driver in \<open>simp_all add: s_def score_def\<close>)
qed

section \<open>The policy\<close>

text \<open>What the engine guarantees of its states.\<close>

definition state_ok :: "OperationalState \<Rightarrow> bool" where
  "state_ok s \<longleftrightarrow> os_asset_id s \<noteq> [] \<and>
     (os_health_status s = ''NORMAL'' \<or> os_health_status s = ''WARNING'' \<and> os_risk_level s \<noteq> ''LOW'' \<or>
      os_health_status s = ''CRITICAL'' \<and> os_risk_level s = ''HIGH'') \<and>
     (os_risk_level s = ''LOW'' \<or> os_risk_level s = ''MEDIUM'' \<or> os_risk_level s = ''HIGH'')"

lemma state_ok_risk: "os_asset_id s \<noteq> [] \<Longrightarrow> os_health_status s = health_status_of v \<Longrightarrow>
    os_risk_level s = risk_level_of p (os_health_status s) \<Longrightarrow> state_ok s"
  by (auto simp: state_ok_def health_status_of_def risk_level_of_def)

text \<open>The class of a state: its recommendation's priority.\<close>

definition policy_class :: "OperationalState \<Rightarrow> string" where
  "policy_class s = fst (recommendation_policy s)"

lemma policy_class_cases:
  assumes "state_ok s"
  obtains (critical) "policy_class s = ''P0''" "os_health_status s = ''CRITICAL''"
    | (elevated) "policy_class s = ''P1''" "os_health_status s \<noteq> ''CRITICAL''" "os_risk_level s = ''HIGH''"
    | (warning) "policy_class s = ''P2''" "os_health_status s \<noteq> ''CRITICAL''" "os_risk_level s = ''MEDIUM''"
    | (normal) "policy_class s = ''P3''" "os_health_status s = ''NORMAL''" "os_risk_level s = ''LOW''"
  using assms by (fastforce simp: state_ok_def policy_class_def recommendation_policy_def Let_def)

text \<open>What identifies a recommendation besides the asset.\<close>

definition policy_identity :: "string \<Rightarrow> string list" where
  "policy_identity pri =
     (if pri = ''P0'' then [''mitigate'', ''P0'', ''IMMEDIATE'', ''Immediate mitigation required'']
      else if pri = ''P1'' then [''investigate'', ''P1'', ''IMMEDIATE'', ''Elevated risk identified'']
      else if pri = ''P2'' then [''investigate'', ''P2'', ''SOON'', ''Investigation recommended'']
      else [''monitor'', ''P3'', ''SCHEDULED'', ''Continue monitoring''])"

definition recommendation_id_of :: "(string \<Rightarrow> string) \<Rightarrow> string \<Rightarrow> string \<Rightarrow> string" where
  "recommendation_id_of sha256_hex asset pri =
     ''rec-'' @ asset @ ''-'' @ take 16 (sha256_hex (str_join ''|'' (asset # policy_identity pri)))"

lemma recommendation_Ok:
  assumes "state_ok s"
  obtains r where "recommendation_compute sha256_hex s = Ok r" "rec_priority r = policy_class s"
    "rec_id r = recommendation_id_of sha256_hex (os_asset_id s) (policy_class s)" "rec_asset_id r = os_asset_id s"
    "rec_title r \<noteq> []" "rec_description r \<noteq> []" "rec_created_at r = os_last_updated s"
proof -
  have "\<exists>r. recommendation_compute sha256_hex s = Ok r \<and> rec_priority r = policy_class s \<and>
    rec_id r = recommendation_id_of sha256_hex (os_asset_id s) (policy_class s) \<and> rec_asset_id r = os_asset_id s \<and>
    rec_title r \<noteq> [] \<and> rec_description r \<noteq> [] \<and> rec_created_at r = os_last_updated s"
    using assms
    by (simp add: state_ok_def recommendation_compute_def policy_class_def recommendation_policy_def Let_def
        check_policy_recommendation_def construct_Cons recommendation_id_of_def policy_identity_def)
  then show ?thesis using that by blast
qed

lemma notification_Ok:
  assumes "rec_id r \<noteq> []" "rec_asset_id r \<noteq> []" "rec_title r \<noteq> []" "rec_description r \<noteq> []"
  shows "\<exists>n. notification_compute r = Ok n \<and>
    n = (if rec_priority r \<in> {''P0'', ''P1'', ''P2''} then
           Some \<lparr>nt_id = ''notif-'' @ rec_id r, nt_asset_id = rec_asset_id r, nt_recommendation_id = rec_id r,
                 nt_severity = (if rec_priority r = ''P0'' then ''CRITICAL'' else ''WARNING''), nt_status = ''OPEN'',
                 nt_title = rec_title r, nt_message = rec_description r, nt_created_at = rec_created_at r\<rparr>
         else None)"
  using assms by (simp add: notification_compute_def check_notification_def construct_Cons Let_def)

text \<open>From a state to its notification, as the observation service composes the engines.\<close>

definition notification_for_state :: "(string \<Rightarrow> string) \<Rightarrow> OperationalState \<Rightarrow> Notification option result" where
  "notification_for_state sha256_hex s = res_bind (recommendation_compute sha256_hex s) notification_compute"

lemma notification_for_state_Ok:
  assumes "state_ok s"
  obtains n where "notification_for_state sha256_hex s = Ok n"
    "map_option nt_id n = (if policy_class s = ''P3'' then None
       else Some (''notif-'' @ recommendation_id_of sha256_hex (os_asset_id s) (policy_class s)))"
    "map_option nt_severity n = (if policy_class s = ''P3'' then None
       else Some (if policy_class s = ''P0'' then ''CRITICAL'' else ''WARNING''))"
proof -
  obtain r where r: "recommendation_compute sha256_hex s = Ok r" "rec_priority r = policy_class s"
    "rec_id r = recommendation_id_of sha256_hex (os_asset_id s) (policy_class s)" "rec_asset_id r = os_asset_id s"
    "rec_title r \<noteq> []" "rec_description r \<noteq> []" "rec_created_at r = os_last_updated s"
    by (rule recommendation_Ok [OF assms])
  have "rec_id r \<noteq> []" "rec_asset_id r \<noteq> []" using r(3,4) assms by (simp_all add: recommendation_id_of_def state_ok_def)
  then obtain n where n: "notification_compute r = Ok n"
    "n = (if rec_priority r \<in> {''P0'', ''P1'', ''P2''} then
           Some \<lparr>nt_id = ''notif-'' @ rec_id r, nt_asset_id = rec_asset_id r, nt_recommendation_id = rec_id r,
                 nt_severity = (if rec_priority r = ''P0'' then ''CRITICAL'' else ''WARNING''), nt_status = ''OPEN'',
                 nt_title = rec_title r, nt_message = rec_description r, nt_created_at = rec_created_at r\<rparr>
         else None)"
    using notification_Ok [of r] r(5,6) by blast
  have "notification_for_state sha256_hex s = Ok n" by (simp add: notification_for_state_def r(1) n(1))
  moreover have "policy_class s \<in> {''P0'', ''P1'', ''P2'', ''P3''}" by (rule policy_class_cases [OF assms]) simp_all
  ultimately show ?thesis by (intro that) (auto simp: n(2) r(2,3))
qed

text \<open>
  C27. For well-formed observations and any plan with a recommendation the operational state is always
  computed; its score lies between 5 and 95, so the clamp and the checks never intervene; and the
  operator is notified unless health is normal and risk low, as critical exactly when the score is
  below 45.
\<close>

theorem operational_state_total:
  assumes "\<forall>ob \<in> set observations. observation_wf ob" "asset \<noteq> []" "plan_ok plan"
  shows "\<exists>s n. operational_state_compute asset now a observations plan structured = Ok s \<and>
    notification_for_state sha256_hex s = Ok n \<and>
    5 \<le> os_health_score s \<and> os_health_score s \<le> 95 \<and>
    (os_risk_level s = ''HIGH'' \<longleftrightarrow> plan_priority plan = PRI_HIGH \<or> os_health_score s < 45) \<and>
    (n = None \<longleftrightarrow> os_health_status s = ''NORMAL'' \<and> os_risk_level s = ''LOW'') \<and>
    (map_option nt_severity n = Some ''CRITICAL'' \<longleftrightarrow> os_health_score s < 45)"
proof -
  obtain s t where s: "operational_state_compute asset now a observations plan structured = Ok s"
    "os_health_status s = health_status_of (os_health_score s)"
    "os_risk_level s = risk_level_of (priority_value (plan_priority plan)) (os_health_status s)"
    "os_asset_id s = asset" "5 \<le> os_health_score s" "os_health_score s \<le> 95"
    by (rule operational_state_Ok [OF assms])
  have ok: "state_ok s" using s(2,3,4) assms(2) state_ok_risk by metis
  obtain n where n: "notification_for_state sha256_hex s = Ok n"
    "map_option nt_severity n = (if policy_class s = ''P3'' then None
       else Some (if policy_class s = ''P0'' then ''CRITICAL'' else ''WARNING''))"
    by (rule notification_for_state_Ok [OF ok])
  have crit: "os_health_status s = ''CRITICAL'' \<longleftrightarrow> os_health_score s < 45"
    by (simp add: s(2) health_status_of_def)
  have risk: "os_risk_level s = ''HIGH'' \<longleftrightarrow> plan_priority plan = PRI_HIGH \<or> os_health_score s < 45"
    using crit by (cases "plan_priority plan") (auto simp: s(3) risk_level_of_def)
  have "n = None \<longleftrightarrow> policy_class s = ''P3''" using n(2) by (auto split: if_splits)
  moreover have "policy_class s = ''P3'' \<longleftrightarrow> os_health_status s = ''NORMAL'' \<and> os_risk_level s = ''LOW''"
    "policy_class s = ''P0'' \<longleftrightarrow> os_health_status s = ''CRITICAL''"
    by (rule policy_class_cases [OF ok]; simp)+
  ultimately show ?thesis using s(1,5,6) n risk crit by auto
qed

definition demo_plan :: "Priority \<Rightarrow> DecisionPlan" where
  "demo_plan pri = \<lparr>plan_id = ''p'', plan_context_id = ''c'', plan_created_at = 0, plan_priority = pri,
     plan_recommendation = ''r'', plan_justification = ''j''\<rparr>"

theorem operational_state_total_witness:
  "\<exists>s. operational_state_compute ''a'' 0 ''stable'' (demo_series ''temp'' [1, 2, 3]) (demo_plan PRI_HIGH) None = Ok s \<and>
    os_risk_level s = ''HIGH''"
proof -
  have "\<forall>ob \<in> set (demo_series ''temp'' [1, 2, 3]). observation_wf ob" by (simp add: demo_series_def observation_wf_def)
  then show ?thesis
    using operational_state_total [of "demo_series ''temp'' [1, 2, 3]" "''a''" "demo_plan PRI_HIGH" 0 "''stable''" None id]
    by (auto simp: demo_plan_def plan_ok_def)
qed

text \<open>
  A plan of critical priority is not in the penalty table: it costs less than one of medium priority,
  and does not raise the risk by itself.
\<close>

lemma critical_priority_is_no_risk:
  "priority_penalty (priority_value PRI_CRITICAL) < priority_penalty (priority_value PRI_MEDIUM)"
  "risk_level_of (priority_value PRI_CRITICAL) ''NORMAL'' = ''LOW''"
  by (simp_all add: priority_penalty_def risk_level_of_def)

end
