(* ===== verification/Observation_Service.thy ===== *)
theory Observation_Service
  imports Operational_State Job_Queue Outbox Reasoning_History
begin

text \<open>
  The backend's write path (\<^verbatim>\<open>src/backend/app/application\<close>): \<^verbatim>\<open>observation_service.py\<close> stores an
  observation, its outbox row and its reasoning job in one unit of work and runs the reasoning session
  of an asset; \<^verbatim>\<open>reasoning_worker.py\<close> claims jobs and runs it; \<^verbatim>\<open>worker_main.py\<close> polls until the first
  exception. The wiring is that of \<^verbatim>\<open>observation_service_factory.py\<close>: every repository, the queue and
  the event bus are present, the session has no observation repository, registry or event publisher.
  The repositories are the dictionaries of \<^theory_text>\<open>Repositories\<close>, whose contracts the SQL tables share.
\<close>

section \<open>State\<close>

record 'w platform =
  pf_backend :: "'w backend"
  pf_observations :: observation_repo
  pf_situations :: situation_repo
  pf_contexts :: context_repo
  pf_plans :: plan_repo
  pf_runs :: run_repo
  pf_indexes :: index_repo
  pf_structured :: "(string, StructuredAssessment) dict"
  pf_traces :: "(string, ReasoningTrace) dict"
  pf_jobs :: job_table
  pf_metrics :: JobMetrics
  pf_outbox :: "OutboxEvent list"

type_synonym ('a, 'w) service = "'w platform \<Rightarrow> 'a result \<times> 'w platform"

definition pf_rt :: "'w platform \<Rightarrow> runtime" where
  "pf_rt pf = be_rt (pf_backend pf)"

definition set_rt :: "runtime \<Rightarrow> 'w platform \<Rightarrow> 'w platform" where
  "set_rt rt pf = pf\<lparr>pf_backend := (pf_backend pf)\<lparr>be_rt := rt\<rparr>\<rparr>"

definition sv_return :: "'a \<Rightarrow> ('a, 'w) service" where
  "sv_return x pf = (Ok x, pf)"

definition sv_bind :: "('a, 'w) service \<Rightarrow> ('a \<Rightarrow> ('b, 'w) service) \<Rightarrow> ('b, 'w) service" where
  "sv_bind m f pf = (case m pf of (Inl e, pf') \<Rightarrow> (Err e, pf') | (Inr x, pf') \<Rightarrow> f x pf')"

definition sv_lift :: "'a result \<Rightarrow> ('a, 'w) service" where
  "sv_lift r pf = (r, pf)"

definition sv_get :: "('w platform \<Rightarrow> 'a) \<Rightarrow> ('a, 'w) service" where
  "sv_get f pf = (Ok (f pf), pf)"

definition sv_now :: "(datetime, 'w) service" where
  "sv_now pf = (let (t, rt) = utc_now (pf_rt pf) in (Ok t, set_rt rt pf))"

definition sv_when :: "bool \<Rightarrow> (unit, 'w) service \<Rightarrow> (unit, 'w) service" where
  "sv_when b m = (if b then m else sv_return ())"

section \<open>The queue and the outbox inside the unit of work\<close>

definition queue_of :: "'w platform \<Rightarrow> job_queue" where
  "queue_of pf = \<lparr>jq_table = pf_jobs pf, jq_rt = pf_rt pf, jq_metrics = pf_metrics pf\<rparr>"

definition with_queue :: "job_queue \<Rightarrow> 'w platform \<Rightarrow> 'w platform" where
  "with_queue q pf = set_rt (jq_rt q) (pf\<lparr>pf_jobs := jq_table q, pf_metrics := jq_metrics q\<rparr>)"

definition sv_queue :: "'a queue_op \<Rightarrow> ('a, 'w) service" where
  "sv_queue op pf = (let (r, q) = op (queue_of pf) in (r, with_queue q pf))"

text \<open>\<^verbatim>\<open>session.add(OutboxEvent(id=str(uuid4()), ...))\<close>.\<close>

definition add_event :: "string \<Rightarrow> (string, json) dict \<Rightarrow> datetime \<Rightarrow> (unit, 'w) service" where
  "add_event ty payload created pf =
     (let (i, rt) = uuid4 (pf_rt pf)
      in (Ok (), set_rt rt (pf\<lparr>pf_outbox := pf_outbox pf @
            [\<lparr>ox_id = i, ox_event_type = ty, ox_payload = payload, ox_created_at = created,
              ox_dispatched_at = None\<rparr>]\<rparr>)))"

text \<open>The same where the identifier is drawn before the two clock readings.\<close>

definition add_event_now :: "string \<Rightarrow> (datetime \<Rightarrow> (string, json) dict) \<Rightarrow> (unit, 'w) service" where
  "add_event_now ty payload pf =
     (let (i, rt) = uuid4 (pf_rt pf); (t, rt) = utc_now rt; (created, rt) = utc_now rt
      in (Ok (), set_rt rt (pf\<lparr>pf_outbox := pf_outbox pf @
            [\<lparr>ox_id = i, ox_event_type = ty, ox_payload = payload t, ox_created_at = created,
              ox_dispatched_at = None\<rparr>]\<rparr>)))"

definition sv_dispatch :: "'w OutboxDispatcher \<Rightarrow> (unit, 'w) service" where
  "sv_dispatch d pf =
     (case outbox_dispatch d (pf_outbox pf) (pf_backend pf) of
        (r, table, b) \<Rightarrow> (r, pf\<lparr>pf_outbox := table, pf_backend := b\<rparr>))"

section \<open>Storing an observation\<close>

record ObservationCreateResult =
  oc_observation :: Observation
  oc_job :: ReasoningJob

definition already_exists :: "py_error \<Rightarrow> py_error" where
  "already_exists e =
     (case e of
        ValueError msg \<Rightarrow> if py_in ''already exists'' msg then AppError ''ObservationAlreadyExistsError'' msg else e
      | _ \<Rightarrow> e)"

text \<open>
  The unit of work of a create: an exception rolls the tables back, so only identifiers and clock
  readings and the counters of the process remain.
\<close>

definition rolled_back :: "'w platform \<Rightarrow> 'w platform \<Rightarrow> 'w platform" where
  "rolled_back before after = set_rt (pf_rt after) (before\<lparr>pf_metrics := pf_metrics after\<rparr>)"

definition create_unit :: "Observation \<Rightarrow> (ReasoningJob, 'w) service" where
  "create_unit ob pf =
     (case observation_save ob (pf_observations pf) of
        Inl e \<Rightarrow> (Err e, pf)
      | Inr repo \<Rightarrow>
          sv_bind (add_event_now ''ObservationCreated'' (\<lambda>t.
             [(''asset_id'', JStr (obs_asset_id ob)), (''observation_id'', JStr (obs_id ob)),
              (''timestamp'', JStr (isoformat t))])) (\<lambda>_.
          sv_queue (enqueue (obs_asset_id ob))) (pf\<lparr>pf_observations := repo\<rparr>))"

definition observation_create ::
    "'w OutboxDispatcher \<Rightarrow> Observation \<Rightarrow> (ObservationCreateResult, 'w) service" where
  "observation_create d ob pf =
     (case create_unit ob pf of
        (Inl e, pf') \<Rightarrow> (Err (already_exists e), rolled_back pf pf')
      | (Inr job, pf') \<Rightarrow>
          sv_bind (sv_dispatch d) (\<lambda>_. sv_return \<lparr>oc_observation = ob, oc_job = job\<rparr>) pf')"

section \<open>Running the reasoning of an asset\<close>

definition can_run_reasoning :: "Observation list \<Rightarrow> bool" where
  "can_run_reasoning obs =
     (if length obs < 2 then False else length (primary_measurement_observations obs) \<ge> 2)"

text \<open>The latest run with one of the asset's observations; the first one listed when two started together.\<close>

definition latest_index :: "'w platform \<Rightarrow> string \<Rightarrow> ReasoningRunIndex option" where
  "latest_index pf asset =
     (let ids = map obs_id (list_by_asset (pf_observations pf) asset);
          step = (\<lambda>latest index.
            if \<not> list_ex (\<lambda>i. i \<in> set ids) (idx_observation_ids index) then latest
            else case run_get (pf_runs pf) (idx_run_id index) of
                   None \<Rightarrow> latest
                 | Some run \<Rightarrow>
                     (case latest of
                        Some (t, _) \<Rightarrow> if run_started_at run > t then Some (run_started_at run, index) else latest
                      | None \<Rightarrow> Some (run_started_at run, index)))
      in map_option snd (foldl step None (index_list (pf_indexes pf))))"

definition latest_recommendation :: "'w platform \<Rightarrow> string \<Rightarrow> string option" where
  "latest_recommendation pf asset =
     (case latest_index pf asset of
        None \<Rightarrow> None
      | Some index \<Rightarrow> map_option plan_recommendation (plan_get (pf_plans pf) (idx_plan_id index)))"

definition state_for_run :: "'w platform \<Rightarrow> string \<Rightarrow> string \<Rightarrow> OperationalState option result" where
  "state_for_run pf asset rid =
     (case (run_index_get (pf_indexes pf) rid, run_get (pf_runs pf) rid) of
        (Some index, Some run) \<Rightarrow>
          (case plan_get (pf_plans pf) (idx_plan_id index) of
             None \<Rightarrow> Ok None
           | Some plan \<Rightarrow>
               (let obs = sorted_by time_id_key
                      (List.map_filter (observation_get (pf_observations pf)) (idx_observation_ids index))
                in res_bind (operational_state_compute asset (run_started_at run) [] obs plan
                               (structured_get_by_run_id (pf_structured pf) rid)) (\<lambda>s. Ok (Some s))))
      | _ \<Rightarrow> Ok None)"

definition latest_state :: "'w platform \<Rightarrow> string \<Rightarrow> OperationalState option result" where
  "latest_state pf asset =
     (case latest_index pf asset of None \<Rightarrow> Ok None | Some index \<Rightarrow> state_for_run pf asset (idx_run_id index))"

text \<open>The session as it is wired, and its tables afterwards, whether it returned or raised.\<close>

definition session_of :: "'w platform \<Rightarrow> session_state" where
  "session_of pf =
     \<lparr>ss_rt = pf_rt pf, ss_runs = Some (pf_runs pf), ss_registry = None, ss_observations = None,
      ss_situations = Some (pf_situations pf), ss_contexts = Some (pf_contexts pf),
      ss_plans = Some (pf_plans pf), ss_indexes = Some (pf_indexes pf), ss_events = None\<rparr>"

definition with_session :: "session_state \<Rightarrow> 'w platform \<Rightarrow> 'w platform" where
  "with_session s pf =
     set_rt (ss_rt s) (pf\<lparr>pf_runs := the (ss_runs s), pf_situations := the (ss_situations s),
       pf_contexts := the (ss_contexts s), pf_plans := the (ss_plans s), pf_indexes := the (ss_indexes s)\<rparr>)"

definition DEFAULT_OPERATIONAL_GOAL :: OperationalGoal where
  "DEFAULT_OPERATIONAL_GOAL =
     \<lparr>goal_id = ''platform-default-goal'', goal_description = ''Maintain stable fuel cell operation''\<rparr>"

definition DEFAULT_SESSION_CONFIG :: ReasoningSessionConfig where
  "DEFAULT_SESSION_CONFIG = \<lparr>cfg_observation_window = Some DEFAULT_OBSERVATION_WINDOW\<rparr>"

definition sv_session :: "Observation list \<Rightarrow> (ReasoningResult, 'w) service" where
  "sv_session obs pf =
     (case session_run fuel_cell_default_profile DEFAULT_SESSION_CONFIG DEFAULT_OPERATIONAL_GOAL obs (session_of pf) of
        (r, s) \<Rightarrow> (r, with_session s pf))"

definition save_structured :: "string \<Rightarrow> StructuredAssessment \<Rightarrow> (unit, 'w) service" where
  "save_structured rid sa pf =
     (case structured_save rid sa (pf_structured pf) of
        Inl e \<Rightarrow> (Err e, pf) | Inr t \<Rightarrow> (Ok (), pf\<lparr>pf_structured := t\<rparr>))"

definition save_trace :: "string \<Rightarrow> ReasoningTrace \<Rightarrow> (unit, 'w) service" where
  "save_trace rid trace pf =
     (case trace_save rid trace (pf_traces pf) of
        Inl e \<Rightarrow> (Err e, pf) | Inr t \<Rightarrow> (Ok (), pf\<lparr>pf_traces := t\<rparr>))"

section \<open>The rows of a run\<close>

definition run_event :: "string \<Rightarrow> string \<Rightarrow> (string, json) dict \<Rightarrow> (string, json) dict" where
  "run_event asset rid entries = [(''asset_id'', JStr asset), (''run_id'', JStr rid)] @ entries"

definition stamp :: "datetime \<Rightarrow> (string, json) dict" where
  "stamp t = [(''timestamp'', JStr (isoformat t))]"

definition trend_changed :: "TrendDiagnostics option \<Rightarrow> TrendDiagnostics option \<Rightarrow> nat \<Rightarrow> TrendDiagnostics option" where
  "trend_changed before after n =
     (case (before, after) of
        (Some p, Some q) \<Rightarrow>
          if td_direction p \<noteq> td_direction q \<and> n \<ge> 4 \<and> td_stability_score q \<ge> 70 \<and> td_direction q \<noteq> ''stable''
          then Some p else None
      | _ \<Rightarrow> None)"

definition add_trend_event ::
    "string \<Rightarrow> string \<Rightarrow> datetime \<Rightarrow> TrendDiagnostics option \<Rightarrow> TrendDiagnostics option \<Rightarrow> nat \<Rightarrow> (unit, 'w) service" where
  "add_trend_event asset rid now before after n =
     (case (trend_changed before after n, after) of
        (Some p, Some q) \<Rightarrow>
          add_event ''TrendChanged'' (run_event asset rid
            ([(''previous_direction'', JStr (td_direction p)), (''new_direction'', JStr (td_direction q)),
              (''stability_score'', JInt (td_stability_score q)), (''volatility_score'', JInt (td_volatility_score q))]
             @ stamp now)) now
      | _ \<Rightarrow> sv_return ())"

definition add_recommendation_event ::
    "string \<Rightarrow> string \<Rightarrow> datetime \<Rightarrow> string option \<Rightarrow> string \<Rightarrow> (unit, 'w) service" where
  "add_recommendation_event asset rid now previous recommendation =
     (case previous of
        None \<Rightarrow> sv_return ()
      | Some p \<Rightarrow> sv_when (p \<noteq> recommendation)
          (add_event ''RecommendationUpdated'' (run_event asset rid
             ([(''previous_recommendation'', JStr p), (''new_recommendation'', JStr recommendation)] @ stamp now)) now))"

definition add_state_events ::
    "string \<Rightarrow> string \<Rightarrow> datetime \<Rightarrow> OperationalState option \<Rightarrow> OperationalState \<Rightarrow> (unit, 'w) service" where
  "add_state_events asset rid now previous new =
     (case previous of
        None \<Rightarrow> sv_return ()
      | Some p \<Rightarrow>
          sv_bind (sv_when (os_health_status p \<noteq> os_health_status new)
            (add_event ''HealthChanged'' (run_event asset rid
               ([(''previous_health_status'', JStr (os_health_status p)),
                 (''new_health_status'', JStr (os_health_status new)),
                 (''health_score'', JInt (os_health_score new))] @ stamp now)) now)) (\<lambda>_.
          sv_when (os_risk_level p \<noteq> os_risk_level new)
            (add_event ''RiskChanged'' (run_event asset rid
               ([(''previous_risk_level'', JStr (os_risk_level p)), (''new_risk_level'', JStr (os_risk_level new)),
                 (''health_score'', JInt (os_health_score new))] @ stamp now)) now)))"

definition add_notification_event ::
    "string \<Rightarrow> string \<Rightarrow> datetime \<Rightarrow> string option \<Rightarrow> Notification option \<Rightarrow> (unit, 'w) service" where
  "add_notification_event asset rid now previous notification =
     (case notification of
        None \<Rightarrow> sv_return ()
      | Some n \<Rightarrow> sv_when (previous \<noteq> Some (nt_id n))
          (add_event ''NotificationCreated'' (run_event asset rid
             ([(''notification_id'', JStr (nt_id n)), (''recommendation_id'', JStr (nt_recommendation_id n)),
               (''severity'', JStr (nt_severity n)), (''status'', JStr (nt_status n)), (''title'', JStr (nt_title n)),
               (''message'', JStr (nt_message n)), (''created_at'', JStr (isoformat (nt_created_at n)))] @ stamp now)) now))"

definition previous_notification ::
    "(string \<Rightarrow> string) \<Rightarrow> OperationalState option \<Rightarrow> string option result" where
  "previous_notification sha256_hex previous =
     (case previous of
        None \<Rightarrow> Ok None
      | Some s \<Rightarrow> res_bind (notification_for_state sha256_hex s) (\<lambda>n. Ok (map_option nt_id n)))"

definition run_reasoning_for_asset :: "(string \<Rightarrow> string) \<Rightarrow> string \<Rightarrow> (bool, 'w) service" where
  "run_reasoning_for_asset sha256_hex asset =
     sv_bind (sv_get (\<lambda>pf. list_by_asset (pf_observations pf) asset)) (\<lambda>listed.
     if \<not> can_run_reasoning listed then sv_return False
     else
       let obs = sorted_by time_id_key listed; primary = primary_measurement_observations obs in
       sv_bind (sv_get (\<lambda>pf. latest_recommendation pf asset)) (\<lambda>previous_recommendation.
       sv_bind (\<lambda>pf. (latest_state pf asset, pf)) (\<lambda>previous_state.
       sv_bind (sv_lift (previous_notification sha256_hex previous_state)) (\<lambda>previous_notification_id.
       sv_bind sv_now (\<lambda>now.
       sv_bind (sv_lift (analyze_trend_diagnostics (if length primary \<ge> 2 then butlast primary else [])
                  (int MIN_SAMPLES_FOR_TREND_ANALYSIS))) (\<lambda>prev_trend.
       sv_bind (sv_session obs) (\<lambda>res.
       let rid = run_id (rr_run res) in
       sv_bind (sv_lift (operational_state_compute asset (run_started_at (rr_run res))
                  (dc_assessment (rr_context res)) obs (rr_plan res) (Some (rr_structured_assessment res)))) (\<lambda>new_state.
       sv_bind (sv_lift (notification_for_state sha256_hex new_state)) (\<lambda>notification.
       sv_bind (sv_lift (analyze_trend_diagnostics primary (int MIN_SAMPLES_FOR_TREND_ANALYSIS))) (\<lambda>new_trend.
       sv_bind (add_event ''ReasoningStarted'' (run_event asset rid (stamp (run_started_at (rr_run res)))) now) (\<lambda>_.
       sv_bind (save_structured rid (rr_structured_assessment res)) (\<lambda>_.
       sv_bind (save_trace rid (rr_trace res)) (\<lambda>_.
       sv_bind (add_trend_event asset rid now prev_trend new_trend (length primary)) (\<lambda>_.
       sv_bind (add_recommendation_event asset rid now previous_recommendation (plan_recommendation (rr_plan res))) (\<lambda>_.
       sv_bind (add_state_events asset rid now previous_state new_state) (\<lambda>_.
       sv_bind (add_notification_event asset rid now previous_notification_id notification) (\<lambda>_.
       sv_bind (add_event_now ''ReasoningCompleted'' (\<lambda>t. run_event asset rid (stamp t))) (\<lambda>_.
       sv_return True))))))))))))))))))"

section \<open>The worker\<close>

text \<open>
  One job: claimed, run, completed and committed, then the outbox is dispatched. Any exception,
  the dispatcher's included, fails the job and commits what the session holds.
\<close>

definition process_next :: "'w OutboxDispatcher \<Rightarrow> (string \<Rightarrow> string) \<Rightarrow> (bool, 'w) service" where
  "process_next d sha256_hex =
     sv_bind (sv_queue claim) (\<lambda>claimed.
     case claimed of
       None \<Rightarrow> sv_return False
     | Some job \<Rightarrow>
         (\<lambda>pf.
            case sv_bind (run_reasoning_for_asset sha256_hex (rj_asset_id job)) (\<lambda>_.
                 sv_bind (sv_queue (queue_complete job)) (\<lambda>_. sv_dispatch d)) pf of
              (Inr _, pf') \<Rightarrow> (Ok True, pf')
            | (Inl e, pf') \<Rightarrow> sv_bind (sv_queue (queue_fail job)) (\<lambda>_. sv_lift (Err e)) pf'))"

text \<open>What arrives between two polls, and the polls of a process until one of them raises.\<close>

fun create_all :: "'w OutboxDispatcher \<Rightarrow> Observation list \<Rightarrow> 'w platform \<Rightarrow> 'w platform" where
  "create_all d [] pf = pf"
| "create_all d (ob # obs) pf = create_all d obs (snd (observation_create d ob pf))"

fun run_worker :: "'w OutboxDispatcher \<Rightarrow> (string \<Rightarrow> string) \<Rightarrow> Observation list list \<Rightarrow> (unit, 'w) service" where
  "run_worker d sha256_hex [] pf = (Ok (), pf)"
| "run_worker d sha256_hex (arrivals # polls) pf =
     (case process_next d sha256_hex (create_all d arrivals pf) of
        (Inl e, pf') \<Rightarrow> (Err e, pf')
      | (Inr _, pf') \<Rightarrow> run_worker d sha256_hex polls pf')"



section \<open>What a run of the service leaves alone\<close>

text \<open>A relation between platforms that every operation keeps is kept by what is built from them.\<close>

definition sv_keeps :: "('w platform \<Rightarrow> 'w platform \<Rightarrow> bool) \<Rightarrow> ('a, 'w) service \<Rightarrow> bool" where
  "sv_keeps R m \<longleftrightarrow> (\<forall>pf. R pf (snd (m pf)))"

lemma sv_keepsD: "sv_keeps R m \<Longrightarrow> m pf = (r, pf') \<Longrightarrow> R pf pf'"
  unfolding sv_keeps_def by (metis snd_conv)

locale service_frame =
  fixes R :: "'w platform \<Rightarrow> 'w platform \<Rightarrow> bool"
  assumes same: "R pf pf"
    and then_kept: "R a b \<Longrightarrow> R b c \<Longrightarrow> R a c"
begin

lemma sv_pure: "sv_keeps R (sv_return x)" "sv_keeps R (sv_lift r)" "sv_keeps R (sv_get f)" "sv_keeps R (\<lambda>pf. (g pf, pf))"
  by (simp_all add: sv_keeps_def sv_return_def sv_lift_def sv_get_def same)

lemma sv_bind_kept:
  assumes "sv_keeps R m" "\<And>x. sv_keeps R (f x)"
  shows "sv_keeps R (sv_bind m f)"
  unfolding sv_keeps_def
proof
  fix pf
  obtain r pf1 where m: "m pf = (r, pf1)" by fastforce
  have "R pf pf1" by (rule sv_keepsD [OF assms(1) m])
  moreover have "R pf1 (snd (f x pf1))" for x using assms(2) by (simp add: sv_keeps_def)
  ultimately show "R pf (snd (sv_bind m f pf))"
    by (cases r) (auto simp: sv_bind_def m intro: then_kept)
qed

lemma sv_when_kept: "sv_keeps R m \<Longrightarrow> sv_keeps R (sv_when b m)"
  by (simp add: sv_when_def sv_pure)

end

text \<open>
  A run only reads observations and jobs, draws identifiers and times, and appends rows to the outbox
  that the dispatcher can read.
\<close>

definition run_frame :: "'w OutboxDispatcher \<Rightarrow> 'w platform \<Rightarrow> 'w platform \<Rightarrow> bool" where
  "run_frame d pf pf' \<longleftrightarrow>
     rt_later (pf_rt pf) (pf_rt pf') \<and> pf_jobs pf' = pf_jobs pf \<and> pf_metrics pf' = pf_metrics pf \<and>
     pf_observations pf' = pf_observations pf \<and>
     (\<exists>new. pf_outbox pf' = pf_outbox pf @ new \<and> (\<forall>row \<in> set new. readable_row d row))"

interpretation run_frame: service_frame "run_frame d" for d
proof
  fix a b c :: "'a platform"
  show "run_frame d a a" by (simp add: run_frame_def)
  assume "run_frame d a b" "run_frame d b c"
  then show "run_frame d a c" unfolding run_frame_def using rt_later_trans by fastforce
qed

lemma set_rt_simps [simp]:
  "pf_rt (set_rt rt pf) = rt" "pf_jobs (set_rt rt pf) = pf_jobs pf" "pf_metrics (set_rt rt pf) = pf_metrics pf"
  "pf_observations (set_rt rt pf) = pf_observations pf" "pf_outbox (set_rt rt pf) = pf_outbox pf"
  "pf_rt (pf\<lparr>pf_outbox := rows\<rparr>) = pf_rt pf" "pf_rt (pf\<lparr>pf_structured := ss\<rparr>) = pf_rt pf"
  "pf_rt (pf\<lparr>pf_traces := ts\<rparr>) = pf_rt pf" "pf_rt (pf\<lparr>pf_observations := os\<rparr>) = pf_rt pf"
  "pf_rt (pf\<lparr>pf_jobs := js\<rparr>) = pf_rt pf" "pf_rt (pf\<lparr>pf_metrics := ms\<rparr>) = pf_rt pf"
  by (simp_all add: set_rt_def pf_rt_def)

lemma frame_now: "sv_keeps (run_frame d) sv_now"
  using utc_now_later by (auto simp: sv_keeps_def sv_now_def run_frame_def split: prod.splits)

definition pending_event :: "string \<Rightarrow> string \<Rightarrow> (string, json) dict \<Rightarrow> datetime \<Rightarrow> OutboxEvent" where
  "pending_event i ty payload created =
     \<lparr>ox_id = i, ox_event_type = ty, ox_payload = payload, ox_created_at = created, ox_dispatched_at = None\<rparr>"

lemma frame_event:
  assumes "\<And>i t. readable_row d (pending_event i ty payload t)"
  shows "sv_keeps (run_frame d) (add_event ty payload created)"
  using uuid4_later assms
  by (auto simp: sv_keeps_def add_event_def run_frame_def pending_event_def split: prod.splits)

lemma frame_event_now:
  assumes "\<And>i t created. readable_row d (pending_event i ty (payload t) created)"
  shows "sv_keeps (run_frame d) (add_event_now ty payload)"
  unfolding sv_keeps_def
proof
  fix pf :: "'a platform"
  obtain i rt1 where i: "uuid4 (pf_rt pf) = (i, rt1)" by fastforce
  obtain t rt2 where t: "utc_now rt1 = (t, rt2)" by fastforce
  obtain c rt3 where c: "utc_now rt2 = (c, rt3)" by fastforce
  have "rt_later (pf_rt pf) rt3"
    using uuid4_later [OF i] utc_now_later [OF t] utc_now_later [OF c] rt_later_trans by blast
  then show "run_frame d pf (snd (add_event_now ty payload pf))"
    using assms by (simp add: add_event_now_def i t c run_frame_def pending_event_def)
qed


text \<open>The dispatcher can parse the times the service prints.\<close>

definition reads_stamps :: "'w OutboxDispatcher \<Rightarrow> bool" where
  "reads_stamps d \<longleftrightarrow> (\<forall>t. \<exists>t'. od_fromisoformat d (isoformat t) = Some t')"

lemmas row_defs = readable_row_def pending_event_def deserialize_domain_event_def payload_str_def payload_time_def
  payload_int_def py_int_def parse_datetime_def dict_item_def json_str_def run_event_def stamp_def

lemma rows_readable:
  assumes "reads_stamps d"
  shows "readable_row d (pending_event i ''ObservationCreated''
           [(''asset_id'', JStr a), (''observation_id'', JStr oid), (''timestamp'', JStr (isoformat t))] c)"
    and "readable_row d (pending_event i ''ReasoningStarted'' (run_event a rid (stamp t)) c)"
    and "readable_row d (pending_event i ''ReasoningCompleted'' (run_event a rid (stamp t)) c)"
    and "readable_row d (pending_event i ''TrendChanged'' (run_event a rid
      ([(''previous_direction'', JStr p), (''new_direction'', JStr q), (''stability_score'', JInt s),
        (''volatility_score'', JInt v)] @ stamp t)) c)"
    and "readable_row d (pending_event i ''RecommendationUpdated'' (run_event a rid
      ([(''previous_recommendation'', JStr p), (''new_recommendation'', JStr q)] @ stamp t)) c)"
    and "readable_row d (pending_event i ''HealthChanged'' (run_event a rid
      ([(''previous_health_status'', JStr p), (''new_health_status'', JStr q), (''health_score'', JInt s)] @ stamp t)) c)"
    and "readable_row d (pending_event i ''RiskChanged'' (run_event a rid
      ([(''previous_risk_level'', JStr p), (''new_risk_level'', JStr q), (''health_score'', JInt s)] @ stamp t)) c)"
    and "readable_row d (pending_event i ''NotificationCreated'' (run_event a rid
      ([(''notification_id'', JStr n), (''recommendation_id'', JStr rec), (''severity'', JStr sev), (''status'', JStr st),
        (''title'', JStr title), (''message'', JStr msg), (''created_at'', JStr (isoformat u))] @ stamp t)) c)"
  using assms unfolding reads_stamps_def choice_iff by (auto simp: row_defs)

lemma frame_events:
  assumes "reads_stamps d"
  shows "sv_keeps (run_frame d) (add_event ''ReasoningStarted'' (run_event a rid (stamp t)) c)"
    and "sv_keeps (run_frame d) (add_event_now ''ReasoningCompleted'' (\<lambda>t. run_event a rid (stamp t)))"
    and "sv_keeps (run_frame d) (add_trend_event a rid t before after n)"
    and "sv_keeps (run_frame d) (add_recommendation_event a rid t old new)"
    and "sv_keeps (run_frame d) (add_state_events a rid t previous state)"
    and "sv_keeps (run_frame d) (add_notification_event a rid t shown notification)"
  unfolding add_trend_event_def add_recommendation_event_def add_state_events_def add_notification_event_def
  by (auto split: option.splits intro!: run_frame.sv_pure run_frame.sv_bind_kept run_frame.sv_when_kept
      frame_event frame_event_now rows_readable [OF assms, unfolded append_Cons append_Nil])

text \<open>The session and the stores of its results.\<close>

lemma frame_saves: "sv_keeps (run_frame d) (save_structured rid sa)" "sv_keeps (run_frame d) (save_trace rid trace)"
  by (auto simp: sv_keeps_def save_structured_def save_trace_def run_frame_def split: sum.splits)

definition env_kept :: "session_state \<Rightarrow> session_state \<Rightarrow> bool" where
  "env_kept s t \<longleftrightarrow> env_advances (ss_rt s) (ss_rt t)"

lemma env_kept_bind: "keeps env_kept m \<Longrightarrow> (\<And>x. keeps env_kept (f x)) \<Longrightarrow> keeps env_kept (eff_bind m f)"
  by (rule keeps_bind) (auto simp: env_kept_def intro: env_advances_trans)

lemma env_kept_basic:
  "keeps env_kept (save_run run)" "keeps env_kept (register_run run)" "keeps env_kept (save_observation ob)"
  "keeps env_kept (save_situation st)" "keeps env_kept (save_context c)" "keeps env_kept (save_plan p)"
  "keeps env_kept (save_index i)" "keeps env_kept (publish_if ev)" "keeps env_kept (eff_return x)"
  "keeps env_kept (eff_lift l)"
  by (auto simp: keeps_def env_kept_def save_if_def save_run_def register_run_def save_observation_def
      save_situation_def save_context_def save_plan_def save_index_def publish_if_def eff_return_def eff_lift_def
      split: option.splits sum.splits)


lemma env_kept_rt: "(\<And>rt x rt'. f rt = Ok (x, rt') \<Longrightarrow> env_advances rt rt') \<Longrightarrow> keeps env_kept (eff_rt f)"
  by (auto simp: keeps_def env_kept_def eff_rt_def split: sum.splits prod.splits)

lemma env_kept_draws: "keeps env_kept eff_uuid4" "keeps env_kept eff_utc_now"
  using env_advances_uuid4 env_advances_utc_now
  by (auto simp: keeps_def env_kept_def eff_uuid4_def eff_utc_now_def split: prod.splits)

lemma env_kept_ingest: "keeps env_kept (ingest_observations obs)"
  by (induction obs) (auto intro: env_kept_bind env_kept_basic)

lemma env_kept_persist: "keeps env_kept (persist_results st c p)"
proof -
  have "keeps env_kept (\<lambda>s. case ss_events s of None \<Rightarrow> (Ok (), s)
      | Some _ \<Rightarrow> eff_bind eff_utc_now (\<lambda>now. publish_if (OperationalSituationCreated i now)) s)" for i
  proof -
    have "keeps env_kept (eff_bind eff_utc_now (\<lambda>now. publish_if (OperationalSituationCreated i now)))"
      by (intro env_kept_bind env_kept_basic env_kept_draws)
    then show ?thesis by (auto simp: keeps_def env_kept_def split: option.splits)
  qed
  then show ?thesis unfolding persist_results_def by (intro env_kept_bind env_kept_basic)
qed

lemma env_kept_stages: "keeps env_kept (eff_rt (run_stages reasoning_stages c))"
  by (rule env_kept_rt) (use pipeline.pipeline_frame in blast)

lemma env_kept_records: "keeps env_kept (eff_rt (record_action p))" "keeps env_kept (eff_rt (record_outcome a))"
  by (auto intro!: env_kept_rt simp: record_action_def record_outcome_def res_bind_Ok_iff
      dest: env_advances_uuid4 split: prod.splits)

lemma session_env: "env_kept s (snd (session_run profile config goal obs s))"
proof -
  have "keeps env_kept (session_run profile config goal obs)"
    unfolding session_run_def run_body_def Let_def
    by (intro env_kept_bind env_kept_basic env_kept_draws env_kept_ingest env_kept_stages)
      (auto split: prod.splits intro!: env_kept_bind env_kept_basic env_kept_persist env_kept_records)
  then show ?thesis by (simp add: keeps_def)
qed

lemma frame_session: "sv_keeps (run_frame d) (sv_session obs)"
proof -
  have "rt_later (pf_rt pf) (pf_rt (snd (sv_session obs pf)))" for pf :: "'a platform"
    using session_env [of "session_of pf" fuel_cell_default_profile DEFAULT_SESSION_CONFIG DEFAULT_OPERATIONAL_GOAL obs]
    by (auto simp: sv_session_def with_session_def session_of_def env_kept_def env_advances_def rt_later_def
        split: prod.splits)
  moreover have "pf_jobs (with_session s pf) = pf_jobs pf" "pf_metrics (with_session s pf) = pf_metrics pf"
    "pf_observations (with_session s pf) = pf_observations pf" "pf_outbox (with_session s pf) = pf_outbox pf"
    for s and pf :: "'a platform"
    by (simp_all add: with_session_def set_rt_def)
  ultimately show ?thesis by (auto simp: sv_keeps_def run_frame_def sv_session_def split: prod.splits)
qed

lemma run_reasoning_frame:
  assumes "reads_stamps d"
  shows "sv_keeps (run_frame d) (run_reasoning_for_asset sha256_hex a)"
  unfolding run_reasoning_for_asset_def Let_def
  by (intro run_frame.sv_bind_kept run_frame.sv_pure)
    (auto intro!: run_frame.sv_bind_kept run_frame.sv_pure frame_now frame_session frame_saves frame_events [OF assms])


section \<open>The queue and the dispatcher inside the platform\<close>

lemma queue_of_simps [simp]:
  "queue_of (with_queue q pf) = q" "pf_observations (with_queue q pf) = pf_observations pf"
  "pf_outbox (with_queue q pf) = pf_outbox pf" "pf_jobs (with_queue q pf) = jq_table q" "pf_rt (with_queue q pf) = jq_rt q"
  "jq_table (queue_of pf) = pf_jobs pf" "jq_rt (queue_of pf) = pf_rt pf"
  by (simp_all add: queue_of_def with_queue_def)

definition outbox_readable :: "'w OutboxDispatcher \<Rightarrow> 'w platform \<Rightarrow> bool" where
  "outbox_readable d pf \<longleftrightarrow> (\<forall>row \<in> set (pf_outbox pf). ox_dispatched_at row = None \<longrightarrow> readable_row d row)"

text \<open>States between the operations of the processes: the queue is sound and no row is poisoned.\<close>

definition platform_inv :: "'w OutboxDispatcher \<Rightarrow> 'w platform \<Rightarrow> bool" where
  "platform_inv d pf \<longleftrightarrow> queue_inv (queue_of pf) \<and> outbox_readable d pf"

lemma platform_inv_frame:
  assumes "run_frame d pf pf'" "platform_inv d pf"
  shows "platform_inv d pf'"
proof -
  have "queue_of pf' = (queue_of pf)\<lparr>jq_rt := pf_rt pf'\<rparr>" and later: "rt_later (jq_rt (queue_of pf)) (pf_rt pf')"
    using assms(1) by (simp_all add: run_frame_def queue_of_def)
  then have "queue_inv (queue_of pf')" using queue_inv_later [OF _ later] assms(2) by (simp add: platform_inv_def)
  moreover have "outbox_readable d pf'"
    using assms unfolding run_frame_def platform_inv_def outbox_readable_def by fastforce
  ultimately show ?thesis by (simp add: platform_inv_def)
qed

lemma sv_dispatch_keeps:
  assumes "dispatcher_advances (Some d)" "sv_dispatch d pf = (r, pf')"
  shows "queue_of pf' = (queue_of pf)\<lparr>jq_rt := pf_rt pf'\<rparr>" "rt_later (pf_rt pf) (pf_rt pf')"
    "pf_observations pf' = pf_observations pf"
    "map (ox_dispatched_at_update (\<lambda>_. None)) (pf_outbox pf') = map (ox_dispatched_at_update (\<lambda>_. None)) (pf_outbox pf)"
    "platform_inv d pf \<Longrightarrow> platform_inv d pf'"
proof -
  obtain table b where out: "outbox_dispatch d (pf_outbox pf) (pf_backend pf) = (r, table, b)"
    and pf': "pf' = pf\<lparr>pf_outbox := table, pf_backend := b\<rparr>"
    using assms(2) by (auto simp: sv_dispatch_def split: prod.splits)
  show q: "queue_of pf' = (queue_of pf)\<lparr>jq_rt := pf_rt pf'\<rparr>" by (simp add: pf' queue_of_def)
  show later: "rt_later (pf_rt pf) (pf_rt pf')"
    using outbox_dispatch_env [OF assms(1) out] by (simp add: pf' pf_rt_def env_advances_def rt_later_def)
  show "pf_observations pf' = pf_observations pf"
    "map (ox_dispatched_at_update (\<lambda>_. None)) (pf_outbox pf') = map (ox_dispatched_at_update (\<lambda>_. None)) (pf_outbox pf)"
    using outbox_dispatch_rows(1) [OF out] by (simp_all add: pf')
  assume inv: "platform_inv d pf"
  have "rt_later (jq_rt (queue_of pf)) (pf_rt pf')" using later by simp
  with inv have "queue_inv (queue_of pf')" unfolding q platform_inv_def using queue_inv_later by blast
  moreover have "outbox_readable d pf'"
    using inv outbox_dispatch_rows(2) [OF out] unfolding platform_inv_def outbox_readable_def pf' by auto
  ultimately show "platform_inv d pf'" by (simp add: platform_inv_def)
qed

lemma sv_dispatch_total:
  assumes "delivers d" "outbox_readable d pf"
  obtains pf' where "sv_dispatch d pf = (Ok (), pf')" "\<forall>row \<in> set (pf_outbox pf'). ox_dispatched_at row \<noteq> None"
proof -
  let ?b = "(pf_backend pf)\<lparr>be_rt := snd (utc_now (be_rt (pf_backend pf)))\<rparr>"
  have rows: "\<forall>row \<in> set (pending_rows (pf_outbox pf)). readable_row d row \<or> unknown_row d row"
    using assms(2) by (auto simp: set_pending_rows outbox_readable_def)
  obtain b' where run: "dispatch_rows d (pending_rows (pf_outbox pf)) [] ?b =
      (Ok (map ox_id (filter (readable_row d) (pending_rows (pf_outbox pf)))), b')"
    using dispatch_rows_total [OF assms(1) rows, of "[]" ?b] by auto
  have marked: "ox_dispatched_at row \<noteq> None"
    if "row \<in> set (pf_outbox pf)" "ox_id row \<notin> ox_id ` {row \<in> set (pf_outbox pf). ox_dispatched_at row = None \<and> readable_row d row}"
    for row
    using that assms(2) by (auto simp: outbox_readable_def)
  show ?thesis
    by (rule that) (use run marked in \<open>auto simp: sv_dispatch_def outbox_dispatch_def case_prod_unfold Let_def set_pending_rows\<close>)
qed

lemma sv_queue_simps [simp]: "sv_queue op pf = (fst (op (queue_of pf)), with_queue (snd (op (queue_of pf))) pf)"
  by (simp add: sv_queue_def case_prod_unfold Let_def)

section \<open>A create\<close>

text \<open>A request reaches the queue and answers with a job of the asset.\<close>

lemma enqueue_answers:
  assumes "queue_inv q"
  obtains job q' where "enqueue a q = (Ok job, q')" "rj_asset_id job = a" "queue_inv q'"
    "work_queue_of q' = snd (spec_step (Request a) (work_queue_of q))"
proof -
  have "\<exists>job q'. enqueue a q = (Ok job, q') \<and> rj_asset_id job = a"
    by (cases rule: work_of_cases [OF queue_invD(3) [OF assms], of a, case_names idle job])
      (use enqueue_created [OF assms, of a] enqueue_absorbed [OF assms] in blast)+
  then obtain job q' where e: "enqueue a q = (Ok job, q')" "rj_asset_id job = a" by blast
  have "step_refines (Request a) q" by (rule job_step_refines [OF assms])
  then show ?thesis using e that by (simp add: step_refines_def job_step_def)
qed

lemma create_unit_known:
  "observation_get (pf_observations pf) (obs_id ob) = Some old \<Longrightarrow>
     create_unit ob pf = (Err (ValueError (''observation with id '' @ py_repr (obs_id ob) @ '' already exists'')), pf)"
  by (simp add: create_unit_def observation_save_def observation_get_def put_new_def)


lemma create_unit_new:
  assumes inv: "queue_inv (queue_of pf)" and new: "observation_get (pf_observations pf) (obs_id ob) = None"
  obtains job i t c pf' where "create_unit ob pf = (Ok job, pf')" "rj_asset_id job = obs_asset_id ob"
    "pf_observations pf' = dict_set (obs_id ob) ob (pf_observations pf)"
    "pf_outbox pf' = pf_outbox pf @ [pending_event i ''ObservationCreated''
       [(''asset_id'', JStr (obs_asset_id ob)), (''observation_id'', JStr (obs_id ob)),
        (''timestamp'', JStr (isoformat t))] c]"
    "queue_inv (queue_of pf')"
    "work_queue_of (queue_of pf') = snd (spec_step (Request (obs_asset_id ob)) (work_queue_of (queue_of pf)))"
proof -
  have save: "observation_save ob (pf_observations pf) = Ok (dict_set (obs_id ob) ob (pf_observations pf))"
    using new by (simp add: observation_save_def observation_get_def put_new_def)
  obtain i rt1 where i: "uuid4 (pf_rt pf) = (i, rt1)" by fastforce
  obtain t rt2 where t: "utc_now rt1 = (t, rt2)" by fastforce
  obtain c rt3 where c: "utc_now rt2 = (c, rt3)" by fastforce
  define pf1 where "pf1 = set_rt rt3 (pf\<lparr>pf_observations := dict_set (obs_id ob) ob (pf_observations pf),
    pf_outbox := pf_outbox pf @ [pending_event i ''ObservationCreated''
       [(''asset_id'', JStr (obs_asset_id ob)), (''observation_id'', JStr (obs_id ob)),
        (''timestamp'', JStr (isoformat t))] c]\<rparr>)"
  have later: "rt_later (jq_rt (queue_of pf)) rt3"
    using uuid4_later [OF i] utc_now_later [OF t] utc_now_later [OF c] rt_later_trans by (simp, blast)
  have q1: "queue_of pf1 = (queue_of pf)\<lparr>jq_rt := rt3\<rparr>" by (simp add: pf1_def queue_of_def set_rt_def pf_rt_def)
  have inv1: "queue_inv (queue_of pf1)" unfolding q1 by (rule queue_inv_later [OF inv later])
  obtain job q' where e: "enqueue (obs_asset_id ob) (queue_of pf1) = (Ok job, q')" "rj_asset_id job = obs_asset_id ob"
    "queue_inv q'" "work_queue_of q' = snd (spec_step (Request (obs_asset_id ob)) (work_queue_of (queue_of pf1)))"
    by (rule enqueue_answers [OF inv1])
  have "create_unit ob pf = (Ok job, with_queue q' pf1)"
    using e(1) by (simp add: create_unit_def save add_event_now_def i t c sv_bind_def pf1_def pending_event_def set_rt_def)
  moreover have "work_queue_of (queue_of pf1) = work_queue_of (queue_of pf)" by (simp add: q1 work_queue_of_def)
  ultimately show ?thesis using e(2-4) that by (simp add: pf1_def)
qed


lemma already_exists_text:
  "already_exists (ValueError (pre @ '' already exists'')) = AppError ''ObservationAlreadyExistsError'' (pre @ '' already exists'')"
proof -
  have "py_in ''already exists'' (pre @ '' already exists'')"
    unfolding py_in_iff by (rule exI [of _ "pre @ '' ''"], rule exI [of _ "[]"]) simp
  then show ?thesis by (simp add: already_exists_def)
qed

lemma observation_create_known:
  assumes "observation_get (pf_observations pf) (obs_id ob) = Some old"
  shows "observation_create d ob pf =
    (Err (AppError ''ObservationAlreadyExistsError'' (''observation with id '' @ py_repr (obs_id ob) @ '' already exists'')), pf)"
proof -
  have "rolled_back pf pf = pf" by (simp add: rolled_back_def set_rt_def pf_rt_def)
  then show ?thesis
    using already_exists_text [of "''observation with id '' @ py_repr (obs_id ob)"]
    by (simp add: observation_create_def create_unit_known [OF assms])
qed

lemma stored_observation: "observation_get (dict_set i ob repo) i = Some ob"
  by (simp add: observation_get_def map_of_dict_set)

section \<open>Properties of a create\<close>



section \<open>The end of a job\<close>

lemma job_found: "queue_inv q \<Longrightarrow> r \<in> set (jq_table q) \<Longrightarrow> job_row (jq_table q) (rj_id r) = Some r"
  using job_row_Some [OF queue_invD(4)] by blast

lemma finish_running:
  assumes inv: "queue_inv q" and r: "r \<in> set (jq_table q)" "rj_status r = ''RUNNING''" "rj_id job = rj_id r"
  obtains j q' r' where "(if ok then queue_complete else queue_fail) job q = (Ok j, q')" "queue_inv q'"
    "work_queue_of q' = snd (spec_step (Finish (rj_asset_id r) ok) (work_queue_of q))"
    "r' \<in> set (jq_table q')" "rj_id r' = rj_id r" "rj_status r' = (if ok then ''COMPLETED'' else ''FAILED'')"
proof -
  define final where "final = (if ok then JOB_COMPLETED else JOB_FAILED)"
  define tally where "tally = (if ok then record_reasoning_job_completed else record_reasoning_job_failed)"
  have fin: "(if ok then queue_complete else queue_fail) = finish_job final tally" and final: "final \<in> {JOB_COMPLETED, JOB_FAILED}"
    and status: "job_status_value final = (if ok then ''COMPLETED'' else ''FAILED'')"
    by (simp_all add: final_def tally_def queue_complete_def queue_fail_def)
  have st: "rj_status r \<noteq> ''PENDING''" "outstanding r" using r(2) by (simp_all add: outstanding_def)
  have same: "finish_job final tally (with_status JOB_RUNNING r) q = finish_job final tally job q"
    unfolding finish_job_def finish_and_reschedule_def r(3) with_status_simps by (rule refl)
  have "\<exists>j q' r'. finish_job final tally job q = (Ok j, q') \<and> r' \<in> set (jq_table q') \<and> rj_id r' = rj_id r \<and>
      rj_status r' = job_status_value final"
  proof (cases "rj_dirty r")
    case False
    show ?thesis
      by (rule finish_clean [OF inv r(1) r(3) st(1) False final, of tally])
        (auto simp: set_row_set [OF queue_invD(4) [OF inv] r(1)])
  next
    case True
    show ?thesis
      by (rule finish_dirty [OF inv r(1) r(3) st(1) True final, of tally])
        (auto simp: set_row_set [OF queue_invD(4) [OF inv] r(1)])
  qed
  moreover have "open_job (jq_table q) (rj_asset_id r) = Some r"
    using open_job_Some [OF queue_invD(3) [OF inv]] r(1) st(2) by blast
  moreover have "step_refines (Finish (rj_asset_id r) ok) q" by (rule job_step_refines [OF inv])
  ultimately show ?thesis
    using that r(2) by (auto simp: step_refines_def job_step_def fin same status)
qed

text \<open>A job that is over can still be failed: only its status and its completion time change.\<close>

lemma open_job_closed:
  assumes wf: "job_table_wf table" "job_table_wf (set_row (rj_id r) (\<lambda>_. r') table)"
    and r: "r \<in> set table" "\<not> outstanding r" "\<not> outstanding r'"
  shows "open_job (set_row (rj_id r) (\<lambda>_. r') table) a = open_job table a"
proof -
  have "open_job (set_row (rj_id r) (\<lambda>_. r') table) a = Some x \<longleftrightarrow> open_job table a = Some x" for x
    unfolding open_job_Some [OF wf(1)] open_job_Some [OF wf(2)] set_row_set [OF job_table_wf_distinct [OF wf(1)] r(1)]
    using r by auto
  then show ?thesis by (cases "open_job table a"; simp) (metis option.exhaust)
qed

lemma fail_completed:
  assumes inv: "queue_inv q" and r: "r \<in> set (jq_table q)" "rj_status r = ''COMPLETED''" "rj_id job = rj_id r"
  obtains j q' r' where "queue_fail job q = (Ok j, q')" "queue_inv q'" "work_queue_of q' = work_queue_of q"
    "r' \<in> set (jq_table q')" "rj_id r' = rj_id r" "rj_status r' = ''FAILED''"
proof -
  note dist = queue_invD(4) [OF inv] and wf = queue_invD(3) [OF inv]
  have ok: "job_row_ok r" by (rule job_table_wf_row [OF wf r(1)])
  have st: "rj_status r \<noteq> ''PENDING''" "\<not> outstanding r" "\<not> rj_dirty r"
    using r(2) ok by (auto simp: outstanding_def job_row_ok_def)
  obtain t rt' where later: "rt_later (jq_rt q) rt'" and f: "finish_job JOB_FAILED record_reasoning_job_failed job q =
      (Ok (with_status JOB_FAILED (r\<lparr>rj_completed_at := Some t\<rparr>)),
       count_job record_reasoning_job_failed (count_job record_reasoning_job_running_finished
         (q\<lparr>jq_table := set_row (rj_id r) (\<lambda>_. r\<lparr>rj_status := job_status_value JOB_FAILED, rj_completed_at := Some t\<rparr>) (jq_table q),
            jq_rt := rt'\<rparr>)))"
    using finish_clean [OF inv r(1) r(3) st(1,3), of JOB_FAILED record_reasoning_job_failed] by blast
  define r' where "r' = r\<lparr>rj_status := ''FAILED'', rj_completed_at := Some t\<rparr>"
  have r': "rj_id r' = rj_id r" "rj_asset_id r' = rj_asset_id r" "rj_created_at r' = rj_created_at r" "job_row_ok r'"
    "\<not> outstanding r'" "is_pending r' = is_pending r"
    using ok r(2) st by (auto simp: r'_def job_row_ok_def outstanding_def is_pending_def)
  let ?q = "q\<lparr>jq_table := set_row (rj_id r) (\<lambda>_. r') (jq_table q), jq_rt := rt'\<rparr>"
  have inv': "queue_inv ?q" by (rule queue_inv_set_row [OF inv later r(1) r'(1-4)]) (use r'(5) in blast)
  have "work_of (set_row (rj_id r) (\<lambda>_. r') (jq_table q)) = work_of (jq_table q)"
    using open_job_closed [OF wf _ r(1) st(2) r'(5)] queue_invD(3) [OF inv'] by (auto simp: work_of_def fun_eq_iff)
  moreover have "queue_order (set_row (rj_id r) (\<lambda>_. r') (jq_table q)) = queue_order (jq_table q)"
    by (rule queue_order_set_row [OF dist queue_invD(5) [OF inv] r(1) r'(3,2,6)])
  moreover have "r' \<in> set (jq_table ?q)" by (simp add: set_row_set [OF dist r(1)])
  moreover have "rj_status r' = ''FAILED''" by (simp add: r'_def)
  ultimately show ?thesis
    by (intro that [OF f [folded queue_fail_def, unfolded job_status_value.simps, folded r'_def], of r'])
      (simp_all add: inv' r'(1) work_queue_of_def)
qed


lemma claim_row:
  assumes inv: "queue_inv q" and order: "queue_order (jq_table q) = a # rest"
  obtains job q' r where "claim q = (Ok (Some job), q')" "rj_asset_id job = a" "queue_inv q'"
    "work_queue_of q' = snd (spec_step Claim (work_queue_of q))" "r \<in> set (jq_table q')" "rj_status r = ''RUNNING''"
    "rj_id job = rj_id r" "rj_asset_id r = a" "rj_id r = rj_id (hd (pending_jobs (jq_table q)))"
proof -
  note dist = queue_invD(4) [OF inv]
  obtain m m' job rt' where m: "m \<in> set (jq_table q)" "is_pending m" "rj_asset_id m = a" "rj_id m' = rj_id m"
    "rj_asset_id m' = a" "rj_status m' = ''RUNNING''" "rj_id job = rj_id m" "rj_asset_id job = a"
    and c: "claim q = (Ok (Some job), count_job record_reasoning_job_running_started
       (q\<lparr>jq_table := set_row (rj_id m) (\<lambda>_. m') (jq_table q), jq_rt := rt'\<rparr>))"
    using claim_some [OF inv order] by metis
  define p where "p = hd (pending_jobs (jq_table q))"
  have "pending_jobs (jq_table q) \<noteq> []" "rj_asset_id p = a" using order by (auto simp: queue_order_def p_def)
  then have "p \<in> set (pending_jobs (jq_table q))" by (simp add: p_def)
  then have p: "p \<in> set (jq_table q)" "is_pending p"
    by (auto simp: pending_jobs_def set_sorted_by is_pending_def)
  have "p = m" by (rule rows_same_asset [OF queue_invD(3) [OF inv] p(1) m(1)])
    (use p(2) m(2,3) \<open>rj_asset_id p = a\<close> in \<open>simp_all add: is_pending_def outstanding_def\<close>)
  moreover have "step_refines Claim q" by (rule job_step_refines [OF inv])
  moreover have "m' \<in> set (set_row (rj_id m) (\<lambda>_. m') (jq_table q))" by (simp add: set_row_set [OF dist m(1)])
  ultimately show ?thesis
    using m c by (intro that [of job _ m']) (auto simp: step_refines_def job_step_def p_def)
qed

lemma platform_inv_queue:
  "platform_inv d pf \<Longrightarrow> queue_inv q \<Longrightarrow> platform_inv d (with_queue q pf)"
  by (simp add: platform_inv_def outbox_readable_def)

lemma finish_kind: "snd (spec_step (Finish a ok) s) = snd (spec_step (Finish a True) s)"
  by (cases s) simp

text \<open>Whatever the run and the dispatch do, the job that was claimed is over afterwards.\<close>

lemma process_next_ends:
  assumes inv: "platform_inv d pf" and adv: "dispatcher_advances (Some d)" and stamps: "reads_stamps d"
    and order: "queue_order (pf_jobs pf) = a # rest"
  obtains r pf' row where "process_next d sha256_hex pf = (r, pf')" "r = Ok True \<or> (\<exists>e. r = Err e)"
    "platform_inv d pf'" "pf_observations pf' = pf_observations pf"
    "work_queue_of (queue_of pf') =
       snd (spec_step (Finish a True) (snd (spec_step Claim (work_queue_of (queue_of pf)))))"
    "row \<in> set (pf_jobs pf')" "rj_id row = rj_id (hd (pending_jobs (pf_jobs pf)))"
    "rj_status row = (if r = Ok True then ''COMPLETED'' else ''FAILED'')"
proof -
  have qinv: "queue_inv (queue_of pf)" using inv by (simp add: platform_inv_def)
  obtain job q1 r1 where c: "claim (queue_of pf) = (Ok (Some job), q1)" "rj_asset_id job = a" "queue_inv q1"
    "work_queue_of q1 = snd (spec_step Claim (work_queue_of (queue_of pf)))" "r1 \<in> set (jq_table q1)"
    "rj_status r1 = ''RUNNING''" "rj_id job = rj_id r1" "rj_asset_id r1 = a"
    "rj_id r1 = rj_id (hd (pending_jobs (pf_jobs pf)))"
    using claim_row [OF qinv, of a rest] order by auto
  define pf1 where "pf1 = with_queue q1 pf"
  obtain x pf2 where run: "run_reasoning_for_asset sha256_hex a pf1 = (x, pf2)" by fastforce
  have frame: "run_frame d pf1 pf2" by (rule sv_keepsD [OF run_reasoning_frame [OF stamps] run])
  have inv2: "platform_inv d pf2"
    by (rule platform_inv_frame [OF frame]) (simp add: pf1_def platform_inv_queue inv c(3))
  have q2: "jq_table (queue_of pf2) = jq_table q1" "pf_observations pf2 = pf_observations pf"
    "work_queue_of (queue_of pf2) = work_queue_of q1"
    using frame by (simp_all add: run_frame_def pf1_def work_queue_of_def)
  note qinv2 = inv2 [unfolded platform_inv_def, THEN conjunct1]
  have r1: "r1 \<in> set (jq_table (queue_of pf2))" unfolding q2(1) by (rule c(5))
  show ?thesis
  proof (cases x)
    case (Inl e)
    obtain j q3 r3 where f: "queue_fail job (queue_of pf2) = (Ok j, q3)" "queue_inv q3"
      "work_queue_of q3 = snd (spec_step (Finish a True) (work_queue_of (queue_of pf2)))"
      "r3 \<in> set (jq_table q3)" "rj_id r3 = rj_id r1" "rj_status r3 = ''FAILED''"
      using finish_running [OF qinv2 r1 c(6,7), of False] finish_kind [of a False] by (auto simp: c(8))
    have "process_next d sha256_hex pf = (Err e, with_queue q3 pf2)"
      using c(1,2) run f(1) Inl by (simp add: process_next_def sv_bind_def sv_lift_def flip: pf1_def)
    then show ?thesis using f c(4,9) q2 platform_inv_queue [OF inv2 f(2)]
      by (intro that [of "Err e" "with_queue q3 pf2" r3]) simp_all
  next
    case (Inr b)
    obtain j q3 r3 where f: "queue_complete job (queue_of pf2) = (Ok j, q3)" "queue_inv q3"
      "work_queue_of q3 = snd (spec_step (Finish a True) (work_queue_of (queue_of pf2)))"
      "r3 \<in> set (jq_table q3)" "rj_id r3 = rj_id r1" "rj_status r3 = ''COMPLETED''"
      using finish_running [OF qinv2 r1 c(6,7), of True] by (auto simp: c(8))
    define pf3 where "pf3 = with_queue q3 pf2"
    obtain y pf4 where dis: "sv_dispatch d pf3 = (y, pf4)" by fastforce
    note keep = sv_dispatch_keeps [OF adv dis]
    have inv4: "platform_inv d pf4" by (rule keep(5)) (simp add: pf3_def platform_inv_queue inv2 f(2))
    have jobs4: "pf_jobs pf4 = jq_table q3" using arg_cong [OF keep(1), of jq_table] by (simp add: pf3_def)
    have q4: "jq_table (queue_of pf4) = jq_table q3" "work_queue_of (queue_of pf4) = work_queue_of q3"
      "pf_observations pf4 = pf_observations pf" "pf_jobs pf4 = jq_table q3"
      using jobs4 keep(3) q2(2) by (simp_all add: pf3_def work_queue_of_def)
    have out: "process_next d sha256_hex pf =
        (case y of Inr _ \<Rightarrow> (Ok True, pf4) | Inl e \<Rightarrow> sv_bind (sv_queue (queue_fail job)) (\<lambda>_. sv_lift (Err e)) pf4)"
      using c(1,2) run f(1) Inr dis
      by (cases y) (simp_all add: process_next_def sv_bind_def sv_lift_def flip: pf1_def pf3_def)
    show ?thesis
    proof (cases y)
      case (Inr u)
      then show ?thesis using out inv4 q4 f(3-6) c(4,9) q2(3)
        by (intro that [of "Ok True" pf4 r3]) simp_all
    next
      case (Inl e)
      have "r3 \<in> set (jq_table (queue_of pf4))" unfolding q4(1) by (rule f(4))
      then obtain j' q5 r5 where g: "queue_fail job (queue_of pf4) = (Ok j', q5)" "queue_inv q5"
        "work_queue_of q5 = work_queue_of (queue_of pf4)" "r5 \<in> set (jq_table q5)" "rj_id r5 = rj_id r3" "rj_status r5 = ''FAILED''"
        using fail_completed [OF inv4 [unfolded platform_inv_def, THEN conjunct1] _ f(6), of job] c(7) f(5) by metis
      then show ?thesis using out Inl q4 f(3,5) c(4,9) q2(3) platform_inv_queue [OF inv4 g(2)]
        by (intro that [of "Err e" "with_queue q5 pf4" r5]) (simp_all add: sv_bind_def sv_lift_def)
    qed
  qed
qed


section \<open>Polling\<close>

definition no_runs :: "work_queue \<Rightarrow> bool" where
  "no_runs s \<longleftrightarrow> (\<forall>a b. snd s a \<noteq> Busy b)"

text \<open>Runs the queue still has to start: waiting jobs, and one more for each that is dirty.\<close>

definition runs_left :: "work_queue \<Rightarrow> nat" where
  "runs_left s = length (fst s) + card {a. snd s a = Queued True}"

lemma spec_poll:
  assumes inv: "spec_inv s" "no_runs s" and order: "fst s = a # rest"
  defines "s' \<equiv> snd (spec_step (Finish a True) (snd (spec_step Claim s)))"
  shows "no_runs s'" "Suc (runs_left s') = runs_left s"
proof -
  obtain work where s: "s = (a # rest, work)" using order by (cases s) simp
  have "\<exists>b. snd s a = Queued b" using inv(1) order unfolding spec_inv_def by (metis list.set_intros(1))
  then obtain b where b: "work a = Queued b" by (auto simp: s)
  have s': "s' = (if b then rest @ [a] else rest, work(a := if b then Queued False else Idle))"
    by (simp add: s'_def s b)
  show "no_runs s'" using inv(2) by (auto simp: no_runs_def s s')
  have "{x. work x = Queued True} \<subseteq> set (a # rest)" using inv(1) by (auto simp: s spec_inv_def)
  then have fin: "finite {x. work x = Queued True}" by (rule finite_subset) simp
  show "Suc (runs_left s') = runs_left s"
  proof (cases b)
    case True
    then have "{x. (work(a := Queued False)) x = Queued True} = {x. work x = Queued True} - {a}" by auto
    moreover have "a \<in> {x. work x = Queued True}" using b True by simp
    ultimately show ?thesis using True card_Suc_Diff1 [OF fin, of a] by (simp add: runs_left_def s s')
  next
    case False
    then have "{x. (work(a := Idle)) x = Queued True} = {x. work x = Queued True}" using b by auto
    with False show ?thesis by (simp add: runs_left_def s s')
  qed
qed

abbreviation poll :: "'w OutboxDispatcher \<Rightarrow> (string \<Rightarrow> string) \<Rightarrow> 'w platform \<Rightarrow> 'w platform" where
  "poll d sha256_hex pf \<equiv> snd (process_next d sha256_hex pf)"

lemma process_next_idle:
  assumes "platform_inv d pf" "queue_order (pf_jobs pf) = []"
  shows "process_next d sha256_hex pf = (Ok False, pf)"
proof -
  have "claim (queue_of pf) = (Ok None, queue_of pf)"
    by (rule claim_none) (use assms in \<open>simp_all add: platform_inv_def\<close>)
  moreover have "with_queue (queue_of pf) pf = pf" by (simp add: with_queue_def queue_of_def set_rt_def pf_rt_def)
  ultimately show ?thesis by (simp add: process_next_def sv_bind_def sv_return_def)
qed

lemma platform_spec_inv: "platform_inv d pf \<Longrightarrow> spec_inv (work_queue_of (queue_of pf))"
  by (simp add: platform_inv_def spec_inv_work_queue)

lemma poll_progress:
  assumes inv: "platform_inv d pf" and idle: "no_runs (work_queue_of (queue_of pf))"
    and adv: "dispatcher_advances (Some d)" and stamps: "reads_stamps d"
  shows "platform_inv d (poll d sha256_hex pf) \<and> no_runs (work_queue_of (queue_of (poll d sha256_hex pf))) \<and>
    runs_left (work_queue_of (queue_of (poll d sha256_hex pf))) = runs_left (work_queue_of (queue_of pf)) - 1"
proof (cases "queue_order (pf_jobs pf)")
  case Nil
  then have none: "fst (work_queue_of (queue_of pf)) = []" by (simp add: work_queue_of_def)
  with platform_spec_inv [OF inv] have "{a. snd (work_queue_of (queue_of pf)) a = Queued True} = {}"
    by (auto simp: spec_inv_def)
  with none have "runs_left (work_queue_of (queue_of pf)) = 0" by (simp add: runs_left_def)
  then show ?thesis using inv idle process_next_idle [OF inv Nil] by simp
next
  case (Cons a rest)
  obtain r pf' row where p: "process_next d sha256_hex pf = (r, pf')" "platform_inv d pf'"
    "work_queue_of (queue_of pf') = snd (spec_step (Finish a True) (snd (spec_step Claim (work_queue_of (queue_of pf)))))"
    by (rule process_next_ends [OF inv adv stamps Cons, where sha256_hex = sha256_hex])
  have "fst (work_queue_of (queue_of pf)) = a # rest" using Cons by (simp add: work_queue_of_def)
  note step = spec_poll [OF platform_spec_inv [OF inv] idle this]
  show ?thesis using p step by (simp flip: step(2))
qed

lemma polls_progress:
  fixes sha256_hex :: "string \<Rightarrow> string"
  assumes "platform_inv d pf" "no_runs (work_queue_of (queue_of pf))" "dispatcher_advances (Some d)" "reads_stamps d"
  defines "pf' \<equiv> \<lambda>n. (poll d sha256_hex ^^ n) pf"
  shows "platform_inv d (pf' n) \<and> no_runs (work_queue_of (queue_of (pf' n))) \<and>
    runs_left (work_queue_of (queue_of (pf' n))) = runs_left (work_queue_of (queue_of pf)) - n"
proof (induction n)
  case 0
  then show ?case using assms by simp
next
  case (Suc n)
  then show ?case using poll_progress [OF _ _ assms(3,4), of "pf' n" sha256_hex] by (simp add: pf'_def)
qed

lemma run_worker_polls:
  "run_worker d sha256_hex (replicate n []) pf = (Ok (), pf') \<Longrightarrow> pf' = (poll d sha256_hex ^^ n) pf"
proof (induction n arbitrary: pf)
  case (Suc n)
  then show ?case by (auto simp: funpow_Suc_right split: prod.splits sum.splits simp del: funpow.simps(2))
qed simp

text \<open>
  C12. The worker empties the queue: with as many polls as runs are left (one for each waiting job and one
  more for each that was requested again) and no new observations, every job has ended and no asset is
  owed a run, whatever the runs and the dispatches raise as long as the process is started again; in
  particular a worker that made all those polls without an exception leaves every asset idle.
\<close>

theorem worker_drains_queue:
  fixes d :: "'w OutboxDispatcher"
  assumes "platform_inv d pf" "no_runs (work_queue_of (queue_of pf))" "dispatcher_advances (Some d)" "reads_stamps d"
    and n: "runs_left (work_queue_of (queue_of pf)) \<le> n"
  shows "work_queue_of (queue_of ((poll d sha256_hex ^^ n) pf)) = ([], \<lambda>_. Idle) \<and>
    (run_worker d sha256_hex (replicate n []) pf = (Ok (), pf') \<longrightarrow>
       work_queue_of (queue_of pf') = ([], \<lambda>_. Idle))"
proof -
  let ?s = "work_queue_of (queue_of ((poll d sha256_hex ^^ n) pf))"
  note p = polls_progress [OF assms(1-4), where sha256_hex = sha256_hex and n = n]
  then have left: "runs_left ?s = 0" using n by simp
  then have "fst ?s = []" by (simp add: runs_left_def)
  moreover have "snd ?s a = Idle" for a
    using p platform_spec_inv [of d "(poll d sha256_hex ^^ n) pf"] \<open>fst ?s = []\<close>
    by (cases "snd ?s a") (auto simp: spec_inv_def no_runs_def)
  ultimately have "?s = ([], \<lambda>_. Idle)" by (cases ?s) auto
  then show ?thesis using run_worker_polls by metis
qed


section \<open>Runs that cannot succeed\<close>

lemma sv_bind_Ok: "sv_bind m f pf = (Inr y, pf') \<longleftrightarrow> (\<exists>x pf1. m pf = (Inr x, pf1) \<and> f x pf1 = (Inr y, pf'))"
  by (cases "m pf"; cases "fst (m pf)") (auto simp: sv_bind_def)

lemma session_run_ready:
  assumes "session_run profile config goal observations s = (Inr res, t)" "window_of config observations = Ok obs"
  shows "2 \<le> length (primary_measurement_observations obs)"
proof -
  have "\<exists>c x s1. eff_rt (run_stages reasoning_stages c) s1 = x \<and> (\<exists>c' s2. x = (Inr c', s2)) \<and> rc_observations c = obs"
    using assms unfolding session_run_def run_body_def Let_def
    by (force simp: eff_bind_Ok eff_lift_def with_metadata_def)
  then obtain c c' s1 s2 where c: "eff_rt (run_stages reasoning_stages c) s1 = (Inr c', s2)" "rc_observations c = obs" by blast
  from c(1) obtain rt' where "run_stages reasoning_stages c (ss_rt s1) = Ok (c', rt')"
    by (cases "run_stages reasoning_stages c (ss_rt s1)") (auto simp: eff_rt_def)
  from pipeline_ready [OF this] c(2) show ?thesis by (simp add: run_ready_def Let_def)
qed

lemma run_reasoning_Ok:
  fixes pf :: "'w platform"
  assumes "run_reasoning_for_asset sha256_hex a pf = (Inr b, pf')" "can_run_reasoning (list_by_asset (pf_observations pf) a)"
  shows "\<exists>(pf1 :: 'w platform) res pf2. sv_session (sorted_by time_id_key (list_by_asset (pf_observations pf) a)) pf1 = (Inr res, pf2)"
  using assms unfolding run_reasoning_for_asset_def Let_def
  by (simp add: sv_bind_Ok sv_get_def) (elim exE conjE, intro exI, assumption)

lemma process_next_True:
  assumes "process_next d sha256_hex pf = (Ok True, pf')"
  obtains job q b pf2 where "claim (queue_of pf) = (Ok (Some job), q)"
    "run_reasoning_for_asset sha256_hex (rj_asset_id job) (with_queue q pf) = (Inr b, pf2)"
proof -
  obtain x q where c: "claim (queue_of pf) = (x, q)" by fastforce
  with assms obtain job where x: "x = Ok (Some job)"
    by (cases x) (auto simp: process_next_def sv_bind_def sv_return_def split: option.splits)
  obtain y pf2 where run: "run_reasoning_for_asset sha256_hex (rj_asset_id job) (with_queue q pf) = (y, pf2)" by fastforce
  have "\<exists>b. y = Inr b"
    using assms c x run by (cases y) (auto simp: process_next_def sv_bind_def sv_lift_def split: prod.splits sum.splits)
  then show ?thesis using that c x run by blast
qed

text \<open>
  C24. The gate of the worker and the window of the session disagree: when the readings of an asset pass
  the gate (two of the type of the oldest reading) but the window keeps fewer than two readings of the
  type that is then the oldest, the run raises, the job ends as failed, and the worker process stops with
  the exception, whatever waits behind it.
\<close>

theorem lone_reading_stops_worker:
  fixes d :: "'w OutboxDispatcher"
  assumes inv: "platform_inv d pf" "dispatcher_advances (Some d)" "reads_stamps d"
    and order: "queue_order (pf_jobs pf) = a # rest"
    and gate: "can_run_reasoning (list_by_asset (pf_observations pf) a)"
    and window: "window_of DEFAULT_SESSION_CONFIG (sorted_by time_id_key (list_by_asset (pf_observations pf) a)) = Ok obs"
    and lone: "length (primary_measurement_observations obs) < 2"
  shows "\<exists>e pf' row. process_next d sha256_hex pf = (Err e, pf') \<and> row \<in> set (pf_jobs pf') \<and>
    rj_id row = rj_id (hd (pending_jobs (pf_jobs pf))) \<and> rj_status row = ''FAILED'' \<and>
    run_worker d sha256_hex ([] # polls) pf = (Err e, pf')"
proof -
  obtain r pf' row where p: "process_next d sha256_hex pf = (r, pf')" "r = Ok True \<or> (\<exists>e. r = Err e)"
    "row \<in> set (pf_jobs pf')" "rj_id row = rj_id (hd (pending_jobs (pf_jobs pf)))"
    "rj_status row = (if r = Ok True then ''COMPLETED'' else ''FAILED'')"
    by (rule process_next_ends [OF inv order, where sha256_hex = sha256_hex])
  have "r \<noteq> Ok True"
  proof
    assume "r = Ok True"
    with p(1) obtain job q b pf2 where c: "claim (queue_of pf) = (Ok (Some job), q)"
      and run: "run_reasoning_for_asset sha256_hex (rj_asset_id job) (with_queue q pf) = (Inr b, pf2)"
      using process_next_True by blast
    have "rj_asset_id job = a"
      by (rule claim_row [of "queue_of pf" a rest]) (use inv(1) order c in \<open>auto simp: platform_inv_def\<close>)
    then obtain pf1 :: "'w platform" and res pf3 where "sv_session (sorted_by time_id_key (list_by_asset (pf_observations pf) a)) pf1 = (Inr res, pf3)"
      using run_reasoning_Ok [OF run] gate by auto
    then obtain s where "session_run fuel_cell_default_profile DEFAULT_SESSION_CONFIG DEFAULT_OPERATIONAL_GOAL
        (sorted_by time_id_key (list_by_asset (pf_observations pf) a)) (session_of pf1) = (Inr res, s)"
      by (auto simp: sv_session_def split: prod.splits)
    from session_run_ready [OF this window] lone show False by simp
  qed
  then show ?thesis using p by auto
qed


text \<open>
  C25. A failed create has nevertheless committed: when the create of a new observation raises, the
  observation is stored and its asset is owed a run, and trying again answers that it already exists.
\<close>

theorem failed_create_has_committed:
  fixes d :: "'w OutboxDispatcher"
  assumes inv: "queue_inv (queue_of pf)" and adv: "dispatcher_advances (Some d)"
    and new: "observation_get (pf_observations pf) (obs_id ob) = None"
    and failed: "observation_create d ob pf = (Err e, pf')"
  shows "observation_get (pf_observations pf') (obs_id ob) = Some ob \<and> owed (work_of (pf_jobs pf') (obs_asset_id ob)) \<and>
    (\<exists>msg. observation_create d ob pf' = (Err (AppError ''ObservationAlreadyExistsError'' msg), pf'))"
proof -
  let ?a = "obs_asset_id ob"
  obtain job pf1 where u: "create_unit ob pf = (Ok job, pf1)"
    "pf_observations pf1 = dict_set (obs_id ob) ob (pf_observations pf)"
    "work_queue_of (queue_of pf1) = snd (spec_step (Request ?a) (work_queue_of (queue_of pf)))"
    by (rule create_unit_new [OF inv new])
  have dis: "sv_dispatch d pf1 = (Err e, pf')"
    using failed u(1) by (cases "sv_dispatch d pf1"; cases "fst (sv_dispatch d pf1)")
      (auto simp: observation_create_def sv_bind_def sv_return_def)
  note keep = sv_dispatch_keeps [OF adv dis]
  have stored: "observation_get (pf_observations pf') (obs_id ob) = Some ob" by (simp add: keep(3) u(2) stored_observation)
  have "owed (requested w)" for w by (cases w) auto
  moreover have "work_of (pf_jobs pf1) ?a = requested (work_of (pf_jobs pf) ?a)"
    using u(3) by (simp add: work_queue_of_def)
  moreover have "pf_jobs pf' = pf_jobs pf1" using arg_cong [OF keep(1), of jq_table] by simp
  ultimately show ?thesis using stored observation_create_known [OF stored] by auto
qed

text \<open>
  C11. Every claimed job ends: a poll of a queue with a waiting job ends the oldest one, as completed when
  the poll returns and as failed when it raises, and leaves the queue as the end of that job does in the
  specification, whatever the session, the stores and the dispatcher do meanwhile; the observations are
  untouched and no unreadable row reaches the outbox.
\<close>

theorem claimed_job_ends:
  fixes d :: "'w OutboxDispatcher"
  assumes "platform_inv d pf" "dispatcher_advances (Some d)" "reads_stamps d" "queue_order (pf_jobs pf) = a # rest"
  shows "\<exists>r pf' row. process_next d sha256_hex pf = (r, pf') \<and> platform_inv d pf' \<and>
    pf_observations pf' = pf_observations pf \<and> row \<in> set (pf_jobs pf') \<and>
    rj_id row = rj_id (hd (pending_jobs (pf_jobs pf))) \<and>
    rj_status row = (if r = Ok True then ''COMPLETED'' else ''FAILED'') \<and>
    work_queue_of (queue_of pf') =
      snd (spec_step (Finish a True) (snd (spec_step Claim (work_queue_of (queue_of pf)))))"
  by (rule process_next_ends [OF assms, where sha256_hex = sha256_hex]) blast

lemma claim_counts: "claim q = (Ok (Some job), q') \<Longrightarrow> jq_metrics q' = record_reasoning_job_running_started (jq_metrics q)"
  by (auto simp: claim_def Let_def split: prod.splits sum.splits option.splits)

lemma finish_counts:
  assumes "finish_job final tally job q = (Ok j, q')" "tally \<in> {record_reasoning_job_completed, record_reasoning_job_failed}"
  shows "jm_running (jq_metrics q') = jm_running (jq_metrics q) - 1"
    "jm_completed (jq_metrics q') = jm_completed (tally (jq_metrics q))"
    "jm_failed (jq_metrics q') = jm_failed (tally (jq_metrics q))"
  using assms by (auto simp: finish_job_def Let_def job_count_defs split: prod.splits sum.splits if_splits)

text \<open>
  A dispatch that raises after the commit counts a job twice: the run of a job has succeeded and the
  job is committed as completed, but when the dispatch of the outbox then raises, the same job is also
  failed. Its row says failed, it is counted as completed and as failed, and the gauge of running jobs
  ends one below where it was.
\<close>

theorem dispatch_failure_counts_twice:
  fixes d :: "'w OutboxDispatcher"
  assumes inv: "platform_inv d' pf" "dispatcher_advances (Some d)" "reads_stamps d'"
    and claimed: "claim (queue_of pf) = (Ok (Some job), q1)"
    and run: "run_reasoning_for_asset sha256_hex (rj_asset_id job) (with_queue q1 pf) = (Ok b, pf2)"
    and completed: "queue_complete job (queue_of pf2) = (Ok done_job, q2)"
    and dispatch: "sv_dispatch d (with_queue q2 pf2) = (Err e, pf3)"
  shows "\<exists>pf'. process_next d sha256_hex pf = (Err e, pf') \<and>
    (\<exists>row \<in> set (pf_jobs pf'). rj_id row = rj_id job \<and> rj_status row = ''FAILED'') \<and>
    jm_running (pf_metrics pf') = jm_running (pf_metrics pf) - 1 \<and>
    jm_completed (pf_metrics pf') = jm_completed (pf_metrics pf) + 1 \<and>
    jm_failed (pf_metrics pf') = jm_failed (pf_metrics pf) + 1"
proof -
  have qinv: "queue_inv (queue_of pf)" using inv(1) by (simp add: platform_inv_def)
  have "queue_order (pf_jobs pf) \<noteq> []" using claim_none [OF qinv] claimed by auto
  then obtain a rest where order: "queue_order (pf_jobs pf) = a # rest" by (cases "queue_order (pf_jobs pf)") auto
  obtain r1 where c: "queue_inv q1" "r1 \<in> set (jq_table q1)" "rj_status r1 = ''RUNNING''" "rj_id job = rj_id r1"
    by (rule claim_row [OF qinv, of a rest]) (use order claimed in auto)
  have frame: "run_frame d' (with_queue q1 pf) pf2"
    by (rule sv_keepsD [OF run_reasoning_frame [OF inv(3)] run])
  have inv2: "platform_inv d' pf2" by (rule platform_inv_frame [OF frame]) (rule platform_inv_queue [OF inv(1) c(1)])
  have q2: "pf_jobs pf2 = jq_table q1" "jq_metrics (queue_of pf2) = jq_metrics q1"
    using frame by (simp_all add: run_frame_def queue_of_def with_queue_def set_rt_def)
  have "r1 \<in> set (jq_table (queue_of pf2))" by (simp add: q2(1) c(2))
  then obtain r2 where f: "queue_inv q2" "r2 \<in> set (jq_table q2)" "rj_id r2 = rj_id r1" "rj_status r2 = ''COMPLETED''"
    by (rule finish_running [OF inv2 [unfolded platform_inv_def, THEN conjunct1] _ c(3,4), of True])
      (use completed in simp_all)
  note keep = sv_dispatch_keeps [OF inv(2) dispatch]
  have q3: "queue_of pf3 = q2\<lparr>jq_rt := pf_rt pf3\<rparr>" and later: "rt_later (jq_rt q2) (pf_rt pf3)"
    using keep(1,2) by simp_all
  have inv3: "queue_inv (queue_of pf3)" unfolding q3 by (rule queue_inv_later [OF f(1) later])
  have "r2 \<in> set (jq_table (queue_of pf3))" unfolding q3 using f(2) by simp
  then obtain j q4 r4 where g: "queue_fail job (queue_of pf3) = (Ok j, q4)" "r4 \<in> set (jq_table q4)" "rj_id r4 = rj_id r2"
    "rj_status r4 = ''FAILED''"
    using fail_completed [OF inv3 _ f(4), of job] c(4) f(3) by metis
  have "process_next d sha256_hex pf = (Err e, with_queue q4 pf3)"
    using claimed run completed dispatch g(1) by (simp add: process_next_def sv_bind_def sv_lift_def)
  moreover have "rj_id r4 = rj_id job" by (simp only: g(3) f(3) c(4))
  moreover have "jq_metrics (queue_of pf3) = jq_metrics q2" "jq_metrics (queue_of pf) = pf_metrics pf"
    "pf_metrics (with_queue q4 pf3) = jq_metrics q4" "pf_jobs (with_queue q4 pf3) = jq_table q4"
    by (simp_all add: q3) (simp_all add: queue_of_def with_queue_def set_rt_def)
  note same = this claim_counts [OF claimed] q2(2)
  have "jm_running (jq_metrics q4) = jm_running (pf_metrics pf) - 1 \<and>
      jm_completed (jq_metrics q4) = jm_completed (pf_metrics pf) + 1 \<and> jm_failed (jq_metrics q4) = jm_failed (pf_metrics pf) + 1"
    using finish_counts [OF completed [unfolded queue_complete_def]] finish_counts [OF g(1) [unfolded queue_fail_def]]
    by (simp add: same job_count_defs)
  ultimately show ?thesis using g(2,4) unfolding same(3,4) [symmetric] by blast
qed


section \<open>A concrete platform\<close>

definition demo_service :: "unit OutboxDispatcher" where
  "demo_service = demo_dispatcher\<lparr>od_fromisoformat := \<lambda>s. Some 0\<rparr>"

definition deaf_service :: "unit OutboxDispatcher" where
  "deaf_service = demo_dispatcher\<lparr>od_fromisoformat := \<lambda>s. None\<rparr>"

definition demo_platform :: "unit platform" where
  "demo_platform =
     \<lparr>pf_backend = demo_backend, pf_observations = [], pf_situations = [], pf_contexts = [], pf_plans = [], pf_runs = [],
      pf_indexes = [], pf_structured = [], pf_traces = [], pf_jobs = [], pf_metrics = no_jobs_counted, pf_outbox = []\<rparr>"

definition demo_reading :: Observation where
  "demo_reading = hd (demo_series ''current'' [5])"

lemma demo_service_works:
  "delivers demo_service" "reads_stamps demo_service" "dispatcher_advances (Some demo_service)"
  "dispatcher_advances (Some deaf_service)"
  by (simp_all add: delivers_def reads_stamps_def dispatcher_advances_def demo_service_def deaf_service_def demo_dispatcher_def)

lemma demo_platform_inv: "platform_inv d demo_platform" "work_queue_of (queue_of demo_platform) = ([], \<lambda>_. Idle)"
proof -
  have "queue_of demo_platform = mk_queue demo_runtime"
    by (simp add: queue_of_def demo_platform_def pf_rt_def demo_backend_def mk_queue_def)
  then show "platform_inv d demo_platform" "work_queue_of (queue_of demo_platform) = ([], \<lambda>_. Idle)"
    using mk_queue_inv [OF demo_runtime_ok] work_queue_of_mk_queue
    by (auto simp: platform_inv_def outbox_readable_def demo_platform_def)
qed

lemma demo_reading_asset: "obs_asset_id demo_reading = ''stack-1''"
  by (simp add: demo_reading_def demo_series_def)

text \<open>The platform once a reading of the asset is committed and before its event is dispatched.\<close>

lemma demo_committed:
  obtains pf i t c where "platform_inv demo_service pf" "pf_observations pf = [(obs_id demo_reading, demo_reading)]"
    "work_queue_of (queue_of pf) = ([''stack-1''], (\<lambda>_. Idle)(''stack-1'' := Queued False))"
    "queue_order (pf_jobs pf) = [''stack-1'']"
    "pf_outbox pf = [pending_event i ''ObservationCreated''
       [(''asset_id'', JStr ''stack-1''), (''observation_id'', JStr (obs_id demo_reading)),
        (''timestamp'', JStr (isoformat t))] c]"
proof -
  have q: "queue_inv (queue_of demo_platform)" using demo_platform_inv(1) by (simp add: platform_inv_def)
  have new: "observation_get (pf_observations demo_platform) (obs_id demo_reading) = None"
    by (simp add: observation_get_def demo_platform_def)
  obtain job i t c pf where u: "create_unit demo_reading demo_platform = (Ok job, pf)"
    "pf_observations pf = dict_set (obs_id demo_reading) demo_reading (pf_observations demo_platform)"
    "pf_outbox pf = pf_outbox demo_platform @ [pending_event i ''ObservationCreated''
       [(''asset_id'', JStr ''stack-1''), (''observation_id'', JStr (obs_id demo_reading)),
        (''timestamp'', JStr (isoformat t))] c]"
    "queue_inv (queue_of pf)"
    "work_queue_of (queue_of pf) = snd (spec_step (Request ''stack-1'') (work_queue_of (queue_of demo_platform)))"
    by (rule create_unit_new [OF q new, unfolded demo_reading_asset])
  have work: "work_queue_of (queue_of pf) = ([''stack-1''], (\<lambda>_. Idle)(''stack-1'' := Queued False))"
    by (simp add: u(5) demo_platform_inv(2))
  then have "queue_order (pf_jobs pf) = [''stack-1'']" by (simp add: work_queue_of_def)
  moreover have "platform_inv demo_service pf"
    using u(3,4) rows_readable(1) [OF demo_service_works(2)]
    by (auto simp: platform_inv_def outbox_readable_def demo_platform_def)
  ultimately show ?thesis using work u(2,3) that [of pf i t c] by (simp add: demo_platform_def)
qed


lemma sv_dispatch_poisoned:
  assumes "row \<in> set (pf_outbox pf)" "ox_dispatched_at row = None"
    "deserialize_domain_event (od_fromisoformat d) (ox_event_type row) (ox_payload row) = Err e"
  shows "\<exists>e' pf'. sv_dispatch d pf = (Err e', pf')"
proof -
  have "row \<in> set (pending_rows (pf_outbox pf))" using assms(1,2) by (simp add: set_pending_rows)
  from dispatch_rows_poisoned [OF this assms(3), of "[]" "(pf_backend pf)\<lparr>be_rt := snd (utc_now (be_rt (pf_backend pf)))\<rparr>"]
  show ?thesis by (auto simp: sv_dispatch_def outbox_dispatch_def case_prod_unfold Let_def)
qed

lemma deaf_dispatch:
  assumes "pf_outbox pf = rows @ [pending_event i ''ObservationCreated'' [(''asset_id'', JStr a), (''observation_id'', JStr oid),
     (''timestamp'', JStr (isoformat t))] c]" (is "_ = rows @ [?row]")
  shows "\<exists>e pf'. sv_dispatch deaf_service pf = (Err e, pf')"
  by (rule sv_dispatch_poisoned [of ?row])
    (simp_all add: assms row_defs deaf_service_def)


theorem failed_create_has_committed_witness:
  "\<exists>e pf'. observation_create deaf_service demo_reading demo_platform = (Err e, pf') \<and>
     observation_get (pf_observations pf') (obs_id demo_reading) = Some demo_reading"
proof -
  have q: "queue_inv (queue_of demo_platform)" using demo_platform_inv(1) by (simp add: platform_inv_def)
  have new: "observation_get (pf_observations demo_platform) (obs_id demo_reading) = None"
    by (simp add: observation_get_def demo_platform_def)
  obtain job i t c pf where u: "create_unit demo_reading demo_platform = (Ok job, pf)"
    "pf_outbox pf = pf_outbox demo_platform @ [pending_event i ''ObservationCreated''
       [(''asset_id'', JStr (obs_asset_id demo_reading)), (''observation_id'', JStr (obs_id demo_reading)),
        (''timestamp'', JStr (isoformat t))] c]"
    by (rule create_unit_new [OF q new])
  from deaf_dispatch [OF u(2)] obtain e pf' where "observation_create deaf_service demo_reading demo_platform = (Err e, pf')"
    using u(1) by (auto simp: observation_create_def sv_bind_def)
  then show ?thesis using failed_create_has_committed [OF q demo_service_works(4) new] by blast
qed

theorem claimed_job_ends_witness:
  "\<exists>(pf :: unit platform) r pf'. queue_order (pf_jobs pf) = [''stack-1''] \<and> process_next demo_service id pf = (r, pf') \<and>
     queue_order (pf_jobs pf') = []"
proof -
  obtain pf where pf: "platform_inv demo_service pf" "queue_order (pf_jobs pf) = [''stack-1'']"
    "work_queue_of (queue_of pf) = ([''stack-1''], (\<lambda>_. Idle)(''stack-1'' := Queued False))"
    by (rule demo_committed)
  from claimed_job_ends [OF pf(1) demo_service_works(3,2) pf(2), of id] obtain r pf' where
    p: "process_next demo_service id pf = (r, pf')"
    "work_queue_of (queue_of pf') = snd (spec_step (Finish ''stack-1'' True) (snd (spec_step Claim (work_queue_of (queue_of pf)))))"
    by blast
  then have "queue_order (pf_jobs pf') = []" by (simp add: pf(3)) (simp add: work_queue_of_def)
  with p(1) pf(2) show ?thesis by blast
qed

theorem worker_drains_queue_witness:
  "\<exists>pf :: unit platform. queue_order (pf_jobs pf) = [''stack-1''] \<and>
     work_queue_of (queue_of ((poll demo_service id ^^ 1) pf)) = ([], \<lambda>_. Idle)"
proof -
  obtain pf where pf: "platform_inv demo_service pf" "queue_order (pf_jobs pf) = [''stack-1'']"
    "work_queue_of (queue_of pf) = ([''stack-1''], (\<lambda>_. Idle)(''stack-1'' := Queued False))"
    by (rule demo_committed)
  have "no_runs (work_queue_of (queue_of pf))" by (simp add: pf(3) no_runs_def)
  moreover have "{a. ((\<lambda>_. Idle)(''stack-1'' := Queued False)) a = Queued True} = {}" by auto
  then have "runs_left (work_queue_of (queue_of pf)) \<le> 1" by (simp add: pf(3) runs_left_def)
  ultimately show ?thesis
    using worker_drains_queue [OF pf(1) _ demo_service_works(3,2), of 1 id] pf(2) by blast
qed

theorem dispatch_failure_counts_twice_witness:
  "\<exists>(pf :: unit platform) e pf'. process_next deaf_service id pf = (Err e, pf') \<and>
     jm_running (pf_metrics pf') = jm_running (pf_metrics pf) - 1"
proof -
  obtain pf i t c where pf: "platform_inv demo_service pf" "queue_order (pf_jobs pf) = [''stack-1'']"
    "pf_observations pf = [(obs_id demo_reading, demo_reading)]"
    "pf_outbox pf = [] @ [pending_event i ''ObservationCreated''
       [(''asset_id'', JStr ''stack-1''), (''observation_id'', JStr (obs_id demo_reading)),
        (''timestamp'', JStr (isoformat t))] c]"
    using demo_committed by (metis append_Nil)
  have qinv: "queue_inv (queue_of pf)" using pf(1) by (simp add: platform_inv_def)
  obtain job q1 r1 where c: "claim (queue_of pf) = (Ok (Some job), q1)" "queue_inv q1" "r1 \<in> set (jq_table q1)"
    "rj_status r1 = ''RUNNING''" "rj_id job = rj_id r1"
    by (rule claim_row [OF qinv, of "''stack-1''" "[]"]) (use pf(2) in auto)
  have "length (list_by_asset (pf_observations pf) a) \<le> 1" for a
    by (simp add: pf(3) list_by_asset_def list_by_asset_in_time_range_def observation_list_def dict_values_def
        sorted_by_def Let_def)
  then have run: "run_reasoning_for_asset id (rj_asset_id job) (with_queue q1 pf) = (Ok False, with_queue q1 pf)"
    by (simp add: run_reasoning_for_asset_def sv_bind_def sv_get_def sv_return_def can_run_reasoning_def less_Suc_eq_le
        numeral_2_eq_2)
  obtain j q2 where f: "queue_complete job q1 = (Ok j, q2)"
    by (rule finish_running [OF c(2,3,4,5), of True]) simp
  then have ended: "queue_complete job (queue_of (with_queue q1 pf)) = (Ok j, q2)" by simp
  have "pf_outbox (with_queue q2 (with_queue q1 pf)) = [] @ [pending_event i ''ObservationCreated''
       [(''asset_id'', JStr ''stack-1''), (''observation_id'', JStr (obs_id demo_reading)),
        (''timestamp'', JStr (isoformat t))] c]"
    by (simp add: pf(4))
  from deaf_dispatch [OF this] obtain e pf3 where "sv_dispatch deaf_service (with_queue q2 (with_queue q1 pf)) = (Err e, pf3)"
    by blast
  from dispatch_failure_counts_twice [OF pf(1) demo_service_works(4,2) c(1) run ended this] show ?thesis by blast
qed

definition demo_stock :: "Observation list" where
  "demo_stock = map (\<lambda>n. \<lparr>obs_id = nat_str n, obs_asset_id = ''stack-1'', obs_timestamp = int n,
     obs_measurement_type = MeasurementType (if n = 1 then ''pressure'' else ''current''), obs_value = 1, obs_unit = ''u''\<rparr>)
     [0..<22]"

lemma demo_stock_window:
  defines "listed \<equiv> list_by_asset (map (\<lambda>ob. (obs_id ob, ob)) demo_stock) ''stack-1''"
  shows "can_run_reasoning listed" "window_of DEFAULT_SESSION_CONFIG (sorted_by time_id_key listed) = Ok (tl demo_stock)"
    "length (primary_measurement_observations (tl demo_stock)) = 1"
  unfolding listed_def by code_simp+


theorem lone_reading_stops_worker_witness:
  "\<exists>(pf :: unit platform) e pf'. queue_order (pf_jobs pf) = [''stack-1''] \<and>
     run_worker demo_service id [[], [], []] pf = (Err e, pf') \<and> pf_observations pf = map (\<lambda>ob. (obs_id ob, ob)) demo_stock"
proof -
  obtain pf0 where pf0: "platform_inv demo_service pf0" "queue_order (pf_jobs pf0) = [''stack-1'']"
    by (rule demo_committed)
  define pf where "pf = pf0\<lparr>pf_observations := map (\<lambda>ob. (obs_id ob, ob)) demo_stock\<rparr>"
  have "queue_of pf = queue_of pf0" by (simp add: pf_def queue_of_def)
  then have pf: "platform_inv demo_service pf" "queue_order (pf_jobs pf) = [''stack-1'']"
    using pf0 by (simp_all add: pf_def platform_inv_def outbox_readable_def)
  have obs: "pf_observations pf = map (\<lambda>ob. (obs_id ob, ob)) demo_stock" by (simp add: pf_def)
  have "length (primary_measurement_observations (tl demo_stock)) < 2" by (simp only: demo_stock_window(3))
  from lone_reading_stops_worker [OF pf(1) demo_service_works(3,2) pf(2) _ _ this, unfolded obs,
      OF demo_stock_window(1,2), of id "[[], []]"] pf(2) obs
  show ?thesis by blast
qed

end
