(* ===== verification/Mqtt_Bridge.thy ===== *)
theory Mqtt_Bridge
  imports Observation_Service
begin

text \<open>
  The MQTT bridge (\<^verbatim>\<open>src/backend/app/application/mqtt_bridge\<close>): the mapping of a topic and a payload to
  an observation (\<^verbatim>\<open>observation_mapper.py\<close>), one forward attempt (\<^verbatim>\<open>forwarder.py\<close>) and the handling of a
  delivery with its acknowledgement (\<^verbatim>\<open>ingestion_service.py\<close>), and the endpoint that receives what it
  forwards (\<^verbatim>\<open>src/backend/app/api/routers/observations.py\<close>). Decoding of payloads, \<^verbatim>\<open>float\<close> of a text and
  \<^verbatim>\<open>datetime.fromisoformat\<close> are parameters. Values are finite: what Python does with the tokens
  \<^verbatim>\<open>NaN\<close> and \<^verbatim>\<open>Infinity\<close> is not modelled.
\<close>

section \<open>The mapping\<close>

record MqttIncomingMessage =
  mq_topic :: string
  mq_payload :: string
  mq_qos :: int
  mq_retain :: bool
  mq_message_id :: int

record MqttCodec =
  mc_decode :: "string \<Rightarrow> json option"
  mc_fromisoformat :: "string \<Rightarrow> datetime option"
  mc_float :: "string \<Rightarrow> pyfloat option"

definition mapping_error :: "string \<Rightarrow> py_error" where
  "mapping_error = AppError ''MqttObservationMappingError''"

fun split_slash :: "string \<Rightarrow> string list" where
  "split_slash [] = [[]]"
| "split_slash (c # cs) =
     (if c = CHR ''/'' then [] # split_slash cs
      else (case split_slash cs of [] \<Rightarrow> [[c]] | p # ps \<Rightarrow> (c # p) # ps))"

text \<open>The asset and the measurement type a topic names.\<close>

definition parse_topic :: "string \<Rightarrow> (string \<times> string) result" where
  "parse_topic topic =
     (let unsupported = Err (mapping_error (''unsupported MQTT topic: '' @ py_repr topic))
      in case split_slash topic of
           [odis, v1, site, asset, telemetry, measurement] \<Rightarrow>
             if odis = ''odis'' \<and> v1 = ''v1'' \<and> site \<noteq> [] \<and> asset \<noteq> [] \<and> telemetry = ''telemetry'' \<and> measurement \<noteq> []
             then Ok (asset, measurement) else unsupported
         | _ \<Rightarrow> unsupported)"

definition parse_payload :: "MqttCodec \<Rightarrow> string \<Rightarrow> (string, json) dict result" where
  "parse_payload codec payload =
     (if payload = [] then Err (mapping_error ''MQTT payload is empty'')
      else case mc_decode codec payload of
             None \<Rightarrow> Err (mapping_error ''MQTT payload must be UTF-8 JSON'')
           | Some (JObj body) \<Rightarrow> Ok body
           | Some _ \<Rightarrow> Err (mapping_error ''MQTT payload must be a JSON object''))"

definition body_str :: "(string, json) dict \<Rightarrow> string \<Rightarrow> string \<Rightarrow> string" where
  "body_str body k topic_name = (case map_of body k of None \<Rightarrow> topic_name | Some v \<Rightarrow> json_str v)"

definition resolve_timestamp ::
    "MqttCodec \<Rightarrow> (string, json) dict \<Rightarrow> runtime \<Rightarrow> datetime result \<times> runtime" where
  "resolve_timestamp codec body rt =
     (case map_of body ''timestamp'' of
        Some (JStr s) \<Rightarrow>
          (case mc_fromisoformat codec s of
             None \<Rightarrow> (Err (mapping_error (''invalid timestamp: '' @ py_repr s)), rt)
           | Some t \<Rightarrow> (Ok t, rt))
      | Some JNull \<Rightarrow> (let (t, rt') = utc_now rt in (Ok t, rt'))
      | None \<Rightarrow> (let (t, rt') = utc_now rt in (Ok t, rt'))
      | Some _ \<Rightarrow> (Err (mapping_error ''timestamp must be an ISO-8601 string''), rt))"

definition resolve_value :: "MqttCodec \<Rightarrow> (string, json) dict \<Rightarrow> pyfloat result" where
  "resolve_value codec body =
     (case map_of body ''value'' of
        None \<Rightarrow> Err (mapping_error ''MQTT payload must include value'')
      | Some v \<Rightarrow>
          (let invalid = Err (mapping_error (''invalid value: '' @ json_repr v)) in
           case v of
             JFloat x \<Rightarrow> Ok x
           | JInt i \<Rightarrow> if \<bar>fl (of_int i)\<bar> \<ge> 2 ^ 1024 then Err OverflowError else Ok (fl (of_int i))
           | JBool b \<Rightarrow> Ok (if b then 1 else 0)
           | JStr s \<Rightarrow> (case mc_float codec s of None \<Rightarrow> invalid | Some x \<Rightarrow> Ok x)
           | JNonFinite s \<Rightarrow> Err (RuntimeError ''a value that is not finite'')
           | _ \<Rightarrow> invalid))"

definition resolve_unit :: "(string, json) dict \<Rightarrow> string result" where
  "resolve_unit body =
     (case map_of body ''unit'' of
        Some (JStr s) \<Rightarrow> if s \<noteq> [] then Ok s else Err (mapping_error ''MQTT payload must include a non-empty unit'')
      | _ \<Rightarrow> Err (mapping_error ''MQTT payload must include a non-empty unit''))"

text \<open>\<^verbatim>\<open>int(timestamp.timestamp() * 1000)\<close>.\<close>

definition timestamp_ms :: "datetime \<Rightarrow> int" where
  "timestamp_ms t = (let x = fmul (flit t 1000000) 1000 in if x < 0 then - \<lfloor>- x\<rfloor> else \<lfloor>x\<rfloor>)"

definition resolve_id :: "(string, json) dict \<Rightarrow> string \<Rightarrow> string \<Rightarrow> datetime \<Rightarrow> string" where
  "resolve_id body asset measurement t =
     (let generated = ''mqtt-'' @ asset @ ''-'' @ measurement @ ''-'' @ int_str (timestamp_ms t)
      in case map_of body ''id'' of
           Some (JStr s) \<Rightarrow> if s \<noteq> [] then s else generated
         | _ \<Rightarrow> generated)"

definition map_message :: "MqttCodec \<Rightarrow> MqttIncomingMessage \<Rightarrow> runtime \<Rightarrow> Observation result \<times> runtime" where
  "map_message codec msg rt =
     (case res_bind (parse_topic (mq_topic msg)) (\<lambda>names.
           res_bind (parse_payload codec (mq_payload msg)) (\<lambda>body. Ok (names, body))) of
        Inl e \<Rightarrow> (Err e, rt)
      | Inr ((topic_asset, topic_measurement), body) \<Rightarrow>
          (let asset = body_str body ''asset_id'' topic_asset;
               measurement = body_str body ''measurement_type'' topic_measurement;
               (stamp, rt') = resolve_timestamp codec body rt
           in (res_bind stamp (\<lambda>t.
               res_bind (resolve_value codec body) (\<lambda>v.
               res_bind (resolve_unit body) (\<lambda>u.
               res_bind (mk_measurement_type measurement) (\<lambda>mt.
               mk_observation (resolve_id body asset measurement t) asset t mt v u)))), rt')))"

section \<open>Forwarding\<close>

datatype ForwardOutcome = ACCEPTED | DUPLICATE | RETRYABLE | REJECTED

text \<open>The status of the response, or none when the request failed.\<close>

definition forward_outcome :: "nat option \<Rightarrow> ForwardOutcome" where
  "forward_outcome response =
     (case response of
        None \<Rightarrow> RETRYABLE
      | Some status \<Rightarrow>
          if status = 202 then ACCEPTED else if status = 409 then DUPLICATE
          else if status \<ge> 500 then RETRYABLE else REJECTED)"

text \<open>The endpoint on a well-formed observation.\<close>

definition create_status :: "'a result \<Rightarrow> nat" where
  "create_status r =
     (case r of
        Inr _ \<Rightarrow> 202
      | Inl (AppError name msg) \<Rightarrow> if name = ''ObservationAlreadyExistsError'' then 409 else 500
      | Inl (ValueError msg) \<Rightarrow> 422
      | Inl _ \<Rightarrow> 500)"

definition post_observation :: "'w OutboxDispatcher \<Rightarrow> Observation \<Rightarrow> 'w platform \<Rightarrow> nat \<times> 'w platform" where
  "post_observation d ob pf = (case observation_create d ob pf of (r, pf') \<Rightarrow> (create_status r, pf'))"

section \<open>Deliveries\<close>

record 's mqtt_bridge =
  mb_rt :: runtime
  mb_api :: 's
  mb_acknowledged :: "int list"

definition acknowledge :: "MqttIncomingMessage \<Rightarrow> 's mqtt_bridge \<Rightarrow> 's mqtt_bridge" where
  "acknowledge msg br = br\<lparr>mb_acknowledged := mb_acknowledged br @ [mq_message_id msg]\<rparr>"

definition handle_delivery ::
    "MqttCodec \<Rightarrow> (Observation \<Rightarrow> 's \<Rightarrow> nat option \<times> 's) \<Rightarrow> MqttIncomingMessage \<Rightarrow> 's mqtt_bridge \<Rightarrow> unit result \<times> 's mqtt_bridge" where
  "handle_delivery codec post msg br =
     (case map_message codec msg (mb_rt br) of
        (Inl e, rt) \<Rightarrow>
          (let br' = br\<lparr>mb_rt := rt\<rparr>
           in case e of
                AppError name _ \<Rightarrow>
                  if name = ''MqttObservationMappingError'' then (Ok (), acknowledge msg br') else (Err e, br')
              | _ \<Rightarrow> (Err e, br'))
      | (Inr ob, rt) \<Rightarrow>
          (let (response, api) = post ob (mb_api br); br' = br\<lparr>mb_rt := rt, mb_api := api\<rparr>
           in (Ok (), if forward_outcome response = RETRYABLE then br' else acknowledge msg br')))"

text \<open>What the network does with a request: it works, or the request or its response is lost.\<close>

datatype network = Working | Request_Lost | Response_Lost

definition network_post ::
    "'w OutboxDispatcher \<Rightarrow> network \<Rightarrow> Observation \<Rightarrow> 'w platform \<Rightarrow> nat option \<times> 'w platform" where
  "network_post d net ob pf =
     (case net of
        Working \<Rightarrow> (case post_observation d ob pf of (status, pf') \<Rightarrow> (Some status, pf'))
      | Request_Lost \<Rightarrow> (None, pf)
      | Response_Lost \<Rightarrow> (None, snd (post_observation d ob pf)))"

definition mqtt_step ::
    "MqttCodec \<Rightarrow> 'w OutboxDispatcher \<Rightarrow> MqttIncomingMessage \<times> network \<Rightarrow> 'w platform mqtt_bridge \<Rightarrow>
     unit result \<times> 'w platform mqtt_bridge" where
  "mqtt_step codec d event = handle_delivery codec (network_post d (snd event)) (fst event)"


section \<open>What a request leaves behind\<close>

lemma create_unit_kept:
  assumes adv: "dispatcher_advances (Some d)" and inv: "queue_inv (queue_of pf)"
  shows "queue_inv (queue_of (snd (observation_create d ob pf))) \<and>
    pf_observations (snd (observation_create d ob pf)) =
      (if observation_get (pf_observations pf) (obs_id ob) = None
       then dict_set (obs_id ob) ob (pf_observations pf) else pf_observations pf)"
proof (cases "observation_get (pf_observations pf) (obs_id ob)")
  case None
  obtain job pf1 where u: "create_unit ob pf = (Ok job, pf1)" "queue_inv (queue_of pf1)"
    "pf_observations pf1 = dict_set (obs_id ob) ob (pf_observations pf)"
    by (rule create_unit_new [OF inv None])
  obtain r pf2 where dis: "sv_dispatch d pf1 = (r, pf2)" by fastforce
  note keep = sv_dispatch_keeps [OF adv dis]
  have "rt_later (jq_rt (queue_of pf1)) (pf_rt pf2)" using keep(2) by simp
  then have "queue_inv (queue_of pf2)" unfolding keep(1) by (rule queue_inv_later [OF u(2)])
  then show ?thesis using None keep(3)
    by (cases r) (simp_all add: observation_create_def u(1,3) sv_bind_def sv_return_def dis)
next
  case (Some old)
  then show ?thesis using observation_create_known [OF Some, of d] inv by simp
qed

lemma create_status_known:
  assumes "observation_get (pf_observations pf) (obs_id ob) = Some old"
  shows "post_observation d ob pf = (409, pf)"
  using observation_create_known [OF assms, of d] by (simp add: post_observation_def create_status_def)

text \<open>The endpoint never forgets an observation, and knows the posted one afterwards.\<close>

definition api_step :: "Observation \<Rightarrow> 'w platform \<Rightarrow> 'w platform \<Rightarrow> bool" where
  "api_step ob pf pf' \<longleftrightarrow> queue_inv (queue_of pf') \<and>
     pf_observations pf' = (if observation_get (pf_observations pf) (obs_id ob) = None
       then dict_set (obs_id ob) ob (pf_observations pf) else pf_observations pf)"

lemma post_api_step:
  "dispatcher_advances (Some d) \<Longrightarrow> queue_inv (queue_of pf) \<Longrightarrow> post_observation d ob pf = (status, pf') \<Longrightarrow> api_step ob pf pf'"
  using create_unit_kept [of d pf ob] by (auto simp: post_observation_def api_step_def split: prod.splits)

lemma api_step_known:
  assumes "api_step ob pf pf'"
  shows "observation_get (pf_observations pf') (obs_id ob) \<noteq> None"
    "observation_get (pf_observations pf) i \<noteq> None \<Longrightarrow> observation_get (pf_observations pf') i \<noteq> None"
    "observation_get (pf_observations pf) i = Some old \<Longrightarrow> observation_get (pf_observations pf') i = Some old"
  using assms by (auto simp: api_step_def observation_get_def map_of_dict_set)

lemma network_post_keeps:
  assumes "dispatcher_advances (Some d)" "queue_inv (queue_of pf)" "network_post d net ob pf = (response, pf')"
  shows "queue_inv (queue_of pf')" "response \<noteq> None \<Longrightarrow> api_step ob pf pf'" "pf' = pf \<or> api_step ob pf pf'"
proof -
  obtain status pf1 where p: "post_observation d ob pf = (status, pf1)" by fastforce
  note step = post_api_step [OF assms(1,2) p]
  show "queue_inv (queue_of pf')" "response \<noteq> None \<Longrightarrow> api_step ob pf pf'" "pf' = pf \<or> api_step ob pf pf'"
    using assms(2,3) step p by (auto simp: network_post_def api_step_def split: network.splits)
qed

section \<open>Acknowledgements\<close>

text \<open>The message is of no use, or its observation is stored.\<close>

definition settled :: "MqttCodec \<Rightarrow> 'w platform \<Rightarrow> MqttIncomingMessage \<Rightarrow> bool" where
  "settled codec pf msg \<longleftrightarrow>
     (\<exists>rt. (\<exists>m. fst (map_message codec msg rt) = Err (mapping_error m)) \<or>
           (\<exists>ob. fst (map_message codec msg rt) = Ok ob \<and> observation_get (pf_observations pf) (obs_id ob) \<noteq> None))"

lemma settled_later:
  "settled codec pf msg \<Longrightarrow> pf' = pf \<or> api_step ob pf pf' \<Longrightarrow> settled codec pf' msg"
  unfolding settled_def using api_step_known(2) by blast

lemma forward_retryable: "forward_outcome None = RETRYABLE" by (simp add: forward_outcome_def)

lemma mqtt_step_cases:
  assumes adv: "dispatcher_advances (Some d)" and inv: "queue_inv (queue_of (mb_api br))"
    and step: "mqtt_step codec d (msg, net) br = (r, br')"
  shows "queue_inv (queue_of (mb_api br'))"
    "mb_api br' = mb_api br \<or> (\<exists>ob. api_step ob (mb_api br) (mb_api br'))"
    "mb_acknowledged br' = mb_acknowledged br \<or>
       mb_acknowledged br' = mb_acknowledged br @ [mq_message_id msg] \<and> settled codec (mb_api br') msg"
proof -
  obtain x rt where m: "map_message codec msg (mb_rt br) = (x, rt)" by fastforce
  have "queue_inv (queue_of (mb_api br')) \<and> (mb_api br' = mb_api br \<or> (\<exists>ob. api_step ob (mb_api br) (mb_api br'))) \<and>
      (mb_acknowledged br' = mb_acknowledged br \<or>
       mb_acknowledged br' = mb_acknowledged br @ [mq_message_id msg] \<and> settled codec (mb_api br') msg)"
  proof (cases x)
    case (Inl e)
    have "settled codec (mb_api br) msg" if "e = AppError ''MqttObservationMappingError'' t" for t
      using m Inl that unfolding settled_def mapping_error_def by (intro exI [of _ "mb_rt br"]) auto
    then show ?thesis using step m Inl inv
      by (cases e) (auto simp: mqtt_step_def handle_delivery_def acknowledge_def Let_def split: if_splits)
  next
    case (Inr ob)
    obtain response api where p: "network_post d net ob (mb_api br) = (response, api)" by fastforce
    note keep = network_post_keeps [OF adv inv p]
    have br': "br' = (if forward_outcome response = RETRYABLE then br\<lparr>mb_rt := rt, mb_api := api\<rparr>
        else acknowledge msg (br\<lparr>mb_rt := rt, mb_api := api\<rparr>))"
      using step m Inr p by (simp add: mqtt_step_def handle_delivery_def Let_def)
    have "settled codec api msg" if "response \<noteq> None"
      using api_step_known(1) [OF keep(2) [OF that]] m Inr unfolding settled_def by (intro exI [of _ "mb_rt br"]) auto
    then show ?thesis using br' keep forward_retryable by (cases response) (auto simp: acknowledge_def)
  qed
  then show "queue_inv (queue_of (mb_api br'))" "mb_api br' = mb_api br \<or> (\<exists>ob. api_step ob (mb_api br) (mb_api br'))"
    "mb_acknowledged br' = mb_acknowledged br \<or>
       mb_acknowledged br' = mb_acknowledged br @ [mq_message_id msg] \<and> settled codec (mb_api br') msg"
    by blast+
qed


lemma mqtt_run_settled:
  assumes adv: "dispatcher_advances (Some d)"
    and "queue_inv (queue_of (mb_api br))"
    and "\<forall>i \<in> set (mb_acknowledged br). \<exists>event \<in> set past. mq_message_id (fst event) = i \<and> settled codec (mb_api br) (fst event)"
  defines "br' \<equiv> \<lambda>events. snd (op_run (mqtt_step codec d) events br)"
  shows "\<forall>i \<in> set (mb_acknowledged (br' events)).
    \<exists>event \<in> set (past @ events). mq_message_id (fst event) = i \<and> settled codec (mb_api (br' events)) (fst event)"
  using assms(2,3) unfolding br'_def
proof (induction events arbitrary: br past)
  case Nil
  then show ?case by simp
next
  case (Cons event events)
  obtain msg net where ev: "event = (msg, net)" by fastforce
  obtain r br1 where step: "mqtt_step codec d (msg, net) br = (r, br1)" by fastforce
  note now = mqtt_step_cases [OF adv Cons.prems(1) step]
  have later: "settled codec (mb_api br1) m" if "settled codec (mb_api br) m" for m
    using settled_later [OF that] now(2) by blast
  have "\<forall>i \<in> set (mb_acknowledged br1). \<exists>e \<in> set (past @ [event]). mq_message_id (fst e) = i \<and> settled codec (mb_api br1) (fst e)"
    using Cons.prems(2) now(3) later ev by fastforce
  from Cons.IH [OF now(1) this] show ?case by (simp add: op_run_Cons ev step del: op_run.simps)
qed

lemma delivered_again:
  fixes codec :: MqttCodec and d :: "'w OutboxDispatcher" and br :: "'w platform mqtt_bridge"
    and msg :: MqttIncomingMessage and net :: network
  assumes adv: "dispatcher_advances (Some d)" and inv: "queue_inv (queue_of (mb_api br))"
    and same: "\<And>rt. fst (map_message codec msg rt) = Ok ob" and net: "net \<noteq> Request_Lost"
  defines "br1 \<equiv> snd (mqtt_step codec d (msg, net) br)"
  defines "br2 \<equiv> snd (mqtt_step codec d (msg, Working) br1)"
  shows "mb_api br2 = mb_api br1 \<and> mq_message_id msg \<in> set (mb_acknowledged br2) \<and>
    observation_get (pf_observations (mb_api br1)) (obs_id ob) \<noteq> None \<and>
    (observation_get (pf_observations (mb_api br)) (obs_id ob) = None \<longrightarrow>
       observation_get (pf_observations (mb_api br1)) (obs_id ob) = Some ob)"
proof -
  have m: "map_message codec msg rt = (Ok ob, snd (map_message codec msg rt))" for rt
    using same [of rt] by (metis prod.collapse)
  obtain status pf' where p: "post_observation d ob (mb_api br) = (status, pf')" by fastforce
  note step = post_api_step [OF adv inv p]
  have api1: "mb_api br1 = pf'"
    using net p m [of "mb_rt br"]
    by (cases net) (auto simp: br1_def mqtt_step_def handle_delivery_def network_post_def acknowledge_def Let_def split: prod.splits)
  then obtain old where known: "observation_get (pf_observations (mb_api br1)) (obs_id ob) = Some old"
    using api_step_known(1) [OF step] by auto
  have "mb_api br2 = mb_api br1 \<and> mq_message_id msg \<in> set (mb_acknowledged br2)"
    using create_status_known [OF known, of d] m [of "mb_rt br1"]
    by (auto simp: br2_def mqtt_step_def handle_delivery_def network_post_def acknowledge_def forward_outcome_def Let_def split: prod.splits)
  moreover have "observation_get (pf_observations (mb_api br1)) (obs_id ob) = Some ob"
    if "observation_get (pf_observations (mb_api br)) (obs_id ob) = None"
    using step that by (simp add: api1 api_step_def stored_observation)
  ultimately show ?thesis using known by simp
qed

section \<open>A small bridge\<close>

definition demo_codec :: "string \<Rightarrow> MqttCodec" where
  "demo_codec asset =
     \<lparr>mc_decode = \<lambda>s. Some (JObj [(''id'', JStr ''reading-1''), (''asset_id'', JStr asset), (''timestamp'', JStr ''now''),
        (''value'', JFloat 1), (''unit'', JStr ''V'')]),
      mc_fromisoformat = \<lambda>s. Some 0, mc_float = \<lambda>s. None\<rparr>"

definition demo_message :: MqttIncomingMessage where
  "demo_message = \<lparr>mq_topic = ''odis/v1/lab/stack-1/telemetry/voltage'', mq_payload = ''{}'', mq_qos = 1, mq_retain = False, mq_message_id = 7\<rparr>"

definition demo_bridge :: "unit platform mqtt_bridge" where
  "demo_bridge = \<lparr>mb_rt = demo_runtime, mb_api = demo_platform, mb_acknowledged = []\<rparr>"

lemma demo_topic: "parse_topic (mq_topic demo_message) = Ok (''stack-1'', ''voltage'')"
  by (simp add: demo_message_def parse_topic_def)

lemma demo_mapped: "\<exists>ob. \<forall>rt. fst (map_message (demo_codec ''stack-1'') demo_message rt) = Ok ob"
  by (simp add: map_message_def demo_topic parse_payload_def demo_codec_def body_str_def json_str_def resolve_timestamp_def
      resolve_value_def resolve_unit_def resolve_id_def mk_measurement_type_def mk_observation_def construct_def)
    (simp add: demo_message_def)

lemma demo_bridge_inv: "queue_inv (queue_of (mb_api demo_bridge))"
  using demo_platform_inv(1) [of demo_service] by (simp add: demo_bridge_def platform_inv_def)

section \<open>Properties\<close>


text \<open>
  Delivering a message again does no harm: once the observation of a message that carries its own
  identifier has reached the platform, even when the request was answered with an error or its response
  was lost, the next delivery over a working network is acknowledged and changes nothing.
\<close>

theorem redelivery_is_absorbed:
  fixes codec :: MqttCodec and d :: "'w OutboxDispatcher" and br :: "'w platform mqtt_bridge"
    and msg :: MqttIncomingMessage and net :: network
  assumes adv: "dispatcher_advances (Some d)" and inv: "queue_inv (queue_of (mb_api br))"
    and same: "\<And>rt. fst (map_message codec msg rt) = Ok ob" and net: "net \<noteq> Request_Lost"
  defines "br1 \<equiv> snd (mqtt_step codec d (msg, net) br)"
  defines "br2 \<equiv> snd (mqtt_step codec d (msg, Working) br1)"
  shows "mb_api br2 = mb_api br1 \<and> mq_message_id msg \<in> set (mb_acknowledged br2) \<and>
    observation_get (pf_observations (mb_api br1)) (obs_id ob) \<noteq> None \<and>
    (observation_get (pf_observations (mb_api br)) (obs_id ob) = None \<longrightarrow>
       observation_get (pf_observations (mb_api br1)) (obs_id ob) = Some ob)"
  unfolding br1_def br2_def by (rule delivered_again [OF adv inv same net])

text \<open>
  C40. An observation that its constructor refuses is not a mapping error: a message whose payload names
  an empty asset is otherwise in order, yet its handler raises instead of acknowledging it, at every
  delivery, so the broker keeps it for ever.
\<close>

theorem empty_asset_is_never_acknowledged:
  fixes d :: "'w OutboxDispatcher"
  assumes topic: "parse_topic (mq_topic msg) = Ok names" and body: "parse_payload codec (mq_payload msg) = Ok body"
    and asset: "map_of body ''asset_id'' = Some (JStr [])"
    and measurement: "body_str body ''measurement_type'' (snd names) \<noteq> []"
    and time: "map_of body ''timestamp'' = Some (JStr s)" "mc_fromisoformat codec s = Some t"
    and val: "resolve_value codec body = Ok v" and unit_ok: "resolve_unit body = Ok u"
  shows "fst (op_run (mqtt_step codec d) (map (Pair msg) nets) br) =
      replicate (length nets) (Err (ValueError ''asset_id must not be empty'')) \<and>
    mb_acknowledged (snd (op_run (mqtt_step codec d) (map (Pair msg) nets) br)) = mb_acknowledged br"
proof -
  have id: "resolve_id body [] m t \<noteq> []" for m by (simp add: resolve_id_def Let_def split: option.splits json.splits)
  have mapped: "map_message codec msg rt = (Err (ValueError ''asset_id must not be empty''), rt)" for rt
    using measurement id
    by (cases names) (simp add: map_message_def topic body time val unit_ok resolve_timestamp_def body_str_def asset
        json_str_def mk_measurement_type_def mk_observation_def construct_def)
  have step: "mqtt_step codec d (msg, net) b = (Err (ValueError ''asset_id must not be empty''), b)" for net and b :: "'w platform mqtt_bridge"
    by (simp add: mqtt_step_def handle_delivery_def mapped)
  have "op_run (mqtt_step codec d) (map (Pair msg) nets) br = (replicate (length nets) (Err (ValueError ''asset_id must not be empty'')), br)"
    by (induction nets) (simp_all add: step)
  then show ?thesis by simp
qed


theorem redelivery_is_absorbed_witness:
  "\<exists>br1 br2. br1 = snd (mqtt_step (demo_codec ''stack-1'') demo_service (demo_message, Response_Lost) demo_bridge) \<and>
     br2 = snd (mqtt_step (demo_codec ''stack-1'') demo_service (demo_message, Working) br1) \<and>
     mb_api br2 = mb_api br1 \<and> mb_acknowledged br1 = [] \<and> 7 \<in> set (mb_acknowledged br2)"
proof -
  obtain ob where "\<forall>rt. fst (map_message (demo_codec ''stack-1'') demo_message rt) = Ok ob" using demo_mapped by blast
  then have ob: "\<And>rt. fst (map_message (demo_codec ''stack-1'') demo_message rt) = Ok ob" by blast
  then have m: "map_message (demo_codec ''stack-1'') demo_message rt = (Ok ob, snd (map_message (demo_codec ''stack-1'') demo_message rt))" for rt
    by (metis prod.collapse)
  have "mb_acknowledged (snd (mqtt_step (demo_codec ''stack-1'') demo_service (demo_message, Response_Lost) demo_bridge)) = []"
    using m [of demo_runtime]
    by (auto simp: mqtt_step_def handle_delivery_def network_post_def forward_retryable demo_bridge_def Let_def split: prod.splits)
  then show ?thesis
    using redelivery_is_absorbed [OF demo_service_works(3) demo_bridge_inv ob, of Response_Lost] by (simp add: demo_message_def)
qed

theorem empty_asset_is_never_acknowledged_witness:
  "mb_acknowledged (snd (op_run (mqtt_step (demo_codec []) demo_service)
     [(demo_message, Working), (demo_message, Working)] demo_bridge)) = []"
proof -
  have body: "parse_payload (demo_codec []) (mq_payload demo_message) =
      Ok [(''id'', JStr ''reading-1''), (''asset_id'', JStr []), (''timestamp'', JStr ''now''), (''value'', JFloat 1), (''unit'', JStr ''V'')]"
    by (simp add: parse_payload_def demo_codec_def demo_message_def)
  show ?thesis
    using empty_asset_is_never_acknowledged [OF demo_topic body, where s = "''now''" and t = 0 and v = 1 and u = "''V''"
        and d = demo_service and nets = "[Working, Working]" and br = demo_bridge]
    by (simp add: body_str_def resolve_value_def resolve_unit_def demo_codec_def demo_bridge_def)
qed

end
