(* ===== verification/Plant_Telemetry.thy ===== *)
theory Plant_Telemetry
  imports Plant_Scenarios Mqtt_Bridge Bridge_Events
begin

text \<open>
  What the simulated plant says of itself: observations of a machine state
  (\<^verbatim>\<open>src/backend/simulator/telemetry.py\<close>), the publishers over HTTP, MQTT and Kafka
  (\<^verbatim>\<open>src/backend/simulator/publishers\<close>) and the snapshot of the Kafka loop (\<^verbatim>\<open>__main__.py\<close>). The theorems
  connect both ends: what is published over MQTT is what the bridge maps, what is posted is stored once, and
  a snapshot on the telemetry topic is answered by the inference worker. The rendering of JSON to text is a
  parameter that the readers' decoders undo.
\<close>

section \<open>Observations of a machine\<close>

definition CORE_MEASUREMENT_SPECS :: "(string \<times> (FuelCellMachineState \<Rightarrow> pyfloat) \<times> string) list" where
  "CORE_MEASUREMENT_SPECS =
     [(''stack_temperature'', fs_stack_temperature, ''celsius''), (''stack_pressure'', fs_stack_pressure, ''kPa''),
      (''current'', fs_current, ''A''), (''voltage'', fs_voltage, ''V''), (''fuel_flow'', fs_hydrogen_flow, ''SLPM'')]"

definition observation_id :: "string \<Rightarrow> string \<Rightarrow> int \<Rightarrow> string \<Rightarrow> string" where
  "observation_id run asset nth_tick measurement =
     ''sim-'' @ run @ ''-'' @ asset @ ''-t'' @ int_str nth_tick @ ''-'' @ measurement"

definition plant_observation :: "string \<Rightarrow> datetime \<Rightarrow> string \<Rightarrow> int \<Rightarrow> string \<times> pyfloat \<times> string \<Rightarrow> Observation result" where
  "plant_observation asset ts run nth_tick = (\<lambda>(name, x, u).
     res_bind (mk_measurement_type name) (\<lambda>mt. mk_observation (observation_id run asset nth_tick name) asset ts mt x u))"

definition core_observations ::
    "FuelCellMachineState \<Rightarrow> string \<Rightarrow> datetime \<Rightarrow> TelemetryContext \<Rightarrow> Observation list result" where
  "core_observations s asset ts ctx =
     res_map (\<lambda>(name, sel, u).
       plant_observation asset ts (tc_run_id ctx) (fs_tick_count s)
         (name, py_round (fadd (sel s) (case map_of (tc_sensor_bias ctx) name of Some b \<Rightarrow> b | None \<Rightarrow> 0)) 4, u))
       CORE_MEASUREMENT_SPECS"

definition derived_values :: "pyfloat \<Rightarrow> pyfloat \<Rightarrow> pyfloat \<Rightarrow> pyfloat \<Rightarrow> (string \<times> pyfloat \<times> string) list" where
  "derived_values voltage current hydrogen coolant =
     (let power_kw = fdiv (fmul voltage current) 1000;
          fuel_energy = max (fmul hydrogen (flit 33 1000)) (flit 1 1000000);
          efficiency_percent = min 100 (fmul (fdiv power_kw fuel_energy) 100)
      in [(''power_output'', py_round power_kw 4, ''kW''), (''efficiency'', py_round efficiency_percent 4, ''percent''),
          (''coolant_flow'', coolant, ''L/min'')])"

definition derived_observations_from_values ::
    "string \<Rightarrow> datetime \<Rightarrow> TelemetryContext \<Rightarrow> int \<Rightarrow> pyfloat \<Rightarrow> pyfloat \<Rightarrow> pyfloat \<Rightarrow> pyfloat \<Rightarrow> Observation list result" where
  "derived_observations_from_values asset ts ctx nth_tick voltage current hydrogen coolant =
     res_map (plant_observation asset ts (tc_run_id ctx) nth_tick) (derived_values voltage current hydrogen coolant)"

definition derived_observations ::
    "FuelCellMachineState \<Rightarrow> string \<Rightarrow> datetime \<Rightarrow> TelemetryContext \<Rightarrow> Observation list result" where
  "derived_observations s asset ts ctx =
     derived_observations_from_values asset ts ctx (fs_tick_count s)
       (fs_voltage s) (fs_current s) (fs_hydrogen_flow s) (fs_coolant_flow s)"

text \<open>\<^verbatim>\<open>observations_from_machine\<close> with the derived observations.\<close>

definition observations_from_machine ::
    "FuelCellMachine \<Rightarrow> datetime \<Rightarrow> TelemetryContext \<Rightarrow> bool \<Rightarrow> Observation list result" where
  "observations_from_machine m ts ctx include_derived =
     res_bind (core_observations (machine_state m) (fm_asset_id m) ts ctx) (\<lambda>core.
       if \<not> include_derived then Ok core
       else res_bind (derived_observations (machine_state m) (fm_asset_id m) ts ctx) (\<lambda>derived. Ok (core @ derived)))"

definition observation_to_payload :: "Observation \<Rightarrow> (string, json) dict" where
  "observation_to_payload ob =
     [(''id'', JStr (obs_id ob)), (''asset_id'', JStr (obs_asset_id ob)),
      (''timestamp'', JStr (isoformat (obs_timestamp ob))),
      (''measurement_type'', JStr (mt_name (obs_measurement_type ob))), (''value'', JFloat (obs_value ob)),
      (''unit'', JStr (obs_unit ob))]"

section \<open>Publishers\<close>

text \<open>One message per observation over MQTT; a refused message ends the publication.\<close>

definition topic_for :: "string \<Rightarrow> string \<Rightarrow> Observation \<Rightarrow> string" where
  "topic_for topic_prefix site ob =
     topic_prefix @ ''/'' @ site @ ''/'' @ obs_asset_id ob @ ''/telemetry/'' @ mt_name (obs_measurement_type ob)"

fun mqtt_publish ::
    "(json \<Rightarrow> string) \<Rightarrow> (string \<Rightarrow> string \<Rightarrow> 's \<Rightarrow> int \<times> 's) \<Rightarrow> string \<Rightarrow> string \<Rightarrow> Observation list \<Rightarrow> 's \<Rightarrow> unit result \<times> 's" where
  "mqtt_publish dumps send topic_prefix site [] s = (Ok (), s)"
| "mqtt_publish dumps send topic_prefix site (ob # obs) s =
     (case send (topic_for topic_prefix site ob) (dumps (JObj (observation_to_payload ob))) s of
        (rc, s') \<Rightarrow>
          if rc \<noteq> 0 then (Err (RuntimeError (''mqtt publish failed with rc='' @ int_str rc)), s')
          else mqtt_publish dumps send topic_prefix site obs s')"

text \<open>The envelope on the telemetry topic, and the publication keyed by the asset.\<close>

definition telemetry_envelope :: "string \<Rightarrow> string \<Rightarrow> Observation \<Rightarrow> (string, json) dict" where
  "telemetry_envelope event_id source ob =
     [(''event_id'', JStr event_id), (''event_version'', JStr ''v1''), (''asset_id'', JStr (obs_asset_id ob)),
      (''timestamp'', json_get (JObj (observation_to_payload ob)) ''timestamp''),
      (''measurement_name'', JStr (mt_name (obs_measurement_type ob))), (''value'', JFloat (obs_value ob)),
      (''unit'', JStr (obs_unit ob)), (''source'', JStr source)]"

fun kafka_publish ::
    "(json \<Rightarrow> string) \<Rightarrow> (string \<Rightarrow> string \<Rightarrow> 's \<Rightarrow> unit result \<times> 's) \<Rightarrow> string \<Rightarrow> Observation list \<Rightarrow> runtime \<times> 's \<Rightarrow> unit result \<times> runtime \<times> 's" where
  "kafka_publish dumps send source [] (rt, s) = (Ok (), rt, s)"
| "kafka_publish dumps send source (ob # obs) (rt, s) =
     (let (event_id, rt') = uuid4 rt
      in case send (obs_asset_id ob) (dumps (sort_keys (JObj (telemetry_envelope event_id source ob)))) s of
           (Inl e, s') \<Rightarrow> (Err e, rt', s')
         | (Inr _, s') \<Rightarrow> kafka_publish dumps send source obs (rt', s'))"

text \<open>
  One post with up to four attempts. Only a failed transport is tried again, a conflict is success, and
  \<^verbatim>\<open>raise_for_status\<close> raises for every other status that is no success. The pauses between the attempts are
  left out.
\<close>

definition MAX_ATTEMPTS :: nat where
  "MAX_ATTEMPTS = 4"

function http_attempt :: "(Observation \<Rightarrow> 's \<Rightarrow> nat option \<times> 's) \<Rightarrow> Observation \<Rightarrow> nat \<Rightarrow> 's \<Rightarrow> unit result \<times> 's" where
  "http_attempt post ob attempt s =
     (if MAX_ATTEMPTS < attempt then (Ok (), s)
      else case post ob s of
        (None, s') \<Rightarrow>
          if attempt = MAX_ATTEMPTS then (Err (AppError ''TransportError'' ''''), s')
          else http_attempt post ob (Suc attempt) s'
      | (Some status, s') \<Rightarrow>
          if status = 409 then (Ok (), s')
          else if 200 \<le> status \<and> status < 300 then (Ok (), s')
          else (Err (AppError ''HTTPStatusError'' (nat_str status)), s'))"
  by pat_completeness auto

termination by (relation "measure (\<lambda>(post, ob, attempt, s). Suc MAX_ATTEMPTS - attempt)") auto

definition http_publish_one :: "(Observation \<Rightarrow> 's \<Rightarrow> nat option \<times> 's) \<Rightarrow> Observation \<Rightarrow> 's \<Rightarrow> unit result \<times> 's" where
  "http_publish_one post ob = http_attempt post ob 1"

fun http_publish :: "(Observation \<Rightarrow> 's \<Rightarrow> nat option \<times> 's) \<Rightarrow> Observation list \<Rightarrow> 's \<Rightarrow> unit result \<times> 's" where
  "http_publish post [] s = (Ok (), s)"
| "http_publish post (ob # obs) s =
     (case http_publish_one post ob s of
        (Inl e, s') \<Rightarrow> (Err e, s')
      | (Inr _, s') \<Rightarrow> http_publish post obs s')"

text \<open>The same observations to every publisher, in order; the first that raises ends it.\<close>

fun composite_publish :: "(Observation list \<Rightarrow> 's \<Rightarrow> unit result \<times> 's) list \<Rightarrow> Observation list \<Rightarrow> 's \<Rightarrow> unit result \<times> 's" where
  "composite_publish [] obs s = (Ok (), s)"
| "composite_publish (publish # publishers) obs s =
     (case publish obs s of
        (Inl e, s') \<Rightarrow> (Err e, s')
      | (Inr _, s') \<Rightarrow> composite_publish publishers obs s')"

section \<open>The Kafka loop\<close>

text \<open>One synchronized snapshot: tick, one timestamp, then every asset's observations in one publication.\<close>

fun publish_assets ::
    "(Observation list \<Rightarrow> 's \<Rightarrow> unit result \<times> 's) \<Rightarrow> datetime \<Rightarrow> PlantAlphaFleet \<Rightarrow> string list \<Rightarrow> 's \<Rightarrow> unit result \<times> 's" where
  "publish_assets publish ts fleet [] s = (Ok (), s)"
| "publish_assets publish ts fleet (asset # assets) s =
     (case (map_of (pl_machines fleet) asset, map_of (pl_contexts fleet) asset) of
        (Some m, Some ctx) \<Rightarrow>
          (case res_bind (core_observations (machine_state m) (fm_asset_id m) ts ctx) (\<lambda>core.
                  res_bind (derived_observations (machine_state m) asset ts ctx) (\<lambda>derived. Ok (core @ derived))) of
             Inl e \<Rightarrow> (Err e, s)
           | Inr obs \<Rightarrow>
               (case publish obs s of
                  (Inl e, s') \<Rightarrow> (Err e, s')
                | (Inr _, s') \<Rightarrow> publish_assets publish ts fleet assets s'))
      | _ \<Rightarrow> (Err (KeyError (py_repr asset)), s))"

definition publish_kafka_snapshot ::
    "(PlantAlphaFleet \<Rightarrow> unit result \<times> PlantAlphaFleet) \<Rightarrow> (Observation list \<Rightarrow> runtime \<times> 's \<Rightarrow> unit result \<times> runtime \<times> 's) \<Rightarrow>
     PlantAlphaFleet \<times> runtime \<times> 's \<Rightarrow> datetime result \<times> PlantAlphaFleet \<times> runtime \<times> 's" where
  "publish_kafka_snapshot tick_fleet publish = (\<lambda>(fleet, rt, s).
     (case tick_fleet fleet of
        (Inl e, fleet') \<Rightarrow> (Err e, fleet', rt, s)
      | (Inr _, fleet') \<Rightarrow>
          (let (ts, rt') = utc_now rt
           in case publish_assets publish ts fleet' (dict_keys (pl_machines fleet')) (rt', s) of
                (Inl e, s') \<Rightarrow> (Err e, fleet', s')
              | (Inr _, s') \<Rightarrow> (Ok ts, fleet', s'))))"

section \<open>What a machine reports\<close>

lemma plant_observation_Ok:
  assumes "asset \<noteq> []" "name \<noteq> []" "u \<noteq> []"
  shows "plant_observation asset ts run nth_tick (name, x, u) =
    Ok \<lparr>obs_id = observation_id run asset nth_tick name, obs_asset_id = asset, obs_timestamp = ts,
        obs_measurement_type = MeasurementType name, obs_value = x, obs_unit = u\<rparr>"
  using assms
  by (simp add: plant_observation_def mk_measurement_type_def mk_observation_def construct_def observation_id_def)

text \<open>A report: the eight observations of one machine and instant.\<close>

definition plant_report :: "string \<Rightarrow> datetime \<Rightarrow> Observation list \<Rightarrow> bool" where
  "plant_report asset ts obs \<longleftrightarrow>
     map (mt_name \<circ> obs_measurement_type) obs =
       [''stack_temperature'', ''stack_pressure'', ''current'', ''voltage'', ''fuel_flow'', ''power_output'', ''efficiency'', ''coolant_flow''] \<and>
     (\<forall>ob \<in> set obs. obs_asset_id ob = asset \<and> obs_timestamp ob = ts \<and> observation_wf ob \<and>
        map_of CANONICAL_UNITS (mt_name (obs_measurement_type ob)) = Some (obs_unit ob)) \<and>
     distinct (map obs_id obs)"

lemma observation_id_inject: "observation_id run asset nth_tick n = observation_id run asset nth_tick n' \<longleftrightarrow> n = n'"
  by (simp add: observation_id_def)

lemma machine_reports:
  assumes "fm_asset_id m \<noteq> []"
  obtains obs where "observations_from_machine m ts ctx True = Ok obs" "plant_report (fm_asset_id m) ts obs"
proof -
  have "\<exists>obs. observations_from_machine m ts ctx True = Ok obs \<and> plant_report (fm_asset_id m) ts obs"
    using assms
    by (simp add: observations_from_machine_def core_observations_def derived_observations_def derived_observations_from_values_def
        CORE_MEASUREMENT_SPECS_def derived_values_def Let_def plant_observation_Ok plant_report_def CANONICAL_UNITS_def
        observation_wf_def observation_id_inject)
      (simp add: observation_id_def)
  then show ?thesis using that by blast
qed

section \<open>From the plant to the MQTT bridge\<close>

text \<open>The text of a JSON value and of a time are undone by the reader's parsers.\<close>

definition renders :: "(json \<Rightarrow> string) \<Rightarrow> MqttCodec \<Rightarrow> json \<Rightarrow> bool" where
  "renders dumps codec j \<longleftrightarrow> dumps j \<noteq> [] \<and> mc_decode codec (dumps j) = Some j"

definition reads_isoformat :: "(string \<Rightarrow> datetime option) \<Rightarrow> datetime \<Rightarrow> bool" where
  "reads_isoformat parse t \<longleftrightarrow> parse (isoformat t) = Some t"

lemma split_slash_plain: "CHR ''/'' \<notin> set s \<Longrightarrow> split_slash s = [s]"
  by (induction s) auto

lemma split_slash_append: "CHR ''/'' \<notin> set s \<Longrightarrow> split_slash (s @ CHR ''/'' # r) = s # split_slash r"
  by (induction s) auto

definition topic_part :: "string \<Rightarrow> bool" where
  "topic_part s \<longleftrightarrow> s \<noteq> [] \<and> CHR ''/'' \<notin> set s"

lemma topic_parsed:
  assumes "topic_part site" "topic_part asset" "topic_part name"
  shows "parse_topic (''odis/v1'' @ ''/'' @ site @ ''/'' @ asset @ ''/telemetry/'' @ name) = Ok (asset, name)"
proof -
  have "split_slash (''odis/v1'' @ ''/'' @ site @ ''/'' @ asset @ ''/telemetry/'' @ name) =
      [''odis'', ''v1'', site, asset, ''telemetry'', name]"
    using assms split_slash_append [of site "asset @ ''/telemetry/'' @ name"] split_slash_append [of asset "''telemetry/'' @ name"]
      split_slash_append [of "''telemetry''" name] split_slash_plain [of name]
    by (simp add: topic_part_def)
  then show ?thesis using assms by (simp add: parse_topic_def topic_part_def)
qed

definition mqtt_message :: "(json \<Rightarrow> string) \<Rightarrow> string \<Rightarrow> int \<Rightarrow> Observation \<Rightarrow> MqttIncomingMessage" where
  "mqtt_message dumps site n ob =
     \<lparr>mq_topic = topic_for ''odis/v1'' site ob, mq_payload = dumps (JObj (observation_to_payload ob)), mq_qos = 1,
      mq_retain = False, mq_message_id = n\<rparr>"

lemma published_message_mapped:
  assumes "renders dumps codec (JObj (observation_to_payload ob))" "reads_isoformat (mc_fromisoformat codec) (obs_timestamp ob)"
    and "topic_part site" "observation_wf ob"
    and "topic_part (obs_asset_id ob)" "topic_part (mt_name (obs_measurement_type ob))"
  shows "map_message codec (mqtt_message dumps site n ob) rt = (Ok ob, rt)"
proof -
  have topic: "parse_topic (mq_topic (mqtt_message dumps site n ob)) = Ok (obs_asset_id ob, mt_name (obs_measurement_type ob))"
    using topic_parsed [OF assms(3,5,6)] by (simp add: mqtt_message_def topic_for_def)
  have body: "parse_payload codec (mq_payload (mqtt_message dumps site n ob)) = Ok (observation_to_payload ob)"
    using assms(1) by (simp add: parse_payload_def mqtt_message_def renders_def)
  have mt: "MeasurementType (mt_name (obs_measurement_type ob)) = obs_measurement_type ob" by simp
  show ?thesis
    using assms(2,4)
    by (simp add: map_message_def topic body observation_to_payload_def body_str_def json_str_def resolve_timestamp_def
        reads_isoformat_def resolve_value_def resolve_unit_def resolve_id_def observation_wf_def
        mk_measurement_type_def mk_observation_def construct_def)
qed

section \<open>From the plant to the inference worker\<close>

definition reading_of :: "string \<Rightarrow> string \<Rightarrow> Observation \<Rightarrow> TelemetryObservationEvent" where
  "reading_of event_id source ob =
     \<lparr>te_event_id = event_id, te_event_version = ''v1'', te_asset_id = obs_asset_id ob, te_timestamp = obs_timestamp ob,
      te_measurement_name = mt_name (obs_measurement_type ob), te_value = obs_value ob, te_unit = obs_unit ob, te_source = source\<rparr>"

lemma envelope_accepted:
  assumes "reads_isoformat parse (obs_timestamp ob)" "observation_wf ob" "map_of CANONICAL_UNITS (mt_name (obs_measurement_type ob)) = Some (obs_unit ob)"
  shows "validate_telemetry_event parse (sort_keys (JObj (telemetry_envelope event_id source ob))) = Ok (reading_of event_id source ob)"
proof -
  let ?raw = "sort_keys (JObj (telemetry_envelope event_id source ob))"
  have dist: "distinct (map fst (telemetry_envelope event_id source ob))" by (simp add: telemetry_envelope_def)
  note obj = sort_keys_object [OF dist]
  have "check_field ?raw n = Ok ()" if "n \<in> set REQUIRED_INPUT_FIELDS" for n
    using that unfolding check_field_def obj
    by (auto simp: REQUIRED_INPUT_FIELDS_def telemetry_envelope_def observation_to_payload_def json_get_def)
  then obtain u where u: "res_map (check_field ?raw) REQUIRED_INPUT_FIELDS = Ok u"
    using res_map_total [of REQUIRED_INPUT_FIELDS "check_field ?raw"] by blast
  have get: "json_get ?raw ''event_version'' = JStr ''v1''" "json_get ?raw ''asset_id'' = JStr (obs_asset_id ob)"
    "json_get ?raw ''timestamp'' = JStr (isoformat (obs_timestamp ob))"
    "json_get ?raw ''measurement_name'' = JStr (mt_name (obs_measurement_type ob))"
    "json_get ?raw ''value'' = JFloat (obs_value ob)" "json_get ?raw ''unit'' = JStr (obs_unit ob)"
    "json_get ?raw ''event_id'' = JStr event_id" "json_get ?raw ''source'' = JStr source"
    unfolding obj by (simp_all add: telemetry_envelope_def observation_to_payload_def json_get_def)
  have time: "parse_event_timestamp parse (JStr (isoformat (obs_timestamp ob))) = Ok (obs_timestamp ob)"
    using assms(1) by (simp add: parse_event_timestamp_def replace_char_id isoformat_no_Z reads_isoformat_def)
  have name: "in_frozenset (JStr (mt_name (obs_measurement_type ob))) SUPPORTED_MEASUREMENTS = Ok True"
    using assms(3) by (simp add: in_frozenset_Ok supported_unit)
  have ver: "in_frozenset (JStr ''v1'') [INPUT_EVENT_VERSION] = Ok True" by (simp add: in_frozenset_Ok INPUT_EVENT_VERSION_def)
  show ?thesis
    using assms(2,3)
    by (simp add: validate_telemetry_event_def u get time name ver event_value_def json_str_def reading_of_def observation_wf_def Let_def
        del: sort_keys.simps)
qed

text \<open>The topic as the list of its messages.\<close>

definition append_log :: "string \<Rightarrow> string \<Rightarrow> (string \<times> string) list \<Rightarrow> unit result \<times> (string \<times> string) list" where
  "append_log key message entries = (Ok (), entries @ [(key, message)])"

definition event_ids :: "runtime \<Rightarrow> nat \<Rightarrow> string list" where
  "event_ids rt n = map (rt_uuids rt) [rt_uuid_count rt..<rt_uuid_count rt + n]"

definition envelope_message :: "(json \<Rightarrow> string) \<Rightarrow> string \<Rightarrow> string \<Rightarrow> Observation \<Rightarrow> string \<times> string" where
  "envelope_message dumps source event_id ob =
     (obs_asset_id ob, dumps (sort_keys (JObj (telemetry_envelope event_id source ob))))"

lemma kafka_log:
  "\<exists>rt'. kafka_publish dumps append_log source obs (rt, entries) =
     (Ok (), rt', entries @ map2 (envelope_message dumps source) (event_ids rt (length obs)) obs)"
proof (induction obs arbitrary: rt entries)
  case Nil
  then show ?case by simp
next
  case (Cons ob obs)
  define rt1 where "rt1 = snd (uuid4 rt)"
  have rt1: "uuid4 rt = (rt_uuids rt (rt_uuid_count rt), rt1)" "rt_uuids rt1 = rt_uuids rt" "rt_uuid_count rt1 = Suc (rt_uuid_count rt)"
    by (simp_all add: rt1_def uuid4_def)
  have ids: "event_ids rt (length (ob # obs)) = rt_uuids rt (rt_uuid_count rt) # event_ids rt1 (length obs)"
    by (simp add: event_ids_def rt1 upt_conv_Cons del: upt_Suc)
  from Cons [of rt1 "entries @ [envelope_message dumps source (rt_uuids rt (rt_uuid_count rt)) ob]"]
  show ?case unfolding ids by (auto simp: rt1(1) append_log_def envelope_message_def)
qed

text \<open>The worker decodes the messages of these observations.\<close>

definition decodes_report :: "WorkerEnvironment \<Rightarrow> (json \<Rightarrow> string) \<Rightarrow> string \<Rightarrow> (string \<times> Observation) list \<Rightarrow> bool" where
  "decodes_report env dumps source ios \<longleftrightarrow>
     (\<forall>io \<in> set ios. let j = sort_keys (JObj (telemetry_envelope (fst io) source (snd io))) in we_decode env (dumps j) = Ok j)"

lemma report_carried:
  assumes "plant_report k t obs" "uuids_fresh rt" "reads_isoformat (we_fromisoformat env) t"
    "decodes_report env dumps source (zip (event_ids rt (length obs)) obs)"
  defines "ids \<equiv> event_ids rt (length obs)"
  shows "list_all2 (carries env) (map snd (map2 (envelope_message dumps source) ids obs)) (map2 (\<lambda>i. reading_of i source) ids obs)"
    "\<forall>ev \<in> set (map2 (\<lambda>i. reading_of i source) ids obs). event_wf ev \<and> te_asset_id ev = k \<and> te_timestamp ev = t"
    "map te_measurement_name (map2 (\<lambda>i. reading_of i source) ids obs) = map (mt_name \<circ> obs_measurement_type) obs"
proof -
  have len: "length ids = length obs" by (simp add: ids_def event_ids_def)
  have ob: "observation_wf ob" "map_of CANONICAL_UNITS (mt_name (obs_measurement_type ob)) = Some (obs_unit ob)"
    "obs_asset_id ob = k" "obs_timestamp ob = t" if "ob \<in> set obs" for ob
    using assms(1) that by (simp_all add: plant_report_def)
  have id: "i \<noteq> []" if "i \<in> set ids" for i using assms(2) that by (auto simp: ids_def event_ids_def uuids_fresh_def)
  show "list_all2 (carries env) (map snd (map2 (envelope_message dumps source) ids obs)) (map2 (\<lambda>i. reading_of i source) ids obs)"
    unfolding list_all2_conv_all_nth
  proof (intro conjI allI impI)
    fix i assume "i < length (map snd (map2 (envelope_message dumps source) ids obs))"
    then have i: "i < length obs" "i < length ids" using len by simp_all
    let ?ob = "obs ! i" and ?j = "sort_keys (JObj (telemetry_envelope (ids ! i) source (obs ! i)))"
    have mem: "?ob \<in> set obs" "(ids ! i, ?ob) \<in> set (zip ids obs)" using i by (auto simp: set_zip)
    then have "we_decode env (dumps ?j) = Ok ?j" using assms(4) unfolding decodes_report_def ids_def Let_def by (metis fst_conv snd_conv)
    moreover have "validate_telemetry_event (we_fromisoformat env) ?j = Ok (reading_of (ids ! i) source ?ob)"
      using ob [OF mem(1)] assms(3) by (intro envelope_accepted) auto
    ultimately show "carries env (map snd (map2 (envelope_message dumps source) ids obs) ! i) (map2 (\<lambda>i. reading_of i source) ids obs ! i)"
      using i by (simp add: carries_def envelope_message_def del: sort_keys.simps)
  qed simp
  show "\<forall>ev \<in> set (map2 (\<lambda>i. reading_of i source) ids obs). event_wf ev \<and> te_asset_id ev = k \<and> te_timestamp ev = t"
  proof
    fix ev assume "ev \<in> set (map2 (\<lambda>i. reading_of i source) ids obs)"
    then obtain i ob where io: "(i, ob) \<in> set (zip ids obs)" "ev = reading_of i source ob" by auto
    then have "i \<in> set ids" "ob \<in> set obs" by (auto dest: set_zip_leftD set_zip_rightD)
    then show "event_wf ev \<and> te_asset_id ev = k \<and> te_timestamp ev = t"
      using ob [of ob] id [of i] io(2) by (simp add: event_wf_def reading_of_def observation_wf_def)
  qed
  show "map te_measurement_name (map2 (\<lambda>i. reading_of i source) ids obs) = map (mt_name \<circ> obs_measurement_type) obs"
    using len by (intro nth_equalityI) (auto simp: reading_of_def)
qed

lemma report_completes:
  assumes "can_open a k t" "length nows = length evs"
    and evs: "\<forall>ev \<in> set evs. event_wf ev \<and> te_asset_id ev = k \<and> te_timestamp ev = t"
    and names: "map te_measurement_name evs = [''stack_temperature'', ''stack_pressure'', ''current'', ''voltage'', ''fuel_flow'', ''power_output'', ''efficiency'', ''coolant_flow'']"
  shows "\<exists>x a'. ingest_all a (zip evs nows) = Ok (replicate (length evs - 1) (pending_outcome k t) @ [complete_outcome k t x], a') \<and>
    complete_for k x \<and> ts_timestamp x = t"
proof -
  let ?arrivals = "zip evs nows"
  have ne: "?arrivals \<noteq> []" using names assms(2) by (cases evs; cases nows) auto
  have fsts: "map fst ?arrivals = evs" using assms(2) by simp
  then have mapped: "map (te_measurement_name \<circ> fst) ?arrivals = map te_measurement_name evs" by (metis map_map)
  have dist: "distinct (map (te_measurement_name \<circ> fst) ?arrivals)" unfolding mapped names by simp
  have set_names: "(te_measurement_name \<circ> fst) ` set ?arrivals = set (map te_measurement_name evs)" unfolding mapped [symmetric] by simp
  have newest: "te_measurement_name (fst (last ?arrivals)) = ''coolant_flow''"
    using last_map [OF ne, of "te_measurement_name \<circ> fst"] unfolding mapped names by simp
  have wf: "\<forall>e \<in> set ?arrivals. event_wf (fst e) \<and> te_asset_id (fst e) = k \<and> te_timestamp (fst e) = t"
    using evs by (auto dest: set_zip_leftD)
  have required: "set REQUIRED_MEASUREMENTS \<subseteq> set (map te_measurement_name evs)"
    unfolding names by (simp add: REQUIRED_MEASUREMENTS_def DEFAULT_MEASUREMENTS_def)
  have "\<exists>p' a'. ingest_all a ?arrivals =
      Ok (replicate (length ?arrivals - 1) (pending_outcome k t) @ [complete_outcome k t (sample_of k t p')], a') \<and>
    map_of (ps_values p') = map_of (ps_values (empty_pending 0)) ++ map_of (map (\<lambda>e. (te_measurement_name (fst e), te_value (fst e))) ?arrivals)"
    by (rule ingest_all_completes [OF _ _ ne dist wf])
      (use assms(1) required set_names newest in \<open>auto simp: empty_pending_def pending_wf_def dict_wf_def REQUIRED_MEASUREMENTS_def DEFAULT_MEASUREMENTS_def\<close>)
  then obtain p' a' where run: "ingest_all a ?arrivals =
      Ok (replicate (length evs - 1) (pending_outcome k t) @ [complete_outcome k t (sample_of k t p')], a')"
    and p': "map_of (ps_values p') = map_of (map (\<lambda>e. (te_measurement_name (fst e), te_value (fst e))) ?arrivals)"
    using assms(2) by (auto simp: empty_pending_def)
  have "dom (map_of (ps_values p')) = set (map te_measurement_name evs)"
    unfolding p' set_names [symmetric] by (simp add: dom_map_of_conv_image_fst image_image)
  then have "set DEFAULT_MEASUREMENTS \<subseteq> set (reading_names p')"
    using required by (auto simp: reading_names_def MEASUREMENT_ORDER_def REQUIRED_MEASUREMENTS_def dict_keys_dom)
  then have "complete_for k (sample_of k t p')"
    by (auto simp: complete_for_def sample_of_def dom_map_of_conv_image_fst image_image)
  then show ?thesis using run by (auto simp: sample_of_def)
qed

section \<open>The snapshot covers the fleet\<close>

lemma publish_assets_log:
  assumes "\<forall>asset \<in> set assets. \<exists>m ctx. map_of (pl_machines fleet) asset = Some m \<and>
    map_of (pl_contexts fleet) asset = Some ctx \<and> fm_asset_id m = asset \<and> asset \<noteq> []"
  shows "\<exists>rt' added. publish_assets (kafka_publish dumps append_log source) ts fleet assets (rt, entries) = (Ok (), rt', entries @ added) \<and>
    map fst added = concat (map (replicate 8) assets)"
  using assms
proof (induction assets arbitrary: rt entries)
  case (Cons asset assets)
  then obtain m ctx where m: "map_of (pl_machines fleet) asset = Some m" "map_of (pl_contexts fleet) asset = Some ctx"
    "fm_asset_id m = asset" "fm_asset_id m \<noteq> []" by auto
  obtain obs where obs: "observations_from_machine m ts ctx True = Ok obs" "plant_report asset ts obs"
    using machine_reports [OF m(4), of ts ctx] m(3) by blast
  have report: "res_bind (core_observations (machine_state m) asset ts ctx) (\<lambda>core.
      res_bind (derived_observations (machine_state m) asset ts ctx) (\<lambda>derived. Ok (core @ derived))) = Ok obs"
    using obs(1) m(3) by (simp add: observations_from_machine_def)
  have eight: "length obs = 8" using obs(2) arg_cong [of _ _ length] by (fastforce simp: plant_report_def)
  define sent where "sent = map2 (envelope_message dumps source) (event_ids rt (length obs)) obs"
  obtain rt1 where publish: "kafka_publish dumps append_log source obs (rt, entries) = (Ok (), rt1, entries @ sent)"
    using kafka_log [of dumps source obs rt entries] unfolding sent_def by blast
  obtain rt' added where rest: "publish_assets (kafka_publish dumps append_log source) ts fleet assets (rt1, entries @ sent) =
      (Ok (), rt', (entries @ sent) @ added)" "map fst added = concat (map (replicate 8) assets)"
    using Cons.IH [of rt1 "entries @ sent"] Cons.prems by auto
  have "length sent = 8" "\<forall>e \<in> set sent. fst e = asset"
    using obs(2) eight by (auto simp: sent_def event_ids_def envelope_message_def plant_report_def dest: set_zip_rightD)
  then have "map fst sent = replicate 8 asset" by (metis length_map map_eq_conv map_replicate_const)
  then show ?case using m report publish rest
    by (intro exI [of _ rt'] exI [of _ "sent @ added"]) simp
qed simp

lemma snapshot_covers_fleet:
  assumes "tick_fleet fleet = (Ok (), fleet')" "dict_keys (pl_contexts fleet') = dict_keys (pl_machines fleet')"
    and "\<forall>asset \<in> set (dict_keys (pl_machines fleet')). \<exists>m. map_of (pl_machines fleet') asset = Some m \<and> fm_asset_id m = asset \<and> asset \<noteq> []"
  shows "\<exists>rt' added. publish_kafka_snapshot tick_fleet (kafka_publish dumps append_log source) (fleet, rt, entries) =
      (Ok (fst (utc_now rt)), fleet', rt', entries @ added) \<and>
    map fst added = concat (map (replicate 8) (dict_keys (pl_machines fleet')))"
proof -
  have "\<forall>asset \<in> set (dict_keys (pl_machines fleet')). \<exists>m ctx. map_of (pl_machines fleet') asset = Some m \<and>
      map_of (pl_contexts fleet') asset = Some ctx \<and> fm_asset_id m = asset \<and> asset \<noteq> []"
    using assms(2,3) known_asset [of _ "pl_contexts fleet'"] by metis
  from publish_assets_log [OF this, of dumps source "fst (utc_now rt)" "snd (utc_now rt)" entries] assms(1)
  show ?thesis by (auto simp: publish_kafka_snapshot_def case_prod_beta)
qed

section \<open>Posting over a lossy network\<close>

text \<open>The client's post: the n-th attempt meets the n-th behaviour of the network.\<close>

definition lossy_post ::
    "'w OutboxDispatcher \<Rightarrow> (nat \<Rightarrow> network) \<Rightarrow> Observation \<Rightarrow> nat \<times> 'w platform \<Rightarrow> nat option \<times> nat \<times> 'w platform" where
  "lossy_post d net ob = (\<lambda>(n, pf). case network_post d (net n) ob pf of (response, pf') \<Rightarrow> (response, Suc n, pf'))"

definition holds :: "'w platform \<Rightarrow> Observation \<Rightarrow> bool" where
  "holds pf ob \<longleftrightarrow> observation_get (pf_observations pf) (obs_id ob) \<noteq> None"

text \<open>At most one copy of the observation was added.\<close>

definition stored_at_most_once :: "Observation \<Rightarrow> 'w platform \<Rightarrow> 'w platform \<Rightarrow> bool" where
  "stored_at_most_once ob pf pf' \<longleftrightarrow> queue_inv (queue_of pf') \<and>
     (pf_observations pf' = pf_observations pf \<or>
      \<not> holds pf ob \<and> pf_observations pf' = dict_set (obs_id ob) ob (pf_observations pf))"

lemma api_step_stored: "api_step ob pf pf' \<Longrightarrow> stored_at_most_once ob pf pf' \<and> holds pf' ob"
  by (auto simp: api_step_def stored_at_most_once_def holds_def observation_get_def)

lemma stored_later:
  assumes "stored_at_most_once ob pf pf1" "stored_at_most_once ob pf1 pf2"
  shows "stored_at_most_once ob pf pf2"
  using assms by (auto simp: stored_at_most_once_def holds_def observation_get_def)

lemma stored_kept: "stored_at_most_once ob pf pf' \<Longrightarrow> holds pf ob \<Longrightarrow> holds pf' ob"
  by (auto simp: stored_at_most_once_def holds_def observation_get_def)

lemma post_known: "holds pf ob \<Longrightarrow> post_observation d ob pf = (409, pf)"
  using create_status_known [of pf ob _ d] by (auto simp: holds_def)

lemma one_post:
  assumes adv: "dispatcher_advances (Some d)" and inv: "queue_inv (queue_of pf)"
    and post: "network_post d net ob pf = (response, pf')"
  shows "stored_at_most_once ob pf pf'" "net \<noteq> Request_Lost \<Longrightarrow> holds pf' ob" "response \<noteq> None \<longleftrightarrow> net = Working"
    "holds pf ob \<Longrightarrow> net = Working \<Longrightarrow> response = Some 409"
proof -
  obtain status pf1 where p: "post_observation d ob pf = (status, pf1)" by fastforce
  note step = api_step_stored [OF post_api_step [OF adv inv p]]
  have known: "holds pf ob \<Longrightarrow> status = 409" using post_known [of pf ob d] p by simp
  have same: "stored_at_most_once ob pf pf" using inv by (simp add: stored_at_most_once_def)
  have "response = (if net = Working then Some status else None) \<and> pf' = (if net = Request_Lost then pf else pf1)"
    using post p by (cases net) (auto simp: network_post_def)
  then show "stored_at_most_once ob pf pf'" "net \<noteq> Request_Lost \<Longrightarrow> holds pf' ob" "response \<noteq> None \<longleftrightarrow> net = Working"
    "holds pf ob \<Longrightarrow> net = Working \<Longrightarrow> response = Some 409"
    using step same known by auto
qed

text \<open>The last attempt and the ones before it.\<close>

lemma attempt_last:
  "network_post d (net n) ob pf = (response, pf1) \<Longrightarrow> http_attempt (lossy_post d net) ob 4 (n, pf) =
     (case response of
        None \<Rightarrow> (Err (AppError ''TransportError'' ''''), Suc n, pf1)
      | Some status \<Rightarrow> (if status = 409 \<or> 200 \<le> status \<and> status < 300 then Ok () else Err (AppError ''HTTPStatusError'' (nat_str status)), Suc n, pf1))"
  by (simp add: lossy_post_def MAX_ATTEMPTS_def split: option.split)

lemma attempt_earlier:
  "network_post d (net n) ob pf = (response, pf1) \<Longrightarrow> a < 4 \<Longrightarrow> http_attempt (lossy_post d net) ob a (n, pf) =
     (case response of
        None \<Rightarrow> http_attempt (lossy_post d net) ob (Suc a) (Suc n, pf1)
      | Some status \<Rightarrow> (if status = 409 \<or> 200 \<le> status \<and> status < 300 then Ok () else Err (AppError ''HTTPStatusError'' (nat_str status)), Suc n, pf1))"
  by (simp add: lossy_post_def MAX_ATTEMPTS_def split: option.split)

text \<open>Attempt \<open>i\<close> from now gets through to a platform that has the observation by then.\<close>

definition gets_through :: "(nat \<Rightarrow> network) \<Rightarrow> bool \<Rightarrow> nat \<Rightarrow> nat \<Rightarrow> bool" where
  "gets_through net known n i \<longleftrightarrow> net (n + i) = Working \<and> (known \<or> (\<exists>j < i. net (n + j) = Response_Lost)) \<and>
     (\<forall>j < i. net (n + j) \<noteq> Working)"

lemma gets_through_later:
  assumes "gets_through net known n (Suc i)" "known \<or> net n = Response_Lost \<Longrightarrow> known'"
  shows "gets_through net known' (Suc n) i"
proof -
  have "known' \<or> (\<exists>j < i. net (Suc n + j) = Response_Lost)"
  proof (cases "known \<or> net n = Response_Lost")
    case False
    then obtain j where j: "j < Suc i" "net (n + j) = Response_Lost" using assms(1) by (auto simp: gets_through_def)
    with False obtain j' where "j = Suc j'" by (cases j) auto
    with j show ?thesis by auto
  qed (use assms(2) in blast)
  moreover have "net (Suc n + j) \<noteq> Working" if "j < i" for j
    using assms(1) that by (auto simp: gets_through_def dest!: spec [of _ "Suc j"])
  ultimately show ?thesis using assms(1) by (auto simp: gets_through_def)
qed

lemma attempts:
  fixes d :: "'w OutboxDispatcher"
  assumes adv: "dispatcher_advances (Some d)" and inv: "queue_inv (queue_of pf)" and a: "a + k = 4"
    and run: "http_attempt (lossy_post d net) ob a (n, pf) = (r, n', pf')"
  shows "stored_at_most_once ob pf pf' \<and> (r = Ok () \<longrightarrow> holds pf' ob) \<and>
    (\<forall>i \<le> k. gets_through net (holds pf ob) n i \<longrightarrow> r = Ok ())"
  using inv a run
proof (induction k arbitrary: a n pf)
  case 0
  obtain response pf1 where p: "network_post d (net n) ob pf = (response, pf1)" by fastforce
  note one = one_post [OF adv 0(1) p]
  have "a = 4" using 0(2) by simp
  note last = attempt_last [where net = net and n = n and d = d and ob = ob, OF p, folded this]
  have "pf' = pf1" using 0(3) unfolding last by (auto split: option.splits)
  moreover have "r = Ok () \<Longrightarrow> net n = Working" using 0(3) one(3) unfolding last by (auto split: option.splits)
  moreover have "r = Ok ()" if "gets_through net (holds pf ob) n 0"
    using that 0(3) one(4) unfolding last by (auto simp: gets_through_def)
  ultimately show ?case using one(1,2) by auto
next
  case (Suc k)
  then have a: "a < 4" by simp
  obtain response pf1 where p: "network_post d (net n) ob pf = (response, pf1)" by fastforce
  note one = one_post [OF adv Suc.prems(1) p]
  note step = attempt_earlier [where net = net and n = n and d = d and ob = ob, OF p a]
  have inv1: "queue_inv (queue_of pf1)" using one(1) by (simp add: stored_at_most_once_def)
  show ?case
  proof (cases response)
    case None
    then have "http_attempt (lossy_post d net) ob (Suc a) (Suc n, pf1) = (r, n', pf')" using Suc.prems(3) unfolding step by simp
    from Suc.IH [OF inv1 _ this] Suc.prems(2)
    have IH: "stored_at_most_once ob pf1 pf'" "r = Ok () \<Longrightarrow> holds pf' ob"
      "\<And>i. i \<le> k \<Longrightarrow> gets_through net (holds pf1 ob) (Suc n) i \<Longrightarrow> r = Ok ()" by auto
    have lost: "net n \<noteq> Working" using one(3) None by auto
    have "r = Ok ()" if i: "i \<le> Suc k" "gets_through net (holds pf ob) n i" for i
    proof -
      obtain j where j: "i = Suc j" using lost i(2) by (cases i) (auto simp: gets_through_def)
      have "holds pf ob \<or> net n = Response_Lost \<Longrightarrow> holds pf1 ob" using stored_kept [OF one(1)] one(2) by auto
      from gets_through_later [OF i(2) [unfolded j] this] show ?thesis using IH(3) [of j] i(1) j by simp
    qed
    then show ?thesis using stored_later [OF one(1) IH(1)] IH(2) by blast
  next
    case (Some status)
    then have net: "net n = Working" using one(3) by auto
    have "pf' = pf1" "holds pf ob \<Longrightarrow> r = Ok ()" using Suc.prems(3) one(4) net Some unfolding step by auto
    moreover have "holds pf ob" if "gets_through net (holds pf ob) n i" for i
      using that net by (cases i) (auto simp: gets_through_def dest!: spec [of _ 0])
    ultimately show ?thesis using one(1) one(2) net by auto
  qed
qed

section \<open>Properties\<close>

text \<open>
  C17. What the plant publishes over MQTT reaches the platform: the bridge maps the message of an observation
  back to that observation, and once a request of it arrived, answered or not, and the message was delivered
  again, the message is acknowledged and the platform has the observation.
\<close>

theorem published_reading_reaches_platform:
  fixes d :: "'w OutboxDispatcher" and br :: "'w platform mqtt_bridge" and dumps :: "json \<Rightarrow> string" and n :: int
    and codec :: MqttCodec and ob :: Observation and site :: string and net :: network
  assumes codec: "renders dumps codec (JObj (observation_to_payload ob))" "reads_isoformat (mc_fromisoformat codec) (obs_timestamp ob)"
    and ob: "observation_wf ob" "topic_part site" "topic_part (obs_asset_id ob)" "topic_part (mt_name (obs_measurement_type ob))"
    and platform: "dispatcher_advances (Some d)" "queue_inv (queue_of (mb_api br))" "net \<noteq> Request_Lost"
  defines "msg \<equiv> mqtt_message dumps site n ob"
  defines "br' \<equiv> snd (op_run (mqtt_step codec d) [(msg, net), (msg, Working)] br)"
  shows "map_message codec msg rt = (Ok ob, rt) \<and> n \<in> set (mb_acknowledged br') \<and> holds (mb_api br') ob \<and>
    (holds (mb_api br) ob \<or> observation_get (pf_observations (mb_api br')) (obs_id ob) = Some ob)"
proof -
  have mapped: "map_message codec msg rt = (Ok ob, rt)" for rt
    unfolding msg_def by (rule published_message_mapped [OF codec ob(2,1,3,4)])
  then have same: "\<And>rt. fst (map_message codec msg rt) = Ok ob" by simp
  have br': "br' = snd (mqtt_step codec d (msg, Working) (snd (mqtt_step codec d (msg, net) br)))"
    by (simp add: br'_def split: prod.splits)
  from delivered_again [OF platform(1,2) same platform(3)] show ?thesis
    using mapped unfolding br' holds_def by (auto simp: msg_def mqtt_message_def)
qed

text \<open>
  C16. A posted reading is stored once: however the network treats the attempts, at most one copy of the
  observation is added, it is there when the publication returns, and the publication returns when one of
  the four attempts gets through after one whose response was lost: the conflict counts as success.
\<close>

theorem posted_reading_is_stored_once:
  fixes d :: "'w OutboxDispatcher" and pf :: "'w platform"
  assumes "dispatcher_advances (Some d)" "queue_inv (queue_of pf)"
    and "http_publish_one (lossy_post d net) ob (0, pf) = (r, n', pf')"
  shows "stored_at_most_once ob pf pf' \<and> (r = Ok () \<longrightarrow> holds pf' ob) \<and>
    (\<forall>i \<le> 3. gets_through net (holds pf ob) 0 i \<longrightarrow> r = Ok ())"
  using attempts [OF assms(1,2), of 1 3 net ob 0 r n' pf'] assms(3) unfolding http_publish_one_def by simp

text \<open>
  C4. A snapshot is answered: the eight observations of a machine at one instant, published to Kafka and read
  by the inference worker in one poll, are all accepted, complete one sample although the efficiency is not
  among the required measurements, and lead to an acknowledged result event for the machine and the instant.
\<close>

theorem snapshot_is_answered:
  fixes m :: FuelCellMachine and dumps :: "json \<Rightarrow> string" and w :: StreamingWorker
  assumes env: "broker_recovers env" "system_wf (we_system env)" "predicts_classes (we_system env)"
    and k: "k = fm_asset_id m" "k \<noteq> []" "uuids_fresh rt"
    and obs: "observations_from_machine m t ctx True = Ok obs"
    and json: "decodes_report env dumps source (zip (event_ids rt (length obs)) obs)" "reads_isoformat (we_fromisoformat env) t"
    and w: "knows env w k xs" "xs \<noteq> [] \<Longrightarrow> ts_timestamp (last xs) < t" "int (length xs) + 1 < clock_bound" "can_open (sw_assembler w) k t"
  shows "\<exists>entries rt' w' ev ys. kafka_publish dumps append_log source obs (rt, []) = (Ok (), rt', entries) \<and> length entries = 8 \<and>
    handle_messages env (map snd entries) w = (Ok True, w') \<and> sw_trace w' = sw_trace w @ ys \<and>
    Acked (we_results_topic env, k, ResultMessage ev) \<in> set ys \<and> fr_asset_id ev = k \<and> fr_source_timestamp ev = t"
proof -
  have report: "plant_report k t obs"
    by (rule machine_reports [of m t ctx]) (use k(1,2) obs in auto)
  define ids where "ids = event_ids rt (length obs)"
  obtain rt' where publish: "kafka_publish dumps append_log source obs (rt, []) =
      (Ok (), rt', map2 (envelope_message dumps source) ids obs)"
    using kafka_log [of dumps source obs rt "[]"] by (auto simp: ids_def)
  define evs where "evs = map2 (\<lambda>i. reading_of i source) ids obs"
  note carried = report_carried [OF report k(3) json(2,1), folded ids_def, folded evs_def]
  have names: "map te_measurement_name evs = [''stack_temperature'', ''stack_pressure'', ''current'', ''voltage'', ''fuel_flow'', ''power_output'', ''efficiency'', ''coolant_flow'']"
    by (rule trans [OF carried(3)]) (use report in \<open>simp add: plant_report_def\<close>)
  have eight: "length evs = 8" using arg_cong [OF names, of length] by simp
  then have ne: "evs \<noteq> []" by auto
  have entries: "length (map2 (envelope_message dumps source) ids obs) = 8" using eight by (simp add: evs_def)
  let ?nows = "map (we_monotonic env) [sw_ticks w..<sw_ticks w + length evs]"
  have "length ?nows = length evs" by simp
  from report_completes [OF w(4) this carried(2) names] obtain x a' where x: "ingest_all (sw_assembler w) (zip evs ?nows) =
      Ok (replicate (length evs - 1) (pending_outcome k t) @ [complete_outcome k t x], a')" "complete_for k x" "ts_timestamp x = t"
    by auto
  have "xs \<noteq> [] \<Longrightarrow> ts_timestamp (last xs) < ts_timestamp x" using w(2) x(3) by simp
  from handle_batch [OF env k(2) x(2) this w(3) w(1) carried(1) ne x(1)] obtain w' r e ys where
    "handle_messages env (map snd (map2 (envelope_message dumps source) ids obs)) w = (Ok True, w')" "sw_trace w' = sw_trace w @ ys"
    "Acked (we_results_topic env, k, ResultMessage (build_result_event (we_uuid5 env) r e)) \<in> set ys"
    "ir_asset_id r = k" "ir_timestamp r = t"
    using x(3) by auto
  then show ?thesis using publish entries
    by (intro exI [of _ "map2 (envelope_message dumps source) ids obs"] exI [of _ rt'] exI [of _ w']
        exI [of _ "build_result_event (we_uuid5 env) r e"] exI [of _ ys]) (simp add: build_result_event_def)
qed


section \<open>Witnesses\<close>

definition demo_reading_codec :: MqttCodec where
  "demo_reading_codec =
     \<lparr>mc_decode = \<lambda>s. Some (JObj (observation_to_payload Observation_Service.demo_reading)),
      mc_fromisoformat = \<lambda>s. Some (obs_timestamp Observation_Service.demo_reading), mc_float = \<lambda>s. None\<rparr>"

lemma demo_reading_parts:
  "observation_wf Observation_Service.demo_reading" "topic_part ''lab''" "topic_part (obs_asset_id Observation_Service.demo_reading)"
  "topic_part (mt_name (obs_measurement_type Observation_Service.demo_reading))" "obs_id Observation_Service.demo_reading \<noteq> []"
  by (simp_all add: observation_wf_def topic_part_def Observation_Service.demo_reading_def demo_series_def)

theorem published_reading_reaches_platform_witness:
  "\<exists>br'. br' = snd (op_run (mqtt_step demo_reading_codec demo_service)
       [(mqtt_message (\<lambda>j. ''{}'') ''lab'' 7 Observation_Service.demo_reading, Response_Lost),
        (mqtt_message (\<lambda>j. ''{}'') ''lab'' 7 Observation_Service.demo_reading, Working)] demo_bridge) \<and>
     7 \<in> set (mb_acknowledged br') \<and> holds (mb_api br') Observation_Service.demo_reading"
  using published_reading_reaches_platform [OF _ _ demo_reading_parts(1-4) demo_service_works(3) demo_bridge_inv,
      where dumps = "\<lambda>j. ''{}''" and codec = demo_reading_codec and net = Response_Lost and rt = demo_runtime and n = 7]
  by (simp add: renders_def reads_isoformat_def demo_reading_codec_def del: op_run.simps)

theorem posted_reading_is_stored_once_witness:
  "\<exists>n' pf'. http_publish_one (lossy_post demo_service (\<lambda>n. if n = 0 then Response_Lost else Working)) Observation_Service.demo_reading
       (0, demo_platform) = (Ok (), n', pf') \<and>
     stored_at_most_once Observation_Service.demo_reading demo_platform pf' \<and> holds pf' Observation_Service.demo_reading"
proof -
  let ?net = "\<lambda>n::nat. if n = 0 then Response_Lost else Working"
  obtain r n' pf' where run: "http_publish_one (lossy_post demo_service ?net) Observation_Service.demo_reading (0, demo_platform) = (r, n', pf')"
    by (metis prod.exhaust)
  have inv: "queue_inv (queue_of demo_platform)" using demo_platform_inv(1) [of demo_service] by (simp add: platform_inv_def)
  have through: "gets_through ?net known 0 1" for known by (simp add: gets_through_def)
  have one: "(1::nat) \<le> 3" by simp
  from posted_reading_is_stored_once [OF demo_service_works(3) inv run]
  have post: "stored_at_most_once Observation_Service.demo_reading demo_platform pf'"
    "r = Ok () \<longrightarrow> holds pf' Observation_Service.demo_reading"
    "\<forall>i \<le> 3. gets_through ?net (holds demo_platform Observation_Service.demo_reading) 0 i \<longrightarrow> r = Ok ()" by blast+
  with through one have "r = Ok ()" by blast
  with run post show ?thesis by (intro exI [of _ n'] exI [of _ pf']) simp
qed

text \<open>A rendering by the event identifier, and a worker that reads the messages of one report.\<close>

definition event_id_text :: "json \<Rightarrow> string" where
  "event_id_text j = (case json_get j ''event_id'' of JStr s \<Rightarrow> s | _ \<Rightarrow> [])"

definition report_environment :: "string \<Rightarrow> (string \<times> Observation) list \<Rightarrow> WorkerEnvironment" where
  "report_environment source ios =
     (demo_environment (\<lambda>n. True))\<lparr>we_decode := \<lambda>s.
        case map_of (map (\<lambda>(i, ob). (i, sort_keys (JObj (telemetry_envelope i source ob)))) ios) s of
          None \<Rightarrow> Err ''Expecting value''
        | Some j \<Rightarrow> Ok j\<rparr>"

lemma event_id_read: "event_id_text (sort_keys (JObj (telemetry_envelope i source ob))) = i"
proof -
  have "distinct (map fst (telemetry_envelope i source ob))" by (simp add: telemetry_envelope_def)
  from sort_keys_object(1) [OF this] show ?thesis by (simp add: event_id_text_def telemetry_envelope_def)
qed

lemma report_environment_decodes:
  "distinct (map fst ios) \<Longrightarrow> decodes_report (report_environment source ios) event_id_text source ios"
  unfolding decodes_report_def Let_def
proof
  fix io assume d: "distinct (map fst ios)" and io: "io \<in> set ios"
  let ?table = "map (\<lambda>(i, ob). (i, sort_keys (JObj (telemetry_envelope i source ob)))) ios"
  have "map fst ?table = map fst ios" by (simp add: comp_def case_prod_unfold)
  then have "map_of ?table (fst io) = Some (sort_keys (JObj (telemetry_envelope (fst io) source (snd io))))"
    using d io by (intro map_of_is_SomeI) (auto simp: image_iff case_prod_unfold comp_def intro!: bexI [of _ io] simp del: sort_keys.simps)
  then show "we_decode (report_environment source ios) (event_id_text (sort_keys (JObj (telemetry_envelope (fst io) source (snd io))))) =
      Ok (sort_keys (JObj (telemetry_envelope (fst io) source (snd io))))"
    unfolding event_id_read by (simp add: report_environment_def del: sort_keys.simps)
qed

theorem snapshot_is_answered_witness:
  "\<exists>obs entries rt' env w' ev. observations_from_machine (default_machine ''stack-01'') 0 \<lparr>tc_run_id = ''run'', tc_sensor_bias = []\<rparr> True = Ok obs \<and>
     kafka_publish event_id_text append_log ''sim'' obs (demo_runtime, []) = (Ok (), rt', entries) \<and>
     handle_messages env (map snd entries) demo_worker = (Ok True, w') \<and>
     Acked (''results'', ''stack-01'', ResultMessage ev) \<in> set (sw_trace w') \<and> fr_source_timestamp ev = 0"
proof -
  let ?m = "default_machine ''stack-01''" and ?ctx = "\<lparr>tc_run_id = ''run'', tc_sensor_bias = []\<rparr>"
  have k: "''stack-01'' = fm_asset_id ?m" by (simp add: default_machine_def mk_machine_def)
  have "fm_asset_id ?m \<noteq> []" unfolding k [symmetric] by simp
  from machine_reports [OF this] obtain obs where obs: "observations_from_machine ?m 0 ?ctx True = Ok obs" by blast
  define ids where "ids = event_ids demo_runtime (length obs)"
  define env where "env = report_environment ''sim'' (zip ids obs)"
  have "length ids = length obs" by (simp add: ids_def event_ids_def)
  moreover have "distinct ids"
    by (simp add: ids_def event_ids_def demo_runtime_def distinct_map inj_on_def)
  ultimately have "distinct (map fst (zip ids obs))" by simp
  from report_environment_decodes [OF this] have json: "decodes_report env event_id_text ''sim'' (zip ids obs)" by (simp add: env_def)
  have env: "broker_recovers env" "we_system env = demo_system" "we_results_topic env = ''results''"
    "we_fromisoformat env = (\<lambda>s. Some 0)" "we_send env = (\<lambda>n. True)"
    by (auto simp: broker_recovers_def env_def report_environment_def demo_environment_def)
  have "knows env demo_worker ''stack-01'' []" "can_open (sw_assembler demo_worker) ''stack-01'' 0"
    by (simp_all add: knows_def demo_worker_def mk_worker_def can_open_def mk_assembler_def)
  with snapshot_is_answered [OF env(1) _ _ k _ demo_runtime_fresh obs json [unfolded ids_def], of demo_worker "[]"] demo_system_wf env
  obtain entries rt' w' ev ys where "kafka_publish event_id_text append_log ''sim'' obs (demo_runtime, []) = (Ok (), rt', entries)"
    "handle_messages env (map snd entries) demo_worker = (Ok True, w')" "sw_trace w' = sw_trace demo_worker @ ys"
    "Acked (''results'', ''stack-01'', ResultMessage ev) \<in> set ys" "fr_source_timestamp ev = 0"
    by (auto simp: clock_bound_def reads_isoformat_def)
  then show ?thesis using obs
    by (intro exI [of _ obs] exI [of _ entries] exI [of _ rt'] exI [of _ env] exI [of _ w'] exI [of _ ev]) simp
qed

end
