(* ===== verification/Spec2Isabelle.thy ===== *)
theory Spec2Isabelle
  imports Reasoning_History Reasoning_Bridge Operator_Investigations Plant_Telemetry
begin

text \<open>
  A verification library for ODIS, an operational decision and reasoning engine for
  industrial telemetry.
\<close>

end
